(* ===== verification/Prelude.thy ===== *)
theory Prelude
  imports Complex_Main
begin

text \<open>
  Shared vocabulary of the development: the Python values every component uses
  (decimals, instants, days), the rendering of numbers in messages, the result
  type of an operation that may raise, and the generic facts on lists, sums and
  options that the component proofs rest on.
\<close>

section \<open>Collections of facts\<close>

named_theorems books_simps \<open>frame equations of the billing operations\<close>

named_theorems row_simps \<open>how the table operations act on lookups and rows\<close>

named_theorems field_defs \<open>definitions that only read or write record fields\<close>

section \<open>Python values\<close>

text \<open>
  A Decimal is its exact value, a datetime the seconds since the epoch (UTC, as
  Django stores it) and a date the day number; \<open>date_of\<close> is \<open>datetime.date()\<close>.
\<close>

type_synonym decimal = rat
type_synonym instant = int
type_synonym day = int

definition date_of :: "instant \<Rightarrow> day" where
  "date_of t = t div 86400"

definition days :: "nat \<Rightarrow> int" where
  "days n = 86400 * int n"

definition hours :: "nat \<Rightarrow> int" where
  "hours n = 3600 * int n"

text \<open>\<open>Decimal.quantize\<close> with \<open>ROUND_HALF_UP\<close>: ties go away from zero.\<close>

definition quantize :: "nat \<Rightarrow> decimal \<Rightarrow> decimal" where
  "quantize places x =
     (if x < 0 then - (of_int \<lfloor>(- x) * 10 ^ places + 1 / 2\<rfloor> / 10 ^ places)
      else of_int \<lfloor>x * 10 ^ places + 1 / 2\<rfloor> / 10 ^ places)"

section \<open>Rendering numbers\<close>

definition digit_char :: "nat \<Rightarrow> char" where
  "digit_char d = char_of (48 + d)"

fun show_nat :: "nat \<Rightarrow> string" where
  "show_nat n = (if n < 10 then [digit_char n] else show_nat (n div 10) @ [digit_char (n mod 10)])"

declare show_nat.simps [simp del]

definition show_int :: "int \<Rightarrow> string" where
  "show_int i = (if i < 0 then ''-'' @ show_nat (nat (- i)) else show_nat (nat i))"

fun commas_rev :: "string \<Rightarrow> string" where
  "commas_rev (a # b # c # d # xs) = a # b # c # CHR '','' # commas_rev (d # xs)"
| "commas_rev xs = xs"

definition commas :: "string \<Rightarrow> string" where
  "commas s = rev (commas_rev (rev s))"

definition pad2 :: "nat \<Rightarrow> string" where
  "pad2 n = [digit_char (n div 10), digit_char (n mod 10)]"

text \<open>\<open>str\<close> of an amount with two places, and the format \<open>,.2f\<close> of one.\<close>

definition show_amount :: "decimal \<Rightarrow> string" where
  "show_amount x =
     (let n = nat \<lfloor>\<bar>x\<bar> * 100\<rfloor>
      in (if x < 0 then ''-'' else '''') @ show_nat (n div 100) @ ''.'' @ pad2 (n mod 100))"

definition format_amount :: "decimal \<Rightarrow> string" where
  "format_amount x =
     (let n = nat \<lfloor>\<bar>x\<bar> * 100\<rfloor>
      in (if x < 0 then ''-'' else '''') @ commas (show_nat (n div 100)) @ ''.'' @ pad2 (n mod 100))"

section \<open>Decimal division\<close>

text \<open>A quotient is rounded to the 28 significant digits of Python's default context.\<close>

definition round_half_even :: "decimal \<Rightarrow> int" where
  "round_half_even x =
     (let f = \<lfloor>x\<rfloor>; r = x - of_int f
      in if r < 1 / 2 then f else if 1 / 2 < r then f + 1 else if even f then f else f + 1)"

text \<open>\<open>quantize\<close> with the context's own rounding, half to even.\<close>

definition quantize_even :: "nat \<Rightarrow> decimal \<Rightarrow> decimal" where
  "quantize_even places x =
     (if x < 0 then - of_int (round_half_even (- x * 10 ^ places)) / 10 ^ places
      else of_int (round_half_even (x * 10 ^ places)) / 10 ^ places)"

definition pow10 :: "int \<Rightarrow> decimal" where
  "pow10 i = (if 0 \<le> i then 10 ^ nat i else 1 / 10 ^ nat (- i))"

text \<open>The number \<open>k\<close> of digits before the point: \<open>10 ^ (k - 1) \<le> x < 10 ^ k\<close>.\<close>

definition magnitude :: "decimal \<Rightarrow> int" where
  "magnitude x =
     (let (p, q) = quotient_of x;
          k = int (length (show_nat (nat p))) - int (length (show_nat (nat q)))
      in if x < pow10 k then k else k + 1)"

definition ctx :: "decimal \<Rightarrow> decimal" where
  "ctx x =
     (if x = 0 then 0
      else let s = 28 - magnitude \<bar>x\<bar>
           in (if x < 0 then - 1 else 1) * of_int (round_half_even (\<bar>x\<bar> * pow10 s)) / pow10 s)"

definition d_mul :: "decimal \<Rightarrow> decimal \<Rightarrow> decimal" where
  "d_mul x y = ctx (x * y)"

definition d_div :: "decimal \<Rightarrow> decimal \<Rightarrow> decimal" where
  "d_div x y = ctx (x / y)"

section \<open>Rendering instants\<close>

text \<open>
  The civil date of a day number (proleptic Gregorian calendar, 400-year eras of
  146097 days) and \<open>strftime("%Y-%m-%d %H:%M")\<close> of an instant after the epoch.
\<close>

definition civil_date :: "day \<Rightarrow> int \<times> int \<times> int" where
  "civil_date day =
     (let z = day + 719468;
          era = z div 146097;
          doe = z - era * 146097;
          yoe = (doe - doe div 1460 + doe div 36524 - doe div 146096) div 365;
          doy = doe - (365 * yoe + yoe div 4 - yoe div 100);
          mp = (5 * doy + 2) div 153;
          d = doy - (153 * mp + 2) div 5 + 1;
          m = (if mp < 10 then mp + 3 else mp - 9)
      in (yoe + era * 400 + (if m \<le> 2 then 1 else 0), m, d))"

definition show_minute :: "instant \<Rightarrow> string" where
  "show_minute t =
     (let (y, m, d) = civil_date (date_of t); s = t mod 86400
      in show_int y @ ''-'' @ pad2 (nat m) @ ''-'' @ pad2 (nat d) @ '' ''
         @ pad2 (nat (s div 3600)) @ '':'' @ pad2 (nat (s mod 3600 div 60)))"

section \<open>Text helpers\<close>

definition starts_with :: "string \<Rightarrow> string \<Rightarrow> bool" where
  "starts_with s p \<longleftrightarrow> take (length p) s = p"

lemma starts_with_append [simp]: "starts_with (p @ s) p"
  by (simp add: starts_with_def)

definition is_space :: "char \<Rightarrow> bool" where
  "is_space c \<longleftrightarrow> c \<in> set (map char_of [9, 10, 11, 12, 13, 28, 29, 30, 31, 32 :: nat])"

text \<open>\<open>str.strip()\<close> on ASCII text.\<close>

definition strip :: "string \<Rightarrow> string" where
  "strip s = rev (dropWhile is_space (rev (dropWhile is_space s)))"

text \<open>\<open>str.upper()\<close> and \<open>str.lower()\<close> on ASCII text.\<close>

definition upper_char :: "char \<Rightarrow> char" where
  "upper_char c =
     (let n = of_char c :: nat in if 97 \<le> n \<and> n \<le> 122 then char_of (n - 32) else c)"

definition lower_char :: "char \<Rightarrow> char" where
  "lower_char c =
     (let n = of_char c :: nat in if 65 \<le> n \<and> n \<le> 90 then char_of (n + 32) else c)"

definition upper :: "string \<Rightarrow> string" where
  "upper s = map upper_char s"

definition lower :: "string \<Rightarrow> string" where
  "lower s = map lower_char s"

section \<open>Results\<close>

text \<open>An operation that may raise returns \<open>Inl\<close> of the error or \<open>Inr\<close> of its value.\<close>

definition bind_result :: "'e + 'a \<Rightarrow> ('a \<Rightarrow> 'e + 'b) \<Rightarrow> 'e + 'b" where
  "bind_result r f = (case r of Inl e \<Rightarrow> Inl e | Inr x \<Rightarrow> f x)"

lemma bind_result_simps [simp]:
  "bind_result (Inl e) f = Inl e"
  "bind_result (Inr x) f = f x"
  by (simp_all add: bind_result_def)

lemma bind_result_Inr_iff:
  "bind_result r f = Inr y \<longleftrightarrow> (\<exists>x. r = Inr x \<and> f x = Inr y)"
  by (cases r) simp_all

section \<open>Generic facts\<close>

lemma sum_list_filter_neutral:
  fixes f :: "'a \<Rightarrow> 'b::comm_monoid_add"
  assumes "\<And>x. x \<in> set xs \<Longrightarrow> \<not> P x \<Longrightarrow> f x = 0"
  shows "sum_list (map f (filter P xs)) = sum_list (map f xs)"
  using assms by (induction xs) auto

lemma filter_agree:
  assumes "\<And>x. x \<in> set xs \<Longrightarrow> P x \<longleftrightarrow> Q x"
  shows "filter P xs = filter Q xs"
  using assms by (induction xs) auto

lemma sum_list_partition:
  fixes f :: "'a \<Rightarrow> 'b::comm_monoid_add"
  shows "sum_list (map f xs) = sum_list (map f (filter P xs)) + sum_list (map f (filter (Not \<circ> P) xs))"
  by (induction xs) (auto simp: ac_simps)

lemma sum_list_pos_nonneg:
  fixes f :: "'a \<Rightarrow> 'b::ordered_comm_monoid_add"
  assumes "\<And>x. x \<in> set xs \<Longrightarrow> 0 \<le> f x"
  shows "0 \<le> sum_list (map f xs)"
  using assms by (induction xs) auto

lemma map_update_other:
  assumes "\<And>r. r \<in> set xs \<Longrightarrow> \<not> P r"
  shows "map (\<lambda>r. if P r then f r else r) xs = xs"
  using assms by (induction xs) auto

lemma find_append:
  "List.find P (xs @ ys) = (case List.find P xs of None \<Rightarrow> List.find P ys | Some x \<Rightarrow> Some x)"
  by (induction xs) auto

lemma find_None_iff_filter: "List.find P xs = None \<longleftrightarrow> filter P xs = []"
  by (induction xs) auto

lemma find_SomeD: "List.find P xs = Some x \<Longrightarrow> x \<in> set xs \<and> P x"
  by (induction xs) (auto split: if_splits)

lemma find_cong_set:
  assumes "\<And>x. x \<in> set xs \<Longrightarrow> P x \<longleftrightarrow> Q x"
  shows "List.find P xs = List.find Q xs"
  using assms by (induction xs) auto

lemma sort_key_cong_on:
  "(\<And>x. x \<in> set xs \<Longrightarrow> f x = g x) \<Longrightarrow> sort_key f xs = sort_key g xs"
proof (induction xs)
  case Nil
  then show ?case by simp
next
  case (Cons x xs)
  have "insort_key f x ys = insort_key g x ys" if "set ys \<subseteq> set xs" for ys
    using that Cons.prems by (induction ys) auto
  with Cons show ?case by simp
qed

lemma sort_key_map:
  assumes "\<And>x. x \<in> set xs \<Longrightarrow> f (h x) = g x"
  shows "sort_key f (map h xs) = map h (sort_key g xs)"
proof -
  have "map h (sort_key (\<lambda>a. f (h a)) ys) = sort_key f (map h ys)" for ys
  proof (induction ys)
    case (Cons y ys)
    have "map h (insort_key (\<lambda>a. f (h a)) y zs) = insort_key f (h y) (map h zs)" for zs
      by (induction zs) auto
    with Cons show ?case by simp
  qed simp
  moreover have "sort_key g xs = sort_key (\<lambda>a. f (h a)) xs"
    using assms by (intro sort_key_cong_on) simp
  ultimately show ?thesis by simp
qed

lemma sum_list_sort_key:
  fixes f :: "'a \<Rightarrow> 'b::comm_monoid_add"
  shows "sum_list (map f (sort_key k xs)) = sum_list (map f xs)"
proof -
  have "sum_list (map f (insort_key k x ys)) = f x + sum_list (map f ys)" for x ys
    by (induction ys) (auto simp: ac_simps)
  then show ?thesis
    by (induction xs) simp_all
qed

lemma quantize_nonneg: "0 \<le> x \<Longrightarrow> 0 \<le> quantize n x"
  by (simp add: quantize_def)

lemma floor_half [simp]: "\<lfloor>1 / 2 :: rat\<rfloor> = 0"
  by (rule floor_unique) simp_all

lemma quantize_zero [simp]: "quantize n 0 = 0"
  by (simp add: quantize_def)

lemma quantize_mono:
  assumes "0 \<le> x" and "x \<le> y"
  shows "quantize n x \<le> quantize n y"
proof -
  have "x * 10 ^ n + 1 / 2 \<le> y * 10 ^ n + 1 / 2"
    using assms by (simp add: mult_right_mono)
  then have "\<lfloor>x * 10 ^ n + 1 / 2\<rfloor> \<le> \<lfloor>y * 10 ^ n + 1 / 2\<rfloor>"
    by (rule floor_mono)
  then show ?thesis
    using assms by (simp add: quantize_def divide_right_mono)
qed

lemma quantize_idem_int:
  assumes "x = of_int k / 10 ^ n" and "0 \<le> x"
  shows "quantize n x = x"
proof -
  have "x * 10 ^ n + 1 / 2 = of_int k + 1 / 2"
    using assms(1) by simp
  moreover have "\<lfloor>of_int k + (1 / 2 :: rat)\<rfloor> = k"
    by (intro floor_unique) simp_all
  ultimately have "\<lfloor>x * 10 ^ n + 1 / 2\<rfloor> = k"
    by (simp only:)
  then show ?thesis
    using assms by (simp add: quantize_def)
qed

lemma quantize_error:
  assumes "0 \<le> x"
  shows "\<bar>quantize n x - x\<bar> \<le> 1 / (2 * 10 ^ n)"
proof -
  let ?p = "10 ^ n :: rat"
  let ?f = "of_int \<lfloor>x * ?p + 1 / 2\<rfloor> :: rat"
  have f: "x * ?p + 1 / 2 - 1 < ?f" "?f \<le> x * ?p + 1 / 2"
    by linarith+
  have "quantize n x - x = (?f - x * ?p) / ?p"
    using assms by (simp add: quantize_def field_simps)
  moreover have "\<bar>?f - x * ?p\<bar> \<le> 1 / 2"
    using f by linarith
  then have "\<bar>?f - x * ?p\<bar> / ?p \<le> (1 / 2) / ?p"
    by (rule divide_right_mono) simp
  ultimately show ?thesis
    by (simp add: abs_divide)
qed

section \<open>Reading a number back, sums by key\<close>

definition read_nat :: "string \<Rightarrow> nat" where
  "read_nat s = foldl (\<lambda>n c. 10 * n + (of_char c - 48)) 0 s"

lemma of_digit_char: "d < 10 \<Longrightarrow> of_char (digit_char d) = (48 + d :: nat)"
  by (simp add: digit_char_def)

lemma read_show_nat [simp]: "read_nat (show_nat n) = n"
proof (induction n rule: show_nat.induct)
  case (1 n)
  then show ?case
    by (subst show_nat.simps) (simp add: read_nat_def of_digit_char)
qed

text \<open>A sum over rows with distinct keys is a sum over the keys; a partition keeps a sum.\<close>

lemma sum_list_by_key:
  fixes h :: "'k \<Rightarrow> 'b::comm_monoid_add"
  assumes "distinct (map g xs)" and "distinct ks" and "g ` set xs = set ks"
    and "\<And>x. x \<in> set xs \<Longrightarrow> f x = h (g x)"
  shows "sum_list (map f xs) = sum_list (map h ks)"
proof -
  have "sum_list (map f xs) = sum_list (map h (map g xs))"
    unfolding map_map using assms(4) by (intro arg_cong [where f = sum_list] map_cong) auto
  also have "\<dots> = sum h (set (map g xs))"
    by (rule sum_list_distinct_conv_sum_set [OF assms(1)])
  also have "\<dots> = sum_list (map h ks)"
    using sum_list_distinct_conv_sum_set [OF assms(2), of h] assms(3) by simp
  finally show ?thesis .
qed

lemma sum_list_by_class:
  fixes f :: "'a \<Rightarrow> 'b::comm_monoid_add"
  assumes "distinct ks" and "g ` set xs \<subseteq> set ks"
  shows "sum_list (map (\<lambda>k. sum_list (map f (filter (\<lambda>x. g x = k) xs))) ks) = sum_list (map f xs)"
proof -
  have "sum (\<lambda>k. sum_list (map f (filter (\<lambda>x. g x = k) xs))) (set ks) = sum_list (map f xs)"
    using assms(2)
  proof (induction xs)
    case (Cons x xs)
    have "sum (\<lambda>k. sum_list (map f (filter (\<lambda>x. g x = k) (x # xs)))) (set ks)
        = sum (\<lambda>k. (if k = g x then f x else 0) + sum_list (map f (filter (\<lambda>x. g x = k) xs))) (set ks)"
      by (rule sum.cong) auto
    also have "\<dots> = (\<Sum>k \<in> set ks. if k = g x then f x else 0)
        + sum (\<lambda>k. sum_list (map f (filter (\<lambda>x. g x = k) xs))) (set ks)"
      by (rule sum.distrib)
    also have "\<dots> = f x + sum_list (map f xs)"
      using Cons by (simp add: sum.delta')
    finally show ?case by simp
  qed simp
  then show ?thesis
    using sum_list_distinct_conv_sum_set [OF assms(1)] by metis
qed

end
