(* ===== verification/Table.thy ===== *)
theory Table
  imports Prelude
begin

text \<open>
  The database tables the Django models stand for. A table is the list of its
  rows in insertion order and the next primary key; \<open>row_store\<close> is the contract
  of the ORM calls the applications make on one table, and \<open>guarded_machine\<close> the
  contract of a component whose operations either raise, and then leave no
  trace, or move from a good state to a good state.
\<close>

section \<open>Rows and keys\<close>

record 'r table =
  rows :: "'r list"
  next_pk :: nat

definition empty_table :: "'r table" where
  "empty_table = \<lparr>rows = [], next_pk = 1\<rparr>"

definition lookup :: "('r \<Rightarrow> nat) \<Rightarrow> nat \<Rightarrow> 'r table \<Rightarrow> 'r option" where
  "lookup key k t = List.find (\<lambda>r. key r = k) (rows t)"

definition update :: "('r \<Rightarrow> nat) \<Rightarrow> nat \<Rightarrow> ('r \<Rightarrow> 'r) \<Rightarrow> 'r table \<Rightarrow> 'r table" where
  "update key k f t = t\<lparr>rows := map (\<lambda>r. if key r = k then f r else r) (rows t)\<rparr>"

definition create :: "(nat \<Rightarrow> 'r) \<Rightarrow> 'r table \<Rightarrow> 'r table" where
  "create mk t = \<lparr>rows = rows t @ [mk (next_pk t)], next_pk = Suc (next_pk t)\<rparr>"

definition delete_where :: "('r \<Rightarrow> bool) \<Rightarrow> 'r table \<Rightarrow> 'r table" where
  "delete_where P t = t\<lparr>rows := filter (\<lambda>r. \<not> P r) (rows t)\<rparr>"

definition well_keyed :: "('r \<Rightarrow> nat) \<Rightarrow> 'r table \<Rightarrow> bool" where
  "well_keyed key t \<longleftrightarrow> distinct (map key (rows t)) \<and> (\<forall>r \<in> set (rows t). key r < next_pk t)"

section \<open>Laws of the table operations\<close>

lemma rows_update [row_simps]:
  "rows (update key k f t) = map (\<lambda>r. if key r = k then f r else r) (rows t)"
  by (simp add: update_def)

lemma rows_create [row_simps]: "rows (create mk t) = rows t @ [mk (next_pk t)]"
  by (simp add: create_def)

lemma rows_delete_where [row_simps]:
  "rows (delete_where P t) = filter (\<lambda>r. \<not> P r) (rows t)"
  by (simp add: delete_where_def)

lemma lookup_SomeD: "lookup key k t = Some r \<Longrightarrow> r \<in> set (rows t) \<and> key r = k"
  by (auto simp: lookup_def dest: find_SomeD)

lemma lookup_NoneD: "lookup key k t = None \<Longrightarrow> r \<in> set (rows t) \<Longrightarrow> key r \<noteq> k"
  by (auto simp: lookup_def find_None_iff)

lemma lookup_in_rows:
  assumes "well_keyed key t" and "r \<in> set (rows t)"
  shows "lookup key (key r) t = Some r"
proof -
  obtain r' where r': "lookup key (key r) t = Some r'"
    using assms(2) lookup_NoneD by (metis not_Some_eq)
  then have "r' \<in> set (rows t)" and "key r' = key r"
    by (auto dest: lookup_SomeD)
  with assms have "r' = r"
    by (auto simp: well_keyed_def distinct_map dest: inj_onD)
  with r' show ?thesis by simp
qed

lemma lookup_iff:
  "well_keyed key t \<Longrightarrow> lookup key k t = Some r \<longleftrightarrow> r \<in> set (rows t) \<and> key r = k"
  by (auto dest: lookup_SomeD intro: lookup_in_rows)

lemma lookup_update [row_simps]:
  assumes "\<And>r. key (f r) = key r"
  shows "lookup key k' (update key k f t) =
           (if k' = k then map_option f (lookup key k t) else lookup key k' t)"
proof -
  have "List.find (\<lambda>r. key r = k') (map (\<lambda>r. if key r = k then f r else r) xs) =
          (if k' = k then map_option f (List.find (\<lambda>r. key r = k) xs)
           else List.find (\<lambda>r. key r = k') xs)" for xs
    using assms by (induction xs) auto
  then show ?thesis
    by (simp add: lookup_def rows_update)
qed

lemma lookup_create [row_simps]:
  assumes "well_keyed key t" and "key (mk (next_pk t)) = next_pk t"
  shows "lookup key k (create mk t) =
           (if k = next_pk t then Some (mk (next_pk t)) else lookup key k t)"
proof -
  have "lookup key (next_pk t) t = None"
    using assms(1) by (auto simp: lookup_def well_keyed_def find_None_iff)
  with assms(2) show ?thesis
    by (auto simp: lookup_def rows_create find_append split: option.split)
qed

lemma well_keyed_update:
  assumes "\<And>r. key (f r) = key r" and "well_keyed key t"
  shows "well_keyed key (update key k f t)"
proof -
  have same: "key \<circ> (\<lambda>r. if key r = k then f r else r) = key"
    using assms(1) by auto
  have "distinct (map key (rows (update key k f t)))"
    using assms(2) by (simp add: rows_update same well_keyed_def)
  moreover have "\<forall>r \<in> set (rows (update key k f t)). key r < next_pk t"
    using assms by (auto simp: rows_update well_keyed_def)
  ultimately show ?thesis
    by (simp add: well_keyed_def update_def)
qed

lemma well_keyed_create:
  "well_keyed key t \<Longrightarrow> key (mk (next_pk t)) = next_pk t \<Longrightarrow> well_keyed key (create mk t)"
  by (auto simp: well_keyed_def create_def)

lemma well_keyed_delete_where: "well_keyed key t \<Longrightarrow> well_keyed key (delete_where P t)"
  by (auto simp: well_keyed_def delete_where_def distinct_map_filter)

lemma well_keyed_empty: "well_keyed key empty_table"
  by (simp add: well_keyed_def empty_table_def)

lemma update_same:
  assumes "\<And>r. lookup key k t = Some r \<Longrightarrow> f r = r" and "well_keyed key t"
  shows "update key k f t = t"
proof -
  have "map (\<lambda>r. if key r = k then f r else r) (rows t) = rows t"
    using assms lookup_in_rows by (intro map_idI) fastforce
  then show ?thesis by (simp add: update_def)
qed

section \<open>The contract of one table\<close>

text \<open>
  What the applications rely on when they use a table through the ORM: \<open>get(pk)\<close>
  sees the last saved row, saving one row leaves the others alone, a created row
  gets a key no row had, and the keys stay unique.
\<close>

locale row_store =
  fixes key :: "'r \<Rightarrow> nat"
    and get :: "nat \<Rightarrow> 's \<Rightarrow> 'r option"
    and save :: "nat \<Rightarrow> ('r \<Rightarrow> 'r) \<Rightarrow> 's \<Rightarrow> 's"
    and add :: "(nat \<Rightarrow> 'r) \<Rightarrow> 's \<Rightarrow> 's"
    and content :: "'s \<Rightarrow> 'r list"
    and fresh :: "'s \<Rightarrow> nat"
    and ok :: "'s \<Rightarrow> bool"
  assumes get_key: "get k s = Some r \<Longrightarrow> key r = k"
    and get_content: "ok s \<Longrightarrow> get k s = Some r \<longleftrightarrow> r \<in> set (content s) \<and> key r = k"
    and get_save: "(\<And>r. key (f r) = key r) \<Longrightarrow>
          get k' (save k f s) = (if k' = k then map_option f (get k s) else get k' s)"
    and get_add: "ok s \<Longrightarrow> key (mk (fresh s)) = fresh s \<Longrightarrow>
          get k (add mk s) = (if k = fresh s then Some (mk (fresh s)) else get k s)"
    and fresh_unused: "ok s \<Longrightarrow> get (fresh s) s = None"
    and ok_save: "(\<And>r. key (f r) = key r) \<Longrightarrow> ok s \<Longrightarrow> ok (save k f s)"
    and ok_add: "ok s \<Longrightarrow> key (mk (fresh s)) = fresh s \<Longrightarrow> ok (add mk s)"
begin

lemma save_frame:
  assumes "\<And>r. key (f r) = key r" and "k' \<noteq> k"
  shows "get k' (save k f s) = get k' s"
  using assms by (simp add: get_save)

lemma add_keeps:
  assumes "ok s" and "key (mk (fresh s)) = fresh s" and "get k s = Some r"
  shows "get k (add mk s) = Some r"
  using assms fresh_unused by (auto simp: get_add)

lemma content_unique:
  assumes "ok s" and "r \<in> set (content s)" and "r' \<in> set (content s)" and "key r = key r'"
  shows "r = r'"
  using assms get_content by (metis option.inject)

lemma save_save:
  assumes "\<And>r. key (f r) = key r" and "\<And>r. key (g r) = key r"
  shows "get k (save k g (save k f s)) = map_option (g \<circ> f) (get k s)"
  using assms by (simp add: get_save option.map_comp)

end

interpretation tbl: row_store key "lookup key" "update key" create rows next_pk "well_keyed key"
  for key :: "'r \<Rightarrow> nat"
proof (unfold_locales, goal_cases)
  case (5 s)
  then show ?case
    by (auto simp: lookup_def well_keyed_def find_None_iff)
qed (auto simp: lookup_iff lookup_update lookup_create well_keyed_update well_keyed_create
    dest: lookup_SomeD)

section \<open>Components as guarded machines\<close>

text \<open>
  A component with an operation type: an operation either raises, and its
  transaction is rolled back, or yields the next state. \<open>run\<close> performs a list of
  operations, skipping over the ones that raise as a server does between
  requests.
\<close>

primrec run_ops :: "('op \<Rightarrow> 's \<Rightarrow> 'e + 's) \<Rightarrow> 'op list \<Rightarrow> 's \<Rightarrow> 's" where
  "run_ops step [] s = s"
| "run_ops step (x # xs) s = run_ops step xs (case step x s of Inl e \<Rightarrow> s | Inr s' \<Rightarrow> s')"

lemma run_ops_append: "run_ops step (xs @ ys) s = run_ops step ys (run_ops step xs s)"
  by (induction xs arbitrary: s) auto

locale guarded_machine =
  fixes step :: "'op \<Rightarrow> 's \<Rightarrow> 'e + 's"
    and good :: "'s \<Rightarrow> bool"
  assumes step_good: "good s \<Longrightarrow> step x s = Inr s' \<Longrightarrow> good s'"
begin

lemma run_good: "good s \<Longrightarrow> good (run_ops step xs s)"
proof (induction xs arbitrary: s)
  case Nil
  then show ?case by simp
next
  case (Cons x xs)
  then show ?case
    by (cases "step x s") (auto intro: step_good)
qed

lemma run_prefix_good: "good s \<Longrightarrow> xs = ys @ zs \<Longrightarrow> good (run_ops step ys s)"
  by (rule run_good)

end

text \<open>A machine whose good states also carry a quantity that no operation lowers.\<close>

locale monotone_machine = guarded_machine step good
  for step :: "'op \<Rightarrow> 's \<Rightarrow> 'e + 's" and good :: "'s \<Rightarrow> bool" +
  fixes below :: "'s \<Rightarrow> 's \<Rightarrow> bool"
  assumes below_refl: "below s s"
    and below_trans: "below s s' \<Longrightarrow> below s' s'' \<Longrightarrow> below s s''"
    and step_below: "good s \<Longrightarrow> step x s = Inr s' \<Longrightarrow> below s s'"
begin

lemma run_below: "good s \<Longrightarrow> below s (run_ops step xs s)"
proof (induction xs arbitrary: s)
  case Nil
  then show ?case by (simp add: below_refl)
next
  case (Cons x xs)
  show ?case
  proof (cases "step x s")
    case (Inl e)
    with Cons show ?thesis by simp
  next
    case (Inr s')
    with Cons.prems have "good s'" and "below s s'"
      by (auto intro: step_good step_below)
    with Cons.IH Inr show ?thesis
      by (auto intro: below_trans)
  qed
qed

end

end
