(* ===== verification/MT_Model.thy ===== *)
theory MT_Model
  imports Table
begin

text \<open>
  The data of the Moon Tax application (\<open>apps/moon-tax/src/buh_moon_tax/models.py\<close>):
  one record per model, one datatype per \<open>TextChoices\<close>, the \<open>clean\<close> methods and
  the properties of the models, and the database \<open>mt_db\<close> the services work on.
  Foreign keys are primary keys (\<open>None\<close> for NULL), JSON columns are the values
  the code writes there, and \<open>outbox\<close> lists the notifications handed to
  Alliance Auth; \<open>mains\<close>, \<open>usernames\<close> and \<open>directors\<close> are what Auth says of its
  users, and \<open>collate\<close> is the database's order of text. A column that no operation
  reads or writes (a creation time, a free note) has no field. \<open>wall\<close> is the instant \<open>timezone.now()\<close> returns; one
  transaction runs at one instant.
\<close>

section \<open>Choices\<close>

datatype period_status = PeriodOpen | PeriodDue | PeriodSettled | PeriodCanceled | PeriodReview

datatype assessment_status =
  BillOpen | BillDue | BillPartial | BillPaid | BillWaived | BillExempt | BillReview

datatype adjustment_kind = Waiver | Correction | VoidBill

datatype payment_source = Wallet | Contract | Manual

datatype payment_status =
  PayPending | PayApproved | PayPartial | PayRejected | PayDonation | PayOverage | PayIgnored
| PayExempt

datatype category = CatTax | CatCarryover | CatOverage | CatDonation | CatIgnored

datatype audit_trigger = TriggerManual | TriggerScheduled | TriggerInstall

datatype audit_status =
  AuditQueued | AuditRefreshing | AuditRunning | AuditComplete | AuditWarning | AuditFailed

datatype recipient_kind = KindCharacter | KindCorporation

datatype enforcement_action = NotifyOnly | RemoveGroup | AddGroup

text \<open>
  The messages and the evidence an audit keeps, as the template and its arguments:
  a Decimal inside a message stands for its text.
\<close>

datatype audit_warning =
  InsufficientDepth string decimal
| StalePrice string string
| NoPrice string string
| MissingMappings "(string \<times> nat) list"
| ConflictingModes nat nat
| RetiredBill nat
| RefreshTruncated nat nat

datatype price_source = EsiDepth | CachedFrom instant | Unavailable

datatype price_evidence =
  DepthEvidence nat nat "decimal option" "decimal option" decimal
| FallbackEvidence nat string
| ErrorEvidence string

text \<open>\<open>get_status_display()\<close> of a payment.\<close>

fun payment_status_label :: "payment_status \<Rightarrow> string" where
  "payment_status_label PayPending = ''Pending review''"
| "payment_status_label PayApproved = ''Approved and allocated''"
| "payment_status_label PayPartial = ''Partially allocated''"
| "payment_status_label PayRejected = ''Rejected''"
| "payment_status_label PayDonation = ''Donation''"
| "payment_status_label PayOverage = ''Accepted overage / carry-forward''"
| "payment_status_label PayIgnored = ''Ignored''"
| "payment_status_label PayExempt = ''Excluded by exemption''"

section \<open>Rows\<close>

text \<open>One entry of an \<open>allowed_recipients\<close> snapshot.\<close>

record recipient_entry =
  re_kind :: recipient_kind
  re_id :: "nat option"
  re_name :: string

record payment_recipient =
  pr_pk :: nat
  pr_kind :: recipient_kind
  pr_entity_id :: nat
  pr_name :: string
  pr_enabled :: bool

record tax_configuration =
  cf_default_tax_rate :: decimal
  cf_mining_window_days :: nat
  cf_audit_interval_hours :: nat
  cf_combine_by_default :: bool
  cf_exemption_state_hash :: string
  cf_exemption_rechecked_at :: "instant option"
  cf_small_balance_threshold :: decimal
  cf_region_id :: nat
  cf_location_id :: nat
  cf_payment_character_id :: nat
  cf_payment_character_name :: string
  cf_payment_corporation_id :: nat
  cf_payment_corporation_name :: string
  cf_default_recipients :: "nat list"
  cf_notify_member_new_tax :: bool
  cf_notify_member_payment_decision :: bool
  cf_notify_director_unpaid :: bool
  cf_notify_director_missing_data :: bool

record tax_policy =
  tp_pk :: nat
  tp_structure_id :: nat
  tp_tax_rate :: decimal
  tp_effective_from :: instant
  tp_effective_until :: "instant option"
  tp_enabled :: bool
  tp_recipients :: "nat list"

record compression_rule =
  cr_raw_type_id :: nat
  cr_compressed_type_id :: nat
  cr_compressed_type_name :: string
  cr_raw_units :: nat
  cr_compressed_units :: nat
  cr_enabled :: bool

record audit_run =
  ar_pk :: nat
  ar_trigger :: audit_trigger
  ar_status :: audit_status
  ar_requested_by :: "nat option"
  ar_queued_at :: instant
  ar_started_at :: "instant option"
  ar_finished_at :: "instant option"
  ar_refresh_requested_at :: "instant option"
  ar_summary :: "(string \<times> int) list"
  ar_warnings :: "audit_warning list"
  ar_error :: string

record price_snapshot =
  ps_pk :: nat
  ps_audit_run :: nat
  ps_type_id :: nat
  ps_type_name :: string
  ps_requested :: decimal
  ps_priced :: decimal
  ps_unit_price :: decimal
  ps_total :: decimal
  ps_region_id :: nat
  ps_location_id :: nat
  ps_source :: price_source
  ps_complete :: bool
  ps_fetched_at :: instant
  ps_evidence :: price_evidence

record tax_period =
  tx_pk :: nat
  tx_source_started_at :: instant
  tx_structure_id :: nat
  tx_structure_name :: string
  tx_corporation_id :: nat
  tx_corporation_name :: string
  tx_moon_id :: "nat option"
  tx_moon_name :: string
  tx_extraction_started_at :: instant
  tx_pop_at :: instant
  tx_closes_at :: instant
  tx_due_at :: instant
  tx_tax_rate :: decimal
  tx_allowed_recipients :: "recipient_entry list"
  tx_status :: period_status
  tx_gross_value :: decimal
  tx_tax_due :: decimal
  tx_approved_paid :: decimal
  tx_last_audit_run :: "nat option"
  tx_updated_at :: instant

record mining_line =
  ml_pk :: nat
  ml_period :: nat
  ml_ledger_day :: day
  ml_character_id :: nat
  ml_character_name :: string
  ml_corporation_id :: nat
  ml_corporation_name :: string
  ml_auth_user :: "nat option"
  ml_raw_type_id :: nat
  ml_raw_type_name :: string
  ml_compressed_type_id :: "nat option"
  ml_compressed_type_name :: string
  ml_raw_quantity :: nat
  ml_compressed_quantity :: decimal
  ml_unit_price :: decimal
  ml_gross_value :: decimal
  ml_tax_rate :: decimal
  ml_tax_due :: decimal
  ml_is_exempt :: bool
  ml_exemption_reason :: string
  ml_pricing_complete :: bool
  ml_last_audit_run :: nat
  ml_updated_at :: instant

record billing_preference =
  bp_user :: nat
  bp_combine :: bool

record tax_assessment =
  ta_pk :: nat
  ta_period :: nat
  ta_billing_key :: string
  ta_auth_user :: "nat option"
  ta_character_id :: "nat option"
  ta_display_name :: string
  ta_combined :: bool
  ta_gross_value :: decimal
  ta_calculated :: decimal
  ta_adjustment_total :: decimal
  ta_tax_due :: decimal
  ta_approved_paid :: decimal
  ta_status :: assessment_status
  ta_due_at :: instant
  ta_first_notified_at :: "instant option"
  ta_updated_at :: instant

record adjustment =
  aj_pk :: nat
  aj_assessment :: nat
  aj_kind :: adjustment_kind
  aj_amount :: decimal
  aj_reason :: string
  aj_created_by :: "nat option"
  aj_reversed_at :: "instant option"
  aj_reversed_by :: "nat option"
  aj_reversal_reason :: string

record tax_exemption =
  te_pk :: nat
  te_auth_user :: "nat option"
  te_character_id :: "nat option"
  te_effective_from :: day
  te_effective_until :: "day option"
  te_reason :: string
  te_active :: bool

record removed_allocation =
  rm_assessment :: "nat option"
  rm_category :: category
  rm_amount :: decimal
  rm_notes :: string

text \<open>
  The \<open>moon_tax_exemption\<close> entry of a payment's evidence: each field is the value
  under that key, \<open>None\<close> where the key is absent.
\<close>

record exemption_evidence =
  ee_excluded_at :: "instant option"
  ee_exemption_id :: "nat option"
  ee_reason :: "string option"
  ee_previous_status :: "payment_status option"
  ee_previous_reviewed_by :: "nat option option"
  ee_previous_reviewed_at :: "instant option option"
  ee_previous_review_note :: "string option"
  ee_removed :: "removed_allocation list option"
  ee_returned_at :: "instant option"

definition no_evidence :: exemption_evidence where
  "no_evidence = \<lparr>ee_excluded_at = None, ee_exemption_id = None, ee_reason = None,
     ee_previous_status = None, ee_previous_reviewed_by = None, ee_previous_reviewed_at = None,
     ee_previous_review_note = None, ee_removed = None, ee_returned_at = None\<rparr>"

record payment =
  pc_pk :: nat
  pc_source :: payment_source
  pc_source_key :: string
  pc_source_id :: "nat option"
  pc_payer_id :: "nat option"
  pc_payer_name :: string
  pc_auth_user :: "nat option"
  pc_recipient_id :: nat
  pc_recipient_name :: string
  pc_amount :: decimal
  pc_occurred_at :: instant
  pc_reference :: string
  pc_evidence :: "exemption_evidence option"
  pc_status :: payment_status
  pc_audit :: "nat option"
  pc_reviewed_by :: "nat option"
  pc_reviewed_at :: "instant option"
  pc_review_note :: string

record allocation =
  al_pk :: nat
  al_payment :: nat
  al_assessment :: "nat option"
  al_category :: category
  al_amount :: decimal
  al_notes :: string
  al_created_by :: "nat option"

record enforcement_rule =
  er_name :: string
  er_enabled :: bool
  er_overdue_days :: nat
  er_minimum_outstanding :: decimal
  er_action :: enforcement_action
  er_target_group :: "nat option"

record notification =
  no_user :: nat
  no_title :: string
  no_message :: string
  no_level :: string

record notification_state =
  ns_event_key :: string
  ns_last_sent_at :: instant
  ns_payload_hash :: string

section \<open>The database\<close>

record mt_db =
  periods :: "tax_period table"
  assessments :: "tax_assessment table"
  adjustments :: "adjustment table"
  payments :: "payment table"
  allocations :: "allocation table"
  lines :: "mining_line table"
  snapshots :: "price_snapshot table"
  audits :: "audit_run table"
  exemptions :: "tax_exemption list"
  owners :: "(nat \<times> nat) list"
  policies :: "tax_policy list"
  recipients :: "payment_recipient list"
  rules :: "compression_rule list"
  preferences :: "billing_preference list"
  config :: tax_configuration
  usernames :: "nat \<Rightarrow> string"
  mains :: "nat \<Rightarrow> string option"
  directors :: "nat list"
  collate :: "string \<Rightarrow> int"
  notified :: "notification_state list"
  outbox :: "notification list"
  wall :: instant

text \<open>Errors the services raise.\<close>

datatype mt_error =
  ValueError string
| ValidationError string
| PermissionMissing string
| DoesNotExist
| IntegrityError string

section \<open>Properties and checks of the models\<close>

text \<open>Python's truth value of a nullable key.\<close>

definition truthy :: "nat option \<Rightarrow> bool" where
  "truthy x \<longleftrightarrow> x \<noteq> None \<and> x \<noteq> Some 0"

text \<open>\<open>TaxAssessment.outstanding\<close> and \<open>TaxPeriod.outstanding\<close>.\<close>

definition outstanding :: "tax_assessment \<Rightarrow> decimal" where
  "outstanding a = max 0 (ta_tax_due a - ta_approved_paid a)"

definition period_outstanding :: "tax_period \<Rightarrow> decimal" where
  "period_outstanding p = max 0 (tx_tax_due p - tx_approved_paid p)"

definition adjustment_active :: "adjustment \<Rightarrow> bool" where
  "adjustment_active r \<longleftrightarrow> aj_reversed_at r = None"

text \<open>
  \<open>AssessmentAdjustment.full_clean\<close>: the field validators the values can fail
  (the reason's length, the digits of the amount), then \<open>clean\<close>.
\<close>

definition adjustment_full_clean :: "adjustment \<Rightarrow> mt_error + unit" where
  "adjustment_full_clean r =
     (if 500 < length (aj_reason r) \<or> aj_reason r = '''' \<or> 500 < length (aj_reversal_reason r)
         \<or> 10 ^ 28 \<le> \<bar>aj_amount r\<bar> \<or> quantize 2 (aj_amount r) \<noteq> aj_amount r
      then Inl (ValidationError ''Invalid field value.'')
      else if aj_amount r = 0 then Inl (ValidationError ''An adjustment cannot be zero ISK.'')
      else if (aj_kind r = Waiver \<or> aj_kind r = VoidBill) \<and> 0 < aj_amount r
      then Inl (ValidationError ''Waivers and voids must reduce the bill.'')
      else if aj_reversed_at r \<noteq> None \<and> aj_reversal_reason r = ''''
      then Inl (ValidationError ''A reversal reason is required.'')
      else Inr ())"

text \<open>\<open>TaxExemption.clean\<close>.\<close>

definition exemption_clean :: "tax_exemption \<Rightarrow> mt_error + unit" where
  "exemption_clean x =
     (if truthy (te_auth_user x) = truthy (te_character_id x)
      then Inl (ValidationError ''Choose exactly one Auth account or one character.'')
      else if (case te_effective_until x of None \<Rightarrow> False | Some u \<Rightarrow> u < te_effective_from x)
      then Inl (ValidationError ''Effective until cannot be before effective from.'')
      else Inr ())"

text \<open>\<open>StructureTaxPolicy.clean\<close> and \<open>CompressionRule.clean\<close>, \<open>multiplier\<close>.\<close>

definition policy_clean :: "tax_policy \<Rightarrow> mt_error + unit" where
  "policy_clean p =
     (if (case tp_effective_until p of None \<Rightarrow> False | Some u \<Rightarrow> u \<le> tp_effective_from p)
      then Inl (ValidationError ''Effective until must be after effective from.'')
      else Inr ())"

definition rule_clean :: "compression_rule \<Rightarrow> mt_error + unit" where
  "rule_clean r =
     (if cr_raw_units r = 0 \<or> cr_compressed_units r = 0
      then Inl (ValidationError ''Compression quantities must be greater than zero.'')
      else Inr ())"

text \<open>\<open>EnforcementRule.clean\<close>.\<close>

definition enforcement_clean :: "enforcement_rule \<Rightarrow> mt_error + unit" where
  "enforcement_clean r =
     (if (er_action r = AddGroup \<or> er_action r = RemoveGroup) \<and> \<not> truthy (er_target_group r)
      then Inl (ValidationError ''This action requires an Auth group.'')
      else Inr ())"

definition multiplier :: "compression_rule \<Rightarrow> decimal" where
  "multiplier r = d_div (of_nat (cr_compressed_units r)) (of_nat (cr_raw_units r))"

text \<open>The allocations of a payment (\<open>payment.allocations.all()\<close>) and their sum.\<close>

definition allocations_of :: "mt_db \<Rightarrow> nat \<Rightarrow> allocation list" where
  "allocations_of d k = filter (\<lambda>r. al_payment r = k) (rows (allocations d))"

definition allocated_amount :: "mt_db \<Rightarrow> nat \<Rightarrow> decimal" where
  "allocated_amount d k = sum_list (map al_amount (allocations_of d k))"

definition unallocated_amount :: "mt_db \<Rightarrow> payment \<Rightarrow> decimal" where
  "unallocated_amount d p = max 0 (pc_amount p - allocated_amount d (pc_pk p))"

text \<open>The recipient ids an extraction accepts; no id at all accepts every payment.\<close>

definition allowed_ids :: "tax_period \<Rightarrow> nat list" where
  "allowed_ids p =
     map (\<lambda>e. the (re_id e)) (filter (\<lambda>e. truthy (re_id e)) (tx_allowed_recipients p))"

definition recipient_allowed :: "tax_period \<Rightarrow> payment \<Rightarrow> bool" where
  "recipient_allowed p x \<longleftrightarrow>
     pc_source x = Manual \<or> allowed_ids p = [] \<or> pc_recipient_id x \<in> set (allowed_ids p)"

text \<open>\<open>PaymentAllocation.clean\<close>; \<open>existing\<close> sums the payment's other allocations.\<close>

definition allocation_clean :: "mt_db \<Rightarrow> payment \<Rightarrow> allocation \<Rightarrow> mt_error + unit" where
  "allocation_clean d x r =
     (let existing = sum_list (map al_amount
            (filter (\<lambda>q. al_pk q \<noteq> al_pk r) (allocations_of d (pc_pk x))))
      in if al_category r = CatTax \<and> \<not> truthy (al_assessment r)
         then Inl (ValidationError ''Tax allocations require a selected extraction bill.'')
         else if al_category r \<noteq> CatTax \<and> truthy (al_assessment r)
         then Inl (ValidationError ''Only tax allocations may select an extraction bill.'')
         else if pc_amount x < existing + al_amount r
         then Inl (ValidationError ''Allocations cannot exceed the payment amount.'')
         else if al_category r = CatTax \<and> truthy (al_assessment r) \<and> pc_source x \<noteq> Manual
         then (case lookup ta_pk (the (al_assessment r)) (assessments d) of
                 None \<Rightarrow> Inl DoesNotExist
               | Some a \<Rightarrow> (case lookup tx_pk (ta_period a) (periods d) of
                   None \<Rightarrow> Inl DoesNotExist
                 | Some p \<Rightarrow> if allowed_ids p \<noteq> [] \<and> pc_recipient_id x \<notin> set (allowed_ids p)
                     then Inl (ValidationError ''This payment destination was not allowed for the selected Athanor extraction. Choose a matching period or classify the payment as another category.'')
                     else Inr ()))
         else Inr ())"

end
