(* ===== verification/MT_Exemptions.thy ===== *)
theory MT_Exemptions
  imports MT_Model
begin

text \<open>
  Exemption matching (\<open>exemptions.py\<close>). \<open>ExemptionIndex\<close> is one snapshot of the
  active exemptions, newest first, and of the Auth ownership links. The
  fingerprint hashes the payload with \<open>sha256\<close> of its JSON text, which is the
  parameter \<open>digest\<close> here.
\<close>

section \<open>The index\<close>

record exemption_snapshot =
  xi_exemptions :: "tax_exemption list"
  xi_owner :: "(nat \<times> nat) list"

text \<open>\<open>order_by("-effective_from", "-pk")\<close>.\<close>

definition newest_first :: "tax_exemption list \<Rightarrow> tax_exemption list" where
  "newest_first xs = sort_key (\<lambda>x. - te_effective_from x) (sort_key (\<lambda>x. - int (te_pk x)) xs)"

definition exemption_index :: "mt_db \<Rightarrow> exemption_snapshot" where
  "exemption_index d =
     \<lparr>xi_exemptions = newest_first (filter te_active (exemptions d)), xi_owner = owners d\<rparr>"

text \<open>\<open>dict(values_list(...))\<close>: a later pair replaces an earlier one with its key.\<close>

definition owner_of :: "exemption_snapshot \<Rightarrow> nat \<Rightarrow> nat option" where
  "owner_of ix c = map_of (rev (xi_owner ix)) c"

record exemption_state_entry =
  xs_id :: nat
  xs_user :: "nat option"
  xs_character :: "nat option"
  xs_from :: day
  xs_until :: "day option"
  xs_reason :: string

definition state_payload ::
  "exemption_snapshot \<Rightarrow> exemption_state_entry list \<times> (nat \<times> nat) list" where
  "state_payload ix =
     (map (\<lambda>x. \<lparr>xs_id = te_pk x, xs_user = te_auth_user x, xs_character = te_character_id x,
                xs_from = te_effective_from x, xs_until = te_effective_until x,
                xs_reason = te_reason x\<rparr>) (xi_exemptions ix),
      map (\<lambda>c. (c, the (owner_of ix c))) (sort (remdups (map fst (xi_owner ix)))))"

definition state_hash ::
  "(exemption_state_entry list \<times> (nat \<times> nat) list \<Rightarrow> string) \<Rightarrow> exemption_snapshot \<Rightarrow> string" where
  "state_hash digest ix = digest (state_payload ix)"

definition user_id_for :: "exemption_snapshot \<Rightarrow> nat option \<Rightarrow> nat option \<Rightarrow> nat option" where
  "user_id_for ix c fallback =
     (if truthy c \<and> truthy (owner_of ix (the c)) then owner_of ix (the c) else fallback)"

text \<open>One turn of the loop of \<open>match\<close>: does this exemption cover the subject on this day?\<close>

definition covers_day :: "tax_exemption \<Rightarrow> day \<Rightarrow> bool" where
  "covers_day x day \<longleftrightarrow>
     te_effective_from x \<le> day
     \<and> (case te_effective_until x of None \<Rightarrow> True | Some u \<Rightarrow> day \<le> u)"

definition covers_subject :: "tax_exemption \<Rightarrow> nat option \<Rightarrow> nat option \<Rightarrow> bool" where
  "covers_subject x user c \<longleftrightarrow>
     (truthy c \<and> te_character_id x = c) \<or> (truthy user \<and> te_auth_user x = user)"

fun match_from :: "tax_exemption list \<Rightarrow> nat option \<Rightarrow> nat option \<Rightarrow> day \<Rightarrow> tax_exemption option" where
  "match_from [] user c day = None"
| "match_from (x # xs) user c day =
     (if day < te_effective_from x then match_from xs user c day
      else if (case te_effective_until x of None \<Rightarrow> False | Some u \<Rightarrow> u < day)
      then match_from xs user c day
      else if truthy c \<and> te_character_id x = c then Some x
      else if truthy user \<and> te_auth_user x = user then Some x
      else match_from xs user c day)"

definition match_exemption ::
  "exemption_snapshot \<Rightarrow> nat option \<Rightarrow> nat option \<Rightarrow> day \<Rightarrow> tax_exemption option" where
  "match_exemption ix user c day = match_from (xi_exemptions ix) (user_id_for ix c user) c day"

section \<open>Matching is the search for the newest covering exemption\<close>

lemma match_from_find:
  "match_from xs user c day =
     List.find (\<lambda>x. covers_day x day \<and> covers_subject x user c) xs"
  by (induction xs) (auto simp: covers_day_def covers_subject_def split: option.splits)

lemma set_newest_first [simp]: "set (newest_first xs) = set xs"
  by (simp add: newest_first_def)

lemma sorted_newest_first:
  "sorted_wrt (\<lambda>x y. te_effective_from y \<le> te_effective_from x) (newest_first xs)"
proof -
  have "sorted (map (\<lambda>x. - te_effective_from x) (newest_first xs))"
    unfolding newest_first_def by (rule sorted_sort_key)
  then show ?thesis
    by (simp add: sorted_map)
qed

lemma find_first_maximal:
  assumes "sorted_wrt R xs" and "List.find P xs = Some x" and "y \<in> set xs" and "P y" and "y \<noteq> x"
  shows "R x y"
  using assms by (induction xs) (auto split: if_splits dest: find_SomeD)

text \<open>
  The exemption \<open>match\<close> returns is active, covers the day and the subject
  (by character, or by the account that owns the character now), and no
  covering exemption starts later; it returns none only when none covers.
\<close>

theorem match_exemption_newest:
  "case match_exemption (exemption_index d) user c day of
     Some x \<Rightarrow>
       x \<in> set (exemptions d) \<and> te_active x \<and> covers_day x day
       \<and> covers_subject x (user_id_for (exemption_index d) c user) c
       \<and> (\<forall>y \<in> set (exemptions d). te_active y \<and> covers_day y day
             \<and> covers_subject y (user_id_for (exemption_index d) c user) c
             \<longrightarrow> te_effective_from y \<le> te_effective_from x)
   | None \<Rightarrow> \<forall>y \<in> set (exemptions d). te_active y \<and> covers_day y day
             \<longrightarrow> \<not> covers_subject y (user_id_for (exemption_index d) c user) c"
proof -
  let ?u = "user_id_for (exemption_index d) c user"
  let ?P = "\<lambda>x. covers_day x day \<and> covers_subject x ?u c"
  let ?xs = "newest_first (filter te_active (exemptions d))"
  have m: "match_exemption (exemption_index d) user c day = List.find ?P ?xs"
    by (simp add: match_exemption_def match_from_find exemption_index_def)
  show ?thesis
  proof (cases "List.find ?P ?xs")
    case None
    with m show ?thesis by (auto simp: find_None_iff)
  next
    case (Some x)
    then have "x \<in> set ?xs" and "?P x" by (auto dest: find_SomeD)
    moreover have "te_effective_from y \<le> te_effective_from x"
      if "y \<in> set ?xs" and "?P y" for y
      using find_first_maximal [OF sorted_newest_first Some that] by (cases "y = x") auto
    ultimately show ?thesis
      using m Some by (auto simp: split: option.split)
  qed
qed

end
