(* ===== verification/MT_Payments.thy ===== *)
theory MT_Payments
  imports MT_Exemptions
begin

text \<open>
  Payment allocation and balance recalculation (\<open>payments.py\<close>): the bill and
  period totals, the reversible adjustments, a director's decision on a payment,
  and the exclusion of exempt payers. Every service function is one database
  transaction: it takes the database and returns the next one, or an error and
  no database. A row the transaction holds locked and the Python object loaded
  from it are the same value.
\<close>

section \<open>Saving rows\<close>

definition save_assessment :: "nat \<Rightarrow> (tax_assessment \<Rightarrow> tax_assessment) \<Rightarrow> mt_db \<Rightarrow> mt_db" where
  "save_assessment k f d = d\<lparr>assessments := update ta_pk k f (assessments d)\<rparr>"

definition save_period :: "nat \<Rightarrow> (tax_period \<Rightarrow> tax_period) \<Rightarrow> mt_db \<Rightarrow> mt_db" where
  "save_period k f d = d\<lparr>periods := update tx_pk k f (periods d)\<rparr>"

definition save_payment :: "nat \<Rightarrow> (payment \<Rightarrow> payment) \<Rightarrow> mt_db \<Rightarrow> mt_db" where
  "save_payment k f d = d\<lparr>payments := update pc_pk k f (payments d)\<rparr>"

definition save_adjustment :: "nat \<Rightarrow> (adjustment \<Rightarrow> adjustment) \<Rightarrow> mt_db \<Rightarrow> mt_db" where
  "save_adjustment k f d = d\<lparr>adjustments := update aj_pk k f (adjustments d)\<rparr>"

definition notify :: "nat \<Rightarrow> string \<Rightarrow> string \<Rightarrow> string \<Rightarrow> mt_db \<Rightarrow> mt_db" where
  "notify user title message level d =
     d\<lparr>outbox := outbox d @ [\<lparr>no_user = user, no_title = title, no_message = message,
                              no_level = level\<rparr>]\<rparr>"

section \<open>Bills\<close>

definition status_for_assessment :: "instant \<Rightarrow> tax_assessment \<Rightarrow> assessment_status" where
  "status_for_assessment now a =
     (if ta_tax_due a \<le> 0
      then (if 0 < ta_calculated a \<and> ta_adjustment_total a < 0 then BillWaived else BillExempt)
      else if ta_tax_due a \<le> ta_approved_paid a then BillPaid
      else if 0 < ta_approved_paid a then BillPartial
      else if ta_due_at a \<le> now then BillDue else BillOpen)"

definition active_adjustment_total :: "mt_db \<Rightarrow> nat \<Rightarrow> decimal" where
  "active_adjustment_total d k =
     sum_list (map aj_amount
       (filter (\<lambda>r. aj_assessment r = k \<and> aj_reversed_at r = None) (rows (adjustments d))))"

definition tax_allocated :: "mt_db \<Rightarrow> nat \<Rightarrow> decimal" where
  "tax_allocated d k =
     sum_list (map al_amount
       (filter (\<lambda>r. al_assessment r = Some k \<and> al_category r = CatTax) (rows (allocations d))))"

definition recalculated :: "mt_db \<Rightarrow> tax_assessment \<Rightarrow> tax_assessment" where
  "recalculated d a =
     (let adj = active_adjustment_total d (ta_pk a);
          calculated = (if ta_calculated a = 0 \<and> ta_tax_due a \<noteq> 0 \<and> adj = 0
                        then ta_tax_due a else ta_calculated a);
          b = a\<lparr>ta_calculated := calculated, ta_adjustment_total := adj,
                ta_tax_due := max 0 (calculated + adj),
                ta_approved_paid := tax_allocated d (ta_pk a)\<rparr>
      in b\<lparr>ta_status := status_for_assessment (wall d) b, ta_updated_at := wall d\<rparr>)"

definition recalculate_assessment :: "nat \<Rightarrow> mt_db \<Rightarrow> mt_db" where
  "recalculate_assessment k d = save_assessment k (recalculated d) d"

section \<open>Periods\<close>

definition assessments_of :: "mt_db \<Rightarrow> nat \<Rightarrow> tax_assessment list" where
  "assessments_of d k = filter (\<lambda>a. ta_period a = k) (rows (assessments d))"

definition period_status_for :: "instant \<Rightarrow> tax_assessment list \<Rightarrow> tax_period \<Rightarrow> period_status" where
  "period_status_for now as p =
     (if tx_status p = PeriodCanceled then PeriodCanceled
      else if as \<noteq> [] \<and> \<not> list_ex (\<lambda>a. ta_approved_paid a < ta_tax_due a) as then PeriodSettled
      else if tx_due_at p \<le> now then PeriodDue else PeriodOpen)"

definition recalculated_period :: "mt_db \<Rightarrow> tax_period \<Rightarrow> tax_period" where
  "recalculated_period d p =
     (let as = assessments_of d (tx_pk p)
      in p\<lparr>tx_gross_value := sum_list (map ta_gross_value as),
           tx_tax_due := sum_list (map ta_tax_due as),
           tx_approved_paid := sum_list (map ta_approved_paid as),
           tx_status := period_status_for (wall d) as p,
           tx_updated_at := wall d\<rparr>)"

definition recalculate_period :: "nat \<Rightarrow> mt_db \<Rightarrow> mt_db" where
  "recalculate_period k d = save_period k (recalculated_period d) d"

section \<open>Reversible adjustments\<close>

text \<open>The kind and signed amount of an adjustment, or the reason it is refused.\<close>

definition adjustment_for ::
  "string \<Rightarrow> decimal option \<Rightarrow> tax_assessment \<Rightarrow> mt_error + adjustment_kind \<times> decimal" where
  "adjustment_for action amount a =
     (if action = ''WAIVE_BALANCE'' then
        (if outstanding a \<le> 0
         then Inl (ValueError ''This bill has no outstanding balance to waive.'')
         else Inr (Waiver, - outstanding a))
      else if action = ''VOID_BILL'' then
        (if 0 < ta_approved_paid a
         then Inl (ValueError ''A bill with allocated payments cannot be voided. Waive its remaining balance or reset the payment first.'')
         else if ta_tax_due a \<le> 0
         then Inl (ValueError ''This bill already has no effective tax due.'')
         else Inr (VoidBill, - ta_tax_due a))
      else if action = ''CREDIT'' \<or> action = ''DEBIT'' then
        (let entered = (case amount of None \<Rightarrow> 0 | Some x \<Rightarrow> x)
         in if entered \<le> 0
            then Inl (ValueError ''Enter an adjustment amount greater than zero ISK.'')
            else Inr (Correction, if action = ''CREDIT'' then - entered else entered))
      else Inl (ValueError ''Unknown bill adjustment action.''))"

definition create_assessment_adjustment ::
  "nat \<Rightarrow> string \<Rightarrow> decimal option \<Rightarrow> string \<Rightarrow> nat option \<Rightarrow> mt_db \<Rightarrow> mt_error + adjustment \<times> mt_db" where
  "create_assessment_adjustment k action amount reason director d =
     (let d1 = recalculate_assessment k d
      in case lookup ta_pk k (assessments d1) of
           None \<Rightarrow> Inl DoesNotExist
         | Some a \<Rightarrow>
             (if strip reason = ''''
              then Inl (ValueError ''A reason is required for every bill adjustment.'')
              else bind_result (adjustment_for (upper action) amount a) (\<lambda>(kind, signed).
                let r = \<lparr>aj_pk = next_pk (adjustments d1), aj_assessment = k, aj_kind = kind,
                         aj_amount = signed, aj_reason = strip reason, aj_created_by = director,
                         aj_reversed_at = None, aj_reversed_by = None, aj_reversal_reason = ''''\<rparr>
                in bind_result (adjustment_full_clean r) (\<lambda>_.
                     let d2 = d1\<lparr>adjustments := create (\<lambda>pk. r\<lparr>aj_pk := pk\<rparr>) (adjustments d1)\<rparr>;
                         d3 = recalculate_assessment k d2
                     in Inr (r, recalculate_period (ta_period a) d3)))))"

definition reverse_assessment_adjustment ::
  "nat \<Rightarrow> string \<Rightarrow> nat option \<Rightarrow> mt_db \<Rightarrow> mt_error + adjustment \<times> mt_db" where
  "reverse_assessment_adjustment j reason director d =
     (case lookup aj_pk j (adjustments d) of
        None \<Rightarrow> Inl DoesNotExist
      | Some r \<Rightarrow>
          (if aj_reversed_at r \<noteq> None
           then Inl (ValueError ''This adjustment has already been reversed.'')
           else if strip reason = ''''
           then Inl (ValueError ''A reversal reason is required.'')
           else let r' = r\<lparr>aj_reversed_at := Some (wall d), aj_reversed_by := director,
                           aj_reversal_reason := strip reason\<rparr>
                in bind_result (adjustment_full_clean r') (\<lambda>_.
                  case lookup ta_pk (aj_assessment r) (assessments d) of
                    None \<Rightarrow> Inl DoesNotExist
                  | Some a \<Rightarrow>
                      let d1 = save_adjustment j (\<lambda>q. q\<lparr>aj_reversed_at := aj_reversed_at r',
                                 aj_reversed_by := aj_reversed_by r',
                                 aj_reversal_reason := aj_reversal_reason r'\<rparr>) d;
                          d2 = recalculate_assessment (aj_assessment r) d1
                      in Inr (r', recalculate_period (ta_period a) d2))))"

section \<open>The status of a payment\<close>

definition payment_status_for :: "payment \<Rightarrow> allocation list \<Rightarrow> payment_status" where
  "payment_status_for p as =
     (if as = [] then
        (if pc_status p \<in> {PayRejected, PayIgnored, PayExempt} then pc_status p else PayPending)
      else if sum_list (map al_amount as) < pc_amount p then PayPartial
      else if set (map al_category as) = {CatDonation} then PayDonation
      else if set (map al_category as) = {CatIgnored} then PayIgnored
      else if set (map al_category as) \<subseteq> {CatCarryover, CatOverage} then PayOverage
      else PayApproved)"

definition notify_payment_decision :: "payment \<Rightarrow> mt_db \<Rightarrow> mt_db" where
  "notify_payment_decision p d =
     (if \<not> cf_notify_member_payment_decision (config d) \<or> \<not> truthy (pc_auth_user p) then d
      else let user = the (pc_auth_user p); decision = payment_status_label (pc_status p)
           in notify user (''Moon Tax payment '' @ lower decision)
                (''A director reviewed the '' @ format_amount (pc_amount p)
                 @ '' ISK payment from ''
                 @ (if pc_payer_name p \<noteq> '''' then pc_payer_name p else usernames d user)
                 @ ''. Decision: '' @ decision @ ''.'')
                (if pc_status p = PayApproved then ''success'' else ''info'') d)"

text \<open>The columns \<open>status\<close>, \<open>reviewed_by\<close>, \<open>reviewed_at\<close> and \<open>review_note\<close> of a payment.\<close>

definition save_decision :: "payment \<Rightarrow> mt_db \<Rightarrow> mt_db" where
  "save_decision p = save_payment (pc_pk p) (\<lambda>q. q\<lparr>pc_status := pc_status p,
     pc_reviewed_by := pc_reviewed_by p, pc_reviewed_at := pc_reviewed_at p,
     pc_review_note := pc_review_note p\<rparr>)"

text \<open>The bills of some allocations, and the periods of some bills, each once.\<close>

definition bills_of :: "allocation list \<Rightarrow> nat list" where
  "bills_of as = remdups (concat (map (\<lambda>r. case al_assessment r of None \<Rightarrow> [] | Some k \<Rightarrow> [k]) as))"

definition periods_of_bills :: "mt_db \<Rightarrow> nat list \<Rightarrow> nat list" where
  "periods_of_bills d ks =
     remdups (concat (map (\<lambda>k. case lookup ta_pk k (assessments d) of
                                 None \<Rightarrow> [] | Some a \<Rightarrow> [ta_period a]) ks))"

definition recalculate_payment ::
  "payment \<Rightarrow> nat option \<Rightarrow> bool \<Rightarrow> mt_db \<Rightarrow> payment \<times> mt_db" where
  "recalculate_payment p director notify_user d =
     (let as = allocations_of d (pc_pk p);
          p1 = p\<lparr>pc_status := payment_status_for p as\<rparr>;
          p2 = (if director \<noteq> None
                then p1\<lparr>pc_reviewed_by := director, pc_reviewed_at := Some (wall d)\<rparr> else p1);
          d1 = save_decision p2 d;
          d2 = fold recalculate_assessment (bills_of as) d1;
          d3 = fold recalculate_period (periods_of_bills d1 (bills_of as)) d2
      in (p2, if notify_user then notify_payment_decision p2 d3 else d3))"

section \<open>Locking and clearing\<close>

definition subject_matches :: "payment \<Rightarrow> tax_assessment \<Rightarrow> bool" where
  "subject_matches p a \<longleftrightarrow>
     (if truthy (pc_auth_user p) then ta_auth_user a = pc_auth_user p
      else if truthy (pc_payer_id p) then ta_character_id a = pc_payer_id p
      else False)"

text \<open>The bills a decision can touch, by primary key, and the ones it already paid.\<close>

definition lock_payment_context :: "payment \<Rightarrow> bool \<Rightarrow> mt_db \<Rightarrow> tax_assessment list \<times> nat list" where
  "lock_payment_context p include_subject d =
     (let affected = bills_of (allocations_of d (pc_pk p))
      in (sort_key ta_pk (filter (\<lambda>a. ta_pk a \<in> set affected
             \<or> (include_subject \<and> subject_matches p a)) (rows (assessments d))), affected))"

definition clear_payment_allocations ::
  "nat \<Rightarrow> tax_assessment list \<Rightarrow> nat list \<Rightarrow> mt_db \<Rightarrow> mt_db" where
  "clear_payment_allocations k locked affected_ids d =
     (let affected = filter (\<lambda>a. ta_pk a \<in> set affected_ids) locked;
          d1 = d\<lparr>allocations := delete_where (\<lambda>r. al_payment r = k) (allocations d)\<rparr>;
          d2 = fold recalculate_assessment (map ta_pk affected) d1
      in fold recalculate_period (remdups (map ta_period affected)) d2)"

section \<open>Eligible bills\<close>

definition period_of :: "mt_db \<Rightarrow> tax_assessment \<Rightarrow> tax_period option" where
  "period_of d a = lookup tx_pk (ta_period a) (periods d)"

definition pop_of :: "mt_db \<Rightarrow> tax_assessment \<Rightarrow> instant" where
  "pop_of d a = (case period_of d a of None \<Rightarrow> 0 | Some p \<Rightarrow> tx_pop_at p)"

text \<open>\<open>sorted(key=(due_at, period.pop_at, pk))\<close>.\<close>

definition oldest_first :: "mt_db \<Rightarrow> tax_assessment list \<Rightarrow> tax_assessment list" where
  "oldest_first d as =
     sort_key ta_due_at (sort_key (pop_of d) (sort_key ta_pk as))"

definition eligible :: "mt_db \<Rightarrow> payment \<Rightarrow> tax_assessment \<Rightarrow> bool" where
  "eligible d p a \<longleftrightarrow>
     ta_status a \<noteq> BillPaid \<and> ta_status a \<noteq> BillExempt
     \<and> (case period_of d a of None \<Rightarrow> False | Some q \<Rightarrow> recipient_allowed q p)"

definition eligible_assessments ::
  "payment \<Rightarrow> tax_assessment list \<Rightarrow> mt_db \<Rightarrow> tax_assessment list" where
  "eligible_assessments p as d =
     filter (eligible d p) (oldest_first d (filter (subject_matches p) as))"

section \<open>A director's decision\<close>

definition add_allocation ::
  "nat \<Rightarrow> nat option \<Rightarrow> category \<Rightarrow> decimal \<Rightarrow> string \<Rightarrow> nat option \<Rightarrow> mt_db \<Rightarrow> mt_db" where
  "add_allocation payment bill cat amount notes director d =
     d\<lparr>allocations := create (\<lambda>pk. \<lparr>al_pk = pk, al_payment = payment, al_assessment = bill,
         al_category = cat, al_amount = amount, al_notes = notes,
         al_created_by = director\<rparr>) (allocations d)\<rparr>"

definition bill_outstanding :: "mt_db \<Rightarrow> nat \<Rightarrow> decimal" where
  "bill_outstanding d k =
     (case lookup ta_pk k (assessments d) of None \<Rightarrow> 0 | Some a \<Rightarrow> outstanding a)"

fun allocate_oldest ::
  "nat \<Rightarrow> nat option \<Rightarrow> nat list \<Rightarrow> decimal \<Rightarrow> mt_db \<Rightarrow> decimal \<times> mt_db" where
  "allocate_oldest p director [] remaining d = (remaining, d)"
| "allocate_oldest p director (k # ks) remaining d =
     (let d1 = recalculate_assessment k d;
          available = bill_outstanding d1 k
      in if available \<le> 0 then allocate_oldest p director ks remaining d1
         else let amount = min remaining available;
                  d2 = add_allocation p (Some k) CatTax amount
                         ''Director approved: oldest unpaid extraction first.'' director d1
              in if remaining - amount \<le> 0 then (remaining - amount, d2)
                 else allocate_oldest p director ks (remaining - amount) d2)"

text \<open>
  The columns a decision saves: \<open>reviewed_by\<close>, \<open>reviewed_at\<close> and \<open>review_note\<close>,
  with \<open>status\<close> in the branches that set it.
\<close>

definition stamped :: "payment \<Rightarrow> nat option \<Rightarrow> string \<Rightarrow> mt_db \<Rightarrow> payment" where
  "stamped p director note d =
     p\<lparr>pc_reviewed_by := director, pc_reviewed_at := Some (wall d), pc_review_note := note\<rparr>"

definition save_review :: "payment \<Rightarrow> mt_db \<Rightarrow> mt_db" where
  "save_review p = save_payment (pc_pk p) (\<lambda>q. q\<lparr>pc_reviewed_by := pc_reviewed_by p,
     pc_reviewed_at := pc_reviewed_at p, pc_review_note := pc_review_note p\<rparr>)"

text \<open>The locked bills as the clearing left them.\<close>

definition reload :: "mt_db \<Rightarrow> tax_assessment \<Rightarrow> tax_assessment" where
  "reload d a = (case lookup ta_pk (ta_pk a) (assessments d) of None \<Rightarrow> a | Some b \<Rightarrow> b)"

definition bills_to_pay :: "payment \<Rightarrow> tax_assessment list \<Rightarrow> mt_db \<Rightarrow> nat list" where
  "bills_to_pay p locked d = map ta_pk (eligible_assessments p (map (reload d) locked) d)"

definition leftover_category :: "string \<Rightarrow> category" where
  "leftover_category disposition =
     (if disposition = ''oldest_carryover'' then CatCarryover else CatOverage)"

definition leftover_notes :: "category \<Rightarrow> string" where
  "leftover_notes cat =
     (if cat = CatCarryover then ''Director-approved unallocated credit for future taxes.''
      else ''Director accepted amount above currently unpaid taxes.'')"

text \<open>The branches on the disposition, once the old allocations are cleared.\<close>

definition decide_oldest ::
  "string \<Rightarrow> nat option \<Rightarrow> payment \<Rightarrow> tax_assessment list \<Rightarrow> mt_db \<Rightarrow> mt_db" where
  "decide_oldest disposition director p locked d =
     (let (remaining, d1) = allocate_oldest (pc_pk p) director (bills_to_pay p locked d) (pc_amount p) d;
          cat = leftover_category disposition
      in if 0 < remaining
         then add_allocation (pc_pk p) None cat remaining (leftover_notes cat) director d1
         else d1)"

definition decide_cleared ::
  "string \<Rightarrow> nat option \<Rightarrow> payment \<Rightarrow> tax_assessment list \<Rightarrow> mt_db \<Rightarrow> mt_error + payment \<times> mt_db" where
  "decide_cleared disposition director p locked d =
     (let finish = (\<lambda>d1. Inr (recalculate_payment p director True (save_review p d1)));
          whole = (\<lambda>cat notes. add_allocation (pc_pk p) None cat (pc_amount p) notes director d)
      in if disposition = ''pending'' then
           (let q = p\<lparr>pc_status := PayPending\<rparr> in Inr (q, save_decision q d))
         else if disposition = ''reject'' then
           (let q = p\<lparr>pc_status := PayRejected\<rparr>
            in Inr (q, notify_payment_decision q (save_decision q d)))
         else if disposition = ''oldest_carryover'' \<or> disposition = ''oldest_overage'' then
           finish (decide_oldest disposition director p locked d)
         else if disposition = ''donation'' then
           finish (whole CatDonation ''Director classified this payment as a donation.'')
         else if disposition = ''ignore'' then
           finish (whole CatIgnored ''Director explicitly ignored this payment for moon tax.'')
         else Inl (ValueError (''Unknown payment disposition: '' @ disposition)))"

definition decide_payment ::
  "nat \<Rightarrow> string \<Rightarrow> nat option \<Rightarrow> string \<Rightarrow> mt_db \<Rightarrow> mt_error + payment \<times> mt_db" where
  "decide_payment k disposition director note d =
     (case lookup pc_pk k (payments d) of
        None \<Rightarrow> Inl DoesNotExist
      | Some p \<Rightarrow>
          (if pc_status p = PayExempt
           then Inl (ValueError ''A system-excluded exempt payment cannot be manually reclassified.'')
           else let (locked, affected) = lock_payment_context p True d
                in decide_cleared disposition director (stamped p director note d) locked
                     (clear_payment_allocations k locked affected d)))"

section \<open>Exempt payers\<close>

definition AUTO_EXEMPT_PREFIX :: string where
  "AUTO_EXEMPT_PREFIX = ''[AUTO-EXEMPT]''"

definition exemption_note :: "tax_exemption \<Rightarrow> string" where
  "exemption_note x =
     AUTO_EXEMPT_PREFIX @ '' Exemption #'' @ show_nat (te_pk x) @ '': '' @ te_reason x"

definition evidence_on_exclusion ::
  "payment \<Rightarrow> tax_exemption \<Rightarrow> mt_db \<Rightarrow> exemption_evidence" where
  "evidence_on_exclusion p x d =
     (let old = (case pc_evidence p of None \<Rightarrow> no_evidence | Some e \<Rightarrow> e);
          base = (if pc_status p \<noteq> PayExempt
            then \<lparr>ee_excluded_at = Some (wall d), ee_exemption_id = Some (te_pk x),
                  ee_reason = Some (te_reason x), ee_previous_status = Some (pc_status p),
                  ee_previous_reviewed_by = Some (pc_reviewed_by p),
                  ee_previous_reviewed_at = Some (pc_reviewed_at p),
                  ee_previous_review_note = Some (pc_review_note p),
                  ee_removed = Some (map (\<lambda>r. \<lparr>rm_assessment = al_assessment r,
                      rm_category = al_category r, rm_amount = al_amount r,
                      rm_notes = al_notes r\<rparr>) (allocations_of d (pc_pk p))),
                  ee_returned_at = None\<rparr>
            else old)
      in base\<lparr>ee_exemption_id := Some (te_pk x), ee_reason := Some (te_reason x)\<rparr>)"

definition exclude_payment_for_exemption ::
  "nat \<Rightarrow> nat option \<Rightarrow> tax_exemption \<Rightarrow> mt_db \<Rightarrow> mt_db" where
  "exclude_payment_for_exemption k relinked_user x d =
     (case lookup pc_pk k (payments d) of
        None \<Rightarrow> d
      | Some row \<Rightarrow>
          (let (locked, affected) = lock_payment_context row False d;
               evidence = evidence_on_exclusion row x d;
               d1 = clear_payment_allocations k locked affected d
           in save_payment k (\<lambda>q. q\<lparr>pc_auth_user := relinked_user, pc_evidence := Some evidence,
                pc_status := PayExempt, pc_reviewed_by := None, pc_reviewed_at := Some (wall d),
                pc_review_note := exemption_note x\<rparr>) d1))"

definition restore_system_exempt_payment :: "nat \<Rightarrow> nat option \<Rightarrow> mt_db \<Rightarrow> mt_db" where
  "restore_system_exempt_payment k relinked_user d =
     (case lookup pc_pk k (payments d) of
        None \<Rightarrow> d
      | Some row \<Rightarrow>
          (if \<not> starts_with (pc_review_note row) AUTO_EXEMPT_PREFIX then d
           else let (locked, affected) = lock_payment_context row False d;
                    d1 = clear_payment_allocations k locked affected d;
                    old = (case pc_evidence row of None \<Rightarrow> no_evidence | Some e \<Rightarrow> e);
                    evidence = old\<lparr>ee_returned_at := Some (wall d)\<rparr>
                in save_payment k (\<lambda>q. q\<lparr>pc_auth_user := relinked_user,
                     pc_evidence := Some evidence, pc_status := PayPending, pc_reviewed_by := None,
                     pc_reviewed_at := None, pc_review_note := ''''\<rparr>) d1))"

record reconcile_counts =
  rc_excluded :: nat
  rc_restored :: nat
  rc_relinked :: nat

text \<open>One payment of the loop of \<open>reconcile_payment_exemptions\<close>.\<close>

definition reconcile_one ::
  "exemption_snapshot \<Rightarrow> payment \<Rightarrow> reconcile_counts \<times> mt_db \<Rightarrow> reconcile_counts \<times> mt_db" where
  "reconcile_one ix p cd =
     (let (c, d) = cd;
          linked = user_id_for ix (pc_payer_id p) (pc_auth_user p);
          relinked = (linked \<noteq> pc_auth_user p);
          c1 = (if relinked then c\<lparr>rc_relinked := rc_relinked c + 1\<rparr> else c)
      in case match_exemption ix linked (pc_payer_id p) (date_of (pc_occurred_at p)) of
           Some x \<Rightarrow>
             (if pc_status p \<noteq> PayExempt \<or> pc_review_note p \<noteq> exemption_note x \<or> relinked
              then (c1\<lparr>rc_excluded := rc_excluded c1 + 1\<rparr>,
                    exclude_payment_for_exemption (pc_pk p) linked x d)
              else (c1, d))
         | None \<Rightarrow>
             (if pc_status p = PayExempt \<and> starts_with (pc_review_note p) AUTO_EXEMPT_PREFIX
              then (c1\<lparr>rc_restored := rc_restored c1 + 1\<rparr>,
                    restore_system_exempt_payment (pc_pk p) linked d)
              else if relinked
              then (c1, save_payment (pc_pk p) (\<lambda>q. q\<lparr>pc_auth_user := linked\<rparr>) d)
              else (c1, d)))"

text \<open>\<open>exclude(source=MANUAL).order_by("occurred_at", "pk")\<close> of the payments in scope.\<close>

definition imported_payments :: "(payment \<Rightarrow> bool) \<Rightarrow> mt_db \<Rightarrow> payment list" where
  "imported_payments scope d =
     sort_key pc_occurred_at (sort_key (\<lambda>p. int (pc_pk p))
       (filter (\<lambda>p. scope p \<and> pc_source p \<noteq> Manual) (rows (payments d))))"

definition reconcile_payment_exemptions ::
  "exemption_snapshot \<Rightarrow> (payment \<Rightarrow> bool) \<Rightarrow> mt_db \<Rightarrow> reconcile_counts \<times> mt_db" where
  "reconcile_payment_exemptions ix scope d =
     fold (reconcile_one ix) (imported_payments scope d)
       (\<lparr>rc_excluded = 0, rc_restored = 0, rc_relinked = 0\<rparr>, d)"

end
