(* ===== verification/MT_Books.thy ===== *)
theory MT_Books
  imports MT_Payments
begin

text \<open>
  The books: what the tables of payments, allocations, bills and periods say
  about each other between two service calls, and the proofs that every service
  of \<open>payments.py\<close> keeps it. \<open>books_except Bs Ps\<close> is the state in the middle of a
  service, when the bills \<open>Bs\<close> and the periods \<open>Ps\<close> still have to be
  recalculated.
\<close>

section \<open>The invariant\<close>

definition bill_balanced :: "mt_db \<Rightarrow> tax_assessment \<Rightarrow> bool" where
  "bill_balanced d a \<longleftrightarrow>
     ta_approved_paid a = tax_allocated d (ta_pk a)
     \<and> ta_adjustment_total a = active_adjustment_total d (ta_pk a)
     \<and> ta_tax_due a = max 0 (ta_calculated a + ta_adjustment_total a)
     \<and> (ta_status a = BillPaid \<or> ta_status a = BillExempt \<longrightarrow>
          ta_tax_due a \<le> 0 \<or> ta_tax_due a \<le> ta_approved_paid a)"

definition all_paid :: "tax_assessment list \<Rightarrow> bool" where
  "all_paid as \<longleftrightarrow> as \<noteq> [] \<and> (\<forall>a \<in> set as. ta_tax_due a \<le> ta_approved_paid a)"

definition period_balanced :: "mt_db \<Rightarrow> tax_period \<Rightarrow> bool" where
  "period_balanced d p \<longleftrightarrow>
     tx_gross_value p = sum_list (map ta_gross_value (assessments_of d (tx_pk p)))
     \<and> tx_tax_due p = sum_list (map ta_tax_due (assessments_of d (tx_pk p)))
     \<and> tx_approved_paid p = sum_list (map ta_approved_paid (assessments_of d (tx_pk p)))
     \<and> (tx_status p \<noteq> PeriodCanceled \<longrightarrow>
          (tx_status p = PeriodSettled \<longleftrightarrow> all_paid (assessments_of d (tx_pk p))))"

definition allocation_sound :: "mt_db \<Rightarrow> allocation \<Rightarrow> bool" where
  "allocation_sound d r \<longleftrightarrow>
     0 < al_amount r
     \<and> (al_category r = CatTax \<longleftrightarrow> al_assessment r \<noteq> None)
     \<and> al_payment r \<in> pc_pk ` set (rows (payments d))
     \<and> (\<forall>k. al_assessment r = Some k \<longrightarrow> k \<in> ta_pk ` set (rows (assessments d)))"

definition refs_sound :: "mt_db \<Rightarrow> bool" where
  "refs_sound d \<longleftrightarrow>
     well_keyed ta_pk (assessments d) \<and> well_keyed tx_pk (periods d)
     \<and> well_keyed pc_pk (payments d) \<and> well_keyed aj_pk (adjustments d)
     \<and> well_keyed al_pk (allocations d)
     \<and> (\<forall>a \<in> set (rows (assessments d)). ta_period a \<in> tx_pk ` set (rows (periods d)))
     \<and> (\<forall>r \<in> set (rows (adjustments d)). aj_assessment r \<in> ta_pk ` set (rows (assessments d)))
     \<and> (\<forall>r \<in> set (rows (allocations d)). allocation_sound d r)
     \<and> (\<forall>p \<in> set (rows (payments d)).
          0 < pc_amount p \<and> allocated_amount d (pc_pk p) \<le> pc_amount p)"

definition books_except :: "nat set \<Rightarrow> nat set \<Rightarrow> mt_db \<Rightarrow> bool" where
  "books_except Bs Ps d \<longleftrightarrow>
     refs_sound d
     \<and> (\<forall>a \<in> set (rows (assessments d)).
          (ta_pk a \<in> Bs \<longrightarrow> ta_period a \<in> Ps) \<and> (ta_pk a \<notin> Bs \<longrightarrow> bill_balanced d a))
     \<and> (\<forall>p \<in> set (rows (periods d)). tx_pk p \<notin> Ps \<longrightarrow> period_balanced d p)"

definition books :: "mt_db \<Rightarrow> bool" where
  "books d \<longleftrightarrow> books_except {} {} d"

section \<open>What the steps read and write\<close>

lemma recalculated_fields [simp]:
  "ta_pk (recalculated d a) = ta_pk a"
  "ta_period (recalculated d a) = ta_period a"
  "ta_gross_value (recalculated d a) = ta_gross_value a"
  "ta_auth_user (recalculated d a) = ta_auth_user a"
  "ta_character_id (recalculated d a) = ta_character_id a"
  "ta_due_at (recalculated d a) = ta_due_at a"
  "ta_billing_key (recalculated d a) = ta_billing_key a"
  by (simp_all add: recalculated_def Let_def)

lemma recalculated_period_fields [simp]:
  "tx_pk (recalculated_period d p) = tx_pk p"
  "tx_pop_at (recalculated_period d p) = tx_pop_at p"
  "tx_allowed_recipients (recalculated_period d p) = tx_allowed_recipients p"
  by (simp_all add: recalculated_period_def Let_def)

lemma recalculated_paid:
  "ta_approved_paid (recalculated d a) = tax_allocated d (ta_pk a)"
  "ta_adjustment_total (recalculated d a) = active_adjustment_total d (ta_pk a)"
  by (simp_all add: recalculated_def Let_def)

lemma recalculated_balanced: "bill_balanced d (recalculated d a)"
  by (auto simp: bill_balanced_def recalculated_def Let_def status_for_assessment_def)

text \<open>Recalculating a balanced bill touches its status only.\<close>

lemma recalculated_of_balanced:
  assumes "bill_balanced d a"
  shows "ta_calculated (recalculated d a) = ta_calculated a"
    and "ta_tax_due (recalculated d a) = ta_tax_due a"
    and "ta_approved_paid (recalculated d a) = ta_approved_paid a"
    and "ta_adjustment_total (recalculated d a) = ta_adjustment_total a"
  using assms by (auto simp: bill_balanced_def recalculated_def Let_def)

lemma recalculated_period_balanced: "period_balanced d (recalculated_period d p)"
  by (auto simp: period_balanced_def recalculated_period_def Let_def period_status_for_def
      all_paid_def list_ex_iff not_le)

lemma reads_frame [books_simps]:
  "tax_allocated (d\<lparr>assessments := x1\<rparr>) k = tax_allocated d k"
  "tax_allocated (d\<lparr>periods := x2\<rparr>) k = tax_allocated d k"
  "tax_allocated (d\<lparr>payments := x3\<rparr>) k = tax_allocated d k"
  "tax_allocated (d\<lparr>adjustments := x4\<rparr>) k = tax_allocated d k"
  "tax_allocated (d\<lparr>outbox := x5\<rparr>) k = tax_allocated d k"
  "active_adjustment_total (d\<lparr>assessments := x1\<rparr>) k = active_adjustment_total d k"
  "active_adjustment_total (d\<lparr>periods := x2\<rparr>) k = active_adjustment_total d k"
  "active_adjustment_total (d\<lparr>payments := x3\<rparr>) k = active_adjustment_total d k"
  "active_adjustment_total (d\<lparr>allocations := x6\<rparr>) k = active_adjustment_total d k"
  "active_adjustment_total (d\<lparr>outbox := x5\<rparr>) k = active_adjustment_total d k"
  "allocations_of (d\<lparr>assessments := x1\<rparr>) k = allocations_of d k"
  "allocations_of (d\<lparr>periods := x2\<rparr>) k = allocations_of d k"
  "allocations_of (d\<lparr>payments := x3\<rparr>) k = allocations_of d k"
  "allocations_of (d\<lparr>adjustments := x4\<rparr>) k = allocations_of d k"
  "allocations_of (d\<lparr>outbox := x5\<rparr>) k = allocations_of d k"
  "assessments_of (d\<lparr>periods := x2\<rparr>) k = assessments_of d k"
  "assessments_of (d\<lparr>payments := x3\<rparr>) k = assessments_of d k"
  "assessments_of (d\<lparr>adjustments := x4\<rparr>) k = assessments_of d k"
  "assessments_of (d\<lparr>allocations := x6\<rparr>) k = assessments_of d k"
  "assessments_of (d\<lparr>outbox := x5\<rparr>) k = assessments_of d k"
  by (simp_all add: tax_allocated_def active_adjustment_total_def allocations_of_def assessments_of_def)

lemma balanced_frame [books_simps]:
  "bill_balanced (d\<lparr>assessments := x1\<rparr>) a = bill_balanced d a"
  "bill_balanced (d\<lparr>periods := x2\<rparr>) a = bill_balanced d a"
  "bill_balanced (d\<lparr>payments := x3\<rparr>) a = bill_balanced d a"
  "bill_balanced (d\<lparr>outbox := x5\<rparr>) a = bill_balanced d a"
  "period_balanced (d\<lparr>periods := x2\<rparr>) p = period_balanced d p"
  "period_balanced (d\<lparr>payments := x3\<rparr>) p = period_balanced d p"
  "period_balanced (d\<lparr>adjustments := x4\<rparr>) p = period_balanced d p"
  "period_balanced (d\<lparr>allocations := x6\<rparr>) p = period_balanced d p"
  "period_balanced (d\<lparr>outbox := x5\<rparr>) p = period_balanced d p"
  by (simp_all add: bill_balanced_def period_balanced_def books_simps)

lemma allocated_frame [books_simps]:
  "allocated_amount (d\<lparr>assessments := x1\<rparr>) k = allocated_amount d k"
  "allocated_amount (d\<lparr>periods := x2\<rparr>) k = allocated_amount d k"
  "allocated_amount (d\<lparr>payments := x3\<rparr>) k = allocated_amount d k"
  "allocated_amount (d\<lparr>adjustments := x4\<rparr>) k = allocated_amount d k"
  "allocated_amount (d\<lparr>outbox := x5\<rparr>) k = allocated_amount d k"
  by (simp_all add: allocated_amount_def books_simps)

lemma keys_of_update:
  assumes "\<And>r. key (f r) = key r"
  shows "key ` set (rows (update key k f t)) = key ` set (rows t)"
  by (simp add: rows_update image_image if_distrib [of key] assms cong: if_cong
      del: if_image_distrib)

lemma ball_rows_update:
  assumes "\<And>r. P (f r) = P r"
  shows "(\<forall>r \<in> set (rows (update key k f t)). P r) \<longleftrightarrow> (\<forall>r \<in> set (rows t). P r)"
  by (simp add: rows_update if_distrib [of P] assms cong: if_cong del: if_image_distrib)

lemmas refs_frame = keys_of_update ball_rows_update well_keyed_update allocation_sound_def

section \<open>Recalculating a bill\<close>

lemma refs_sound_recalculate_assessment:
  assumes "refs_sound d"
  shows "refs_sound (recalculate_assessment k d)"
  using assms
  by (simp add: refs_sound_def recalculate_assessment_def save_assessment_def books_simps refs_frame)

lemma map_period_after_recalculation:
  assumes "\<And>a. a \<in> set xs \<Longrightarrow> ta_pk a = k \<Longrightarrow> ta_period a = m \<Longrightarrow> f (g a) = f a"
    and "\<And>a. ta_period (g a) = ta_period a"
  shows "map f (filter (\<lambda>a. ta_period a = m) (map (\<lambda>a. if ta_pk a = k then g a else a) xs))
       = map f (filter (\<lambda>a. ta_period a = m) xs)"
  using assms by (induction xs) auto

lemma all_paid_map:
  assumes "map (\<lambda>a. (ta_tax_due a, ta_approved_paid a)) xs = map (\<lambda>a. (ta_tax_due a, ta_approved_paid a)) ys"
  shows "all_paid xs = all_paid ys"
proof -
  have "all_paid zs \<longleftrightarrow> map (\<lambda>a. (ta_tax_due a, ta_approved_paid a)) zs \<noteq> []
      \<and> list_all (\<lambda>(x, y). x \<le> y) (map (\<lambda>a. (ta_tax_due a, ta_approved_paid a)) zs)" for zs
    by (simp add: all_paid_def list_all_iff)
  with assms show ?thesis by presburger
qed

lemma period_balanced_recalculate_assessment:
  assumes "period_balanced d p"
    and "\<And>a. a \<in> set (rows (assessments d)) \<Longrightarrow> ta_pk a = k \<Longrightarrow> ta_period a = tx_pk p
           \<Longrightarrow> bill_balanced d a"
  shows "period_balanced (recalculate_assessment k d) p"
proof -
  have same: "map f (assessments_of (recalculate_assessment k d) (tx_pk p)) =
      map f (assessments_of d (tx_pk p))"
    if "\<And>a. bill_balanced d a \<Longrightarrow> f (recalculated d a) = f a" for f :: "tax_assessment \<Rightarrow> 'b"
    unfolding recalculate_assessment_def save_assessment_def assessments_of_def
    using that assms(2) by (simp add: rows_update map_period_after_recalculation)
  have "all_paid (assessments_of (recalculate_assessment k d) (tx_pk p)) =
      all_paid (assessments_of d (tx_pk p))"
    by (rule all_paid_map) (simp add: same recalculated_of_balanced)
  then show ?thesis
    using assms(1) by (simp add: period_balanced_def same recalculated_of_balanced)
qed

lemma books_recalculate_assessment:
  assumes "books_except Bs Ps d"
  shows "books_except (Bs - {k}) Ps (recalculate_assessment k d)"
proof -
  from assms have refs: "refs_sound d"
    and bills: "\<And>a. a \<in> set (rows (assessments d)) \<Longrightarrow>
          (ta_pk a \<in> Bs \<longrightarrow> ta_period a \<in> Ps) \<and> (ta_pk a \<notin> Bs \<longrightarrow> bill_balanced d a)"
    and pers: "\<And>p. p \<in> set (rows (periods d)) \<Longrightarrow> tx_pk p \<notin> Ps \<Longrightarrow> period_balanced d p"
    by (auto simp: books_except_def)
  have "period_balanced (recalculate_assessment k d) p"
    if "p \<in> set (rows (periods d))" and "tx_pk p \<notin> Ps" for p
  proof (rule period_balanced_recalculate_assessment)
    show "period_balanced d p" using that by (rule pers)
    show "bill_balanced d a"
      if "a \<in> set (rows (assessments d))" and "ta_pk a = k" and "ta_period a = tx_pk p" for a
      using bills [OF that(1)] that \<open>tx_pk p \<notin> Ps\<close> by auto
  qed
  moreover have "rows (periods (recalculate_assessment k d)) = rows (periods d)"
    by (simp add: recalculate_assessment_def save_assessment_def)
  ultimately show ?thesis
    using refs_sound_recalculate_assessment [OF refs] bills
    by (auto simp: books_except_def recalculate_assessment_def save_assessment_def books_simps
        rows_update recalculated_balanced)
qed

lemma books_fold_recalculate_assessment:
  "books_except Bs Ps d \<Longrightarrow>
     books_except (Bs - set ks) Ps (fold recalculate_assessment ks d)"
proof (induction ks arbitrary: Bs d)
  case Nil
  then show ?case by simp
next
  case (Cons k ks)
  then have "books_except (Bs - {k}) Ps (recalculate_assessment k d)"
    by (intro books_recalculate_assessment)
  then have "books_except (Bs - {k} - set ks) Ps (fold recalculate_assessment (k # ks) d)"
    by (simp add: Cons.IH)
  then show ?case
    by (simp add: insert_Diff_if Diff_insert2 [symmetric] Diff_insert [symmetric])
qed

section \<open>Recalculating a period\<close>

lemma refs_sound_recalculate_period:
  assumes "refs_sound d"
  shows "refs_sound (recalculate_period k d)"
  using assms
  by (simp add: refs_sound_def recalculate_period_def save_period_def books_simps refs_frame)

lemma books_recalculate_period:
  assumes "books_except {} Ps d"
  shows "books_except {} (Ps - {k}) (recalculate_period k d)"
  using assms refs_sound_recalculate_period [of d k]
  by (auto simp: books_except_def recalculate_period_def save_period_def books_simps rows_update
      recalculated_period_balanced)

lemma books_fold_recalculate_period:
  "books_except {} Ps d \<Longrightarrow> books_except {} (Ps - set ks) (fold recalculate_period ks d)"
proof (induction ks arbitrary: Ps d)
  case Nil
  then show ?case by simp
next
  case (Cons k ks)
  then have "books_except {} (Ps - {k}) (recalculate_period k d)"
    by (intro books_recalculate_period)
  then have "books_except {} (Ps - {k} - set ks) (fold recalculate_period (k # ks) d)"
    by (simp add: Cons.IH)
  then show ?case
    by (simp add: Diff_insert2 [symmetric] Diff_insert [symmetric])
qed

lemma books_except_mono:
  assumes "books_except Bs Ps d" and "Bs \<subseteq> Bs'" and "Ps \<subseteq> Ps'"
    and "\<And>a. a \<in> set (rows (assessments d)) \<Longrightarrow> ta_pk a \<in> Bs' \<Longrightarrow> ta_period a \<in> Ps'"
  shows "books_except Bs' Ps' d"
  using assms by (auto simp: books_except_def)

section \<open>Frames of the recalculations\<close>

lemma recalculate_frames [books_simps]:
  "periods (recalculate_assessment k d) = periods d"
  "payments (recalculate_assessment k d) = payments d"
  "allocations (recalculate_assessment k d) = allocations d"
  "adjustments (recalculate_assessment k d) = adjustments d"
  "outbox (recalculate_assessment k d) = outbox d"
  "wall (recalculate_assessment k d) = wall d"
  "config (recalculate_assessment k d) = config d"
  "assessments (recalculate_period k d) = assessments d"
  "payments (recalculate_period k d) = payments d"
  "allocations (recalculate_period k d) = allocations d"
  "adjustments (recalculate_period k d) = adjustments d"
  "outbox (recalculate_period k d) = outbox d"
  "wall (recalculate_period k d) = wall d"
  "config (recalculate_period k d) = config d"
  by (simp_all add: recalculate_assessment_def save_assessment_def recalculate_period_def save_period_def)

lemma fold_recalculate_frames [books_simps]:
  "periods (fold recalculate_assessment ks d) = periods d"
  "payments (fold recalculate_assessment ks d) = payments d"
  "allocations (fold recalculate_assessment ks d) = allocations d"
  "adjustments (fold recalculate_assessment ks d) = adjustments d"
  "wall (fold recalculate_assessment ks d) = wall d"
  "config (fold recalculate_assessment ks d) = config d"
  "assessments (fold recalculate_period ks d) = assessments d"
  "payments (fold recalculate_period ks d) = payments d"
  "allocations (fold recalculate_period ks d) = allocations d"
  "adjustments (fold recalculate_period ks d) = adjustments d"
  "wall (fold recalculate_period ks d) = wall d"
  "config (fold recalculate_period ks d) = config d"
  by (induction ks arbitrary: d; simp add: books_simps)+

lemma lookup_recalculate_assessment [books_simps]:
  "lookup ta_pk b (assessments (recalculate_assessment k d)) =
     (if b = k then map_option (recalculated d) (lookup ta_pk k (assessments d))
      else lookup ta_pk b (assessments d))"
  by (simp add: recalculate_assessment_def save_assessment_def lookup_update)

text \<open>Keys and periods of bills never change.\<close>

definition bill_periods :: "mt_db \<Rightarrow> nat set \<Rightarrow> nat set" where
  "bill_periods d Bs = ta_period ` {a \<in> set (rows (assessments d)). ta_pk a \<in> Bs}"

lemma bill_pks_recalculate_assessment [books_simps]:
  "ta_pk ` set (rows (assessments (recalculate_assessment k d))) = ta_pk ` set (rows (assessments d))"
  by (simp add: recalculate_assessment_def save_assessment_def keys_of_update)

lemma bill_pks_fold_recalculate_assessment [books_simps]:
  "ta_pk ` set (rows (assessments (fold recalculate_assessment ks d))) = ta_pk ` set (rows (assessments d))"
  by (induction ks arbitrary: d) (simp_all add: books_simps)

lemma image_filter_keep:
  assumes "\<And>a. P (g a) = P a"
  shows "{a \<in> g ` S. P a} = g ` {a \<in> S. P a}"
  using assms by auto

lemma set_concat_options:
  "set (concat (map (\<lambda>k. case f k of None \<Rightarrow> [] | Some a \<Rightarrow> [h a]) ks)) =
     {h a | a. \<exists>k \<in> set ks. f k = Some a}"
  by (induction ks) (auto split: option.splits)

lemma bill_periods_recalculate_assessment [books_simps]:
  "bill_periods (recalculate_assessment k d) Bs = bill_periods d Bs"
proof -
  have "{a \<in> set (rows (assessments (recalculate_assessment k d))). ta_pk a \<in> Bs}
      = (\<lambda>a. if ta_pk a = k then recalculated d a else a) ` {a \<in> set (rows (assessments d)). ta_pk a \<in> Bs}"
    unfolding recalculate_assessment_def save_assessment_def
    by (simp add: rows_update image_filter_keep del: if_image_distrib)
  then show ?thesis
    by (simp add: bill_periods_def image_image if_distrib [of ta_period] cong: if_cong
        del: if_image_distrib)
qed

lemma books_except_covers: "books_except Bs Ps d \<Longrightarrow> bill_periods d Bs \<subseteq> Ps"
  by (auto simp: books_except_def bill_periods_def)

section \<open>Clearing a payment\<close>

lemma set_bills_of: "set (bills_of as) = {b. \<exists>r \<in> set as. al_assessment r = Some b}"
  by (simp add: bills_of_def set_concat_options del: set_concat)

lemma set_periods_of_bills:
  assumes "refs_sound d"
  shows "set (periods_of_bills d ks) = bill_periods d (set ks)"
proof -
  have "lookup ta_pk k (assessments d) = Some a \<longleftrightarrow> a \<in> set (rows (assessments d)) \<and> ta_pk a = k" for k a
    using assms by (simp add: refs_sound_def lookup_iff)
  then show ?thesis
    by (auto simp: periods_of_bills_def bill_periods_def set_concat_options simp del: set_concat)
qed

definition drop_allocations :: "nat \<Rightarrow> mt_db \<Rightarrow> mt_db" where
  "drop_allocations k d = d\<lparr>allocations := delete_where (\<lambda>r. al_payment r = k) (allocations d)\<rparr>"

lemma allocations_of_drop:
  "allocations_of (drop_allocations k d) k' = (if k' = k then [] else allocations_of d k')"
proof (cases "k' = k")
  case True
  then show ?thesis
    by (simp add: allocations_of_def drop_allocations_def rows_delete_where)
next
  case False
  have "filter (\<lambda>r. al_payment r \<noteq> k \<and> al_payment r = k') xs = filter (\<lambda>r. al_payment r = k') xs" for xs
    using False by (intro filter_agree) auto
  then show ?thesis
    using False by (simp add: allocations_of_def drop_allocations_def rows_delete_where)
qed

lemma drop_frames [books_simps]:
  "assessments (drop_allocations k d) = assessments d"
  "periods (drop_allocations k d) = periods d"
  "payments (drop_allocations k d) = payments d"
  "adjustments (drop_allocations k d) = adjustments d"
  "active_adjustment_total (drop_allocations k d) b = active_adjustment_total d b"
  "assessments_of (drop_allocations k d) m = assessments_of d m"
  by (simp_all add: drop_allocations_def books_simps)

lemma tax_allocated_drop:
  assumes "b \<notin> set (bills_of (allocations_of d k))"
  shows "tax_allocated (drop_allocations k d) b = tax_allocated d b"
proof -
  have "filter (\<lambda>r. al_assessment r = Some b \<and> al_category r = CatTax)
          (filter (\<lambda>r. al_payment r \<noteq> k) (rows (allocations d)))
      = filter (\<lambda>r. al_assessment r = Some b \<and> al_category r = CatTax) (rows (allocations d))"
    unfolding filter_filter using assms
    by (intro filter_agree) (auto simp: set_bills_of allocations_of_def)
  then show ?thesis
    by (simp add: tax_allocated_def drop_allocations_def rows_delete_where)
qed

lemma refs_sound_drop:
  assumes "refs_sound d"
  shows "refs_sound (drop_allocations k d)"
proof -
  have "allocated_amount (drop_allocations k d) k' \<le> pc_amount p"
    if "p \<in> set (rows (payments d))" and "k' = pc_pk p" for k' p
    using assms that
    by (auto simp: refs_sound_def allocated_amount_def allocations_of_drop less_imp_le)
  moreover have "well_keyed al_pk (allocations (drop_allocations k d))"
    using assms by (simp add: refs_sound_def drop_allocations_def well_keyed_delete_where)
  moreover have "\<forall>r \<in> set (rows (allocations (drop_allocations k d))). allocation_sound d r"
    using assms by (simp add: refs_sound_def drop_allocations_def rows_delete_where)
  ultimately show ?thesis
    using assms by (simp add: refs_sound_def allocation_sound_def drop_allocations_def)
qed

lemma books_drop:
  assumes "books d"
  shows "books_except (set (bills_of (allocations_of d k)))
           (bill_periods d (set (bills_of (allocations_of d k)))) (drop_allocations k d)"
proof -
  let ?Bs = "set (bills_of (allocations_of d k))"
  from assms have d: "refs_sound d" "\<forall>a \<in> set (rows (assessments d)). bill_balanced d a"
      "\<forall>p \<in> set (rows (periods d)). period_balanced d p"
    by (auto simp: books_def books_except_def)
  have "bill_balanced (drop_allocations k d) a = bill_balanced d a" if "ta_pk a \<notin> ?Bs" for a
    using that by (simp add: bill_balanced_def tax_allocated_drop books_simps)
  moreover have "period_balanced (drop_allocations k d) p = period_balanced d p" for p
    by (simp add: drop_allocations_def books_simps)
  ultimately show ?thesis
    using d refs_sound_drop [OF d(1), of k]
    by (auto simp: books_except_def bill_periods_def drop_allocations_def)
qed

lemma allocated_bills_exist:
  assumes "refs_sound d"
  shows "set (bills_of (allocations_of d k)) \<subseteq> ta_pk ` set (rows (assessments d))"
  using assms by (auto simp: set_bills_of allocations_of_def refs_sound_def allocation_sound_def)

lemma affected_of_lock:
  assumes "lock_payment_context p subj d = (locked, affected)"
  shows "affected = bills_of (allocations_of d (pc_pk p))"
    and "set (filter (\<lambda>a. ta_pk a \<in> set affected) locked)
       = {a \<in> set (rows (assessments d)). ta_pk a \<in> set affected}"
  using assms by (auto simp: lock_payment_context_def Let_def)

lemma books_clear:
  assumes "books d" and "lock_payment_context p subj d = (locked, affected)" and "pc_pk p = k"
  shows "books (clear_payment_allocations k locked affected d)"
proof -
  let ?Bs = "set (bills_of (allocations_of d k))"
  let ?aff = "filter (\<lambda>a. ta_pk a \<in> set affected) locked"
  let ?d2 = "fold recalculate_assessment (map ta_pk ?aff) (drop_allocations k d)"
  from assms have aff: "affected = bills_of (allocations_of d k)"
    and rows: "set ?aff = {a \<in> set (rows (assessments d)). ta_pk a \<in> ?Bs}"
    using affected_of_lock [OF assms(2)] by auto
  have ref: "refs_sound d"
    using assms(1) by (simp add: books_def books_except_def)
  have pks: "set (map ta_pk ?aff) = ?Bs"
    using rows allocated_bills_exist [OF ref, of k] by auto
  have pers: "set (remdups (map ta_period ?aff)) = bill_periods d ?Bs"
    using rows by (simp add: bill_periods_def)
  have "books_except (?Bs - set (map ta_pk ?aff)) (bill_periods d ?Bs) ?d2"
    by (rule books_fold_recalculate_assessment) (rule books_drop [OF assms(1)])
  then have "books_except {} (bill_periods d ?Bs) ?d2"
    by (simp only: pks Diff_cancel)
  then have "books_except {} (bill_periods d ?Bs - set (remdups (map ta_period ?aff)))
      (fold recalculate_period (remdups (map ta_period ?aff)) ?d2)"
    by (rule books_fold_recalculate_period)
  then have "books_except {} {} (fold recalculate_period (remdups (map ta_period ?aff)) ?d2)"
    by (simp only: pers Diff_cancel)
  then show ?thesis
    by (simp add: books_def clear_payment_allocations_def drop_allocations_def Let_def)
qed

lemma clear_frames [books_simps]:
  "payments (clear_payment_allocations k locked affected d) = payments d"
  "adjustments (clear_payment_allocations k locked affected d) = adjustments d"
  "wall (clear_payment_allocations k locked affected d) = wall d"
  "config (clear_payment_allocations k locked affected d) = config d"
  "allocations (clear_payment_allocations k locked affected d) =
     delete_where (\<lambda>r. al_payment r = k) (allocations d)"
  by (simp_all add: clear_payment_allocations_def Let_def books_simps)

lemma allocations_of_clear:
  "allocations_of (clear_payment_allocations k locked affected d) k' =
     (if k' = k then [] else allocations_of d k')"
  using allocations_of_drop [of k d k']
  by (simp add: allocations_of_def books_simps drop_allocations_def)

section \<open>Adding allocations to one payment\<close>

text \<open>The state while a payment is being allocated: only what it pays is out of date.\<close>

definition dirty :: "nat \<Rightarrow> mt_db \<Rightarrow> bool" where
  "dirty k d \<longleftrightarrow>
     books_except (set (bills_of (allocations_of d k)))
       (bill_periods d (set (bills_of (allocations_of d k)))) d"

lemma books_dirty: "books d \<Longrightarrow> dirty k d"
  unfolding books_def dirty_def
  by (rule books_except_mono) (auto simp: bill_periods_def)

lemma dirty_refs: "dirty k d \<Longrightarrow> refs_sound d"
  by (simp add: dirty_def books_except_def)

lemma allocations_of_recalculate [books_simps]:
  "allocations_of (recalculate_assessment b d) k = allocations_of d k"
  "allocations_of (recalculate_period b d) k = allocations_of d k"
  by (simp_all add: allocations_of_def books_simps)

lemma dirty_recalculate:
  assumes "dirty k d"
  shows "dirty k (recalculate_assessment b d)"
proof -
  let ?Bs = "set (bills_of (allocations_of d k))"
  have "books_except (?Bs - {b}) (bill_periods d ?Bs) (recalculate_assessment b d)"
    using assms by (auto simp: dirty_def intro: books_recalculate_assessment)
  then have "books_except ?Bs (bill_periods d ?Bs) (recalculate_assessment b d)"
  proof (rule books_except_mono)
    show "ta_period a \<in> bill_periods d ?Bs"
      if "a \<in> set (rows (assessments (recalculate_assessment b d)))" and "ta_pk a \<in> ?Bs" for a
      using that bill_periods_recalculate_assessment [of b d ?Bs]
      by (auto simp: bill_periods_def)
  qed auto
  then show ?thesis
    by (simp add: dirty_def books_simps)
qed

lemma allocations_of_add:
  "allocations_of (add_allocation k bill cat amt notes director d) k' =
     (if k' = k then allocations_of d k @
        [\<lparr>al_pk = next_pk (allocations d), al_payment = k, al_assessment = bill,
          al_category = cat, al_amount = amt, al_notes = notes, al_created_by = director\<rparr>]
      else allocations_of d k')"
  by (simp add: allocations_of_def add_allocation_def rows_create)

lemma allocated_amount_add:
  "allocated_amount (add_allocation k bill cat amt notes director d) k' =
     allocated_amount d k' + (if k' = k then amt else 0)"
  by (simp add: allocated_amount_def allocations_of_add)

lemma tax_allocated_add:
  "tax_allocated (add_allocation k bill cat amt notes director d) b =
     tax_allocated d b + (if bill = Some b \<and> cat = CatTax then amt else 0)"
  by (simp add: tax_allocated_def add_allocation_def rows_create)

lemma add_allocation_frames [books_simps]:
  "assessments (add_allocation k bill cat amt notes director d) = assessments d"
  "periods (add_allocation k bill cat amt notes director d) = periods d"
  "payments (add_allocation k bill cat amt notes director d) = payments d"
  "adjustments (add_allocation k bill cat amt notes director d) = adjustments d"
  "wall (add_allocation k bill cat amt notes director d) = wall d"
  "config (add_allocation k bill cat amt notes director d) = config d"
  "bill_periods (add_allocation k bill cat amt notes director d) Bs = bill_periods d Bs"
  "active_adjustment_total (add_allocation k bill cat amt notes director d) b = active_adjustment_total d b"
  "assessments_of (add_allocation k bill cat amt notes director d) m = assessments_of d m"
  by (simp_all add: add_allocation_def bill_periods_def books_simps)

lemma set_bills_of_snoc:
  "set (bills_of (as @ [r])) = set (bills_of as) \<union> set_option (al_assessment r)"
  by (auto simp: set_bills_of)

lemma refs_sound_add:
  assumes "refs_sound d" and "p \<in> set (rows (payments d))" and "pc_pk p = k"
    and "0 < amt" and "cat = CatTax \<longleftrightarrow> bill \<noteq> None"
    and "allocated_amount d k + amt \<le> pc_amount p"
    and "set_option bill \<subseteq> ta_pk ` set (rows (assessments d))"
  shows "refs_sound (add_allocation k bill cat amt notes director d)" (is "refs_sound ?d")
proof -
  have "well_keyed pc_pk (payments d)"
    using assms(1) by (simp add: refs_sound_def)
  then have same: "q = p" if "q \<in> set (rows (payments d))" and "pc_pk q = k" for q
    using that assms(2,3) by (auto intro: tbl.content_unique)
  have "0 < pc_amount q \<and> allocated_amount ?d (pc_pk q) \<le> pc_amount q"
    if q: "q \<in> set (rows (payments d))" for q
  proof (cases "pc_pk q = k")
    case True
    with same [OF q] assms(1,2,6) q show ?thesis
      by (simp add: allocated_amount_add refs_sound_def)
  next
    case False
    with assms(1) q show ?thesis
      by (simp add: allocated_amount_add refs_sound_def)
  qed
  moreover have "well_keyed al_pk (allocations ?d)"
    using assms(1) by (simp add: refs_sound_def add_allocation_def well_keyed_create)
  moreover have "\<forall>r \<in> set (rows (allocations ?d)). allocation_sound ?d r"
  proof -
    have "\<forall>r \<in> set (rows (allocations d)). allocation_sound ?d r"
      using assms(1) by (simp add: refs_sound_def allocation_sound_def books_simps)
    moreover have "allocation_sound ?d \<lparr>al_pk = next_pk (allocations d), al_payment = k,
        al_assessment = bill, al_category = cat, al_amount = amt, al_notes = notes,
        al_created_by = director\<rparr>"
      using assms(2,3,4,5,7) by (cases bill) (auto simp: allocation_sound_def books_simps)
    moreover have "rows (allocations ?d) = rows (allocations d) @
        [\<lparr>al_pk = next_pk (allocations d), al_payment = k, al_assessment = bill,
          al_category = cat, al_amount = amt, al_notes = notes, al_created_by = director\<rparr>]"
      by (simp add: add_allocation_def rows_create)
    ultimately show ?thesis by simp
  qed
  ultimately show ?thesis
    using assms(1) by (simp add: refs_sound_def books_simps)
qed

lemma dirty_add:
  assumes "dirty k d" and "p \<in> set (rows (payments d))" and "pc_pk p = k"
    and "0 < amt" and "cat = CatTax \<longleftrightarrow> bill \<noteq> None"
    and "allocated_amount d k + amt \<le> pc_amount p"
    and "set_option bill \<subseteq> ta_pk ` set (rows (assessments d))"
  shows "dirty k (add_allocation k bill cat amt notes director d)" (is "dirty k ?d")
proof -
  let ?Bs = "set (bills_of (allocations_of d k))"
  let ?Bs' = "?Bs \<union> set_option bill"
  have new: "set (bills_of (allocations_of ?d k)) = ?Bs'"
    by (simp add: allocations_of_add set_bills_of_snoc)
  have old: "books_except ?Bs (bill_periods d ?Bs) d"
    using assms(1) by (simp add: dirty_def)
  have "bill_balanced ?d a" if "a \<in> set (rows (assessments d))" and "ta_pk a \<notin> ?Bs'" for a
    using old that by (auto simp: books_except_def bill_balanced_def tax_allocated_add books_simps)
  moreover have "period_balanced ?d q"
    if "q \<in> set (rows (periods d))" and "tx_pk q \<notin> bill_periods d ?Bs'" for q
  proof -
    have "tx_pk q \<notin> bill_periods d ?Bs"
      using that(2) by (auto simp: bill_periods_def)
    with old that(1) show ?thesis
      by (simp add: books_except_def period_balanced_def books_simps)
  qed
  moreover have "refs_sound ?d"
    using assms dirty_refs by (blast intro: refs_sound_add)
  ultimately show ?thesis
    unfolding dirty_def new by (auto simp: books_except_def books_simps bill_periods_def)
qed

section \<open>Paying the oldest bills first\<close>

text \<open>
  The specification: a payment is poured over the bills in order, each one
  taking no more than it owes.
\<close>

fun waterfall :: "decimal \<Rightarrow> (nat \<times> decimal) list \<Rightarrow> (nat \<times> decimal) list \<times> decimal" where
  "waterfall rest [] = ([], rest)"
| "waterfall rest ((k, owed) # bills) =
     (if owed \<le> 0 then waterfall rest bills
      else if rest \<le> owed then ([(k, rest)], 0)
      else let (shares, rest') = waterfall (rest - owed) bills in ((k, owed) # shares, rest'))"

lemma waterfall_total:
  "waterfall rest bills = (shares, rest') \<Longrightarrow> 0 < rest \<Longrightarrow>
     sum_list (map snd shares) + rest' = rest \<and> 0 \<le> rest' \<and> (\<forall>s \<in> set shares. 0 < snd s)"
  by (induction rest bills arbitrary: shares rest' rule: waterfall.induct)
    (fastforce split: if_splits prod.splits)+

lemma waterfall_within:
  "waterfall rest bills = (shares, rest') \<Longrightarrow> 0 < rest \<Longrightarrow> distinct (map fst bills) \<Longrightarrow>
     (k, x) \<in> set shares \<Longrightarrow> (\<exists>owed. (k, owed) \<in> set bills \<and> x \<le> owed)"
  by (induction rest bills arbitrary: shares rest' rule: waterfall.induct)
    (fastforce split: if_splits prod.splits)+

text \<open>What is left over, or given to a later bill, means every earlier bill got all it owed.\<close>

lemma waterfall_in_order:
  assumes "waterfall rest (xs @ (k, owed) # ys) = (shares, rest')" and "0 < rest"
    and "distinct (map fst (xs @ (k, owed) # ys))" and "0 < owed"
    and "0 < rest' \<or> (\<exists>j x. (j, x) \<in> set shares \<and> j \<in> fst ` set ys)"
  shows "(k, owed) \<in> set shares"
  using assms
proof (induction rest xs arbitrary: shares rest' rule: waterfall.induct)
  case (1 rest)
  show ?case
  proof (cases "rest \<le> owed")
    case True
    with 1 have "shares = [(k, rest)]" and "rest' = 0" by simp_all
    with 1 show ?thesis by auto
  next
    case False
    with 1 show ?thesis by (auto split: prod.splits)
  qed
next
  case (2 rest j o' xs)
  show ?case
  proof (cases "o' \<le> 0")
    case True
    with 2 show ?thesis by simp
  next
    case False
    show ?thesis
    proof (cases "rest \<le> o'")
      case True
      with False 2(3-) show ?thesis by (auto simp: image_iff)
    next
      case more: False
      obtain s r where sr: "waterfall (rest - o') (xs @ (k, owed) # ys) = (s, r)"
        by fastforce
      with False more 2(3-) have "shares = (j, o') # s" and "rest' = r"
        by (auto split: prod.splits)
      moreover have "0 < r \<or> (\<exists>i x. (i, x) \<in> set s \<and> i \<in> fst ` set ys)"
        using 2(3-) \<open>shares = (j, o') # s\<close> \<open>rest' = r\<close> by auto
      ultimately show ?thesis
        using 2(2) [OF False more sr] more 2(4,5,6) by simp
    qed
  qed
qed

section \<open>The loop pours the payment\<close>

lemma bill_outstanding_recalculate:
  assumes "books_except Bs Ps d" and "b \<notin> Bs"
  shows "bill_outstanding (recalculate_assessment b d) b' = bill_outstanding d b'"
proof (cases "lookup ta_pk b (assessments d)")
  case None
  then show ?thesis by (simp add: bill_outstanding_def books_simps)
next
  case (Some a)
  then have "a \<in> set (rows (assessments d))" and "ta_pk a = b"
    by (auto dest: lookup_SomeD)
  with assms have "bill_balanced d a"
    by (auto simp: books_except_def)
  then show ?thesis
    using Some by (simp add: bill_outstanding_def books_simps outstanding_def recalculated_of_balanced)
qed

lemma bill_outstanding_add [books_simps]:
  "bill_outstanding (add_allocation k bill cat amt notes director d) b = bill_outstanding d b"
  by (simp add: bill_outstanding_def books_simps)

definition share_of :: "allocation \<Rightarrow> nat option \<times> category \<times> decimal" where
  "share_of r = (al_assessment r, al_category r, al_amount r)"

definition tax_share :: "nat \<times> decimal \<Rightarrow> nat option \<times> category \<times> decimal" where
  "tax_share s = (Some (fst s), CatTax, snd s)"

text \<open>What the loop leaves alone, and what it adds to the payment.\<close>

definition poured :: "nat \<Rightarrow> mt_db \<Rightarrow> (nat \<times> decimal) list \<Rightarrow> mt_db \<Rightarrow> bool" where
  "poured k d shares d' \<longleftrightarrow>
     payments d' = payments d \<and> periods d' = periods d \<and> adjustments d' = adjustments d
     \<and> wall d' = wall d \<and> config d' = config d
     \<and> map share_of (allocations_of d' k) = map share_of (allocations_of d k) @ map tax_share shares
     \<and> (\<forall>k'. k' \<noteq> k \<longrightarrow> allocations_of d' k' = allocations_of d k')"

lemma poured_recalculate: "poured k (recalculate_assessment b d) shares d' = poured k d shares d'"
  by (simp add: poured_def books_simps)

lemma poured_nil: "poured k d [] d" and poured_nil_recalculate: "poured k d [] (recalculate_assessment b d)"
  by (simp_all add: poured_def books_simps)

lemma poured_add:
  assumes "poured k (add_allocation k (Some b) CatTax amt notes director d) shares d'"
  shows "poured k d ((b, amt) # shares) d'"
  using assms by (auto simp: poured_def books_simps allocations_of_add share_of_def tax_share_def)

lemma poured_one: "poured k d [(b, amt)] (add_allocation k (Some b) CatTax amt notes director d)"
  by (rule poured_add) (rule poured_nil)

lemma allocate_oldest_pours:
  assumes "dirty k d" and "p \<in> set (rows (payments d))" and "pc_pk p = k"
    and "0 < rest" and "allocated_amount d k + rest = pc_amount p"
    and "distinct ks" and "set ks \<subseteq> ta_pk ` set (rows (assessments d))"
    and "set ks \<inter> set (bills_of (allocations_of d k)) = {}"
    and "allocate_oldest k director ks rest d = (rest', d')"
    and "waterfall rest (map (\<lambda>b. (b, bill_outstanding d b)) ks) = (shares, left)"
  shows "rest' = left \<and> dirty k d' \<and> poured k d shares d'
    \<and> allocated_amount d' k + left = pc_amount p"
  using assms
proof (induction ks arbitrary: d rest shares left)
  case Nil
  then show ?case by (simp add: poured_nil)
next
  case (Cons b ks)
  let ?d1 = "recalculate_assessment b d"
  let ?avail = "bill_outstanding ?d1 b"
  have fresh: "b \<notin> set (bills_of (allocations_of d k))"
    using Cons.prems(8) by auto
  have same: "bill_outstanding ?d1 b' = bill_outstanding d b'" for b'
    using Cons.prems(1) fresh unfolding dirty_def by (rule bill_outstanding_recalculate)
  have d1: "dirty k ?d1" "p \<in> set (rows (payments ?d1))"
      "set ks \<subseteq> ta_pk ` set (rows (assessments ?d1))"
      "allocated_amount ?d1 k = allocated_amount d k"
    using Cons.prems by (simp_all add: dirty_recalculate books_simps allocated_amount_def)
  show ?case
  proof (cases "?avail \<le> 0")
    case True
    then have "allocate_oldest k director ks rest ?d1 = (rest', d')"
      using Cons.prems(9) by (simp add: Let_def)
    moreover have "waterfall rest (map (\<lambda>b. (b, bill_outstanding ?d1 b)) ks) = (shares, left)"
      using Cons.prems(10) True same by simp
    ultimately show ?thesis
      using Cons.IH [of ?d1 rest shares left] Cons.prems d1
      by (simp add: books_simps poured_recalculate)
  next
    case False
    let ?amt = "min rest ?avail"
    let ?d2 = "add_allocation k (Some b) CatTax ?amt
       ''Director approved: oldest unpaid extraction first.'' director ?d1"
    have d2: "dirty k ?d2"
      using d1 Cons.prems False
      by (intro dirty_add [where p = p]) (auto simp: books_simps)
    have total: "allocated_amount ?d2 k = allocated_amount d k + ?amt"
      by (simp add: allocated_amount_add d1)
    show ?thesis
    proof (cases "rest \<le> ?avail")
      case True
      then have "rest' = rest - ?amt" and "d' = ?d2" and "shares = [(b, rest)]" and "left = 0"
        using Cons.prems(9,10) False same by (simp_all add: Let_def)
      with True Cons.prems(5) d2 total show ?thesis
        using poured_one [of k ?d1 b ?amt] by (simp add: poured_recalculate)
    next
      case more: False
      obtain s l where sl: "waterfall (rest - ?avail) (map (\<lambda>b. (b, bill_outstanding ?d2 b)) ks) = (s, l)"
        by fastforce
      have "waterfall rest (map (\<lambda>b. (b, bill_outstanding d b)) (b # ks)) = ((b, ?avail) # s, l)"
        using sl False more by (simp add: same books_simps)
      then have shares: "shares = (b, ?avail) # s" and left: "left = l"
        using Cons.prems(10) by simp_all
      have "allocate_oldest k director ks (rest - ?avail) ?d2 = (rest', d')"
        using Cons.prems(9) False more by (simp add: Let_def)
      moreover have "set ks \<inter> set (bills_of (allocations_of ?d2 k)) = {}"
        using Cons.prems(6,8) by (auto simp: allocations_of_add set_bills_of_snoc books_simps)
      ultimately have "rest' = l \<and> dirty k d' \<and> poured k ?d2 s d' \<and> allocated_amount d' k + l = pc_amount p"
        using Cons.IH [of ?d2 "rest - ?avail" s l] sl d2 total d1 more Cons.prems
        by (simp add: books_simps)
      then show ?thesis
        using more shares left poured_add [of k b ?avail
          "''Director approved: oldest unpaid extraction first.''" director ?d1 s d']
        by (simp add: poured_recalculate)
    qed
  qed
qed

end
