(* ===== verification/MT_Decisions.thy ===== *)
theory MT_Decisions
  imports MT_Books
begin

text \<open>
  What a director's decision does: it keeps the books, accounts for every ISK of
  the payment, and pays the payer's bills oldest first. \<open>settles\<close> is the
  specification of the dispositions; \<open>decide_payment\<close> refines it.
\<close>

section \<open>Saving the payment\<close>

lemma refs_sound_save_payment:
  assumes "refs_sound d" and "\<And>q. pc_pk (f q) = pc_pk q" and "\<And>q. pc_amount (f q) = pc_amount q"
  shows "refs_sound (save_payment k f d)"
  using assms
  by (simp add: refs_sound_def save_payment_def books_simps refs_frame)

lemma save_payment_frames [books_simps]:
  "assessments (save_payment k f d) = assessments d"
  "periods (save_payment k f d) = periods d"
  "allocations (save_payment k f d) = allocations d"
  "adjustments (save_payment k f d) = adjustments d"
  "wall (save_payment k f d) = wall d"
  "config (save_payment k f d) = config d"
  "outbox (save_payment k f d) = outbox d"
  "bill_balanced (save_payment k f d) a = bill_balanced d a"
  "period_balanced (save_payment k f d) p = period_balanced d p"
  "allocations_of (save_payment k f d) j = allocations_of d j"
  "tax_allocated (save_payment k f d) j = tax_allocated d j"
  "active_adjustment_total (save_payment k f d) j = active_adjustment_total d j"
  "assessments_of (save_payment k f d) j = assessments_of d j"
  "bill_periods (save_payment k f d) Bs = bill_periods d Bs"
  by (simp_all add: save_payment_def books_simps bill_periods_def)

lemma books_except_save_payment:
  assumes "books_except Bs Ps d" and "\<And>q. pc_pk (f q) = pc_pk q" and "\<And>q. pc_amount (f q) = pc_amount q"
  shows "books_except Bs Ps (save_payment k f d)"
  using assms by (simp add: books_except_def books_simps refs_sound_save_payment)

lemma books_save_payment:
  assumes "books d" and "\<And>q. pc_pk (f q) = pc_pk q" and "\<And>q. pc_amount (f q) = pc_amount q"
  shows "books (save_payment k f d)"
  using assms unfolding books_def by (rule books_except_save_payment)

lemma dirty_save_payment:
  assumes "dirty k d" and "\<And>q. pc_pk (f q) = pc_pk q" and "\<And>q. pc_amount (f q) = pc_amount q"
  shows "dirty k (save_payment j f d)"
  using assms by (simp add: dirty_def books_simps books_except_save_payment)

lemma notify_payment_decision_frames [books_simps]:
  "assessments (notify_payment_decision p d) = assessments d"
  "periods (notify_payment_decision p d) = periods d"
  "payments (notify_payment_decision p d) = payments d"
  "allocations (notify_payment_decision p d) = allocations d"
  "adjustments (notify_payment_decision p d) = adjustments d"
  "wall (notify_payment_decision p d) = wall d"
  "config (notify_payment_decision p d) = config d"
  "allocations_of (notify_payment_decision p d) k = allocations_of d k"
  by (simp_all add: notify_payment_decision_def notify_def Let_def books_simps)

lemma books_frame:
  assumes "assessments d' = assessments d" and "periods d' = periods d" and "payments d' = payments d"
    and "allocations d' = allocations d" and "adjustments d' = adjustments d"
  shows "books d' \<longleftrightarrow> books d"
proof -
  have "tax_allocated d' = tax_allocated d" "active_adjustment_total d' = active_adjustment_total d"
    "allocated_amount d' = allocated_amount d" "assessments_of d' = assessments_of d"
    using assms
    by (simp_all add: fun_eq_iff tax_allocated_def active_adjustment_total_def allocated_amount_def
        allocations_of_def assessments_of_def)
  then show ?thesis
    using assms
    by (simp add: books_def books_except_def refs_sound_def bill_balanced_def period_balanced_def
        allocation_sound_def)
qed

lemma books_notify_payment_decision [simp]: "books (notify_payment_decision p d) \<longleftrightarrow> books d"
  by (rule books_frame) (simp_all add: books_simps)

lemma save_decision_frames [books_simps]:
  "assessments (save_decision p d) = assessments d"
  "periods (save_decision p d) = periods d"
  "allocations (save_decision p d) = allocations d"
  "adjustments (save_decision p d) = adjustments d"
  "wall (save_decision p d) = wall d"
  "config (save_decision p d) = config d"
  "assessments (save_review p d) = assessments d"
  "periods (save_review p d) = periods d"
  "allocations (save_review p d) = allocations d"
  "adjustments (save_review p d) = adjustments d"
  "wall (save_review p d) = wall d"
  "config (save_review p d) = config d"
  "allocations_of (save_decision p d) k = allocations_of d k"
  "allocations_of (save_review p d) k = allocations_of d k"
  "bill_periods (save_decision p d) Bs = bill_periods d Bs"
  "bill_periods (save_review p d) Bs = bill_periods d Bs"
  by (simp_all add: save_decision_def save_review_def books_simps)

lemma dirty_save_decision: "dirty k d \<Longrightarrow> dirty k (save_decision p d)"
  unfolding save_decision_def by (rule dirty_save_payment) simp_all

lemma dirty_save_review: "dirty k d \<Longrightarrow> dirty k (save_review p d)"
  unfolding save_review_def by (rule dirty_save_payment) simp_all

lemma books_save_decision: "books d \<Longrightarrow> books (save_decision p d)"
  unfolding save_decision_def by (rule books_save_payment) simp_all

section \<open>Recalculating a payment\<close>

definition decided :: "payment \<Rightarrow> nat option \<Rightarrow> mt_db \<Rightarrow> payment" where
  "decided p director d =
     (let q = p\<lparr>pc_status := payment_status_for p (allocations_of d (pc_pk p))\<rparr>
      in if director \<noteq> None
         then q\<lparr>pc_reviewed_by := director, pc_reviewed_at := Some (wall d)\<rparr> else q)"

lemma decided_fields [simp]:
  "pc_pk (decided p director d) = pc_pk p"
  "pc_amount (decided p director d) = pc_amount p"
  "pc_status (decided p director d) = payment_status_for p (allocations_of d (pc_pk p))"
  by (simp_all add: decided_def Let_def)

lemma recalculate_payment_eq:
  "recalculate_payment p director notify_user d =
     (let bs = bills_of (allocations_of d (pc_pk p));
          d1 = save_decision (decided p director d) d;
          d3 = fold recalculate_period (periods_of_bills d1 bs) (fold recalculate_assessment bs d1)
      in (decided p director d,
          if notify_user then notify_payment_decision (decided p director d) d3 else d3))"
  by (simp add: recalculate_payment_def decided_def Let_def)

lemma books_recalculate_payment:
  assumes "dirty (pc_pk p) d"
  shows "books (snd (recalculate_payment p director notify_user d))"
proof -
  let ?bs = "bills_of (allocations_of d (pc_pk p))"
  let ?d1 = "save_decision (decided p director d) d"
  let ?P = "bill_periods d (set ?bs)"
  have d1: "dirty (pc_pk p) ?d1"
    using assms by (rule dirty_save_decision)
  then have "books_except (set ?bs) ?P ?d1"
    by (simp add: dirty_def books_simps)
  then have "books_except (set ?bs - set ?bs) ?P (fold recalculate_assessment ?bs ?d1)"
    by (rule books_fold_recalculate_assessment)
  then have "books_except {} (?P - set (periods_of_bills ?d1 ?bs))
      (fold recalculate_period (periods_of_bills ?d1 ?bs) (fold recalculate_assessment ?bs ?d1))"
    by (simp add: books_fold_recalculate_period)
  then have "books (fold recalculate_period (periods_of_bills ?d1 ?bs) (fold recalculate_assessment ?bs ?d1))"
    by (simp add: books_def set_periods_of_bills [OF dirty_refs [OF d1]] books_simps)
  then show ?thesis
    by (simp add: recalculate_payment_eq Let_def)
qed

lemma recalculate_payment_frames [books_simps]:
  "allocations (snd (recalculate_payment p director notify_user d)) = allocations d"
  "adjustments (snd (recalculate_payment p director notify_user d)) = adjustments d"
  "wall (snd (recalculate_payment p director notify_user d)) = wall d"
  "config (snd (recalculate_payment p director notify_user d)) = config d"
  "payments (snd (recalculate_payment p director notify_user d)) =
     payments (save_decision (decided p director d) d)"
  "fst (recalculate_payment p director notify_user d) = decided p director d"
  by (simp_all add: recalculate_payment_eq Let_def books_simps)

lemma allocations_of_recalculate_payment [books_simps]:
  "allocations_of (snd (recalculate_payment p director notify_user d)) k = allocations_of d k"
  by (simp add: allocations_of_def books_simps)

lemma payment_after_decision:
  assumes "lookup pc_pk (pc_pk p) (payments d) = Some q" and "pc_amount q = pc_amount p"
  shows "\<exists>r. lookup pc_pk (pc_pk p) (payments (save_decision p d)) = Some r
     \<and> pc_status r = pc_status p \<and> pc_amount r = pc_amount p \<and> pc_reviewed_by r = pc_reviewed_by p
     \<and> pc_reviewed_at r = pc_reviewed_at p \<and> pc_review_note r = pc_review_note p"
  using assms by (simp add: save_decision_def save_payment_def lookup_update)

section \<open>The branches of a decision\<close>

lemma stamped_fields [simp]:
  "pc_pk (stamped p director note d) = pc_pk p"
  "pc_amount (stamped p director note d) = pc_amount p"
  "pc_auth_user (stamped p director note d) = pc_auth_user p"
  "pc_payer_id (stamped p director note d) = pc_payer_id p"
  "pc_source (stamped p director note d) = pc_source p"
  "pc_recipient_id (stamped p director note d) = pc_recipient_id p"
  by (simp_all add: stamped_def)

definition oldest_disposition :: "string \<Rightarrow> bool" where
  "oldest_disposition s \<longleftrightarrow> s = ''oldest_carryover'' \<or> s = ''oldest_overage''"

text \<open>The whole-payment dispositions and the category they book.\<close>

definition whole_category :: "string \<Rightarrow> category option" where
  "whole_category s =
     (if s = ''donation'' then Some CatDonation else if s = ''ignore'' then Some CatIgnored else None)"

lemma decide_cleared_cases:
  assumes "decide_cleared disposition director p locked d = Inr (p', d')"
  obtains (pending) "disposition = ''pending''" and "p' = p\<lparr>pc_status := PayPending\<rparr>"
      and "d' = save_decision p' d"
  | (reject) "disposition = ''reject''" and "p' = p\<lparr>pc_status := PayRejected\<rparr>"
      and "d' = notify_payment_decision p' (save_decision p' d)"
  | (oldest) "oldest_disposition disposition"
      and "(p', d') = recalculate_payment p director True
             (save_review p (decide_oldest disposition director p locked d))"
  | (whole) cat why where "whole_category disposition = Some cat" and "cat \<noteq> CatTax"
      and "(p', d') = recalculate_payment p director True
             (save_review p (add_allocation (pc_pk p) None cat (pc_amount p) why director d))"
  using assms unfolding decide_cleared_def Let_def oldest_disposition_def whole_category_def
  by (simp split: if_splits) (metis | force)+

lemma decide_payment_cleared:
  assumes "decide_payment k disposition director note d = Inr (p', d')"
  obtains p locked affected where
    "lookup pc_pk k (payments d) = Some p" and "pc_pk p = k" and "pc_status p \<noteq> PayExempt"
    and "lock_payment_context p True d = (locked, affected)"
    and "decide_cleared disposition director (stamped p director note d) locked
           (clear_payment_allocations k locked affected d) = Inr (p', d')"
proof -
  from assms obtain p where p: "lookup pc_pk k (payments d) = Some p" "pc_status p \<noteq> PayExempt"
    unfolding decide_payment_def by (auto split: option.splits if_splits)
  obtain locked affected where l: "lock_payment_context p True d = (locked, affected)"
    by fastforce
  show thesis
  proof (rule that [OF p(1) _ p(2) l])
    show "pc_pk p = k"
      using p(1) by (auto dest: lookup_SomeD)
    show "decide_cleared disposition director (stamped p director note d) locked
           (clear_payment_allocations k locked affected d) = Inr (p', d')"
      using assms p l by (simp add: decide_payment_def)
  qed
qed

section \<open>The bills as the clearing leaves them\<close>

text \<open>What a recalculation never changes on a bill whose terms are up to date.\<close>

definition terms :: "tax_assessment \<Rightarrow>
    nat \<times> nat \<times> nat option \<times> nat option \<times> instant \<times> decimal \<times> decimal \<times> decimal" where
  "terms a = (ta_pk a, ta_period a, ta_auth_user a, ta_character_id a, ta_due_at a, ta_calculated a,
              ta_adjustment_total a, ta_tax_due a)"

definition terms_balanced :: "mt_db \<Rightarrow> tax_assessment \<Rightarrow> bool" where
  "terms_balanced d a \<longleftrightarrow>
     ta_adjustment_total a = active_adjustment_total d (ta_pk a)
     \<and> ta_tax_due a = max 0 (ta_calculated a + ta_adjustment_total a)"

lemma terms_recalculated:
  "terms_balanced d a \<Longrightarrow> terms (recalculated d a) = terms a"
  by (auto simp: terms_def terms_balanced_def recalculated_def Let_def)

lemma terms_balanced_recalculated: "terms_balanced d (recalculated d a)"
  by (simp add: terms_balanced_def recalculated_def Let_def)

lemma active_total_recalculate [books_simps]:
  "active_adjustment_total (recalculate_assessment k d) b = active_adjustment_total d b"
  "tax_allocated (recalculate_assessment k d) b = tax_allocated d b"
  by (simp_all add: active_adjustment_total_def tax_allocated_def books_simps)

lemma terms_fold_recalculate:
  assumes "\<forall>a \<in> set (rows (assessments d)). terms_balanced d a"
  shows "map_option terms (lookup ta_pk b (assessments (fold recalculate_assessment ks d))) =
         map_option terms (lookup ta_pk b (assessments d))"
  using assms
proof (induction ks arbitrary: d)
  case Nil
  then show ?case by simp
next
  case (Cons k ks)
  let ?d = "recalculate_assessment k d"
  have "\<forall>a \<in> set (rows (assessments ?d)). terms_balanced ?d a"
    using Cons.prems terms_balanced_recalculated [of d]
    by (auto simp: terms_balanced_def books_simps) 
      (auto simp: recalculate_assessment_def save_assessment_def rows_update)
  then have "map_option terms (lookup ta_pk b (assessments (fold recalculate_assessment ks ?d))) =
      map_option terms (lookup ta_pk b (assessments ?d))"
    by (rule Cons.IH)
  also have "\<dots> = map_option terms (lookup ta_pk b (assessments d))"
  proof (cases "lookup ta_pk b (assessments d)")
    case None
    then show ?thesis by (auto simp: books_simps)
  next
    case (Some a)
    then have "terms (recalculated d a) = terms a"
      using Cons.prems by (auto intro!: terms_recalculated dest: lookup_SomeD)
    with Some show ?thesis by (auto simp: books_simps)
  qed
  finally show ?case by simp
qed

definition period_terms :: "tax_period \<Rightarrow> instant \<times> recipient_entry list" where
  "period_terms p = (tx_pop_at p, tx_allowed_recipients p)"

lemma period_terms_fold_recalculate:
  "map_option period_terms (lookup tx_pk m (periods (fold recalculate_period ks d))) =
     map_option period_terms (lookup tx_pk m (periods d))"
proof (induction ks arbitrary: d)
  case Nil
  then show ?case by simp
next
  case (Cons k ks)
  then show ?case
    by (simp add: recalculate_period_def save_period_def lookup_update option.map_comp comp_def
        period_terms_def)
qed

lemma period_terms_clear:
  "map_option period_terms (lookup tx_pk m (periods (clear_payment_allocations k locked affected d))) =
     map_option period_terms (lookup tx_pk m (periods d))"
  by (simp add: clear_payment_allocations_def Let_def period_terms_fold_recalculate books_simps)

lemma terms_clear:
  assumes "books d"
  shows "map_option terms (lookup ta_pk b (assessments (clear_payment_allocations k locked affected d))) =
     map_option terms (lookup ta_pk b (assessments d))"
proof -
  let ?d0 = "drop_allocations k d"
  have "\<forall>a \<in> set (rows (assessments ?d0)). terms_balanced ?d0 a"
    using assms by (simp add: books_def books_except_def bill_balanced_def terms_balanced_def books_simps)
  then show ?thesis
    using terms_fold_recalculate [of ?d0 b]
    by (simp add: clear_payment_allocations_def Let_def books_simps drop_allocations_def)
qed

section \<open>What a payment's bills still owe\<close>

text \<open>The balance of a bill once the payment \<open>k\<close> is set aside.\<close>

definition owed_apart :: "nat \<Rightarrow> mt_db \<Rightarrow> tax_assessment \<Rightarrow> decimal" where
  "owed_apart k d a =
     max 0 (ta_tax_due a - sum_list (map al_amount (filter (\<lambda>r. al_payment r \<noteq> k
        \<and> al_assessment r = Some (ta_pk a) \<and> al_category r = CatTax) (rows (allocations d)))))"

definition accepts :: "mt_db \<Rightarrow> payment \<Rightarrow> tax_assessment \<Rightarrow> bool" where
  "accepts d p a \<longleftrightarrow> (case period_of d a of None \<Rightarrow> False | Some q \<Rightarrow> recipient_allowed q p)"

text \<open>The payer's bills that accept the payment's recipient, oldest first.\<close>

definition payable :: "mt_db \<Rightarrow> payment \<Rightarrow> tax_assessment list" where
  "payable d p =
     filter (accepts d p) (oldest_first d (filter (subject_matches p) (rows (assessments d))))"

lemma tax_allocated_clear:
  "tax_allocated (clear_payment_allocations k locked affected d) b =
     sum_list (map al_amount (filter (\<lambda>r. al_payment r \<noteq> k
        \<and> al_assessment r = Some b \<and> al_category r = CatTax) (rows (allocations d))))"
  by (simp add: tax_allocated_def books_simps rows_delete_where)

lemma cleared_bill:
  assumes "books d" and "d1 = clear_payment_allocations k locked affected d" and "books d1"
    and "a \<in> set (rows (assessments d))"
  shows "lookup ta_pk (ta_pk a) (assessments d1) = Some (reload d1 a)"
    and "terms (reload d1 a) = terms a"
    and "outstanding (reload d1 a) = owed_apart k d a"
proof -
  have keyed: "well_keyed ta_pk (assessments d)"
    using assms(1) by (simp add: books_def books_except_def refs_sound_def)
  have "map_option terms (lookup ta_pk (ta_pk a) (assessments d1)) = Some (terms a)"
    using terms_clear [OF assms(1)] lookup_in_rows [OF keyed assms(4)] assms(2) by simp
  then obtain b where b: "lookup ta_pk (ta_pk a) (assessments d1) = Some b" "terms b = terms a"
    by auto
  then have r: "reload d1 a = b"
    by (simp add: reload_def)
  from b r show "lookup ta_pk (ta_pk a) (assessments d1) = Some (reload d1 a)"
    and "terms (reload d1 a) = terms a"
    by simp_all
  have "b \<in> set (rows (assessments d1))"
    using b(1) by (auto dest: lookup_SomeD)
  then have "ta_approved_paid b = tax_allocated d1 (ta_pk b)"
    using assms(3) by (simp add: books_def books_except_def bill_balanced_def)
  moreover have "ta_pk b = ta_pk a" and "ta_tax_due b = ta_tax_due a"
    using b(2) by (simp_all add: terms_def)
  ultimately show "outstanding (reload d1 a) = owed_apart k d a"
    unfolding r by (simp add: outstanding_def owed_apart_def assms(2) tax_allocated_clear)
qed

lemma bill_balanced_paid:
  assumes "books d" and "a \<in> set (rows (assessments d))"
    and "ta_status a = BillPaid \<or> ta_status a = BillExempt"
  shows "outstanding a = 0"
proof -
  have "0 \<le> tax_allocated d (ta_pk a)"
    using assms(1) unfolding tax_allocated_def books_def books_except_def refs_sound_def allocation_sound_def
    by (intro sum_list_pos_nonneg) (auto simp: less_imp_le)
  moreover have "bill_balanced d a"
    using assms(1,2) by (simp add: books_def books_except_def)
  ultimately show ?thesis
    using assms(3) by (auto simp: bill_balanced_def outstanding_def)
qed

lemma cleared_eligible:
  assumes "books d" and "d1 = clear_payment_allocations k locked affected d" and "books d1"
    and "a \<in> set (rows (assessments d))" and "0 < owed_apart k d a"
  shows "eligible d1 p (reload d1 a) \<longleftrightarrow> accepts d p a"
proof -
  note b = cleared_bill [OF assms(1-4)]
  have "reload d1 a \<in> set (rows (assessments d1))"
    using b(1) by (auto dest: lookup_SomeD)
  then have "ta_status (reload d1 a) \<noteq> BillPaid" "ta_status (reload d1 a) \<noteq> BillExempt"
    using bill_balanced_paid [OF assms(3)] b(3) assms(5) by fastforce+
  moreover have "ta_period (reload d1 a) = ta_period a"
    using b(2) by (simp add: terms_def)
  then have "map_option period_terms (period_of d1 (reload d1 a)) = map_option period_terms (period_of d a)"
    by (simp add: period_of_def assms(2) period_terms_clear)
  then have "(case period_of d1 (reload d1 a) of None \<Rightarrow> False | Some q \<Rightarrow> recipient_allowed q p) =
      accepts d p a"
    by (auto simp: accepts_def recipient_allowed_def allowed_ids_def period_terms_def
        split: option.splits)
  ultimately show ?thesis
    by (simp add: eligible_def)
qed

lemma set_oldest_first [simp]: "set (oldest_first d xs) = set xs"
  by (simp add: oldest_first_def)

lemma cleared_order:
  assumes "books d" and "d1 = clear_payment_allocations k locked affected d" and "books d1"
    and "set as \<subseteq> set (rows (assessments d))"
  shows "oldest_first d1 (map (reload d1) as) = map (reload d1) (oldest_first d as)"
proof -
  have t: "terms (reload d1 a) = terms a" if "a \<in> set as" for a
    using cleared_bill(2) [OF assms(1-3)] assms(4) that by blast
  then have keys: "ta_pk (reload d1 a) = ta_pk a" "ta_due_at (reload d1 a) = ta_due_at a"
      "ta_period (reload d1 a) = ta_period a" if "a \<in> set as" for a
    using that by (simp_all add: terms_def)
  have pop: "pop_of d1 (reload d1 a) = pop_of d a" if "a \<in> set as" for a
  proof -
    have "map_option period_terms (period_of d1 (reload d1 a)) = map_option period_terms (period_of d a)"
      using keys(3) [OF that] by (simp add: period_of_def assms(2) period_terms_clear)
    then show ?thesis
      by (auto simp: pop_of_def period_terms_def split: option.splits)
  qed
  show ?thesis
    unfolding oldest_first_def
    by (subst sort_key_map [where g = ta_pk], simp add: keys)
      (subst sort_key_map [where g = "pop_of d"], simp add: pop,
       subst sort_key_map [where g = ta_due_at], simp_all add: keys)
qed

section \<open>A decision pours the payment over the payable bills\<close>

lemma waterfall_positive:
  "waterfall rest bills = waterfall rest (filter (\<lambda>b. 0 < snd b) bills)"
  by (induction rest bills rule: waterfall.induct) auto

lemma filter_map_agree:
  assumes "\<And>x. x \<in> set xs \<Longrightarrow> h (g x) = h' x"
    and "\<And>x. x \<in> set xs \<Longrightarrow> 0 < snd (h' x) \<Longrightarrow> E (g x) \<longleftrightarrow> A x"
  shows "filter (\<lambda>b. 0 < snd b) (map h (filter E (map g xs))) =
         filter (\<lambda>b. 0 < (snd b :: rat)) (map h' (filter A xs))"
  using assms by (induction xs) auto

lemma subject_matches_stamped [simp]:
  "subject_matches (stamped p director note d) = subject_matches p"
  by (simp add: fun_eq_iff subject_matches_def)

lemma accepts_stamped [simp]: "accepts d' (stamped p director note d) a = accepts d' p a"
  by (simp add: accepts_def recipient_allowed_def split: option.split)

lemma locked_subject:
  assumes "lock_payment_context p True d = (locked, affected)"
  shows "filter (subject_matches p) locked = sort_key ta_pk (filter (subject_matches p) (rows (assessments d)))"
    and "set locked \<subseteq> set (rows (assessments d))"
proof -
  have "filter (subject_matches p) (filter (\<lambda>a. ta_pk a \<in> X \<or> subject_matches p a) xs)
      = filter (subject_matches p) xs" for X and xs :: "tax_assessment list"
    unfolding filter_filter by (intro filter_agree) auto
  with assms show "filter (subject_matches p) locked = sort_key ta_pk (filter (subject_matches p) (rows (assessments d)))"
    by (auto simp: lock_payment_context_def Let_def filter_sort)
  from assms show "set locked \<subseteq> set (rows (assessments d))"
    by (auto simp: lock_payment_context_def Let_def)
qed

lemma oldest_first_sorted [simp]: "oldest_first d (sort_key ta_pk xs) = oldest_first d xs"
  by (simp add: oldest_first_def sort_key_id_if_sorted)

lemma eligible_is_payable:
  assumes "books d" and "lock_payment_context p True d = (locked, affected)"
    and "d1 = clear_payment_allocations k locked affected d" and "books d1"
  shows "eligible_assessments (stamped p director note d) (map (reload d1) locked) d1 =
    filter (eligible d1 (stamped p director note d))
      (map (reload d1) (oldest_first d (filter (subject_matches p) (rows (assessments d)))))"
proof -
  note l = locked_subject [OF assms(2)]
  have "subject_matches p (reload d1 a) = subject_matches p a" if "a \<in> set locked" for a
    using cleared_bill(2) [OF assms(1,3,4), of a] l(2) that
    by (auto simp: terms_def subject_matches_def)
  then have "filter (subject_matches p) (map (reload d1) locked)
      = map (reload d1) (filter (subject_matches p) locked)"
    by (simp add: filter_map cong: filter_cong)
  then have "oldest_first d1 (filter (subject_matches p) (map (reload d1) locked))
      = map (reload d1) (oldest_first d (filter (subject_matches p) (rows (assessments d))))"
    using cleared_order [OF assms(1,3,4), of "filter (subject_matches p) locked"] l by auto
  then show ?thesis
    by (simp add: eligible_assessments_def)
qed

lemma bills_to_pay_owe:
  assumes "books d" and "lock_payment_context p True d = (locked, affected)" and "pc_pk p = k"
    and "d1 = clear_payment_allocations k locked affected d"
  shows "waterfall rest (map (\<lambda>b. (b, bill_outstanding d1 b))
           (bills_to_pay (stamped p director note d) locked d1))
       = waterfall rest (map (\<lambda>a. (ta_pk a, owed_apart k d a)) (payable d p))"
    and "distinct (bills_to_pay (stamped p director note d) locked d1)"
    and "set (bills_to_pay (stamped p director note d) locked d1) \<subseteq> ta_pk ` set (rows (assessments d1))"
proof -
  let ?p1 = "stamped p director note d"
  let ?all = "oldest_first d (filter (subject_matches p) (rows (assessments d)))"
  have d1: "books d1"
    using assms books_clear by simp
  note el = eligible_is_payable [OF assms(1,2,4) d1]
  note b = cleared_bill [OF assms(1) assms(4) d1]
  have pk: "ta_pk (reload d1 a) = ta_pk a" if "a \<in> set (rows (assessments d))" for a
    using b(2) [OF that] by (simp add: terms_def)
  have owed: "(ta_pk (reload d1 a), bill_outstanding d1 (ta_pk (reload d1 a))) = (ta_pk a, owed_apart k d a)"
    if "a \<in> set ?all" for a
    using that b(1,3) pk by (simp add: bill_outstanding_def)
  have "filter (\<lambda>b. 0 < snd b) (map (\<lambda>a. (ta_pk a, bill_outstanding d1 (ta_pk a)))
          (filter (eligible d1 ?p1) (map (reload d1) ?all)))
      = filter (\<lambda>b. 0 < snd b) (map (\<lambda>a. (ta_pk a, owed_apart k d a)) (filter (accepts d p) ?all))"
  proof (rule filter_map_agree)
    show "(ta_pk (reload d1 a), bill_outstanding d1 (ta_pk (reload d1 a))) = (ta_pk a, owed_apart k d a)"
      if "a \<in> set ?all" for a
      using that by (rule owed)
    show "eligible d1 ?p1 (reload d1 a) = accepts d p a"
      if "a \<in> set ?all" and "0 < snd (ta_pk a, owed_apart k d a)" for a
      using that cleared_eligible [OF assms(1,4) d1, of a ?p1] by simp
  qed
  then show "waterfall rest (map (\<lambda>b. (b, bill_outstanding d1 b)) (bills_to_pay ?p1 locked d1))
      = waterfall rest (map (\<lambda>a. (ta_pk a, owed_apart k d a)) (payable d p))"
    using waterfall_positive [of rest "map (\<lambda>a. (ta_pk a, owed_apart k d a)) (payable d p)"]
      waterfall_positive [of rest "map (\<lambda>b. (b, bill_outstanding d1 b)) (bills_to_pay ?p1 locked d1)"]
    by (simp add: bills_to_pay_def el payable_def comp_def)
  have "distinct (map ta_pk (rows (assessments d)))"
    using assms(1) by (simp add: books_def books_except_def refs_sound_def well_keyed_def)
  then have "distinct (map ta_pk ?all)"
    by (simp add: oldest_first_def distinct_map distinct_map_filter inj_on_filter_key_eq)
      (auto simp: inj_on_def)
  moreover have "map ta_pk (map (reload d1) ?all) = map ta_pk ?all"
    using pk by auto
  ultimately show "distinct (bills_to_pay ?p1 locked d1)"
    unfolding bills_to_pay_def el by (metis distinct_map_filter)
  show "set (bills_to_pay ?p1 locked d1) \<subseteq> ta_pk ` set (rows (assessments d1))"
    unfolding bills_to_pay_def el using b(1) by (fastforce dest: lookup_SomeD)
qed

section \<open>The specification of a decision\<close>

text \<open>
  \<open>settlement\<close> is what a disposition makes of a payment of some amount, given what
  each payable bill still owes: the allocations it books.
\<close>

definition settlement ::
  "string \<Rightarrow> decimal \<Rightarrow> (nat \<times> decimal) list \<Rightarrow> (nat option \<times> category \<times> decimal) list" where
  "settlement disposition amount bills =
     (if oldest_disposition disposition then
        (let (shares, left) = waterfall amount bills
         in map tax_share shares @
            (if 0 < left then [(None, leftover_category disposition, left)] else []))
      else case whole_category disposition of
             Some cat \<Rightarrow> [(None, cat, amount)] | None \<Rightarrow> [])"

definition payable_bills :: "mt_db \<Rightarrow> payment \<Rightarrow> (nat \<times> decimal) list" where
  "payable_bills d p = map (\<lambda>a. (ta_pk a, owed_apart (pc_pk p) d a)) (payable d p)"

lemma map_share_of_add:
  "map share_of (allocations_of (add_allocation k bill cat amt notes director d) k) =
     map share_of (allocations_of d k) @ [(bill, cat, amt)]"
  by (simp add: allocations_of_add share_of_def)

lemma decide_oldest_settles:
  assumes "books d" and "lock_payment_context p True d = (locked, affected)"
    and "d1 = clear_payment_allocations (pc_pk p) locked affected d"
    and "p \<in> set (rows (payments d))"
    and "oldest_disposition disposition"
    and "d2 = decide_oldest disposition director (stamped p director' note d) locked d1"
  shows "dirty (pc_pk p) d2 \<and> payments d2 = payments d
    \<and> map share_of (allocations_of d2 (pc_pk p)) = settlement disposition (pc_amount p) (payable_bills d p)
    \<and> allocated_amount d2 (pc_pk p) = pc_amount p
    \<and> (\<forall>k'. k' \<noteq> pc_pk p \<longrightarrow> allocations_of d2 k' = allocations_of d k')"
proof -
  let ?k = "pc_pk p" and ?p1 = "stamped p director' note d"
  let ?bills = "bills_to_pay ?p1 locked d1"
  have d1: "books d1"
    using assms(1,2,3) by (simp add: books_clear)
  obtain rest d3 where run: "allocate_oldest ?k director ?bills (pc_amount p) d1 = (rest, d3)"
    by fastforce
  obtain shares left where w: "waterfall (pc_amount p) (payable_bills d p) = (shares, left)"
    by fastforce
  note owe = bills_to_pay_owe [OF assms(1,2) refl assms(3)]
  have empty: "allocations_of d1 ?k = []" and other: "\<And>k'. k' \<noteq> ?k \<Longrightarrow> allocations_of d1 k' = allocations_of d k'"
    by (simp_all add: assms(3) allocations_of_clear)
  have pay: "payments d1 = payments d"
    by (simp add: assms(3) books_simps)
  have pos: "0 < pc_amount p"
    using assms(1,4) by (auto simp: books_def books_except_def refs_sound_def)
  have res: "rest = left \<and> dirty ?k d3 \<and> poured ?k d1 shares d3 \<and> allocated_amount d3 ?k + left = pc_amount p"
  proof (rule allocate_oldest_pours [where p = p])
    show "waterfall (pc_amount p) (map (\<lambda>b. (b, bill_outstanding d1 b)) ?bills) = (shares, left)"
      using w owe(1) by (simp add: payable_bills_def)
    show "set ?bills \<inter> set (bills_of (allocations_of d1 ?k)) = {}"
      by (simp add: empty bills_of_def)
    show "allocated_amount d1 ?k + pc_amount p = pc_amount p"
      by (simp add: allocated_amount_def empty)
  qed (use run owe d1 pos pay assms(4) in \<open>simp_all add: books_dirty\<close>)
  then have left: "rest = left" and d3: "dirty ?k d3" "payments d3 = payments d"
    and shares: "map share_of (allocations_of d3 ?k) = map tax_share shares"
    and others: "\<And>k'. k' \<noteq> ?k \<Longrightarrow> allocations_of d3 k' = allocations_of d k'"
    and total: "allocated_amount d3 ?k + left = pc_amount p"
    by (auto simp: poured_def empty other pay)
  have l0: "0 \<le> left"
    using waterfall_total [OF w pos] by simp
  let ?d4 = "add_allocation ?k None (leftover_category disposition) left
      (leftover_notes (leftover_category disposition)) director d3"
  have d2: "d2 = (if 0 < left then ?d4 else d3)"
    by (simp add: assms(6) decide_oldest_def run left Let_def)
  show ?thesis
  proof (cases "0 < left")
    case True
    have "dirty ?k ?d4"
      using d3 True total assms(4)
      by (intro dirty_add [where p = p]) (auto simp: leftover_category_def)
    with True d2 d3 total assms(5) show ?thesis
      by (simp add: map_share_of_add shares settlement_def w books_simps allocated_amount_add
          allocations_of_add others share_of_def)
  next
    case False
    with d2 d3 total assms(5) l0 show ?thesis
      by (simp add: shares settlement_def w others)
  qed
qed

lemma whole_settles:
  assumes "books d" and "lock_payment_context p True d = (locked, affected)"
    and "d1 = clear_payment_allocations (pc_pk p) locked affected d"
    and "p \<in> set (rows (payments d))"
    and "whole_category disposition = Some cat" and "cat \<noteq> CatTax"
    and "d2 = add_allocation (pc_pk p) None cat (pc_amount p) why director d1"
  shows "dirty (pc_pk p) d2 \<and> payments d2 = payments d
    \<and> map share_of (allocations_of d2 (pc_pk p)) = settlement disposition (pc_amount p) (payable_bills d p)
    \<and> allocated_amount d2 (pc_pk p) = pc_amount p
    \<and> (\<forall>k'. k' \<noteq> pc_pk p \<longrightarrow> allocations_of d2 k' = allocations_of d k')"
proof -
  have d1: "books d1"
    using assms(1,2,3) by (simp add: books_clear)
  have empty: "allocations_of d1 (pc_pk p) = []"
    by (simp add: assms(3) allocations_of_clear)
  have pay: "payments d1 = payments d"
    by (simp add: assms(3) books_simps)
  have "0 < pc_amount p"
    using assms(1,4) by (auto simp: books_def books_except_def refs_sound_def)
  then have "dirty (pc_pk p) d2"
    unfolding assms(7) using assms(4,6) d1 pay
    by (intro dirty_add [where p = p]) (simp_all add: books_dirty allocated_amount_def empty)
  moreover have "\<not> oldest_disposition disposition"
    using assms(5) by (auto simp: whole_category_def oldest_disposition_def split: if_splits)
  ultimately show ?thesis
    using assms(5)
    by (simp add: assms(7) empty settlement_def books_simps pay allocated_amount_add
        allocations_of_add allocated_amount_def share_of_def)
      (simp add: assms(3) allocations_of_clear)
qed

lemma finished:
  assumes "dirty (pc_pk p) d2" and "lookup pc_pk (pc_pk p) (payments d2) = Some q"
    and "pc_amount q = pc_amount p"
    and "(p', d') = recalculate_payment p director True (save_review p d2)"
  shows "books d' \<and> pc_pk p' = pc_pk p \<and> pc_amount p' = pc_amount p
    \<and> (\<forall>j. allocations_of d' j = allocations_of d2 j)
    \<and> pc_status p' = payment_status_for p (allocations_of d2 (pc_pk p))
    \<and> (\<exists>r. lookup pc_pk (pc_pk p) (payments d') = Some r \<and> pc_status r = pc_status p')"
proof -
  let ?d = "save_review p d2"
  from assms(4) have p': "p' = decided p director ?d" and d': "d' = snd (recalculate_payment p director True ?d)"
    by (metis fst_conv recalculate_payment_frames(6)) (metis snd_conv assms(4))
  have "\<exists>q'. lookup pc_pk (pc_pk p) (payments ?d) = Some q' \<and> pc_amount q' = pc_amount p"
    using assms(2,3) by (simp add: save_review_def save_payment_def lookup_update)
  then have "\<exists>r. lookup pc_pk (pc_pk p') (payments (save_decision p' ?d)) = Some r \<and> pc_status r = pc_status p'"
    using payment_after_decision [of p' ?d] by (auto simp: p')
  moreover have "books d'"
    using assms(1) by (simp add: d' books_recalculate_payment dirty_save_review)
  ultimately show ?thesis
    by (simp add: d' p' books_simps)
qed

definition outcome :: "payment \<Rightarrow> string \<Rightarrow> mt_db \<Rightarrow> payment \<Rightarrow> mt_db \<Rightarrow> bool" where
  "outcome p disposition d p' d' \<longleftrightarrow>
     books d' \<and> pc_pk p' = pc_pk p \<and> pc_amount p' = pc_amount p
     \<and> map share_of (allocations_of d' (pc_pk p)) =
         settlement disposition (pc_amount p) (payable_bills d p)
     \<and> (\<forall>j. j \<noteq> pc_pk p \<longrightarrow> allocations_of d' j = allocations_of d j)
     \<and> (if disposition = ''pending'' then pc_status p' = PayPending
        else if disposition = ''reject'' then pc_status p' = PayRejected
        else allocated_amount d' (pc_pk p) = pc_amount p
          \<and> pc_status p' = payment_status_for p (allocations_of d' (pc_pk p)))
     \<and> (\<exists>r. lookup pc_pk (pc_pk p) (payments d') = Some r \<and> pc_status r = pc_status p')"

lemma payment_status_for_stamped:
  "as \<noteq> [] \<Longrightarrow> payment_status_for (stamped p director note d) as = payment_status_for p as"
  by (simp add: payment_status_for_def)

lemma settles_outcome:
  assumes "dirty (pc_pk p) d2 \<and> payments d2 = payments d
      \<and> map share_of (allocations_of d2 (pc_pk p)) = settlement disposition (pc_amount p) (payable_bills d p)
      \<and> allocated_amount d2 (pc_pk p) = pc_amount p
      \<and> (\<forall>k'. k' \<noteq> pc_pk p \<longrightarrow> allocations_of d2 k' = allocations_of d k')"
    and "(p', d') = recalculate_payment (stamped p director note d) director True
           (save_review (stamped p director note d) d2)"
    and "lookup pc_pk (pc_pk p) (payments d) = Some p" and "0 < pc_amount p"
    and "disposition \<noteq> ''pending''" and "disposition \<noteq> ''reject''"
  shows "outcome p disposition d p' d'"
proof -
  have "allocations_of d2 (pc_pk p) \<noteq> []"
    using assms(1,4) by (auto simp: allocated_amount_def)
  then show ?thesis
    using finished [of "stamped p director note d" d2 p p' d' director] assms
    by (auto simp: outcome_def allocated_amount_def payment_status_for_stamped)
qed

text \<open>Everything a successful decision leaves behind.\<close>

lemma decide_payment_outcome:
  assumes "books d" and "decide_payment k disposition director note d = Inr (p', d')"
  shows "\<exists>p. lookup pc_pk k (payments d) = Some p \<and> pc_pk p = k \<and> pc_status p \<noteq> PayExempt
    \<and> outcome p disposition d p' d'"
proof -
  from decide_payment_cleared [OF assms(2)] obtain p locked affected where
    p: "lookup pc_pk k (payments d) = Some p" "pc_pk p = k" "pc_status p \<noteq> PayExempt"
    and l: "lock_payment_context p True d = (locked, affected)"
    and c: "decide_cleared disposition director (stamped p director note d) locked
           (clear_payment_allocations k locked affected d) = Inr (p', d')"
    by blast
  let ?d1 = "clear_payment_allocations (pc_pk p) locked affected d"
  have d1: "books ?d1"
    using assms(1) l by (rule books_clear) simp
  have row: "p \<in> set (rows (payments d))"
    using p(1) by (auto dest: lookup_SomeD)
  then have pos: "0 < pc_amount p"
    using assms(1) by (auto simp: books_def books_except_def refs_sound_def)
  have saved: "\<exists>r. lookup pc_pk (pc_pk q) (payments (save_decision q ?d1)) = Some r \<and> pc_status r = pc_status q"
    if "pc_pk q = pc_pk p" and "pc_amount q = pc_amount p" for q
    using payment_after_decision [of q ?d1 p] that p by (auto simp: books_simps)
  note facts = outcome_def settlement_def oldest_disposition_def whole_category_def books_simps
    allocations_of_clear books_save_decision d1 d1 [unfolded p(2)] p(2)
  have "outcome p disposition d p' d'"
    using c [folded p(2)]
  proof (cases rule: decide_cleared_cases)
    case pending
    then show ?thesis using saved [of p'] by (simp add: facts)
  next
    case reject
    then show ?thesis
      using saved [of p'] by (simp add: facts)
  next
    case oldest
    moreover have "disposition \<noteq> ''pending''" "disposition \<noteq> ''reject''"
      using oldest(1) by (auto simp: oldest_disposition_def)
    ultimately show ?thesis
      using decide_oldest_settles [OF assms(1) l refl row oldest(1) refl] p pos
      by (intro settles_outcome) auto
  next
    case (whole cat why)
    moreover have "disposition \<noteq> ''pending''" "disposition \<noteq> ''reject''"
      using whole(1) by (auto simp: whole_category_def)
    ultimately show ?thesis
      using whole_settles [OF assms(1) l refl row whole(1,2) refl] p pos
      by (intro settles_outcome) auto
  qed
  with p show ?thesis by blast
qed

section \<open>Properties of a decision\<close>

lemma settlement_total:
  assumes "0 < amount" and "disposition \<noteq> ''pending''" and "disposition \<noteq> ''reject''"
    and "settlement disposition amount bills \<noteq> []"
  shows "sum_list (map (\<lambda>s. snd (snd s)) (settlement disposition amount bills)) = amount"
proof -
  obtain shares left where w: "waterfall amount bills = (shares, left)"
    by fastforce
  have "sum_list (map (\<lambda>s. snd (snd s)) (map tax_share shares)) = sum_list (map snd shares)"
    by (simp add: tax_share_def comp_def)
  then show ?thesis
    using assms(4) waterfall_total [OF w assms(1)]
    by (auto simp: settlement_def w split: option.splits if_splits)
qed

lemma pays_in_order:
  assumes "settlement disposition amount (xs @ (b, owed) # ys) = shares" and "0 < amount"
    and "distinct (map fst (xs @ (b, owed) # ys))" and "0 < owed" and "oldest_disposition disposition"
    and "\<exists>x. (None, leftover_category disposition, x) \<in> set shares
         \<or> (\<exists>j \<in> fst ` set ys. (Some j, CatTax, x) \<in> set shares)"
  shows "(Some b, CatTax, owed) \<in> set shares"
proof -
  obtain s left where w: "waterfall amount (xs @ (b, owed) # ys) = (s, left)"
    by fastforce
  have shares: "shares = map tax_share s @ (if 0 < left then [(None, leftover_category disposition, left)] else [])"
    using assms(1,5) w by (simp add: settlement_def)
  have "(j, x) \<in> set s" if "(Some j, CatTax, x) \<in> set shares" for j x
    using that by (auto simp: shares tax_share_def split: if_splits)
  moreover have "0 < left" if "(None, c, x) \<in> set shares" for c x
    using that by (auto simp: shares tax_share_def split: if_splits)
  ultimately have "0 < left \<or> (\<exists>j x. (j, x) \<in> set s \<and> j \<in> fst ` set ys)"
    using assms(6) by blast
  then have "(b, owed) \<in> set s"
    using waterfall_in_order [OF w assms(2,3,4)] by blast
  then show ?thesis
    by (force simp: shares tax_share_def)
qed

lemma distinct_payable:
  assumes "books d"
  shows "distinct (map fst (payable_bills d p))"
proof -
  have "distinct (map ta_pk (rows (assessments d)))"
    using assms by (simp add: books_def books_except_def refs_sound_def well_keyed_def)
  then have "distinct (map ta_pk (oldest_first d (filter (subject_matches p) (rows (assessments d)))))"
    by (simp add: oldest_first_def distinct_map) (auto simp: inj_on_def)
  then show ?thesis
    by (simp add: payable_bills_def payable_def comp_def distinct_map_filter)
qed

text \<open>
  C4. A director's decision books exactly the allocations its disposition specifies:
  the payment poured over the payer's bills oldest first for the two \<open>oldest\<close>
  dispositions, with the rest as credit or overage, one allocation of the whole
  amount for a donation or an ignored payment, none for a pending or rejected one;
  the allocations of every other payment stay as they were.
\<close>

theorem decide_payment_settles:
  assumes "books d" and "decide_payment k disposition director note d = Inr (p', d')"
  shows "\<exists>p. lookup pc_pk k (payments d) = Some p
    \<and> map share_of (allocations_of d' k) = settlement disposition (pc_amount p) (payable_bills d p)
    \<and> (\<forall>j. j \<noteq> k \<longrightarrow> allocations_of d' j = allocations_of d j)"
  using decide_payment_outcome [OF assms] by (auto simp: outcome_def)

text \<open>
  No ISK is lost or invented: an accepting disposition leaves allocations that
  sum to the payment's amount, and the stored payment is then neither pending nor
  partly allocated nor rejected.
\<close>

theorem decide_payment_conserves:
  assumes "books d" and "decide_payment k disposition director note d = Inr (p', d')"
    and "disposition \<noteq> ''pending''" and "disposition \<noteq> ''reject''"
  shows "allocated_amount d' k = pc_amount p'
    \<and> (\<exists>r. lookup pc_pk k (payments d') = Some r \<and> pc_status r = pc_status p'
         \<and> pc_status r \<in> {PayApproved, PayOverage, PayDonation, PayIgnored})"
proof -
  obtain p where p: "lookup pc_pk k (payments d) = Some p" "pc_pk p = k"
    and o': "outcome p disposition d p' d'"
    using decide_payment_outcome [OF assms(1,2)] by blast
  have "0 < pc_amount p"
    using assms(1) p by (auto simp: books_def books_except_def refs_sound_def dest: lookup_SomeD)
  then have "allocations_of d' k \<noteq> []" and "allocated_amount d' k = pc_amount p"
    using o' assms(3,4) by (auto simp: outcome_def p allocated_amount_def)
  then have "payment_status_for p (allocations_of d' k) \<in> {PayApproved, PayOverage, PayDonation, PayIgnored}"
    by (simp add: payment_status_for_def allocated_amount_def)
  then show ?thesis
    using o' assms(3,4) by (auto simp: outcome_def p)
qed

text \<open>
  Oldest first: if anything was left over, or a later bill got a share, then
  every earlier payable bill received all that it still owed.
\<close>

theorem decide_payment_oldest_first:
  assumes "books d" and "decide_payment k disposition director note d = Inr (p', d')"
    and "lookup pc_pk k (payments d) = Some p" and "oldest_disposition disposition"
    and "payable d p = older @ a # younger" and "0 < owed_apart k d a"
    and "\<exists>r \<in> set (allocations_of d' k).
           al_assessment r = None \<or> (\<exists>b \<in> set younger. al_assessment r = Some (ta_pk b))"
  shows "\<exists>r \<in> set (allocations_of d' k). al_assessment r = Some (ta_pk a)
    \<and> al_category r = CatTax \<and> al_amount r = owed_apart k d a"
proof -
  obtain p0 where p0: "lookup pc_pk k (payments d) = Some p0" "pc_pk p0 = k"
    and o': "outcome p0 disposition d p' d'"
    using decide_payment_outcome [OF assms(1,2)] by blast
  then have p: "pc_pk p = k" and o: "outcome p disposition d p' d'"
    using assms(3) by simp_all
  let ?f = "\<lambda>a. (ta_pk a, owed_apart k d a)"
  let ?shares = "map share_of (allocations_of d' k)"
  have bills: "payable_bills d p = map ?f older @ (ta_pk a, owed_apart k d a) # map ?f younger"
    by (simp add: payable_bills_def assms(5) p)
  have "settlement disposition (pc_amount p) (map ?f older @ (ta_pk a, owed_apart k d a) # map ?f younger) = ?shares"
    using o by (simp add: outcome_def p bills)
  then have "(Some (ta_pk a), CatTax, owed_apart k d a) \<in> set ?shares"
  proof (rule pays_in_order)
    show "0 < pc_amount p"
      using assms(1,3) by (auto simp: books_def books_except_def refs_sound_def dest: lookup_SomeD)
    show "distinct (map fst (map ?f older @ (ta_pk a, owed_apart k d a) # map ?f younger))"
      using distinct_payable [OF assms(1), of p] by (simp add: bills)
    have "al_category r = leftover_category disposition"
      if "r \<in> set (allocations_of d' k)" and "al_assessment r = None" for r
    proof -
      have "share_of r \<in> set (settlement disposition (pc_amount p) (payable_bills d p))"
        using o that(1) by (metis outcome_def p image_eqI list.set_map)
      then show ?thesis
        using assms(4) that(2)
        by (auto simp: settlement_def share_of_def tax_share_def split: prod.splits if_splits)
    qed
    moreover have "al_category r = CatTax"
      if "r \<in> set (allocations_of d' k)" and "al_assessment r \<noteq> None" for r
      using o that
      by (auto simp: outcome_def books_def books_except_def refs_sound_def allocation_sound_def
          allocations_of_def)
    ultimately show "\<exists>x. (None, leftover_category disposition, x) \<in> set ?shares
        \<or> (\<exists>j \<in> fst ` set (map ?f younger). (Some j, CatTax, x) \<in> set ?shares)"
      using assms(7) by (fastforce simp: share_of_def image_iff)
  qed (use assms in simp_all)
  then show ?thesis
    by (auto simp: share_of_def)
qed

text \<open>
  C5. Money reaches only the payer's own bills, only bills whose extraction accepted
  the recipient paid, and never more than the bill still owed.
\<close>

theorem decide_payment_pays_own_bills:
  assumes "books d" and "decide_payment k disposition director note d = Inr (p', d')"
    and "r \<in> set (allocations_of d' k)" and "al_assessment r = Some b"
  shows "\<exists>p a. lookup pc_pk k (payments d) = Some p \<and> lookup ta_pk b (assessments d) = Some a
    \<and> subject_matches p a \<and> accepts d p a \<and> 0 < al_amount r \<and> al_amount r \<le> owed_apart k d a"
proof -
  obtain p where p: "lookup pc_pk k (payments d) = Some p" "pc_pk p = k"
    and o': "outcome p disposition d p' d'"
    using decide_payment_outcome [OF assms(1,2)] by blast
  have pos: "0 < pc_amount p"
    using assms(1) p by (auto simp: books_def books_except_def refs_sound_def dest: lookup_SomeD)
  obtain shares left where w: "waterfall (pc_amount p) (payable_bills d p) = (shares, left)"
    by fastforce
  have "share_of r \<in> set (settlement disposition (pc_amount p) (payable_bills d p))"
    using o' assms(3) by (metis outcome_def p(2) image_eqI list.set_map)
  then have share: "(b, al_amount r) \<in> set shares"
    using assms(4) by (auto simp: settlement_def share_of_def tax_share_def w split: if_splits option.splits)
  then obtain owed where "(b, owed) \<in> set (payable_bills d p)" and le: "al_amount r \<le> owed"
    using waterfall_within [OF w pos distinct_payable [OF assms(1)]] by blast
  then obtain a where a: "a \<in> set (payable d p)" "ta_pk a = b" "owed = owed_apart k d a"
    by (auto simp: payable_bills_def p)
  then have "a \<in> set (rows (assessments d))" and ok: "subject_matches p a" "accepts d p a"
    by (auto simp: payable_def)
  then have "lookup ta_pk b (assessments d) = Some a"
    using assms(1) a(2) lookup_in_rows [of ta_pk "assessments d" a]
    by (simp add: books_def books_except_def refs_sound_def)
  moreover have "0 < al_amount r"
    using waterfall_total [OF w pos] share by auto
  ultimately show ?thesis
    using p(1) ok le a(3) by blast
qed

lemma decide_cleared_errors:
  "decide_cleared disposition director p locked d = Inl e \<longleftrightarrow>
     disposition \<notin> set [''pending'', ''reject'', ''oldest_carryover'', ''oldest_overage'', ''donation'',
        ''ignore'']
     \<and> e = ValueError (''Unknown payment disposition: '' @ disposition)"
proof -
  have "(if a then Inr u else if b then Inr v else if c1 \<or> c2 then Inr w else if e1 then Inr x
      else if f then Inr y else Inl z) = Inl e \<longleftrightarrow> \<not> (a \<or> b \<or> c1 \<or> c2 \<or> e1 \<or> f) \<and> e = z"
    for a b c1 c2 e1 f and u v w x y :: "payment \<times> mt_db" and z
    by auto
  then show ?thesis
    by (simp only: decide_cleared_def Let_def list.set insert_iff empty_iff de_Morgan_disj simp_thms)
qed

text \<open>
  A decision raises in exactly three cases: the payment does not exist, it was
  excluded by the system for an exemption, or the disposition is unknown; any other
  decision succeeds.
\<close>

theorem decide_payment_errors:
  "decide_payment k disposition director note d = Inl e \<longleftrightarrow>
     (case lookup pc_pk k (payments d) of
        None \<Rightarrow> e = DoesNotExist
      | Some p \<Rightarrow>
          if pc_status p = PayExempt
          then e = ValueError ''A system-excluded exempt payment cannot be manually reclassified.''
          else disposition \<notin> set [''pending'', ''reject'', ''oldest_carryover'', ''oldest_overage'',
                  ''donation'', ''ignore'']
               \<and> e = ValueError (''Unknown payment disposition: '' @ disposition))"
  by (auto simp del: list.set simp: decide_payment_def decide_cleared_errors split: option.split prod.split)

end
