(* ===== verification/MT_Adjustments.thy ===== *)
theory MT_Adjustments
  imports MT_Decisions
begin

text \<open>
  The reversible adjustments of a bill: what each action does to the balance, what
  reversing an adjustment leaves of the bill, and where it does not restore it.
\<close>

section \<open>Adding and reversing an adjustment\<close>

definition post_adjustment :: "nat \<Rightarrow> adjustment \<Rightarrow> mt_db \<Rightarrow> mt_db" where
  "post_adjustment m r d =
     recalculate_period m (recalculate_assessment (aj_assessment r)
       (d\<lparr>adjustments := create (\<lambda>pk. r\<lparr>aj_pk := pk\<rparr>) (adjustments d)\<rparr>))"

definition unpost_adjustment :: "nat \<Rightarrow> adjustment \<Rightarrow> mt_db \<Rightarrow> mt_db" where
  "unpost_adjustment m r d =
     recalculate_period m (recalculate_assessment (aj_assessment r)
       (save_adjustment (aj_pk r) (\<lambda>q. q\<lparr>aj_reversed_at := aj_reversed_at r,
          aj_reversed_by := aj_reversed_by r, aj_reversal_reason := aj_reversal_reason r\<rparr>) d))"

lemma create_adjustment_cases:
  assumes "create_assessment_adjustment k action amount reason director d = Inr (r, d')"
  obtains a kind signed where
    "lookup ta_pk k (assessments (recalculate_assessment k d)) = Some a"
    and "adjustment_for (upper action) amount a = Inr (kind, signed)"
    and "aj_assessment r = k" and "aj_kind r = kind" and "aj_amount r = signed"
    and "aj_reversed_at r = None" and "aj_pk r = next_pk (adjustments d)"
    and "d' = post_adjustment (ta_period a) r (recalculate_assessment k d)"
  using assms
  by (auto simp: create_assessment_adjustment_def Let_def bind_result_Inr_iff post_adjustment_def
      books_simps split: option.splits if_splits)

lemma reverse_adjustment_cases:
  assumes "reverse_assessment_adjustment j reason director d = Inr (r', d')"
  obtains r a where "lookup aj_pk j (adjustments d) = Some r" and "aj_reversed_at r = None"
    and "lookup ta_pk (aj_assessment r) (assessments d) = Some a"
    and "r' = r\<lparr>aj_reversed_at := Some (wall d), aj_reversed_by := director,
                aj_reversal_reason := strip reason\<rparr>"
    and "d' = unpost_adjustment (ta_period a) r' d"
proof -
  from assms obtain r where "lookup aj_pk j (adjustments d) = Some r"
    by (auto simp: reverse_assessment_adjustment_def split: option.splits)
  moreover from this have "aj_pk r = j"
    by (auto dest: lookup_SomeD)
  ultimately show thesis
    using assms that
    by (auto simp: reverse_assessment_adjustment_def Let_def bind_result_Inr_iff unpost_adjustment_def
        split: option.splits if_splits)
qed

section \<open>The books\<close>

lemma active_total_create:
  "active_adjustment_total (d\<lparr>adjustments := create (\<lambda>pk. r\<lparr>aj_pk := pk\<rparr>) (adjustments d)\<rparr>) b =
     active_adjustment_total d b
     + (if aj_assessment r = b \<and> aj_reversed_at r = None then aj_amount r else 0)"
  by (simp add: active_adjustment_total_def rows_create)

lemma sum_update_one:
  fixes g :: "'r \<Rightarrow> rat"
  assumes "distinct (map key xs)" and "x \<in> set xs" and "key x = k" and "\<And>r. key (f r) = key r"
  shows "sum_list (map g (map (\<lambda>r. if key r = k then f r else r) xs)) =
         sum_list (map g xs) - g x + g (f x)"
  using assms
proof (induction xs)
  case (Cons y ys)
  show ?case
  proof (cases "y = x")
    case True
    then have "key z \<noteq> k" if "z \<in> set ys" for z
      using Cons.prems that by (auto simp: image_iff)
    then have "map (\<lambda>r. if key r = k then f r else r) ys = ys"
      by (intro map_update_other) auto
    with True Cons.prems show ?thesis by simp
  next
    case False
    then have "x \<in> set ys" and "key y \<noteq> k"
      using Cons.prems by (auto simp: image_iff)
    with Cons show ?thesis by simp
  qed
qed simp

lemma sum_filter_if:
  fixes g :: "'r \<Rightarrow> rat"
  shows "sum_list (map g (filter P xs)) = sum_list (map (\<lambda>x. if P x then g x else 0) xs)"
  by (induction xs) auto

lemma active_total_reverse:
  assumes "well_keyed aj_pk (adjustments d)" and "lookup aj_pk j (adjustments d) = Some r"
    and "aj_reversed_at r = None"
  shows "active_adjustment_total (save_adjustment j (\<lambda>q. q\<lparr>aj_reversed_at := Some t,
            aj_reversed_by := u, aj_reversal_reason := s\<rparr>) d) b =
     active_adjustment_total d b - (if aj_assessment r = b then aj_amount r else 0)"
proof -
  let ?f = "\<lambda>q. q\<lparr>aj_reversed_at := Some t, aj_reversed_by := u, aj_reversal_reason := s\<rparr>"
  let ?g = "\<lambda>q. if aj_assessment q = b \<and> aj_reversed_at q = None then aj_amount q else 0"
  from assms(2) have r: "r \<in> set (rows (adjustments d))" "aj_pk r = j"
    by (auto dest: lookup_SomeD)
  have "sum_list (map ?g (map (\<lambda>q. if aj_pk q = j then ?f q else q) (rows (adjustments d)))) =
      sum_list (map ?g (rows (adjustments d))) - ?g r + ?g (?f r)"
    using assms(1) r by (intro sum_update_one) (simp_all add: well_keyed_def)
  then show ?thesis
    using assms(3)
    by (simp add: active_adjustment_total_def sum_filter_if save_adjustment_def rows_update del: map_map)
qed

text \<open>A change of the adjustments of one bill, followed by the two recalculations.\<close>

lemma books_adjustments_changed:
  assumes "books d" and "lookup ta_pk b (assessments d) = Some a"
    and "well_keyed aj_pk t"
    and "\<And>q. q \<in> set (rows t) \<Longrightarrow> aj_assessment q \<in> ta_pk ` set (rows (assessments d))"
    and "\<And>c. c \<noteq> b \<Longrightarrow> active_adjustment_total (d\<lparr>adjustments := t\<rparr>) c = active_adjustment_total d c"
  shows "books (recalculate_period (ta_period a) (recalculate_assessment b (d\<lparr>adjustments := t\<rparr>)))"
proof -
  let ?d = "d\<lparr>adjustments := t\<rparr>"
  have keyed: "well_keyed ta_pk (assessments d)"
    using assms(1) by (simp add: books_def books_except_def refs_sound_def)
  have "a \<in> set (rows (assessments d))" and "ta_pk a = b"
    using assms(2) by (auto dest: lookup_SomeD)
  then have only: "ta_period c = ta_period a" if "c \<in> set (rows (assessments d))" and "ta_pk c = b" for c
    using tbl.content_unique [OF keyed, of c a] that by simp
  have "refs_sound ?d"
    using assms(1,3,4)
    by (simp add: books_def books_except_def refs_sound_def allocation_sound_def books_simps)
  then have "books_except {b} {ta_period a} ?d"
    using assms(1,5) only
    by (auto simp: books_def books_except_def bill_balanced_def books_simps tax_allocated_def)
  then have "books_except ({b} - {b}) {ta_period a} (recalculate_assessment b ?d)"
    by (rule books_recalculate_assessment)
  then have "books_except {} ({ta_period a} - {ta_period a})
      (recalculate_period (ta_period a) (recalculate_assessment b ?d))"
    by (intro books_recalculate_period) simp
  then show ?thesis
    by (simp add: books_def)
qed

lemma lookup_key_in: "lookup key k t = Some a \<Longrightarrow> k \<in> key ` set (rows t)"
  by (auto dest: lookup_SomeD)

lemma books_post_adjustment:
  assumes "books d" and "lookup ta_pk (aj_assessment r) (assessments d) = Some a"
    and "aj_pk r = next_pk (adjustments d)"
  shows "books (post_adjustment (ta_period a) r d)"
  unfolding post_adjustment_def
proof (rule books_adjustments_changed [OF assms(1,2)])
  let ?t = "create (\<lambda>pk. r\<lparr>aj_pk := pk\<rparr>) (adjustments d)"
  show "well_keyed aj_pk ?t"
    using assms(1) by (simp add: books_def books_except_def refs_sound_def well_keyed_create)
  show "aj_assessment q \<in> ta_pk ` set (rows (assessments d))" if "q \<in> set (rows ?t)" for q
    using assms(1,2) that
    by (auto simp: books_def books_except_def refs_sound_def rows_create lookup_key_in)
qed (simp add: active_total_create)

lemma books_unpost_adjustment:
  assumes "books d" and "lookup aj_pk j (adjustments d) = Some r" and "aj_reversed_at r = None"
    and "lookup ta_pk (aj_assessment r) (assessments d) = Some a"
    and "r' = r\<lparr>aj_reversed_at := Some t, aj_reversed_by := u, aj_reversal_reason := s\<rparr>"
  shows "books (unpost_adjustment (ta_period a) r' d)"
proof -
  let ?f = "\<lambda>q. q\<lparr>aj_reversed_at := Some t, aj_reversed_by := u, aj_reversal_reason := s\<rparr>"
  let ?t = "update aj_pk j ?f (adjustments d)"
  have keyed: "well_keyed aj_pk (adjustments d)"
    using assms(1) by (simp add: books_def books_except_def refs_sound_def)
  have j: "aj_pk r = j"
    using assms(2) by (auto dest: lookup_SomeD)
  have "books (recalculate_period (ta_period a)
      (recalculate_assessment (aj_assessment r) (d\<lparr>adjustments := ?t\<rparr>)))"
  proof (rule books_adjustments_changed [OF assms(1,4)])
    show "well_keyed aj_pk ?t"
      using keyed by (intro well_keyed_update) simp_all
    show "aj_assessment q \<in> ta_pk ` set (rows (assessments d))" if "q \<in> set (rows ?t)" for q
      using assms(1) that by (auto simp: books_def books_except_def refs_sound_def rows_update)
    show "active_adjustment_total (d\<lparr>adjustments := ?t\<rparr>) c = active_adjustment_total d c"
      if "c \<noteq> aj_assessment r" for c
      using active_total_reverse [OF keyed assms(2,3), where t = t and u = u and s = s and b = c] that
      by (simp add: save_adjustment_def)
  qed
  then show ?thesis
    by (simp add: unpost_adjustment_def save_adjustment_def assms(5) j)
qed

lemma books_recalculate_one: "books d \<Longrightarrow> books (recalculate_assessment k d)"
  using books_recalculate_assessment [of "{}" "{}" d k] by (simp add: books_def)

lemma books_create_adjustment:
  assumes "books d" and "create_assessment_adjustment k action amount reason director d = Inr (r, d')"
  shows "books d'"
  using assms(2)
proof (cases rule: create_adjustment_cases)
  case (1 a kind signed)
  then show ?thesis
    using books_post_adjustment [OF books_recalculate_one [OF assms(1), of k], of r a]
    by (simp add: books_simps)
qed

lemma books_reverse_adjustment:
  assumes "books d" and "reverse_assessment_adjustment j reason director d = Inr (r', d')"
  shows "books d'"
  using assms(2)
proof (cases rule: reverse_adjustment_cases)
  case (1 r a)
  show ?thesis
    unfolding 1(5) by (rule books_unpost_adjustment [OF assms(1) 1(1-4)])
qed

section \<open>The bill after an adjustment\<close>

lemma lookup_balanced:
  assumes "books d" and "lookup ta_pk k (assessments d) = Some a"
  shows "bill_balanced d a" and "ta_pk a = k" and "0 \<le> ta_approved_paid a"
proof -
  have a: "a \<in> set (rows (assessments d))" and "ta_pk a = k"
    using assms(2) by (auto dest: lookup_SomeD)
  show "ta_pk a = k" by fact
  show bal: "bill_balanced d a"
    using assms(1) a by (simp add: books_def books_except_def)
  have "0 \<le> tax_allocated d (ta_pk a)"
    using assms(1) unfolding tax_allocated_def books_def books_except_def refs_sound_def allocation_sound_def
    by (intro sum_list_pos_nonneg) (auto simp: less_imp_le)
  with bal show "0 \<le> ta_approved_paid a"
    by (simp add: bill_balanced_def)
qed

text \<open>
  The compatibility branch of \<open>recalculate_assessment\<close> is out of play when the bill
  carries a calculated tax; then posting an adjustment shifts the effective tax by it.
\<close>

lemma post_adjustment_bill:
  assumes "books d" and "lookup ta_pk k (assessments d) = Some a" and "ta_calculated a \<noteq> 0"
    and "aj_assessment r = k" and "aj_reversed_at r = None"
  shows "\<exists>b. lookup ta_pk k (assessments (post_adjustment m r d)) = Some b
    \<and> ta_calculated b = ta_calculated a \<and> ta_approved_paid b = ta_approved_paid a
    \<and> ta_adjustment_total b = ta_adjustment_total a + aj_amount r
    \<and> ta_tax_due b = max 0 (ta_calculated a + ta_adjustment_total a + aj_amount r)
    \<and> ta_period b = ta_period a"
  using lookup_balanced [OF assms(1,2)] assms(2-5)
  by (simp add: post_adjustment_def books_simps recalculated_def Let_def active_total_create
      bill_balanced_def tax_allocated_def)

section \<open>Properties of adjustments\<close>

lemma recalculated_lookup:
  assumes "books d" and "lookup ta_pk k (assessments d) = Some a"
  shows "\<exists>a'. lookup ta_pk k (assessments (recalculate_assessment k d)) = Some a'
    \<and> ta_calculated a' = ta_calculated a \<and> ta_tax_due a' = ta_tax_due a
    \<and> ta_approved_paid a' = ta_approved_paid a \<and> ta_adjustment_total a' = ta_adjustment_total a
    \<and> ta_period a' = ta_period a"
  using assms lookup_balanced(1) [OF assms]
  by (simp add: books_simps recalculated_of_balanced)

text \<open>What an accepted adjustment does to the bill, in terms of its signed amount.\<close>

lemma create_adjustment_bill:
  assumes "books d" and "lookup ta_pk k (assessments d) = Some a" and "ta_calculated a \<noteq> 0"
    and "create_assessment_adjustment k action amount reason director d = Inr (r, d')"
  shows "adjustment_for (upper action) amount a = Inr (aj_kind r, aj_amount r)"
    and "\<exists>b. lookup ta_pk k (assessments d') = Some b
      \<and> ta_calculated b = ta_calculated a \<and> ta_approved_paid b = ta_approved_paid a
      \<and> ta_adjustment_total b = ta_adjustment_total a + aj_amount r
      \<and> ta_tax_due b = max 0 (ta_calculated a + ta_adjustment_total a + aj_amount r)
      \<and> ta_period b = ta_period a"
    and "aj_reversed_at r = None" and "aj_assessment r = k" and "aj_pk r = next_pk (adjustments d)"
proof -
  obtain a' where a': "lookup ta_pk k (assessments (recalculate_assessment k d)) = Some a'"
      "ta_calculated a' = ta_calculated a" "ta_tax_due a' = ta_tax_due a"
      "ta_approved_paid a' = ta_approved_paid a" "ta_adjustment_total a' = ta_adjustment_total a"
      "ta_period a' = ta_period a"
    using recalculated_lookup [OF assms(1,2)] by blast
  have same: "adjustment_for act amount a' = adjustment_for act amount a" for act
    by (simp add: adjustment_for_def outstanding_def a')
  from assms(4) show "adjustment_for (upper action) amount a = Inr (aj_kind r, aj_amount r)"
    "aj_reversed_at r = None" "aj_assessment r = k" "aj_pk r = next_pk (adjustments d)"
    using a' same by (auto elim!: create_adjustment_cases)
  from assms(4) show "\<exists>b. lookup ta_pk k (assessments d') = Some b
      \<and> ta_calculated b = ta_calculated a \<and> ta_approved_paid b = ta_approved_paid a
      \<and> ta_adjustment_total b = ta_adjustment_total a + aj_amount r
      \<and> ta_tax_due b = max 0 (ta_calculated a + ta_adjustment_total a + aj_amount r)
      \<and> ta_period b = ta_period a"
  proof (cases rule: create_adjustment_cases)
    case (1 c kind signed)
    with post_adjustment_bill [OF books_recalculate_one [OF assms(1)] a'(1), of r "ta_period c"]
    show ?thesis
      using assms(3) unfolding 1(8) by (simp add: a')
  qed
qed

lemma created_adjustment_row:
  assumes "books d" and "create_assessment_adjustment k action amount reason director d = Inr (r, d1)"
  shows "lookup aj_pk (aj_pk r) (adjustments d1) = Some r"
  using assms(2)
proof (cases rule: create_adjustment_cases)
  case (1 x kind signed)
  have "well_keyed aj_pk (adjustments d)"
    using assms(1) by (simp add: books_def books_except_def refs_sound_def)
  with 1(7) show ?thesis
    unfolding 1(8) by (simp add: post_adjustment_def books_simps lookup_create)
qed

text \<open>
  On a bill with calculated tax, waiving settles the balance exactly (the bill
  then owes nothing and nothing already paid is given back), voiding brings the tax
  due to zero, and a credit or a debit moves the effective tax by the entered amount,
  never below zero.
\<close>

theorem create_adjustment_effect:
  assumes "books d" and "lookup ta_pk k (assessments d) = Some a" and "ta_calculated a \<noteq> 0"
    and "create_assessment_adjustment k action amount reason director d = Inr (r, d')"
  shows "\<exists>b. lookup ta_pk k (assessments d') = Some b
    \<and> ta_calculated b = ta_calculated a \<and> ta_approved_paid b = ta_approved_paid a
    \<and> (upper action = ''WAIVE_BALANCE'' \<longrightarrow> outstanding b = 0 \<and> ta_tax_due b = ta_approved_paid b)
    \<and> (upper action = ''VOID_BILL'' \<longrightarrow> ta_tax_due b = 0)
    \<and> (upper action = ''CREDIT'' \<longrightarrow>
         ta_tax_due b = max 0 (ta_calculated a + ta_adjustment_total a - the amount))
    \<and> (upper action = ''DEBIT'' \<longrightarrow>
         ta_tax_due b = max 0 (ta_calculated a + ta_adjustment_total a + the amount))"
proof -
  note c = create_adjustment_bill [OF assms]
  have bal: "ta_tax_due a = max 0 (ta_calculated a + ta_adjustment_total a)" "0 \<le> ta_approved_paid a"
    using lookup_balanced [OF assms(1,2)] by (simp_all add: bill_balanced_def)
  obtain b where b: "lookup ta_pk k (assessments d') = Some b"
      "ta_calculated b = ta_calculated a" "ta_approved_paid b = ta_approved_paid a"
      "ta_tax_due b = max 0 (ta_calculated a + ta_adjustment_total a + aj_amount r)"
    using c(2) by blast
  have amt: "upper action = ''WAIVE_BALANCE'' \<Longrightarrow> 0 < outstanding a \<and> aj_amount r = - outstanding a"
    "upper action = ''VOID_BILL'' \<Longrightarrow> 0 < ta_tax_due a \<and> aj_amount r = - ta_tax_due a"
    "upper action = ''CREDIT'' \<Longrightarrow> aj_amount r = - the amount"
    "upper action = ''DEBIT'' \<Longrightarrow> aj_amount r = the amount"
    using c(1) by (auto simp: adjustment_for_def Let_def split: if_splits option.splits)
  have "outstanding b = 0 \<and> ta_tax_due b = ta_approved_paid b" if "upper action = ''WAIVE_BALANCE''"
    using amt(1) [OF that] bal b by (auto simp: outstanding_def max_def split: if_splits)
  moreover have "ta_tax_due b = 0" if "upper action = ''VOID_BILL''"
    using amt(2) [OF that] bal b by (auto simp: max_def split: if_splits)
  ultimately show ?thesis
    using b amt(3,4) by (intro exI [of _ b]) auto
qed

text \<open>
  What stays behind as calculated tax when an adjustment of \<open>s\<close> is added to a bill and
  reversed: nothing new on a bill that carries calculated tax; on a bill that carries
  none, the compatibility branch of \<open>recalculate_assessment\<close> takes the effective tax
  for the calculated one whenever the active adjustments add up to zero, before
  the reversal or after it.
\<close>

definition left_as_calculated :: "tax_assessment \<Rightarrow> decimal \<Rightarrow> decimal" where
  "left_as_calculated a s =
     (if ta_calculated a \<noteq> 0 then ta_calculated a
      else if ta_adjustment_total a = 0 then max 0 s
      else if ta_adjustment_total a + s = 0 then max 0 (ta_adjustment_total a)
      else 0)"

lemma post_adjustment_lookup:
  assumes "lookup ta_pk k (assessments d) = Some a" and "aj_assessment r = k"
  shows "lookup ta_pk k (assessments (post_adjustment m r d)) =
    Some (recalculated (d\<lparr>adjustments := create (\<lambda>pk. r\<lparr>aj_pk := pk\<rparr>) (adjustments d)\<rparr>) a)"
  using assms by (simp add: post_adjustment_def books_simps)

lemma unpost_adjustment_lookup:
  assumes "lookup ta_pk k (assessments d) = Some a" and "aj_assessment r = k"
  shows "lookup ta_pk k (assessments (unpost_adjustment m r d)) =
    Some (recalculated (save_adjustment (aj_pk r) (\<lambda>q. q\<lparr>aj_reversed_at := aj_reversed_at r,
          aj_reversed_by := aj_reversed_by r, aj_reversal_reason := aj_reversal_reason r\<rparr>) d) a)"
proof -
  have "assessments (save_adjustment j f d) = assessments d" for j f
    by (simp add: save_adjustment_def)
  then show ?thesis
    using assms by (simp add: unpost_adjustment_def books_simps)
qed

text \<open>A recalculation, by the calculated tax it settles on.\<close>

definition settled_calculated :: "decimal \<Rightarrow> decimal \<Rightarrow> decimal \<Rightarrow> decimal" where
  "settled_calculated c due adj = (if c = 0 \<and> due \<noteq> 0 \<and> adj = 0 then due else c)"

lemma recalculated_as:
  assumes "active_adjustment_total d (ta_pk a) = adj"
    and "c = settled_calculated (ta_calculated a) (ta_tax_due a) adj"
    and "b = a\<lparr>ta_calculated := c, ta_adjustment_total := adj, ta_tax_due := max 0 (c + adj),
            ta_approved_paid := tax_allocated d (ta_pk a)\<rparr>"
  shows "recalculated d a = b\<lparr>ta_status := status_for_assessment (wall d) b, ta_updated_at := wall d\<rparr>"
  using assms by (simp add: recalculated_def Let_def settled_calculated_def)

lemma settled_thrice:
  assumes "due = max 0 (ta_calculated a + adj)" and "adj = ta_adjustment_total a"
    and "c1 = settled_calculated (ta_calculated a) due (adj + s)"
  shows "settled_calculated c1 (max 0 (c1 + (adj + s))) adj = left_as_calculated a s"
proof (cases "ta_calculated a = 0")
  case True
  then show ?thesis
    using assms by (auto simp: settled_calculated_def left_as_calculated_def max_def split: if_splits)
next
  case False
  then show ?thesis
    using assms by (simp add: settled_calculated_def left_as_calculated_def)
qed

lemma status_for_assessment_fields:
  assumes "ta_tax_due b = ta_tax_due a" and "ta_calculated b = ta_calculated a"
    and "ta_adjustment_total b = ta_adjustment_total a" and "ta_approved_paid b = ta_approved_paid a"
    and "ta_due_at b = ta_due_at a"
  shows "status_for_assessment now b = status_for_assessment now a"
  using assms by (simp add: status_for_assessment_def)

text \<open>The bill after three recalculations: as it is, with the adjustment, and without it.\<close>

lemma recalculated_thrice:
  assumes "bill_balanced d a" and "ta_pk a = k" and "wall d2 = wall d"
    and "tax_allocated d2 k = tax_allocated d k"
    and "active_adjustment_total d1 k = active_adjustment_total d k + s"
    and "active_adjustment_total d2 k = active_adjustment_total d k"
    and "c = left_as_calculated a s"
    and "b = a\<lparr>ta_calculated := c, ta_tax_due := max 0 (c + ta_adjustment_total a)\<rparr>"
  shows "recalculated d2 (recalculated d1 (recalculated d a)) =
    b\<lparr>ta_status := status_for_assessment (wall d) b, ta_updated_at := wall d\<rparr>"
proof -
  let ?adj = "ta_adjustment_total a" and ?x = "recalculated d1 (recalculated d a)"
  have bal: "active_adjustment_total d k = ?adj" "tax_allocated d k = ta_approved_paid a"
      "ta_tax_due a = max 0 (ta_calculated a + ?adj)"
    using assms(1,2) by (simp_all add: bill_balanced_def)
  let ?c1 = "settled_calculated (ta_calculated a) (ta_tax_due a) (?adj + s)"
  have x: "ta_pk ?x = k" "ta_calculated ?x = ?c1" "ta_tax_due ?x = max 0 (?c1 + (?adj + s))"
    using assms(2,5) bal(1) recalculated_of_balanced [OF assms(1)]
    by (simp_all add: recalculated_as [of d1 _ "?adj + s", OF _ refl refl])
  have c: "c = settled_calculated (ta_calculated ?x) (ta_tax_due ?x) ?adj"
    unfolding x(2,3) assms(7) by (rule settled_thrice [OF bal(3) refl refl, symmetric])
  let ?b = "?x\<lparr>ta_calculated := c, ta_adjustment_total := ?adj, ta_tax_due := max 0 (c + ?adj),
      ta_approved_paid := tax_allocated d2 (ta_pk ?x)\<rparr>"
  have "recalculated d2 ?x = ?b\<lparr>ta_status := status_for_assessment (wall d2) ?b, ta_updated_at := wall d2\<rparr>"
    using assms(6) bal(1) x(1) by (intro recalculated_as [OF _ c]) simp_all
  moreover have "status_for_assessment (wall d2) ?b = status_for_assessment (wall d) b"
    using assms(3,4,8) bal(2) x(1) 
    unfolding assms(3) by (intro status_for_assessment_fields) (simp_all add: recalculated_def Let_def)
  moreover have "?b\<lparr>ta_status := t, ta_updated_at := u\<rparr> = b\<lparr>ta_status := t, ta_updated_at := u\<rparr>" for t u
    using assms(4,8) bal(2) x(1) by (simp add: recalculated_def Let_def)
  ultimately show ?thesis
    using assms(3) by simp
qed


lemma reversed_row_last:
  assumes "well_keyed aj_pk t" and "aj_pk r = next_pk t" and "\<And>q. aj_pk (f q) = aj_pk q"
  shows "rows (update aj_pk (aj_pk r) f (create (\<lambda>pk. r\<lparr>aj_pk := pk\<rparr>) t)) = rows t @ [f r]"
proof -
  have "aj_pk q \<noteq> next_pk t" if "q \<in> set (rows t)" for q
    using assms(1) that by (auto simp: well_keyed_def)
  then have "map (\<lambda>q. if aj_pk q = next_pk t then f q else q) (rows t) = rows t"
    by (intro map_idI) auto
  moreover have same: "r\<lparr>aj_pk := next_pk t\<rparr> = r"
    using assms(2) by (cases r) simp
  ultimately show ?thesis
    using assms(2) by (simp add: rows_update rows_create same)
qed

text \<open>The two services in terms of their steps, and the bill they leave.\<close>

lemma created_reversed_cases:
  assumes "books d" and "lookup ta_pk k (assessments d) = Some a"
    and "create_assessment_adjustment k action amount reason director d = Inr (r, d1)"
    and "reverse_assessment_adjustment (aj_pk r) why reviewer d1 = Inr (r', d2)"
  obtains m n where "aj_assessment r = k" and "aj_reversed_at r = None"
    and "aj_pk r = next_pk (adjustments d)"
    and "d1 = post_adjustment m r (recalculate_assessment k d)"
    and "d2 = unpost_adjustment n (r\<lparr>aj_reversed_at := Some (wall d), aj_reversed_by := reviewer,
               aj_reversal_reason := strip why\<rparr>) d1"
proof -
  obtain m where m: "aj_assessment r = k" "aj_reversed_at r = None" "aj_pk r = next_pk (adjustments d)"
      "d1 = post_adjustment m r (recalculate_assessment k d)"
    using assms(3) by (rule create_adjustment_cases) (auto simp: books_simps)
  then have "wall d1 = wall d"
    by (simp add: post_adjustment_def books_simps)
  moreover have "lookup aj_pk (aj_pk r) (adjustments d1) = Some r"
    using assms(1,3) by (rule created_adjustment_row)
  ultimately obtain n where "d2 = unpost_adjustment n (r\<lparr>aj_reversed_at := Some (wall d),
      aj_reversed_by := reviewer, aj_reversal_reason := strip why\<rparr>) d1"
    using assms(4) by (auto elim!: reverse_adjustment_cases)
  with m show thesis by (rule that)
qed

lemma reversed_adjustment_bill:
  assumes "books d" and "lookup ta_pk k (assessments d) = Some a"
    and "create_assessment_adjustment k action amount reason director d = Inr (r, d1)"
    and "reverse_assessment_adjustment (aj_pk r) why reviewer d1 = Inr (r', d2)"
    and "c = left_as_calculated a (aj_amount r)"
    and "b = a\<lparr>ta_calculated := c, ta_tax_due := max 0 (c + ta_adjustment_total a)\<rparr>"
  shows "lookup ta_pk k (assessments d2) =
      Some (b\<lparr>ta_status := status_for_assessment (wall d) b, ta_updated_at := wall d\<rparr>)"
proof -
  let ?d0 = "recalculate_assessment k d"
  let ?f = "\<lambda>q. q\<lparr>aj_reversed_at := Some (wall d), aj_reversed_by := reviewer, aj_reversal_reason := strip why\<rparr>"
  obtain m n where r: "aj_assessment r = k" "aj_reversed_at r = None" "aj_pk r = next_pk (adjustments d)"
    and d1: "d1 = post_adjustment m r ?d0" and d2: "d2 = unpost_adjustment n (?f r) d1"
    using created_reversed_cases [OF assms(1-4)] by blast
  have bal: "bill_balanced d a" "ta_pk a = k"
    using lookup_balanced [OF assms(1,2)] by simp_all
  let ?e1 = "?d0\<lparr>adjustments := create (\<lambda>pk. r\<lparr>aj_pk := pk\<rparr>) (adjustments ?d0)\<rparr>"
  let ?e2 = "save_adjustment (aj_pk r) ?f d1"
  have made: "lookup aj_pk (aj_pk r) (adjustments d1) = Some r"
    using assms(1,3) by (rule created_adjustment_row)
  have same1: "wall d1 = wall d" "adjustments d1 = adjustments ?e1" "allocations d1 = allocations d"
    by (simp_all add: d1 post_adjustment_def books_simps)
  have keyed: "well_keyed aj_pk (adjustments d1)"
    using books_create_adjustment [OF assms(1,3)] by (simp add: books_def books_except_def refs_sound_def)
  have "lookup ta_pk k (assessments ?d0) = Some (recalculated d a)"
    using assms(2) by (simp add: books_simps)
  then have b1: "lookup ta_pk k (assessments d1) = Some (recalculated ?e1 (recalculated d a))"
    unfolding d1 using r(1) by (rule post_adjustment_lookup)
  have b2: "lookup ta_pk k (assessments d2) = Some (recalculated ?e2 (recalculated ?e1 (recalculated d a)))"
    unfolding d2 using unpost_adjustment_lookup [OF b1, of "?f r" n] r(1) by simp
  have total1: "active_adjustment_total ?e1 k = active_adjustment_total d k + aj_amount r"
    unfolding active_total_create using r(1,2) by (simp add: books_simps)
  have total2: "active_adjustment_total ?e2 k = active_adjustment_total d k"
    using active_total_reverse [OF keyed made r(2)] r(1) total1 same1(2)
    by (simp add: active_adjustment_total_def)
  show ?thesis
    unfolding b2 option.inject
    by (rule recalculated_thrice [OF bal _ _ total1 total2 assms(5,6)])
      (simp_all add: save_adjustment_def same1 tax_allocated_def)
qed

text \<open>
  C6. Adding an adjustment to a bill and reversing it, on any bill of sound books: the
  bill is as it was but for its status and update time, which are recomputed, and
  the two columns that depend on the calculated tax. Those are as they were exactly
  when the bill carried calculated tax, or the active adjustments did not pass
  through zero: a debit on a bill with no calculated tax and no other adjustment
  stays behind as calculated tax, and so does a debit that the adjustment cancelled
  out. The adjustment stays on file as reversed, and no other bill, payment or
  allocation changes.
\<close>

theorem adjustment_reversal_exact:
  assumes "books d" and "lookup ta_pk k (assessments d) = Some a"
    and "create_assessment_adjustment k action amount reason director d = Inr (r, d1)"
    and "reverse_assessment_adjustment (aj_pk r) why reviewer d1 = Inr (r', d2)"
    and "c = left_as_calculated a (aj_amount r)"
    and "b = a\<lparr>ta_calculated := c, ta_tax_due := max 0 (c + ta_adjustment_total a)\<rparr>"
  shows "lookup ta_pk k (assessments d2) =
      Some (b\<lparr>ta_status := status_for_assessment (wall d) b, ta_updated_at := wall d\<rparr>)
    \<and> (b = a \<longleftrightarrow> ta_calculated a \<noteq> 0
         \<or> (if ta_adjustment_total a = 0 then aj_amount r \<le> 0
            else ta_adjustment_total a < 0 \<or> ta_adjustment_total a + aj_amount r \<noteq> 0))
    \<and> (\<forall>i. i \<noteq> k \<longrightarrow> lookup ta_pk i (assessments d2) = lookup ta_pk i (assessments d))
    \<and> rows (adjustments d2) = rows (adjustments d) @
        [r\<lparr>aj_reversed_at := Some (wall d), aj_reversed_by := reviewer, aj_reversal_reason := strip why\<rparr>]
    \<and> d2 = d\<lparr>assessments := assessments d2, periods := periods d2, adjustments := adjustments d2\<rparr>"
proof (intro conjI)
  let ?f = "\<lambda>q. q\<lparr>aj_reversed_at := Some (wall d), aj_reversed_by := reviewer, aj_reversal_reason := strip why\<rparr>"
  obtain m n where r: "aj_assessment r = k" "aj_pk r = next_pk (adjustments d)"
    and d2: "d2 = unpost_adjustment n (?f r) (post_adjustment m r (recalculate_assessment k d))"
    using created_reversed_cases [OF assms(1-4)] by blast
  note steps = d2 unpost_adjustment_def post_adjustment_def save_adjustment_def books_simps r(1)
  show "lookup ta_pk k (assessments d2) =
      Some (b\<lparr>ta_status := status_for_assessment (wall d) b, ta_updated_at := wall d\<rparr>)"
    using assms by (rule reversed_adjustment_bill)
  have "b = a \<longleftrightarrow> c = ta_calculated a"
    using lookup_balanced(1) [OF assms(1,2)] unfolding assms(6) bill_balanced_def by (cases a) auto
  then show "b = a \<longleftrightarrow> ta_calculated a \<noteq> 0
       \<or> (if ta_adjustment_total a = 0 then aj_amount r \<le> 0
          else ta_adjustment_total a < 0 \<or> ta_adjustment_total a + aj_amount r \<noteq> 0)"
    unfolding assms(5) by (auto simp: left_as_calculated_def max_def)
  show "\<forall>i. i \<noteq> k \<longrightarrow> lookup ta_pk i (assessments d2) = lookup ta_pk i (assessments d)"
    by (simp add: steps)
  have "well_keyed aj_pk (adjustments d)"
    using assms(1) by (simp add: books_def books_except_def refs_sound_def)
  then show "rows (adjustments d2) = rows (adjustments d) @ [?f r]"
    using reversed_row_last [OF _ r(2), of ?f] by (simp add: steps)
  show "d2 = d\<lparr>assessments := assessments d2, periods := periods d2, adjustments := adjustments d2\<rparr>"
    by (simp add: steps recalculate_period_def recalculate_assessment_def save_period_def save_assessment_def)
qed

text \<open>
  A debit on a bill that owes nothing and has no other adjustment cannot be taken back:
  after its reversal the bill carries it as calculated tax and owes it still.
\<close>

theorem reversed_debit_stays:
  assumes "books d" and "lookup ta_pk k (assessments d) = Some a"
    and "ta_calculated a = 0" and "ta_adjustment_total a = 0" and "upper action = ''DEBIT''"
    and "create_assessment_adjustment k action amount reason director d = Inr (r, d1)"
    and "reverse_assessment_adjustment (aj_pk r) why reviewer d1 = Inr (r', d2)"
  shows "\<exists>b. lookup ta_pk k (assessments d2) = Some b \<and> ta_tax_due a = 0
    \<and> ta_calculated b = the amount \<and> ta_adjustment_total b = 0 \<and> ta_tax_due b = the amount
    \<and> 0 < the amount"
proof -
  have "aj_amount r = the amount \<and> 0 < the amount"
    using assms(5,6)
    by (auto elim!: create_adjustment_cases simp: adjustment_for_def Let_def split: if_splits option.splits)
  then show ?thesis
    using reversed_adjustment_bill [OF assms(1,2,6,7) refl refl] lookup_balanced(1) [OF assms(1,2)] assms(3,4)
    by (simp add: left_as_calculated_def bill_balanced_def)
qed

lemma post_cancelling:
  assumes "books d" and "lookup ta_pk k (assessments d) = Some a"
    and "ta_calculated a = 0" and "ta_approved_paid a = 0" and "0 < ta_tax_due a"
    and "aj_assessment r = k" and "aj_reversed_at r = None" and "aj_amount r = - ta_tax_due a"
  shows "\<exists>b. lookup ta_pk k (assessments (post_adjustment m r d)) = Some b
    \<and> ta_calculated b = ta_tax_due a \<and> ta_tax_due b = ta_tax_due a \<and> ta_approved_paid b = 0"
  using lookup_balanced [OF assms(1,2)] assms(2-8)
  by (auto simp: post_adjustment_def books_simps recalculated_def Let_def active_total_create
      bill_balanced_def tax_allocated_def max_def split: if_splits)

text \<open>
  On a bill without calculated tax, whose whole balance comes from a debit, a
  waiver or a void has no effect: the adjustments then cancel out, the compatibility
  branch of \<open>recalculate_assessment\<close> takes the effective tax of before for the
  calculated tax, and the bill owes as much as it did.
\<close>

theorem waiver_of_debit_is_lost:
  assumes "books d" and "lookup ta_pk k (assessments d) = Some a"
    and "ta_calculated a = 0" and "ta_approved_paid a = 0"
    and "upper action \<in> {''WAIVE_BALANCE'', ''VOID_BILL''}"
    and "create_assessment_adjustment k action amount reason director d = Inr (r, d')"
  shows "\<exists>b. lookup ta_pk k (assessments d') = Some b
    \<and> ta_calculated b = ta_tax_due a \<and> ta_tax_due b = ta_tax_due a
    \<and> outstanding b = outstanding a \<and> 0 < outstanding b"
proof -
  obtain a' where a': "lookup ta_pk k (assessments (recalculate_assessment k d)) = Some a'"
      "ta_calculated a' = ta_calculated a" "ta_tax_due a' = ta_tax_due a"
      "ta_approved_paid a' = ta_approved_paid a" "ta_adjustment_total a' = ta_adjustment_total a"
    using recalculated_lookup [OF assms(1,2)] by blast
  let ?d = "recalculate_assessment k d"
  from assms(6) show ?thesis
  proof (cases rule: create_adjustment_cases)
    case (1 c kind signed)
    then have r: "aj_amount r = - ta_tax_due a" "0 < ta_tax_due a" and c: "c = a'"
      using assms(4,5) a' by (auto simp: adjustment_for_def outstanding_def max_def split: if_splits)
    have "\<exists>b. lookup ta_pk k (assessments (post_adjustment (ta_period c) r ?d)) = Some b
      \<and> ta_calculated b = ta_tax_due a' \<and> ta_tax_due b = ta_tax_due a' \<and> ta_approved_paid b = 0"
      using a' assms(3,4) r 1(3,6)
      by (intro post_cancelling [OF books_recalculate_one [OF assms(1)] a'(1)]) simp_all
    then show ?thesis
      unfolding 1(8) using a' assms(4) r(2) by (auto simp: outstanding_def)
  qed
qed

end
