(* ===== verification/MT_Reconcile.thy ===== *)
theory MT_Reconcile
  imports MT_Adjustments
begin

text \<open>
  The exclusion of exempt payers and its reconciliation, and the services of
  \<open>payments.py\<close> as one machine: whatever sequence of them runs, the books stay
  balanced and a payment the system excluded funds no bill.
\<close>

section \<open>Excluding and restoring a payment\<close>

text \<open>A payment the system excluded carries no allocation.\<close>

definition exempt_unfunded :: "mt_db \<Rightarrow> bool" where
  "exempt_unfunded d \<longleftrightarrow>
     (\<forall>j q. lookup pc_pk j (payments d) = Some q \<and> pc_status q = PayExempt \<longrightarrow> allocations_of d j = [])"

definition sound :: "mt_db \<Rightarrow> bool" where
  "sound d \<longleftrightarrow> books d \<and> exempt_unfunded d"

text \<open>How the three services that change one payment act on the tables of payments.\<close>

definition cleared :: "nat \<Rightarrow> bool \<Rightarrow> payment \<Rightarrow> mt_db \<Rightarrow> mt_db" where
  "cleared k subj row d =
     (let (locked, affected) = lock_payment_context row subj d
      in clear_payment_allocations k locked affected d)"

lemma cleared_facts:
  assumes "books d" and "pc_pk row = k"
  shows "books (cleared k subj row d)"
    and "payments (cleared k subj row d) = payments d"
    and "allocations_of (cleared k subj row d) j = (if j = k then [] else allocations_of d j)"
    and "wall (cleared k subj row d) = wall d"
  using assms books_clear [OF assms(1) _ assms(2)]
  by (auto simp: cleared_def books_simps allocations_of_clear split: prod.splits)

definition excluded :: "nat option \<Rightarrow> tax_exemption \<Rightarrow> mt_db \<Rightarrow> payment \<Rightarrow> payment" where
  "excluded u x d row = row\<lparr>pc_auth_user := u, pc_evidence := Some (evidence_on_exclusion row x d),
     pc_status := PayExempt, pc_reviewed_by := None, pc_reviewed_at := Some (wall d),
     pc_review_note := exemption_note x\<rparr>"

definition restored :: "nat option \<Rightarrow> mt_db \<Rightarrow> payment \<Rightarrow> payment" where
  "restored u d row = row\<lparr>pc_auth_user := u,
     pc_evidence := Some ((case pc_evidence row of None \<Rightarrow> no_evidence | Some e \<Rightarrow> e)
                      \<lparr>ee_returned_at := Some (wall d)\<rparr>),
     pc_status := PayPending, pc_reviewed_by := None, pc_reviewed_at := None, pc_review_note := ''''\<rparr>"

lemma lookup_save_payment:
  assumes "\<And>q. pc_pk (f q) = pc_pk q"
  shows "lookup pc_pk j (payments (save_payment k f d)) =
     (if j = k then map_option f (lookup pc_pk k (payments d)) else lookup pc_pk j (payments d))"
  using assms by (simp add: save_payment_def lookup_update)

lemma exclude_facts:
  assumes "books d" and "lookup pc_pk k (payments d) = Some row"
  shows "books (exclude_payment_for_exemption k u x d)"
    and "lookup pc_pk j (payments (exclude_payment_for_exemption k u x d)) =
           (if j = k then Some (excluded u x d row) else lookup pc_pk j (payments d))"
    and "allocations_of (exclude_payment_for_exemption k u x d) j =
           (if j = k then [] else allocations_of d j)"
    and "wall (exclude_payment_for_exemption k u x d) = wall d"
proof -
  have k: "pc_pk row = k"
    using assms(2) by (auto dest: lookup_SomeD)
  have eq: "exclude_payment_for_exemption k u x d =
      save_payment k (\<lambda>q. q\<lparr>pc_auth_user := u, pc_evidence := Some (evidence_on_exclusion row x d),
        pc_status := PayExempt, pc_reviewed_by := None, pc_reviewed_at := Some (wall d),
        pc_review_note := exemption_note x\<rparr>) (cleared k False row d)"
    by (simp add: exclude_payment_for_exemption_def assms(2) cleared_def split: prod.split)
  show "books (exclude_payment_for_exemption k u x d)"
    unfolding eq by (rule books_save_payment) (simp_all add: cleared_facts(1) assms(1) k)
  show "lookup pc_pk j (payments (exclude_payment_for_exemption k u x d)) =
           (if j = k then Some (excluded u x d row) else lookup pc_pk j (payments d))"
    unfolding eq
    by (subst lookup_save_payment) (simp_all add: cleared_facts(2) [OF assms(1) k] assms(2) excluded_def)
  show "allocations_of (exclude_payment_for_exemption k u x d) j =
           (if j = k then [] else allocations_of d j)"
    unfolding eq by (simp add: books_simps cleared_facts(3) [OF assms(1) k])
  show "wall (exclude_payment_for_exemption k u x d) = wall d"
    unfolding eq by (simp add: books_simps cleared_facts(4) [OF assms(1) k])
qed

lemma restore_facts:
  assumes "books d" and "lookup pc_pk k (payments d) = Some row"
    and "starts_with (pc_review_note row) AUTO_EXEMPT_PREFIX"
  shows "books (restore_system_exempt_payment k u d)"
    and "lookup pc_pk j (payments (restore_system_exempt_payment k u d)) =
           (if j = k then Some (restored u d row) else lookup pc_pk j (payments d))"
    and "allocations_of (restore_system_exempt_payment k u d) j =
           (if j = k then [] else allocations_of d j)"
    and "wall (restore_system_exempt_payment k u d) = wall d"
proof -
  have k: "pc_pk row = k"
    using assms(2) by (auto dest: lookup_SomeD)
  have eq: "restore_system_exempt_payment k u d =
      save_payment k (\<lambda>q. q\<lparr>pc_auth_user := u,
        pc_evidence := Some ((case pc_evidence row of None \<Rightarrow> no_evidence | Some e \<Rightarrow> e)
                      \<lparr>ee_returned_at := Some (wall d)\<rparr>),
        pc_status := PayPending, pc_reviewed_by := None, pc_reviewed_at := None,
        pc_review_note := ''''\<rparr>) (cleared k False row d)"
    by (simp add: restore_system_exempt_payment_def assms(2,3) cleared_def Let_def split: prod.split)
  show "books (restore_system_exempt_payment k u d)"
    unfolding eq by (rule books_save_payment) (simp_all add: cleared_facts(1) assms(1) k)
  show "lookup pc_pk j (payments (restore_system_exempt_payment k u d)) =
           (if j = k then Some (restored u d row) else lookup pc_pk j (payments d))"
    unfolding eq
    by (subst lookup_save_payment) (simp_all add: cleared_facts(2) [OF assms(1) k] assms(2) restored_def)
  show "allocations_of (restore_system_exempt_payment k u d) j =
           (if j = k then [] else allocations_of d j)"
    unfolding eq by (simp add: books_simps cleared_facts(3) [OF assms(1) k])
  show "wall (restore_system_exempt_payment k u d) = wall d"
    unfolding eq by (simp add: books_simps cleared_facts(4) [OF assms(1) k])
qed

section \<open>One payment of the reconciliation\<close>

text \<open>What the loop makes of a payment: the row it leaves.\<close>

definition reconciled :: "exemption_snapshot \<Rightarrow> mt_db \<Rightarrow> payment \<Rightarrow> payment" where
  "reconciled ix d p =
     (let linked = user_id_for ix (pc_payer_id p) (pc_auth_user p)
      in case match_exemption ix linked (pc_payer_id p) (date_of (pc_occurred_at p)) of
           Some x \<Rightarrow>
             (if pc_status p \<noteq> PayExempt \<or> pc_review_note p \<noteq> exemption_note x
                 \<or> linked \<noteq> pc_auth_user p
              then excluded linked x d p else p)
         | None \<Rightarrow>
             (if pc_status p = PayExempt \<and> starts_with (pc_review_note p) AUTO_EXEMPT_PREFIX
              then restored linked d p else p\<lparr>pc_auth_user := linked\<rparr>))"

lemma reconcile_one_facts:
  assumes "books d" and "lookup pc_pk (pc_pk p) (payments d) = Some p"
  shows "books (snd (reconcile_one ix p (c, d)))
    \<and> lookup pc_pk j (payments (snd (reconcile_one ix p (c, d)))) =
        (if j = pc_pk p then Some (reconciled ix d p) else lookup pc_pk j (payments d))
    \<and> (j \<noteq> pc_pk p \<longrightarrow> allocations_of (snd (reconcile_one ix p (c, d))) j = allocations_of d j)
    \<and> (allocations_of (snd (reconcile_one ix p (c, d))) (pc_pk p) = []
       \<or> allocations_of (snd (reconcile_one ix p (c, d))) (pc_pk p) = allocations_of d (pc_pk p)
         \<and> pc_status (reconciled ix d p) = pc_status p)
    \<and> wall (snd (reconcile_one ix p (c, d))) = wall d"
proof -
  let ?linked = "user_id_for ix (pc_payer_id p) (pc_auth_user p)"
  have relink: "books (save_payment (pc_pk p) (\<lambda>q. q\<lparr>pc_auth_user := u\<rparr>) d)" for u
    using assms(1) by (rule books_save_payment) simp_all
  show ?thesis
  proof (cases "match_exemption ix ?linked (pc_payer_id p) (date_of (pc_occurred_at p))")
    case (Some x)
    then show ?thesis
      using assms exclude_facts [OF assms, where u = ?linked and x = x]
      by (simp add: reconcile_one_def reconciled_def Let_def)
  next
    case None
    show ?thesis
    proof (cases "pc_status p = PayExempt \<and> starts_with (pc_review_note p) AUTO_EXEMPT_PREFIX")
      case True
      with None show ?thesis
        using assms restore_facts [OF assms, where u = ?linked]
        by (simp add: reconcile_one_def reconciled_def Let_def)
    next
      case False
      with None show ?thesis
        using assms relink
        by (auto simp: reconcile_one_def reconciled_def Let_def books_simps lookup_save_payment)
    qed
  qed
qed

lemma user_id_for_idem: "user_id_for ix c (user_id_for ix c u) = user_id_for ix c u"
  by (simp add: user_id_for_def)

lemma starts_with_note [simp]: "starts_with (exemption_note x) AUTO_EXEMPT_PREFIX"
  by (simp add: exemption_note_def)

text \<open>A reconciled payment needs nothing more.\<close>

lemma reconcile_one_again:
  assumes "q = reconciled ix d p"
  shows "reconcile_one ix q (c, d') = (c, d')"
proof -
  let ?linked = "user_id_for ix (pc_payer_id p) (pc_auth_user p)"
  have q: "pc_payer_id q = pc_payer_id p" "pc_occurred_at q = pc_occurred_at p"
      "pc_auth_user q = ?linked"
    using assms by (auto simp: reconciled_def Let_def excluded_def restored_def split: option.splits)
  show ?thesis
  proof (cases "match_exemption ix ?linked (pc_payer_id p) (date_of (pc_occurred_at p))")
    case None
    then have "\<not> (pc_status q = PayExempt \<and> starts_with (pc_review_note q) AUTO_EXEMPT_PREFIX)"
      using assms by (auto simp: reconciled_def Let_def restored_def split: if_splits)
    with None q show ?thesis
      by (auto simp: reconcile_one_def Let_def user_id_for_idem)
  next
    case (Some x)
    then have "pc_status q = PayExempt \<and> pc_review_note q = exemption_note x"
      using assms by (auto simp: reconciled_def Let_def excluded_def split: if_splits)
    with Some q show ?thesis
      by (simp add: reconcile_one_def Let_def user_id_for_idem)
  qed
qed

section \<open>The whole reconciliation\<close>

lemma imported_payments_rows:
  "set (imported_payments scope d) = {p \<in> set (rows (payments d)). scope p \<and> pc_source p \<noteq> Manual}"
  by (simp add: imported_payments_def)

lemma distinct_imported:
  assumes "well_keyed pc_pk (payments d)"
  shows "distinct (map pc_pk (imported_payments scope d))"
  using assms
  by (simp add: well_keyed_def imported_payments_def distinct_map inj_on_def)

lemma fold_reconcile_facts:
  assumes "books d" and "distinct (map pc_pk ps)"
    and "\<And>p. p \<in> set ps \<Longrightarrow> lookup pc_pk (pc_pk p) (payments d) = Some p"
  shows "books (snd (fold (reconcile_one ix) ps (c, d)))
    \<and> (\<forall>p \<in> set ps. \<exists>d0. lookup pc_pk (pc_pk p) (payments (snd (fold (reconcile_one ix) ps (c, d)))) =
          Some (reconciled ix d0 p))
    \<and> (\<forall>j. j \<notin> pc_pk ` set ps \<longrightarrow>
          lookup pc_pk j (payments (snd (fold (reconcile_one ix) ps (c, d)))) = lookup pc_pk j (payments d)
          \<and> allocations_of (snd (fold (reconcile_one ix) ps (c, d))) j = allocations_of d j)
    \<and> (exempt_unfunded d \<longrightarrow> exempt_unfunded (snd (fold (reconcile_one ix) ps (c, d))))"
  using assms
proof (induction ps arbitrary: c d)
  case Nil
  then show ?case by simp
next
  case (Cons p ps)
  obtain c1 d1 where step: "reconcile_one ix p (c, d) = (c1, d1)"
    by fastforce
  have row: "lookup pc_pk (pc_pk p) (payments d) = Some p"
    using Cons.prems(3) by simp
  have f: "books d1"
      "lookup pc_pk j (payments d1) = (if j = pc_pk p then Some (reconciled ix d p) else lookup pc_pk j (payments d))"
      "j \<noteq> pc_pk p \<Longrightarrow> allocations_of d1 j = allocations_of d j"
      "allocations_of d1 (pc_pk p) = [] \<or> allocations_of d1 (pc_pk p) = allocations_of d (pc_pk p)
         \<and> pc_status (reconciled ix d p) = pc_status p" for j
    using reconcile_one_facts [OF Cons.prems(1) row, of ix c j] step by simp_all
  have "exempt_unfunded d1" if "exempt_unfunded d"
    unfolding exempt_unfunded_def
  proof (intro allI impI)
    fix j q
    assume q: "lookup pc_pk j (payments d1) = Some q \<and> pc_status q = PayExempt"
    show "allocations_of d1 j = []"
    proof (cases "j = pc_pk p")
      case True
      with q f(2,4) that row show ?thesis
        by (auto simp: exempt_unfunded_def)
    next
      case False
      with q f(2,3) that show ?thesis
        by (auto simp: exempt_unfunded_def)
    qed
  qed
  moreover have "lookup pc_pk (pc_pk q) (payments d1) = Some q" if "q \<in> set ps" for q
  proof -
    have "pc_pk q \<noteq> pc_pk p"
      using Cons.prems(2) that by (auto simp: image_iff)
    then show ?thesis
      using Cons.prems(3) [of q] that f(2) by simp
  qed
  moreover have "distinct (map pc_pk ps)" and "pc_pk p \<notin> pc_pk ` set ps"
    using Cons.prems(2) by auto
  ultimately show ?case
    using Cons.IH [OF f(1), of c1] f(2,3) step by auto
qed

lemma imported_lookup:
  assumes "books d" and "p \<in> set (imported_payments scope d)"
  shows "lookup pc_pk (pc_pk p) (payments d) = Some p"
  using assms
  by (auto simp: imported_payments_rows books_def books_except_def refs_sound_def lookup_iff)

lemma reconcile_facts:
  assumes "books d" and "reconcile_payment_exemptions ix scope d = (c, d')"
  shows "books d'"
    and "p \<in> set (imported_payments scope d) \<Longrightarrow>
           \<exists>d0. lookup pc_pk (pc_pk p) (payments d') = Some (reconciled ix d0 p)"
    and "j \<notin> pc_pk ` set (imported_payments scope d) \<Longrightarrow>
           lookup pc_pk j (payments d') = lookup pc_pk j (payments d)
           \<and> allocations_of d' j = allocations_of d j"
    and "exempt_unfunded d \<Longrightarrow> exempt_unfunded d'"
proof -
  let ?ps = "imported_payments scope d" and ?c = "\<lparr>rc_excluded = 0, rc_restored = 0, rc_relinked = 0\<rparr>"
  have keyed: "well_keyed pc_pk (payments d)"
    using assms(1) by (simp add: books_def books_except_def refs_sound_def)
  have d': "d' = snd (fold (reconcile_one ix) ?ps (?c, d))"
    using assms(2) by (simp add: reconcile_payment_exemptions_def)
  note all = fold_reconcile_facts [of d ?ps ix ?c, OF assms(1) distinct_imported [OF keyed]
      imported_lookup [OF assms(1), where scope = scope], folded d']
  show "books d'"
    "p \<in> set ?ps \<Longrightarrow> \<exists>d0. lookup pc_pk (pc_pk p) (payments d') = Some (reconciled ix d0 p)"
    "j \<notin> pc_pk ` set ?ps \<Longrightarrow>
           lookup pc_pk j (payments d') = lookup pc_pk j (payments d)
           \<and> allocations_of d' j = allocations_of d j"
    "exempt_unfunded d \<Longrightarrow> exempt_unfunded d'"
    using all by blast+
qed

section \<open>The payment services as a machine\<close>

text \<open>
  The operations: a director's decision on a payment, an adjustment of a bill and its
  reversal, the reconciliation with the exemptions of the moment; and what happens
  around them: time passes, directors edit exemptions, characters change hands.
\<close>

datatype payment_op =
  Decide nat string "nat option" string
| Adjust nat string "decimal option" string "nat option"
| Reverse nat string "nat option"
| Reconcile
| Tick instant
| EditExemptions "tax_exemption list"
| ChangeOwners "(nat \<times> nat) list"

fun payment_step :: "payment_op \<Rightarrow> mt_db \<Rightarrow> mt_error + mt_db" where
  "payment_step (Decide k disposition director note) d =
     map_sum id snd (decide_payment k disposition director note d)"
| "payment_step (Adjust k action amount reason director) d =
     map_sum id snd (create_assessment_adjustment k action amount reason director d)"
| "payment_step (Reverse j reason director) d =
     map_sum id snd (reverse_assessment_adjustment j reason director d)"
| "payment_step Reconcile d =
     Inr (snd (reconcile_payment_exemptions (exemption_index d) (\<lambda>_. True) d))"
| "payment_step (Tick t) d = Inr (d\<lparr>wall := t\<rparr>)"
| "payment_step (EditExemptions xs) d = Inr (d\<lparr>exemptions := xs\<rparr>)"
| "payment_step (ChangeOwners os) d = Inr (d\<lparr>owners := os\<rparr>)"

lemma exempt_unfunded_frame:
  assumes "payments d' = payments d" and "allocations d' = allocations d" and "exempt_unfunded d"
  shows "exempt_unfunded d'"
  using assms by (simp add: exempt_unfunded_def allocations_of_def)

lemma decide_payment_rows:
  assumes "decide_payment k disposition director note d = Inr (p', d')" and "books d" and "j \<noteq> k"
  shows "lookup pc_pk j (payments d') = lookup pc_pk j (payments d)"
proof -
  from assms(1) obtain p locked affected where
    p: "lookup pc_pk k (payments d) = Some p" "pc_pk p = k"
    and l: "lock_payment_context p True d = (locked, affected)"
    and c: "decide_cleared disposition director (stamped p director note d) locked
           (clear_payment_allocations k locked affected d) = Inr (p', d')"
    by (rule decide_payment_cleared) blast
  let ?d1 = "clear_payment_allocations k locked affected d"
  have keep: "lookup pc_pk j (payments (save_decision q d2)) = lookup pc_pk j (payments d2)"
    "lookup pc_pk j (payments (save_review q d2)) = lookup pc_pk j (payments d2)"
    if "pc_pk q = k" for q d2
    using assms(3) that by (simp_all add: save_decision_def save_review_def lookup_save_payment)
  have pay: "payments ?d1 = payments d"
    by (simp add: books_simps)
  have oldest: "payments (decide_oldest disposition director (stamped p director note d) locked ?d1) = payments d"
    if "oldest_disposition disposition"
    using decide_oldest_settles [OF assms(2) l refl _ that refl] p by (auto dest: lookup_SomeD)
  from c show ?thesis
  proof (cases rule: decide_cleared_cases)
    case pending
    then show ?thesis by (simp add: keep p pay)
  next
    case reject
    then show ?thesis by (simp add: keep p pay books_simps)
  next
    case oldest: oldest
    then have "payments d' = payments (save_decision p' (save_review (stamped p director note d)
        (decide_oldest disposition director (stamped p director note d) locked ?d1)))"
      and "pc_pk p' = k"
      using recalculate_payment_frames(5,6) p
      by (metis fst_conv snd_conv, metis decided_fields(1) fst_conv recalculate_payment_frames(6) stamped_fields(1))
    then show ?thesis
      using \<open>oldest_disposition disposition \<Longrightarrow> _\<close> oldest(1) by (simp add: keep p)
  next
    case (whole cat why)
    then have "payments d' = payments (save_decision p' (save_review (stamped p director note d)
        (add_allocation k None cat (pc_amount p) why director ?d1)))"
      and "pc_pk p' = k"
      using recalculate_payment_frames(5,6) p
      by (metis fst_conv snd_conv stamped_fields(1,2),
          metis decided_fields(1) fst_conv recalculate_payment_frames(6) stamped_fields(1))
    then show ?thesis
      by (simp add: keep p pay books_simps)
  qed
qed

lemma allocations_of_post [books_simps]:
  "allocations (post_adjustment m r d) = allocations d"
  "payments (post_adjustment m r d) = payments d"
  "allocations (unpost_adjustment m r d) = allocations d"
  "payments (unpost_adjustment m r d) = payments d"
  by (simp_all add: post_adjustment_def unpost_adjustment_def save_adjustment_def books_simps)

lemma sound_decide:
  assumes "sound d" and "decide_payment k disposition director note d = Inr (p', d')"
  shows "sound d'"
proof -
  have bk: "books d" and ex: "exempt_unfunded d"
    using assms(1) by (simp_all add: sound_def)
  obtain p where p: "pc_pk p = k" "pc_status p \<noteq> PayExempt" and o': "outcome p disposition d p' d'"
    using decide_payment_outcome [OF bk assms(2)] by blast
  obtain r where r: "lookup pc_pk k (payments d') = Some r" "pc_status r = pc_status p'"
    using o' p by (auto simp: outcome_def)
  have "allocations_of d' j = []" if "lookup pc_pk j (payments d') = Some q" and "pc_status q = PayExempt" for j q
  proof (cases "j = k")
    case True
    then have "pc_status p' = PayExempt"
      using that r by simp
    then show ?thesis
      using o' p that True by (auto simp: outcome_def payment_status_for_def split: if_splits)
  next
    case False
    then have "lookup pc_pk j (payments d) = Some q"
      using decide_payment_rows [OF assms(2) bk, of j] that(1) by simp
    then have "allocations_of d j = []"
      using ex that(2) by (auto simp: exempt_unfunded_def)
    then show ?thesis
      using o' p False by (simp add: outcome_def)
  qed
  then show ?thesis
    using o' by (auto simp: sound_def outcome_def exempt_unfunded_def)
qed

lemma sound_frame:
  assumes "sound d" and "books d'" and "payments d' = payments d" and "allocations d' = allocations d"
  shows "sound d'"
  using assms by (auto simp: sound_def intro: exempt_unfunded_frame)

lemma sound_step:
  assumes "sound d" and "payment_step x d = Inr d'"
  shows "sound d'"
proof -
  have bk: "books d" and ex: "exempt_unfunded d"
    using assms(1) by (simp_all add: sound_def)
  show ?thesis
  proof (cases x)
    case (Decide k disposition director memo)
    then show ?thesis
      using assms sound_decide by (cases "decide_payment k disposition director memo d") auto
  next
    case (Adjust k action amount reason director)
    then obtain r where c: "create_assessment_adjustment k action amount reason director d = Inr (r, d')"
      using assms(2) by (cases "create_assessment_adjustment k action amount reason director d") auto
    then show ?thesis
      using books_create_adjustment [OF bk c]
      by (intro sound_frame [OF assms(1)]) (auto elim!: create_adjustment_cases simp: books_simps)
  next
    case (Reverse j reason director)
    then obtain r where c: "reverse_assessment_adjustment j reason director d = Inr (r, d')"
      using assms(2) by (cases "reverse_assessment_adjustment j reason director d") auto
    then show ?thesis
      using books_reverse_adjustment [OF bk c]
      by (intro sound_frame [OF assms(1)]) (auto elim!: reverse_adjustment_cases simp: books_simps)
  next
    case Reconcile
    obtain c d'' where "reconcile_payment_exemptions (exemption_index d) (\<lambda>_. True) d = (c, d'')"
      by fastforce
    then show ?thesis
      using reconcile_facts(1,4) [OF bk] ex assms(2) Reconcile by (auto simp: sound_def)
  next
    case (Tick t)
    then show ?thesis
      using assms bk books_frame [of d' d] by (auto intro!: sound_frame [OF assms(1)])
  next
    case (EditExemptions es)
    then show ?thesis
      using assms bk books_frame [of d' d] by (auto intro!: sound_frame [OF assms(1)])
  next
    case (ChangeOwners os)
    then show ?thesis
      using assms bk books_frame [of d' d] by (auto intro!: sound_frame [OF assms(1)])
  qed
qed

interpretation pay: guarded_machine payment_step sound
  by unfold_locales (rule sound_step)

section \<open>Properties\<close>

text \<open>
  C1. The books stay balanced whatever the directors do: after any sequence of
  decisions, adjustments, reversals and reconciliations, with exemptions edited,
  characters changing hands and time passing between them, every bill's paid amount
  is the sum of its tax allocations and its effective tax the calculated tax plus its
  active adjustments, every period carries the sums of its bills and is settled
  exactly when it has bills and none is unpaid, no payment is allocated beyond its
  amount, and a payment excluded for an exemption funds nothing.
\<close>

theorem payment_services_keep_books:
  assumes "sound d"
  shows "sound (run_ops payment_step xs d)"
  using assms by (rule pay.run_good)

text \<open>
  Excluding a payment for an exemption takes its money out of the accounts and
  keeps the evidence: no allocation is left, the row is marked exempt with the
  exemption's number, and the evidence of a first exclusion holds the status and the
  allocations of before; the books stay balanced.
\<close>

theorem exclude_payment_keeps_evidence:
  assumes "books d" and "lookup pc_pk k (payments d) = Some row" and "pc_status row \<noteq> PayExempt"
  shows "let d' = exclude_payment_for_exemption k u x d in
    books d' \<and> allocations_of d' k = []
    \<and> (\<exists>q e. lookup pc_pk k (payments d') = Some q \<and> pc_status q = PayExempt
        \<and> pc_review_note q = exemption_note x \<and> pc_amount q = pc_amount row
        \<and> pc_evidence q = Some e \<and> ee_previous_status e = Some (pc_status row)
        \<and> ee_exemption_id e = Some (te_pk x)
        \<and> map_option (map (\<lambda>r. (rm_assessment r, rm_category r, rm_amount r))) (ee_removed e)
            = Some (map share_of (allocations_of d k)))"
proof -
  have k: "pc_pk row = k"
    using assms(2) by (auto dest: lookup_SomeD)
  show ?thesis
    using exclude_facts(1) [OF assms(1,2)] exclude_facts(2,3) [OF assms(1,2), where j = k] assms(3)
    by (simp add: Let_def excluded_def evidence_on_exclusion_def k share_of_def comp_def)
qed

lemma fold_unchanged:
  assumes "\<And>p c. p \<in> set ps \<Longrightarrow> f p (c, d) = (c, d)"
  shows "fold f ps (c, d) = (c, d)"
  using assms by (induction ps) auto

text \<open>
  C7. Reconciling is idempotent: after a reconciliation of all imported payments, a
  second one with the same exemptions and owners, over any of them, changes nothing.
\<close>

theorem reconcile_idempotent:
  assumes "books d" and "reconcile_payment_exemptions ix (\<lambda>_. True) d = (c, d')"
  shows "reconcile_payment_exemptions ix scope d' =
    (\<lparr>rc_excluded = 0, rc_restored = 0, rc_relinked = 0\<rparr>, d')"
proof -
  have bk': "books d'"
    using reconcile_facts(1) [OF assms] .
  have "reconcile_one ix q (c0, d') = (c0, d')" if q: "q \<in> set (imported_payments scope d')" for q c0
  proof -
    have row: "lookup pc_pk (pc_pk q) (payments d') = Some q"
      using imported_lookup [OF bk' q] .
    have nm: "pc_source q \<noteq> Manual"
      using q by (simp add: imported_payments_rows)
    show ?thesis
    proof (cases "pc_pk q \<in> pc_pk ` set (imported_payments (\<lambda>_. True) d)")
      case True
      then obtain p where p: "p \<in> set (imported_payments (\<lambda>_. True) d)" "pc_pk q = pc_pk p"
        by auto
      then obtain d0 where "lookup pc_pk (pc_pk p) (payments d') = Some (reconciled ix d0 p)"
        using reconcile_facts(2) [OF assms p(1)] by blast
      then have "q = reconciled ix d0 p"
        using row p(2) by simp
      then show ?thesis
        by (rule reconcile_one_again)
    next
      case False
      then have "lookup pc_pk (pc_pk q) (payments d) = Some q"
        using reconcile_facts(3) [OF assms False] row by simp
      then have "q \<in> set (rows (payments d))"
        by (auto dest: lookup_SomeD)
      then have "q \<in> set (imported_payments (\<lambda>_. True) d)"
        using nm by (simp add: imported_payments_rows)
      with False show ?thesis by auto
    qed
  qed
  then show ?thesis
    unfolding reconcile_payment_exemptions_def by (rule fold_unchanged)
qed

end
