(* ===== verification/MT_Pricing.thy ===== *)
theory MT_Pricing
  imports MT_Payments "HOL-Library.Multiset"
begin

text \<open>
  Valuation of compressed ore against the Jita buy orders (\<open>pricing.py\<close>). The HTTP
  session is the parameter \<open>fetch\<close>: the page it returns with the page count, or the
  text of the exception. Sums and products of the amounts here have fewer than the 28
  digits of Python's decimal context and are exact; divisions are rounded to it.
\<close>

section \<open>Buy orders\<close>

text \<open>One order of the ESI page; \<open>None\<close> where the JSON object has no such key.\<close>

record order =
  or_price :: "decimal option"
  or_volume_remain :: "decimal option"
  or_location_id :: "nat option"
  or_is_buy_order :: "bool option"

record valuation =
  va_requested :: decimal
  va_priced :: decimal
  va_total :: decimal
  va_weighted :: decimal
  va_complete :: bool
  va_shortfall :: decimal
  va_orders_used :: nat
  va_best_price :: "decimal option"
  va_worst_price :: "decimal option"

record fill_state =
  fs_remaining :: decimal
  fs_total :: decimal
  fs_used :: nat
  fs_best :: "decimal option"
  fs_worst :: "decimal option"

text \<open>The defaults of \<open>order.get("volume_remain", 0)\<close> and \<open>order.get("price", 0)\<close>.\<close>

definition volume :: "order \<Rightarrow> decimal" where
  "volume q = (case or_volume_remain q of None \<Rightarrow> 0 | Some v \<Rightarrow> v)"

definition price :: "order \<Rightarrow> decimal" where
  "price q = (case or_price q of None \<Rightarrow> 0 | Some p \<Rightarrow> p)"

fun fill_orders :: "order list \<Rightarrow> fill_state \<Rightarrow> fill_state" where
  "fill_orders [] s = s"
| "fill_orders (q # qs) s =
     (if fs_remaining s \<le> 0 then s
      else if volume q \<le> 0 \<or> price q \<le> 0 then fill_orders qs s
      else let filled = min (volume q) (fs_remaining s)
           in fill_orders qs
                \<lparr>fs_remaining = fs_remaining s - filled,
                 fs_total = fs_total s + filled * price q,
                 fs_used = fs_used s + 1,
                 fs_best = (if fs_best s = None then Some (price q) else fs_best s),
                 fs_worst = Some (price q)\<rparr>)"

text \<open>\<open>sorted(..., reverse=True)\<close> keeps the order of equal prices.\<close>

definition highest_first :: "order list \<Rightarrow> order list" where
  "highest_first qs = sort_key (\<lambda>q. - price q) qs"

text \<open>\<open>str(KeyError("price"))\<close>.\<close>

definition price_key_error :: string where
  "price_key_error = CHR 0x27 # ''price'' @ [CHR 0x27]"

definition weighted_buy_value :: "order list \<Rightarrow> decimal \<Rightarrow> string + valuation" where
  "weighted_buy_value orders quantity =
     (if list_ex (\<lambda>q. or_price q = None) orders then Inl price_key_error
      else
       (let requested = max 0 quantity;
            s = fill_orders (highest_first orders)
                  \<lparr>fs_remaining = requested, fs_total = 0, fs_used = 0, fs_best = None,
                   fs_worst = None\<rparr>;
            priced = requested - fs_remaining s;
            weighted = (if 0 < priced then d_div (fs_total s) priced else 0)
        in Inr \<lparr>va_requested = requested, va_priced = priced,
                va_total = quantize 2 (fs_total s), va_weighted = quantize 8 weighted,
                va_complete = (fs_remaining s \<le> 0), va_shortfall = fs_remaining s,
                va_orders_used = fs_used s, va_best_price = fs_best s,
                va_worst_price = fs_worst s\<rparr>))"

section \<open>The order book of one type\<close>

text \<open>The ESI client: the pages of one type's orders, restricted to the station.\<close>

record order_page =
  pg_pages :: nat
  pg_orders :: "order list"

type_synonym market = "nat \<Rightarrow> nat \<Rightarrow> nat \<Rightarrow> string + order_page"

fun fetch_pages :: "(nat \<Rightarrow> string + order_page) \<Rightarrow> nat list \<Rightarrow> string + order list" where
  "fetch_pages fetch [] = Inr []"
| "fetch_pages fetch (n # ns) =
     bind_result (fetch n) (\<lambda>page.
       bind_result (fetch_pages fetch ns) (\<lambda>rest. Inr (pg_orders page @ rest)))"

definition at_station :: "nat \<Rightarrow> order \<Rightarrow> bool" where
  "at_station location q \<longleftrightarrow>
     (case or_location_id q of None \<Rightarrow> 0 | Some l \<Rightarrow> l) = location
     \<and> (case or_is_buy_order q of None \<Rightarrow> True | Some b \<Rightarrow> b)"

definition client_orders :: "market \<Rightarrow> nat \<Rightarrow> nat \<Rightarrow> nat \<Rightarrow> string + order list" where
  "client_orders fetch type_id region location =
     bind_result (fetch type_id region 1) (\<lambda>first.
       bind_result (fetch_pages (fetch type_id region) [2..<pg_pages first + 1]) (\<lambda>rest.
         Inr (filter (at_station location) (pg_orders first @ rest))))"

section \<open>Price snapshots of an audit\<close>

definition PRICE_CACHE_HOURS :: nat where
  "PRICE_CACHE_HOURS = 24"

definition cached_snapshot :: "nat \<Rightarrow> mt_db \<Rightarrow> price_snapshot option" where
  "cached_snapshot type_id d =
     (let cutoff = wall d - hours PRICE_CACHE_HOURS;
          usable = filter (\<lambda>s. ps_type_id s = type_id \<and> ps_complete s \<and> cutoff \<le> ps_fetched_at s
                     \<and> ps_region_id s = cf_region_id (config d)
                     \<and> ps_location_id s = cf_location_id (config d)) (rows (snapshots d))
      in case sort_key (\<lambda>s. - ps_fetched_at s) usable of [] \<Rightarrow> None | s # _ \<Rightarrow> Some s)"

record price_need =
  pn_type_id :: nat
  pn_name :: string
  pn_quantity :: decimal

definition snapshot_row :: "nat \<Rightarrow> price_need \<Rightarrow> mt_db \<Rightarrow> decimal \<Rightarrow> decimal \<Rightarrow> decimal \<Rightarrow> decimal \<Rightarrow>
    price_source \<Rightarrow> bool \<Rightarrow> price_evidence \<Rightarrow> nat \<Rightarrow> price_snapshot" where
  "snapshot_row run need d requested priced unit_price amount source filled evidence pk =
     \<lparr>ps_pk = pk, ps_audit_run = run, ps_type_id = pn_type_id need, ps_type_name = pn_name need,
      ps_requested = requested, ps_priced = priced, ps_unit_price = unit_price, ps_total = amount,
      ps_region_id = cf_region_id (config d), ps_location_id = cf_location_id (config d),
      ps_source = source, ps_complete = filled, ps_fetched_at = wall d, ps_evidence = evidence\<rparr>"

text \<open>One turn of the loop: the row to create and the warning it raises.\<close>

definition snapshot_for ::
  "market \<Rightarrow> nat \<Rightarrow> price_need \<Rightarrow> mt_db \<Rightarrow> (nat \<Rightarrow> price_snapshot) \<times> audit_warning list" where
  "snapshot_for fetch run need d =
     (case bind_result (client_orders fetch (pn_type_id need) (cf_region_id (config d))
                          (cf_location_id (config d)))
             (\<lambda>orders. bind_result (weighted_buy_value orders (pn_quantity need))
                (\<lambda>v. Inr (orders, v))) of
        Inr (orders, v) \<Rightarrow>
          (snapshot_row run need d (va_requested v) (va_priced v) (va_weighted v) (va_total v)
             EsiDepth (va_complete v)
             (DepthEvidence (length orders) (va_orders_used v) (va_best_price v) (va_worst_price v)
                (va_shortfall v)),
           if va_complete v then [] else [InsufficientDepth (pn_name need) (va_shortfall v)])
      | Inl message \<Rightarrow>
          (case cached_snapshot (pn_type_id need) d of
             Some c \<Rightarrow>
               (snapshot_row run need d (pn_quantity need) (pn_quantity need) (ps_unit_price c)
                  (quantize_even 2 (pn_quantity need * ps_unit_price c)) (CachedFrom (ps_fetched_at c))
                  False (FallbackEvidence (ps_pk c) message),
                [StalePrice (pn_name need) message])
           | None \<Rightarrow>
               (snapshot_row run need d (pn_quantity need) 0 0 0 Unavailable False
                  (ErrorEvidence message),
                [NoPrice (pn_name need) message])))"

fun snapshot_loop :: "market \<Rightarrow> nat \<Rightarrow> price_need list \<Rightarrow> mt_db \<Rightarrow>
    (nat \<times> price_snapshot) list \<times> audit_warning list \<times> mt_db" where
  "snapshot_loop fetch run [] d = ([], [], d)"
| "snapshot_loop fetch run (need # needs) d =
     (let (row, warn) = snapshot_for fetch run need d;
          d1 = d\<lparr>snapshots := create row (snapshots d)\<rparr>;
          (made, warns, d2) = snapshot_loop fetch run needs d1
      in ((pn_type_id need, row (next_pk (snapshots d))) # made, warn @ warns, d2))"

definition create_price_snapshots :: "market \<Rightarrow> nat \<Rightarrow> price_need list \<Rightarrow> mt_db \<Rightarrow>
    (nat \<times> price_snapshot) list \<times> audit_warning list \<times> mt_db" where
  "create_price_snapshots fetch run needs d =
     snapshot_loop fetch run (sort_key pn_type_id needs) d"

section \<open>The greedy valuation\<close>

text \<open>What an order offers: nothing when its volume or its price is not positive.\<close>

definition offer :: "order \<Rightarrow> decimal" where
  "offer q = (if volume q \<le> 0 \<or> price q \<le> 0 then 0 else volume q)"

definition offered :: "order list \<Rightarrow> decimal" where
  "offered qs = sum_list (map offer qs)"

lemma offer_nonneg [simp]: "0 \<le> offer q"
  by (simp add: offer_def)

lemma offered_nonneg: "0 \<le> offered qs"
  unfolding offered_def by (rule sum_list_pos_nonneg) simp

lemma fill_orders_remaining:
  "0 \<le> fs_remaining s \<Longrightarrow> fs_remaining (fill_orders qs s) = max 0 (fs_remaining s - offered qs)"
proof (induction qs arbitrary: s)
  case Nil
  then show ?case by (simp add: offered_def)
next
  case (Cons q qs)
  have split: "offered (q # qs) = offer q + offered qs"
    by (simp add: offered_def)
  show ?case
  proof (cases "fs_remaining s \<le> 0")
    case True
    with Cons.prems show ?thesis
      using offered_nonneg [of "q # qs"] by simp
  next
    case False
    show ?thesis
    proof (cases "volume q \<le> 0 \<or> price q \<le> 0")
      case True
      with False Cons show ?thesis
        by (simp add: split offer_def)
    next
      case usable: False
      with False Cons show ?thesis
        using offered_nonneg [of qs]
        by (auto simp: split offer_def Let_def min_def max_def)
    qed
  qed
qed

text \<open>
  The value of an allotment is bounded by its marginal price: every unit counts at
  most \<open>w\<close>, plus what the orders above \<open>w\<close> pay beyond it.
\<close>

definition premium :: "decimal \<Rightarrow> order list \<Rightarrow> decimal" where
  "premium w qs = sum_list (map (\<lambda>q. offer q * max 0 (price q - w)) qs)"

lemma premium_nonneg: "0 \<le> premium w qs"
  unfolding premium_def by (rule sum_list_pos_nonneg) simp

lemma premium_below:
  "(\<And>q. q \<in> set qs \<Longrightarrow> price q \<le> w) \<Longrightarrow> premium w qs = 0"
  by (induction qs) (auto simp: premium_def)

text \<open>The total of the greedy filling, against the price of the last order used.\<close>

lemma fill_orders_total:
  assumes "sorted_wrt (\<lambda>p q. price q \<le> price p) qs" and "0 < fs_remaining s"
  shows "(fill_orders qs s = s \<and> offered qs = 0) \<or>
    (\<exists>w. fs_worst (fill_orders qs s) = Some w \<and> 0 < w \<and> w \<in> price ` set qs
      \<and> fs_total (fill_orders qs s) - fs_total s =
          premium w qs + w * (fs_remaining s - fs_remaining (fill_orders qs s)))"
  using assms
proof (induction qs arbitrary: s)
  case Nil
  then show ?case by (simp add: offered_def)
next
  case (Cons q qs)
  have below: "\<And>p. p \<in> set qs \<Longrightarrow> price p \<le> price q"
    using Cons.prems(1) by simp
  show ?case
  proof (cases "volume q \<le> 0 \<or> price q \<le> 0")
    case True
    have same: "offer q = 0" "fill_orders (q # qs) s = fill_orders qs s"
      using True Cons.prems(2) by (auto simp: offer_def)
    have "(fill_orders qs s = s \<and> offered qs = 0) \<or>
      (\<exists>w. fs_worst (fill_orders qs s) = Some w \<and> 0 < w \<and> w \<in> price ` set qs
        \<and> fs_total (fill_orders qs s) - fs_total s =
            premium w qs + w * (fs_remaining s - fs_remaining (fill_orders qs s)))"
      using Cons.IH Cons.prems by simp
    moreover have "offered (q # qs) = offered qs" "premium w (q # qs) = premium w qs" for w
      by (simp_all add: offered_def premium_def same(1))
    ultimately show ?thesis
      unfolding same(2) by auto
  next
    case False
    let ?f = "min (volume q) (fs_remaining s)"
    let ?s = "\<lparr>fs_remaining = fs_remaining s - ?f, fs_total = fs_total s + ?f * price q,
        fs_used = fs_used s + 1, fs_best = (if fs_best s = None then Some (price q) else fs_best s),
        fs_worst = Some (price q)\<rparr>"
    have step: "fill_orders (q # qs) s = fill_orders qs ?s" and off: "offer q = volume q"
      using False Cons.prems(2) by (simp_all add: Let_def offer_def)
    have flat: "premium (price q) (q # qs) = 0"
      using below by (intro premium_below) auto
    show ?thesis
    proof (cases "fs_remaining ?s \<le> 0")
      case True
      then have "fill_orders qs ?s = ?s"
        by (cases qs) simp_all
      then show ?thesis
        using False flat by (auto simp: step simp del: fill_orders.simps)
    next
      case more: False
      then have full: "?f = volume q"
        by auto
      have "(fill_orders qs ?s = ?s \<and> offered qs = 0) \<or>
        (\<exists>w. fs_worst (fill_orders qs ?s) = Some w \<and> 0 < w \<and> w \<in> price ` set qs
          \<and> fs_total (fill_orders qs ?s) - fs_total ?s =
              premium w qs + w * (fs_remaining ?s - fs_remaining (fill_orders qs ?s)))"
        using Cons.IH [of ?s] Cons.prems more by simp
      then show ?thesis
      proof
        assume "fill_orders qs ?s = ?s \<and> offered qs = 0"
        then have "fill_orders (q # qs) s = ?s"
          by (simp only: step)
        then show ?thesis
          using False flat by (intro disjI2 exI [of _ "price q"]) simp
      next
        assume "\<exists>w. fs_worst (fill_orders qs ?s) = Some w \<and> 0 < w \<and> w \<in> price ` set qs
          \<and> fs_total (fill_orders qs ?s) - fs_total ?s =
              premium w qs + w * (fs_remaining ?s - fs_remaining (fill_orders qs ?s))"
        then obtain w where w: "fs_worst (fill_orders qs ?s) = Some w" "0 < w" "w \<in> price ` set qs"
          and tot: "fs_total (fill_orders qs ?s) - (fs_total s + ?f * price q) =
              premium w qs + w * (fs_remaining s - ?f - fs_remaining (fill_orders qs ?s))"
          by auto
        have "premium w (q # qs) = ?f * (price q - w) + premium w qs"
          using below w(3) full by (auto simp: premium_def off)
        then have "fs_total (fill_orders qs ?s) - fs_total s =
            premium w (q # qs) + w * (fs_remaining s - fs_remaining (fill_orders qs ?s))"
          using tot by (simp add: algebra_simps)
        then show ?thesis
          unfolding step using w by (intro disjI2 exI [of _ w]) auto
      qed
    qed
  qed
qed

section \<open>Properties of the valuation\<close>

lemma offered_highest_first [simp]: "offered (highest_first qs) = offered qs"
  by (simp add: offered_def highest_first_def sum_list_sort_key)

lemma premium_highest_first [simp]: "premium w (highest_first qs) = premium w qs"
  by (simp add: premium_def highest_first_def sum_list_sort_key)

lemma sorted_highest_first: "sorted_wrt (\<lambda>p q. price q \<le> price p) (highest_first qs)"
proof -
  have "sorted (map (\<lambda>q. - price q) (highest_first qs))"
    unfolding highest_first_def by (rule sorted_sort_key)
  then show ?thesis
    by (simp add: sorted_map)
qed

lemma valuation_fields:
  assumes "weighted_buy_value orders quantity = Inr v"
  obtains s where "s = fill_orders (highest_first orders)
        \<lparr>fs_remaining = max 0 quantity, fs_total = 0, fs_used = 0, fs_best = None, fs_worst = None\<rparr>"
    and "va_requested v = max 0 quantity" and "va_priced v = max 0 quantity - fs_remaining s"
    and "va_total v = quantize 2 (fs_total s)" and "va_shortfall v = fs_remaining s"
    and "va_complete v \<longleftrightarrow> fs_remaining s \<le> 0"
  using assms by (auto simp: weighted_buy_value_def Let_def split: if_splits)

lemma weighted_buy_value_outcome:
  assumes "weighted_buy_value orders quantity = Inr v"
  shows "va_requested v = max 0 quantity
    \<and> va_priced v = min (max 0 quantity) (offered orders)
    \<and> va_shortfall v = va_requested v - va_priced v
    \<and> (va_complete v \<longleftrightarrow> max 0 quantity \<le> offered orders)"
proof -
  from assms obtain s where s: "s = fill_orders (highest_first orders)
        \<lparr>fs_remaining = max 0 quantity, fs_total = 0, fs_used = 0, fs_best = None, fs_worst = None\<rparr>"
    and v: "va_requested v = max 0 quantity" "va_priced v = max 0 quantity - fs_remaining s"
      "va_shortfall v = fs_remaining s" "va_complete v \<longleftrightarrow> fs_remaining s \<le> 0"
    by (rule valuation_fields)
  have "fs_remaining s = max 0 (max 0 quantity - offered orders)"
    unfolding s by (subst fill_orders_remaining) simp_all
  with v show ?thesis
    by (auto simp: min_def max_def)
qed

text \<open>
  The valuation prices as much of the quantity as the buy orders of positive
  price and volume offer, no more and no less; what is left is the shortfall, and the
  result is complete exactly when nothing is left.
\<close>

theorem weighted_buy_value_fills:
  assumes "weighted_buy_value orders quantity = Inr v"
  shows "va_requested v = max 0 quantity
    \<and> va_priced v = min (max 0 quantity) (offered orders)
    \<and> va_shortfall v = va_requested v - va_priced v
    \<and> (va_complete v \<longleftrightarrow> max 0 quantity \<le> offered orders)"
  using assms by (rule weighted_buy_value_outcome)

lemma quantize_monotone: "x \<le> y \<Longrightarrow> 0 \<le> y \<Longrightarrow> quantize n x \<le> quantize n y"
proof (cases "0 \<le> x")
  case False
  then have "x * 10 ^ n \<le> 0"
    by (simp add: mult_le_0_iff)
  then have "0 \<le> \<lfloor>(- x) * 10 ^ n + 1 / 2\<rfloor>"
    by (simp add: le_floor_iff)
  then have "quantize n x \<le> 0"
    using False by (simp add: quantize_def)
  moreover assume "0 \<le> y"
  then have "0 \<le> quantize n y"
    by (rule quantize_nonneg)
  ultimately show ?thesis by simp
qed (simp add: quantize_mono)

lemma fills_value_bound:
  assumes "\<And>q x. (q, x) \<in> set fills \<Longrightarrow> 0 \<le> x \<and> x \<le> max 0 (volume q)" and "0 < w"
  shows "sum_list (map (\<lambda>(q, x). x * price q) fills) \<le>
    premium w (map fst fills) + w * sum_list (map snd fills)"
  using assms(1)
proof (induction fills)
  case Nil
  then show ?case by (simp add: premium_def)
next
  case (Cons f fills)
  obtain q x where f: "f = (q, x)"
    by fastforce
  have x: "0 \<le> x" "x \<le> max 0 (volume q)"
    using Cons.prems [of q x] f by auto
  have "x * (price q - w) \<le> offer q * max 0 (price q - w)"
  proof (cases "price q \<le> w")
    case True
    then have "x * (price q - w) \<le> 0"
      using x(1) by (simp add: mult_nonneg_nonpos)
    then show ?thesis
      using True by simp
  next
    case False
    then have "x \<le> offer q"
      using x assms(2) by (auto simp: offer_def max_def split: if_splits)
    then show ?thesis
      using False by (simp add: mult_right_mono)
  qed
  moreover have "sum_list (map (\<lambda>(q, x). x * price q) fills) \<le>
      premium w (map fst fills) + w * sum_list (map snd fills)"
    using Cons by auto
  ultimately show ?case
    by (simp add: f premium_def algebra_simps)
qed

text \<open>
  A way of selling to the orders, in any sequence: how much each of them takes, within
  its volume. It is stated without a look at how the valuation goes about it.
\<close>

definition sells_to :: "order list \<Rightarrow> (order \<times> decimal) list \<Rightarrow> bool" where
  "sells_to orders fills \<longleftrightarrow>
     mset (map fst fills) = mset orders \<and> (\<forall>(q, x) \<in> set fills. 0 \<le> x \<and> x \<le> max 0 (volume q))"

definition sold :: "(order \<times> decimal) list \<Rightarrow> decimal" where
  "sold fills = sum_list (map snd fills)"

definition proceeds :: "(order \<times> decimal) list \<Rightarrow> decimal" where
  "proceeds fills = sum_list (map (\<lambda>(q, x). x * price q) fills)"

text \<open>The filling is such a way: what it books can be read off order by order.\<close>

lemma fill_orders_attained:
  assumes "0 \<le> fs_remaining s"
  shows "\<exists>fills. map fst fills = qs \<and> (\<forall>(q, x) \<in> set fills. 0 \<le> x \<and> x \<le> max 0 (volume q))
    \<and> sold fills = fs_remaining s - fs_remaining (fill_orders qs s)
    \<and> proceeds fills = fs_total (fill_orders qs s) - fs_total s"
  using assms
proof (induction qs arbitrary: s)
  case Nil
  then show ?case by (simp add: sold_def proceeds_def)
next
  case (Cons q qs)
  let ?x = "if fs_remaining s \<le> 0 \<or> volume q \<le> 0 \<or> price q \<le> 0 then 0
            else min (volume q) (fs_remaining s)"
  obtain s' where step: "fill_orders (q # qs) s = fill_orders qs s'"
    and s': "fs_remaining s' = fs_remaining s - ?x" "fs_total s' = fs_total s + ?x * price q"
  proof (cases "fs_remaining s \<le> 0 \<or> volume q \<le> 0 \<or> price q \<le> 0")
    case True
    have "fill_orders (q # qs) s = fill_orders qs s"
      using True by (cases qs) auto
    with True show thesis by (intro that [of s]) simp_all
  next
    case False
    then show thesis
      using that [of "\<lparr>fs_remaining = fs_remaining s - ?x, fs_total = fs_total s + ?x * price q,
        fs_used = fs_used s + 1, fs_best = (if fs_best s = None then Some (price q) else fs_best s),
        fs_worst = Some (price q)\<rparr>"] by (simp add: Let_def)
  qed
  have "0 \<le> ?x" "?x \<le> max 0 (volume q)" "0 \<le> fs_remaining s'"
    using Cons.prems by (auto simp: s'(1))
  moreover from this(3) obtain fills where "map fst fills = qs"
      "\<forall>(q, x) \<in> set fills. 0 \<le> x \<and> x \<le> max 0 (volume q)"
      "sold fills = fs_remaining s' - fs_remaining (fill_orders qs s')"
      "proceeds fills = fs_total (fill_orders qs s') - fs_total s'"
    using Cons.IH by blast
  ultimately show ?case
    unfolding step
    by (intro exI [of _ "(q, ?x) # fills"]) (simp add: sold_def proceeds_def s' del: fill_orders.simps)
qed

lemma premium_mset: "premium w qs = (\<Sum>q \<in># mset qs. offer q * max 0 (price q - w))"
  by (induction qs) (simp_all add: premium_def)

lemma offered_mset: "offered qs = (\<Sum>q \<in># mset qs. offer q)"
  by (induction qs) (simp_all add: offered_def)

lemma premium_offered:
  "(\<Sum>q \<leftarrow> qs. offer q * max 0 (price q - w) + w * offer q) = premium w qs + w * offered qs"
  by (induction qs) (simp_all add: premium_def offered_def algebra_simps)

text \<open>No way of selling brings in more than the marginal price and the premiums allow.\<close>

lemma sells_to_bound:
  assumes "sells_to orders fills" and "0 < w"
  shows "proceeds fills \<le> premium w orders + w * sold fills"
    and "proceeds fills \<le> premium w orders + w * offered orders"
proof -
  have p: "premium w (map fst fills) = premium w orders"
    using assms(1) by (simp add: premium_mset sells_to_def del: mset_map)
  have o: "offered (map fst fills) = offered orders"
    using assms(1) by (simp add: offered_mset sells_to_def del: mset_map)
  have within: "\<And>q x. (q, x) \<in> set fills \<Longrightarrow> 0 \<le> x \<and> x \<le> max 0 (volume q)"
    using assms(1) by (auto simp: sells_to_def)
  show "proceeds fills \<le> premium w orders + w * sold fills"
    using fills_value_bound [OF within assms(2), of fills] by (simp add: p proceeds_def sold_def)
  have "proceeds fills \<le> sum_list (map (\<lambda>q. offer q * price q) (map fst fills))"
    unfolding proceeds_def map_map
  proof (rule sum_list_mono)
    fix f assume member: "f \<in> set fills"
    obtain q x where f: "f = (q, x)"
      by fastforce
    then have "0 \<le> x" "x \<le> max 0 (volume q)"
      using within [of q x] member by simp_all
    then have "x * price q \<le> offer q * price q"
      by (cases "price q \<le> 0") (auto simp: offer_def mult_nonneg_nonpos mult_right_mono max_def split: if_splits)
    then show "(case f of (q, x) \<Rightarrow> x * price q) \<le> ((\<lambda>q. offer q * price q) \<circ> fst) f"
      by (simp add: f)
  qed
  also have "\<dots> \<le> sum_list (map (\<lambda>q. offer q * max 0 (price q - w) + w * offer q) (map fst fills))"
  proof (rule sum_list_mono)
    fix q
    have "offer q * (price q - w) \<le> offer q * max 0 (price q - w)"
      by (intro mult_left_mono) simp_all
    then show "offer q * price q \<le> offer q * max 0 (price q - w) + w * offer q"
      by (simp add: algebra_simps)
  qed
  also have "\<dots> = premium w (map fst fills) + w * offered (map fst fills)"
    by (rule premium_offered)
  finally show "proceeds fills \<le> premium w orders + w * offered orders"
    by (simp add: p o)
qed

lemma sells_to_nothing:
  assumes "sells_to orders fills" and "sold fills \<le> 0"
  shows "proceeds fills = 0"
proof -
  have "\<forall>f \<in> set fills. 0 \<le> snd f"
    using assms(1) by (auto simp: sells_to_def)
  moreover from this have "sum_list (map snd fills) = 0"
    using assms(2) by (intro antisym sum_list_pos_nonneg) (auto simp: sold_def)
  ultimately have "\<forall>f \<in> set fills. snd f = 0"
    by (subst (asm) sum_list_nonneg_eq_0_iff) auto
  then show ?thesis
    unfolding proceeds_def by (induction fills) auto
qed

lemma premium_nothing:
  assumes "offered orders = 0"
  shows "premium w orders = 0"
proof -
  have "\<forall>q \<in> set orders. offer q = 0"
    using assms unfolding offered_def by (subst (asm) sum_list_nonneg_eq_0_iff) auto
  then show ?thesis
    by (induction orders) (simp_all add: premium_def)
qed

text \<open>
  C10. The greedy valuation is the exact maximum: its total is what some way of selling
  the priced quantity to these orders, within the volume of each, brings in, and no way
  of selling at most the requested quantity brings in more.
\<close>

theorem weighted_buy_value_optimal:
  assumes "weighted_buy_value orders quantity = Inr v"
  shows "(\<exists>fills. sells_to orders fills \<and> sold fills = va_priced v
        \<and> va_total v = quantize 2 (proceeds fills))
    \<and> va_priced v \<le> max 0 quantity
    \<and> (\<forall>fills. sells_to orders fills \<and> sold fills \<le> max 0 quantity \<longrightarrow>
          quantize 2 (proceeds fills) \<le> va_total v)"
proof -
  let ?s0 = "\<lparr>fs_remaining = max 0 quantity, fs_total = 0, fs_used = 0, fs_best = None, fs_worst = None\<rparr>"
  from assms(1) obtain s where s: "s = fill_orders (highest_first orders) ?s0"
    and v: "va_priced v = max 0 quantity - fs_remaining s" "va_total v = quantize 2 (fs_total s)"
    by (rule valuation_fields)
  obtain best where best: "map fst best = highest_first orders"
      "\<forall>(q, x) \<in> set best. 0 \<le> x \<and> x \<le> max 0 (volume q)"
      "sold best = va_priced v" "proceeds best = fs_total s"
    using fill_orders_attained [of ?s0 "highest_first orders"] by (auto simp: s v(1))
  have "sells_to orders best"
    using best(1,2) by (simp add: sells_to_def highest_first_def)
  moreover have priced: "va_priced v = min (max 0 quantity) (offered orders)"
    using weighted_buy_value_outcome [OF assms] by simp
  moreover have "quantize 2 (proceeds fills) \<le> va_total v"
    if fills: "sells_to orders fills" "sold fills \<le> max 0 quantity" for fills
  proof -
    have "proceeds fills \<le> fs_total s \<and> 0 \<le> fs_total s"
    proof (cases "0 < quantity")
      case False
      then have "s = ?s0"
        unfolding s by (cases "highest_first orders") simp_all
      then show ?thesis
        using False sells_to_nothing [OF fills(1)] fills(2) by simp
    next
      case True
      then consider (none) "s = ?s0" "offered orders = 0"
        | (some) w where "0 < w" "fs_total s = premium w orders + w * va_priced v"
        using fill_orders_total [OF sorted_highest_first, of ?s0 orders] v(1)
        by (auto simp: s simp del: fill_orders.simps)
      then show ?thesis
      proof cases
        case none
        then show ?thesis
          using sells_to_bound(2) [OF fills(1), of 1] premium_nothing by simp
      next
        case some
        have "w * sold fills \<le> w * max 0 quantity"
          using some(1) fills(2) by simp
        moreover have "0 \<le> premium w orders + w * va_priced v"
          using some(1) priced premium_nonneg [of w orders] offered_nonneg [of orders] by simp
        ultimately show ?thesis
          using sells_to_bound [OF fills(1) some(1)] some(2) unfolding priced by (auto simp: min_def)
      qed
    qed
    then show ?thesis
      unfolding v(2) by (intro quantize_monotone) simp_all
  qed
  ultimately show ?thesis
    using best(3,4) v(2) by auto
qed

section \<open>Properties of the snapshots\<close>

lemma snapshot_for_row:
  assumes "snapshot_for fetch run need d = (row, warn)"
  shows "ps_pk (row pk) = pk" and "ps_type_id (row pk) = pn_type_id need"
    and "length warn = (if ps_complete (row pk) then 0 else 1)"
    and "ps_complete (row pk) \<Longrightarrow> \<exists>orders.
           client_orders fetch (pn_type_id need) (cf_region_id (config d)) (cf_location_id (config d)) = Inr orders
           \<and> max 0 (pn_quantity need) \<le> offered orders \<and> ps_priced (row pk) = max 0 (pn_quantity need)"
proof -
  let ?orders = "client_orders fetch (pn_type_id need) (cf_region_id (config d)) (cf_location_id (config d))"
  show "ps_pk (row pk) = pk" "ps_type_id (row pk) = pn_type_id need"
    "length warn = (if ps_complete (row pk) then 0 else 1)"
    using assms by (auto simp: snapshot_for_def snapshot_row_def split: sum.splits option.splits if_splits)
  assume full: "ps_complete (row pk)"
  then obtain orders v where o1: "?orders = Inr orders"
    and o2: "weighted_buy_value orders (pn_quantity need) = Inr v"
    and "va_complete v" and "ps_priced (row pk) = va_priced v"
    using assms
    by (auto simp: snapshot_for_def snapshot_row_def bind_result_def
        split: sum.splits option.splits if_splits)
  then show "\<exists>orders. ?orders = Inr orders \<and> max 0 (pn_quantity need) \<le> offered orders
      \<and> ps_priced (row pk) = max 0 (pn_quantity need)"
    using weighted_buy_value_outcome [OF o2] by (intro exI [of _ orders]) auto
qed

lemma snapshot_loop_rows:
  "snapshot_loop fetch run needs d = (made, warns, d') \<Longrightarrow>
     map fst made = map pn_type_id needs
     \<and> rows (snapshots d') = rows (snapshots d) @ map snd made
     \<and> d' = d\<lparr>snapshots := snapshots d'\<rparr>
     \<and> length warns = length (filter (\<lambda>m. \<not> ps_complete (snd m)) made)
     \<and> (\<forall>m \<in> set made. ps_complete (snd m) \<longrightarrow> (\<exists>need \<in> set needs. \<exists>orders.
          fst m = pn_type_id need
          \<and> client_orders fetch (pn_type_id need) (cf_region_id (config d)) (cf_location_id (config d)) = Inr orders
          \<and> max 0 (pn_quantity need) \<le> offered orders
          \<and> ps_priced (snd m) = max 0 (pn_quantity need)))"
proof (induction needs arbitrary: d made warns d')
  case Nil
  then show ?case by simp
next
  case (Cons need needs)
  obtain row warn where step: "snapshot_for fetch run need d = (row, warn)"
    by fastforce
  let ?d1 = "d\<lparr>snapshots := create row (snapshots d)\<rparr>"
  let ?row = "row (next_pk (snapshots d))"
  obtain made' warns' d2 where rest: "snapshot_loop fetch run needs ?d1 = (made', warns', d2)"
    by (metis prod_cases3)
  have eqs: "made = (pn_type_id need, ?row) # made'" "warns = warn @ warns'" "d' = d2"
    using Cons.prems step rest by (simp_all add: Let_def)
  note r = snapshot_for_row [OF step, where pk = "next_pk (snapshots d)"]
  have cfg: "config ?d1 = config d"
    by simp
  show ?case
    using Cons.IH [OF rest] r unfolding eqs cfg
    by (auto simp: rows_create)
qed

text \<open>
  Prices are never taken on trust: every compressed type needed gets one snapshot
  of this audit, in order of type; a snapshot is complete only when the order book was
  fetched and its depth covered the whole quantity, and each one that is not leaves
  exactly one warning, so that an audit without pricing warnings priced everything.
\<close>

theorem price_snapshots_complete_or_warned:
  assumes "create_price_snapshots fetch run needs d = (made, warns, d')"
  shows "map fst made = sort (map pn_type_id needs)
    \<and> rows (snapshots d') = rows (snapshots d) @ map snd made
    \<and> length warns = length (filter (\<lambda>m. \<not> ps_complete (snd m)) made)
    \<and> (\<forall>m \<in> set made. ps_complete (snd m) \<longrightarrow> (\<exists>need \<in> set needs. \<exists>orders.
          fst m = pn_type_id need
          \<and> client_orders fetch (pn_type_id need) (cf_region_id (config d)) (cf_location_id (config d)) = Inr orders
          \<and> max 0 (pn_quantity need) \<le> offered orders
          \<and> ps_priced (snd m) = max 0 (pn_quantity need)))"
proof -
  have "map pn_type_id (sort_key pn_type_id needs) = sort (map pn_type_id needs)"
    using sort_key_map [of needs "\<lambda>x. x" pn_type_id pn_type_id] by simp
  then show ?thesis
    using snapshot_loop_rows [OF assms [unfolded create_price_snapshots_def]] by simp
qed

end
