(* ===== verification/MT_Samples.thy ===== *)
theory MT_Samples
  imports MT_Reconcile MT_Pricing
begin

text \<open>
  A small database on which the properties of the payment services are exercised:
  one extraction, two unpaid bills of the account 7 (100 and 200 ISK), one bill of the
  account 8 that only a debit made, and a wallet payment of 250 ISK by account 7.
\<close>

section \<open>The sample\<close>

definition sample_config :: tax_configuration where
  "sample_config = \<lparr>cf_default_tax_rate = 10, cf_mining_window_days = 3,
     cf_audit_interval_hours = 24, cf_combine_by_default = True, cf_exemption_state_hash = '''',
     cf_exemption_rechecked_at = None, cf_small_balance_threshold = 0, cf_region_id = 10000002,
     cf_location_id = 60003760, cf_payment_character_id = 0, cf_payment_character_name = '''',
     cf_payment_corporation_id = 0, cf_payment_corporation_name = '''', cf_default_recipients = [],
     cf_notify_member_new_tax = True, cf_notify_member_payment_decision = True,
     cf_notify_director_unpaid = True, cf_notify_director_missing_data = True\<rparr>"

definition sample_period :: tax_period where
  "sample_period = \<lparr>tx_pk = 31, tx_source_started_at = 0, tx_structure_id = 1001,
     tx_structure_name = ''Athanor'', tx_corporation_id = 5, tx_corporation_name = ''Corp'',
     tx_moon_id = Some 1, tx_moon_name = ''Moon'', tx_extraction_started_at = 0, tx_pop_at = 10,
     tx_closes_at = 100, tx_due_at = 1000, tx_tax_rate = 10,
     tx_allowed_recipients = [\<lparr>re_kind = KindCorporation, re_id = Some 55, re_name = ''Tax''\<rparr>],
     tx_status = PeriodOpen, tx_gross_value = 3000, tx_tax_due = 350, tx_approved_paid = 0,
     tx_last_audit_run = None, tx_updated_at = 0\<rparr>"

definition sample_bill :: "nat \<Rightarrow> nat \<Rightarrow> decimal \<Rightarrow> decimal \<Rightarrow> decimal \<Rightarrow> tax_assessment" where
  "sample_bill k user gross calculated adj = \<lparr>ta_pk = k, ta_period = 31, ta_billing_key = ''user:'',
     ta_auth_user = Some user, ta_character_id = None, ta_display_name = ''Pilot'',
     ta_combined = True, ta_gross_value = gross, ta_calculated = calculated,
     ta_adjustment_total = adj, ta_tax_due = calculated + adj, ta_approved_paid = 0,
     ta_status = BillOpen, ta_due_at = 1000, ta_first_notified_at = None, ta_updated_at = 0\<rparr>"

definition sample_debit :: adjustment where
  "sample_debit = \<lparr>aj_pk = 41, aj_assessment = 23, aj_kind = Correction, aj_amount = 50,
     aj_reason = ''Missed ledger'', aj_created_by = Some 2, aj_reversed_at = None,
     aj_reversed_by = None, aj_reversal_reason = ''''\<rparr>"

definition sample_payment :: payment where
  "sample_payment = \<lparr>pc_pk = 11, pc_source = Wallet, pc_source_key = ''wallet:1'', pc_source_id = Some 1,
     pc_payer_id = Some 90, pc_payer_name = ''Pilot'', pc_auth_user = Some 7, pc_recipient_id = 55,
     pc_recipient_name = ''Tax'', pc_amount = 250, pc_occurred_at = 86400, pc_reference = ''tax'',
     pc_evidence = None, pc_status = PayPending, pc_audit = None, pc_reviewed_by = None,
     pc_reviewed_at = None, pc_review_note = ''''\<rparr>"

definition sample_exemption :: tax_exemption where
  "sample_exemption = \<lparr>te_pk = 4, te_auth_user = Some 7, te_character_id = None,
     te_effective_from = 0, te_effective_until = None, te_reason = ''Logistics'', te_active = True\<rparr>"

definition sample_db :: mt_db where
  "sample_db = \<lparr>periods = \<lparr>rows = [sample_period], next_pk = 32\<rparr>,
     assessments = \<lparr>rows = [sample_bill 21 7 1000 100 0, sample_bill 22 7 2000 200 0,
                            sample_bill 23 8 0 0 50], next_pk = 24\<rparr>,
     adjustments = \<lparr>rows = [sample_debit], next_pk = 42\<rparr>,
     payments = \<lparr>rows = [sample_payment], next_pk = 12\<rparr>,
     allocations = empty_table, lines = empty_table, snapshots = empty_table, audits = empty_table,
     exemptions = [sample_exemption], owners = [(90, 7)], policies = [], recipients = [], rules = [],
     preferences = [], config = sample_config, usernames = (\<lambda>_. ''pilot''), mains = (\<lambda>_. None),
     directors = [2], collate = (\<lambda>_. 0), notified = [],
     outbox = [], wall = 500\<rparr>"

lemmas sample_rows = sample_db_def sample_period_def sample_bill_def sample_debit_def
  sample_payment_def empty_table_def

lemma sample_books: "books sample_db"
  by (simp add: books_def books_except_def refs_sound_def well_keyed_def bill_balanced_def
      period_balanced_def assessments_of_def tax_allocated_def active_adjustment_total_def
      allocated_amount_def allocations_of_def all_paid_def sample_rows)

lemma sample_payment_row: "lookup pc_pk 11 (payments sample_db) = Some sample_payment"
  by (simp add: lookup_def sample_db_def) (simp add: sample_payment_def)

lemma sample_bill_rows:
  "lookup ta_pk 21 (assessments sample_db) = Some (sample_bill 21 7 1000 100 0)"
  "lookup ta_pk 23 (assessments sample_db) = Some (sample_bill 23 8 0 0 50)"
  by (simp_all add: lookup_def sample_db_def sample_bill_def)

lemma sample_sound: "sound sample_db"
proof -
  have "exempt_unfunded sample_db"
    by (simp add: exempt_unfunded_def lookup_def sample_rows)
  then show ?thesis
    by (simp only: sound_def sample_books simp_thms)
qed

lemma sample_payable:
  "payable_bills sample_db sample_payment = [(21, 100), (22, 200)]"
  by (simp add: payable_bills_def payable_def oldest_first_def subject_matches_def accepts_def
      period_of_def lookup_def owed_apart_def truthy_def recipient_allowed_def allowed_ids_def pop_of_def
      sample_rows)

lemma sample_bills_payable:
  "payable sample_db sample_payment = [sample_bill 21 7 1000 100 0, sample_bill 22 7 2000 200 0]"
  "owed_apart 11 sample_db (sample_bill 21 7 1000 100 0) = 100"
  by (simp_all add: payable_def oldest_first_def subject_matches_def accepts_def
      period_of_def lookup_def owed_apart_def truthy_def recipient_allowed_def allowed_ids_def pop_of_def
      sample_rows)

lemma sample_decision:
  assumes "disposition \<in> set [''pending'', ''reject'', ''oldest_carryover'', ''oldest_overage'',
     ''donation'', ''ignore'']"
  obtains p' d' where "decide_payment 11 disposition director memo sample_db = Inr (p', d')"
proof (cases "decide_payment 11 disposition director memo sample_db")
  case (Inl e)
  then show thesis
    using assms
    by (simp add: decide_payment_def sample_payment_row decide_cleared_errors sample_payment_def
        del: list.set split: prod.splits)
next
  case (Inr r)
  then show thesis using that by (cases r) simp
qed

lemma sample_shares:
  assumes "decide_payment 11 ''oldest_overage'' director memo sample_db = Inr (p', d')"
  shows "map share_of (allocations_of d' 11) = [(Some 21, CatTax, 100), (Some 22, CatTax, 150)]"
  using decide_payment_outcome [OF sample_books assms] sample_payment_row
  by (auto simp: outcome_def settlement_def oldest_disposition_def sample_payable tax_share_def)
    (auto simp: sample_payment_def settlement_def oldest_disposition_def tax_share_def)

lemma sample_words:
  "upper ''WAIVE_BALANCE'' = ''WAIVE_BALANCE''" "strip ''goodwill'' = ''goodwill''"
  "strip ''mistake'' = ''mistake''"
  by code_simp+

lemma sample_amounts: "quantize 2 (- 100) = - 100" "quantize 2 (- 50) = - 50"
  by code_simp+

lemma adjustment_accepted:
  assumes "books d" and "lookup ta_pk k (assessments d) = Some a"
    and "strip reason = reason" and "0 < length reason" and "length reason \<le> 500"
    and "adjustment_for (upper action) amount a = Inr (kind, signed)"
    and "signed < 0" and "- (10 ^ 28) < signed" and "quantize 2 signed = signed"
  obtains r d' where "create_assessment_adjustment k action amount reason director d = Inr (r, d')"
    and "aj_pk r = next_pk (adjustments d)" and "aj_kind r = kind" and "aj_amount r = signed"
    and "aj_reason r = reason"
proof -
  obtain a' where a': "lookup ta_pk k (assessments (recalculate_assessment k d)) = Some a'"
      "ta_tax_due a' = ta_tax_due a" "ta_approved_paid a' = ta_approved_paid a"
    using recalculated_lookup [OF assms(1,2)] by blast
  have "adjustment_for act amt a' = adjustment_for act amt a" for act amt
    by (simp add: adjustment_for_def outstanding_def a')
  then have "adjustment_for (upper action) amount a' = Inr (kind, signed)"
    using assms(6) by simp
  then show thesis
    using that assms a'
    by (force simp: create_assessment_adjustment_def Let_def adjustment_full_clean_def books_simps)
qed

lemma sample_waiver:
  obtains r d' where
    "create_assessment_adjustment 21 ''WAIVE_BALANCE'' None ''goodwill'' (Some 2) sample_db = Inr (r, d')"
    and "aj_pk r = 42" and "aj_kind r = Waiver" and "aj_amount r = - 100" and "aj_reason r = ''goodwill''"
proof -
  have "next_pk (adjustments sample_db) = 42"
    by (simp add: sample_db_def)
  then show thesis
    using that
    by (rule_tac adjustment_accepted [OF sample_books sample_bill_rows(1),
          where action = "''WAIVE_BALANCE''" and reason = "''goodwill''"
          and amount = None and kind = Waiver and signed = "- 100" and director = "Some 2"])
      (simp_all add: sample_words sample_amounts adjustment_for_def outstanding_def sample_bill_def)
qed

lemma sample_lost_waiver:
  obtains r d' where
    "create_assessment_adjustment 23 ''WAIVE_BALANCE'' None ''goodwill'' (Some 2) sample_db = Inr (r, d')"
    and "aj_kind r = Waiver" and "aj_amount r = - 50" and "aj_reason r = ''goodwill''"
  by (rule adjustment_accepted [OF sample_books sample_bill_rows(2),
        where action = "''WAIVE_BALANCE''" and reason = "''goodwill''"
        and amount = None and kind = Waiver and signed = "- 50" and director = "Some 2"])
    (simp_all add: sample_words sample_amounts adjustment_for_def outstanding_def sample_bill_def)

lemma reversal_accepted:
  assumes "books d" and "create_assessment_adjustment k action amount reason director d = Inr (r, d1)"
    and "strip why = why" and "0 < length why" and "length why \<le> 500"
    and "adjustment_full_clean (r\<lparr>aj_reversed_at := Some (wall d1), aj_reversed_by := reviewer,
           aj_reversal_reason := why\<rparr>) = Inr ()"
  shows "\<exists>r' d2. reverse_assessment_adjustment (aj_pk r) why reviewer d1 = Inr (r', d2)"
proof -
  have made: "lookup aj_pk (aj_pk r) (adjustments d1) = Some r"
    using assms(1,2) by (rule created_adjustment_row)
  moreover have "aj_assessment r \<in> ta_pk ` set (rows (assessments d1))"
    using books_create_adjustment [OF assms(1,2)] made
    by (auto simp: books_def books_except_def refs_sound_def dest!: lookup_SomeD)
  then obtain b where "lookup ta_pk (aj_assessment r) (assessments d1) = Some b"
    by (metis image_iff lookup_NoneD not_None_eq)
  moreover have "aj_reversed_at r = None"
    using assms(2) by (rule create_adjustment_cases)
  ultimately show ?thesis
    using assms(3-6) by (auto simp: reverse_assessment_adjustment_def Let_def)
qed

section \<open>Witnesses\<close>

theorem payment_services_keep_books_witness:
  "sound (run_ops payment_step
     [Decide 11 ''oldest_overage'' (Some 2) ''ok'', Adjust 22 ''CREDIT'' (Some 20) ''fix'' (Some 2),
      Tick 90000, Reconcile] sample_db)"
  using payment_services_keep_books [OF sample_sound] .

theorem decide_payment_settles_witness:
  "\<exists>p' d'. decide_payment 11 ''oldest_overage'' (Some 2) ''ok'' sample_db = Inr (p', d')
     \<and> map share_of (allocations_of d' 11) = [(Some 21, CatTax, 100), (Some 22, CatTax, 150)]"
proof -
  obtain p' d' where run: "decide_payment 11 ''oldest_overage'' (Some 2) ''ok'' sample_db = Inr (p', d')"
    by (rule sample_decision [of "''oldest_overage''"]) auto
  have "settlement ''oldest_overage'' 250 [(21, 100), (22, 200)]
      = [(Some 21, CatTax, 100), (Some 22, CatTax, 150)]"
    by (simp add: settlement_def oldest_disposition_def tax_share_def)
  then show ?thesis
    using decide_payment_settles [OF sample_books run] run sample_payment_row sample_payable
    by (auto simp: sample_payment_def)
qed

theorem decide_payment_conserves_witness:
  "\<exists>p' d'. decide_payment 11 ''donation'' (Some 2) ''ok'' sample_db = Inr (p', d')
     \<and> allocated_amount d' 11 = pc_amount p'"
proof -
  obtain p' d' where run: "decide_payment 11 ''donation'' (Some 2) ''ok'' sample_db = Inr (p', d')"
    by (rule sample_decision [of "''donation''"]) auto
  then show ?thesis
    using decide_payment_conserves [OF sample_books run] by auto
qed

lemma sample_share_rows:
  assumes "decide_payment 11 ''oldest_overage'' director memo sample_db = Inr (p', d')"
  obtains r where "r \<in> set (allocations_of d' 11)" and "al_assessment r = Some 22" and "al_amount r = 150"
proof -
  have "(Some 22, CatTax, 150) \<in> set (map share_of (allocations_of d' 11))"
    unfolding sample_shares [OF assms] by simp
  then show thesis
    using that by (auto simp: share_of_def)
qed

theorem decide_payment_oldest_first_witness:
  "\<exists>p' d' r. decide_payment 11 ''oldest_overage'' (Some 2) ''ok'' sample_db = Inr (p', d')
     \<and> r \<in> set (allocations_of d' 11) \<and> al_assessment r = Some 21 \<and> al_amount r = 100"
proof -
  obtain p' d' where run: "decide_payment 11 ''oldest_overage'' (Some 2) ''ok'' sample_db = Inr (p', d')"
    by (rule sample_decision [of "''oldest_overage''"]) auto
  obtain r where r: "r \<in> set (allocations_of d' 11)" "al_assessment r = Some 22"
    using sample_share_rows [OF run] .
  have "\<exists>r \<in> set (allocations_of d' 11). al_assessment r = Some (ta_pk (sample_bill 21 7 1000 100 0))
      \<and> al_category r = CatTax \<and> al_amount r = owed_apart 11 sample_db (sample_bill 21 7 1000 100 0)"
    by (rule decide_payment_oldest_first [OF sample_books run sample_payment_row, where older = "[]"
          and younger = "[sample_bill 22 7 2000 200 0]"])
      (use r sample_bills_payable in \<open>auto simp: oldest_disposition_def sample_bill_def\<close>)
  then show ?thesis
    using run sample_bills_payable(2) by (auto simp: sample_bill_def)
qed

theorem decide_payment_pays_own_bills_witness:
  "\<exists>p' d' r. decide_payment 11 ''oldest_overage'' (Some 2) ''ok'' sample_db = Inr (p', d')
     \<and> r \<in> set (allocations_of d' 11) \<and> al_assessment r = Some 22 \<and> 0 < al_amount r"
proof -
  obtain p' d' where run: "decide_payment 11 ''oldest_overage'' (Some 2) ''ok'' sample_db = Inr (p', d')"
    by (rule sample_decision [of "''oldest_overage''"]) auto
  obtain r where r: "r \<in> set (allocations_of d' 11)" "al_assessment r = Some 22"
    using sample_share_rows [OF run] .
  then show ?thesis
    using decide_payment_pays_own_bills [OF sample_books run r] run by blast
qed

theorem create_adjustment_effect_witness:
  "\<exists>r d' b. create_assessment_adjustment 21 ''WAIVE_BALANCE'' None ''goodwill'' (Some 2) sample_db = Inr (r, d')
     \<and> lookup ta_pk 21 (assessments d') = Some b \<and> outstanding b = 0"
proof -
  obtain r d' where run: "create_assessment_adjustment 21 ''WAIVE_BALANCE'' None ''goodwill'' (Some 2) sample_db = Inr (r, d')"
    using sample_waiver by blast
  then show ?thesis
    using create_adjustment_effect [OF sample_books sample_bill_rows(1) _ run] sample_words
    by (auto simp: sample_bill_def)
qed

theorem adjustment_reversal_exact_witness:
  "(\<exists>r d1 r' d2 b.
     create_assessment_adjustment 21 ''WAIVE_BALANCE'' None ''goodwill'' (Some 2) sample_db = Inr (r, d1)
     \<and> reverse_assessment_adjustment (aj_pk r) ''mistake'' (Some 2) d1 = Inr (r', d2)
     \<and> lookup ta_pk 21 (assessments d2) = Some b \<and> ta_calculated b = 100 \<and> outstanding b = 100)
   \<and> (\<exists>r d1 r' d2 b.
     create_assessment_adjustment 23 ''WAIVE_BALANCE'' None ''goodwill'' (Some 2) sample_db = Inr (r, d1)
     \<and> reverse_assessment_adjustment (aj_pk r) ''mistake'' (Some 2) d1 = Inr (r', d2)
     \<and> lookup ta_pk 23 (assessments d2) = Some b \<and> ta_calculated b = 50 \<and> outstanding b = 100)"
  (is "?kept \<and> ?doubled")
proof
  obtain r d1 where run: "create_assessment_adjustment 21 ''WAIVE_BALANCE'' None ''goodwill'' (Some 2) sample_db = Inr (r, d1)"
    and r: "aj_kind r = Waiver" "aj_amount r = - 100" "aj_reason r = ''goodwill''"
    using sample_waiver by blast
  obtain r' d2 where undone: "reverse_assessment_adjustment (aj_pk r) ''mistake'' (Some 2) d1 = Inr (r', d2)"
    using reversal_accepted [OF sample_books run, where why = "''mistake''" and reviewer = "Some 2"] r
    by (auto simp: sample_words sample_amounts adjustment_full_clean_def Let_def)
  show ?kept
    using adjustment_reversal_exact [OF sample_books sample_bill_rows(1) run undone refl refl] run undone r
    by (auto simp: left_as_calculated_def sample_bill_def outstanding_def)
next
  obtain r d1 where run: "create_assessment_adjustment 23 ''WAIVE_BALANCE'' None ''goodwill'' (Some 2) sample_db = Inr (r, d1)"
    and r: "aj_kind r = Waiver" "aj_amount r = - 50" "aj_reason r = ''goodwill''"
    by (rule sample_lost_waiver)
  obtain r' d2 where undone: "reverse_assessment_adjustment (aj_pk r) ''mistake'' (Some 2) d1 = Inr (r', d2)"
    using reversal_accepted [OF sample_books run, where why = "''mistake''" and reviewer = "Some 2"] r
    by (auto simp: sample_words sample_amounts adjustment_full_clean_def Let_def)
  show ?doubled
    using adjustment_reversal_exact [OF sample_books sample_bill_rows(2) run undone refl refl] run undone r
    by (auto simp: left_as_calculated_def sample_bill_def outstanding_def)
qed

theorem waiver_of_debit_is_lost_witness:
  "\<exists>r d' b. create_assessment_adjustment 23 ''WAIVE_BALANCE'' None ''goodwill'' (Some 2) sample_db = Inr (r, d')
     \<and> lookup ta_pk 23 (assessments d') = Some b \<and> outstanding b = 50"
proof -
  obtain r d' where run: "create_assessment_adjustment 23 ''WAIVE_BALANCE'' None ''goodwill'' (Some 2) sample_db = Inr (r, d')"
    by (rule sample_lost_waiver)
  then show ?thesis
    using waiver_of_debit_is_lost [OF sample_books sample_bill_rows(2) _ _ _ run] sample_words
    by (auto simp: sample_bill_def outstanding_def)
qed

theorem exclude_payment_keeps_evidence_witness:
  "allocations_of (exclude_payment_for_exemption 11 (Some 7) sample_exemption sample_db) 11 = []"
  using exclude_payment_keeps_evidence [OF sample_books sample_payment_row]
  by (simp add: sample_payment_def Let_def)

theorem reconcile_idempotent_witness:
  "\<exists>c d'. reconcile_payment_exemptions (exemption_index sample_db) (\<lambda>_. True) sample_db = (c, d')
     \<and> reconcile_payment_exemptions (exemption_index sample_db) (\<lambda>_. True) d' =
         (\<lparr>rc_excluded = 0, rc_restored = 0, rc_relinked = 0\<rparr>, d')"
proof -
  obtain c d' where run: "reconcile_payment_exemptions (exemption_index sample_db) (\<lambda>_. True) sample_db = (c, d')"
    by fastforce
  then show ?thesis
    using reconcile_idempotent [OF sample_books run] by blast
qed

theorem match_exemption_newest_witness:
  "match_exemption (exemption_index sample_db) (Some 7) (Some 90) 1 = Some sample_exemption
   \<and> covers_day sample_exemption 1"
proof -
  have "match_exemption (exemption_index sample_db) (Some 7) (Some 90) 1 = Some sample_exemption"
    by (simp add: match_exemption_def exemption_index_def sample_db_def sample_exemption_def
        newest_first_def user_id_for_def owner_of_def truthy_def)
  then show ?thesis
    using match_exemption_newest [where d = sample_db and user = "Some 7" and c = "Some 90" and day = 1]
    by simp
qed

end
