(* ===== verification/MT_Periods.thy ===== *)
theory MT_Periods
  imports MT_Pricing
begin

text \<open>
  Extraction periods and mining lines (the first half of \<open>auditor.py\<close>): which pops
  are billed, at which rate and to which recipients, and how the rows of the observer
  ledger are priced and preserved. The rows of Moon Mining are inputs, one record for
  what the code reads of an \<open>Extraction\<close> and of a \<open>MiningLedgerRecord\<close>.
\<close>

section \<open>Rows of Moon Mining\<close>

record extraction =
  ex_refinery_id :: nat
  ex_refinery_name :: string
  ex_moon :: "(nat \<times> string) option"
  ex_corporation_id :: nat
  ex_corporation_name :: string
  ex_started_at :: instant
  ex_fractured_at :: "instant option"
  ex_chunk_arrival_at :: "instant option"
  ex_canceled :: bool

record ledger_record =
  lr_pk :: nat
  lr_refinery_id :: nat
  lr_day :: day
  lr_character_id :: nat
  lr_character_name :: "string option"
  lr_corporation_id :: nat
  lr_corporation_name :: "string option"
  lr_user_id :: "nat option"
  lr_ore_type_id :: nat
  lr_ore_type_name :: string
  lr_quantity :: nat

definition money :: "decimal \<Rightarrow> decimal" where
  "money x = quantize 2 x"

text \<open>\<open>str(name or fallback)\<close>.\<close>

definition entity_name :: "string option \<Rightarrow> string \<Rightarrow> string" where
  "entity_name name fallback =
     (case name of None \<Rightarrow> fallback | Some n \<Rightarrow> if n = '''' then fallback else n)"

text \<open>The main character's name, or the username.\<close>

definition show_user :: "mt_db \<Rightarrow> nat \<Rightarrow> string" where
  "show_user d u = (case mains d u of Some n \<Rightarrow> n | None \<Rightarrow> usernames d u)"

section \<open>The policy of an extraction\<close>

definition policy_applies :: "nat \<Rightarrow> instant \<Rightarrow> tax_policy \<Rightarrow> bool" where
  "policy_applies structure_id pop_at p \<longleftrightarrow>
     tp_structure_id p = structure_id \<and> tp_enabled p \<and> tp_effective_from p \<le> pop_at
     \<and> (case tp_effective_until p of None \<Rightarrow> True | Some u \<Rightarrow> pop_at < u)"

definition effective_policy :: "mt_db \<Rightarrow> nat \<Rightarrow> instant \<Rightarrow> tax_policy option" where
  "effective_policy d structure_id pop_at =
     (case sort_key (\<lambda>p. - tp_effective_from p) (sort_key (\<lambda>p. - int (tp_pk p))
             (filter (policy_applies structure_id pop_at) (policies d))) of
        [] \<Rightarrow> None | p # _ \<Rightarrow> Some p)"

definition rate_of :: "mt_db \<Rightarrow> tax_policy option \<Rightarrow> decimal" where
  "rate_of d policy =
     (case policy of Some p \<Rightarrow> tp_tax_rate p | None \<Rightarrow> cf_default_tax_rate (config d))"

definition effective_rate :: "mt_db \<Rightarrow> nat \<Rightarrow> instant \<Rightarrow> decimal" where
  "effective_rate d structure_id pop_at = rate_of d (effective_policy d structure_id pop_at)"

text \<open>The enabled recipients with these keys, ordered by kind and name.\<close>

definition enabled_recipients :: "mt_db \<Rightarrow> nat list \<Rightarrow> payment_recipient list" where
  "enabled_recipients d pks =
     sort_key (\<lambda>r. if pr_kind r = KindCharacter then 0 else 1 :: nat) (sort_key (\<lambda>r. collate d (pr_name r))
       (filter (\<lambda>r. pr_pk r \<in> set pks \<and> pr_enabled r) (recipients d)))"

definition configured_recipients :: "tax_configuration \<Rightarrow> recipient_entry list" where
  "configured_recipients c =
     (if cf_payment_character_id c \<noteq> 0
      then [\<lparr>re_kind = KindCharacter, re_id = Some (cf_payment_character_id c),
             re_name = cf_payment_character_name c\<rparr>] else []) @
     (if cf_payment_corporation_id c \<noteq> 0
      then [\<lparr>re_kind = KindCorporation, re_id = Some (cf_payment_corporation_id c),
             re_name = cf_payment_corporation_name c\<rparr>] else [])"

definition recipient_snapshot :: "mt_db \<Rightarrow> tax_policy option \<Rightarrow> recipient_entry list" where
  "recipient_snapshot d policy =
     (let own = (case policy of None \<Rightarrow> [] | Some p \<Rightarrow> enabled_recipients d (tp_recipients p));
          chosen = (if own = [] then enabled_recipients d (cf_default_recipients (config d)) else own);
          values = map (\<lambda>r. \<lparr>re_kind = pr_kind r, re_id = Some (pr_entity_id r), re_name = pr_name r\<rparr>)
                     chosen
      in if values = [] then configured_recipients (config d) else values)"

section \<open>Synchronizing the periods\<close>

text \<open>The fields an audit writes of the extraction it found; \<open>status\<close> is apart.\<close>

definition period_row :: "nat \<Rightarrow> mt_db \<Rightarrow> extraction \<Rightarrow> instant \<Rightarrow> period_status \<Rightarrow> nat \<Rightarrow> tax_period" where
  "period_row run d x pop status pk =
     (let policy = effective_policy d (ex_refinery_id x) pop;
          closes = pop + days (cf_mining_window_days (config d))
      in \<lparr>tx_pk = pk, tx_source_started_at = ex_started_at x, tx_structure_id = ex_refinery_id x,
          tx_structure_name = ex_refinery_name x, tx_corporation_id = ex_corporation_id x,
          tx_corporation_name = ex_corporation_name x, tx_moon_id = map_option fst (ex_moon x),
          tx_moon_name = (case ex_moon x of None \<Rightarrow> '''' | Some m \<Rightarrow> snd m),
          tx_extraction_started_at = ex_started_at x, tx_pop_at = pop, tx_closes_at = closes,
          tx_due_at = closes, tx_tax_rate = rate_of d policy,
          tx_allowed_recipients = recipient_snapshot d policy, tx_status = status,
          tx_gross_value = 0, tx_tax_due = 0, tx_approved_paid = 0, tx_last_audit_run = Some run,
          tx_updated_at = wall d\<rparr>)"

text \<open>
  \<open>setattr\<close> of the same fields on an existing period: a closed one keeps its rate and
  recipients, a settled or canceled one its status.
\<close>

definition refreshed_period :: "mt_db \<Rightarrow> tax_period \<Rightarrow> tax_period \<Rightarrow> tax_period" where
  "refreshed_period d new p =
     (let was_closed = tx_closes_at p \<le> wall d
      in p\<lparr>tx_structure_name := tx_structure_name new, tx_corporation_id := tx_corporation_id new,
           tx_corporation_name := tx_corporation_name new, tx_moon_id := tx_moon_id new,
           tx_moon_name := tx_moon_name new,
           tx_extraction_started_at := tx_extraction_started_at new, tx_pop_at := tx_pop_at new,
           tx_closes_at := tx_closes_at new, tx_due_at := tx_due_at new,
           tx_tax_rate := (if was_closed then tx_tax_rate p else tx_tax_rate new),
           tx_allowed_recipients :=
             (if was_closed then tx_allowed_recipients p else tx_allowed_recipients new),
           tx_last_audit_run := tx_last_audit_run new,
           tx_status := (if tx_status p = PeriodSettled \<or> tx_status p = PeriodCanceled
                         then tx_status p else tx_status new),
           tx_updated_at := wall d\<rparr>)"

definition find_period :: "mt_db \<Rightarrow> extraction \<Rightarrow> tax_period option" where
  "find_period d x =
     List.find (\<lambda>p. tx_structure_id p = ex_refinery_id x \<and> tx_source_started_at p = ex_started_at x)
       (rows (periods d))"

definition pop_of_extraction :: "extraction \<Rightarrow> instant option" where
  "pop_of_extraction x =
     (case ex_fractured_at x of Some t \<Rightarrow> Some t | None \<Rightarrow> ex_chunk_arrival_at x)"

definition synchronize_period :: "nat \<Rightarrow> extraction \<Rightarrow> mt_db \<Rightarrow> nat list \<times> mt_db" where
  "synchronize_period run x d =
     (case pop_of_extraction x of
        None \<Rightarrow> ([], d)
      | Some pop \<Rightarrow>
          (if wall d < pop then ([], d)
           else let status = (if wall d < pop + days (cf_mining_window_days (config d))
                              then PeriodOpen else PeriodDue);
                    new = period_row run d x pop status
                in case find_period d x of
                     None \<Rightarrow> ([next_pk (periods d)], d\<lparr>periods := create new (periods d)\<rparr>)
                   | Some p \<Rightarrow> ([tx_pk p],
                        d\<lparr>periods := update tx_pk (tx_pk p) (refreshed_period d (new (tx_pk p)))
                                      (periods d)\<rparr>)))"

fun synchronize_loop :: "nat \<Rightarrow> extraction list \<Rightarrow> mt_db \<Rightarrow> nat list \<times> mt_db" where
  "synchronize_loop run [] d = ([], d)"
| "synchronize_loop run (x # xs) d =
     (let (ks, d1) = synchronize_period run x d; (ks', d2) = synchronize_loop run xs d1
      in (ks @ ks', d2))"

definition synchronize_periods :: "nat \<Rightarrow> extraction list \<Rightarrow> mt_db \<Rightarrow> nat list \<times> mt_db" where
  "synchronize_periods run xs d = synchronize_loop run (filter (\<lambda>x. \<not> ex_canceled x) xs) d"

section \<open>Assigning the ledger\<close>

definition period_covers :: "ledger_record \<Rightarrow> tax_period \<Rightarrow> bool" where
  "period_covers r p \<longleftrightarrow> date_of (tx_pop_at p) \<le> lr_day r \<and> lr_day r \<le> date_of (tx_closes_at p)"

text \<open>\<open>periods_by_refinery\<close>: the periods of a refinery, the newest pop first.\<close>

definition periods_at :: "tax_period list \<Rightarrow> nat \<Rightarrow> tax_period list" where
  "periods_at ps refinery =
     sort_key (\<lambda>p. - tx_pop_at p) (filter (\<lambda>p. tx_structure_id p = refinery) ps)"

definition period_for_record :: "tax_period list \<Rightarrow> ledger_record \<Rightarrow> tax_period option" where
  "period_for_record ps r = List.find (period_covers r) (periods_at ps (lr_refinery_id r))"

section \<open>Preparing the lines\<close>

record prepared_row =
  pp_record :: ledger_record
  pp_period :: tax_period
  pp_rule :: "compression_rule option"
  pp_quantity :: decimal
  pp_existing :: "mining_line option"
  pp_frozen :: bool

definition rule_for :: "mt_db \<Rightarrow> nat \<Rightarrow> compression_rule option" where
  "rule_for d raw_type =
     List.find (\<lambda>r. cr_raw_type_id r = raw_type) (rev (filter cr_enabled (rules d)))"

definition compressed_quantity_of :: "compression_rule option \<Rightarrow> nat \<Rightarrow> decimal" where
  "compressed_quantity_of rule quantity =
     (case rule of None \<Rightarrow> 0
      | Some r \<Rightarrow> quantize 8 (d_mul (of_nat quantity) (multiplier r)))"

definition same_line :: "nat \<Rightarrow> ledger_record \<Rightarrow> mining_line \<Rightarrow> bool" where
  "same_line period r l \<longleftrightarrow>
     ml_period l = period \<and> ml_ledger_day l = lr_day r \<and> ml_character_id l = lr_character_id r
     \<and> ml_raw_type_id l = lr_ore_type_id r"

definition existing_line :: "mt_db \<Rightarrow> nat \<Rightarrow> ledger_record \<Rightarrow> mining_line option" where
  "existing_line d period r = List.find (same_line period r) (rows (lines d))"

definition prepare_row :: "mt_db \<Rightarrow> tax_period list \<Rightarrow> ledger_record \<Rightarrow> prepared_row option" where
  "prepare_row d ps r =
     (case period_for_record ps r of
        None \<Rightarrow> None
      | Some p \<Rightarrow>
          (let rule = rule_for d (lr_ore_type_id r); existing = existing_line d (tx_pk p) r
           in Some \<lparr>pp_record = r, pp_period = p, pp_rule = rule,
                    pp_quantity = compressed_quantity_of rule (lr_quantity r),
                    pp_existing = existing,
                    pp_frozen = (case existing of None \<Rightarrow> False | Some l \<Rightarrow> ml_pricing_complete l)
                                \<and> tx_closes_at p \<le> wall d\<rparr>))"

text \<open>\<open>price_needs\<close>: the quantity of each compressed type, with the name seen last.\<close>

fun add_need :: "compression_rule \<Rightarrow> decimal \<Rightarrow> price_need list \<Rightarrow> price_need list" where
  "add_need rule quantity [] =
     [\<lparr>pn_type_id = cr_compressed_type_id rule, pn_name = cr_compressed_type_name rule,
       pn_quantity = quantity\<rparr>]"
| "add_need rule quantity (n # ns) =
     (if pn_type_id n = cr_compressed_type_id rule
      then n\<lparr>pn_name := cr_compressed_type_name rule, pn_quantity := pn_quantity n + quantity\<rparr> # ns
      else n # add_need rule quantity ns)"

definition price_needs :: "prepared_row list \<Rightarrow> price_need list" where
  "price_needs items =
     fold (\<lambda>i ns. case pp_rule i of
              None \<Rightarrow> ns
            | Some rule \<Rightarrow> if pp_frozen i then ns else add_need rule (pp_quantity i) ns) items []"

text \<open>The types without a rule, as a set in the order of type and name.\<close>

definition missing_types :: "mt_db \<Rightarrow> prepared_row list \<Rightarrow> (string \<times> nat) list" where
  "missing_types d items =
     remdups (map (\<lambda>i. (lr_ore_type_name (pp_record i), lr_ore_type_id (pp_record i)))
       (sort_key (\<lambda>i. lr_ore_type_id (pp_record i)) (filter (\<lambda>i. pp_rule i = None) items)))"

definition prepare_ledger_rows ::
  "mt_db \<Rightarrow> tax_period list \<Rightarrow> ledger_record list \<Rightarrow>
     prepared_row list \<times> price_need list \<times> audit_warning list" where
  "prepare_ledger_rows d ps ledger =
     (let items = List.map_filter (prepare_row d ps)
            (sort_key lr_day (sort_key (\<lambda>r. int (lr_pk r)) ledger));
          missing = missing_types d items
      in (items, price_needs items, if missing = [] then [] else [MissingMappings missing]))"

section \<open>Writing the lines\<close>

definition unit_price_for ::
  "(nat \<times> price_snapshot) list \<Rightarrow> prepared_row \<Rightarrow> decimal \<times> bool" where
  "unit_price_for made i =
     (if pp_frozen i
      then (case pp_existing i of
              None \<Rightarrow> (0, False) | Some l \<Rightarrow> (ml_unit_price l, ml_pricing_complete l))
      else case pp_rule i of
             None \<Rightarrow> (0, False)
           | Some rule \<Rightarrow> (case map_of made (cr_compressed_type_id rule) of
               None \<Rightarrow> (0, False) | Some s \<Rightarrow> (ps_unit_price s, ps_complete s)))"

definition tax_on :: "decimal \<Rightarrow> decimal \<Rightarrow> decimal" where
  "tax_on gross rate = money (d_div (d_mul gross rate) 100)"

definition line_row ::
  "exemption_snapshot \<Rightarrow> nat \<Rightarrow> (nat \<times> price_snapshot) list \<Rightarrow> instant \<Rightarrow> prepared_row \<Rightarrow> nat \<Rightarrow> mining_line" where
  "line_row ix run made now i pk =
     (let r = pp_record i; p = pp_period i;
          linked = user_id_for ix (Some (lr_character_id r)) (lr_user_id r);
          exemption = match_exemption ix linked (Some (lr_character_id r)) (lr_day r);
          (unit_price, pricing_complete) = unit_price_for made i;
          gross = money (d_mul (pp_quantity i) unit_price)
      in \<lparr>ml_pk = pk, ml_period = tx_pk p, ml_ledger_day = lr_day r,
          ml_character_id = lr_character_id r,
          ml_character_name = entity_name (lr_character_name r) (show_nat (lr_character_id r)),
          ml_corporation_id = lr_corporation_id r,
          ml_corporation_name = entity_name (lr_corporation_name r) (show_nat (lr_corporation_id r)),
          ml_auth_user = linked, ml_raw_type_id = lr_ore_type_id r,
          ml_raw_type_name = lr_ore_type_name r,
          ml_compressed_type_id = map_option cr_compressed_type_id (pp_rule i),
          ml_compressed_type_name =
            (case pp_rule i of None \<Rightarrow> '''' | Some rule \<Rightarrow> cr_compressed_type_name rule),
          ml_raw_quantity = lr_quantity r, ml_compressed_quantity = pp_quantity i,
          ml_unit_price = unit_price, ml_gross_value = gross, ml_tax_rate = tx_tax_rate p,
          ml_tax_due = (if exemption \<noteq> None then 0 else tax_on gross (tx_tax_rate p)),
          ml_is_exempt = (exemption \<noteq> None),
          ml_exemption_reason = (case exemption of None \<Rightarrow> '''' | Some x \<Rightarrow> te_reason x),
          ml_pricing_complete = pricing_complete, ml_last_audit_run = run, ml_updated_at = now\<rparr>)"

text \<open>\<open>update_or_create\<close> on the key of a line.\<close>

definition upsert_line :: "(nat \<Rightarrow> mining_line) \<Rightarrow> prepared_row \<Rightarrow> mt_db \<Rightarrow> mt_db" where
  "upsert_line row i d =
     (case existing_line d (tx_pk (pp_period i)) (pp_record i) of
        None \<Rightarrow> d\<lparr>lines := create row (lines d)\<rparr>
      | Some l \<Rightarrow> d\<lparr>lines := update ml_pk (ml_pk l) (\<lambda>_. row (ml_pk l)) (lines d)\<rparr>)"

definition synchronize_mining_lines ::
  "market \<Rightarrow> nat \<Rightarrow> exemption_snapshot \<Rightarrow> nat list \<Rightarrow> ledger_record list \<Rightarrow> mt_db \<Rightarrow>
     nat \<times> audit_warning list \<times> mt_db" where
  "synchronize_mining_lines fetch run ix ks ledger d =
     (let ps = List.map_filter (\<lambda>k. lookup tx_pk k (periods d)) ks;
          (items, needs, warns) = prepare_ledger_rows d ps ledger;
          (made, price_warns, d1) = create_price_snapshots fetch run needs d;
          d2 = fold (\<lambda>i. upsert_line (line_row ix run made (wall d) i) i) items d1
      in (length items, warns @ price_warns, d2))"

section \<open>Rechecking preserved lines\<close>

definition expected_line :: "exemption_snapshot \<Rightarrow> instant \<Rightarrow> mining_line \<Rightarrow> mining_line" where
  "expected_line ix now l =
     (let linked = user_id_for ix (Some (ml_character_id l)) (ml_auth_user l);
          exemption = match_exemption ix linked (Some (ml_character_id l)) (ml_ledger_day l)
      in l\<lparr>ml_auth_user := linked, ml_is_exempt := (exemption \<noteq> None),
           ml_exemption_reason := (case exemption of None \<Rightarrow> [] | Some x \<Rightarrow> te_reason x),
           ml_tax_due := (if exemption \<noteq> None then 0
                          else tax_on (ml_gross_value l) (ml_tax_rate l)),
           ml_updated_at := now\<rparr>)"

definition line_outdated :: "exemption_snapshot \<Rightarrow> mining_line \<Rightarrow> bool" where
  "line_outdated ix l \<longleftrightarrow>
     (let e = expected_line ix (ml_updated_at l) l
      in ml_auth_user l \<noteq> ml_auth_user e \<or> ml_is_exempt l \<noteq> ml_is_exempt e
         \<or> ml_exemption_reason l \<noteq> ml_exemption_reason e \<or> ml_tax_due l \<noteq> ml_tax_due e)"

definition recheck_mining_line_exemptions :: "exemption_snapshot \<Rightarrow> mt_db \<Rightarrow> nat \<times> mt_db" where
  "recheck_mining_line_exemptions ix d =
     (length (filter (line_outdated ix) (rows (lines d))),
      d\<lparr>lines := (lines d)\<lparr>rows := map (\<lambda>l. if line_outdated ix l then expected_line ix (wall d) l else l)
                                        (rows (lines d))\<rparr>\<rparr>)"

section \<open>Properties of the periods\<close>

lemma set_periods_at: "set (periods_at ps m) = {p \<in> set ps. tx_structure_id p = m}"
  by (simp add: periods_at_def)

lemma sorted_periods_at: "sorted_wrt (\<lambda>p q. tx_pop_at q \<le> tx_pop_at p) (periods_at ps m)"
proof -
  have "sorted (map (\<lambda>p. - tx_pop_at p) (periods_at ps m))"
    unfolding periods_at_def by (rule sorted_sort_key)
  then show ?thesis by (simp add: sorted_map)
qed

text \<open>
  A ledger row is billed to the newest pop of its refinery whose window covers
  the day of the row, and it is left out only when no window covers it.
\<close>

theorem period_for_record_newest:
  "case period_for_record ps r of
     Some p \<Rightarrow>
       p \<in> set ps \<and> tx_structure_id p = lr_refinery_id r \<and> period_covers r p
       \<and> (\<forall>q \<in> set ps. tx_structure_id q = lr_refinery_id r \<and> period_covers r q
            \<longrightarrow> tx_pop_at q \<le> tx_pop_at p)
   | None \<Rightarrow> \<forall>q \<in> set ps. tx_structure_id q = lr_refinery_id r \<longrightarrow> \<not> period_covers r q"
proof (cases "period_for_record ps r")
  case None
  then have "\<forall>q \<in> set (periods_at ps (lr_refinery_id r)). \<not> period_covers r q"
    by (auto simp: period_for_record_def find_None_iff)
  with None show ?thesis
    by (simp add: set_periods_at)
next
  case (Some p)
  then have "p \<in> set (periods_at ps (lr_refinery_id r))" and "period_covers r p"
    by (auto simp: period_for_record_def dest: find_SomeD)
  moreover have "tx_pop_at q \<le> tx_pop_at p"
    if "q \<in> set (periods_at ps (lr_refinery_id r))" and "period_covers r q" for q
    using find_first_maximal [OF sorted_periods_at Some [unfolded period_for_record_def] that]
    by (cases "q = p") auto
  ultimately show ?thesis
    using Some by (auto simp: set_periods_at)
qed

lemma refreshed_period_fields [simp]:
  "tx_pk (refreshed_period d new p) = tx_pk p"
  "tx_structure_id (refreshed_period d new p) = tx_structure_id p"
  "tx_source_started_at (refreshed_period d new p) = tx_source_started_at p"
  "tx_gross_value (refreshed_period d new p) = tx_gross_value p"
  "tx_tax_due (refreshed_period d new p) = tx_tax_due p"
  "tx_approved_paid (refreshed_period d new p) = tx_approved_paid p"
  by (simp_all add: refreshed_period_def Let_def)

definition source_key :: "tax_period \<Rightarrow> nat \<times> instant" where
  "source_key p = (tx_structure_id p, tx_source_started_at p)"

definition extraction_key :: "extraction \<Rightarrow> nat \<times> instant" where
  "extraction_key x = (ex_refinery_id x, ex_started_at x)"

text \<open>What one extraction may do to a period that is in the table.\<close>

definition kept :: "instant \<Rightarrow> tax_period \<Rightarrow> tax_period \<Rightarrow> bool" where
  "kept now p p' \<longleftrightarrow>
     tx_pk p' = tx_pk p \<and> source_key p' = source_key p
     \<and> tx_gross_value p' = tx_gross_value p \<and> tx_tax_due p' = tx_tax_due p
     \<and> tx_approved_paid p' = tx_approved_paid p
     \<and> (tx_closes_at p \<le> now \<longrightarrow>
          tx_tax_rate p' = tx_tax_rate p \<and> tx_allowed_recipients p' = tx_allowed_recipients p)
     \<and> (tx_status p \<in> {PeriodSettled, PeriodCanceled} \<longrightarrow> tx_status p' = tx_status p)"

text \<open>A step that touches no table but the periods.\<close>

definition only_periods :: "mt_db \<Rightarrow> mt_db \<Rightarrow> bool" where
  "only_periods d d1 \<longleftrightarrow>
     assessments d1 = assessments d \<and> payments d1 = payments d \<and> allocations d1 = allocations d
     \<and> adjustments d1 = adjustments d \<and> lines d1 = lines d \<and> snapshots d1 = snapshots d
     \<and> config d1 = config d \<and> wall d1 = wall d"

lemma synchronize_period_frame:
  assumes "synchronize_period run x d = (ks, d1)" and "well_keyed tx_pk (periods d)"
  shows "well_keyed tx_pk (periods d1) \<and> only_periods d d1
    \<and> (\<forall>k p. lookup tx_pk k (periods d) = Some p \<longrightarrow>
         (\<exists>p'. lookup tx_pk k (periods d1) = Some p' \<and> kept (wall d) p p'
            \<and> (source_key p \<noteq> extraction_key x \<longrightarrow> p' = p)))"
proof -
  have unchanged: ?thesis if "d1 = d"
    using that assms(2) by (auto simp: kept_def only_periods_def)
  show ?thesis
  proof (cases "pop_of_extraction x")
    case None
    then show ?thesis
      using assms(1) unchanged by (simp add: synchronize_period_def)
  next
    case (Some pop)
    define new where "new = period_row run d x pop
        (if wall d < pop + days (cf_mining_window_days (config d)) then PeriodOpen else PeriodDue)"
    show ?thesis
    proof (cases "wall d < pop")
      case True
      then show ?thesis
        using assms(1) Some unchanged by (simp add: synchronize_period_def)
    next
      case False
      show ?thesis
      proof (cases "find_period d x")
        case None
        then have d1: "d1 = d\<lparr>periods := create new (periods d)\<rparr>"
          using assms(1) Some False by (simp add: synchronize_period_def new_def Let_def)
        have pk: "tx_pk (new k) = k" for k
          by (simp add: new_def period_row_def Let_def)
        show ?thesis
          unfolding d1
          using assms(2) pk tbl.add_keeps [of tx_pk "periods d" new]
          by (auto simp: well_keyed_create kept_def only_periods_def)
      next
        case (Some q)
        then have d1: "d1 = d\<lparr>periods := update tx_pk (tx_pk q) (refreshed_period d (new (tx_pk q))) (periods d)\<rparr>"
          using assms(1) \<open>pop_of_extraction x = Some pop\<close> False
          by (simp add: synchronize_period_def new_def Let_def)
        have q: "q \<in> set (rows (periods d))" "source_key q = extraction_key x"
          using Some by (auto simp: find_period_def source_key_def extraction_key_def dest: find_SomeD)
        have "p = q" if "lookup tx_pk (tx_pk q) (periods d) = Some p" for p
          using that lookup_in_rows [OF assms(2) q(1)] by simp
        then show ?thesis
          unfolding d1 using assms(2) q
          by (auto simp: well_keyed_update lookup_update kept_def source_key_def only_periods_def
              refreshed_period_def Let_def)
      qed
    qed
  qed
qed

lemma synchronize_loop_frame:
  assumes "synchronize_loop run xs d = (ks, d1)" and "well_keyed tx_pk (periods d)"
    and "distinct (map extraction_key xs)" and "lookup tx_pk k (periods d) = Some p"
  shows "\<exists>p'. lookup tx_pk k (periods d1) = Some p' \<and> kept (wall d) p p'
    \<and> (source_key p \<notin> extraction_key ` set xs \<longrightarrow> p' = p)"
  using assms
proof (induction xs arbitrary: d ks p)
  case Nil
  then show ?case by (auto simp: kept_def)
next
  case (Cons x xs)
  obtain ks1 d2 where one: "synchronize_period run x d = (ks1, d2)"
    by fastforce
  then obtain ks2 where rest: "synchronize_loop run xs d2 = (ks2, d1)"
    using Cons.prems(1) by (auto split: prod.splits)
  note f = synchronize_period_frame [OF one Cons.prems(2)]
  have now: "wall d2 = wall d"
    using f by (simp add: only_periods_def)
  obtain p1 where p1: "lookup tx_pk k (periods d2) = Some p1" "kept (wall d) p p1"
      "source_key p \<noteq> extraction_key x \<longrightarrow> p1 = p"
    using f Cons.prems(4) by blast
  have key: "source_key p1 = source_key p"
    using p1(2) by (simp add: kept_def)
  obtain p2 where p2: "lookup tx_pk k (periods d1) = Some p2" "kept (wall d) p1 p2"
      "source_key p1 \<notin> extraction_key ` set xs \<longrightarrow> p2 = p1"
    using Cons.IH [OF rest _ _ p1(1)] f Cons.prems(3) now by auto
  show ?case
  proof (cases "source_key p = extraction_key x")
    case True
    then have "source_key p1 \<notin> extraction_key ` set xs"
      using Cons.prems(3) key by auto
    then show ?thesis
      using p1 p2 True by auto
  next
    case False
    then show ?thesis
      using p1 p2 by auto
  qed
qed

text \<open>
  An audit forgets no period and re-prices no closed one: with one extraction per
  pop, every period is still there with its totals, a period whose window had closed
  keeps its tax rate and its allowed recipients, and a settled or canceled one its
  status.
\<close>

theorem synchronize_periods_keeps_closed:
  assumes "synchronize_periods run xs d = (ks, d')" and "well_keyed tx_pk (periods d)"
    and "distinct (map extraction_key xs)" and "lookup tx_pk k (periods d) = Some p"
  shows "\<exists>p'. lookup tx_pk k (periods d') = Some p'
    \<and> source_key p' = source_key p
    \<and> tx_gross_value p' = tx_gross_value p \<and> tx_tax_due p' = tx_tax_due p
    \<and> tx_approved_paid p' = tx_approved_paid p
    \<and> (tx_closes_at p \<le> wall d \<longrightarrow>
         tx_tax_rate p' = tx_tax_rate p \<and> tx_allowed_recipients p' = tx_allowed_recipients p)
    \<and> (tx_status p \<in> {PeriodSettled, PeriodCanceled} \<longrightarrow> tx_status p' = tx_status p)"
proof -
  have "distinct (map extraction_key (filter (\<lambda>x. \<not> ex_canceled x) xs))"
    using assms(3) by (rule distinct_map_filter)
  then show ?thesis
    using synchronize_loop_frame [OF assms(1) [unfolded synchronize_periods_def] assms(2) _ assms(4)]
    by (auto simp: kept_def)
qed

section \<open>Prices of closed periods\<close>

definition line_key :: "mining_line \<Rightarrow> nat \<times> day \<times> nat \<times> nat" where
  "line_key l = (ml_period l, ml_ledger_day l, ml_character_id l, ml_raw_type_id l)"

definition item_key :: "prepared_row \<Rightarrow> nat \<times> day \<times> nat \<times> nat" where
  "item_key i = (tx_pk (pp_period i), lr_day (pp_record i), lr_character_id (pp_record i),
                 lr_ore_type_id (pp_record i))"

lemma same_line_key: "same_line (tx_pk (pp_period i)) (pp_record i) l \<longleftrightarrow> line_key l = item_key i"
  by (auto simp: same_line_def line_key_def item_key_def)

lemma line_row_fields [simp]:
  "ml_pk (line_row ix run made now i k) = k"
  "line_key (line_row ix run made now i k) = item_key i"
  "ml_unit_price (line_row ix run made now i k) = fst (unit_price_for made i)"
  "ml_pricing_complete (line_row ix run made now i k) = snd (unit_price_for made i)"
  by (simp_all add: line_row_def line_key_def item_key_def Let_def split: prod.splits)

definition lines_ok :: "mt_db \<Rightarrow> bool" where
  "lines_ok d \<longleftrightarrow> well_keyed ml_pk (lines d) \<and> distinct (map line_key (rows (lines d)))"

lemma line_of_key:
  assumes "lines_ok d" and "l \<in> set (rows (lines d))" and "l' \<in> set (rows (lines d))"
    and "line_key l = line_key l'"
  shows "l = l'"
  using assms by (auto simp: lines_ok_def distinct_map dest: inj_onD)

lemma upsert_line_found:
  assumes "lines_ok d" and "l \<in> set (rows (lines d))" and "line_key l = item_key i"
  shows "existing_line d (tx_pk (pp_period i)) (pp_record i) = Some l"
proof -
  obtain l' where l': "existing_line d (tx_pk (pp_period i)) (pp_record i) = Some l'"
    using assms(2,3) by (cases "existing_line d (tx_pk (pp_period i)) (pp_record i)")
      (auto simp: existing_line_def find_None_iff same_line_key)
  then have "l' \<in> set (rows (lines d))" and "line_key l' = item_key i"
    by (auto simp: existing_line_def same_line_key dest: find_SomeD)
  then have "l' = l"
    using line_of_key [OF assms(1) _ assms(2)] assms(3) by simp
  with l' show ?thesis by simp
qed

lemma lines_ok_upsert:
  assumes "lines_ok d" and "\<And>k. ml_pk (row k) = k" and "\<And>k. line_key (row k) = item_key i"
  shows "lines_ok (upsert_line row i d)"
proof (cases "existing_line d (tx_pk (pp_period i)) (pp_record i)")
  case None
  then have "\<forall>l \<in> set (rows (lines d)). line_key l \<noteq> item_key i"
    by (auto simp: existing_line_def find_None_iff same_line_key)
  then have "distinct (map line_key (rows (lines d)) @ [item_key i])"
    using assms(1) by (auto simp: lines_ok_def)
  then show ?thesis
    using None assms by (simp add: upsert_line_def lines_ok_def well_keyed_create rows_create)
next
  case (Some l)
  then have l: "l \<in> set (rows (lines d))" "line_key l = item_key i"
    by (auto simp: existing_line_def same_line_key dest: find_SomeD)
  have keyed: "well_keyed ml_pk (lines d)"
    using assms(1) by (simp add: lines_ok_def)
  have only: "line_key l' = item_key i" if "l' \<in> set (rows (lines d))" and "ml_pk l' = ml_pk l" for l'
    using tbl.content_unique [OF keyed that(1) l(1) that(2)] l(2) by simp
  have "map line_key (rows (update ml_pk (ml_pk l) (\<lambda>_. row (ml_pk l)) (lines d))) = map line_key (rows (lines d))"
    using only assms(3) by (auto simp: rows_update)
  moreover have "map ml_pk (rows (update ml_pk (ml_pk l) (\<lambda>_. row (ml_pk l)) (lines d))) = map ml_pk (rows (lines d))"
    using assms(2) by (auto simp: rows_update)
  moreover have "next_pk (update ml_pk (ml_pk l) (\<lambda>_. row (ml_pk l)) (lines d)) = next_pk (lines d)"
    by (simp add: update_def)
  ultimately show ?thesis
    using assms(1) Some
    by (simp add: upsert_line_def lines_ok_def well_keyed_def distinct_map)
      (metis (no_types, lifting) image_eqI image_iff list.set_map)
qed

text \<open>A line keeps a price as long as every row that addresses it carries that price.\<close>

lemma upsert_keeps_price:
  assumes "lines_ok d" and "l \<in> set (rows (lines d))"
    and "\<And>k. ml_pk (row k) = k" and "\<And>k. line_key (row k) = item_key i"
    and "item_key i = line_key l \<Longrightarrow>
           (\<forall>k. ml_unit_price (row k) = ml_unit_price l \<and> ml_pricing_complete (row k) = ml_pricing_complete l)"
  shows "\<exists>l' \<in> set (rows (lines (upsert_line row i d))). ml_pk l' = ml_pk l \<and> line_key l' = line_key l
    \<and> ml_unit_price l' = ml_unit_price l \<and> ml_pricing_complete l' = ml_pricing_complete l"
proof (cases "item_key i = line_key l")
  case True
  then have "existing_line d (tx_pk (pp_period i)) (pp_record i) = Some l"
    using assms(1,2) by (intro upsert_line_found) simp_all
  then have "row (ml_pk l) \<in> set (rows (lines (upsert_line row i d)))"
    using assms(2) by (auto simp: upsert_line_def rows_update)
  then show ?thesis
    using assms(3-5) True by (intro bexI [of _ "row (ml_pk l)"]) auto
next
  case False
  have keyed: "well_keyed ml_pk (lines d)"
    using assms(1) by (simp add: lines_ok_def)
  have "l \<in> set (rows (lines (upsert_line row i d)))"
  proof (cases "existing_line d (tx_pk (pp_period i)) (pp_record i)")
    case None
    with assms(2) show ?thesis by (simp add: upsert_line_def rows_create)
  next
    case (Some q)
    then have "q \<in> set (rows (lines d))" and "line_key q = item_key i"
      by (auto simp: existing_line_def same_line_key dest: find_SomeD)
    then have "ml_pk l \<noteq> ml_pk q"
      using False tbl.content_unique [OF keyed assms(2)] by auto
    with Some assms(2) show ?thesis
      by (auto simp: upsert_line_def rows_update)
  qed
  then show ?thesis by blast
qed

lemma fold_upsert_keeps_price:
  assumes "lines_ok d" and "l \<in> set (rows (lines d))"
    and "\<And>i k. i \<in> set items \<Longrightarrow> ml_pk (row i k) = k"
    and "\<And>i k. i \<in> set items \<Longrightarrow> line_key (row i k) = item_key i"
    and "\<And>i k. i \<in> set items \<Longrightarrow> item_key i = line_key l \<Longrightarrow>
           ml_unit_price (row i k) = ml_unit_price l \<and> ml_pricing_complete (row i k) = ml_pricing_complete l"
  shows "\<exists>l' \<in> set (rows (lines (fold (\<lambda>i. upsert_line (row i) i) items d))).
    ml_pk l' = ml_pk l \<and> line_key l' = line_key l
    \<and> ml_unit_price l' = ml_unit_price l \<and> ml_pricing_complete l' = ml_pricing_complete l"
  using assms
proof (induction items arbitrary: d l)
  case Nil
  then show ?case by auto
next
  case (Cons i items)
  let ?d = "upsert_line (row i) i d"
  obtain l1 where l1: "l1 \<in> set (rows (lines ?d))" "ml_pk l1 = ml_pk l" "line_key l1 = line_key l"
      "ml_unit_price l1 = ml_unit_price l" "ml_pricing_complete l1 = ml_pricing_complete l"
    using upsert_keeps_price [OF Cons.prems(1,2), of "row i" i] Cons.prems(3-5) by auto
  have ok: "lines_ok ?d"
    using Cons.prems(1,3,4) by (intro lines_ok_upsert) simp_all
  show ?case
    using Cons.IH [OF ok l1(1)] Cons.prems(3-5) l1 by (simp add: l1)
qed

lemma map_filterD: "y \<in> set (List.map_filter f xs) \<Longrightarrow> \<exists>x \<in> set xs. f x = Some y"
  by (auto simp: map_filter_def)

text \<open>
  A finished price stays: a mining line that was completely priced, of a period
  whose window has closed, keeps its unit price through every later audit, whatever
  the market or the ledger says by then.
\<close>

theorem closed_line_keeps_price:
  assumes "synchronize_mining_lines fetch run ix ks ledger d = (n, warns, d')" and "lines_ok d"
    and "l \<in> set (rows (lines d))" and "ml_pricing_complete l"
    and "lookup tx_pk (ml_period l) (periods d) = Some p" and "tx_closes_at p \<le> wall d"
  shows "\<exists>l' \<in> set (rows (lines d')). ml_pk l' = ml_pk l \<and> line_key l' = line_key l
    \<and> ml_unit_price l' = ml_unit_price l \<and> ml_pricing_complete l'"
proof -
  define ps where "ps = List.map_filter (\<lambda>k. lookup tx_pk k (periods d)) ks"
  obtain items needs w1 where prep: "prepare_ledger_rows d ps ledger = (items, needs, w1)"
    by (metis prod_cases3)
  obtain made w2 d1 where snap: "create_price_snapshots fetch run needs d = (made, w2, d1)"
    by (metis prod_cases3)
  have d': "d' = fold (\<lambda>i. upsert_line (line_row ix run made (wall d) i) i) items d1"
    using assms(1) prep snap by (simp add: synchronize_mining_lines_def Let_def ps_def)
  have d1: "lines d1 = lines d"
    using snapshot_loop_rows [OF snap [unfolded create_price_snapshots_def]] by (metis mt_db.select_convs(6) mt_db.surjective mt_db.update_convs(7))
  have "unit_price_for made i = (ml_unit_price l, True)"
    if i: "i \<in> set items" "item_key i = line_key l" for i
  proof -
    have "\<exists>r. prepare_row d ps r = Some i"
      using prep i(1) by (auto simp: prepare_ledger_rows_def Let_def dest: map_filterD)
    then obtain r where r: "prepare_row d ps r = Some i" ..
    then have per: "period_for_record ps r = Some (pp_period i)"
      and ex: "pp_existing i = existing_line d (tx_pk (pp_period i)) (pp_record i)"
      and fr: "pp_frozen i \<longleftrightarrow> (case pp_existing i of None \<Rightarrow> False | Some l \<Rightarrow> ml_pricing_complete l)
                 \<and> tx_closes_at (pp_period i) \<le> wall d"
      by (auto simp: prepare_row_def Let_def split: option.splits)
    have "pp_period i \<in> set ps"
      using per by (auto simp: period_for_record_def periods_at_def dest: find_SomeD)
    then have "lookup tx_pk (tx_pk (pp_period i)) (periods d) = Some (pp_period i)"
      unfolding ps_def by (auto dest!: map_filterD dest: lookup_SomeD)
    moreover have "tx_pk (pp_period i) = ml_period l"
      using i(2) by (simp add: item_key_def line_key_def)
    ultimately have "pp_period i = p"
      using assms(5) by simp
    moreover have "pp_existing i = Some l"
      unfolding ex using assms(2,3) i(2) by (intro upsert_line_found) simp_all
    ultimately show ?thesis
      using fr assms(4,6) by (simp add: unit_price_for_def)
  qed
  then have "\<exists>l' \<in> set (rows (lines d')). ml_pk l' = ml_pk l \<and> line_key l' = line_key l
    \<and> ml_unit_price l' = ml_unit_price l \<and> ml_pricing_complete l' = ml_pricing_complete l"
    unfolding d' using assms(2,3,4) d1
    by (intro fold_upsert_keeps_price) (simp_all add: lines_ok_def)
  then show ?thesis
    using assms(4) by auto
qed

section \<open>A wider mining window\<close>

lemma find_map_keep:
  assumes "\<And>r. P (g r) = P r"
  shows "List.find P (map g xs) = map_option g (List.find P xs)"
  using assms by (induction xs) auto

lemma find_period_refreshed:
  assumes "find_period d x = Some p" and "\<And>q. source_key (f q) = source_key q"
  shows "find_period (d\<lparr>periods := update tx_pk (tx_pk p) f (periods d)\<rparr>) x = Some (f p)"
proof -
  have "(tx_structure_id (f q) = m \<and> tx_source_started_at (f q) = s) = (tx_structure_id q = m \<and> tx_source_started_at q = s)"
    for q m s
    using assms(2) [of q] by (auto simp: source_key_def)
  then have "find_period (d\<lparr>periods := update tx_pk (tx_pk p) f (periods d)\<rparr>) x =
      map_option (\<lambda>q. if tx_pk q = tx_pk p then f q else q) (find_period d x)"
    by (simp add: find_period_def rows_update find_map_keep if_distrib [of tx_structure_id]
        if_distrib [of tx_source_started_at] cong: if_cong)
  then show ?thesis
    using assms(1) by simp
qed

text \<open>
  Where a closed period does not keep its terms: once a director widens the mining
  window so that a closed pop would still be open, the next audit moves the period's
  closing time past the present, and the one after it overwrites the tax rate and the
  recipients with the policy of the moment.
\<close>

theorem wider_window_reprices_closed_period:
  assumes "find_period d x = Some p" and "tx_closes_at p \<le> wall d"
    and "pop_of_extraction x = Some pop" and "pop \<le> wall d"
    and "wall d < pop + days (cf_mining_window_days (config d))"
  shows "\<exists>d1 d2 p1 p2. synchronize_period run x d = ([tx_pk p], d1)
    \<and> find_period d1 x = Some p1 \<and> tx_tax_rate p1 = tx_tax_rate p \<and> wall d < tx_closes_at p1
    \<and> synchronize_period run' x d1 = ([tx_pk p], d2)
    \<and> find_period d2 x = Some p2
    \<and> tx_tax_rate p2 = effective_rate d (ex_refinery_id x) pop
    \<and> tx_allowed_recipients p2 = recipient_snapshot d (effective_policy d (ex_refinery_id x) pop)"
proof -
  define new where "new = (\<lambda>run d. period_row run d x pop PeriodOpen (tx_pk p))"
  define p1 where "p1 = refreshed_period d (new run d) p"
  define d1 where "d1 = d\<lparr>periods := update tx_pk (tx_pk p) (refreshed_period d (new run d)) (periods d)\<rparr>"
  have s1: "synchronize_period run x d = ([tx_pk p], d1)"
    using assms by (simp add: synchronize_period_def d1_def new_def Let_def)
  have f1: "find_period d1 x = Some p1"
    unfolding d1_def p1_def using assms(1) by (rule find_period_refreshed) (simp add: source_key_def)
  have p1: "tx_tax_rate p1 = tx_tax_rate p" "wall d < tx_closes_at p1" "tx_pk p1 = tx_pk p"
    using assms(2,5) by (simp_all add: p1_def refreshed_period_def new_def period_row_def Let_def)
  define p2 where "p2 = refreshed_period d1 (new run' d1) p1"
  define d2 where "d2 = d1\<lparr>periods := update tx_pk (tx_pk p1) (refreshed_period d1 (new run' d1)) (periods d1)\<rparr>"
  have same: "wall d1 = wall d" "config d1 = config d" "policies d1 = policies d" "recipients d1 = recipients d"
      "collate d1 = collate d"
    by (simp_all add: d1_def)
  have en: "enabled_recipients d1 = enabled_recipients d"
    by (simp add: fun_eq_iff enabled_recipients_def same)
  have pol: "effective_policy d1 = effective_policy d" "rate_of d1 = rate_of d"
      "recipient_snapshot d1 = recipient_snapshot d"
    by (simp_all add: fun_eq_iff effective_policy_def rate_of_def recipient_snapshot_def same en Let_def
        split: option.split)
  have s2: "synchronize_period run' x d1 = ([tx_pk p], d2)"
    using assms f1 by (simp add: synchronize_period_def d2_def new_def Let_def same p1)
  have f2: "find_period d2 x = Some p2"
    unfolding d2_def p2_def using f1 by (rule find_period_refreshed) (simp add: source_key_def)
  have "tx_tax_rate p2 = effective_rate d (ex_refinery_id x) pop"
    "tx_allowed_recipients p2 = recipient_snapshot d (effective_policy d (ex_refinery_id x) pop)"
    using p1(2)
    by (simp_all add: p2_def refreshed_period_def new_def period_row_def Let_def same effective_rate_def pol)
  with s1 f1 p1 s2 f2 show ?thesis by blast
qed

end
