(* ===== verification/MT_Billing.thy ===== *)
theory MT_Billing
  imports MT_Reconcile MT_Periods
begin

text \<open>
  The bills of a period (\<open>rebuild_assessments\<close> of \<open>auditor.py\<close>): the preserved mining
  lines summed by account or by character, without losing a decided bill.
\<close>

section \<open>How a line is billed\<close>

definition combine_for :: "mt_db \<Rightarrow> nat \<Rightarrow> bool" where
  "combine_for d user =
     (case List.find (\<lambda>b. bp_user b = user) (rev (preferences d)) of
        Some b \<Rightarrow> bp_combine b | None \<Rightarrow> cf_combine_by_default (config d))"

text \<open>
  The bills with an allocation or an adjustment, in the order of the model
  (\<open>display_name\<close> within a period).
\<close>

definition bill_decided :: "mt_db \<Rightarrow> tax_assessment \<Rightarrow> bool" where
  "bill_decided d a \<longleftrightarrow>
     list_ex (\<lambda>r. al_assessment r = Some (ta_pk a)) (rows (allocations d))
     \<or> list_ex (\<lambda>r. aj_assessment r = ta_pk a) (rows (adjustments d))"

definition decided_bills :: "mt_db \<Rightarrow> nat \<Rightarrow> tax_assessment list" where
  "decided_bills d period =
     sort_key (\<lambda>a. collate d (ta_display_name a)) (filter (bill_decided d) (assessments_of d period))"

text \<open>\<open>locked_characters\<close> and \<open>locked_modes\<close>: the first decided bill of a user sets the mode.\<close>

definition locked_characters :: "tax_assessment list \<Rightarrow> nat list" where
  "locked_characters as =
     map (\<lambda>a. the (ta_character_id a))
       (filter (\<lambda>a. \<not> ta_combined a \<and> truthy (ta_character_id a)) as)"

definition locked_mode :: "tax_assessment list \<Rightarrow> nat \<Rightarrow> bool option" where
  "locked_mode as user =
     map_option ta_combined
       (List.find (\<lambda>a. truthy (ta_auth_user a) \<and> ta_auth_user a = Some user) as)"

definition mode_warnings :: "nat \<Rightarrow> tax_assessment list \<Rightarrow> audit_warning list" where
  "mode_warnings period as =
     map (\<lambda>a. ConflictingModes period (the (ta_auth_user a)))
       (filter (\<lambda>a. truthy (ta_auth_user a)
                   \<and> locked_mode as (the (ta_auth_user a)) \<noteq> Some (ta_combined a)) as)"

definition combines :: "mt_db \<Rightarrow> tax_assessment list \<Rightarrow> mining_line \<Rightarrow> bool" where
  "combines d as l \<longleftrightarrow>
     truthy (ml_auth_user l) \<and> ml_character_id l \<notin> set (locked_characters as)
     \<and> (case locked_mode as (the (ml_auth_user l)) of
          Some m \<Rightarrow> m | None \<Rightarrow> combine_for d (the (ml_auth_user l)))"

text \<open>The key of a bill: \<open>user:<id>\<close> or \<open>character:<id>\<close>.\<close>

datatype billing_key = UserKey nat | CharacterKey nat

fun show_key :: "billing_key \<Rightarrow> string" where
  "show_key (UserKey u) = ''user:'' @ show_nat u"
| "show_key (CharacterKey c) = ''character:'' @ show_nat c"

definition key_of_line :: "mt_db \<Rightarrow> tax_assessment list \<Rightarrow> mining_line \<Rightarrow> billing_key" where
  "key_of_line d as l =
     (if combines d as l then UserKey (the (ml_auth_user l)) else CharacterKey (ml_character_id l))"

text \<open>\<open>period.mining_lines.all()\<close>: by day, character name and type name.\<close>

definition lines_of :: "mt_db \<Rightarrow> nat \<Rightarrow> mining_line list" where
  "lines_of d period =
     sort_key ml_ledger_day (sort_key (\<lambda>l. collate d (ml_character_name l))
       (sort_key (\<lambda>l. collate d (ml_raw_type_name l))
         (filter (\<lambda>l. ml_period l = period) (rows (lines d)))))"

text \<open>The buckets, in the order their first line appears.\<close>

definition bucket_keys :: "mt_db \<Rightarrow> tax_assessment list \<Rightarrow> mining_line list \<Rightarrow> billing_key list" where
  "bucket_keys d as ls = rev (remdups (rev (map (key_of_line d as) ls)))"

definition bucket :: "mt_db \<Rightarrow> tax_assessment list \<Rightarrow> mining_line list \<Rightarrow> billing_key \<Rightarrow> mining_line list" where
  "bucket d as ls key = filter (\<lambda>l. key_of_line d as l = key) ls"

section \<open>Writing the bills\<close>

definition bill_defaults ::
  "mt_db \<Rightarrow> tax_period \<Rightarrow> billing_key \<Rightarrow> mining_line list \<Rightarrow> tax_assessment \<Rightarrow> tax_assessment" where
  "bill_defaults d p key ls a =
     (let user = ml_auth_user (last ls);
          gross = money (sum_list (map ml_gross_value ls));
          tax = money (sum_list (map ml_tax_due ls))
      in a\<lparr>ta_auth_user := user,
           ta_character_id := (case key of UserKey _ \<Rightarrow> None | CharacterKey c \<Rightarrow> Some c),
           ta_display_name := (case key of UserKey u \<Rightarrow> show_user d u
                               | CharacterKey _ \<Rightarrow> ml_character_name (hd ls)),
           ta_combined := (case key of UserKey _ \<Rightarrow> True | CharacterKey _ \<Rightarrow> False),
           ta_gross_value := gross, ta_calculated := tax, ta_tax_due := tax,
           ta_due_at := tx_due_at p, ta_updated_at := wall d\<rparr>)"

definition fresh_bill :: "tax_period \<Rightarrow> billing_key \<Rightarrow> nat \<Rightarrow> tax_assessment" where
  "fresh_bill p key pk =
     \<lparr>ta_pk = pk, ta_period = tx_pk p, ta_billing_key = show_key key, ta_auth_user = None,
      ta_character_id = None, ta_display_name = '''', ta_combined = True, ta_gross_value = 0,
      ta_calculated = 0, ta_adjustment_total = 0, ta_tax_due = 0, ta_approved_paid = 0,
      ta_status = BillOpen, ta_due_at = 0, ta_first_notified_at = None, ta_updated_at = 0\<rparr>"

definition find_bill :: "mt_db \<Rightarrow> nat \<Rightarrow> string \<Rightarrow> tax_assessment option" where
  "find_bill d period key =
     List.find (\<lambda>a. ta_period a = period \<and> ta_billing_key a = key) (rows (assessments d))"

text \<open>\<open>update_or_create\<close> on the period and key, then \<open>recalculate_assessment\<close>.\<close>

definition upsert_bill :: "tax_period \<Rightarrow> billing_key \<Rightarrow> mining_line list \<Rightarrow> mt_db \<Rightarrow> mt_db" where
  "upsert_bill p key ls d =
     (case find_bill d (tx_pk p) (show_key key) of
        Some a \<Rightarrow> recalculate_assessment (ta_pk a)
                    (save_assessment (ta_pk a) (bill_defaults d p key ls) d)
      | None \<Rightarrow> recalculate_assessment (next_pk (assessments d))
                  (d\<lparr>assessments := create (\<lambda>pk. bill_defaults d p key ls (fresh_bill p key pk))
                                      (assessments d)\<rparr>))"

text \<open>A bill no line supports any more: kept for review when decided, else deleted.\<close>

definition retire_bill :: "tax_assessment \<Rightarrow> audit_warning list \<times> mt_db \<Rightarrow> audit_warning list \<times> mt_db" where
  "retire_bill a wd =
     (let (w, d) = wd
      in if bill_decided d a
         then (w @ [RetiredBill (ta_pk a)],
               save_assessment (ta_pk a) (\<lambda>b. b\<lparr>ta_status := BillReview, ta_updated_at := wall d\<rparr>) d)
         else (w, d\<lparr>assessments := delete_where (\<lambda>b. ta_pk b = ta_pk a) (assessments d)\<rparr>))"

definition stale_bills :: "mt_db \<Rightarrow> nat \<Rightarrow> billing_key list \<Rightarrow> tax_assessment list" where
  "stale_bills d period keys =
     sort_key (\<lambda>a. collate d (ta_display_name a))
       (filter (\<lambda>a. ta_billing_key a \<notin> set (map show_key keys)) (assessments_of d period))"

definition rebuild_period :: "nat \<Rightarrow> nat \<times> audit_warning list \<times> mt_db \<Rightarrow> nat \<times> audit_warning list \<times> mt_db" where
  "rebuild_period k state =
     (let (n, w, d) = state
      in case lookup tx_pk k (periods d) of
           None \<Rightarrow> state
         | Some p \<Rightarrow>
             (let as = decided_bills d k;
                  ls = lines_of d k;
                  keys = bucket_keys d as ls;
                  d1 = fold (\<lambda>key. upsert_bill p key (bucket d as ls key)) keys d;
                  (w1, d2) = fold retire_bill (stale_bills d1 k keys) (w @ mode_warnings k as, d1)
              in (n + length keys, w1, recalculate_period k d2)))"

definition rebuild_assessments :: "nat list \<Rightarrow> mt_db \<Rightarrow> nat \<times> audit_warning list \<times> mt_db" where
  "rebuild_assessments ks d = fold rebuild_period ks (0, [], d)"

section \<open>The books through an audit\<close>

lemma assessments_of_update:
  assumes "\<And>a. a \<in> set (rows (assessments d)) \<Longrightarrow> ta_pk a = j \<Longrightarrow> ta_period a \<noteq> m"
    and "\<And>a. ta_period (f a) = ta_period a"
  shows "assessments_of (save_assessment j f d) m = assessments_of d m"
proof -
  have "filter (\<lambda>a. ta_period a = m) (map (\<lambda>a. if ta_pk a = j then f a else a) xs)
      = filter (\<lambda>a. ta_period a = m) xs"
    if "\<And>a. a \<in> set xs \<Longrightarrow> ta_pk a = j \<Longrightarrow> ta_period a \<noteq> m" for xs
    using that assms(2) by (induction xs) auto
  then show ?thesis
    using assms(1) by (simp add: assessments_of_def save_assessment_def rows_update)
qed

lemma save_assessment_frames [books_simps]:
  "periods (save_assessment j f d) = periods d"
  "payments (save_assessment j f d) = payments d"
  "allocations (save_assessment j f d) = allocations d"
  "adjustments (save_assessment j f d) = adjustments d"
  "lines (save_assessment j f d) = lines d"
  "wall (save_assessment j f d) = wall d"
  "config (save_assessment j f d) = config d"
  "bill_balanced (save_assessment j f d) a = bill_balanced d a"
  by (simp_all add: save_assessment_def books_simps)

lemma period_balanced_cong:
  "assessments_of d' (tx_pk p) = assessments_of d (tx_pk p) \<Longrightarrow> period_balanced d' p = period_balanced d p"
  by (simp add: period_balanced_def)

lemma books_except_update_bill:
  assumes "books_except Bs Ps d" and "\<And>a. ta_pk (f a) = ta_pk a" and "\<And>a. ta_period (f a) = ta_period a"
    and "\<And>a. a \<in> set (rows (assessments d)) \<Longrightarrow> ta_pk a = j \<Longrightarrow>
           ta_period a \<in> Ps \<and> (j \<notin> Bs' \<longrightarrow> bill_balanced d (f a))"
    and "Bs - {j} = Bs' - {j}"
  shows "books_except Bs' Ps (save_assessment j f d)"
proof -
  have refs: "refs_sound (save_assessment j f d)"
    using assms(1,2,3)
    by (simp add: books_except_def refs_sound_def save_assessment_def books_simps refs_frame)
  have per: "period_balanced (save_assessment j f d) p"
    if "p \<in> set (rows (periods d))" and "tx_pk p \<notin> Ps" for p
  proof -
    have "assessments_of (save_assessment j f d) (tx_pk p) = assessments_of d (tx_pk p)"
    proof (rule assessments_of_update)
      show "ta_period a \<noteq> tx_pk p" if "a \<in> set (rows (assessments d))" and "ta_pk a = j" for a
        using assms(4) [OF that] \<open>tx_pk p \<notin> Ps\<close> by auto
    qed (rule assms(3))
    moreover have "period_balanced d p"
      using assms(1) that by (simp add: books_except_def)
    ultimately show ?thesis
      by (rule period_balanced_cong [THEN iffD2])
  qed
  have same: "k \<in> Bs' \<longleftrightarrow> k \<in> Bs" if "k \<noteq> j" for k
    using assms(5) that by blast
  have "(ta_pk b \<in> Bs' \<longrightarrow> ta_period b \<in> Ps) \<and> (ta_pk b \<notin> Bs' \<longrightarrow> bill_balanced d b)"
    if b: "b \<in> set (rows (assessments (save_assessment j f d)))" for b
  proof -
    from b obtain a where a: "a \<in> set (rows (assessments d))" "b = (if ta_pk a = j then f a else a)"
      by (auto simp: save_assessment_def rows_update)
    show ?thesis
    proof (cases "ta_pk a = j")
      case True
      with a assms(2,3,4) show ?thesis by auto
    next
      case False
      with a same [OF False] assms(1) show ?thesis by (auto simp: books_except_def)
    qed
  qed
  with refs per show ?thesis
    by (simp add: books_except_def books_simps)
qed

lemma books_except_create_bill:
  assumes "books_except Bs Ps d" and "ta_pk (f (next_pk (assessments d))) = next_pk (assessments d)"
    and "ta_period (f (next_pk (assessments d))) = m" and "m \<in> Ps" and "m \<in> tx_pk ` set (rows (periods d))"
    and "next_pk (assessments d) \<notin> Bs"
  shows "books_except (insert (next_pk (assessments d)) Bs) Ps (d\<lparr>assessments := create f (assessments d)\<rparr>)"
proof -
  let ?d = "d\<lparr>assessments := create f (assessments d)\<rparr>"
  have keyed: "well_keyed ta_pk (assessments d)"
    using assms(1) by (simp add: books_except_def refs_sound_def)
  have "refs_sound ?d"
    using assms(1,2,3,5)
    by (auto simp: books_except_def refs_sound_def well_keyed_create rows_create books_simps
        allocation_sound_def)
  moreover have "period_balanced ?d p" if "p \<in> set (rows (periods d))" and "tx_pk p \<notin> Ps" for p
  proof -
    have "assessments_of ?d (tx_pk p) = assessments_of d (tx_pk p)"
      using assms(3,4) that(2) by (auto simp: assessments_of_def rows_create)
    moreover have "period_balanced d p"
      using assms(1) that by (simp add: books_except_def)
    ultimately show ?thesis
      by (rule period_balanced_cong [THEN iffD2])
  qed
  moreover have "(ta_pk b \<in> insert (next_pk (assessments d)) Bs \<longrightarrow> ta_period b \<in> Ps)
      \<and> (ta_pk b \<notin> insert (next_pk (assessments d)) Bs \<longrightarrow> bill_balanced ?d b)"
    if "b \<in> set (rows (assessments ?d))" for b
  proof (cases "b = f (next_pk (assessments d))")
    case True
    with assms(2,3,4) show ?thesis by simp
  next
    case False
    then have b: "b \<in> set (rows (assessments d))"
      using that by (simp add: rows_create)
    have "ta_pk b \<noteq> next_pk (assessments d)"
      using keyed b by (auto simp: well_keyed_def)
    moreover have "(ta_pk b \<in> Bs \<longrightarrow> ta_period b \<in> Ps) \<and> (ta_pk b \<notin> Bs \<longrightarrow> bill_balanced d b)"
      using assms(1) b by (simp add: books_except_def)
    ultimately show ?thesis
      by (simp add: books_simps)
  qed
  ultimately show ?thesis
    by (simp add: books_except_def)
qed

lemma bill_defaults_fields [simp]:
  "ta_pk (bill_defaults d p key ls a) = ta_pk a"
  "ta_period (bill_defaults d p key ls a) = ta_period a"
  "ta_billing_key (bill_defaults d p key ls a) = ta_billing_key a"
  by (simp_all add: bill_defaults_def Let_def)

lemma fresh_bill_fields [simp]:
  "ta_pk (fresh_bill p key k) = k"
  "ta_period (fresh_bill p key k) = tx_pk p"
  "ta_billing_key (fresh_bill p key k) = show_key key"
  by (simp_all add: fresh_bill_def)

lemma books_upsert_bill:
  assumes "books_except {} Ps d" and "p \<in> set (rows (periods d))" and "tx_pk p \<in> Ps"
  shows "books_except {} Ps (upsert_bill p key ls d)"
proof (cases "find_bill d (tx_pk p) (show_key key)")
  case (Some a)
  have a: "a \<in> set (rows (assessments d))" "ta_period a = tx_pk p"
    using Some by (auto simp: find_bill_def dest: find_SomeD)
  have keyed: "well_keyed ta_pk (assessments d)"
    using assms(1) by (simp add: books_except_def refs_sound_def)
  have "books_except {ta_pk a} Ps (save_assessment (ta_pk a) (bill_defaults d p key ls) d)"
  proof (rule books_except_update_bill [OF assms(1)])
    fix b assume "b \<in> set (rows (assessments d))" and "ta_pk b = ta_pk a"
    then have "b = a"
      using tbl.content_unique [OF keyed] a(1) by blast
    then show "ta_period b \<in> Ps \<and> (ta_pk a \<notin> {ta_pk a} \<longrightarrow> bill_balanced d (bill_defaults d p key ls b))"
      using a(2) assms(3) by simp
  qed auto
  from books_recalculate_assessment [OF this, of "ta_pk a"] show ?thesis
    using Some by (simp add: upsert_bill_def)
next
  case None
  have "books_except {next_pk (assessments d)} Ps
      (d\<lparr>assessments := create (\<lambda>pk. bill_defaults d p key ls (fresh_bill p key pk)) (assessments d)\<rparr>)"
    using assms by (intro books_except_create_bill [where m = "tx_pk p"]) auto
  from books_recalculate_assessment [OF this, of "next_pk (assessments d)"] show ?thesis
    using None by (simp add: upsert_bill_def)
qed

lemma upsert_bill_frames [books_simps]:
  "periods (upsert_bill p key ls d) = periods d"
  "payments (upsert_bill p key ls d) = payments d"
  "allocations (upsert_bill p key ls d) = allocations d"
  "adjustments (upsert_bill p key ls d) = adjustments d"
  "wall (upsert_bill p key ls d) = wall d"
  "config (upsert_bill p key ls d) = config d"
  by (simp_all add: upsert_bill_def books_simps split: option.split)

lemma retire_bill_frames [books_simps]:
  "periods (snd (retire_bill a s)) = periods (snd s)"
  "payments (snd (retire_bill a s)) = payments (snd s)"
  "allocations (snd (retire_bill a s)) = allocations (snd s)"
  "adjustments (snd (retire_bill a s)) = adjustments (snd s)"
  "wall (snd (retire_bill a s)) = wall (snd s)"
  "config (snd (retire_bill a s)) = config (snd s)"
  by (simp_all add: retire_bill_def books_simps split: prod.split)

lemma refs_sound_delete_bill:
  assumes "refs_sound d" and "\<not> bill_decided d a"
  shows "refs_sound (d\<lparr>assessments := delete_where (\<lambda>b. ta_pk b = ta_pk a) (assessments d)\<rparr>)"
proof -
  have al: "al_assessment r \<noteq> Some (ta_pk a)" if "r \<in> set (rows (allocations d))" for r
    using assms(2) that by (auto simp: bill_decided_def list_ex_iff)
  have aj: "aj_assessment r \<noteq> ta_pk a" if "r \<in> set (rows (adjustments d))" for r
    using assms(2) that by (auto simp: bill_decided_def list_ex_iff)
  have still: "k \<in> ta_pk ` set (filter (\<lambda>b. ta_pk b \<noteq> ta_pk a) (rows (assessments d)))"
    if "k \<in> ta_pk ` set (rows (assessments d))" and "k \<noteq> ta_pk a" for k
    using that by auto
  have "allocation_sound (d\<lparr>assessments := delete_where (\<lambda>b. ta_pk b = ta_pk a) (assessments d)\<rparr>) r"
    if "r \<in> set (rows (allocations d))" for r
  proof -
    have "allocation_sound d r"
      using assms(1) that by (simp add: refs_sound_def)
    then show ?thesis
      using al [OF that] still by (auto simp: allocation_sound_def rows_delete_where)
  qed
  moreover have "aj_assessment r \<in> ta_pk ` set (filter (\<lambda>b. ta_pk b \<noteq> ta_pk a) (rows (assessments d)))"
    if "r \<in> set (rows (adjustments d))" for r
    using assms(1) aj [OF that] that still by (auto simp: refs_sound_def)
  ultimately show ?thesis
    using assms(1)
    by (simp add: refs_sound_def well_keyed_delete_where rows_delete_where books_simps)
qed

lemma books_retire_bill:
  assumes "books_except {} Ps d"
    and "\<And>b. b \<in> set (rows (assessments d)) \<Longrightarrow> ta_pk b = ta_pk a \<Longrightarrow> ta_period b \<in> Ps"
  shows "books_except {} Ps (snd (retire_bill a (w, d)))"
proof (cases "bill_decided d a")
  case True
  let ?f = "\<lambda>b. b\<lparr>ta_status := BillReview, ta_updated_at := wall d\<rparr>"
  have "books_except {} Ps (save_assessment (ta_pk a) ?f d)"
  proof (rule books_except_update_bill [OF assms(1)])
    fix b assume b: "b \<in> set (rows (assessments d))" "ta_pk b = ta_pk a"
    have "bill_balanced d b"
      using assms(1) b(1) by (simp add: books_except_def)
    then show "ta_period b \<in> Ps \<and> (ta_pk a \<notin> {} \<longrightarrow> bill_balanced d (?f b))"
      using assms(2) b by (simp add: bill_balanced_def)
  qed simp_all
  then show ?thesis
    using True by (simp add: retire_bill_def)
next
  case False
  let ?d = "d\<lparr>assessments := delete_where (\<lambda>b. ta_pk b = ta_pk a) (assessments d)\<rparr>"
  have "refs_sound d"
    using assms(1) by (simp add: books_except_def)
  then have "refs_sound ?d"
    using False by (rule refs_sound_delete_bill)
  moreover have "period_balanced ?d p" if "p \<in> set (rows (periods d))" and "tx_pk p \<notin> Ps" for p
  proof -
    have "assessments_of ?d (tx_pk p) = assessments_of d (tx_pk p)"
      unfolding assessments_of_def using assms(2) that(2)
      by (simp add: rows_delete_where) (rule filter_agree, metis)
    moreover have "period_balanced d p"
      using assms(1) that by (simp add: books_except_def)
    ultimately show ?thesis
      by (rule period_balanced_cong [THEN iffD2])
  qed
  moreover have "bill_balanced ?d b" if "b \<in> set (rows (assessments ?d))" for b
    using assms(1) that by (simp add: books_except_def rows_delete_where books_simps)
  ultimately have "books_except {} Ps ?d"
    by (simp add: books_except_def)
  then show ?thesis
    using False by (simp add: retire_bill_def)
qed

lemma rows_retire_bill:
  assumes "b \<in> set (rows (assessments (snd (retire_bill a (w, d)))))"
  shows "\<exists>c \<in> set (rows (assessments d)). ta_pk b = ta_pk c \<and> ta_period b = ta_period c
    \<and> ta_billing_key b = ta_billing_key c \<and> ta_calculated b = ta_calculated c"
proof (cases "bill_decided d a")
  case True
  then obtain c where "c \<in> set (rows (assessments d))"
    and "b = (if ta_pk c = ta_pk a then c\<lparr>ta_status := BillReview, ta_updated_at := wall d\<rparr> else c)"
    using assms by (auto simp: retire_bill_def save_assessment_def rows_update)
  then show ?thesis
    by (intro bexI [of _ c]) simp_all
next
  case False
  then show ?thesis
    using assms by (auto simp: retire_bill_def rows_delete_where)
qed

lemma fold_retire_frames [books_simps]:
  "periods (snd (fold retire_bill as s)) = periods (snd s)"
  "payments (snd (fold retire_bill as s)) = payments (snd s)"
  "allocations (snd (fold retire_bill as s)) = allocations (snd s)"
  "adjustments (snd (fold retire_bill as s)) = adjustments (snd s)"
  "wall (snd (fold retire_bill as s)) = wall (snd s)"
  "config (snd (fold retire_bill as s)) = config (snd s)"
  by (induction as arbitrary: s; simp add: books_simps)+

lemma books_fold_retire:
  assumes "books_except {} Ps d"
    and "\<And>a b. a \<in> set as \<Longrightarrow> b \<in> set (rows (assessments d)) \<Longrightarrow> ta_pk b = ta_pk a \<Longrightarrow> ta_period b \<in> Ps"
  shows "books_except {} Ps (snd (fold retire_bill as (w, d)))"
  using assms
proof (induction as arbitrary: w d)
  case (Cons a as)
  obtain w1 d1 where one: "retire_bill a (w, d) = (w1, d1)"
    by fastforce
  have "books_except {} Ps (snd (retire_bill a (w, d)))"
    using Cons.prems by (intro books_retire_bill) auto
  then have "books_except {} Ps d1"
    by (simp add: one)
  moreover have "ta_period b \<in> Ps" if "a' \<in> set as" "b \<in> set (rows (assessments d1))" "ta_pk b = ta_pk a'" for a' b
    using rows_retire_bill [of b a w d] that Cons.prems(2) one by fastforce
  ultimately show ?case
    using Cons.IH [of d1 w1] by (simp add: one)
qed simp

lemma fold_upsert_frames [books_simps]:
  "periods (fold (\<lambda>key. upsert_bill p key (g key)) keys d) = periods d"
  "payments (fold (\<lambda>key. upsert_bill p key (g key)) keys d) = payments d"
  "allocations (fold (\<lambda>key. upsert_bill p key (g key)) keys d) = allocations d"
  "adjustments (fold (\<lambda>key. upsert_bill p key (g key)) keys d) = adjustments d"
  "wall (fold (\<lambda>key. upsert_bill p key (g key)) keys d) = wall d"
  "config (fold (\<lambda>key. upsert_bill p key (g key)) keys d) = config d"
  by (induction keys arbitrary: d; simp add: books_simps)+

lemma books_fold_upsert:
  assumes "books_except {} Ps d" and "p \<in> set (rows (periods d))" and "tx_pk p \<in> Ps"
  shows "books_except {} Ps (fold (\<lambda>key. upsert_bill p key (g key)) keys d)"
  using assms
proof (induction keys arbitrary: d)
  case (Cons key keys)
  have "books_except {} Ps (upsert_bill p key (g key) d)"
    using Cons.prems by (rule books_upsert_bill)
  then show ?case
    using Cons.IH Cons.prems(2,3) by (simp add: books_simps)
qed simp

lemma books_rebuild_period:
  assumes "books d" and "rebuild_period k (n, w, d) = (n', w', d')"
  shows "books d'" and "payments d' = payments d" and "allocations d' = allocations d"
    and "adjustments d' = adjustments d" and "wall d' = wall d"
proof -
  have "books d' \<and> payments d' = payments d \<and> allocations d' = allocations d
      \<and> adjustments d' = adjustments d \<and> wall d' = wall d"
  proof (cases "lookup tx_pk k (periods d)")
    case None
    with assms show ?thesis by (simp add: rebuild_period_def)
  next
    case (Some p)
    let ?as = "decided_bills d k" and ?ls = "lines_of d k"
    let ?keys = "bucket_keys d ?as ?ls"
    let ?d1 = "fold (\<lambda>key. upsert_bill p key (bucket d ?as ?ls key)) ?keys d"
    let ?s = "(w @ mode_warnings k ?as, ?d1)"
    let ?d2 = "snd (fold retire_bill (stale_bills ?d1 k ?keys) ?s)"
    have p: "p \<in> set (rows (periods d))" "tx_pk p = k"
      using Some by (auto dest: lookup_SomeD)
    have d': "d' = recalculate_period k ?d2"
      using assms(2) Some by (auto simp: rebuild_period_def Let_def split: prod.splits)
    have "books_except {} {k} d"
      using assms(1) unfolding books_def by (rule books_except_mono) auto
    then have d1: "books_except {} {k} ?d1"
      using p by (intro books_fold_upsert) simp_all
    have "books_except {} {k} ?d2"
    proof (rule books_fold_retire [OF d1])
      fix a b assume "a \<in> set (stale_bills ?d1 k ?keys)" and b: "b \<in> set (rows (assessments ?d1))" "ta_pk b = ta_pk a"
      then have a: "a \<in> set (rows (assessments ?d1))" "ta_period a = k"
        by (auto simp: stale_bills_def assessments_of_def)
      have "well_keyed ta_pk (assessments ?d1)"
        using d1 by (simp add: books_except_def refs_sound_def)
      then have "b = a"
        using a(1) b by (auto intro: tbl.content_unique)
      with a show "ta_period b \<in> {k}" by simp
    qed
    then have "books_except {} ({k} - {k}) d'"
      unfolding d' by (rule books_recalculate_period)
    then show ?thesis
      unfolding d' by (simp add: books_def books_simps)
  qed
  then show "books d'" "payments d' = payments d" "allocations d' = allocations d"
    "adjustments d' = adjustments d" "wall d' = wall d"
    by simp_all
qed

lemma sound_fold_rebuild:
  assumes "sound d" and "fold rebuild_period ks (n, w, d) = (n', w', d')"
  shows "sound d' \<and> payments d' = payments d \<and> allocations d' = allocations d \<and> wall d' = wall d"
  using assms
proof (induction ks arbitrary: n w d)
  case (Cons k ks)
  obtain n1 w1 d1 where one: "rebuild_period k (n, w, d) = (n1, w1, d1)"
    by (metis prod_cases3)
  have "books d"
    using Cons.prems(1) by (simp add: sound_def)
  note f = books_rebuild_period [OF this one]
  then have "sound d1"
    by (intro sound_frame [OF Cons.prems(1)])
  moreover have "fold rebuild_period ks (n1, w1, d1) = (n', w', d')"
    using Cons.prems(2) by (simp add: one)
  ultimately show ?case
    using Cons.IH f by simp
qed simp

section \<open>Decided bills survive\<close>

lemma bill_decided_cong:
  "ta_pk a = ta_pk b \<Longrightarrow> allocations d = allocations d' \<Longrightarrow> adjustments d = adjustments d' \<Longrightarrow>
     bill_decided d a = bill_decided d' b"
  by (simp add: bill_decided_def)

definition bill_at :: "nat \<Rightarrow> nat \<Rightarrow> string \<Rightarrow> mt_db \<Rightarrow> bool" where
  "bill_at j m s d \<longleftrightarrow>
     (\<exists>a \<in> set (rows (assessments d)). ta_pk a = j \<and> ta_period a = m \<and> ta_billing_key a = s)"

lemma bill_at_update:
  assumes "bill_at j m s d" and "\<And>a. ta_pk (f a) = ta_pk a" and "\<And>a. ta_period (f a) = ta_period a"
    and "\<And>a. ta_billing_key (f a) = ta_billing_key a"
  shows "bill_at j m s (save_assessment k f d)"
proof -
  from assms(1) obtain a where a: "a \<in> set (rows (assessments d))" "ta_pk a = j" "ta_period a = m"
      "ta_billing_key a = s"
    by (auto simp: bill_at_def)
  then have "(if ta_pk a = k then f a else a) \<in> set (rows (assessments (save_assessment k f d)))"
    by (auto simp: save_assessment_def rows_update)
  then show ?thesis
    unfolding bill_at_def using a assms(2-4)
    by (intro bexI [of _ "if ta_pk a = k then f a else a"]) simp_all
qed

lemma bill_at_recalculate: "bill_at j m s d \<Longrightarrow> bill_at j m s (recalculate_assessment k d)"
  unfolding recalculate_assessment_def by (rule bill_at_update) simp_all

lemma bill_at_upsert: "bill_at j m s d \<Longrightarrow> bill_at j m s (upsert_bill p key ls d)"
proof (cases "find_bill d (tx_pk p) (show_key key)")
  case None
  assume "bill_at j m s d"
  then have "bill_at j m s (d\<lparr>assessments := create (\<lambda>pk. bill_defaults d p key ls (fresh_bill p key pk))
      (assessments d)\<rparr>)"
    by (auto simp: bill_at_def rows_create)
  then show ?thesis
    using None by (simp add: upsert_bill_def bill_at_recalculate)
next
  case (Some a)
  assume "bill_at j m s d"
  then show ?thesis
    using Some by (auto simp: upsert_bill_def intro!: bill_at_recalculate bill_at_update)
qed

lemma bill_at_fold_upsert:
  "bill_at j m s d \<Longrightarrow> bill_at j m s (fold (\<lambda>key. upsert_bill p key (g key)) keys d)"
  by (induction keys arbitrary: d) (simp_all add: bill_at_upsert)

lemma bill_at_retire:
  assumes "bill_at j m s d" and "\<And>a. ta_pk a = j \<Longrightarrow> bill_decided d a"
  shows "bill_at j m s (snd (retire_bill b (w, d)))"
proof (cases "bill_decided d b")
  case True
  then show ?thesis
    using assms(1) by (auto simp: retire_bill_def intro!: bill_at_update)
next
  case False
  with assms(2) have "ta_pk b \<noteq> j" by blast
  with False assms(1) show ?thesis
    by (auto simp: retire_bill_def bill_at_def rows_delete_where)
qed

lemma bill_at_fold_retire:
  assumes "bill_at j m s d" and "\<And>a. ta_pk a = j \<Longrightarrow> bill_decided d a"
  shows "bill_at j m s (snd (fold retire_bill as (w, d)))"
  using assms
proof (induction as arbitrary: w d)
  case (Cons b as)
  obtain w1 d1 where one: "retire_bill b (w, d) = (w1, d1)"
    by fastforce
  have "bill_at j m s d1"
    using bill_at_retire [OF Cons.prems] one by (metis snd_conv)
  moreover have "bill_decided d1 a" if "ta_pk a = j" for a
    using Cons.prems(2) [OF that] retire_bill_frames(3,4) [of b "(w, d)"] one
    by (simp add: bill_decided_def)
  ultimately show ?case
    using Cons.IH by (simp add: one)
qed simp

lemma bill_at_rebuild_period:
  assumes "bill_at j m s d" and "\<And>a. ta_pk a = j \<Longrightarrow> bill_decided d a"
    and "rebuild_period k (n, w, d) = (n', w', d')"
  shows "bill_at j m s d'"
proof (cases "lookup tx_pk k (periods d)")
  case None
  with assms show ?thesis by (simp add: rebuild_period_def)
next
  case (Some p)
  let ?as = "decided_bills d k" and ?ls = "lines_of d k"
  let ?keys = "bucket_keys d ?as ?ls"
  let ?d1 = "fold (\<lambda>key. upsert_bill p key (bucket d ?as ?ls key)) ?keys d"
  have "d' = recalculate_period k (snd (fold retire_bill (stale_bills ?d1 k ?keys)
      (w @ mode_warnings k ?as, ?d1)))"
    using assms(3) Some by (auto simp: rebuild_period_def Let_def split: prod.splits)
  moreover have "bill_at j m s (snd (fold retire_bill (stale_bills ?d1 k ?keys)
      (w @ mode_warnings k ?as, ?d1)))"
    using bill_at_fold_upsert [OF assms(1)] assms(2)
    by (intro bill_at_fold_retire) (auto simp: bill_decided_def books_simps)
  ultimately show ?thesis
    by (simp add: bill_at_def books_simps)
qed

text \<open>
  C8. An audit never deletes a decided bill: a bill with an allocation or with an
  adjustment, even a reversed one, is still there after the bills are rebuilt, with
  its key and its period.
\<close>

theorem rebuild_keeps_decided_bills:
  assumes "sound d" and "a \<in> set (rows (assessments d))" and "bill_decided d a"
    and "rebuild_assessments ks d = (n, w, d')"
  shows "\<exists>b \<in> set (rows (assessments d')). ta_pk b = ta_pk a \<and> ta_period b = ta_period a
    \<and> ta_billing_key b = ta_billing_key a"
proof -
  have run: "bill_at j m s d'"
    if "sound d0" "bill_at j m s d0" "\<And>a. ta_pk a = j \<Longrightarrow> bill_decided d0 a"
      "fold rebuild_period ks (n0, w0, d0) = (n, w, d')" for j m s d0 n0 w0
    using that
  proof (induction ks arbitrary: d0 n0 w0)
    case (Cons k ks)
    obtain n1 w1 d1 where one: "rebuild_period k (n0, w0, d0) = (n1, w1, d1)"
      by (metis prod_cases3)
    have bk: "books d0"
      using Cons.prems(1) by (simp add: sound_def)
    note f = books_rebuild_period [OF bk one]
    have "sound d1"
      using f by (intro sound_frame [OF Cons.prems(1)])
    moreover have "bill_at j m s d1"
      using bill_at_rebuild_period [OF Cons.prems(2,3) one] .
    moreover have "bill_decided d1 a" if "ta_pk a = j" for a
      using Cons.prems(3) [OF that] f by (simp add: bill_decided_def)
    ultimately show ?case
      using Cons.IH Cons.prems(4) by (simp add: one)
  qed simp
  have "bill_at (ta_pk a) (ta_period a) (ta_billing_key a) d"
    using assms(2) by (auto simp: bill_at_def)
  moreover have "bill_decided d c" if "ta_pk c = ta_pk a" for c
    using assms(3) that by (simp add: bill_decided_def)
  ultimately have "bill_at (ta_pk a) (ta_period a) (ta_billing_key a) d'"
    using run [OF assms(1)] assms(4) unfolding rebuild_assessments_def by blast
  then show ?thesis
    by (auto simp: bill_at_def)
qed

text \<open>
  An audit that rebuilds the bills keeps the books balanced and the excluded
  payments unfunded, and leaves payments and allocations alone.
\<close>

theorem rebuild_keeps_books:
  assumes "sound d" and "rebuild_assessments ks d = (n, w, d')"
  shows "sound d' \<and> payments d' = payments d \<and> allocations d' = allocations d"
  using sound_fold_rebuild [OF assms(1)] assms(2) by (simp add: rebuild_assessments_def)

section \<open>The bills add up to the lines\<close>

definition bills_unique :: "mt_db \<Rightarrow> bool" where
  "bills_unique d \<longleftrightarrow> distinct (map (\<lambda>a. (ta_period a, ta_billing_key a)) (rows (assessments d)))"

lemma show_key_inj [simp]: "show_key a = show_key b \<longleftrightarrow> a = b"
  by (cases a; cases b) (auto dest: arg_cong [where f = read_nat])

lemma find_bill_save:
  assumes "\<And>a. ta_period (f a) = ta_period a" and "\<And>a. ta_billing_key (f a) = ta_billing_key a"
  shows "find_bill (save_assessment j f d) m s =
    map_option (\<lambda>a. if ta_pk a = j then f a else a) (find_bill d m s)"
  unfolding find_bill_def save_assessment_def
  by (simp add: rows_update) (rule find_map_keep, simp add: assms)

lemma find_bill_recalculate:
  "find_bill (recalculate_assessment j d) m s =
     map_option (\<lambda>a. if ta_pk a = j then recalculated d a else a) (find_bill d m s)"
  unfolding recalculate_assessment_def by (rule find_bill_save) simp_all

lemma bills_unique_save:
  assumes "bills_unique d" and "\<And>a. ta_period (f a) = ta_period a" and "\<And>a. ta_billing_key (f a) = ta_billing_key a"
  shows "bills_unique (save_assessment j f d)"
proof -
  have "map (\<lambda>a. (ta_period a, ta_billing_key a)) (rows (assessments (save_assessment j f d))) =
      map (\<lambda>a. (ta_period a, ta_billing_key a)) (rows (assessments d))"
    using assms(2,3) by (simp add: save_assessment_def rows_update)
  with assms(1) show ?thesis
    unfolding bills_unique_def by (simp only:)
qed

lemma keyed_save:
  "well_keyed ta_pk (assessments d) \<Longrightarrow> (\<And>a. ta_pk (f a) = ta_pk a) \<Longrightarrow>
     well_keyed ta_pk (assessments (save_assessment j f d))"
  by (simp add: save_assessment_def well_keyed_update)

text \<open>One bucket: its bill carries the sums of its lines, every other bill is as before.\<close>

lemma upsert_bill_find:
  assumes "bills_unique d" and "well_keyed ta_pk (assessments d)"
  shows "bills_unique (upsert_bill p key ls d) \<and> well_keyed ta_pk (assessments (upsert_bill p key ls d))
    \<and> (\<exists>b. find_bill (upsert_bill p key ls d) (tx_pk p) (show_key key) = Some b
         \<and> ta_calculated b = money (sum_list (map ml_tax_due ls))
         \<and> ta_gross_value b = money (sum_list (map ml_gross_value ls)))
    \<and> (\<forall>s. s \<noteq> show_key key \<longrightarrow> find_bill (upsert_bill p key ls d) (tx_pk p) s = find_bill d (tx_pk p) s)"
proof (cases "find_bill d (tx_pk p) (show_key key)")
  case (Some a)
  let ?d1 = "save_assessment (ta_pk a) (bill_defaults d p key ls) d"
  have up: "upsert_bill p key ls d = recalculate_assessment (ta_pk a) ?d1"
    using Some by (simp add: upsert_bill_def)
  have a: "a \<in> set (rows (assessments d))" "ta_billing_key a = show_key key"
    using Some by (auto simp: find_bill_def dest: find_SomeD)
  have find: "find_bill (upsert_bill p key ls d) (tx_pk p) s =
      map_option (\<lambda>c. if ta_pk c = ta_pk a then recalculated ?d1 (bill_defaults d p key ls c) else c)
        (find_bill d (tx_pk p) s)" for s
  proof -
    show ?thesis
      unfolding up find_bill_recalculate
      by (subst find_bill_save) (cases "find_bill d (tx_pk p) s"; simp)+
  qed
  have "find_bill (upsert_bill p key ls d) (tx_pk p) s = find_bill d (tx_pk p) s" if "s \<noteq> show_key key" for s
  proof (cases "find_bill d (tx_pk p) s")
    case None
    then show ?thesis by (simp add: find)
  next
    case (Some c)
    then have "c \<in> set (rows (assessments d))" and "ta_billing_key c = s"
      by (auto simp: find_bill_def dest: find_SomeD)
    then have "ta_pk c \<noteq> ta_pk a"
      using tbl.content_unique [OF assms(2) _ a(1)] a(2) that by auto
    with Some show ?thesis by (simp add: find)
  qed
  moreover have "bills_unique (upsert_bill p key ls d)" and "well_keyed ta_pk (assessments (upsert_bill p key ls d))"
    unfolding up recalculate_assessment_def using assms by (simp_all add: bills_unique_save keyed_save)
  ultimately show ?thesis
    using find [of "show_key key"] Some
    by (simp add: recalculated_def bill_defaults_def Let_def)
next
  case None
  let ?new = "\<lambda>pk. bill_defaults d p key ls (fresh_bill p key pk)"
  let ?n = "next_pk (assessments d)"
  let ?d1 = "d\<lparr>assessments := create ?new (assessments d)\<rparr>"
  have up: "upsert_bill p key ls d = recalculate_assessment ?n ?d1"
    using None by (simp add: upsert_bill_def)
  have old: "ta_pk c \<noteq> ?n" if "find_bill d (tx_pk p) s = Some c" for s c
    using that assms(2) by (auto simp: find_bill_def well_keyed_def dest!: find_SomeD)
  have find1: "find_bill ?d1 (tx_pk p) s =
      (if s = show_key key then Some (?new ?n) else find_bill d (tx_pk p) s)" for s
    using None by (auto simp: find_bill_def rows_create find_append split: option.split)
  have "bills_unique ?d1"
    using assms(1) None by (auto simp: bills_unique_def rows_create find_bill_def find_None_iff)
  moreover have "well_keyed ta_pk (assessments ?d1)"
    using assms(2) by (simp add: well_keyed_create)
  ultimately have "bills_unique (upsert_bill p key ls d)" and "well_keyed ta_pk (assessments (upsert_bill p key ls d))"
    unfolding up recalculate_assessment_def by (simp_all add: bills_unique_save keyed_save)
  moreover have "find_bill (upsert_bill p key ls d) (tx_pk p) s = find_bill d (tx_pk p) s" if "s \<noteq> show_key key" for s
    using that old [of s] by (cases "find_bill d (tx_pk p) s") (simp_all add: up find_bill_recalculate find1)
  ultimately show ?thesis
    by (simp add: up find_bill_recalculate find1) (simp add: recalculated_def bill_defaults_def Let_def)
qed

lemma fold_upsert_find:
  assumes "bills_unique d" and "well_keyed ta_pk (assessments d)" and "distinct keys"
    and "d1 = fold (\<lambda>key. upsert_bill p key (g key)) keys d"
  shows "bills_unique d1 \<and> well_keyed ta_pk (assessments d1)
    \<and> (\<forall>key \<in> set keys. \<exists>b. find_bill d1 (tx_pk p) (show_key key) = Some b
         \<and> ta_calculated b = money (sum_list (map ml_tax_due (g key)))
         \<and> ta_gross_value b = money (sum_list (map ml_gross_value (g key))))
    \<and> (\<forall>s. s \<notin> show_key ` set keys \<longrightarrow> find_bill d1 (tx_pk p) s = find_bill d (tx_pk p) s)"
  using assms
proof (induction keys arbitrary: d)
  case (Cons key keys)
  note u = upsert_bill_find [OF Cons.prems(1,2), of p key "g key"]
  have IH: "bills_unique d1 \<and> well_keyed ta_pk (assessments d1)
    \<and> (\<forall>key \<in> set keys. \<exists>b. find_bill d1 (tx_pk p) (show_key key) = Some b
         \<and> ta_calculated b = money (sum_list (map ml_tax_due (g key)))
         \<and> ta_gross_value b = money (sum_list (map ml_gross_value (g key))))
    \<and> (\<forall>s. s \<notin> show_key ` set keys \<longrightarrow>
         find_bill d1 (tx_pk p) s = find_bill (upsert_bill p key (g key) d) (tx_pk p) s)"
    using Cons.IH [of "upsert_bill p key (g key) d"] u Cons.prems(3,4) by simp
  moreover have "show_key key \<notin> show_key ` set keys"
    using Cons.prems(3) by auto
  ultimately show ?case
    using u by auto
qed simp

text \<open>The bills the lines of the period ask for, untouched while the stale ones are retired.\<close>

definition bills_with_keys :: "mt_db \<Rightarrow> nat \<Rightarrow> string set \<Rightarrow> tax_assessment list" where
  "bills_with_keys d k S = filter (\<lambda>a. ta_billing_key a \<in> S) (assessments_of d k)"

definition under_review :: "mt_db \<Rightarrow> nat \<Rightarrow> string set \<Rightarrow> nat set \<Rightarrow> bool" where
  "under_review d k S js \<longleftrightarrow>
     (\<forall>b \<in> set (assessments_of d k). ta_billing_key b \<notin> S \<longrightarrow> ta_status b = BillReview \<or> ta_pk b \<in> js)"

lemma retire_bill_keeps_active:
  assumes "\<And>b. b \<in> set (rows (assessments d)) \<Longrightarrow> ta_pk b = ta_pk a \<Longrightarrow> ta_billing_key b \<notin> S"
  shows "bills_with_keys (snd (retire_bill a (w, d))) k S = bills_with_keys d k S"
proof -
  let ?f = "\<lambda>b. b\<lparr>ta_status := BillReview, ta_updated_at := wall d\<rparr>"
  let ?P = "\<lambda>b. ta_period b = k \<and> ta_billing_key b \<in> S"
  have upd: "filter ?P (map (\<lambda>b. if ta_pk b = ta_pk a then ?f b else b) xs) = filter ?P xs"
    and del: "filter (\<lambda>b. ta_pk b \<noteq> ta_pk a \<and> ?P b) xs = filter ?P xs"
    if "\<And>b. b \<in> set xs \<Longrightarrow> ta_pk b = ta_pk a \<Longrightarrow> ta_billing_key b \<notin> S" for xs
    using that by (induction xs) auto
  show ?thesis
  proof (cases "bill_decided d a")
    case True
    then show ?thesis
      unfolding bills_with_keys_def assessments_of_def filter_filter
      by (simp add: retire_bill_def save_assessment_def rows_update del: filter_filter)
        (rule upd, erule assms)
  next
    case False
    then show ?thesis
      unfolding bills_with_keys_def assessments_of_def filter_filter
      by (simp add: retire_bill_def rows_delete_where filter_filter) (rule del, erule assms)
  qed
qed

lemma retire_bill_under_review:
  assumes "under_review d k S (insert (ta_pk a) js)"
  shows "under_review (snd (retire_bill a (w, d))) k S js"
  using assms
  by (auto simp: under_review_def assessments_of_def retire_bill_def save_assessment_def
      rows_update rows_delete_where split: if_splits)

lemma fold_retire_settles:
  assumes "\<And>a b. a \<in> set as \<Longrightarrow> b \<in> set (rows (assessments d)) \<Longrightarrow> ta_pk b = ta_pk a \<Longrightarrow> ta_billing_key b \<notin> S"
    and "under_review d k S (ta_pk ` set as)"
    and "d' = snd (fold retire_bill as (w, d))"
  shows "bills_with_keys d' k S = bills_with_keys d k S \<and> under_review d' k S {}"
  using assms
proof (induction as arbitrary: w d)
  case (Cons a as)
  obtain w1 d1 where one: "retire_bill a (w, d) = (w1, d1)"
    by fastforce
  have "ta_billing_key b \<notin> S" if "a' \<in> set as" "b \<in> set (rows (assessments d1))" "ta_pk b = ta_pk a'" for a' b
    using rows_retire_bill [of b a w d] that Cons.prems(1) one by fastforce
  moreover have "under_review d1 k S (ta_pk ` set as)"
    using retire_bill_under_review [of d k S a "ta_pk ` set as" w] Cons.prems(2) one by simp
  moreover have "bills_with_keys d1 k S = bills_with_keys d k S"
    using retire_bill_keeps_active [of d a S w k] Cons.prems(1) [of a] unfolding one
    by (metis list.set_intros(1) snd_conv)
  ultimately show ?case
    using Cons.IH [of d1 w1] Cons.prems(3) by (simp add: one)
qed simp

text \<open>Amounts of the columns: not negative, two decimal places.\<close>

definition cents :: "decimal \<Rightarrow> bool" where
  "cents x \<longleftrightarrow> 0 \<le> x \<and> money x = x"

lemma cents_iff: "cents x \<longleftrightarrow> 0 \<le> x \<and> (\<exists>k :: int. x = of_int k / 100)"
proof
  assume x: "cents x"
  then have "x = of_int \<lfloor>x * 100 + 1 / 2\<rfloor> / 100"
    by (simp add: cents_def money_def quantize_def split: if_splits)
  with x show "0 \<le> x \<and> (\<exists>k :: int. x = of_int k / 100)"
    by (auto simp: cents_def)
next
  assume "0 \<le> x \<and> (\<exists>k :: int. x = of_int k / 100)"
  then show "cents x"
    using quantize_idem_int [where n = 2] by (auto simp: cents_def money_def)
qed

lemma cents_add: "cents x \<Longrightarrow> cents y \<Longrightarrow> cents (x + y)"
proof -
  assume "cents x" "cents y"
  then obtain i j :: int where "x = of_int i / 100" "y = of_int j / 100" "0 \<le> x" "0 \<le> y"
    by (auto simp: cents_iff)
  then show ?thesis
    by (auto simp: cents_iff intro!: exI [of _ "i + j"] simp: add_divide_distrib)
qed

lemma cents_sum_list: "(\<And>x. x \<in> set xs \<Longrightarrow> cents x) \<Longrightarrow> cents (sum_list xs)"
proof (induction xs)
  case Nil
  then show ?case by (simp add: cents_def money_def)
next
  case (Cons x xs)
  then show ?case by (simp add: cents_add)
qed

lemma money_sum:
  "(\<And>x. x \<in> set xs \<Longrightarrow> cents (f x)) \<Longrightarrow> money (sum_list (map f xs)) = sum_list (map f xs)"
  using cents_sum_list [of "map f xs"] by (auto simp: cents_def)

lemma bills_unique_period:
  assumes "bills_unique d"
  shows "distinct (map ta_billing_key (assessments_of d k))"
proof -
  have "distinct (map ta_billing_key (filter (\<lambda>a. ta_period a = k) xs))"
    if "distinct (map (\<lambda>a. (ta_period a, ta_billing_key a)) xs)" for xs
    using that
  proof (induction xs)
    case (Cons x xs)
    then have "(ta_period a, ta_billing_key a) \<noteq> (ta_period x, ta_billing_key x)" if "a \<in> set xs" for a
      using that by (auto simp: image_iff)
    then have "ta_billing_key x \<notin> ta_billing_key ` {a \<in> set xs. ta_period a = ta_period x}"
      by force
    with Cons show ?case by auto
  qed simp
  then show ?thesis
    using assms by (simp add: bills_unique_def assessments_of_def)
qed

lemma find_bill_unique:
  assumes "bills_unique d" and "find_bill d k s = Some b"
    and "a \<in> set (assessments_of d k)" and "ta_billing_key a = s"
  shows "a = b"
proof -
  have "b \<in> set (assessments_of d k)" and "ta_billing_key b = s"
    using assms(2) by (auto simp: find_bill_def assessments_of_def dest: find_SomeD)
  then show ?thesis
    using bills_unique_period [OF assms(1), of k] assms(3,4) by (auto simp: distinct_map dest: inj_onD)
qed

text \<open>One column of the bills against the same column of the lines.\<close>

lemma bills_column_sum:
  assumes "bills_unique d1" and "distinct keys" and "set keys = kf ` set ls"
    and "\<And>key. key \<in> set keys \<Longrightarrow> \<exists>b. find_bill d1 k (show_key key) = Some b
           \<and> col b = money (sum_list (map f (filter (\<lambda>l. kf l = key) ls)))"
    and "\<And>l. l \<in> set ls \<Longrightarrow> cents (f l)"
  shows "sum_list (map col (bills_with_keys d1 k (show_key ` set keys))) = sum_list (map f ls)"
proof -
  let ?A = "bills_with_keys d1 k (show_key ` set keys)"
  let ?h = "\<lambda>s. sum_list (map f (filter (\<lambda>l. show_key (kf l) = s) ls))"
  have found: "\<exists>b \<in> set ?A. ta_billing_key b = show_key key \<and> col b = ?h (show_key key)
      \<and> find_bill d1 k (show_key key) = Some b" if key: "key \<in> set keys" for key
  proof -
    obtain b where b: "find_bill d1 k (show_key key) = Some b"
      "col b = money (sum_list (map f (filter (\<lambda>l. kf l = key) ls)))"
      using assms(4) [OF key] by blast
    have "money (sum_list (map f (filter (\<lambda>l. kf l = key) ls))) = ?h (show_key key)"
      using assms(5) by (subst money_sum) auto
    with b(2) have "col b = ?h (show_key key)" by simp
    with b(1) key show ?thesis
      by (auto simp: find_bill_def bills_with_keys_def assessments_of_def dest!: find_SomeD)
  qed
  have "sum_list (map col ?A) = sum_list (map ?h (map show_key keys))"
  proof (rule sum_list_by_key [where g = ta_billing_key])
    show "distinct (map ta_billing_key ?A)"
      using bills_unique_period [OF assms(1), of k] by (simp add: bills_with_keys_def distinct_map_filter)
    show "distinct (map show_key keys)"
      using assms(2) by (simp add: distinct_map inj_on_def)
    show "ta_billing_key ` set ?A = set (map show_key keys)"
    proof
      show "ta_billing_key ` set ?A \<subseteq> set (map show_key keys)"
        by (auto simp: bills_with_keys_def)
      show "set (map show_key keys) \<subseteq> ta_billing_key ` set ?A"
        using found by (auto simp: image_iff) metis
    qed
    fix a assume a: "a \<in> set ?A"
    then obtain key where key: "key \<in> set keys" "ta_billing_key a = show_key key"
      by (auto simp: bills_with_keys_def)
    then obtain b where b: "find_bill d1 k (show_key key) = Some b" "col b = ?h (show_key key)"
      using found by blast
    have "a = b"
      using a key b(1) by (intro find_bill_unique [OF assms(1) b(1)]) (auto simp: bills_with_keys_def)
    with b key show "col a = ?h (ta_billing_key a)" by simp
  qed
  also have "\<dots> = sum_list (map f ls)"
    using assms(2,3) by (intro sum_list_by_class) (auto simp: distinct_map inj_on_def)
  finally show ?thesis .
qed

lemma bills_count:
  assumes "bills_unique d1" and "distinct keys"
    and "\<And>key. key \<in> set keys \<Longrightarrow> \<exists>b. find_bill d1 k (show_key key) = Some b"
  shows "length (bills_with_keys d1 k (show_key ` set keys)) = length keys"
proof -
  let ?A = "bills_with_keys d1 k (show_key ` set keys)"
  have "distinct (map ta_billing_key ?A)"
    using bills_unique_period [OF assms(1), of k] by (simp add: bills_with_keys_def distinct_map_filter)
  moreover have "\<exists>b \<in> set ?A. ta_billing_key b = show_key key" if key: "key \<in> set keys" for key
    using assms(3) [OF key] key
    by (auto simp: find_bill_def bills_with_keys_def assessments_of_def dest!: find_SomeD)
  then have "ta_billing_key ` set ?A = show_key ` set keys"
    by (auto simp: bills_with_keys_def image_iff) metis
  ultimately have "length ?A = card (show_key ` set keys)"
    using distinct_card by fastforce
  also have "\<dots> = length keys"
    using assms(2) by (simp add: card_image inj_on_def distinct_card)
  finally show ?thesis .
qed

text \<open>
  C3. The bills of a period add up to its lines. After an audit of a period the
  bills of the accounts and characters that mined in it (one per account or
  character) carry, in sum, exactly the tax and the value of the period's lines,
  and every other bill of the period that is still there is under review.
\<close>

theorem rebuild_conserves_tax:
  assumes "sound d" and "bills_unique d" and "lookup tx_pk k (periods d) = Some p"
    and "\<And>l. l \<in> set (rows (lines d)) \<Longrightarrow> cents (ml_tax_due l) \<and> cents (ml_gross_value l)"
    and "rebuild_period k (n, w, d) = (n', w', d')"
    and "S = set (map show_key (bucket_keys d (decided_bills d k) (lines_of d k)))"
  shows "sum_list (map ta_calculated (bills_with_keys d' k S))
           = sum_list (map ml_tax_due (filter (\<lambda>l. ml_period l = k) (rows (lines d))))
    \<and> sum_list (map ta_gross_value (bills_with_keys d' k S))
           = sum_list (map ml_gross_value (filter (\<lambda>l. ml_period l = k) (rows (lines d))))
    \<and> length (bills_with_keys d' k S) = n' - n
    \<and> (\<forall>b \<in> set (assessments_of d' k). ta_billing_key b \<notin> S \<longrightarrow> ta_status b = BillReview)"
proof -
  let ?as = "decided_bills d k" and ?ls = "lines_of d k"
  let ?keys = "bucket_keys d ?as ?ls"
  let ?d1 = "fold (\<lambda>key. upsert_bill p key (bucket d ?as ?ls key)) ?keys d"
  let ?d2 = "snd (fold retire_bill (stale_bills ?d1 k ?keys) (w @ mode_warnings k ?as, ?d1))"
  have d': "d' = recalculate_period k ?d2" and n': "n' = n + length ?keys"
    using assms(5) unfolding rebuild_period_def case_prod_conv Let_def assms(3) option.case
    by (simp_all add: case_prod_beta)
  have k: "tx_pk p = k"
    using assms(3) by (auto dest: lookup_SomeD)
  have keyed: "well_keyed ta_pk (assessments d)"
    using assms(1) by (simp add: sound_def books_def books_except_def refs_sound_def)
  have keys: "distinct ?keys" "set ?keys = key_of_line d ?as ` set ?ls"
    by (simp_all add: bucket_keys_def)
  note up = fold_upsert_find [OF assms(2) keyed keys(1), of ?d1 p "bucket d ?as ?ls", OF refl, unfolded k]
  have S: "S = show_key ` set ?keys"
    using assms(6) by simp
  let ?A = "bills_with_keys ?d1 k S"
  have uniq: "bills_unique ?d1" and keyed1: "well_keyed ta_pk (assessments ?d1)"
    using up by auto
  have stale: "set (stale_bills ?d1 k ?keys) = {a \<in> set (assessments_of ?d1 k). ta_billing_key a \<notin> S}"
    by (auto simp: stale_bills_def S)
  have "bills_with_keys ?d2 k S = ?A \<and> under_review ?d2 k S {}"
  proof (rule fold_retire_settles [OF _ _ refl])
    fix a b assume "a \<in> set (stale_bills ?d1 k ?keys)" "b \<in> set (rows (assessments ?d1))" "ta_pk b = ta_pk a"
    then show "ta_billing_key b \<notin> S"
      using tbl.content_unique [OF keyed1, of b a] by (auto simp: stale assessments_of_def)
  next
    show "under_review ?d1 k S (ta_pk ` set (stale_bills ?d1 k ?keys))"
      by (auto simp: stale under_review_def)
  qed
  then have A: "bills_with_keys d' k S = ?A" and rest: "under_review d' k S {}"
    by (simp_all add: d' bills_with_keys_def under_review_def assessments_of_def books_simps)
  have cents: "cents (ml_tax_due l) \<and> cents (ml_gross_value l)" if "l \<in> set ?ls" for l
    using assms(4) that by (auto simp: lines_of_def)
  have tax: "sum_list (map ta_calculated ?A) = sum_list (map ml_tax_due ?ls)"
    unfolding S using up cents by (intro bills_column_sum [OF uniq keys]) (auto simp: bucket_def)
  have gross: "sum_list (map ta_gross_value ?A) = sum_list (map ml_gross_value ?ls)"
    unfolding S using up cents by (intro bills_column_sum [OF uniq keys]) (auto simp: bucket_def)
  have "length ?A = length ?keys"
    unfolding S using up by (intro bills_count [OF uniq keys(1)]) blast
  moreover have "sum_list (map f ?ls) = sum_list (map f (filter (\<lambda>l. ml_period l = k) (rows (lines d))))"
    for f :: "mining_line \<Rightarrow> decimal"
    by (simp add: lines_of_def sum_list_sort_key)
  ultimately show ?thesis
    using tax gross rest n' unfolding A by (simp add: under_review_def)
qed

end
