(* ===== verification/MT_Auditor.thy ===== *)
theory MT_Auditor
  imports MT_Billing
begin

text \<open>
  The second half of \<open>auditor.py\<close>: which wallet entries and contracts become payment
  candidates, the notifications of an audit, and \<open>reconcile\<close>, the transaction that
  runs every step in order. What Member Audit stores of a character is an input.
\<close>

section \<open>Where payments may go\<close>

text \<open>
  The dictionary of targets as the list of its assignments in order: the live
  recipients, the two configured ones, then the snapshots of every period.
\<close>

definition live_targets :: "mt_db \<Rightarrow> (nat \<times> string) list" where
  "live_targets d =
     map (\<lambda>r. (pr_entity_id r, pr_name r))
       (sort_key (\<lambda>r. if pr_kind r = KindCharacter then 0 else 1 :: nat)
         (sort_key (\<lambda>r. collate d (pr_name r))
           (filter (\<lambda>r. pr_enabled r \<and>
                (pr_pk r \<in> set (cf_default_recipients (config d))
                 \<or> list_ex (\<lambda>p. pr_pk r \<in> set (tp_recipients p)) (policies d)))
              (recipients d))))"

definition configured_targets :: "tax_configuration \<Rightarrow> (nat \<times> string) list" where
  "configured_targets c =
     (if cf_payment_character_id c \<noteq> 0
      then [(cf_payment_character_id c, cf_payment_character_name c)] else []) @
     (if cf_payment_corporation_id c \<noteq> 0
      then [(cf_payment_corporation_id c, cf_payment_corporation_name c)] else [])"

definition snapshot_targets :: "tax_period \<Rightarrow> (nat \<times> string) list" where
  "snapshot_targets p =
     map (\<lambda>e. (the (re_id e), if re_name e = '''' then show_nat (the (re_id e)) else re_name e))
       (filter (\<lambda>e. truthy (re_id e)) (tx_allowed_recipients p))"

definition payment_targets :: "mt_db \<Rightarrow> (nat \<times> string) list" where
  "payment_targets d =
     live_targets d @ configured_targets (config d) @
     concat (map snapshot_targets
       (sort_key (\<lambda>p. - tx_pop_at p) (sort_key (\<lambda>p. collate d (tx_structure_name p))
         (rows (periods d)))))"

definition is_target :: "(nat \<times> string) list \<Rightarrow> nat option \<Rightarrow> bool" where
  "is_target ts k \<longleftrightarrow> (case k of None \<Rightarrow> False | Some i \<Rightarrow> i \<in> fst ` set ts)"

definition target_name :: "(nat \<times> string) list \<Rightarrow> nat \<Rightarrow> string" where
  "target_name ts k = the (map_of (rev ts) k)"

section \<open>The wallet and the contracts of a character\<close>

datatype contract_status = Finished | FinishedIssuer | FinishedContractor | OtherStatus

record wallet_entry =
  we_entry_id :: nat
  we_amount :: decimal
  we_second_party_id :: "nat option"
  we_context_is_contract :: bool
  we_context_id :: "nat option"
  we_date :: instant
  we_reason :: string
  we_description :: string

record member_contract =
  mc_contract_id :: nat
  mc_status :: contract_status
  mc_has_items :: bool
  mc_issuer_id :: nat
  mc_assignee_id :: "nat option"
  mc_acceptor_id :: "nat option"
  mc_reward :: "decimal option"
  mc_price :: "decimal option"
  mc_date_completed :: "instant option"
  mc_date_accepted :: "instant option"
  mc_title :: string

record member =
  mb_character_id :: nat
  mb_name :: string
  mb_user :: "nat option"
  mb_contracts :: "member_contract list"
  mb_journal :: "wallet_entry list"

definition FINISHED_CONTRACT_STATUSES :: "contract_status list" where
  "FINISHED_CONTRACT_STATUSES = [Finished, FinishedContractor, FinishedIssuer]"

definition finished_contracts :: "member \<Rightarrow> member_contract list" where
  "finished_contracts m = filter (\<lambda>c. mc_status c \<in> set FINISHED_CONTRACT_STATUSES) (mb_contracts m)"

text \<open>
  A journal entry counts as a wallet payment, as the payment of a finished contract
  without items, or not at all.
\<close>

definition wallet_payment_source :: "member_contract list \<Rightarrow> wallet_entry \<Rightarrow> payment_source option" where
  "wallet_payment_source contracts e =
     (if \<not> we_context_is_contract e then Some Wallet
      else case we_context_id e of
             None \<Rightarrow> None
           | Some i \<Rightarrow>
               (case List.find (\<lambda>c. mc_contract_id c = i) (rev contracts) of
                  None \<Rightarrow> None
                | Some c \<Rightarrow> if mc_has_items c then None else Some Contract))"

text \<open>A payment to be imported: its row but for the key, and the time it needs.\<close>

record candidate =
  cd_row :: payment
  cd_occurred_at :: "instant option"

definition candidate_row :: "nat \<Rightarrow> member \<Rightarrow> (nat \<times> string) list \<Rightarrow> payment_source \<Rightarrow> string \<Rightarrow> nat
    \<Rightarrow> nat \<Rightarrow> decimal \<Rightarrow> string \<Rightarrow> instant option \<Rightarrow> candidate" where
  "candidate_row run m ts source key source_id target amount reference occurred =
     \<lparr>cd_row = \<lparr>pc_pk = 0, pc_source = source, pc_source_key = key, pc_source_id = Some source_id,
        pc_payer_id = Some (mb_character_id m), pc_payer_name = mb_name m, pc_auth_user = mb_user m,
        pc_recipient_id = target, pc_recipient_name = target_name ts target,
        pc_amount = money amount, pc_occurred_at = 0, pc_reference = take 255 reference,
        pc_evidence = None, pc_status = PayPending, pc_audit = Some run, pc_reviewed_by = None,
        pc_reviewed_at = None, pc_review_note = ''''\<rparr>,
      cd_occurred_at = occurred\<rparr>"

definition wallet_key :: "member \<Rightarrow> wallet_entry \<Rightarrow> string" where
  "wallet_key m e = ''wallet:'' @ show_nat (mb_character_id m) @ '':'' @ show_nat (we_entry_id e)"

definition contract_key :: "member \<Rightarrow> member_contract \<Rightarrow> string" where
  "contract_key m c = ''contract:'' @ show_nat (mb_character_id m) @ '':'' @ show_nat (mc_contract_id c)"

text \<open>The journal entries read: outgoing ones, to a target, of a known source.\<close>

definition payment_entries :: "(nat \<times> string) list \<Rightarrow> member \<Rightarrow> (wallet_entry \<times> payment_source) list" where
  "payment_entries ts m =
     List.map_filter (\<lambda>e. map_option (Pair e) (wallet_payment_source (finished_contracts m) e))
       (filter (\<lambda>e. we_amount e < 0 \<and> is_target ts (we_second_party_id e)) (mb_journal m))"

definition wallet_candidates :: "nat \<Rightarrow> (nat \<times> string) list \<Rightarrow> member \<Rightarrow> candidate list" where
  "wallet_candidates run ts m =
     map (\<lambda>(e, source). candidate_row run m ts source (wallet_key m e) (we_entry_id e)
            (the (we_second_party_id e)) \<bar>we_amount e\<bar>
            (if we_reason e \<noteq> '''' then we_reason e else we_description e) (Some (we_date e)))
       (payment_entries ts m)"

definition seen_contract_ids :: "(nat \<times> string) list \<Rightarrow> member \<Rightarrow> nat list" where
  "seen_contract_ids ts m =
     List.map_filter (\<lambda>(e, source). if source = Contract \<and> truthy (we_context_id e)
                                    then we_context_id e else None) (payment_entries ts m)"

text \<open>Whom a finished contract paid, and how much: its reward, or its price.\<close>

definition contract_payment :: "(nat \<times> string) list \<Rightarrow> member \<Rightarrow> member_contract \<Rightarrow> (nat \<times> decimal) option" where
  "contract_payment ts m c =
     (let reward = (case mc_reward c of None \<Rightarrow> 0 | Some x \<Rightarrow> x);
          price = (case mc_price c of None \<Rightarrow> 0 | Some x \<Rightarrow> x);
          me = mb_character_id m;
          found =
            (if mc_issuer_id c = me \<and> (is_target ts (mc_assignee_id c) \<or> is_target ts (mc_acceptor_id c))
                \<and> 0 < reward
             then (if is_target ts (mc_acceptor_id c) then mc_acceptor_id c else mc_assignee_id c, reward)
             else if is_target ts (Some (mc_issuer_id c))
                \<and> (mc_assignee_id c = Some me \<or> mc_acceptor_id c = Some me) \<and> 0 < price
             then (Some (mc_issuer_id c), price)
             else (None, 0))
      in if truthy (fst found) \<and> 0 < snd found then Some (the (fst found), snd found) else None)"

definition contract_candidates :: "nat \<Rightarrow> (nat \<times> string) list \<Rightarrow> member \<Rightarrow> candidate list" where
  "contract_candidates run ts m =
     List.map_filter (\<lambda>c. map_option (\<lambda>(target, amount).
           candidate_row run m ts Contract (contract_key m c) (mc_contract_id c) target amount
             (if mc_title c \<noteq> '''' then mc_title c else ''Completed ISK contract'')
             (case mc_date_completed c of Some t \<Rightarrow> Some t | None \<Rightarrow> mc_date_accepted c))
         (contract_payment ts m c))
       (filter (\<lambda>c. mc_contract_id c \<notin> set (seen_contract_ids ts m) \<and> \<not> mc_has_items c)
         (finished_contracts m))"

text \<open>\<open>get_or_create\<close> on the source key; \<open>occurred_at\<close> is not nullable.\<close>

definition import_candidate :: "candidate \<Rightarrow> nat \<times> mt_db \<Rightarrow> mt_error + nat \<times> mt_db" where
  "import_candidate c state =
     (let (n, d) = state
      in if list_ex (\<lambda>p. pc_source_key p = pc_source_key (cd_row c)) (rows (payments d))
         then Inr (n, d)
         else case cd_occurred_at c of
                None \<Rightarrow> Inl (IntegrityError ''occurred_at'')
              | Some t \<Rightarrow> Inr (Suc n, d\<lparr>payments :=
                  create (\<lambda>pk. (cd_row c)\<lparr>pc_pk := pk, pc_occurred_at := t\<rparr>) (payments d)\<rparr>))"

fun import_all :: "candidate list \<Rightarrow> nat \<times> mt_db \<Rightarrow> mt_error + nat \<times> mt_db" where
  "import_all [] s = Inr s"
| "import_all (c # cs) s = (case import_candidate c s of Inl e \<Rightarrow> Inl e | Inr s' \<Rightarrow> import_all cs s')"

definition candidates_of :: "nat \<Rightarrow> (nat \<times> string) list \<Rightarrow> member \<Rightarrow> candidate list" where
  "candidates_of run ts m = wallet_candidates run ts m @ contract_candidates run ts m"

definition import_payment_candidates :: "nat \<Rightarrow> member list \<Rightarrow> mt_db \<Rightarrow> mt_error + nat \<times> mt_db" where
  "import_payment_candidates run ms d =
     (let ts = payment_targets d
      in if ts = [] then Inr (0, d) else import_all (concat (map (candidates_of run ts) ms)) (0, d))"

section \<open>Notifications\<close>

definition notify_all :: "nat list \<Rightarrow> string \<Rightarrow> string \<Rightarrow> string \<Rightarrow> mt_db \<Rightarrow> mt_db" where
  "notify_all users title message level d = fold (\<lambda>u. notify u title message level) users d"

text \<open>
  One notification per event until its text changes; \<open>digest\<close> is the hash of the
  title and the message.
\<close>

definition deduped_notify :: "(string \<Rightarrow> string \<Rightarrow> string) \<Rightarrow> string \<Rightarrow> nat list \<Rightarrow> string \<Rightarrow> string
    \<Rightarrow> string \<Rightarrow> mt_db \<Rightarrow> nat \<times> mt_db" where
  "deduped_notify digest event_key users title message level d =
     (let payload_hash = digest title message;
          state = List.find (\<lambda>n. ns_event_key n = event_key) (notified d)
      in if map_option ns_payload_hash state = Some payload_hash then (0, d)
         else (length users,
               (notify_all users title message level d)\<lparr>notified :=
                  (if state = None
                   then notified d @ [\<lparr>ns_event_key = event_key, ns_last_sent_at = wall d,
                                       ns_payload_hash = payload_hash\<rparr>]
                   else map (\<lambda>n. if ns_event_key n = event_key
                                 then n\<lparr>ns_last_sent_at := wall d, ns_payload_hash := payload_hash\<rparr>
                                 else n) (notified d))\<rparr>))"

definition bill_due :: "tax_assessment \<Rightarrow> bool" where
  "bill_due a \<longleftrightarrow> ta_status a = BillDue \<or> ta_status a = BillPartial"

text \<open>The bills to announce, in the order of the model: by pop, then by name.\<close>

definition newly_due :: "mt_db \<Rightarrow> tax_assessment list" where
  "newly_due d =
     sort_key (pop_of d) (sort_key (\<lambda>a. collate d (ta_display_name a))
       (filter (\<lambda>a. ta_auth_user a \<noteq> None \<and> bill_due a \<and> ta_first_notified_at a = None)
         (rows (assessments d))))"

definition announce_bill :: "tax_assessment \<Rightarrow> mt_db \<Rightarrow> mt_db" where
  "announce_bill a d =
     (case period_of d a of
        None \<Rightarrow> d
      | Some p \<Rightarrow>
          (let title = ''New moon tax: '' @ format_amount (outstanding a) @ '' ISK due'';
               place = (if tx_moon_name p \<noteq> '''' then tx_moon_name p else tx_structure_name p);
               message = place @ '' closed on '' @ show_minute (tx_closes_at p) @
                 '' EVE time. Your current amount due is '' @ format_amount (outstanding a) @ '' ISK.''
           in save_assessment (ta_pk a)
                (\<lambda>b. b\<lparr>ta_first_notified_at := Some (wall d), ta_updated_at := wall d\<rparr>)
                (notify (the (ta_auth_user a)) title message ''warning'' d)))"

definition announce_new_bills :: "mt_db \<Rightarrow> nat \<times> mt_db" where
  "announce_new_bills d = (length (newly_due d), fold announce_bill (newly_due d) d)"

definition notify_unpaid :: "(string \<Rightarrow> string \<Rightarrow> string) \<Rightarrow> mt_db \<Rightarrow> nat \<times> mt_db" where
  "notify_unpaid digest d =
     (let due = filter bill_due (rows (assessments d));
          owed = money (sum_list (map ta_tax_due due) - sum_list (map ta_approved_paid due))
      in if due = [] then (0, d)
         else deduped_notify digest ''director:unpaid-summary'' (directors d)
                (''Moon Tax: '' @ show_nat (length due) @ '' unpaid or partial bills'')
                (''The current approved outstanding total is '' @ format_amount owed @ '' ISK.'')
                ''warning'' d)"

definition unlinked_miners :: "mt_db \<Rightarrow> nat" where
  "unlinked_miners d =
     length (remdups (map ml_character_id (filter (\<lambda>l. ml_auth_user l = None) (rows (lines d)))))"

definition notify_missing_data :: "(string \<Rightarrow> string \<Rightarrow> string) \<Rightarrow> nat \<Rightarrow> mt_db \<Rightarrow> nat \<times> mt_db" where
  "notify_missing_data digest run d =
     (let unlinked = unlinked_miners d;
          unpriced = length (filter (\<lambda>l. \<not> ml_pricing_complete l) (rows (lines d)))
      in if unlinked = 0 \<and> unpriced = 0 then (0, d)
         else deduped_notify digest ''director:missing-data'' (directors d)
                ''Moon Tax data needs review''
                (''Unlinked/outside miners: '' @ show_nat unlinked @ ''. Unpriced ledger rows: '' @
                 show_nat unpriced @ ''. Audit #'' @ show_nat run @ '' contains the detailed warnings.'')
                ''danger'' d)"

definition dispatch_notifications :: "(string \<Rightarrow> string \<Rightarrow> string) \<Rightarrow> nat \<Rightarrow> mt_db \<Rightarrow> nat \<times> mt_db" where
  "dispatch_notifications digest run d =
     (let (n1, d1) = (if cf_notify_member_new_tax (config d) then announce_new_bills d else (0, d));
          (n2, d2) = (if cf_notify_director_unpaid (config d) then notify_unpaid digest d1 else (0, d1));
          (n3, d3) = (if cf_notify_director_missing_data (config d)
                      then notify_missing_data digest run d2 else (0, d2))
      in (n1 + n2 + n3, d3))"

section \<open>One audit\<close>

text \<open>
  What an audit reads outside the database of the application: the extractions and
  the observer ledger of Moon Mining, the characters of Member Audit, the market, and
  the two hashes.
\<close>

record audit_sources =
  as_extractions :: "extraction list"
  as_ledger :: "ledger_record list"
  as_members :: "member list"
  as_market :: market
  as_state_digest :: "exemption_state_entry list \<times> (nat \<times> nat) list \<Rightarrow> string"
  as_payload_digest :: "string \<Rightarrow> string \<Rightarrow> string"

definition save_audit :: "nat \<Rightarrow> (audit_run \<Rightarrow> audit_run) \<Rightarrow> mt_db \<Rightarrow> mt_db" where
  "save_audit k f d = d\<lparr>audits := update ar_pk k f (audits d)\<rparr>"

definition or_now :: "instant option \<Rightarrow> instant \<Rightarrow> instant option" where
  "or_now t now = (case t of Some x \<Rightarrow> Some x | None \<Rightarrow> Some now)"

definition audit_summary :: "(string \<times> nat) list \<Rightarrow> (string \<times> int) list" where
  "audit_summary xs = map (\<lambda>(k, n). (k, int n)) xs"

text \<open>The steps of \<open>reconcile\<close> up to the notifications, and what they counted.\<close>

definition reconcile_books :: "audit_sources \<Rightarrow> nat \<Rightarrow> mt_db \<Rightarrow>
    mt_error + (string \<times> nat) list \<times> audit_warning list \<times> mt_db" where
  "reconcile_books src run d =
     (let ix = exemption_index d;
          state = state_hash (as_state_digest src) ix;
          full = (cf_exemption_state_hash (config d) \<noteq> state);
          (ks, d1) = synchronize_periods run (as_extractions src) d;
          (n_lines, w1, d2) = synchronize_mining_lines (as_market src) run ix ks (as_ledger src) d1;
          (n_exempt, d3) = (if full then recheck_mining_line_exemptions ix d2 else (0, d2));
          (n_bills, w2, d4) = rebuild_assessments ks d3
      in case import_payment_candidates run (as_members src) d4 of
           Inl e \<Rightarrow> Inl e
         | Inr (n_payments, d5) \<Rightarrow>
             (let scope = (\<lambda>p. full \<or> pc_audit p = Some run);
                  (counts, d6) = reconcile_payment_exemptions ix scope d5;
                  d7 = d6\<lparr>config := (config d6)\<lparr>cf_exemption_state_hash := state,
                                                 cf_exemption_rechecked_at := Some (wall d)\<rparr>\<rparr>
              in Inr ([(''periods'', length ks), (''mining_lines_processed'', n_lines),
                       (''mining_exemptions_updated'', n_exempt), (''assessments'', n_bills),
                       (''new_payment_candidates'', n_payments),
                       (''payments_excluded_by_exemption'', rc_excluded counts),
                       (''payments_restored_after_exemption'', rc_restored counts),
                       (''full_exemption_history_recheck'', if full then 1 else 0)],
                      w1 @ w2, d7)))"

definition pending_payments :: "mt_db \<Rightarrow> nat" where
  "pending_payments d = length (filter (\<lambda>p. pc_status p = PayPending) (rows (payments d)))"

definition reconcile :: "audit_sources \<Rightarrow> audit_run \<Rightarrow> mt_db \<Rightarrow> mt_error + mt_db" where
  "reconcile src audit d0 =
     (let run = ar_pk audit;
          d = save_audit run (\<lambda>r. r\<lparr>ar_status := AuditRunning,
                                    ar_started_at := or_now (ar_started_at audit) (wall d0)\<rparr>) d0
      in case reconcile_books src run d of
           Inl e \<Rightarrow> Inl e
         | Inr (counts, warns, d1) \<Rightarrow>
             (let (sent, d2) = dispatch_notifications (as_payload_digest src) run d1;
                  warnings = ar_warnings audit @ warns;
                  summary = audit_summary (counts @ [(''notifications'', sent),
                    (''unlinked_miners'', unlinked_miners d2),
                    (''pending_payments'', pending_payments d2)])
              in Inr (save_audit run (\<lambda>r. r\<lparr>ar_summary := summary, ar_warnings := warnings,
                        ar_finished_at := Some (wall d2),
                        ar_status := (if warnings = [] then AuditComplete else AuditWarning)\<rparr>) d2)))"

section \<open>What an import adds\<close>

definition has_key :: "mt_db \<Rightarrow> string \<Rightarrow> bool" where
  "has_key d s \<longleftrightarrow> s \<in> pc_source_key ` set (rows (payments d))"

lemma import_candidate_cases:
  assumes "import_candidate c (n, d) = Inr (n', d')"
  shows "(has_key d (pc_source_key (cd_row c)) \<and> n' = n \<and> d' = d)
    \<or> (\<not> has_key d (pc_source_key (cd_row c)) \<and> n' = Suc n
       \<and> (\<exists>t. d' = d\<lparr>payments := create (\<lambda>pk. (cd_row c)\<lparr>pc_pk := pk, pc_occurred_at := t\<rparr>) (payments d)\<rparr>))"
  using assms by (auto simp: import_candidate_def has_key_def list_ex_iff intro: rev_image_eqI
      split: if_splits option.splits)

text \<open>A row an import may append for a candidate.\<close>

definition imported_as :: "candidate \<Rightarrow> payment \<Rightarrow> bool" where
  "imported_as c p \<longleftrightarrow> (\<exists>k t. p = (cd_row c)\<lparr>pc_pk := k, pc_occurred_at := t\<rparr>)"

definition only_payments :: "mt_db \<Rightarrow> mt_db \<Rightarrow> bool" where
  "only_payments d d' \<longleftrightarrow> (\<exists>t. d' = d\<lparr>payments := t\<rparr>)"

lemma only_payments_trans: "only_payments d d1 \<Longrightarrow> only_payments d1 d2 \<Longrightarrow> only_payments d d2"
  by (auto simp: only_payments_def)

lemma only_payments_refl [simp]: "only_payments d d"
  by (auto simp: only_payments_def intro: exI [of _ "payments d"])

lemma import_all_adds:
  assumes "import_all cs (n, d) = Inr (n', d')" and "well_keyed pc_pk (payments d)"
  shows "only_payments d d' \<and> well_keyed pc_pk (payments d')
    \<and> (\<exists>new. rows (payments d') = rows (payments d) @ new \<and> n' = n + length new
         \<and> (\<forall>p \<in> set new. \<exists>c \<in> set cs. imported_as c p)
         \<and> distinct (map pc_source_key new) \<and> (\<forall>p \<in> set new. \<not> has_key d (pc_source_key p)))
    \<and> (\<forall>c \<in> set cs. has_key d' (pc_source_key (cd_row c)))
    \<and> (\<forall>s. has_key d s \<longrightarrow> has_key d' s)"
  using assms
proof (induction cs arbitrary: n d)
  case Nil
  then show ?case by simp
next
  case (Cons c cs)
  let ?s = "pc_source_key (cd_row c)"
  from Cons.prems obtain n1 d1 where one: "import_candidate c (n, d) = Inr (n1, d1)"
    and rest: "import_all cs (n1, d1) = Inr (n', d')"
    by (auto split: sum.splits)
  from import_candidate_cases [OF one] show ?case
  proof (elim disjE conjE exE)
    assume "has_key d ?s" "n1 = n" "d1 = d"
    with Cons.IH [OF rest] Cons.prems(2) show ?thesis by force
  next
    fix t
    let ?mk = "\<lambda>pk. (cd_row c)\<lparr>pc_pk := pk, pc_occurred_at := t\<rparr>"
    assume new: "\<not> has_key d ?s" and n1: "n1 = Suc n" and d1: "d1 = d\<lparr>payments := create ?mk (payments d)\<rparr>"
    let ?p = "?mk (next_pk (payments d))"
    have keyed: "well_keyed pc_pk (payments d1)"
      using Cons.prems(2) by (simp add: d1 well_keyed_create)
    have rows1: "rows (payments d1) = rows (payments d) @ [?p]"
      by (simp add: d1 rows_create)
    have key1: "has_key d1 s \<longleftrightarrow> s = ?s \<or> has_key d s" for s
      by (auto simp: has_key_def rows1)
    obtain more where more: "rows (payments d') = rows (payments d1) @ more" "n' = n1 + length more"
      "\<forall>p \<in> set more. \<exists>c \<in> set cs. imported_as c p" "distinct (map pc_source_key more)"
      "\<forall>p \<in> set more. \<not> has_key d1 (pc_source_key p)"
      and "only_payments d1 d'" "well_keyed pc_pk (payments d')"
      "\<forall>c \<in> set cs. has_key d' (pc_source_key (cd_row c))" "\<forall>s. has_key d1 s \<longrightarrow> has_key d' s"
      using Cons.IH [OF rest keyed] by blast
    moreover have "only_payments d d1"
      by (auto simp: only_payments_def d1)
    moreover have "rows (payments d') = rows (payments d) @ ?p # more"
      using more(1) rows1 by simp
    moreover have "imported_as c ?p"
      by (auto simp: imported_as_def)
    moreover have "distinct (map pc_source_key (?p # more))"
      using more(4,5) by (auto simp: key1)
    ultimately show ?thesis
      using new n1 by (intro conjI exI [of _ "?p # more"]) (auto simp: key1 intro: only_payments_trans)
  qed
qed

lemma import_all_again:
  assumes "\<forall>c \<in> set cs. has_key d (pc_source_key (cd_row c))"
  shows "import_all cs (n, d) = Inr (n, d)"
  using assms
proof (induction cs)
  case (Cons c cs)
  then have "import_candidate c (n, d) = Inr (n, d)"
    by (fastforce simp: import_candidate_def has_key_def list_ex_iff)
  with Cons show ?case by simp
qed simp

definition pending_candidate :: "nat \<Rightarrow> (nat \<times> string) list \<Rightarrow> payment \<Rightarrow> bool" where
  "pending_candidate run ts p \<longleftrightarrow>
     pc_status p = PayPending \<and> pc_source p \<in> {Wallet, Contract} \<and> pc_audit p = Some run
     \<and> pc_recipient_id p \<in> fst ` set ts \<and> pc_recipient_name p = target_name ts (pc_recipient_id p)
     \<and> 0 < pc_amount p"

text \<open>Member Audit stores amounts with two decimal places.\<close>

definition member_cents :: "member \<Rightarrow> bool" where
  "member_cents m \<longleftrightarrow>
     (\<forall>e \<in> set (mb_journal m). cents \<bar>we_amount e\<bar>)
     \<and> (\<forall>c \<in> set (mb_contracts m). \<forall>x. mc_reward c = Some x \<or> mc_price c = Some x \<longrightarrow> cents \<bar>x\<bar>)"

lemma map_filter_set: "x \<in> set (List.map_filter f xs) \<longleftrightarrow> (\<exists>y \<in> set xs. f y = Some x)"
  by (induction xs) (auto simp: List.map_filter_simps split: option.splits)

lemma wallet_candidates_pending:
  assumes "member_cents m" and "c \<in> set (wallet_candidates run ts m)"
  shows "pending_candidate run ts (cd_row c)"
proof -
  obtain e src where e: "(e, src) \<in> set (payment_entries ts m)"
    and c: "c = candidate_row run m ts src (wallet_key m e) (we_entry_id e)
            (the (we_second_party_id e)) \<bar>we_amount e\<bar>
            (if we_reason e \<noteq> '''' then we_reason e else we_description e) (Some (we_date e))"
    using assms(2) by (auto simp: wallet_candidates_def)
  from e have e': "e \<in> set (mb_journal m)" "we_amount e < 0" "is_target ts (we_second_party_id e)"
    and src: "wallet_payment_source (finished_contracts m) e = Some src"
    by (auto simp: payment_entries_def map_filter_set)
  have "src \<in> {Wallet, Contract}"
    using src by (auto simp: wallet_payment_source_def split: if_splits option.splits)
  moreover have "cents \<bar>we_amount e\<bar>"
    using assms(1) e'(1) by (auto simp: member_cents_def)
  ultimately show ?thesis
    using e'(2,3) by (auto simp: pending_candidate_def c candidate_row_def cents_def is_target_def split: option.splits)
qed

lemma contract_payment_some:
  assumes "contract_payment ts m c = Some (target, amount)"
  shows "target \<in> fst ` set ts \<and> 0 < amount \<and> (mc_reward c = Some amount \<or> mc_price c = Some amount)"
  using assms
  by (auto simp: contract_payment_def is_target_def Let_def split: if_splits option.splits)

lemma contract_candidates_pending:
  assumes "member_cents m" and "c \<in> set (contract_candidates run ts m)"
  shows "pending_candidate run ts (cd_row c)"
proof -
  obtain k target amount where k: "k \<in> set (mb_contracts m)"
    and pay: "contract_payment ts m k = Some (target, amount)"
    and c: "c = candidate_row run m ts Contract (contract_key m k) (mc_contract_id k) target amount
             (if mc_title k \<noteq> '''' then mc_title k else ''Completed ISK contract'')
             (case mc_date_completed k of Some t \<Rightarrow> Some t | None \<Rightarrow> mc_date_accepted k)"
    using assms(2) by (auto simp: contract_candidates_def map_filter_set finished_contracts_def)
  note p = contract_payment_some [OF pay]
  then have "cents amount"
    using assms(1) k by (auto simp: member_cents_def)
  then show ?thesis
    using p by (simp add: pending_candidate_def c candidate_row_def cents_def)
qed

lemma map_filter_keys:
  assumes "\<And>c x. h (G c x) = K c"
  shows "map h (List.map_filter (\<lambda>c. map_option (G c) (g c)) cs) = map K (filter (\<lambda>c. g c \<noteq> None) cs)"
  by (induction cs) (auto simp: List.map_filter_simps assms)

lemma contract_candidate_keys:
  "map (\<lambda>c. pc_source_key (cd_row c)) (contract_candidates run ts m) =
     map (contract_key m) (filter (\<lambda>c. contract_payment ts m c \<noteq> None)
       (filter (\<lambda>c. mc_contract_id c \<notin> set (seen_contract_ids ts m) \<and> \<not> mc_has_items c)
         (finished_contracts m)))"
  unfolding contract_candidates_def by (rule map_filter_keys) (auto simp: candidate_row_def)

lemma candidate_keys:
  "map (\<lambda>c. pc_source_key (cd_row c)) (candidates_of run ts m)
     = map (\<lambda>c. pc_source_key (cd_row c)) (candidates_of run' ts m)"
  unfolding candidates_of_def map_append contract_candidate_keys
  by (simp add: wallet_candidates_def candidate_row_def case_prod_beta comp_def)

text \<open>
  An import only adds evidence: it appends as many payments as it reports, each
  pending review, from a wallet or a contract, to a known recipient, of a positive
  amount and under a source key no payment had, and it changes nothing else.
\<close>

theorem import_adds_only_pending:
  assumes "import_payment_candidates run ms d = Inr (n, d')" and "well_keyed pc_pk (payments d)"
    and "\<And>m. m \<in> set ms \<Longrightarrow> member_cents m"
  shows "\<exists>new. rows (payments d') = rows (payments d) @ new \<and> length new = n
    \<and> (\<forall>p \<in> set new. pending_candidate run (payment_targets d) p \<and> \<not> has_key d (pc_source_key p))
    \<and> distinct (map pc_source_key new) \<and> only_payments d d'"
proof (cases "payment_targets d = []")
  case True
  then show ?thesis
    using assms(1) by (simp add: import_payment_candidates_def)
next
  case False
  let ?cs = "concat (map (candidates_of run (payment_targets d)) ms)"
  have "import_all ?cs (0, d) = Inr (n, d')"
    using assms(1) False by (simp add: import_payment_candidates_def Let_def)
  then obtain new where new: "rows (payments d') = rows (payments d) @ new" "n = length new"
    "\<forall>p \<in> set new. \<exists>c \<in> set ?cs. imported_as c p" "distinct (map pc_source_key new)"
    "\<forall>p \<in> set new. \<not> has_key d (pc_source_key p)" "only_payments d d'"
    using import_all_adds [OF _ assms(2)] by force
  have "pending_candidate run (payment_targets d) p" if p: "p \<in> set new" for p
  proof -
    obtain c m where c: "imported_as c p" "m \<in> set ms" "c \<in> set (candidates_of run (payment_targets d) m)"
      using new(3) p by auto
    then have "pending_candidate run (payment_targets d) (cd_row c)"
      using wallet_candidates_pending [OF assms(3) [OF c(2)]] contract_candidates_pending [OF assms(3) [OF c(2)]]
      by (auto simp: candidates_of_def)
    moreover obtain k t where "p = (cd_row c)\<lparr>pc_pk := k, pc_occurred_at := t\<rparr>"
      using c(1) by (auto simp: imported_as_def)
    ultimately show ?thesis
      by (simp add: pending_candidate_def)
  qed
  with new show ?thesis by auto
qed

text \<open>
  C9. Importing the same sources again, in the same or in another audit, adds
  nothing and changes nothing.
\<close>

theorem import_idempotent:
  assumes "import_payment_candidates run ms d = Inr (n, d')" and "well_keyed pc_pk (payments d)"
  shows "import_payment_candidates run' ms d' = Inr (0, d')"
proof (cases "payment_targets d = []")
  case True
  then show ?thesis
    using assms(1) by (simp add: import_payment_candidates_def)
next
  case False
  let ?cs = "\<lambda>r. concat (map (candidates_of r (payment_targets d)) ms)"
  have "import_all (?cs run) (0, d) = Inr (n, d')"
    using assms(1) False by (simp add: import_payment_candidates_def Let_def)
  note adds = import_all_adds [OF this assms(2)]
  then obtain t where "d' = d\<lparr>payments := t\<rparr>"
    by (auto simp: only_payments_def)
  then have targets: "payment_targets d' = payment_targets d"
    by (simp add: payment_targets_def live_targets_def)
  have "map (\<lambda>c. pc_source_key (cd_row c)) (?cs run') = map (\<lambda>c. pc_source_key (cd_row c)) (?cs run)"
    by (simp add: map_concat comp_def candidate_keys [of run' _ _ run])
  then have "(\<lambda>c. pc_source_key (cd_row c)) ` set (?cs run') = (\<lambda>c. pc_source_key (cd_row c)) ` set (?cs run)"
    by (metis list.set_map)
  moreover have "\<forall>s \<in> (\<lambda>c. pc_source_key (cd_row c)) ` set (?cs run). has_key d' s"
    using adds by blast
  ultimately have "\<forall>c \<in> set (?cs run'). has_key d' (pc_source_key (cd_row c))"
    by blast
  then show ?thesis
    using False by (simp add: import_payment_candidates_def targets Let_def import_all_again del: set_concat)
qed

lemma import_all_error:
  assumes "import_all cs s = Inl e"
  shows "(\<exists>c \<in> set cs. cd_occurred_at c = None) \<and> e = IntegrityError ''occurred_at''"
  using assms
proof (induction cs arbitrary: s)
  case (Cons c cs)
  show ?case
  proof (cases "import_candidate c s")
    case (Inl e')
    then have "cd_occurred_at c = None" and "e' = IntegrityError ''occurred_at''"
      by (auto simp: import_candidate_def Let_def split: prod.splits if_splits option.splits)
    with Inl Cons.prems show ?thesis by simp
  next
    case (Inr s')
    with Cons show ?thesis by simp
  qed
qed simp

text \<open>
  An import stops on a source row only when a finished contract has neither a
  completion nor an acceptance date; then the payment has no instant, the column refuses
  it, and the whole audit is rolled back.
\<close>

theorem import_error_only_undated_contract:
  assumes "import_payment_candidates run ms d = Inl e"
  shows "e = IntegrityError ''occurred_at''
    \<and> (\<exists>m \<in> set ms. \<exists>k \<in> set (finished_contracts m).
          mc_date_completed k = None \<and> mc_date_accepted k = None)"
proof -
  let ?ts = "payment_targets d"
  have "import_all (concat (map (candidates_of run ?ts) ms)) (0, d) = Inl e"
    using assms by (simp add: import_payment_candidates_def Let_def split: if_splits)
  from import_all_error [OF this] obtain m c where "m \<in> set ms" and c: "c \<in> set (candidates_of run ?ts m)"
    "cd_occurred_at c = None" and e: "e = IntegrityError ''occurred_at''"
    by auto
  moreover from c have "\<exists>k \<in> set (finished_contracts m). mc_date_completed k = None \<and> mc_date_accepted k = None"
    by (auto simp: candidates_of_def wallet_candidates_def contract_candidates_def candidate_row_def
        map_filter_set split: option.splits)
  ultimately show ?thesis by blast
qed

section \<open>One audit keeps the books\<close>

text \<open>The tables the books are about.\<close>

definition same_accounts :: "mt_db \<Rightarrow> mt_db \<Rightarrow> bool" where
  "same_accounts d d1 \<longleftrightarrow>
     assessments d1 = assessments d \<and> payments d1 = payments d \<and> allocations d1 = allocations d
     \<and> adjustments d1 = adjustments d"

lemma same_accounts_reads:
  assumes "same_accounts d d1"
  shows "assessments_of d1 m = assessments_of d m" "tax_allocated d1 k = tax_allocated d k"
    "active_adjustment_total d1 k = active_adjustment_total d k"
    "allocated_amount d1 k = allocated_amount d k" "bill_balanced d1 a = bill_balanced d a"
    "period_balanced d1 p = period_balanced d p" "allocation_sound d1 r = allocation_sound d r"
  using assms
  by (simp_all add: same_accounts_def assessments_of_def tax_allocated_def active_adjustment_total_def
      allocated_amount_def allocations_of_def bill_balanced_def period_balanced_def allocation_sound_def)

lemma sound_same_accounts:
  assumes "sound d" and same: "same_accounts d d1" and "well_keyed tx_pk (periods d1)"
    and "tx_pk ` set (rows (periods d)) \<subseteq> tx_pk ` set (rows (periods d1))"
    and "\<And>p. p \<in> set (rows (periods d1)) \<Longrightarrow> period_balanced d p"
  shows "sound d1"
proof -
  note eqs = same [unfolded same_accounts_def]
  have bk: "books d"
    using assms(1) by (simp add: sound_def)
  then have "refs_sound d"
    by (simp add: books_def books_except_def)
  then have "refs_sound d1"
    using assms(3,4) by (auto simp: refs_sound_def eqs same_accounts_reads [OF same])
  then have "books d1"
    using bk assms(5) by (simp add: books_def books_except_def eqs same_accounts_reads [OF same])
  then show ?thesis
    using sound_frame [OF assms(1)] eqs by simp
qed

lemma sound_same:
  assumes "sound d" and "same_accounts d d1" and "periods d1 = periods d"
  shows "sound d1"
proof (rule sound_same_accounts [OF assms(1,2)])
  have "books d"
    using assms(1) by (simp add: sound_def)
  then show "well_keyed tx_pk (periods d1)" and "\<And>p. p \<in> set (rows (periods d1)) \<Longrightarrow> period_balanced d p"
    by (simp_all add: books_def books_except_def refs_sound_def assms(3))
qed (simp add: assms(3))

lemma fresh_not_key: "well_keyed key t \<Longrightarrow> k \<in> key ` set (rows t) \<Longrightarrow> k \<noteq> next_pk t"
  by (auto simp: well_keyed_def)

lemma refreshed_period_balanced:
  assumes "period_balanced d p" and "tx_status new \<in> {PeriodOpen, PeriodDue}"
  shows "period_balanced d (refreshed_period d new p)"
  using assms by (auto simp: period_balanced_def refreshed_period_def Let_def)

lemma synchronize_period_cases:
  assumes "synchronize_period run x d = (ks, d1)"
  shows "\<exists>pop st (q :: tax_period). st \<in> {PeriodOpen, PeriodDue} \<and> periods d1 \<in> {periods d,
     create (period_row run d x pop st) (periods d),
     update tx_pk (tx_pk q) (refreshed_period d (period_row run d x pop st (tx_pk q))) (periods d)}"
proof (cases "pop_of_extraction x")
  case None
  then show ?thesis
    using assms by (auto simp: synchronize_period_def)
next
  case (Some pop)
  define st where "st = (if wall d < pop + days (cf_mining_window_days (config d)) then PeriodOpen else PeriodDue)"
  have st: "st \<in> {PeriodOpen, PeriodDue}"
    by (simp add: st_def)
  show ?thesis
  proof (cases "find_period d x")
    case None
    then have "periods d1 = periods d \<or> periods d1 = create (period_row run d x pop st) (periods d)"
      using assms unfolding synchronize_period_def Some Let_def st_def [symmetric] None option.case
      by (cases "wall d < pop") auto
    with st show ?thesis by blast
  next
    case f: (Some q)
    let ?U = "update tx_pk (tx_pk q) (refreshed_period d (period_row run d x pop st (tx_pk q))) (periods d)"
    have "periods d1 = periods d \<or> periods d1 = ?U"
      using assms Some f by (auto simp: synchronize_period_def Let_def st_def [symmetric] split: if_splits)
    with st show ?thesis by blast
  qed
qed

lemma sound_synchronize_period:
  assumes "sound d" and "synchronize_period run x d = (ks, d1)"
  shows "sound d1 \<and> wall d1 = wall d"
proof -
  have refs: "refs_sound d" and bal: "\<And>p. p \<in> set (rows (periods d)) \<Longrightarrow> period_balanced d p"
    using assms(1) by (auto simp: sound_def books_def books_except_def)
  then have keyed: "well_keyed tx_pk (periods d)"
    by (simp add: refs_sound_def)
  note frame = synchronize_period_frame [OF assms(2) keyed]
  then have same: "same_accounts d d1" and now: "wall d1 = wall d" and keyed1: "well_keyed tx_pk (periods d1)"
    by (auto simp: only_periods_def same_accounts_def)
  have new: "tx_pk (period_row run d x pop st k) = k" "tx_status (period_row run d x pop st k) = st" for pop st k
    by (simp_all add: period_row_def Let_def)
  have empty: "assessments_of d (next_pk (periods d)) = []"
  proof -
    have "ta_period a \<noteq> next_pk (periods d)" if "a \<in> set (rows (assessments d))" for a
      using refs that by (intro fresh_not_key [OF keyed]) (simp add: refs_sound_def)
    then show ?thesis
      by (auto simp: assessments_of_def filter_empty_conv)
  qed
  have fresh: "period_balanced d (period_row run d x pop st (next_pk (periods d)))"
    if "st \<in> {PeriodOpen, PeriodDue}" for pop st
    using that empty by (auto simp: period_balanced_def new all_paid_def) (auto simp: period_row_def Let_def)
  obtain pop st and q :: tax_period where st: "st \<in> {PeriodOpen, PeriodDue}"
    and d1: "periods d1 \<in> {periods d, create (period_row run d x pop st) (periods d),
     update tx_pk (tx_pk q) (refreshed_period d (period_row run d x pop st (tx_pk q))) (periods d)}"
    using synchronize_period_cases [OF assms(2)] by blast
  have "sound d1"
  proof (rule sound_same_accounts [OF assms(1) same keyed1])
    show "tx_pk ` set (rows (periods d)) \<subseteq> tx_pk ` set (rows (periods d1))"
      using d1 by (auto simp: rows_create keys_of_update)
    show "period_balanced d p" if p: "p \<in> set (rows (periods d1))" for p
    proof -
      have "p \<in> set (rows (periods d)) \<or> p = period_row run d x pop st (next_pk (periods d))
          \<or> (\<exists>r \<in> set (rows (periods d)). p = refreshed_period d (period_row run d x pop st (tx_pk q)) r)"
        using d1 p by (auto simp: rows_create rows_update split: if_splits)
      then show ?thesis
      proof (elim disjE bexE)
        assume "p = period_row run d x pop st (next_pk (periods d))"
        then show ?thesis using fresh [OF st] by (simp only:)
      next
        fix r assume "r \<in> set (rows (periods d))" "p = refreshed_period d (period_row run d x pop st (tx_pk q)) r"
        then show ?thesis
          using refreshed_period_balanced [OF bal [of r]] st by (simp only: new)
      qed (rule bal)
    qed
  qed
  with now show ?thesis by simp
qed

lemma sound_synchronize_loop:
  "sound d \<Longrightarrow> synchronize_loop run xs d = (ks, d1) \<Longrightarrow> sound d1 \<and> wall d1 = wall d"
proof (induction xs arbitrary: d ks)
  case (Cons x xs)
  obtain ks1 d2 where one: "synchronize_period run x d = (ks1, d2)"
    by fastforce
  then obtain ks2 where "synchronize_loop run xs d2 = (ks2, d1)"
    using Cons.prems(2) by (auto split: prod.splits)
  with Cons.IH [of d2 ks2] sound_synchronize_period [OF Cons.prems(1) one] show ?case by simp
qed simp

lemma snapshot_loop_frame:
  "snapshot_loop fetch run needs d = (made, w, d1) \<Longrightarrow>
     same_accounts d d1 \<and> periods d1 = periods d \<and> wall d1 = wall d"
proof (induction needs arbitrary: d made w)
  case Nil
  then show ?case by (simp add: same_accounts_def)
next
  case (Cons need needs)
  obtain row warn where r: "snapshot_for fetch run need d = (row, warn)"
    by fastforce
  obtain made2 warns2 where rest:
    "snapshot_loop fetch run needs (d\<lparr>snapshots := create row (snapshots d)\<rparr>) = (made2, warns2, d1)"
    using Cons.prems by (auto simp: r Let_def split: prod.splits)
  from Cons.IH [OF rest] show ?case
    by (simp add: same_accounts_def)
qed

lemma fold_upsert_line_frame:
  "same_accounts d (fold (\<lambda>i. upsert_line (g i) i) items d)
   \<and> periods (fold (\<lambda>i. upsert_line (g i) i) items d) = periods d
   \<and> wall (fold (\<lambda>i. upsert_line (g i) i) items d) = wall d"
proof (induction items arbitrary: d)
  case Nil
  then show ?case by (simp add: same_accounts_def)
next
  case (Cons i items)
  have "same_accounts d (upsert_line (g i) i d) \<and> periods (upsert_line (g i) i d) = periods d
      \<and> wall (upsert_line (g i) i d) = wall d"
    by (simp add: upsert_line_def same_accounts_def split: option.split)
  with Cons [of "upsert_line (g i) i d"] show ?case
    by (simp add: same_accounts_def)
qed

lemma sound_synchronize_lines:
  assumes "sound d" and "synchronize_mining_lines fetch run ix ks ledger d = (n, w, d1)"
  shows "sound d1 \<and> wall d1 = wall d"
proof -
  let ?ps = "List.map_filter (\<lambda>k. lookup tx_pk k (periods d)) ks"
  obtain items needs warns where prep: "prepare_ledger_rows d ?ps ledger = (items, needs, warns)"
    by (metis prod_cases3)
  obtain made pw d2 where made: "create_price_snapshots fetch run needs d = (made, pw, d2)"
    by (metis prod_cases3)
  let ?g = "\<lambda>i. line_row ix run made (wall d) i"
  have d1: "d1 = fold (\<lambda>i. upsert_line (?g i) i) items d2"
    using assms(2) by (simp add: synchronize_mining_lines_def prep made Let_def)
  have "same_accounts d d2 \<and> periods d2 = periods d \<and> wall d2 = wall d"
    using made unfolding create_price_snapshots_def by (rule snapshot_loop_frame)
  then have "same_accounts d d1" and "periods d1 = periods d" and "wall d1 = wall d"
    unfolding d1 using fold_upsert_line_frame [of d2 ?g items] by (simp_all add: same_accounts_def)
  with sound_same [OF assms(1)] show ?thesis by blast
qed

lemma sound_recheck:
  assumes "sound d" and "recheck_mining_line_exemptions ix d = (n, d1)"
  shows "sound d1 \<and> wall d1 = wall d"
  using assms(2) by (auto simp: recheck_mining_line_exemptions_def same_accounts_def
      intro!: sound_same [OF assms(1)])

text \<open>New payments carry no allocation.\<close>

lemma sound_add_payment:
  assumes "sound d" and "pc_pk (mk (next_pk (payments d))) = next_pk (payments d)"
    and "0 < pc_amount (mk (next_pk (payments d)))"
  shows "sound (d\<lparr>payments := create mk (payments d)\<rparr>)"
proof -
  let ?d = "d\<lparr>payments := create mk (payments d)\<rparr>"
  have bk: "books d" and ex: "exempt_unfunded d" and refs: "refs_sound d"
    using assms(1) by (auto simp: sound_def books_def books_except_def)
  have keyed: "well_keyed pc_pk (payments d)"
    using refs by (simp add: refs_sound_def)
  have none: "allocations_of d (next_pk (payments d)) = []"
  proof -
    have "al_payment r \<noteq> next_pk (payments d)" if "r \<in> set (rows (allocations d))" for r
      using refs that by (intro fresh_not_key [OF keyed]) (simp add: refs_sound_def allocation_sound_def)
    then show ?thesis
      by (auto simp: allocations_of_def filter_empty_conv)
  qed
  have "refs_sound ?d"
    using refs none assms(2,3)
    by (auto simp: refs_sound_def well_keyed_create rows_create books_simps allocation_sound_def
        allocated_amount_def)
  then have "books ?d"
    using bk by (simp add: books_def books_except_def books_simps)
  moreover have "exempt_unfunded ?d"
    using ex none by (auto simp: exempt_unfunded_def lookup_create [OF keyed] assms(2) books_simps
        split: if_splits)
  ultimately show ?thesis by (simp add: sound_def)
qed

lemma sound_import_all:
  assumes "sound d" and "import_all cs (n, d) = Inr (n', d')"
    and "\<And>c. c \<in> set cs \<Longrightarrow> 0 < pc_amount (cd_row c)"
  shows "sound d'"
  using assms
proof (induction cs arbitrary: n d)
  case (Cons c cs)
  from Cons.prems obtain n1 d1 where one: "import_candidate c (n, d) = Inr (n1, d1)"
    and rest: "import_all cs (n1, d1) = Inr (n', d')"
    by (auto split: sum.splits)
  have "sound d1"
    using import_candidate_cases [OF one] Cons.prems(1,3) by (auto intro!: sound_add_payment)
  with Cons.IH [OF _ rest] Cons.prems(3) show ?case by simp
qed simp

lemma sound_import:
  assumes "sound d" and "import_payment_candidates run ms d = Inr (n, d')"
    and "\<And>m. m \<in> set ms \<Longrightarrow> member_cents m"
  shows "sound d' \<and> wall d' = wall d"
proof (cases "payment_targets d = []")
  case True
  with assms show ?thesis by (simp add: import_payment_candidates_def)
next
  case False
  let ?cs = "concat (map (candidates_of run (payment_targets d)) ms)"
  have all: "import_all ?cs (0, d) = Inr (n, d')"
    using assms(2) False by (simp add: import_payment_candidates_def Let_def)
  have "0 < pc_amount (cd_row c)" if "c \<in> set ?cs" for c
  proof -
    obtain m where m: "m \<in> set ms" "c \<in> set (candidates_of run (payment_targets d) m)"
      using \<open>c \<in> set ?cs\<close> by auto
    then have "pending_candidate run (payment_targets d) (cd_row c)"
      using wallet_candidates_pending [OF assms(3) [OF m(1)]] contract_candidates_pending [OF assms(3) [OF m(1)]]
      by (auto simp: candidates_of_def)
    then show ?thesis by (simp add: pending_candidate_def)
  qed
  then have "sound d'"
    using sound_import_all [OF assms(1) all] by blast
  moreover have "well_keyed pc_pk (payments d)"
    using assms(1) by (simp add: sound_def books_def books_except_def refs_sound_def)
  then have "only_payments d d'"
    using import_all_adds [OF all] by blast
  then have "wall d' = wall d"
    by (auto simp: only_payments_def)
  ultimately show ?thesis by simp
qed

text \<open>A mark on a bill that no total depends on.\<close>

definition bill_view :: "tax_assessment \<Rightarrow>
    nat \<times> nat \<times> decimal \<times> decimal \<times> decimal \<times> decimal \<times> decimal \<times> assessment_status" where
  "bill_view a = (ta_pk a, ta_period a, ta_gross_value a, ta_calculated a, ta_adjustment_total a,
     ta_tax_due a, ta_approved_paid a, ta_status a)"

lemma bill_balanced_view: "bill_view a = bill_view b \<Longrightarrow> bill_balanced d a = bill_balanced d b"
  by (simp add: bill_balanced_def bill_view_def)

lemma assessments_of_view:
  assumes "\<And>a. bill_view (f a) = bill_view a"
  shows "map bill_view (assessments_of (save_assessment j f d) m) = map bill_view (assessments_of d m)"
proof -
  have "ta_period (f a) = ta_period a" for a
    using assms [of a] by (simp add: bill_view_def)
  then have "map bill_view (filter (\<lambda>a. ta_period a = m) (map (\<lambda>a. if ta_pk a = j then f a else a) xs))
      = map bill_view (filter (\<lambda>a. ta_period a = m) xs)" for xs
    using assms by (induction xs) auto
  then show ?thesis
    by (simp add: assessments_of_def save_assessment_def rows_update)
qed

lemma map_view:
  assumes "map bill_view xs = map bill_view ys"
  shows "map ta_gross_value xs = map ta_gross_value ys" "map ta_tax_due xs = map ta_tax_due ys"
    "map ta_approved_paid xs = map ta_approved_paid ys" "all_paid xs = all_paid ys"
proof -
  have "map (g \<circ> bill_view) xs = map (g \<circ> bill_view) ys" for g :: "_ \<Rightarrow> 'z"
    unfolding map_map [symmetric] assms ..
  note m = this
  show "map ta_gross_value xs = map ta_gross_value ys"
    using m [of "\<lambda>(_, _, x, _). x"] by (simp add: bill_view_def comp_def)
  show "map ta_tax_due xs = map ta_tax_due ys"
    using m [of "\<lambda>(_, _, _, _, _, x, _). x"] by (simp add: bill_view_def comp_def)
  show "map ta_approved_paid xs = map ta_approved_paid ys"
    using m [of "\<lambda>(_, _, _, _, _, _, x, _). x"] by (simp add: bill_view_def comp_def)
  show "all_paid xs = all_paid ys"
    using m [of "\<lambda>(_, _, _, _, _, x, y, _). (x, y)"]
    by (intro all_paid_map) (simp add: bill_view_def comp_def)
qed

lemma sound_mark_bill:
  assumes "sound d" and "\<And>a. bill_view (f a) = bill_view a"
  shows "sound (save_assessment j f d)"
proof -
  have bk: "books d" and refs: "refs_sound d"
    using assms(1) by (auto simp: sound_def books_def books_except_def)
  have keep: "ta_pk (f a) = ta_pk a" "ta_period (f a) = ta_period a" for a
    using assms(2) [of a] by (simp_all add: bill_view_def)
  have "refs_sound (save_assessment j f d)"
    using refs keep by (simp add: refs_sound_def save_assessment_def books_simps refs_frame)
  moreover have "bill_balanced (save_assessment j f d) b" if "b \<in> set (rows (assessments (save_assessment j f d)))" for b
  proof -
    from that obtain a where "a \<in> set (rows (assessments d))" "bill_view b = bill_view a"
      using assms(2) by (auto simp: save_assessment_def rows_update)
    then show ?thesis
      using bk bill_balanced_view [of b a d] by (simp add: books_def books_except_def books_simps)
  qed
  moreover have "period_balanced (save_assessment j f d) p" if "p \<in> set (rows (periods d))" for p
    using bk that map_view [OF assessments_of_view [of f j d "tx_pk p", OF assms(2)]]
    by (simp add: books_def books_except_def period_balanced_def)
  ultimately have "books (save_assessment j f d)"
    by (simp add: books_def books_except_def books_simps)
  then show ?thesis
    using sound_frame [OF assms(1)] by (simp add: books_simps)
qed

lemma notify_all_frame:
  "same_accounts d (notify_all us t m l d) \<and> periods (notify_all us t m l d) = periods d
   \<and> wall (notify_all us t m l d) = wall d"
  unfolding notify_all_def
  by (induction us arbitrary: d) (simp_all add: same_accounts_def notify_def)

lemma sound_deduped_notify:
  assumes "sound d" and "deduped_notify h k us t m l d = (n, d1)"
  shows "sound d1"
  using assms(2) notify_all_frame [of d us t m l]
  by (auto simp: deduped_notify_def Let_def same_accounts_def split: if_splits
      intro!: sound_same [OF assms(1)] assms(1))

lemma sound_announce:
  assumes "sound d"
  shows "sound (announce_bill a d)"
proof (cases "period_of d a")
  case None
  with assms show ?thesis by (simp add: announce_bill_def)
next
  case (Some p)
  have "sound (notify u t m l d)" for u t m l
    by (rule sound_same [OF assms]) (simp_all add: same_accounts_def notify_def)
  then show ?thesis
    unfolding announce_bill_def Some Let_def option.case
    by (intro sound_mark_bill) (simp_all add: bill_view_def)
qed

lemma sound_dispatch:
  assumes "sound d" and "dispatch_notifications h run d = (n, d1)"
  shows "sound d1"
proof -
  have fold: "sound (fold announce_bill as d)" for as
    using assms(1) by (induction as arbitrary: d) (simp_all add: sound_announce)
  obtain n1 d2 where s1: "(if cf_notify_member_new_tax (config d) then announce_new_bills d else (0, d)) = (n1, d2)"
    by fastforce
  obtain n2 d3 where s2: "(if cf_notify_director_unpaid (config d) then notify_unpaid h d2 else (0, d2)) = (n2, d3)"
    by fastforce
  have d2: "sound d2"
    using s1 assms(1) fold by (auto simp: announce_new_bills_def split: if_splits)
  have d3: "sound d3"
    using s2 d2 by (auto simp: notify_unpaid_def Let_def split: if_splits intro: sound_deduped_notify)
  have "d1 = d3 \<or> (\<exists>n3. notify_missing_data h run d3 = (n3, d1))"
    using assms(2) by (auto simp: dispatch_notifications_def s1 s2 split: prod.splits if_splits)
  with d3 show ?thesis
    by (auto simp: notify_missing_data_def Let_def split: if_splits intro: sound_deduped_notify)
qed

lemma sound_save_audit: "sound d \<Longrightarrow> sound (save_audit k f d)"
  by (erule sound_same) (simp_all add: same_accounts_def save_audit_def)

lemma sound_reconcile_books:
  assumes "sound d" and "reconcile_books src run d = Inr (counts, w, d')"
    and "\<And>m. m \<in> set (as_members src) \<Longrightarrow> member_cents m"
  shows "sound d'"
proof -
  let ?ix = "exemption_index d"
  define full where "full \<longleftrightarrow> cf_exemption_state_hash (config d) \<noteq> state_hash (as_state_digest src) ?ix"
  obtain ks d1 where 1: "synchronize_periods run (as_extractions src) d = (ks, d1)"
    by fastforce
  obtain n2 w2 d2 where 2: "synchronize_mining_lines (as_market src) run ?ix ks (as_ledger src) d1 = (n2, w2, d2)"
    by (metis prod_cases3)
  obtain n3 d3 where 3: "(if full then recheck_mining_line_exemptions ?ix d2 else (0, d2)) = (n3, d3)"
    by fastforce
  obtain n4 w4 d4 where 4: "rebuild_assessments ks d3 = (n4, w4, d4)"
    by (metis prod_cases3)
  obtain n5 d5 where 5: "import_payment_candidates run (as_members src) d4 = Inr (n5, d5)"
    using assms(2) unfolding reconcile_books_def Let_def full_def [symmetric]
    by (auto simp: 1 2 3 4 split: sum.splits)
  obtain c d6 where 6: "reconcile_payment_exemptions ?ix (\<lambda>p. full \<or> pc_audit p = Some run) d5 = (c, d6)"
    by fastforce
  have d': "\<exists>g. d' = d6\<lparr>config := g\<rparr>"
    using assms(2) unfolding reconcile_books_def Let_def full_def [symmetric]
    by (auto simp: 1 2 3 4 5 6)
  have "sound d1"
    using sound_synchronize_loop [OF assms(1) 1 [unfolded synchronize_periods_def]] by simp
  then have "sound d2"
    using sound_synchronize_lines [OF _ 2] by simp
  then have "sound d3"
    using sound_recheck 3 by (auto split: if_splits)
  then have "sound d4"
    using sound_fold_rebuild 4 unfolding rebuild_assessments_def by blast
  then have "sound d5"
    using sound_import [OF _ 5 assms(3)] by simp
  then have "sound d6"
    using reconcile_facts(1,4) [OF _ 6] by (simp add: sound_def)
  then show ?thesis
    using d' by (auto simp: same_accounts_def intro!: sound_same [OF \<open>sound d6\<close>])
qed

text \<open>
  C2. A whole audit keeps the books: whatever the extractions, the ledger, the market
  and the members' wallets hold, after \<open>reconcile\<close> every bill and every period still
  equals what its lines, allocations and adjustments say, no payment is over-allocated
  and no excluded payment is funded.
\<close>

theorem audit_keeps_books:
  assumes "sound d" and "reconcile src audit d = Inr d'"
    and "\<And>m. m \<in> set (as_members src) \<Longrightarrow> member_cents m"
  shows "sound d'"
proof -
  define d0 where "d0 = save_audit (ar_pk audit)
      (\<lambda>r. r\<lparr>ar_status := AuditRunning, ar_started_at := or_now (ar_started_at audit) (wall d)\<rparr>) d"
  have "sound d0"
    unfolding d0_def using assms(1) by (rule sound_save_audit)
  obtain counts w d1 where b: "reconcile_books src (ar_pk audit) d0 = Inr (counts, w, d1)"
    using assms(2) by (auto simp: reconcile_def d0_def Let_def split: sum.splits)
  obtain n d2 where n: "dispatch_notifications (as_payload_digest src) (ar_pk audit) d1 = (n, d2)"
    by fastforce
  have "sound d2"
    using sound_dispatch [OF sound_reconcile_books [OF \<open>sound d0\<close> b assms(3)] n] .
  moreover have "\<exists>f. d' = save_audit (ar_pk audit) f d2"
    using assms(2) b n by (auto simp: reconcile_def d0_def [symmetric] Let_def)
  ultimately show ?thesis
    using sound_save_audit by blast
qed

lemma import_single:
  assumes "payment_targets d \<noteq> []" and "candidates_of run (payment_targets d) m = [c]"
    and "cd_occurred_at c = Some t" and "\<not> has_key d (pc_source_key (cd_row c))"
  shows "import_payment_candidates run [m] d =
    Inr (1, d\<lparr>payments := create (\<lambda>pk. (cd_row c)\<lparr>pc_pk := pk, pc_occurred_at := t\<rparr>) (payments d)\<rparr>)"
proof -
  have "\<not> list_ex (\<lambda>p. pc_source_key p = pc_source_key (cd_row c)) (rows (payments d))"
    using assms(4) by (auto simp: has_key_def list_ex_iff image_iff)
  then show ?thesis
    using assms(1-3) by (simp add: import_payment_candidates_def Let_def import_candidate_def)
qed

text \<open>
  One payment, two candidates. A finished contract that an audit sees before the
  journal entry of its money is imported under its contract key; when the entry arrives,
  the next audit imports the same money again under the entry's key. The rule that a
  contract with a journal entry is not imported holds only inside one audit.
\<close>

theorem contract_then_journal_imports_twice:
  assumes "mb_contracts m = [k]" and "mb_journal m = []" and "m' = m\<lparr>mb_journal := [e]\<rparr>"
    and "mc_status k = Finished" and "\<not> mc_has_items k" and "mc_date_completed k = Some t"
    and "contract_payment (payment_targets d) m k = Some (target, amount)"
    and "we_amount e = - amount" and "we_second_party_id e = Some target"
    and "we_context_is_contract e" and "we_context_id e = Some (mc_contract_id k)"
    and "mc_contract_id k \<noteq> 0"
    and "\<not> has_key d (contract_key m k)" and "\<not> has_key d (wallet_key m e)"
  shows "\<exists>d1 d2 p q. import_payment_candidates run [m] d = Inr (1, d1)
    \<and> import_payment_candidates run' [m'] d1 = Inr (1, d2)
    \<and> rows (payments d2) = rows (payments d) @ [p, q]
    \<and> pc_source_key p = contract_key m k \<and> pc_source_key q = wallet_key m e
    \<and> pc_amount p = pc_amount q \<and> pc_payer_id p = pc_payer_id q \<and> pc_recipient_id p = pc_recipient_id q
    \<and> pc_status p = PayPending \<and> pc_status q = PayPending"
proof -
  let ?ts = "payment_targets d"
  note pay = contract_payment_some [OF assms(7)]
  have ts: "?ts \<noteq> []"
    using pay by auto
  have fin: "finished_contracts m = [k]" "finished_contracts m' = [k]"
    using assms(1,3,4) by (simp_all add: finished_contracts_def FINISHED_CONTRACT_STATUSES_def)
  have entries: "payment_entries ?ts m = []" "payment_entries ?ts m' = [(e, Contract)]"
    using assms pay fin
    by (simp_all add: payment_entries_def wallet_payment_source_def is_target_def List.map_filter_simps)
  have pay': "contract_payment ?ts m' k = contract_payment ?ts m k"
    by (simp add: contract_payment_def assms(3) Let_def)
  define c where "c = candidate_row run m ?ts Contract (contract_key m k) (mc_contract_id k) target amount
             (if mc_title k \<noteq> '''' then mc_title k else ''Completed ISK contract'') (Some t)"
  define w where "w = candidate_row run' m' ?ts Contract (wallet_key m' e) (we_entry_id e) target \<bar>we_amount e\<bar>
            (if we_reason e \<noteq> '''' then we_reason e else we_description e) (Some (we_date e))"
  have c: "candidates_of run ?ts m = [c]"
    using assms fin entries
    by (simp add: candidates_of_def wallet_candidates_def contract_candidates_def seen_contract_ids_def
        List.map_filter_simps c_def)
  have w: "candidates_of run' ?ts m' = [w]"
    using assms fin entries
    by (simp add: candidates_of_def wallet_candidates_def contract_candidates_def seen_contract_ids_def
        List.map_filter_simps truthy_def w_def)
  have keys: "pc_source_key (cd_row c) = contract_key m k" "pc_source_key (cd_row w) = wallet_key m e"
    "cd_occurred_at c = Some t" "cd_occurred_at w = Some (we_date e)"
    by (simp_all add: candidate_row_def wallet_key_def assms(3) c_def w_def)
  have fields: "pc_amount (cd_row c) = pc_amount (cd_row w)" "pc_payer_id (cd_row c) = pc_payer_id (cd_row w)"
    "pc_recipient_id (cd_row c) = pc_recipient_id (cd_row w)" "pc_status (cd_row c) = PayPending"
    "pc_status (cd_row w) = PayPending"
    using pay by (simp_all add: candidate_row_def c_def w_def assms(3,8))
  let ?p = "\<lambda>pk. (cd_row c)\<lparr>pc_pk := pk, pc_occurred_at := t\<rparr>"
  let ?q = "\<lambda>pk. (cd_row w)\<lparr>pc_pk := pk, pc_occurred_at := we_date e\<rparr>"
  let ?d1 = "d\<lparr>payments := create ?p (payments d)\<rparr>"
  have targets: "payment_targets ?d1 = ?ts"
    by (simp add: payment_targets_def live_targets_def)
  have one: "import_payment_candidates run [m] d = Inr (1, ?d1)"
    by (rule import_single) (simp_all add: ts c keys assms(13))
  have differ: "wallet_key m e \<noteq> contract_key m k"
    by (simp add: wallet_key_def contract_key_def)
  then have new: "\<not> has_key ?d1 (wallet_key m e)"
    using assms(14) by (auto simp: has_key_def rows_create keys)
  have two: "import_payment_candidates run' [m'] ?d1 = Inr (1, ?d1\<lparr>payments := create ?q (payments ?d1)\<rparr>)"
    by (rule import_single) (simp_all only: targets ts w keys new simp_thms)
  show ?thesis
  proof (intro exI conjI)
    show "rows (payments (?d1\<lparr>payments := create ?q (payments ?d1)\<rparr>)) =
        rows (payments d) @ [?p (next_pk (payments d)), ?q (next_pk (payments ?d1))]"
      by (simp add: rows_create)
  qed (use one two keys fields in simp_all)
qed

end
