(* ===== verification/MT_AuditSamples.thy ===== *)
theory MT_AuditSamples
  imports MT_Samples MT_Auditor
begin

text \<open>
  The sample database before and after audits: a closed period with a priced line, an
  extraction, a market with two orders, a member with a wallet and a contract; and the
  witnesses of the properties of prices, periods, bills and imports.
\<close>

section \<open>Prices\<close>

definition sample_order :: "decimal \<Rightarrow> decimal \<Rightarrow> order" where
  "sample_order p v = \<lparr>or_price = Some p, or_volume_remain = Some v, or_location_id = Some 60003760,
     or_is_buy_order = Some True\<rparr>"

definition sample_orders :: "order list" where
  "sample_orders = [sample_order 8 100, sample_order 10 5]"

lemma sample_valuation: "\<exists>v. weighted_buy_value sample_orders 20 = Inr v"
  by (simp add: weighted_buy_value_def sample_orders_def sample_order_def Let_def)

theorem weighted_buy_value_fills_witness:
  "\<exists>v. weighted_buy_value sample_orders 20 = Inr v \<and> va_priced v = 20 \<and> va_complete v"
proof -
  obtain v where v: "weighted_buy_value sample_orders 20 = Inr v"
    using sample_valuation by blast
  show ?thesis
    using weighted_buy_value_fills [OF v] v
    by (simp add: offered_def offer_def sample_orders_def sample_order_def volume_def price_def)
qed

theorem weighted_buy_value_optimal_witness:
  "\<exists>v fills. weighted_buy_value sample_orders 20 = Inr v
     \<and> sells_to sample_orders fills \<and> sold fills = 20 \<and> va_total v = quantize 2 (proceeds fills)
     \<and> quantize 2 160 \<le> va_total v"
proof -
  obtain v where v: "weighted_buy_value sample_orders 20 = Inr v"
    using sample_valuation by blast
  have priced: "va_priced v = 20"
    using v by (simp add: weighted_buy_value_def sample_orders_def sample_order_def Let_def
        highest_first_def volume_def price_def) (auto simp: min_def)
  let ?fills = "[(sample_order 8 100, 20), (sample_order 10 5, 0)]"
  have "sells_to sample_orders ?fills" and "sold ?fills \<le> max 0 20" and "proceeds ?fills = 160"
    by (simp_all add: sells_to_def sold_def proceeds_def sample_orders_def sample_order_def
        volume_def price_def)
  then show ?thesis
    using weighted_buy_value_optimal [OF v] v priced by metis
qed

definition sample_market :: market where
  "sample_market t r n = Inr \<lparr>pg_pages = 1, pg_orders = sample_orders\<rparr>"

theorem price_snapshots_complete_or_warned_witness:
  "\<exists>made warns d'. create_price_snapshots sample_market 1
      [\<lparr>pn_type_id = 62516, pn_name = ''Compressed'', pn_quantity = 20\<rparr>] sample_db = (made, warns, d')
    \<and> map fst made = [62516] \<and> rows (snapshots d') = map snd made"
proof -
  obtain made warns d' where run: "create_price_snapshots sample_market 1
      [\<lparr>pn_type_id = 62516, pn_name = ''Compressed'', pn_quantity = 20\<rparr>] sample_db = (made, warns, d')"
    by (metis prod_cases3)
  show ?thesis
    using price_snapshots_complete_or_warned [OF run] run by (auto simp: sample_db_def empty_table_def)
qed

section \<open>Periods and lines\<close>

definition sample_record :: ledger_record where
  "sample_record = \<lparr>lr_pk = 1, lr_refinery_id = 1001, lr_day = 0, lr_character_id = 90,
     lr_character_name = Some ''Pilot'', lr_corporation_id = 5, lr_corporation_name = None,
     lr_user_id = None, lr_ore_type_id = 45490, lr_ore_type_name = ''Zeolites'', lr_quantity = 1000\<rparr>"

theorem period_for_record_newest_witness:
  "period_for_record [sample_period, sample_period\<lparr>tx_pk := 32, tx_pop_at := 50\<rparr>] sample_record
     = Some (sample_period\<lparr>tx_pk := 32, tx_pop_at := 50\<rparr>)
   \<and> period_covers sample_record (sample_period\<lparr>tx_pk := 32, tx_pop_at := 50\<rparr>)"
proof -
  have "period_for_record [sample_period, sample_period\<lparr>tx_pk := 32, tx_pop_at := 50\<rparr>] sample_record
     = Some (sample_period\<lparr>tx_pk := 32, tx_pop_at := 50\<rparr>)"
    by (simp add: period_for_record_def periods_at_def period_covers_def date_of_def sample_record_def
        sample_period_def)
  with period_for_record_newest [of "[sample_period, sample_period\<lparr>tx_pk := 32, tx_pop_at := 50\<rparr>]" sample_record]
  show ?thesis by simp
qed

definition sample_extraction :: extraction where
  "sample_extraction = \<lparr>ex_refinery_id = 1001, ex_refinery_name = ''Athanor'', ex_moon = Some (1, ''Moon''),
     ex_corporation_id = 5, ex_corporation_name = ''Corp'', ex_started_at = 0, ex_fractured_at = Some 10,
     ex_chunk_arrival_at = None, ex_canceled = False\<rparr>"

theorem synchronize_periods_keeps_closed_witness:
  "\<exists>ks d' p'. synchronize_periods 1 [sample_extraction] sample_db = (ks, d')
    \<and> lookup tx_pk 31 (periods d') = Some p' \<and> tx_tax_rate p' = 10 \<and> tx_tax_due p' = 350"
proof -
  obtain ks d' where run: "synchronize_periods 1 [sample_extraction] sample_db = (ks, d')"
    by fastforce
  have "well_keyed tx_pk (periods sample_db)" and "lookup tx_pk 31 (periods sample_db) = Some sample_period"
    by (simp_all add: well_keyed_def lookup_def sample_db_def sample_period_def)
  from synchronize_periods_keeps_closed [OF run this(1) _ this(2)] run show ?thesis
    by (auto simp: sample_period_def sample_db_def)
qed

theorem wider_window_reprices_closed_period_witness:
  "\<exists>d1 d2 p1 p2. synchronize_period 1 sample_extraction sample_db = ([31], d1)
    \<and> find_period d1 sample_extraction = Some p1 \<and> wall sample_db < tx_closes_at p1
    \<and> synchronize_period 2 sample_extraction d1 = ([31], d2)
    \<and> find_period d2 sample_extraction = Some p2 \<and> tx_allowed_recipients p2 = []
    \<and> tx_allowed_recipients sample_period \<noteq> []"
proof -
  have p: "find_period sample_db sample_extraction = Some sample_period"
    by (simp add: find_period_def sample_db_def sample_extraction_def) (simp add: sample_period_def)
  have "tx_closes_at sample_period \<le> wall sample_db" "pop_of_extraction sample_extraction = Some 10"
    "10 \<le> wall sample_db" "wall sample_db < 10 + days (cf_mining_window_days (config sample_db))"
    by (simp_all add: sample_db_def sample_period_def pop_of_extraction_def sample_extraction_def
        sample_config_def days_def)
  from wider_window_reprices_closed_period [OF p this, of 1 2] show ?thesis
    by (auto simp: recipient_snapshot_def effective_policy_def enabled_recipients_def configured_recipients_def
        sample_db_def sample_config_def sample_period_def)
qed

definition sample_line :: mining_line where
  "sample_line = \<lparr>ml_pk = 51, ml_period = 31, ml_ledger_day = 0, ml_character_id = 90,
     ml_character_name = ''Pilot'', ml_corporation_id = 5, ml_corporation_name = ''Corp'',
     ml_auth_user = Some 7, ml_raw_type_id = 45490, ml_raw_type_name = ''Zeolites'',
     ml_compressed_type_id = Some 62463, ml_compressed_type_name = ''Compressed Zeolites'',
     ml_raw_quantity = 1000, ml_compressed_quantity = 10, ml_unit_price = 300, ml_gross_value = 3000,
     ml_tax_rate = 10, ml_tax_due = 300, ml_is_exempt = False, ml_exemption_reason = '''',
     ml_pricing_complete = True, ml_last_audit_run = 1, ml_updated_at = 0\<rparr>"

definition mined_db :: mt_db where
  "mined_db = sample_db\<lparr>lines := \<lparr>rows = [sample_line], next_pk = 52\<rparr>\<rparr>"

lemma mined_sound: "sound mined_db"
  by (rule sound_same [OF sample_sound]) (simp_all add: same_accounts_def mined_db_def)

theorem closed_line_keeps_price_witness:
  "\<exists>n warns d'. synchronize_mining_lines sample_market 2 (exemption_index mined_db) [31] [sample_record] mined_db
      = (n, warns, d')
    \<and> (\<exists>l \<in> set (rows (lines d')). ml_pk l = 51 \<and> ml_unit_price l = 300)"
proof -
  obtain n warns d' where run: "synchronize_mining_lines sample_market 2 (exemption_index mined_db) [31]
      [sample_record] mined_db = (n, warns, d')"
    by (metis prod_cases3)
  have "lines_ok mined_db" "sample_line \<in> set (rows (lines mined_db))" "ml_pricing_complete sample_line"
    "lookup tx_pk (ml_period sample_line) (periods mined_db) = Some sample_period"
    "tx_closes_at sample_period \<le> wall mined_db"
    by (simp_all add: lines_ok_def well_keyed_def mined_db_def sample_line_def sample_db_def lookup_def
        sample_period_def)
  from closed_line_keeps_price [OF run this] run show ?thesis
    by (auto simp: sample_line_def)
qed

section \<open>Bills\<close>

theorem rebuild_keeps_decided_bills_witness:
  "\<exists>n w d'. rebuild_assessments [31] mined_db = (n, w, d')
    \<and> (\<exists>b \<in> set (rows (assessments d')). ta_pk b = 23)"
proof -
  obtain n w d' where run: "rebuild_assessments [31] mined_db = (n, w, d')"
    by (metis prod_cases3)
  have "sample_bill 23 8 0 0 50 \<in> set (rows (assessments mined_db))" "bill_decided mined_db (sample_bill 23 8 0 0 50)"
    by (simp_all add: mined_db_def sample_db_def bill_decided_def sample_debit_def sample_bill_def)
  from rebuild_keeps_decided_bills [OF mined_sound this run] run show ?thesis
    by (auto simp: sample_bill_def)
qed

theorem rebuild_keeps_books_witness:
  "\<exists>n w d'. rebuild_assessments [31] mined_db = (n, w, d') \<and> sound d' \<and> payments d' = payments mined_db"
proof -
  obtain n w d' where run: "rebuild_assessments [31] mined_db = (n, w, d')"
    by (metis prod_cases3)
  show ?thesis
    using rebuild_keeps_books [OF mined_sound run] run by blast
qed

text \<open>A database whose bills have keys of their own.\<close>

definition keyed_db :: mt_db where
  "keyed_db = mined_db\<lparr>assessments := \<lparr>rows = [(sample_bill 21 7 1000 100 0)\<lparr>ta_billing_key := ''user:7''\<rparr>,
     (sample_bill 22 7 2000 200 0)\<lparr>ta_billing_key := ''character:91''\<rparr>,
     (sample_bill 23 8 0 0 50)\<lparr>ta_billing_key := ''user:8''\<rparr>], next_pk = 24\<rparr>\<rparr>"

lemma keyed_sound: "sound keyed_db"
proof -
  have "books keyed_db"
    by (simp add: books_def books_except_def refs_sound_def well_keyed_def bill_balanced_def
        period_balanced_def assessments_of_def tax_allocated_def active_adjustment_total_def
        allocated_amount_def allocations_of_def all_paid_def keyed_db_def mined_db_def sample_rows)
  then show ?thesis
    by (rule sound_frame [OF mined_sound]) (simp_all add: keyed_db_def)
qed

theorem rebuild_conserves_tax_witness:
  "\<exists>n w d'. rebuild_period 31 (0, [], keyed_db) = (n, w, d')
    \<and> sum_list (map ta_calculated (bills_with_keys d' 31
         (set (map show_key (bucket_keys keyed_db (decided_bills keyed_db 31) (lines_of keyed_db 31)))))) = 300"
proof -
  obtain n w d' where run: "rebuild_period 31 (0, [], keyed_db) = (n, w, d')"
    by (metis prod_cases3)
  have "bills_unique keyed_db" "lookup tx_pk 31 (periods keyed_db) = Some sample_period"
    by (simp_all add: bills_unique_def keyed_db_def mined_db_def sample_db_def sample_bill_def lookup_def
        sample_period_def)
  moreover have "cents (ml_tax_due l) \<and> cents (ml_gross_value l)" if "l \<in> set (rows (lines keyed_db))" for l
  proof -
    have "cents 300" "cents 3000"
      by (auto simp: cents_iff intro: exI [of _ 30000] exI [of _ 300000])
    then show ?thesis
      using that by (simp add: keyed_db_def mined_db_def sample_line_def)
  qed
  ultimately show ?thesis
    using rebuild_conserves_tax [OF keyed_sound _ _ _ run refl] run
    by (simp add: keyed_db_def mined_db_def sample_line_def)
qed

section \<open>Imports\<close>

definition sample_entry :: wallet_entry where
  "sample_entry = \<lparr>we_entry_id = 901, we_amount = - 120, we_second_party_id = Some 55,
     we_context_is_contract = True, we_context_id = Some 77, we_date = 400, we_reason = '''',
     we_description = ''Contract''\<rparr>"

definition sample_contract :: member_contract where
  "sample_contract = \<lparr>mc_contract_id = 77, mc_status = Finished, mc_has_items = False, mc_issuer_id = 90,
     mc_assignee_id = Some 55, mc_acceptor_id = None, mc_reward = Some 120, mc_price = None,
     mc_date_completed = Some 390, mc_date_accepted = None, mc_title = ''tax''\<rparr>"

definition sample_member :: member where
  "sample_member = \<lparr>mb_character_id = 90, mb_name = ''Pilot'', mb_user = Some 7,
     mb_contracts = [sample_contract], mb_journal = []\<rparr>"

definition late_member :: member where
  "late_member = sample_member\<lparr>mb_journal := [sample_entry]\<rparr>"

lemma sample_targets: "payment_targets sample_db = [(55, ''Tax'')]"
  by (simp add: payment_targets_def live_targets_def configured_targets_def snapshot_targets_def
      sample_db_def sample_config_def sample_period_def truthy_def)

lemma sample_keys:
  "contract_key sample_member sample_contract = ''contract:90:77''"
  "wallet_key sample_member sample_entry = ''wallet:90:901''"
  by code_simp+

lemma sample_new_keys:
  "\<not> has_key sample_db (contract_key sample_member sample_contract)"
  "\<not> has_key sample_db (wallet_key sample_member sample_entry)"
  by (simp_all add: sample_keys has_key_def sample_db_def sample_payment_def)

lemma sample_contract_pays:
  "contract_payment (payment_targets sample_db) sample_member sample_contract = Some (55, 120)"
  by (simp add: sample_targets contract_payment_def sample_contract_def sample_member_def is_target_def truthy_def)

lemma sample_import:
  obtains d1 where "import_payment_candidates 1 [sample_member] sample_db = Inr (1, d1)"
proof -
  have "finished_contracts sample_member = [sample_contract]" "payment_entries ts sample_member = []" for ts
    by (simp_all add: finished_contracts_def FINISHED_CONTRACT_STATUSES_def payment_entries_def
        sample_member_def sample_contract_def List.map_filter_simps)
  then obtain c where c: "candidates_of 1 (payment_targets sample_db) sample_member = [c]"
    "cd_occurred_at c = Some 390" "pc_source_key (cd_row c) = contract_key sample_member sample_contract"
    using sample_contract_pays
    by (simp add: candidates_of_def wallet_candidates_def contract_candidates_def seen_contract_ids_def
        List.map_filter_simps candidate_row_def)
      (simp add: sample_contract_def)
  from import_single [OF _ c(1,2)] sample_new_keys(1) show thesis
    using that by (simp add: c(3) sample_targets)
qed

lemma sample_member_cents: "member_cents sample_member"
proof -
  have "cents 120"
    by (auto simp: cents_iff intro: exI [of _ 12000])
  then show ?thesis
    by (simp add: member_cents_def sample_member_def sample_contract_def)
qed

lemma sample_payments_keyed: "well_keyed pc_pk (payments sample_db)"
  by (simp add: well_keyed_def sample_db_def sample_payment_def)

theorem import_adds_only_pending_witness:
  "\<exists>d1 p. import_payment_candidates 1 [sample_member] sample_db = Inr (1, d1)
    \<and> rows (payments d1) = [sample_payment, p] \<and> pc_status p = PayPending \<and> pc_recipient_id p = 55"
proof -
  obtain d1 where run: "import_payment_candidates 1 [sample_member] sample_db = Inr (1, d1)"
    by (rule sample_import)
  obtain new where new: "rows (payments d1) = rows (payments sample_db) @ new" "length new = 1"
    "\<forall>p \<in> set new. pending_candidate 1 (payment_targets sample_db) p"
    using import_adds_only_pending [OF run sample_payments_keyed] sample_member_cents by auto
  then obtain p where "new = [p]"
    by (cases new) auto
  moreover have "rows (payments sample_db) = [sample_payment]"
    by (simp add: sample_db_def)
  ultimately show ?thesis
    using new run by (auto simp: sample_targets pending_candidate_def)
qed

theorem import_idempotent_witness:
  "\<exists>d1. import_payment_candidates 1 [sample_member] sample_db = Inr (1, d1)
    \<and> import_payment_candidates 2 [sample_member] d1 = Inr (0, d1)"
proof -
  obtain d1 where run: "import_payment_candidates 1 [sample_member] sample_db = Inr (1, d1)"
    by (rule sample_import)
  show ?thesis
    using import_idempotent [OF run sample_payments_keyed] run by blast
qed

theorem contract_then_journal_imports_twice_witness:
  "\<exists>d1 d2 p q. import_payment_candidates 1 [sample_member] sample_db = Inr (1, d1)
    \<and> import_payment_candidates 2 [late_member] d1 = Inr (1, d2)
    \<and> rows (payments d2) = [sample_payment, p, q] \<and> pc_amount p = pc_amount q"
proof -
  have "mb_contracts sample_member = [sample_contract]" "mb_journal sample_member = []"
    "late_member = sample_member\<lparr>mb_journal := [sample_entry]\<rparr>"
    "mc_status sample_contract = Finished" "\<not> mc_has_items sample_contract"
    "mc_date_completed sample_contract = Some 390"
    by (simp_all add: sample_member_def late_member_def sample_contract_def)
  note a = this sample_contract_pays
  have "we_amount sample_entry = - 120" "we_second_party_id sample_entry = Some 55"
    "we_context_is_contract sample_entry" "we_context_id sample_entry = Some (mc_contract_id sample_contract)"
    "mc_contract_id sample_contract \<noteq> 0"
    by (simp_all add: sample_entry_def sample_contract_def)
  from contract_then_journal_imports_twice [OF a this sample_new_keys, of 1 2] show ?thesis
    by (auto simp: sample_db_def)
qed

theorem import_error_only_undated_contract_witness:
  "\<exists>e. import_payment_candidates 1 [sample_member\<lparr>mb_contracts := [sample_contract\<lparr>mc_date_completed := None\<rparr>]\<rparr>]
      sample_db = Inl e \<and> e = IntegrityError ''occurred_at''"
proof -
  let ?m = "sample_member\<lparr>mb_contracts := [sample_contract\<lparr>mc_date_completed := None\<rparr>]\<rparr>"
  let ?ts = "payment_targets sample_db"
  have "finished_contracts ?m = [sample_contract\<lparr>mc_date_completed := None\<rparr>]" "payment_entries ?ts ?m = []"
    by (simp_all add: finished_contracts_def FINISHED_CONTRACT_STATUSES_def payment_entries_def
        sample_member_def sample_contract_def List.map_filter_simps)
  moreover have "contract_payment ?ts ?m (sample_contract\<lparr>mc_date_completed := None\<rparr>) = Some (55, 120)"
    by (simp add: sample_targets contract_payment_def sample_contract_def sample_member_def is_target_def truthy_def)
  moreover have "contract_key ?m (sample_contract\<lparr>mc_date_completed := None\<rparr>) = contract_key sample_member sample_contract"
    by (simp add: contract_key_def sample_member_def sample_contract_def)
  ultimately obtain c where c: "candidates_of 1 ?ts ?m = [c]" "cd_occurred_at c = None"
    "pc_source_key (cd_row c) = contract_key sample_member sample_contract"
    by (simp add: candidates_of_def wallet_candidates_def contract_candidates_def seen_contract_ids_def
        List.map_filter_simps candidate_row_def)
      (simp add: sample_contract_def)
  have "\<not> list_ex (\<lambda>p. pc_source_key p = pc_source_key (cd_row c)) (rows (payments sample_db))"
    using sample_new_keys(1) by (auto simp: c(3) has_key_def list_ex_iff image_iff)
  then have "import_candidate c (0, sample_db) = Inl (IntegrityError ''occurred_at'')"
    by (simp add: import_candidate_def c(2))
  moreover have "?ts \<noteq> []"
    by (simp add: sample_targets)
  ultimately obtain e where run: "import_payment_candidates 1 [?m] sample_db = Inl e"
    using c(1) by (simp add: import_payment_candidates_def Let_def)
  show ?thesis
    using import_error_only_undated_contract [OF run] run by blast
qed

section \<open>One audit\<close>

definition sample_sources :: audit_sources where
  "sample_sources = \<lparr>as_extractions = [sample_extraction], as_ledger = [sample_record],
     as_members = [sample_member], as_market = sample_market,
     as_state_digest = (\<lambda>_. ''hash''), as_payload_digest = (\<lambda>t m. t @ m)\<rparr>"

definition sample_audit :: audit_run where
  "sample_audit = \<lparr>ar_pk = 61, ar_trigger = TriggerManual, ar_status = AuditQueued,
     ar_requested_by = Some 2, ar_queued_at = 450, ar_started_at = None, ar_finished_at = None,
     ar_refresh_requested_at = None, ar_summary = [], ar_warnings = [], ar_error = ''''\<rparr>"

lemma dated_import:
  assumes "\<And>c m. m \<in> set ms \<Longrightarrow> c \<in> set (mb_contracts m) \<Longrightarrow> mc_date_completed c \<noteq> None"
  obtains n d' where "import_payment_candidates run ms d = Inr (n, d')"
proof (cases "import_payment_candidates run ms d")
  case (Inl e)
  let ?ts = "payment_targets d"
  have "import_all (concat (map (candidates_of run ?ts) ms)) (0, d) = Inl e"
    using Inl by (simp add: import_payment_candidates_def Let_def split: if_splits)
  then obtain m c where "m \<in> set ms" and "c \<in> set (candidates_of run ?ts m)" "cd_occurred_at c = None"
    using import_all_error by fastforce
  then have False
    by (auto simp: candidates_of_def wallet_candidates_def contract_candidates_def candidate_row_def
        map_filter_set finished_contracts_def split: option.splits dest: assms)
  then show thesis ..
next
  case (Inr r)
  then show thesis
    using that by (cases r) simp
qed

lemma reconcile_succeeds:
  assumes "\<And>c m. m \<in> set (as_members src) \<Longrightarrow> c \<in> set (mb_contracts m) \<Longrightarrow> mc_date_completed c \<noteq> None"
  obtains d' where "reconcile src audit d = Inr d'"
proof -
  have "import_payment_candidates run (as_members src) d4 \<noteq> Inl e" for run d4 e
    by (rule dated_import [of "as_members src" run d4]) (auto dest: assms)
  then have "reconcile_books src run d0 \<noteq> Inl e" for run d0 e
    by (auto simp: reconcile_books_def Let_def case_prod_beta split: sum.splits)
  then have "reconcile src audit d \<noteq> Inl e" for e
    by (auto simp: reconcile_def Let_def case_prod_beta split: sum.splits)
  then show thesis
    using that by (cases "reconcile src audit d") auto
qed

theorem audit_keeps_books_witness:
  "\<exists>d'. reconcile sample_sources sample_audit mined_db = Inr d' \<and> sound d'"
proof -
  obtain d' where run: "reconcile sample_sources sample_audit mined_db = Inr d'"
    by (rule reconcile_succeeds) (auto simp: sample_sources_def sample_member_def sample_contract_def)
  have "member_cents m" if "m \<in> set (as_members sample_sources)" for m
    using that sample_member_cents by (simp add: sample_sources_def)
  from audit_keeps_books [OF mined_sound run this] run show ?thesis by blast
qed

end
