(* ===== verification/PyValue.thy ===== *)
theory PyValue
  imports Prelude
begin

text \<open>
  The Python values a JSON document or a mapping of evidence is made of, the type
  tests the code performs on them, exceptions as values, and the text operations on
  retained output. Characters are the code points below 256; every code point above
  127 behaves as any other non-ASCII one.
\<close>

section \<open>Values\<close>

text \<open>A dictionary is the list of its items; no key occurs twice.\<close>

datatype pyval =
  PNone
| PBool bool
| PInt int
| PFloat rat
| PStr string
| PList "pyval list"
| PDict "(string \<times> pyval) list"

fun is_str :: "pyval \<Rightarrow> bool" where
  "is_str (PStr s) = True"
| "is_str v = False"

text \<open>\<open>type(v) is int\<close>: a bool is not one.\<close>

fun is_int :: "pyval \<Rightarrow> bool" where
  "is_int (PInt i) = True"
| "is_int v = False"

fun is_list :: "pyval \<Rightarrow> bool" where
  "is_list (PList vs) = True"
| "is_list v = False"

fun is_dict :: "pyval \<Rightarrow> bool" where
  "is_dict (PDict kvs) = True"
| "is_dict v = False"

fun the_str :: "pyval \<Rightarrow> string" where
  "the_str (PStr s) = s"
| "the_str v = ''''"

fun the_int :: "pyval \<Rightarrow> int" where
  "the_int (PInt i) = i"
| "the_int v = 0"

fun the_list :: "pyval \<Rightarrow> pyval list" where
  "the_list (PList vs) = vs"
| "the_list v = []"

fun the_dict :: "pyval \<Rightarrow> (string \<times> pyval) list" where
  "the_dict (PDict kvs) = kvs"
| "the_dict v = []"

text \<open>Lists and dictionaries cannot be members of a set.\<close>

definition hashable :: "pyval \<Rightarrow> bool" where
  "hashable v \<longleftrightarrow> \<not> is_list v \<and> \<not> is_dict v"

text \<open>\<open>d.get(k)\<close> and \<open>d[k] = v\<close>.\<close>

definition get_key :: "(string \<times> pyval) list \<Rightarrow> string \<Rightarrow> pyval" where
  "get_key kvs k = (case map_of kvs k of None \<Rightarrow> PNone | Some v \<Rightarrow> v)"

fun set_key :: "string \<Rightarrow> pyval \<Rightarrow> (string \<times> pyval) list \<Rightarrow> (string \<times> pyval) list" where
  "set_key k v [] = [(k, v)]"
| "set_key k v ((k', v') # kvs) = (if k' = k then (k, v) # kvs else (k', v') # set_key k v kvs)"

lemma map_of_set_key: "map_of (set_key k v kvs) = (map_of kvs)(k \<mapsto> v)"
  by (induction kvs rule: set_key.induct) (auto simp: fun_upd_twist)

lemma get_set_key [simp]: "get_key (set_key k v kvs) k' = (if k' = k then v else get_key kvs k')"
  by (simp add: get_key_def map_of_set_key)

lemma keys_set_key: "set (map fst (set_key k v kvs)) = insert k (set (map fst kvs))"
  by (induction kvs rule: set_key.induct) auto

section \<open>Exceptions\<close>

text \<open>The class name of an exception, its text, and whether it is a \<open>DeploymentError\<close>.\<close>

record exn =
  ex_class :: string
  ex_text :: string
  ex_deployment :: bool

definition deployment_error :: "string \<Rightarrow> exn" where
  "deployment_error message = \<lparr>ex_class = ''DeploymentError'', ex_text = message, ex_deployment = True\<rparr>"

definition type_error :: "string \<Rightarrow> exn" where
  "type_error message = \<lparr>ex_class = ''TypeError'', ex_text = message, ex_deployment = False\<rparr>"

lemma error_fields [simp]:
  "ex_deployment (deployment_error m)" "ex_text (deployment_error m) = m"
  "ex_class (deployment_error m) = ''DeploymentError''"
  by (simp_all add: deployment_error_def)

section \<open>Text\<close>

definition code :: "char \<Rightarrow> nat" where
  "code c = of_char c"

definition is_ascii :: "char \<Rightarrow> bool" where
  "is_ascii c \<longleftrightarrow> code c < 128"

definition printable :: "char \<Rightarrow> bool" where
  "printable c \<longleftrightarrow> 32 \<le> code c \<and> code c \<le> 126"

definition hex_digit :: "char \<Rightarrow> bool" where
  "hex_digit c \<longleftrightarrow> (48 \<le> code c \<and> code c \<le> 57) \<or> (97 \<le> code c \<and> code c \<le> 102)"

text \<open>\<open>[0-9a-f]{64}\<close> and \<open>[\x20-\x7e]{1,n}\<close> as full matches.\<close>

definition sha256_text :: "string \<Rightarrow> bool" where
  "sha256_text s \<longleftrightarrow> length s = 64 \<and> list_all hex_digit s"

definition printable_text :: "nat \<Rightarrow> string \<Rightarrow> bool" where
  "printable_text n s \<longleftrightarrow> 1 \<le> length s \<and> length s \<le> n \<and> list_all printable s"

text \<open>\<open>str.strip()\<close>, \<open>replace\<close> of line ends, and \<open>encode("ascii", errors="replace")\<close>.\<close>

definition text_space :: "char \<Rightarrow> bool" where
  "text_space c \<longleftrightarrow> is_space c \<or> code c = 133 \<or> code c = 160"

definition strip_text :: "string \<Rightarrow> string" where
  "strip_text s = rev (dropWhile text_space (rev (dropWhile text_space s)))"

definition LF :: char where "LF = char_of (10 :: nat)"

definition CR :: char where "CR = char_of (13 :: nat)"

fun crlf_to_lf :: "string \<Rightarrow> string" where
  "crlf_to_lf (c # d # cs) = (if c = CR \<and> d = LF then LF # crlf_to_lf cs else c # crlf_to_lf (d # cs))"
| "crlf_to_lf cs = cs"

definition unix_lines :: "string \<Rightarrow> string" where
  "unix_lines s = map (\<lambda>c. if c = CR then LF else c) (crlf_to_lf s)"

definition to_ascii :: "string \<Rightarrow> string" where
  "to_ascii s = map (\<lambda>c. if is_ascii c then c else CHR ''?'') s"

text \<open>\<open>str.splitlines()\<close>: a line end closes a line, and the text after the last one is a line
  unless it is empty.\<close>

definition line_end :: "char \<Rightarrow> bool" where
  "line_end c \<longleftrightarrow> code c \<in> set [10, 11, 12, 13, 28, 29, 30, 133]"

fun splitlines_from :: "string \<Rightarrow> string \<Rightarrow> string list" where
  "splitlines_from acc [] = (if acc = [] then [] else [rev acc])"
| "splitlines_from acc (c # cs) =
     (if c = CR \<and> cs \<noteq> [] \<and> hd cs = LF then rev acc # splitlines_from [] (drop 1 cs)
      else if line_end c then rev acc # splitlines_from [] cs
      else splitlines_from (c # acc) cs)"

definition splitlines :: "string \<Rightarrow> string list" where
  "splitlines s = splitlines_from [] s"

fun join :: "string \<Rightarrow> string list \<Rightarrow> string" where
  "join sep [] = ''''"
| "join sep [x] = x"
| "join sep (x # y # ys) = x @ sep @ join sep (y # ys)"

text \<open>The last \<open>n\<close> elements, \<open>xs[-n:]\<close>.\<close>

definition last_n :: "nat \<Rightarrow> 'a list \<Rightarrow> 'a list" where
  "last_n n xs = drop (length xs - n) xs"

lemma length_last_n [simp]: "length (last_n n xs) = min n (length xs)"
  by (auto simp: last_n_def)

lemma set_last_n: "set (last_n n xs) \<subseteq> set xs"
  by (auto simp: last_n_def dest: in_set_dropD)

lemma to_ascii_ascii: "list_all is_ascii (to_ascii s)"
  by (auto simp: to_ascii_def list_all_iff is_ascii_def code_def)

lemma splitlines_from_chars: "\<Union> (set ` set (splitlines_from acc s)) \<subseteq> set acc \<union> set s"
proof (induction acc s rule: splitlines_from.induct)
  case (2 acc c cs)
  have "set (drop 1 cs) \<subseteq> set cs"
    by (auto dest: in_set_dropD)
  with 2 show ?case by (simp split: if_splits) blast
qed simp

lemma splitlines_chars: "line \<in> set (splitlines s) \<Longrightarrow> set line \<subseteq> set s"
  using splitlines_from_chars [of "[]" s] by (auto simp: splitlines_def)

lemma set_join: "set (join sep xs) \<subseteq> set sep \<union> \<Union> (set ` set xs)"
  by (induction sep xs rule: join.induct) auto

section \<open>Redaction\<close>

text \<open>
  \<open>redact_sensitive_text\<close> of \<open>contracts.py\<close>: every compiled pattern replaced in turn,
  until nothing changes or eight rounds are done. The patterns are a parameter.
\<close>

definition redact_round :: "(string \<Rightarrow> string) list \<Rightarrow> string \<Rightarrow> string" where
  "redact_round patterns text = fold (\<lambda>sub t. sub t) patterns text"

fun redact_rounds :: "nat \<Rightarrow> (string \<Rightarrow> string) list \<Rightarrow> string \<Rightarrow> string" where
  "redact_rounds 0 patterns t = t"
| "redact_rounds (Suc n) patterns t =
     (let updated = redact_round patterns t
      in if updated = t then updated else redact_rounds n patterns updated)"

definition redact_sensitive_text :: "(string \<Rightarrow> string) list \<Rightarrow> string \<Rightarrow> string" where
  "redact_sensitive_text patterns t = redact_rounds 8 patterns t"

lemma redact_rounds_fixed:
  "redact_round patterns (redact_rounds n patterns t) = redact_rounds n patterns t
   \<or> redact_rounds n patterns t = (redact_round patterns ^^ n) t"
proof (induction n arbitrary: t)
  case (Suc n)
  show ?case
  proof (cases "redact_round patterns t = t")
    case True
    then show ?thesis by (simp add: Let_def)
  next
    case False
    then show ?thesis
      using Suc [of "redact_round patterns t"] by (simp add: Let_def funpow_swap1)
  qed
qed simp

end
