(* ===== verification/Effects.thy ===== *)
theory Effects
  imports PyValue
begin

text \<open>
  Statements that read and change a state and may raise: the value or the exception,
  and the state either way, since an exception does not undo what was done before it.
\<close>

type_synonym ('s, 'a) act = "'s \<Rightarrow> (exn + 'a) \<times> 's"

definition give :: "'a \<Rightarrow> ('s, 'a) act" where
  "give x = (\<lambda>s. (Inr x, s))"

definition throw :: "exn \<Rightarrow> ('s, 'a) act" where
  "throw e = (\<lambda>s. (Inl e, s))"

definition seq :: "('s, 'a) act \<Rightarrow> ('a \<Rightarrow> ('s, 'b) act) \<Rightarrow> ('s, 'b) act" where
  "seq f g = (\<lambda>s. case f s of (Inl e, s') \<Rightarrow> (Inl e, s') | (Inr x, s') \<Rightarrow> g x s')"

text \<open>\<open>try: f except BaseException as e: h(e)\<close>.\<close>

definition catch :: "('s, 'a) act \<Rightarrow> (exn \<Rightarrow> ('s, 'a) act) \<Rightarrow> ('s, 'a) act" where
  "catch f h = (\<lambda>s. case f s of (Inl e, s') \<Rightarrow> h e s' | (Inr x, s') \<Rightarrow> (Inr x, s'))"

text \<open>\<open>try: f finally: g\<close>: what \<open>g\<close> raises replaces what \<open>f\<close> raised.\<close>

definition finally_do :: "('s, 'a) act \<Rightarrow> ('s, unit) act \<Rightarrow> ('s, 'a) act" where
  "finally_do f g = (\<lambda>s. case f s of
      (Inl e, s') \<Rightarrow> (case g s' of (Inl e', s'') \<Rightarrow> (Inl e', s'') | (Inr _, s'') \<Rightarrow> (Inl e, s''))
    | (Inr x, s') \<Rightarrow> (case g s' of (Inl e', s'') \<Rightarrow> (Inl e', s'') | (Inr _, s'') \<Rightarrow> (Inr x, s'')))"

definition change :: "('s \<Rightarrow> 's) \<Rightarrow> ('s, unit) act" where
  "change f = (\<lambda>s. (Inr (), f s))"

lemma give_simp [simp]: "give x s = (Inr x, s)"
  by (simp add: give_def)

lemma throw_simp [simp]: "throw e s = (Inl e, s)"
  by (simp add: throw_def)

lemma change_simp [simp]: "change f s = (Inr (), f s)"
  by (simp add: change_def)

lemma seq_give [simp]: "seq (give x) g = g x"
  by (simp add: seq_def fun_eq_iff)

lemma seq_throw [simp]: "seq (throw e) g = throw e"
  by (simp add: seq_def fun_eq_iff)

lemma seq_assoc: "seq (seq f g) h = seq f (\<lambda>x. seq (g x) h)"
  by (auto simp: seq_def fun_eq_iff split: prod.splits sum.splits)

lemma seq_InrE:
  assumes "seq f g s = (Inr y, s'')"
  obtains x s' where "f s = (Inr x, s')" and "g x s' = (Inr y, s'')"
  using assms by (auto simp: seq_def split: prod.splits sum.splits)

lemma seq_cases:
  assumes "seq f g s = (r, s'')"
  obtains (first) e where "f s = (Inl e, s'')" and "r = Inl e"
  | (both) x s' where "f s = (Inr x, s')" and "g x s' = (r, s'')"
  using assms by (auto simp: seq_def split: prod.splits sum.splits)

lemma catch_cases:
  assumes "catch f h s = (r, s'')"
  obtains (quiet) x where "f s = (Inr x, s'')" and "r = Inr x"
  | (handled) e s' where "f s = (Inl e, s')" and "h e s' = (r, s'')"
  using assms by (auto simp: catch_def split: prod.splits sum.splits)

lemma finally_cases:
  assumes "finally_do f g s = (r, s'')"
  obtains (last_raises) r' s' e where "f s = (r', s')" and "g s' = (Inl e, s'')" and "r = Inl e"
  | (kept) s' where "f s = (r, s')" and "g s' = (Inr (), s'')"
  using assms by (auto simp: finally_do_def split: prod.splits sum.splits)

section \<open>What every statement preserves\<close>

text \<open>A relation of the states before and after that holds whether or not the statement raises.\<close>

definition moves :: "('s \<Rightarrow> 's \<Rightarrow> bool) \<Rightarrow> ('s, 'a) act \<Rightarrow> bool" where
  "moves R f \<longleftrightarrow> (\<forall>s. R s (snd (f s)))"

lemma movesD: "moves R f \<Longrightarrow> f s = (r, s') \<Longrightarrow> R s s'"
  by (auto simp: moves_def dest: spec [of _ s])

lemma movesI: "(\<And>s r s'. f s = (r, s') \<Longrightarrow> R s s') \<Longrightarrow> moves R f"
  by (simp add: moves_def) (metis prod.collapse)

lemma moves_give: "reflp R \<Longrightarrow> moves R (give x)"
  by (simp add: moves_def reflp_def)

lemma moves_throw: "reflp R \<Longrightarrow> moves R (throw e)"
  by (simp add: moves_def reflp_def)

lemma moves_seq:
  assumes "transp R" and "moves R f" and "\<And>x. moves R (g x)"
  shows "moves R (seq f g)"
proof (rule movesI)
  fix s r s''
  assume "seq f g s = (r, s'')"
  then show "R s s''"
    using assms by (cases rule: seq_cases) (auto dest: movesD transpD)
qed

lemma moves_catch:
  assumes "transp R" and "moves R f" and "\<And>e. moves R (h e)"
  shows "moves R (catch f h)"
proof (rule movesI)
  fix s r s''
  assume "catch f h s = (r, s'')"
  then show "R s s''"
    using assms by (cases rule: catch_cases) (auto dest: movesD transpD)
qed

lemma moves_finally:
  assumes "transp R" and "moves R f" and "moves R g"
  shows "moves R (finally_do f g)"
proof (rule movesI)
  fix s r s''
  assume "finally_do f g s = (r, s'')"
  then show "R s s''"
    using assms by (cases rule: finally_cases) (auto dest: movesD transpD)
qed

end
