(* ===== verification/MT_Tasks.thy ===== *)
theory MT_Tasks
  imports MT_AuditSamples Effects
begin

text \<open>
  The Celery tasks of Moon Tax (\<open>tasks.py\<close>) and the two other ways to start an audit,
  the dashboard's button and the management command: which audits exist, which are
  active, and what a failed audit leaves behind. A task that raises does not undo what
  it saved before; only \<open>reconcile\<close> is one transaction.
\<close>

section \<open>Audits and jobs\<close>

definition STALE_AUDIT_HOURS :: nat where
  "STALE_AUDIT_HOURS = 2"

definition MAX_REFRESH_CHARACTERS :: nat where
  "MAX_REFRESH_CHARACTERS = 5000"

definition SOURCE_SETTLE_SECONDS :: nat where
  "SOURCE_SETTLE_SECONDS = 180"

text \<open>The messages sent to the workers.\<close>

datatype job =
  Report_Updates | Wallet_Journal nat | Member_Contracts nat | Refresh_Sources nat
| Execute_Audit nat nat

text \<open>
  The database, the messages sent so far, the broker (whether it refuses a message,
  and the text of its error) and the characters of Member Audit with their
  \<open>is_disabled\<close>, in the order of their keys.
\<close>

record worker =
  wk_db :: mt_db
  wk_sent :: "job list"
  wk_broker :: "job \<Rightarrow> exn option"
  wk_characters :: "(nat \<times> bool) list"

type_synonym 'a task = "(worker, 'a) act"

definition is_active :: "audit_run \<Rightarrow> bool" where
  "is_active r \<longleftrightarrow> ar_status r = AuditQueued \<or> ar_status r = AuditRefreshing \<or> ar_status r = AuditRunning"

definition active_audits :: "mt_db \<Rightarrow> audit_run list" where
  "active_audits d = filter is_active (rows (audits d))"

text \<open>The first of a query set in the order of the model, newest first.\<close>

definition newest_queued :: "audit_run list \<Rightarrow> audit_run option" where
  "newest_queued rs = (case sort_key (\<lambda>r. - ar_queued_at r) rs of [] \<Rightarrow> None | r # _ \<Rightarrow> Some r)"

section \<open>The tasks\<close>

text \<open>\<open>task.delay(...)\<close>.\<close>

definition send :: "job \<Rightarrow> unit task" where
  "send j = (\<lambda>w. case wk_broker w j of
     Some e \<Rightarrow> (Inl e, w) | None \<Rightarrow> (Inr (), w\<lparr>wk_sent := wk_sent w @ [j]\<rparr>))"

fun send_all :: "job list \<Rightarrow> unit task" where
  "send_all [] = give ()"
| "send_all (j # js) = seq (send j) (\<lambda>_. send_all js)"

definition save_run :: "nat \<Rightarrow> (audit_run \<Rightarrow> audit_run) \<Rightarrow> unit task" where
  "save_run k f = change (\<lambda>w. w\<lparr>wk_db := save_audit k f (wk_db w)\<rparr>)"

definition stale :: "instant \<Rightarrow> audit_run \<Rightarrow> bool" where
  "stale now r \<longleftrightarrow> is_active r \<and> ar_queued_at r < now - hours STALE_AUDIT_HOURS"

definition expired :: "instant \<Rightarrow> audit_run \<Rightarrow> audit_run" where
  "expired now r = r\<lparr>ar_status := AuditFailed,
     ar_error := ''Audit exceeded the guarded runtime and was released automatically. Start a new audit; stored source and billing data were preserved.'',
     ar_finished_at := Some now\<rparr>"

definition expire_stale_audits :: "nat task" where
  "expire_stale_audits = (\<lambda>w.
     let d = wk_db w; t = audits d; now = wall d
     in (Inr (length (filter (stale now) (rows t))),
         w\<lparr>wk_db := d\<lparr>audits := t\<lparr>rows := map (\<lambda>r. if stale now r then expired now r else r) (rows t)\<rparr>\<rparr>\<rparr>))"

definition new_audit :: "audit_trigger \<Rightarrow> nat option \<Rightarrow> instant \<Rightarrow> nat \<Rightarrow> audit_run" where
  "new_audit trigger by now k =
     \<lparr>ar_pk = k, ar_trigger = trigger, ar_status = AuditQueued, ar_requested_by = by,
      ar_queued_at = now, ar_started_at = None, ar_finished_at = None,
      ar_refresh_requested_at = None, ar_summary = [], ar_warnings = [], ar_error = ''''\<rparr>"

definition create_audit :: "audit_trigger \<Rightarrow> nat option \<Rightarrow> nat task" where
  "create_audit trigger by = (\<lambda>w.
     let d = wk_db w
     in (Inr (next_pk (audits d)),
         w\<lparr>wk_db := d\<lparr>audits := create (new_audit trigger by (wall d)) (audits d)\<rparr>\<rparr>))"

definition run_scheduled_audit :: "nat task" where
  "run_scheduled_audit = seq expire_stale_audits (\<lambda>_ w.
     case newest_queued (active_audits (wk_db w)) of
       Some existing \<Rightarrow> (Inr (ar_pk existing), w)
     | None \<Rightarrow>
         let due_cutoff = wall (wk_db w) - hours (cf_audit_interval_hours (config (wk_db w)));
             recent = newest_queued (filter (\<lambda>r. ar_status r \<noteq> AuditFailed \<and> due_cutoff \<le> ar_queued_at r)
               (rows (audits (wk_db w))))
         in case recent of
              Some r \<Rightarrow> (Inr (ar_pk r), w)
            | None \<Rightarrow> seq (create_audit TriggerScheduled None) (\<lambda>k. seq (send (Refresh_Sources k)) (\<lambda>_. give k)) w)"

text \<open>\<open>AuditRun.objects.get(pk=...)\<close>, and \<open>str\<close> of the errors the services raise.\<close>

definition no_such_audit :: exn where
  "no_such_audit = \<lparr>ex_class = ''DoesNotExist'', ex_text = ''AuditRun matching query does not exist.'',
     ex_deployment = False\<rparr>"

definition get_audit :: "nat \<Rightarrow> audit_run task" where
  "get_audit k = (\<lambda>w. case lookup ar_pk k (audits (wk_db w)) of
     None \<Rightarrow> (Inl no_such_audit, w) | Some r \<Rightarrow> (Inr r, w))"

text \<open>What a refresh queues: the report, two updates for each character in order, the audit.\<close>

definition refresh_jobs :: "nat list \<Rightarrow> job list" where
  "refresh_jobs cs = concat (map (\<lambda>c. [Wallet_Journal c, Member_Contracts c]) cs)"

definition fail_audit :: "nat \<Rightarrow> string \<Rightarrow> unit task" where
  "fail_audit k text = (\<lambda>w. save_run k (\<lambda>r. r\<lparr>ar_status := AuditFailed, ar_error := text,
     ar_finished_at := Some (wall (wk_db w))\<rparr>) w)"

definition queue_refresh :: "nat \<Rightarrow> audit_run \<Rightarrow> (nat \<times> nat) task" where
  "queue_refresh k audit = seq (send Report_Updates) (\<lambda>_ w.
     let enabled = map fst (filter (\<lambda>(c, disabled). \<not> disabled) (wk_characters w));
         total = length enabled;
         chosen = take MAX_REFRESH_CHARACTERS enabled
     in seq (if length chosen < total
             then save_run k (\<lambda>r. r\<lparr>ar_warnings := ar_warnings audit @ [RefreshTruncated (length chosen) total]\<rparr>)
             else give ())
          (\<lambda>_. seq (send_all (refresh_jobs chosen))
            (\<lambda>_. seq (send (Execute_Audit k SOURCE_SETTLE_SECONDS)) (\<lambda>_. give (length chosen, total)))) w)"

definition refresh_sources :: "nat \<Rightarrow> (nat \<times> nat) task" where
  "refresh_sources k = seq (get_audit k) (\<lambda>audit w.
     seq (save_run k (\<lambda>r. r\<lparr>ar_status := AuditRefreshing,
              ar_started_at := or_now (ar_started_at audit) (wall (wk_db w)),
              ar_refresh_requested_at := Some (wall (wk_db w))\<rparr>))
       (\<lambda>_. catch (queue_refresh k audit)
          (\<lambda>e. seq (fail_audit k (''Could not queue source refreshes: '' @ ex_text e)) (\<lambda>_. throw e))) w)"

text \<open>\<open>reconcile\<close> as a statement: its error rolls its own transaction back.\<close>

definition reconcile_task :: "audit_sources \<Rightarrow> (mt_error \<Rightarrow> exn) \<Rightarrow> audit_run \<Rightarrow> unit task" where
  "reconcile_task src raised audit = (\<lambda>w. case reconcile src audit (wk_db w) of
     Inl e \<Rightarrow> (Inl (raised e), w) | Inr d \<Rightarrow> (Inr (), w\<lparr>wk_db := d\<rparr>))"

definition execute_audit :: "audit_sources \<Rightarrow> (mt_error \<Rightarrow> exn) \<Rightarrow> nat \<Rightarrow> unit task" where
  "execute_audit src raised k = seq (get_audit k) (\<lambda>audit.
     catch (reconcile_task src raised audit) (\<lambda>e. seq (fail_audit k (ex_text e)) (\<lambda>_. throw e)))"

section \<open>The button and the command\<close>

text \<open>
  The body of \<open>run_audit\<close> in \<open>views.py\<close> after its permission checks: the number of
  released audits and the one that is active already or was created.
\<close>

definition request_audit :: "nat \<Rightarrow> (nat \<times> nat) task" where
  "request_audit user = seq expire_stale_audits (\<lambda>released w.
     case newest_queued (active_audits (wk_db w)) of
       Some active \<Rightarrow> (Inr (released, ar_pk active), w)
     | None \<Rightarrow> seq (create_audit TriggerManual (Some user))
                 (\<lambda>k. seq (send (Refresh_Sources k)) (\<lambda>_. give (released, k))) w)"

definition audit_command :: "audit_sources \<Rightarrow> (mt_error \<Rightarrow> exn) \<Rightarrow> bool \<Rightarrow> nat task" where
  "audit_command src raised no_refresh = seq (create_audit TriggerManual None) (\<lambda>k.
     if no_refresh then seq (get_audit k) (\<lambda>audit. seq (reconcile_task src raised audit) (\<lambda>_. give k))
     else seq (send (Refresh_Sources k)) (\<lambda>_. give k))"

section \<open>Executing an audit\<close>

lemma rows_save_audit:
  "rows (audits (save_audit k f d)) = map (\<lambda>r. if ar_pk r = k then f r else r) (rows (audits d))"
  by (simp add: save_audit_def rows_update)

lemma save_audit_audits: "save_audit k f d = d\<lparr>audits := audits (save_audit k f d)\<rparr>"
  by (simp add: save_audit_def)

lemma fail_audit_simp: "fail_audit k text w = (Inr (), w\<lparr>wk_db := save_audit k (\<lambda>r. r\<lparr>ar_status := AuditFailed,
    ar_error := text, ar_finished_at := Some (wall (wk_db w))\<rparr>) (wk_db w)\<rparr>)"
  by (simp add: fail_audit_def save_run_def)

lemma execute_audit_cases:
  assumes "lookup ar_pk k (audits (wk_db w)) = Some audit"
  shows "execute_audit src raised k w =
    (case reconcile src audit (wk_db w) of
       Inl e \<Rightarrow> (Inl (raised e), w\<lparr>wk_db := save_audit k (\<lambda>r. r\<lparr>ar_status := AuditFailed,
         ar_error := ex_text (raised e), ar_finished_at := Some (wall (wk_db w))\<rparr>) (wk_db w)\<rparr>)
     | Inr d \<Rightarrow> (Inr (), w\<lparr>wk_db := d\<rparr>))"
  using assms
  by (simp add: execute_audit_def get_audit_def seq_def catch_def reconcile_task_def fail_audit_simp split: sum.split)

definition closed_run :: "audit_run \<Rightarrow> bool" where
  "closed_run r \<longleftrightarrow> \<not> is_active r \<and> ar_finished_at r \<noteq> None"

lemma reconcile_closes:
  assumes "reconcile src audit d = Inr d'" and "r \<in> set (rows (audits d'))" and "ar_pk r = ar_pk audit"
  shows "closed_run r" and "ar_status r = (if ar_warnings r = [] then AuditComplete else AuditWarning)"
proof -
  define start where "start = save_audit (ar_pk audit) (\<lambda>r. r\<lparr>ar_status := AuditRunning,
      ar_started_at := or_now (ar_started_at audit) (wall d)\<rparr>) d"
  obtain counts warns d1 where b: "reconcile_books src (ar_pk audit) start = Inr (counts, warns, d1)"
    using assms(1) by (auto simp: reconcile_def Let_def start_def split: sum.splits)
  obtain sent d2 where n: "dispatch_notifications (as_payload_digest src) (ar_pk audit) d1 = (sent, d2)"
    by fastforce
  define close where "close = (\<lambda>r :: audit_run. r\<lparr>ar_summary := audit_summary (counts @ [(''notifications'', sent),
      (''unlinked_miners'', unlinked_miners d2), (''pending_payments'', pending_payments d2)]),
      ar_warnings := ar_warnings audit @ warns, ar_finished_at := Some (wall d2),
      ar_status := (if ar_warnings audit @ warns = [] then AuditComplete else AuditWarning)\<rparr>)"
  have d': "d' = save_audit (ar_pk audit) close d2"
    using assms(1) by (simp add: reconcile_def Let_def start_def [symmetric] b n close_def)
  have "ar_pk (close q) = ar_pk q" for q
    by (simp add: close_def)
  then obtain q where "r = close q"
    using assms(2,3) unfolding d' rows_save_audit by (auto split: if_splits)
  then show "closed_run r" and "ar_status r = (if ar_warnings r = [] then AuditComplete else AuditWarning)"
    by (simp_all add: closed_run_def is_active_def close_def)
qed

text \<open>
  C38. An execution always closes its audit, whether the reconciliation succeeds or
  raises: the row is finished, a success is marked with warnings exactly when there
  are some, and after an error the row is failed and every other table is as before.
\<close>

theorem execution_closes_audit:
  assumes "lookup ar_pk k (audits (wk_db w)) = Some audit" and "execute_audit src raised k w = (r, w')"
  shows "(\<forall>row \<in> set (rows (audits (wk_db w'))). ar_pk row = k \<longrightarrow> closed_run row
      \<and> ar_status row = (case r of Inl _ \<Rightarrow> AuditFailed
           | Inr _ \<Rightarrow> if ar_warnings row = [] then AuditComplete else AuditWarning))
    \<and> (\<forall>e. r = Inl e \<longrightarrow> wk_db w' = (wk_db w)\<lparr>audits := audits (wk_db w')\<rparr>)"
proof (cases "reconcile src audit (wk_db w)")
  case (Inl e)
  define mark where "mark = (\<lambda>r :: audit_run. r\<lparr>ar_status := AuditFailed, ar_error := ex_text (raised e),
      ar_finished_at := Some (wall (wk_db w))\<rparr>)"
  have r: "r = Inl (raised e)" and w': "wk_db w' = save_audit k mark (wk_db w)"
    using assms Inl by (auto simp: execute_audit_cases mark_def)
  have "closed_run row \<and> ar_status row = AuditFailed"
    if row: "row \<in> set (rows (audits (wk_db w')))" "ar_pk row = k" for row
  proof -
    obtain q where "row = mark q"
      using row unfolding w' rows_save_audit by (auto split: if_splits)
    then show ?thesis
      by (simp add: mark_def closed_run_def is_active_def)
  qed
  moreover have "wk_db w' = (wk_db w)\<lparr>audits := audits (wk_db w')\<rparr>"
    unfolding w' by (rule save_audit_audits)
  ultimately show ?thesis
    by (simp add: r)
next
  case (Inr d)
  then have "r = Inr ()" and w': "wk_db w' = d"
    using assms by (auto simp: execute_audit_cases)
  moreover have "ar_pk audit = k"
    using assms(1) by (simp add: lookup_SomeD)
  ultimately show ?thesis
    using reconcile_closes [OF Inr] by auto
qed

section \<open>Starting an audit\<close>

lemma expire_simp: "expire_stale_audits w =
    (Inr (length (filter (stale (wall (wk_db w))) (rows (audits (wk_db w))))),
     w\<lparr>wk_db := (wk_db w)\<lparr>audits := (audits (wk_db w))\<lparr>rows :=
        map (\<lambda>r. if stale (wall (wk_db w)) r then expired (wall (wk_db w)) r else r) (rows (audits (wk_db w)))\<rparr>\<rparr>\<rparr>)"
  by (simp add: expire_stale_audits_def Let_def)

lemma expire_outcome:
  assumes "expire_stale_audits w = (r, w1)"
  shows "length (active_audits (wk_db w1)) \<le> length (active_audits (wk_db w))"
    and "\<And>a. a \<in> set (active_audits (wk_db w1)) \<Longrightarrow> \<not> stale (wall (wk_db w1)) a"
    and "wall (wk_db w1) = wall (wk_db w)" and "wk_broker w1 = wk_broker w" and "wk_sent w1 = wk_sent w"
proof -
  let ?now = "wall (wk_db w)" and ?rs = "rows (audits (wk_db w))"
  have w1: "w1 = w\<lparr>wk_db := (wk_db w)\<lparr>audits := (audits (wk_db w))\<lparr>rows :=
        map (\<lambda>r. if stale ?now r then expired ?now r else r) ?rs\<rparr>\<rparr>\<rparr>"
    using assms by (simp add: expire_simp)
  have inactive: "\<not> is_active (expired now r)" for now r
    by (simp add: is_active_def expired_def)
  have "filter is_active (map (\<lambda>r. if stale ?now r then expired ?now r else r) rs)
      = filter (\<lambda>r. is_active r \<and> \<not> stale ?now r) rs" for rs
    by (induction rs) (auto simp: inactive)
  then have act: "active_audits (wk_db w1) = filter (\<lambda>r. is_active r \<and> \<not> stale ?now r) ?rs"
    by (simp add: w1 active_audits_def)
  have "length (filter (\<lambda>r. is_active r \<and> \<not> stale ?now r) rs) \<le> length (filter is_active rs)" for rs
    by (induction rs) auto
  then show "length (active_audits (wk_db w1)) \<le> length (active_audits (wk_db w))"
    by (simp only: act) (simp add: active_audits_def)
  show "\<And>a. a \<in> set (active_audits (wk_db w1)) \<Longrightarrow> \<not> stale (wall (wk_db w1)) a"
    unfolding act by (simp add: w1)
  show "wall (wk_db w1) = wall (wk_db w)" "wk_broker w1 = wk_broker w" "wk_sent w1 = wk_sent w"
    by (simp_all add: w1)
qed

lemma newest_queued_None: "newest_queued rs = None \<longleftrightarrow> rs = []"
  by (cases "sort_key (\<lambda>r. - ar_queued_at r) rs")
    (auto simp: newest_queued_def dest: arg_cong [where f = length])

lemma newest_queued_in: "newest_queued rs = Some r \<Longrightarrow> r \<in> set rs"
  by (cases "sort_key (\<lambda>r. - ar_queued_at r) rs")
    (auto simp: newest_queued_def dest: arg_cong [where f = set])

text \<open>Creating an audit and sending its first message.\<close>

definition start_audit :: "audit_trigger \<Rightarrow> nat option \<Rightarrow> (nat \<Rightarrow> 'a) \<Rightarrow> 'a task" where
  "start_audit trigger by f = seq (create_audit trigger by) (\<lambda>k. seq (send (Refresh_Sources k)) (\<lambda>_. give (f k)))"

lemma start_audit_active:
  assumes "start_audit trigger by f w = (r, w')" and "active_audits (wk_db w) = []"
  shows "active_audits (wk_db w') = [new_audit trigger by (wall (wk_db w)) (next_pk (audits (wk_db w)))]"
    and "wall (wk_db w') = wall (wk_db w)"
proof -
  let ?w = "w\<lparr>wk_db := (wk_db w)\<lparr>audits := create (new_audit trigger by (wall (wk_db w))) (audits (wk_db w))\<rparr>\<rparr>"
  have "wk_db w' = wk_db ?w"
    using assms(1)
    by (auto simp: start_audit_def create_audit_def send_def seq_def Let_def split: option.splits)
  then show "active_audits (wk_db w') = [new_audit trigger by (wall (wk_db w)) (next_pk (audits (wk_db w)))]"
    and "wall (wk_db w') = wall (wk_db w)"
    using assms(2) by (simp_all add: active_audits_def rows_create is_active_def new_audit_def)
qed

lemma scheduled_unfold: "run_scheduled_audit w = (case expire_stale_audits w of (r, w1) \<Rightarrow>
     (case newest_queued (active_audits (wk_db w1)) of
       Some existing \<Rightarrow> (Inr (ar_pk existing), w1)
     | None \<Rightarrow>
        (case newest_queued (filter (\<lambda>r. ar_status r \<noteq> AuditFailed
             \<and> wall (wk_db w1) - hours (cf_audit_interval_hours (config (wk_db w1))) \<le> ar_queued_at r)
             (rows (audits (wk_db w1)))) of
           Some r \<Rightarrow> (Inr (ar_pk r), w1)
         | None \<Rightarrow> start_audit TriggerScheduled None id w1)))"
  by (simp add: run_scheduled_audit_def seq_def [of expire_stale_audits] expire_simp start_audit_def Let_def split: option.split)

lemma request_unfold: "request_audit user w = (case expire_stale_audits w of (r, w1) \<Rightarrow>
     (case newest_queued (active_audits (wk_db w1)) of
       Some active \<Rightarrow> (Inr (length (filter (stale (wall (wk_db w))) (rows (audits (wk_db w)))), ar_pk active), w1)
     | None \<Rightarrow> start_audit TriggerManual (Some user)
         (Pair (length (filter (stale (wall (wk_db w))) (rows (audits (wk_db w)))))) w1))"
  by (simp add: request_audit_def seq_def [of expire_stale_audits] expire_simp start_audit_def Let_def split: option.split)

definition fresh_active :: "worker \<Rightarrow> worker \<Rightarrow> bool" where
  "fresh_active w w' \<longleftrightarrow> length (active_audits (wk_db w')) \<le> max 1 (length (active_audits (wk_db w)))
     \<and> (\<forall>a \<in> set (active_audits (wk_db w')). \<not> stale (wall (wk_db w')) a)"

lemma started_fresh:
  assumes "start_audit trigger by f w1 = (r, w')" and "newest_queued (active_audits (wk_db w1)) = None"
  shows "fresh_active w w'"
proof -
  have none: "active_audits (wk_db w1) = []"
    using assms(2) by (simp add: newest_queued_None)
  show ?thesis
    using start_audit_active [OF assms(1) none]
    by (simp add: fresh_active_def stale_def new_audit_def hours_def)
qed

lemma expired_fresh: "expire_stale_audits w = (r, w1) \<Longrightarrow> fresh_active w w1"
  using expire_outcome(1) [of w r w1] expire_outcome(2) [of w r w1] by (auto simp: fresh_active_def max_def)

text \<open>
  C39. Neither the schedule nor the button starts an audit beside an active one: each
  leaves at most one active audit, or as many as there were, and none that has been
  active for longer than the guarded runtime.
\<close>

theorem starting_keeps_one_active:
  "(run_scheduled_audit w = (r, w') \<longrightarrow> fresh_active w w') \<and> (request_audit user w = (q, w'') \<longrightarrow> fresh_active w w'')"
proof (intro conjI impI)
  obtain n w1 where e: "expire_stale_audits w = (n, w1)"
    by fastforce
  show "fresh_active w w'" if "run_scheduled_audit w = (r, w')"
    using that e expired_fresh [OF e] started_fresh [of TriggerScheduled None id w1 r w' w]
    by (auto simp: scheduled_unfold split: option.splits)
  show "fresh_active w w''" if "request_audit user w = (q, w'')"
    using that e expired_fresh [OF e] started_fresh [of TriggerManual "Some user" _ w1 q w'' w]
    by (auto simp: request_unfold split: option.splits)
qed

section \<open>An expired audit comes back\<close>

lemma send_all_accepts:
  assumes "\<And>j. wk_broker w j = None"
  shows "send_all js w = (Inr (), w\<lparr>wk_sent := wk_sent w @ js\<rparr>)"
  using assms
proof (induction js arbitrary: w)
  case (Cons j js)
  then show ?case
    by (simp add: seq_def send_def)
qed simp

definition refreshed :: "nat \<Rightarrow> audit_run \<Rightarrow> worker \<Rightarrow> bool" where
  "refreshed k audit w' \<longleftrightarrow> (\<exists>r. lookup ar_pk k (audits (wk_db w')) = Some r \<and> ar_status r = AuditRefreshing
     \<and> ar_error r = ar_error audit) \<and> (\<exists>delay. Execute_Audit k delay \<in> set (wk_sent w'))"

lemma lookup_save_audit:
  "(\<And>r. ar_pk (f r) = ar_pk r) \<Longrightarrow> lookup ar_pk k' (audits (save_audit k f d)) =
     (if k' = k then map_option f (lookup ar_pk k (audits d)) else lookup ar_pk k' (audits d))"
  by (simp add: save_audit_def lookup_update)

lemma queue_refresh_accepts:
  assumes "\<And>j. wk_broker w j = None" and "lookup ar_pk k (audits (wk_db w)) = Some r"
  shows "\<exists>n w'. queue_refresh k audit w = (Inr n, w')
    \<and> (\<exists>r'. lookup ar_pk k (audits (wk_db w')) = Some r' \<and> ar_status r' = ar_status r \<and> ar_error r' = ar_error r)
    \<and> (\<forall>k'. k' \<noteq> k \<longrightarrow> lookup ar_pk k' (audits (wk_db w')) = lookup ar_pk k' (audits (wk_db w)))
    \<and> Execute_Audit k SOURCE_SETTLE_SECONDS \<in> set (wk_sent w')"
  using assms
  by (simp add: queue_refresh_def seq_def [of "send Report_Updates"] send_def [of Report_Updates] Let_def)
    (simp add: seq_def send_def send_all_accepts save_run_def lookup_save_audit)

text \<open>
  A refresh that was queued before its audit was released as stale revives it: the
  failed audit is refreshing again, keeps the text of its release, and its execution is
  queued, whatever other audit was started in its place and is active now.
\<close>

theorem released_audit_revives:
  assumes "\<And>j. wk_broker w j = None"
    and "lookup ar_pk k (audits (wk_db w)) = Some audit" and "ar_status audit = AuditFailed"
    and "lookup ar_pk k' (audits (wk_db w)) = Some other" and "is_active other"
  shows "\<exists>n w'. refresh_sources k w = (Inr n, w') \<and> refreshed k audit w'
    \<and> {k, k'} \<subseteq> ar_pk ` set (active_audits (wk_db w')) \<and> k \<noteq> k'"
proof -
  define mark where "mark = (\<lambda>r :: audit_run. r\<lparr>ar_status := AuditRefreshing,
      ar_started_at := or_now (ar_started_at audit) (wall (wk_db w)), ar_refresh_requested_at := Some (wall (wk_db w))\<rparr>)"
  let ?w = "w\<lparr>wk_db := save_audit k mark (wk_db w)\<rparr>"
  have pk: "ar_pk (mark r) = ar_pk r" for r
    by (simp add: mark_def)
  have neq: "k \<noteq> k'"
    using assms(2-5) by (auto simp: is_active_def)
  have at: "lookup ar_pk k (audits (wk_db ?w)) = Some (mark audit)"
    "lookup ar_pk k' (audits (wk_db ?w)) = Some other"
    using assms(2,4) neq by (simp_all add: lookup_save_audit pk)
  obtain n w' where q: "queue_refresh k audit ?w = (Inr n, w')"
    "\<exists>r'. lookup ar_pk k (audits (wk_db w')) = Some r' \<and> ar_status r' = ar_status (mark audit) \<and> ar_error r' = ar_error (mark audit)"
    "lookup ar_pk k' (audits (wk_db w')) = lookup ar_pk k' (audits (wk_db ?w))"
    "Execute_Audit k SOURCE_SETTLE_SECONDS \<in> set (wk_sent w')"
  proof -
    have "wk_broker ?w j = None" for j
      using assms(1) by simp
    from queue_refresh_accepts [OF this at(1), of audit] obtain n w'
      where a: "queue_refresh k audit ?w = (Inr n, w')"
        and b: "\<exists>r'. lookup ar_pk k (audits (wk_db w')) = Some r' \<and> ar_status r' = ar_status (mark audit)
          \<and> ar_error r' = ar_error (mark audit)"
        and c: "\<forall>k'. k' \<noteq> k \<longrightarrow> lookup ar_pk k' (audits (wk_db w')) = lookup ar_pk k' (audits (wk_db ?w))"
        and e: "Execute_Audit k SOURCE_SETTLE_SECONDS \<in> set (wk_sent w')"
      by blast
    show thesis
      by (rule that [OF a b c [rule_format, OF neq [symmetric]] e])
  qed
  obtain r' where r': "lookup ar_pk k (audits (wk_db w')) = Some r'" "ar_status r' = AuditRefreshing" "ar_error r' = ar_error audit"
    using q(2) by (auto simp: mark_def)
  have "refresh_sources k w = (Inr n, w')"
    using q(1) assms(2)
    by (simp add: refresh_sources_def get_audit_def seq_def save_run_def catch_def mark_def [symmetric])
  moreover have "refreshed k audit w'"
    using r' q(4) by (auto simp: refreshed_def)
  moreover have "is_active r'" and "r' \<in> set (rows (audits (wk_db w')))" and "ar_pk r' = k"
    using r' by (auto simp: is_active_def dest: lookup_SomeD)
  moreover have "other \<in> set (rows (audits (wk_db w')))" and "ar_pk other = k'"
    using q(3) at(2) by (auto dest: lookup_SomeD)
  ultimately show ?thesis
    using neq assms(5) by (auto simp: active_audits_def)
qed

section \<open>Witnesses\<close>

definition worker_audit :: "nat \<Rightarrow> audit_status \<Rightarrow> instant \<Rightarrow> audit_run" where
  "worker_audit k status queued = sample_audit\<lparr>ar_pk := k, ar_status := status, ar_queued_at := queued\<rparr>"

definition sample_worker :: "audit_run list \<Rightarrow> worker" where
  "sample_worker rs = \<lparr>wk_db = mined_db\<lparr>audits := \<lparr>rows = rs, next_pk = 70\<rparr>\<rparr>, wk_sent = [],
     wk_broker = (\<lambda>_. None), wk_characters = [(90, False), (91, True)]\<rparr>"

lemma execution_closes_audit_witness:
  "\<exists>w'. execute_audit sample_sources (\<lambda>_. no_such_audit) 61 (sample_worker [worker_audit 61 AuditRefreshing 450]) = (Inr (), w')
    \<and> (\<forall>row \<in> set (rows (audits (wk_db w'))). ar_pk row = 61 \<longrightarrow> closed_run row)"
proof -
  let ?w = "sample_worker [worker_audit 61 AuditRefreshing 450]"
  have l: "lookup ar_pk 61 (audits (wk_db ?w)) = Some (worker_audit 61 AuditRefreshing 450)"
    by (simp add: sample_worker_def lookup_def worker_audit_def)
  obtain d' where "reconcile sample_sources (worker_audit 61 AuditRefreshing 450) (wk_db ?w) = Inr d'"
    by (rule reconcile_succeeds) (auto simp: sample_sources_def sample_member_def sample_contract_def)
  then have run: "execute_audit sample_sources (\<lambda>_. no_such_audit) 61 ?w = (Inr (), ?w\<lparr>wk_db := d'\<rparr>)"
    using execute_audit_cases [OF l] by simp
  from execution_closes_audit [OF l run] run show ?thesis by blast
qed

lemma starting_keeps_one_active_witness:
  "\<exists>r w'. run_scheduled_audit (sample_worker [worker_audit 61 AuditRunning (- 9000)]) = (r, w')
    \<and> fresh_active (sample_worker [worker_audit 61 AuditRunning (- 9000)]) w'"
proof -
  obtain r w' where "run_scheduled_audit (sample_worker [worker_audit 61 AuditRunning (- 9000)]) = (r, w')"
    by fastforce
  then show ?thesis
    using starting_keeps_one_active by blast
qed

lemma released_audit_revives_witness:
  "\<exists>n w'. refresh_sources 61 (sample_worker [worker_audit 61 AuditFailed (- 9000), worker_audit 62 AuditRunning 450]) = (Inr n, w')
    \<and> {61, 62} \<subseteq> ar_pk ` set (active_audits (wk_db w'))"
proof -
  let ?w = "sample_worker [worker_audit 61 AuditFailed (- 9000), worker_audit 62 AuditRunning 450]"
  have "wk_broker ?w j = None" for j
    by (simp add: sample_worker_def)
  moreover have "lookup ar_pk 61 (audits (wk_db ?w)) = Some (worker_audit 61 AuditFailed (- 9000))"
    "lookup ar_pk 62 (audits (wk_db ?w)) = Some (worker_audit 62 AuditRunning 450)"
    by (simp_all add: sample_worker_def lookup_def worker_audit_def)
  ultimately show ?thesis
    using released_audit_revives [of ?w 61 "worker_audit 61 AuditFailed (- 9000)" 62 "worker_audit 62 AuditRunning 450"]
    by (auto simp: worker_audit_def is_active_def)
qed

end
