(* ===== verification/MT_Access.thy ===== *)
theory MT_Access
  imports MT_Model PyValue "HOL-Library.Char_ord" "HOL-Library.List_Lexorder"
begin

text \<open>
  Permissions of Moon Tax (\<open>access.py\<close>) and the presets of the Member and Director
  roles (\<open>access_roles.py\<close>). The permission backends of the site are the function
  \<open>us_has_perm\<close>; groups are rows with the codenames they hold of each application.
\<close>

section \<open>Permission checks\<close>

definition APP_LABEL :: string where
  "APP_LABEL = ''buh_moon_tax''"

record auth_user =
  us_pk :: nat
  us_authenticated :: bool
  us_active :: bool
  us_superuser :: bool
  us_has_perm :: "string \<Rightarrow> bool"

definition has :: "auth_user option \<Rightarrow> string \<Rightarrow> bool" where
  "has user codename \<longleftrightarrow> (case user of None \<Rightarrow> False
     | Some u \<Rightarrow> us_authenticated u \<and> (us_superuser u \<or> us_has_perm u (APP_LABEL @ ''.'' @ codename)))"

definition has_app_access :: "auth_user option \<Rightarrow> bool" where
  "has_app_access user \<longleftrightarrow> has user ''view_moon_tax'' \<or> has user ''view_own_tax'' \<or> has user ''view_all_tax''"

definition can_view_assessment :: "auth_user option \<Rightarrow> tax_assessment \<Rightarrow> bool" where
  "can_view_assessment user a \<longleftrightarrow>
     (if has user ''view_all_tax'' then True
      else has user ''view_own_tax'' \<and> ta_auth_user a = map_option us_pk user)"

definition require :: "auth_user option \<Rightarrow> string \<Rightarrow> string option \<Rightarrow> mt_error + unit" where
  "require user codename message =
     (if \<not> has user codename
      then Inl (PermissionMissing (case message of None \<Rightarrow> ''You do not have permission for this action.''
             | Some m \<Rightarrow> if m = '''' then ''You do not have permission for this action.'' else m))
      else Inr ())"

definition MEMBER_CODES :: "string list" where
  "MEMBER_CODES = [''view_moon_tax'', ''view_own_tax'', ''view_mining_quantities'', ''view_mining_values'',
     ''view_payment_evidence'']"

definition DIRECTOR_CODES :: "string list" where
  "DIRECTOR_CODES = [''view_moon_tax'', ''view_own_tax'', ''view_all_tax'', ''view_unlinked_miners'',
     ''view_mining_quantities'', ''view_mining_values'', ''view_payment_evidence'', ''run_tax_audit'',
     ''review_payments'', ''manage_bill_adjustments'', ''preview_member_view'', ''manage_tax_policy'',
     ''manage_exemptions'', ''manage_enforcement'', ''export_tax_data'', ''manage_access'']"

definition visibility_codes :: "string list" where
  "visibility_codes = [''view_moon_tax'', ''view_own_tax'', ''view_all_tax'', ''view_unlinked_miners'',
     ''view_mining_quantities'', ''view_mining_values'', ''view_payment_evidence'', ''run_tax_audit'',
     ''review_payments'', ''manage_bill_adjustments'', ''preview_member_view'', ''manage_tax_policy'',
     ''manage_exemptions'', ''manage_enforcement'', ''export_tax_data'', ''manage_access'']"

definition visibility :: "auth_user option \<Rightarrow> (string \<times> bool) list" where
  "visibility user = map (\<lambda>code. (code, has user code)) visibility_codes"

section \<open>Groups and role presets\<close>

record auth_group =
  gr_pk :: nat
  gr_name :: string
  gr_permissions :: "(string \<times> string) list"

text \<open>
  The groups, their members, the installed permissions (application and codename), the
  users, and the row of the shared role configuration, when Structure Operations is
  installed and has one: its member and director group.
\<close>

record auth_db =
  ad_groups :: "auth_group table"
  ad_members :: "(nat \<times> nat) list"
  ad_permissions :: "(string \<times> string) list"
  ad_users :: "auth_user list"
  ad_role_config :: "(nat option \<times> nat option) option"

definition group_named :: "string \<Rightarrow> auth_db \<Rightarrow> auth_group option" where
  "group_named name d = List.find (\<lambda>g. gr_name g = name) (rows (ad_groups d))"

definition get_or_create_group :: "string \<Rightarrow> auth_db \<Rightarrow> nat \<times> auth_db" where
  "get_or_create_group name d = (case group_named name d of
     Some g \<Rightarrow> (gr_pk g, d)
   | None \<Rightarrow> (next_pk (ad_groups d),
       d\<lparr>ad_groups := create (\<lambda>k. \<lparr>gr_pk = k, gr_name = name, gr_permissions = []\<rparr>) (ad_groups d)\<rparr>))"

definition selected_groups :: "auth_db \<Rightarrow> (nat \<times> nat) \<times> auth_db" where
  "selected_groups d = (case ad_role_config d of
     Some (Some member, Some director) \<Rightarrow> ((member, director), d)
   | _ \<Rightarrow> (let (member, d1) = get_or_create_group ''Member'' d;
              (director, d2) = get_or_create_group ''Director'' d1
          in ((member, director), d2)))"

text \<open>The codenames \<open>permission_map\<close> has an entry for.\<close>

definition permission_codes :: "auth_db \<Rightarrow> string list" where
  "permission_codes d = map snd (filter (\<lambda>(app, code). app = APP_LABEL) (ad_permissions d))"

definition missing_codes :: "auth_db \<Rightarrow> string list" where
  "missing_codes d = sort (filter (\<lambda>c. c \<notin> set (permission_codes d)) (remdups (MEMBER_CODES @ DIRECTOR_CODES)))"

definition codes_missing :: "string list \<Rightarrow> exn" where
  "codes_missing codes = \<lparr>ex_class = ''DoesNotExist'',
     ex_text = ''Moon Tax permissions are missing: '' @ join '', '' codes, ex_deployment = False\<rparr>"

definition already_configured :: "auth_db \<Rightarrow> bool" where
  "already_configured d \<longleftrightarrow> list_ex (\<lambda>g. list_ex (\<lambda>(app, code). app = APP_LABEL) (gr_permissions g)) (rows (ad_groups d))"

text \<open>\<open>group.permissions.add(...)\<close>: the ones it does not hold yet.\<close>

definition grant :: "string list \<Rightarrow> auth_group \<Rightarrow> auth_group" where
  "grant codes g = g\<lparr>gr_permissions := gr_permissions g
     @ filter (\<lambda>p. p \<notin> set (gr_permissions g)) (map (Pair APP_LABEL) codes)\<rparr>"

definition grant_to :: "nat \<Rightarrow> string list \<Rightarrow> auth_db \<Rightarrow> auth_db" where
  "grant_to k codes d = d\<lparr>ad_groups := update gr_pk k (grant codes) (ad_groups d)\<rparr>"

text \<open>One transaction: an error leaves no group behind.\<close>

definition apply_role_presets :: "bool \<Rightarrow> auth_db \<Rightarrow> exn + (nat \<times> nat) \<times> auth_db" where
  "apply_role_presets force d =
     (let ((member, director), d1) = selected_groups d
      in if missing_codes d1 \<noteq> [] then Inl (codes_missing (missing_codes d1))
         else if force \<or> \<not> already_configured d1
         then Inr ((member, director), grant_to director DIRECTOR_CODES (grant_to member MEMBER_CODES d1))
         else Inr ((member, director), d1))"

definition director_users :: "auth_db \<Rightarrow> auth_user list \<times> auth_db" where
  "director_users d =
     (let ((member, director), d1) = selected_groups d
      in (filter (\<lambda>u. us_active u \<and> (us_pk u, director) \<in> set (ad_members d1)) (ad_users d1), d1))"

section \<open>The presets\<close>

lemma find_SomeI: "x \<in> set xs \<Longrightarrow> P x \<Longrightarrow> \<exists>y. List.find P xs = Some y \<and> P y"
  by (induction xs) auto

lemma get_or_create_found: "group_named name d = Some g \<Longrightarrow> get_or_create_group name d = (gr_pk g, d)"
  by (simp add: get_or_create_group_def)

text \<open>What the presets look at when the names of the groups are concerned.\<close>

definition named_keys :: "auth_db \<Rightarrow> (nat \<times> string) list" where
  "named_keys d = map (\<lambda>g. (gr_pk g, gr_name g)) (rows (ad_groups d))"

lemma find_key_of_names: "map_option gr_pk (List.find (\<lambda>g. gr_name g = name) gs)
    = map_option fst (List.find (\<lambda>p. snd p = name) (map (\<lambda>g. (gr_pk g, gr_name g)) gs))"
  by (induction gs) auto

lemma group_named_key: "map_option gr_pk (group_named name d)
    = map_option fst (List.find (\<lambda>p. snd p = name) (named_keys d))"
  unfolding group_named_def named_keys_def by (rule find_key_of_names)

lemma get_or_create_stable:
  assumes "get_or_create_group name d = (k, d1)"
  shows "map_option gr_pk (group_named name d1) = Some k"
    and "name' \<noteq> name \<Longrightarrow> map_option gr_pk (group_named name' d1) = map_option gr_pk (group_named name' d)"
    and "ad_role_config d1 = ad_role_config d" and "ad_permissions d1 = ad_permissions d"
    and "already_configured d1 = already_configured d"
proof -
  have "map_option gr_pk (group_named name d1) = Some k
    \<and> (name' \<noteq> name \<longrightarrow> map_option gr_pk (group_named name' d1) = map_option gr_pk (group_named name' d))
    \<and> ad_role_config d1 = ad_role_config d \<and> ad_permissions d1 = ad_permissions d
    \<and> already_configured d1 = already_configured d"
  proof (cases "group_named name d")
    case (Some g)
    then show ?thesis
      using assms by (simp add: get_or_create_group_def)
  next
    case None
    then have k: "k = next_pk (ad_groups d)" and d1: "d1 = d\<lparr>ad_groups := create (\<lambda>k. \<lparr>gr_pk = k, gr_name = name,
        gr_permissions = []\<rparr>) (ad_groups d)\<rparr>"
      using assms by (simp_all add: get_or_create_group_def)
    have "group_named name'' d1 = (case group_named name'' d of
        None \<Rightarrow> if name = name'' then Some \<lparr>gr_pk = k, gr_name = name, gr_permissions = []\<rparr> else None
      | Some g \<Rightarrow> Some g)" for name''
      by (simp add: d1 group_named_def rows_create find_append k split: option.split)
    then show ?thesis
      using None by (simp add: d1 already_configured_def rows_create split: option.split)
  qed
  then show "map_option gr_pk (group_named name d1) = Some k"
    and "name' \<noteq> name \<Longrightarrow> map_option gr_pk (group_named name' d1) = map_option gr_pk (group_named name' d)"
    and "ad_role_config d1 = ad_role_config d" and "ad_permissions d1 = ad_permissions d"
    and "already_configured d1 = already_configured d"
    by blast+
qed

lemma selected_again:
  assumes "selected_groups d = ((m, k), d1)" and "named_keys d2 = named_keys d1"
    and "ad_role_config d2 = ad_role_config d1"
  shows "selected_groups d2 = ((m, k), d2)"
proof (cases "\<exists>a b. ad_role_config d = Some (Some a, Some b)")
  case True
  then show ?thesis
    using assms(1,3) by (auto simp: selected_groups_def)
next
  case False
  then have plain: "selected_groups e = (let (m, e1) = get_or_create_group ''Member'' e;
      (k, e2) = get_or_create_group ''Director'' e1 in ((m, k), e2))"
    if "ad_role_config e = ad_role_config d" for e
    using that by (auto simp: selected_groups_def split: option.splits prod.splits)
  obtain e1 where e1: "get_or_create_group ''Member'' d = (m, e1)" "get_or_create_group ''Director'' e1 = (k, d1)"
    using assms(1) plain [of d] by (auto simp: Let_def split: prod.splits)
  have keys: "map_option gr_pk (group_named n d2) = map_option gr_pk (group_named n d1)" for n
    by (simp add: group_named_key assms(2))
  have "map_option gr_pk (group_named ''Director'' d2) = Some k"
    unfolding keys by (rule get_or_create_stable(1) [OF e1(2)])
  moreover have "map_option gr_pk (group_named ''Member'' d2) = Some m"
    unfolding keys using get_or_create_stable(2) [OF e1(2), of "''Member''"] get_or_create_stable(1) [OF e1(1)] by simp
  ultimately obtain g h where "group_named ''Member'' d2 = Some g" "gr_pk g = m"
      "group_named ''Director'' d2 = Some h" "gr_pk h = k"
    by blast
  moreover have "ad_role_config d2 = ad_role_config d"
    using assms(3) get_or_create_stable(3) e1 by metis
  ultimately show ?thesis
    by (simp add: plain get_or_create_found)
qed

lemma grant_keeps: "named_keys (grant_to k codes d) = named_keys d"
    "ad_role_config (grant_to k codes d) = ad_role_config d"
    "ad_permissions (grant_to k codes d) = ad_permissions d"
  by (auto simp: grant_to_def named_keys_def rows_update grant_def)

lemma missing_codes_cong: "ad_permissions d = ad_permissions d' \<Longrightarrow> missing_codes d = missing_codes d'"
  by (simp add: missing_codes_def permission_codes_def)

text \<open>The shared configuration names groups there are.\<close>

definition config_ok :: "auth_db \<Rightarrow> bool" where
  "config_ok d \<longleftrightarrow> (\<forall>m k. ad_role_config d = Some (Some m, Some k) \<longrightarrow>
     m \<in> gr_pk ` set (rows (ad_groups d)) \<and> k \<in> gr_pk ` set (rows (ad_groups d)))"

lemma group_named_row: "map_option gr_pk (group_named n d) = Some k \<Longrightarrow> k \<in> gr_pk ` set (rows (ad_groups d))"
  by (auto simp: group_named_def dest: find_SomeD)

lemma get_or_create_rows:
  assumes "get_or_create_group name d = (k, d1)"
  shows "\<exists>new. rows (ad_groups d1) = rows (ad_groups d) @ new \<and> (\<forall>g \<in> set new. gr_permissions g = [])"
  using assms by (auto simp: get_or_create_group_def rows_create split: option.splits)

lemma selected_outcome:
  assumes "selected_groups d = ((m, k), d1)" and "config_ok d"
  shows "m \<in> gr_pk ` set (rows (ad_groups d1))" and "ad_role_config d1 = ad_role_config d"
    and "already_configured d1 = already_configured d" and "ad_permissions d1 = ad_permissions d"
    and "\<exists>new. rows (ad_groups d1) = rows (ad_groups d) @ new \<and> (\<forall>g \<in> set new. gr_permissions g = [])"
proof -
  have "m \<in> gr_pk ` set (rows (ad_groups d1)) \<and> ad_role_config d1 = ad_role_config d
    \<and> already_configured d1 = already_configured d \<and> ad_permissions d1 = ad_permissions d
    \<and> (\<exists>new. rows (ad_groups d1) = rows (ad_groups d) @ new \<and> (\<forall>g \<in> set new. gr_permissions g = []))"
  proof (cases "\<exists>a b. ad_role_config d = Some (Some a, Some b)")
    case True
    then have "d1 = d" and "m \<in> gr_pk ` set (rows (ad_groups d))"
      using assms by (auto simp: selected_groups_def config_ok_def)
    then show ?thesis by simp
  next
    case False
    then obtain e1 where e1: "get_or_create_group ''Member'' d = (m, e1)" "get_or_create_group ''Director'' e1 = (k, d1)"
      using assms(1) by (auto simp: selected_groups_def Let_def split: option.splits prod.splits)
    have "map_option gr_pk (group_named ''Member'' d1) = Some m"
      using get_or_create_stable(1) [OF e1(1)] get_or_create_stable(2) [OF e1(2), of "''Member''"] by simp
    then have "m \<in> gr_pk ` set (rows (ad_groups d1))"
      by (rule group_named_row)
    moreover obtain n1 n2 where "rows (ad_groups e1) = rows (ad_groups d) @ n1" "rows (ad_groups d1) = rows (ad_groups e1) @ n2"
        "\<forall>g \<in> set n1. gr_permissions g = []" "\<forall>g \<in> set n2. gr_permissions g = []"
      using get_or_create_rows [OF e1(1)] get_or_create_rows [OF e1(2)] by blast
    ultimately show ?thesis
      using get_or_create_stable(3-5) [OF e1(1)] get_or_create_stable(3-5) [OF e1(2)]
      by (intro conjI exI [of _ "n1 @ n2"]) auto
  qed
  then show "m \<in> gr_pk ` set (rows (ad_groups d1))" and "ad_role_config d1 = ad_role_config d"
    and "already_configured d1 = already_configured d" and "ad_permissions d1 = ad_permissions d"
    and "\<exists>new. rows (ad_groups d1) = rows (ad_groups d) @ new \<and> (\<forall>g \<in> set new. gr_permissions g = [])"
    by blast+
qed

lemma granted_configured:
  assumes "m \<in> gr_pk ` set (rows (ad_groups d))"
  shows "already_configured (grant_to m MEMBER_CODES d)"
proof -
  obtain g where g: "g \<in> set (rows (ad_groups d))" "gr_pk g = m"
    using assms by blast
  have "(APP_LABEL, ''view_moon_tax'') \<in> set (gr_permissions (grant MEMBER_CODES g))"
    by (auto simp: grant_def MEMBER_CODES_def)
  moreover have "grant MEMBER_CODES g \<in> set (rows (ad_groups (grant_to m MEMBER_CODES d)))"
    using g by (auto simp: grant_to_def rows_update intro: rev_image_eqI)
  ultimately show ?thesis
    unfolding already_configured_def list_ex_iff by (intro bexI) auto
qed

lemma grant_keeps_configured:
  assumes "already_configured d"
  shows "already_configured (grant_to k codes d)"
proof -
  obtain g p where g: "g \<in> set (rows (ad_groups d))" "p \<in> set (gr_permissions g)" "fst p = APP_LABEL"
    using assms by (fastforce simp: already_configured_def list_ex_iff)
  let ?g = "if gr_pk g = k then grant codes g else g"
  have "?g \<in> set (rows (ad_groups (grant_to k codes d)))"
    using g(1) by (auto simp: grant_to_def rows_update intro: rev_image_eqI)
  moreover have "p \<in> set (gr_permissions ?g)"
    using g(2) by (simp add: grant_def)
  ultimately show ?thesis
    unfolding already_configured_def list_ex_iff using g(3) by (intro bexI) (auto split: prod.split)
qed

text \<open>
  The presets apply once: after any successful run another run (without force)
  changes nothing and selects the same groups; and a run without force on a site where
  some group already has a permission of the application keeps the permissions of every
  group, at most adding empty groups.
\<close>

theorem presets_apply_once:
  assumes "config_ok d" and "apply_role_presets force d = Inr (ks, d1)"
  shows "apply_role_presets False d1 = Inr (ks, d1)
    \<and> (already_configured d \<and> \<not> force \<longrightarrow>
         (\<exists>new. rows (ad_groups d1) = rows (ad_groups d) @ new \<and> (\<forall>g \<in> set new. gr_permissions g = [])))"
proof -
  obtain m k d0 where sel: "selected_groups d = ((m, k), d0)"
    by (metis prod.collapse)
  note out = selected_outcome [OF sel assms(1)]
  have none: "missing_codes d0 = []"
    using assms(2) sel by (auto simp: apply_role_presets_def split: if_splits)
  have d1: "ks = (m, k) \<and> d1 = (if force \<or> \<not> already_configured d0
      then grant_to k DIRECTOR_CODES (grant_to m MEMBER_CODES d0) else d0)"
    using assms(2) sel none by (auto simp: apply_role_presets_def split: if_splits)
  have same: "named_keys d1 = named_keys d0" "ad_role_config d1 = ad_role_config d0" "ad_permissions d1 = ad_permissions d0"
    using d1 by (auto simp: grant_keeps)
  have conf: "already_configured d1"
    using d1 granted_configured [OF out(1)] grant_keeps_configured by (auto split: if_splits)
  have "selected_groups d1 = ((m, k), d1)"
    by (rule selected_again [OF sel same(1,2)])
  then have "apply_role_presets False d1 = Inr (ks, d1)"
    using conf none missing_codes_cong [OF same(3)] d1 by (simp add: apply_role_presets_def)
  moreover have "already_configured d \<and> \<not> force \<Longrightarrow> d1 = d0"
    using d1 out(3) by auto
  ultimately show ?thesis
    using out(5) by auto
qed

definition fresh_site :: auth_db where
  "fresh_site = \<lparr>ad_groups = \<lparr>rows = [\<lparr>gr_pk = 1, gr_name = ''Member'', gr_permissions = []\<rparr>], next_pk = 2\<rparr>,
     ad_members = [], ad_permissions = map (Pair APP_LABEL) DIRECTOR_CODES, ad_users = [], ad_role_config = None\<rparr>"

lemma fresh_site_presets: "\<exists>d1. apply_role_presets False fresh_site = Inr ((1, 2), d1)"
proof -
  have "missing_codes (snd (selected_groups fresh_site)) = []" and "fst (selected_groups fresh_site) = (1, 2)"
    by code_simp+
  then show ?thesis
    by (auto simp: apply_role_presets_def split: prod.splits)
qed

lemma presets_apply_once_witness:
  "\<exists>d1. apply_role_presets False fresh_site = Inr ((1, 2), d1) \<and> apply_role_presets False d1 = Inr ((1, 2), d1)"
proof -
  obtain d1 where d1: "apply_role_presets False fresh_site = Inr ((1, 2), d1)"
    using fresh_site_presets by blast
  have "config_ok fresh_site"
    by (simp add: config_ok_def fresh_site_def)
  from presets_apply_once [OF this d1] d1 show ?thesis by blast
qed

end
