(* ===== verification/Deploy_Journal.thy ===== *)
theory Deploy_Journal
  imports Effects Table
begin

text \<open>
  The journal of one deployment attempt (\<open>ops/deploy/engine.py\<close>): its data, the
  bounded and redacted failure text, the stabilization evidence, and the transitions
  of \<open>DeploymentJournal\<close> and \<open>PreflightJournal\<close> on the record they hold in memory.
  \<open>journal_apply\<close> puts the transitions of a deployment together as a guarded
  machine; its good states are \<open>journal_ok\<close> and its history only grows.
\<close>

section \<open>The request and the journal\<close>

definition DEPLOYMENT_STATES :: "string list" where
  "DEPLOYMENT_STATES = [''validated'', ''prepared'', ''backed_up'', ''migrated'', ''candidate_healthy'',
     ''traffic_switched'', ''workers_replaced'', ''stabilized'', ''web_promoted'', ''verified'']"

definition MAX_FAILURE_DETAIL_BYTES :: nat where
  "MAX_FAILURE_DETAIL_BYTES = 32 * 1024"

definition MAX_VERIFICATION_WARNINGS :: nat where
  "MAX_VERIFICATION_WARNINGS = 32"

definition MAX_VERIFICATION_WARNING_CHARS :: nat where
  "MAX_VERIFICATION_WARNING_CHARS = 200"

record recovery_transition =
  rt_versions :: "string list"
  rt_policy_id :: string
  rt_purpose :: string

text \<open>What the journal copies of a validated bundle and of its request.\<close>

record release_bundle =
  bu_attempt_id :: string
  bu_repository :: string
  bu_release_commit :: string
  bu_source_commit :: string
  bu_platform_version :: string
  bu_manifest_sha256 :: string
  bu_recovery_transition :: "recovery_transition option"
  bu_recovery_sha256 :: "string option"

record release_recovery =
  rr_baseline :: string
  rr_policy_id :: string
  rr_purpose :: string
  rr_release_count :: nat
  rr_sha256 :: "string option"

record rollback_record =
  rb_result :: string
  rb_detail :: string

record journal =
  jr_operation :: string
  jr_attempt_id :: string
  jr_repository :: string
  jr_release_commit :: string
  jr_source_commit :: string
  jr_platform_version :: string
  jr_manifest_sha256 :: string
  jr_release_recovery :: "release_recovery option"
  jr_started_at :: string
  jr_updated_at :: string
  jr_state :: "string option"
  jr_history :: "(string \<times> string) list"
  jr_backup :: "(string \<times> pyval) list option"
  jr_verification :: "(string \<times> pyval) list option"
  jr_result :: string
  jr_failure :: "string option"
  jr_failure_detail :: "string option"
  jr_recovery :: "string option"
  jr_rollback :: "rollback_record option"
  jr_cleanup :: "rollback_record option"

definition release_recovery_of :: "release_bundle \<Rightarrow> release_recovery option" where
  "release_recovery_of b =
     (case bu_recovery_transition b of
        None \<Rightarrow> None
      | Some t \<Rightarrow> Some \<lparr>rr_baseline = hd (rt_versions t), rr_policy_id = rt_policy_id t,
                        rr_purpose = rt_purpose t, rr_release_count = length (rt_versions t),
                        rr_sha256 = bu_recovery_sha256 b\<rparr>)"

definition base_record :: "string \<Rightarrow> release_bundle \<Rightarrow> string \<Rightarrow> journal" where
  "base_record now b operation =
     \<lparr>jr_operation = operation, jr_attempt_id = bu_attempt_id b, jr_repository = bu_repository b,
      jr_release_commit = bu_release_commit b, jr_source_commit = bu_source_commit b,
      jr_platform_version = bu_platform_version b, jr_manifest_sha256 = bu_manifest_sha256 b,
      jr_release_recovery = release_recovery_of b, jr_started_at = now, jr_updated_at = now,
      jr_state = None, jr_history = [], jr_backup = None, jr_verification = None,
      jr_result = ''running'', jr_failure = None, jr_failure_detail = None, jr_recovery = None,
      jr_rollback = None, jr_cleanup = None\<rparr>"

section \<open>Bounded failure text\<close>

definition failure_fields :: "(string \<Rightarrow> string) list \<Rightarrow> exn \<Rightarrow> string \<times> string" where
  "failure_fields patterns e =
     (let raw = to_ascii (redact_sensitive_text patterns (unix_lines (strip_text (ex_text e))));
          detail = join [LF] (map (take 500) (last_n 80 (splitlines raw)));
          bytes = (if detail = '''' then ex_class e else detail);
          summary = take 500 (if raw = '''' then ex_class e else hd (splitlines raw))
      in (summary, last_n MAX_FAILURE_DETAIL_BYTES bytes))"

definition one_line :: "string \<Rightarrow> string" where
  "one_line s = take 500 (map (\<lambda>c. if c = LF then CHR '' '' else c) s)"

text \<open>\<open>_rollback_record\<close> of \<open>engine.py\<close>.\<close>

definition rollback_entry :: "(string \<Rightarrow> string) list \<Rightarrow> string \<Rightarrow> bool \<Rightarrow> rollback_record" where
  "rollback_entry patterns recovery passed =
     \<lparr>rb_result = (if passed then ''passed'' else ''failed''),
      rb_detail = one_line (snd (failure_fields patterns (deployment_error recovery)))\<rparr>"

section \<open>Stabilization evidence\<close>

definition evidence_keys :: "string list" where
  "evidence_keys = [''filename'', ''sha256'', ''result'', ''iterations'', ''allowed_log_findings'',
     ''warnings'', ''failure'']"

definition invalid_evidence :: exn where
  "invalid_evidence = deployment_error ''Deployment verification evidence is invalid''"

text \<open>The tests before the membership test of \<open>result\<close>, which raises on a list or a mapping.\<close>

definition evidence_head_ok :: "(string \<times> pyval) list \<Rightarrow> bool" where
  "evidence_head_ok v \<longleftrightarrow>
     set (map fst v) = set evidence_keys \<and> get_key v ''filename'' = PStr ''HEALTH.json''
     \<and> is_str (get_key v ''sha256'') \<and> sha256_text (the_str (get_key v ''sha256''))"

definition evidence_rest_ok :: "(string \<times> pyval) list \<Rightarrow> bool" where
  "evidence_rest_ok v \<longleftrightarrow>
     (let r = get_key v ''result''; n = get_key v ''iterations'';
          found = get_key v ''allowed_log_findings''; warnings = get_key v ''warnings'';
          failure = get_key v ''failure''
      in (r = PStr ''success'' \<or> r = PStr ''failed'')
         \<and> is_int n \<and> 0 \<le> the_int n \<and> \<not> (r = PStr ''success'' \<and> the_int n < 1)
         \<and> is_int found \<and> is_list warnings
         \<and> length (the_list warnings) \<le> MAX_VERIFICATION_WARNINGS
         \<and> the_int found = int (length (the_list warnings))
         \<and> list_all (\<lambda>w. is_str w \<and> printable_text MAX_VERIFICATION_WARNING_CHARS (the_str w))
              (the_list warnings)
         \<and> (failure \<noteq> PNone \<longrightarrow> is_str failure \<and> printable_text 500 (the_str failure))
         \<and> \<not> (r = PStr ''success'' \<and> failure \<noteq> PNone)
         \<and> \<not> (r = PStr ''failed'' \<and> failure = PNone))"

text \<open>\<open>_verification_record\<close>.\<close>

definition verification_entry ::
  "(string \<Rightarrow> string) list \<Rightarrow> (string \<times> pyval) list \<Rightarrow> exn + (string \<times> pyval) list" where
  "verification_entry patterns v =
     (if \<not> evidence_head_ok v then Inl invalid_evidence
      else if \<not> hashable (get_key v ''result'') then Inl (type_error ''unhashable type'')
      else if \<not> evidence_rest_ok v then Inl invalid_evidence
      else let redact = redact_sensitive_text patterns;
               warnings = map (\<lambda>w. PStr (redact (the_str w))) (the_list (get_key v ''warnings''));
               v1 = set_key ''warnings'' (PList warnings) v
           in Inr (if is_str (get_key v ''failure'')
                   then set_key ''failure'' (PStr (redact (the_str (get_key v ''failure'')))) v1 else v1))"

section \<open>The journal's transitions\<close>

fun index_of :: "'a \<Rightarrow> 'a list \<Rightarrow> nat" where
  "index_of x [] = 0"
| "index_of x (y # ys) = (if x = y then 0 else Suc (index_of x ys))"

text \<open>\<open>repr\<close> of a state of the journal.\<close>

definition show_state :: "string option \<Rightarrow> string" where
  "show_state state = (case state of None \<Rightarrow> ''None'' | Some s \<Rightarrow> CHR 0x27 # s @ [CHR 0x27])"

text \<open>The guards of \<open>advance\<close>, in their order; the value is the evidence to store.\<close>

definition advance_check ::
  "(string \<Rightarrow> string) list \<Rightarrow> string \<Rightarrow> (string \<times> pyval) list option \<Rightarrow> journal
     \<Rightarrow> exn + (string \<times> pyval) list option" where
  "advance_check patterns state verification j =
     (if state \<notin> set DEPLOYMENT_STATES
      then Inl (deployment_error (''Unknown deployment state: '' @ state))
      else if jr_state j = Some (last DEPLOYMENT_STATES)
      then Inl (deployment_error ''A verified deployment has no further state'')
      else if DEPLOYMENT_STATES ! (case jr_state j of None \<Rightarrow> 0 | Some s \<Rightarrow> index_of s DEPLOYMENT_STATES + 1)
                \<noteq> state
      then Inl (deployment_error (''Invalid deployment transition from '' @ show_state (jr_state j)
             @ '' to '' @ show_state (Some state)))
      else case verification of
             Some v \<Rightarrow>
               (if state \<noteq> ''stabilized'' then Inl invalid_evidence
                else case verification_entry patterns v of
                       Inl e \<Rightarrow> Inl e
                     | Inr checked \<Rightarrow>
                         if get_key checked ''result'' \<noteq> PStr ''success'' then Inl invalid_evidence
                         else Inr (Some checked))
           | None \<Rightarrow>
               (if state = ''stabilized''
                then Inl (deployment_error ''A stabilized deployment requires bounded verification evidence'')
                else Inr None))"

definition advanced ::
  "string \<Rightarrow> string \<Rightarrow> (string \<times> pyval) list option \<Rightarrow> (string \<times> pyval) list option \<Rightarrow> journal \<Rightarrow> journal" where
  "advanced now state backup checked j =
     j\<lparr>jr_state := Some state, jr_updated_at := now, jr_history := jr_history j @ [(state, now)],
       jr_backup := (if backup = None then jr_backup j else backup),
       jr_verification := (if checked = None then jr_verification j else checked)\<rparr>"

definition succeeded :: "string \<Rightarrow> journal \<Rightarrow> journal" where
  "succeeded now j = j\<lparr>jr_result := ''success'', jr_updated_at := now\<rparr>"

definition cleaned :: "(string \<Rightarrow> string) list \<Rightarrow> string \<Rightarrow> string \<Rightarrow> bool \<Rightarrow> journal \<Rightarrow> journal" where
  "cleaned patterns now detail passed j =
     j\<lparr>jr_cleanup := Some (rollback_entry patterns detail passed), jr_updated_at := now\<rparr>"

text \<open>\<open>fail\<close> before its evidence is looked at.\<close>

definition failing :: "(string \<Rightarrow> string) list \<Rightarrow> exn \<Rightarrow> string \<Rightarrow> bool \<Rightarrow> journal \<Rightarrow> journal" where
  "failing patterns e recovery passed j =
     (let (summary, detail) = failure_fields patterns e; rollback = rollback_entry patterns recovery passed
      in j\<lparr>jr_result := ''failed'', jr_failure := Some summary, jr_failure_detail := Some detail,
           jr_recovery := Some (rb_detail rollback), jr_rollback := Some rollback\<rparr>)"

definition failed :: "string \<Rightarrow> (string \<times> pyval) list option \<Rightarrow> journal \<Rightarrow> journal" where
  "failed now checked j =
     j\<lparr>jr_verification := (if checked = None then jr_verification j else checked), jr_updated_at := now\<rparr>"

definition preflight_succeeded :: "(string \<Rightarrow> string) list \<Rightarrow> string \<Rightarrow> string \<Rightarrow> journal \<Rightarrow> journal" where
  "preflight_succeeded patterns now recovery j =
     (let rollback = rollback_entry patterns recovery True
      in j\<lparr>jr_state := Some ''candidate_validated'',
           jr_history := jr_history j @ [(''candidate_validated'', now)], jr_result := ''success'',
           jr_recovery := Some (rb_detail rollback), jr_rollback := Some rollback, jr_updated_at := now\<rparr>)"

section \<open>The journal as a machine\<close>

datatype journal_op =
  Advance string string "(string \<times> pyval) list option" "(string \<times> pyval) list option"
| Succeed string
| Record_Cleanup string string bool
| Fail string exn string bool "(string \<times> pyval) list option"

text \<open>Each method of \<open>DeploymentJournal\<close> on its record; the first argument of an
  operation is the clock.\<close>

fun journal_apply :: "(string \<Rightarrow> string) list \<Rightarrow> journal_op \<Rightarrow> journal \<Rightarrow> exn + journal" where
  "journal_apply patterns (Advance now state backup verification) j =
     (case advance_check patterns state verification j of
        Inl e \<Rightarrow> Inl e | Inr checked \<Rightarrow> Inr (advanced now state backup checked j))"
| "journal_apply patterns (Succeed now) j =
     (if jr_state j \<noteq> Some ''verified''
      then Inl (deployment_error ''A deployment cannot succeed before verification'')
      else Inr (succeeded now j))"
| "journal_apply patterns (Record_Cleanup now detail passed) j =
     (if jr_result j \<noteq> ''success'' \<or> jr_state j \<noteq> Some ''verified''
      then Inl (deployment_error ''Post-success cleanup requires a verified deployment'')
      else Inr (cleaned patterns now detail passed j))"
| "journal_apply patterns (Fail now e recovery passed verification) j =
     (case verification of
        None \<Rightarrow> Inr (failed now None (failing patterns e recovery passed j))
      | Some v \<Rightarrow> (case verification_entry patterns v of
                    Inl e' \<Rightarrow> Inl e'
                  | Inr checked \<Rightarrow> Inr (failed now (Some checked) (failing patterns e recovery passed j))))"

text \<open>The journal has passed the first \<open>n\<close> states.\<close>

definition at_state :: "nat \<Rightarrow> journal \<Rightarrow> bool" where
  "at_state n j \<longleftrightarrow> n \<le> 10 \<and> map fst (jr_history j) = take n DEPLOYMENT_STATES
     \<and> jr_state j = (if n = 0 then None else Some (DEPLOYMENT_STATES ! (n - 1)))"

text \<open>
  The history is a prefix of the ten states and ends with the current one; a result
  other than running is earned.
\<close>

definition journal_ok :: "journal \<Rightarrow> bool" where
  "journal_ok j \<longleftrightarrow>
     (\<exists>n. at_state n j \<and> (8 \<le> n \<longrightarrow> jr_verification j \<noteq> None)
          \<and> (jr_result j = ''success'' \<longrightarrow> n = 10))
     \<and> jr_result j \<in> {''running'', ''success'', ''failed''}
     \<and> (jr_result j = ''failed'' \<longrightarrow> jr_rollback j \<noteq> None)"

text \<open>Nothing recorded is taken back: the identity stays and the history is extended.\<close>

definition older :: "journal \<Rightarrow> journal \<Rightarrow> bool" where
  "older j j' \<longleftrightarrow>
     jr_attempt_id j' = jr_attempt_id j \<and> jr_release_commit j' = jr_release_commit j
     \<and> jr_manifest_sha256 j' = jr_manifest_sha256 j \<and> jr_started_at j' = jr_started_at j
     \<and> (\<exists>new. jr_history j' = jr_history j @ new)
     \<and> (jr_backup j \<noteq> None \<longrightarrow> jr_backup j' \<noteq> None)"

lemma older_refl: "older j j"
  by (simp add: older_def)

lemma older_trans: "older j j' \<Longrightarrow> older j' j'' \<Longrightarrow> older j j''"
  by (auto simp: older_def)

section \<open>Positions of the journal\<close>

lemma distinct_states: "distinct DEPLOYMENT_STATES"
  by (simp add: DEPLOYMENT_STATES_def)

lemma length_states [simp]: "length DEPLOYMENT_STATES = 10"
  by (simp add: DEPLOYMENT_STATES_def)

lemma last_states: "last DEPLOYMENT_STATES = DEPLOYMENT_STATES ! 9"
  by (simp add: DEPLOYMENT_STATES_def)

lemma named_states:
  "''stabilized'' = DEPLOYMENT_STATES ! 7" "''verified'' = DEPLOYMENT_STATES ! 9"
  by (simp_all add: DEPLOYMENT_STATES_def)

lemma same_state: "i < 10 \<Longrightarrow> k < 10 \<Longrightarrow> DEPLOYMENT_STATES ! i = DEPLOYMENT_STATES ! k \<longleftrightarrow> i = k"
  by (rule nth_eq_iff_index_eq [OF distinct_states]) simp_all

lemma index_of_nth: "distinct xs \<Longrightarrow> i < length xs \<Longrightarrow> index_of (xs ! i) xs = i"
proof (induction xs arbitrary: i)
  case (Cons x xs)
  then show ?case by (cases i) auto
qed simp

lemma index_of_state [simp]: "i < 10 \<Longrightarrow> index_of (DEPLOYMENT_STATES ! i) DEPLOYMENT_STATES = i"
  by (rule index_of_nth [OF distinct_states]) simp

lemma at_stateD:
  assumes "at_state n j"
  shows "n \<le> 10" "jr_state j = (if n = 0 then None else Some (DEPLOYMENT_STATES ! (n - 1)))"
    "map fst (jr_history j) = take n DEPLOYMENT_STATES"
  using assms by (simp_all add: at_state_def)

lemma verified_iff: "at_state n j \<Longrightarrow> jr_state j = Some ''verified'' \<longleftrightarrow> n = 10"
  by (auto simp: at_state_def named_states same_state)

lemma expected_state:
  assumes "at_state n j"
  shows "(case jr_state j of None \<Rightarrow> 0 | Some s \<Rightarrow> index_of s DEPLOYMENT_STATES + 1) = n"
  using assms by (auto simp: at_state_def)

lemma advance_check_Inr:
  assumes "at_state n j" and "advance_check patterns state verification j = Inr checked"
  shows "n < 10" and "state = DEPLOYMENT_STATES ! n" and "checked = None \<longleftrightarrow> n \<noteq> 7"
    and "checked = Some c \<Longrightarrow> get_key c ''result'' = PStr ''success''"
proof -
  have *: "jr_state j \<noteq> Some (last DEPLOYMENT_STATES)" and state: "DEPLOYMENT_STATES ! n = state"
    using assms by (auto simp: advance_check_def expected_state split: if_splits)
  show n: "n < 10"
    using * assms(1) verified_iff [OF assms(1)] by (auto simp: last_states named_states at_state_def)
  show "state = DEPLOYMENT_STATES ! n"
    using state by simp
  have "state = ''stabilized'' \<longleftrightarrow> n = 7"
    using n by (auto simp: state [symmetric] named_states same_state)
  then show "checked = None \<longleftrightarrow> n \<noteq> 7"
    using assms(2) by (auto simp: advance_check_def split: if_splits option.splits sum.splits)
  show "get_key c ''result'' = PStr ''success''" if "checked = Some c"
    using assms(2) that by (auto simp: advance_check_def split: if_splits option.splits sum.splits)
qed

lemma advance_check_ok:
  assumes "at_state n j" and "n < 10"
  shows "n \<noteq> 7 \<Longrightarrow> advance_check patterns (DEPLOYMENT_STATES ! n) None j = Inr None"
    and "n = 7 \<Longrightarrow> advance_check patterns (DEPLOYMENT_STATES ! n) (Some v) j =
      (case verification_entry patterns v of Inl e \<Rightarrow> Inl e
       | Inr c \<Rightarrow> if get_key c ''result'' \<noteq> PStr ''success'' then Inl invalid_evidence else Inr (Some c))"
proof -
  have "jr_state j \<noteq> Some (last DEPLOYMENT_STATES)"
    using assms by (auto simp: at_state_def last_states same_state)
  moreover have "DEPLOYMENT_STATES ! n \<in> set DEPLOYMENT_STATES"
    using assms(2) by simp
  moreover have "DEPLOYMENT_STATES ! n = ''stabilized'' \<longleftrightarrow> n = 7"
    using assms(2) by (auto simp: named_states same_state)
  moreover have "DEPLOYMENT_STATES ! 7 = ''stabilized''"
    by (simp add: named_states)
  moreover have "DEPLOYMENT_STATES ! 7 = ''stabilized''"
    by (simp add: named_states)
  ultimately show "n \<noteq> 7 \<Longrightarrow> advance_check patterns (DEPLOYMENT_STATES ! n) None j = Inr None"
    and "n = 7 \<Longrightarrow> advance_check patterns (DEPLOYMENT_STATES ! n) (Some v) j =
      (case verification_entry patterns v of Inl e \<Rightarrow> Inl e
       | Inr c \<Rightarrow> if get_key c ''result'' \<noteq> PStr ''success'' then Inl invalid_evidence else Inr (Some c))"
    using assms(1) by (auto simp add: advance_check_def expected_state cong: sum.case_cong)
qed

lemma at_state_advanced:
  assumes "at_state n j" and "n < 10"
  shows "at_state (Suc n) (advanced now (DEPLOYMENT_STATES ! n) backup checked j)"
  using assms by (simp add: at_state_def advanced_def take_Suc_conv_app_nth)

lemma failing_fields [simp]:
  "jr_result (failing patterns e recovery passed j) = ''failed''"
  "jr_rollback (failing patterns e recovery passed j) = Some (rollback_entry patterns recovery passed)"
  "jr_verification (failing patterns e recovery passed j) = jr_verification j"
  "jr_state (failing patterns e recovery passed j) = jr_state j"
  "jr_history (failing patterns e recovery passed j) = jr_history j"
  "jr_backup (failing patterns e recovery passed j) = jr_backup j"
  "jr_attempt_id (failing patterns e recovery passed j) = jr_attempt_id j"
  "jr_release_commit (failing patterns e recovery passed j) = jr_release_commit j"
  "jr_manifest_sha256 (failing patterns e recovery passed j) = jr_manifest_sha256 j"
  "jr_started_at (failing patterns e recovery passed j) = jr_started_at j"
  by (simp_all add: failing_def Let_def split: prod.split)

lemma journal_ok_succeeded: "at_state 10 j \<Longrightarrow> jr_verification j \<noteq> None \<Longrightarrow> journal_ok (succeeded now j)"
  by (auto simp: journal_ok_def succeeded_def at_state_def)

lemma journal_ok_cleaned: "journal_ok j \<Longrightarrow> journal_ok (cleaned patterns now detail passed j)"
  by (auto simp: journal_ok_def cleaned_def at_state_def)

lemma journal_ok_failed:
  assumes "journal_ok j"
  shows "journal_ok (failed now checked (failing patterns e recovery passed j))"
proof -
  obtain n where "at_state n j" "8 \<le> n \<longrightarrow> jr_verification j \<noteq> None"
    using assms by (auto simp: journal_ok_def)
  then have "at_state n (failed now checked (failing patterns e recovery passed j))"
    "8 \<le> n \<longrightarrow> jr_verification (failed now checked (failing patterns e recovery passed j)) \<noteq> None"
    by (simp_all add: at_state_def failed_def)
  moreover have "jr_result (failed now checked (failing patterns e recovery passed j)) = ''failed''"
    "jr_rollback (failed now checked (failing patterns e recovery passed j)) \<noteq> None"
    by (simp_all add: failed_def)
  ultimately show ?thesis
    unfolding journal_ok_def by simp blast
qed

lemma journal_ok_base: "journal_ok (base_record now b ''deploy'')"
  by (auto simp: journal_ok_def base_record_def at_state_def)

lemma journal_ok_apply:
  assumes ok: "journal_ok j" and step: "journal_apply patterns op j = Inr j'"
  shows "journal_ok j'"
proof -
  obtain n where n: "at_state n j" "8 \<le> n \<longrightarrow> jr_verification j \<noteq> None"
      "jr_result j = ''success'' \<longrightarrow> n = 10"
    and res: "jr_result j \<in> {''running'', ''success'', ''failed''}"
      "jr_result j = ''failed'' \<longrightarrow> jr_rollback j \<noteq> None"
    using ok by (auto simp: journal_ok_def)
  show ?thesis
  proof (cases op)
    case (Advance now state backup verification)
    then obtain checked where c: "advance_check patterns state verification j = Inr checked"
      and j': "j' = advanced now state backup checked j"
      using step by (auto split: sum.splits)
    note facts = advance_check_Inr(1-3) [OF n(1) c]
    have at: "at_state (Suc n) j'"
      unfolding j' facts(2) by (rule at_state_advanced [OF n(1) facts(1)])
    have "jr_verification j' = (if checked = None then jr_verification j else checked)"
      by (simp add: j' advanced_def)
    moreover have "jr_result j' = jr_result j" "jr_rollback j' = jr_rollback j"
      by (simp_all add: j' advanced_def)
    ultimately show ?thesis
      using at n(2,3) res facts(1,3) unfolding journal_ok_def
      by (intro conjI exI [of _ "Suc n"]) auto
  next
    case (Succeed now)
    then have "n = 10" "j' = succeeded now j"
      using step verified_iff [OF n(1)] by (auto split: if_splits)
    then show ?thesis
      using n by (auto intro: journal_ok_succeeded)
  next
    case (Record_Cleanup now detail passed)
    then show ?thesis
      using step ok by (auto intro: journal_ok_cleaned split: if_splits)
  next
    case (Fail now e recovery passed verification)
    then obtain checked where "j' = failed now checked (failing patterns e recovery passed j)"
      using step by (auto split: option.splits sum.splits)
    then show ?thesis
      using ok by (simp add: journal_ok_failed)
  qed
qed

lemma older_advanced: "older j (advanced now state backup checked j)"
  by (simp add: older_def advanced_def)

lemma older_failed: "older j (failed now checked (failing patterns e recovery passed j))"
  by (simp add: older_def failed_def)

lemma older_others: "older j (succeeded now j)" "older j (cleaned patterns now detail passed j)"
  by (simp_all add: older_def succeeded_def cleaned_def)

lemma older_apply:
  assumes "journal_apply patterns op j = Inr j'"
  shows "older j j'"
proof (cases op)
  case (Fail now e recovery passed verification)
  then obtain checked where "j' = failed now checked (failing patterns e recovery passed j)"
    using assms by (auto split: option.splits sum.splits)
  then show ?thesis
    by (simp add: older_failed)
qed (use assms in \<open>auto simp: older_advanced older_others split: if_splits sum.splits\<close>)

interpretation jr: monotone_machine "journal_apply patterns" journal_ok older
  for patterns :: "(string \<Rightarrow> string) list"
  by unfold_locales (auto intro: journal_ok_apply older_apply older_refl older_trans)

lemmas journal_paths_ok = jr.run_good [OF journal_ok_base]

lemmas journal_paths_grow = jr.run_below

end
