(* ===== verification/Deploy_Engine.thy ===== *)
theory Deploy_Engine
  imports Deploy_Journal
begin

text \<open>
  The two runs of the deployment engine (\<open>ops/deploy/engine.py\<close>), preflight and
  deployment, with the guard against termination signals and the atomic writes of the
  journal. The backend that touches the host, the clock, the signals and the faults of
  the disk are a parameter: functions of a world that nothing is assumed of. A signal
  is delivered where the engine calls the backend and between the steps of a write.
\<close>

section \<open>The host\<close>

datatype operation =
  Validate | Prepare_Candidate | Backup | Migrate | Candidate_Health | Switch_Traffic
| Replace_Workers | Stabilize | Promote_Web | Finalize | Complete_Recovery_Plan
| Cleanup_Success | Rollback "string option" | Stabilization_Evidence

text \<open>The steps of \<open>_atomic_write\<close> the operating system may refuse.\<close>

datatype write_step =
  Make_Parent | Make_Temporary | Set_Mode | Write_Data | Sync_Data | Replace
| Open_Directory | Sync_Directory | Close_Directory | Unlink_Temporary

record pointer =
  pt_platform_version :: string
  pt_release_commit :: string
  pt_source_commit :: string
  pt_manifest_sha256 :: string
  pt_verified_at :: string

datatype document = Attempt journal | Current pointer

record disk =
  ds_attempts :: "(string \<times> journal) list"
  ds_current :: "pointer option"
  ds_temporaries :: nat

text \<open>
  A backend answers each operation of the protocol; \<open>ho_complete_plan\<close> is the method
  a backend need not have. \<open>ho_signal\<close> is the name of a pending termination signal,
  \<open>ho_guard\<close> whether the handlers cannot be installed, \<open>ho_patterns\<close> the redactions.
\<close>

type_synonym 'w doing = "release_bundle \<Rightarrow> 'w \<Rightarrow> (exn + unit) \<times> 'w"
type_synonym mapping = "(string \<times> pyval) list"

record 'w host =
  ho_validate :: "'w doing"
  ho_prepare_candidate :: "'w doing"
  ho_backup :: "release_bundle \<Rightarrow> 'w \<Rightarrow> (exn + mapping) \<times> 'w"
  ho_migrate :: "'w doing"
  ho_candidate_health :: "'w doing"
  ho_switch_traffic :: "'w doing"
  ho_replace_workers :: "'w doing"
  ho_stabilize :: "release_bundle \<Rightarrow> 'w \<Rightarrow> (exn + mapping) \<times> 'w"
  ho_stabilization_evidence :: "'w \<Rightarrow> (exn + mapping option) \<times> 'w"
  ho_promote_web :: "'w doing"
  ho_finalize :: "'w doing"
  ho_complete_plan :: "('w \<Rightarrow> (exn + unit) \<times> 'w) option"
  ho_cleanup_success :: "release_bundle \<Rightarrow> 'w \<Rightarrow> (exn + string) \<times> 'w"
  ho_rollback :: "release_bundle \<Rightarrow> string option \<Rightarrow> 'w \<Rightarrow> (exn + string) \<times> 'w"
  ho_signal :: "'w \<Rightarrow> string option \<times> 'w"
  ho_guard :: "'w \<Rightarrow> bool \<times> 'w"
  ho_clock :: "'w \<Rightarrow> string \<times> 'w"
  ho_fault :: "write_step \<Rightarrow> 'w \<Rightarrow> exn option \<times> 'w"
  ho_patterns :: "(string \<Rightarrow> string) list"

text \<open>
  The engine's state: the record the journal object holds, the disk, whether the
  guard is armed, the world, and a trace of what was called and what became durable.
\<close>

datatype event = Called operation | Installed document

record 'w machine =
  mc_record :: journal
  mc_disk :: disk
  mc_armed :: bool
  mc_trace :: "event list"
  mc_world :: 'w

type_synonym ('w, 'a) run = "('w machine, 'a) act"

section \<open>Signals, clock, backend calls\<close>

definition interrupted :: "string \<Rightarrow> exn" where
  "interrupted name =
     deployment_error (''Deployment interrupted by '' @ name @ ''; automatic rollback is required'')"

text \<open>\<open>_handle\<close> at a point where a signal may be delivered.\<close>

definition checkpoint :: "'w host \<Rightarrow> ('w, unit) run" where
  "checkpoint h = (\<lambda>m.
     if \<not> mc_armed m then (Inr (), m)
     else case ho_signal h (mc_world m) of
            (None, w) \<Rightarrow> (Inr (), m\<lparr>mc_world := w\<rparr>)
          | (Some name, w) \<Rightarrow> (Inl (interrupted name), m\<lparr>mc_armed := False, mc_world := w\<rparr>))"

definition protect_recovery :: "('w, unit) run" where
  "protect_recovery = change (\<lambda>m. m\<lparr>mc_armed := False\<rparr>)"

definition guard_enter :: "'w host \<Rightarrow> ('w, unit) run" where
  "guard_enter h = (\<lambda>m. case ho_guard h (mc_world m) of
     (True, w) \<Rightarrow>
       (Inl (deployment_error ''Could not install the deployment termination-signal guard''),
        m\<lparr>mc_world := w\<rparr>)
   | (False, w) \<Rightarrow> (Inr (), m\<lparr>mc_armed := True, mc_world := w\<rparr>))"

definition guard_exit :: "('w, unit) run" where
  "guard_exit = change (\<lambda>m. m\<lparr>mc_armed := False\<rparr>)"

definition timestamp :: "'w host \<Rightarrow> ('w, string) run" where
  "timestamp h = (\<lambda>m. let (now, w) = ho_clock h (mc_world m) in (Inr now, m\<lparr>mc_world := w\<rparr>))"

definition on_world :: "('w \<Rightarrow> (exn + 'a) \<times> 'w) \<Rightarrow> ('w, 'a) run" where
  "on_world f = (\<lambda>m. let (r, w) = f (mc_world m) in (r, m\<lparr>mc_world := w\<rparr>))"

definition log_event :: "event \<Rightarrow> ('w, unit) run" where
  "log_event ev = change (\<lambda>m. m\<lparr>mc_trace := mc_trace m @ [ev]\<rparr>)"

definition call :: "'w host \<Rightarrow> operation \<Rightarrow> ('w \<Rightarrow> (exn + 'a) \<times> 'w) \<Rightarrow> ('w, 'a) run" where
  "call h op f = seq (checkpoint h) (\<lambda>_. seq (log_event (Called op)) (\<lambda>_. on_world f))"

section \<open>Atomic writes\<close>

definition install :: "document \<Rightarrow> disk \<Rightarrow> disk" where
  "install doc ds = (case doc of
     Attempt j \<Rightarrow> ds\<lparr>ds_attempts := (jr_attempt_id j, j) # ds_attempts ds\<rparr>
   | Current p \<Rightarrow> ds\<lparr>ds_current := Some p\<rparr>)"

definition attempt_on :: "disk \<Rightarrow> string \<Rightarrow> journal option" where
  "attempt_on ds attempt_id = map_of (ds_attempts ds) attempt_id"

definition host_step :: "'w host \<Rightarrow> write_step \<Rightarrow> ('w, unit) run" where
  "host_step h s = seq (checkpoint h) (\<lambda>_ m. case ho_fault h s (mc_world m) of
     (None, w) \<Rightarrow> (Inr (), m\<lparr>mc_world := w\<rparr>) | (Some e, w) \<Rightarrow> (Inl e, m\<lparr>mc_world := w\<rparr>))"

definition temporaries :: "(nat \<Rightarrow> nat) \<Rightarrow> ('w, unit) run" where
  "temporaries f = change (\<lambda>m. m\<lparr>mc_disk := (mc_disk m)\<lparr>ds_temporaries := f (ds_temporaries (mc_disk m))\<rparr>\<rparr>)"

text \<open>\<open>os.replace\<close>: the temporary file becomes the document.\<close>

definition replace :: "document \<Rightarrow> ('w, unit) run" where
  "replace doc = seq (temporaries (\<lambda>n. n - 1)) (\<lambda>_. seq (change (\<lambda>m. m\<lparr>mc_disk := install doc (mc_disk m)\<rparr>))
     (\<lambda>_. log_event (Installed doc)))"

definition write_replaced :: "'w host \<Rightarrow> ('w, unit) run" where
  "write_replaced h =
     seq (host_step h Open_Directory) (\<lambda>_.
       finally_do (host_step h Sync_Directory) (host_step h Close_Directory))"

definition write_temporary :: "'w host \<Rightarrow> ('w, unit) run" where
  "write_temporary h =
     seq (host_step h Set_Mode) (\<lambda>_. seq (host_step h Write_Data) (\<lambda>_. seq (host_step h Sync_Data) (\<lambda>_.
       host_step h Replace)))"

text \<open>
  \<open>unlink(missing_ok=True)\<close> removes the temporary file, if it is still there, before
  the exception is raised again. The handler is entered with the temporary in place
  when the fault came before the replacement, without it afterwards.
\<close>

definition atomic_write :: "'w host \<Rightarrow> document \<Rightarrow> ('w, unit) run" where
  "atomic_write h doc =
     seq (host_step h Make_Parent) (\<lambda>_. seq (host_step h Make_Temporary) (\<lambda>_. seq (temporaries Suc) (\<lambda>_.
       seq (catch (write_temporary h)
              (\<lambda>e. seq (host_step h Unlink_Temporary) (\<lambda>_. seq (temporaries (\<lambda>n. n - 1)) (\<lambda>_. throw e))))
         (\<lambda>_. seq (replace doc)
           (\<lambda>_. catch (write_replaced h) (\<lambda>e. seq (host_step h Unlink_Temporary) (\<lambda>_. throw e)))))))"

section \<open>The journals\<close>

definition save :: "'w host \<Rightarrow> ('w, unit) run" where
  "save h = (\<lambda>m. atomic_write h (Attempt (mc_record m)) m)"

definition on_record :: "(journal \<Rightarrow> journal) \<Rightarrow> ('w, unit) run" where
  "on_record f = change (\<lambda>m. m\<lparr>mc_record := f (mc_record m)\<rparr>)"

text \<open>\<open>_attempt_path\<close> and \<open>__post_init__\<close>.\<close>

definition attempt_path :: "'w host \<Rightarrow> release_bundle \<Rightarrow> ('w, unit) run" where
  "attempt_path h b = seq (host_step h Make_Parent) (\<lambda>_. seq (host_step h Make_Parent) (\<lambda>_ m.
     if attempt_on (mc_disk m) (bu_attempt_id b) \<noteq> None
     then (Inl (deployment_error
             ''This exact GitHub workflow attempt was already received; rerun it to obtain a new attempt identity''), m)
     else (Inr (), m)))"

definition open_journal :: "'w host \<Rightarrow> release_bundle \<Rightarrow> string \<Rightarrow> ('w, unit) run" where
  "open_journal h b operation =
     seq (attempt_path h b) (\<lambda>_. seq (timestamp h) (\<lambda>now.
       seq (on_record (\<lambda>_. base_record now b operation)) (\<lambda>_. save h)))"

definition advance ::
  "'w host \<Rightarrow> string \<Rightarrow> mapping option \<Rightarrow> mapping option \<Rightarrow> ('w, unit) run" where
  "advance h state backup verification = (\<lambda>m.
     case advance_check (ho_patterns h) state verification (mc_record m) of
       Inl e \<Rightarrow> (Inl e, m)
     | Inr checked \<Rightarrow>
         seq (timestamp h) (\<lambda>now. seq (on_record (advanced now state backup checked)) (\<lambda>_. save h)) m)"

definition pointer_of :: "release_bundle \<Rightarrow> journal \<Rightarrow> pointer" where
  "pointer_of b j =
     \<lparr>pt_platform_version = bu_platform_version b, pt_release_commit = bu_release_commit b,
      pt_source_commit = bu_source_commit b, pt_manifest_sha256 = bu_manifest_sha256 b,
      pt_verified_at = jr_updated_at j\<rparr>"

definition succeed :: "'w host \<Rightarrow> release_bundle \<Rightarrow> ('w, unit) run" where
  "succeed h b = (\<lambda>m.
     if jr_state (mc_record m) \<noteq> Some ''verified''
     then (Inl (deployment_error ''A deployment cannot succeed before verification''), m)
     else seq (timestamp h) (\<lambda>now. seq (on_record (succeeded now)) (\<lambda>_. seq (save h)
            (\<lambda>_ m'. atomic_write h (Current (pointer_of b (mc_record m'))) m'))) m)"

definition record_cleanup :: "'w host \<Rightarrow> string \<Rightarrow> bool \<Rightarrow> ('w, unit) run" where
  "record_cleanup h detail passed = (\<lambda>m.
     if jr_result (mc_record m) \<noteq> ''success'' \<or> jr_state (mc_record m) \<noteq> Some ''verified''
     then (Inl (deployment_error ''Post-success cleanup requires a verified deployment''), m)
     else seq (timestamp h) (\<lambda>now. seq (on_record (cleaned (ho_patterns h) now detail passed)) (\<lambda>_. save h)) m)"

definition fail_with :: "'w host \<Rightarrow> exn \<Rightarrow> string \<Rightarrow> bool \<Rightarrow> mapping option \<Rightarrow> ('w, unit) run" where
  "fail_with h e recovery passed verification =
     seq (on_record (failing (ho_patterns h) e recovery passed)) (\<lambda>_.
       case (case verification of None \<Rightarrow> Inr None
             | Some v \<Rightarrow> (case verification_entry (ho_patterns h) v of Inl e' \<Rightarrow> Inl e' | Inr c \<Rightarrow> Inr (Some c))) of
         Inl e' \<Rightarrow> throw e'
       | Inr checked \<Rightarrow> seq (timestamp h) (\<lambda>now. seq (on_record (failed now checked)) (\<lambda>_. save h)))"

definition preflight_succeed :: "'w host \<Rightarrow> string \<Rightarrow> ('w, unit) run" where
  "preflight_succeed h recovery =
     seq (timestamp h) (\<lambda>now. seq (on_record (preflight_succeeded (ho_patterns h) now recovery)) (\<lambda>_. save h))"

definition preflight_fail :: "'w host \<Rightarrow> exn \<Rightarrow> string \<Rightarrow> bool \<Rightarrow> ('w, unit) run" where
  "preflight_fail h e recovery passed =
     seq (on_record (failing (ho_patterns h) e recovery passed)) (\<lambda>_.
       seq (timestamp h) (\<lambda>now. seq (on_record (failed now None)) (\<lambda>_. save h)))"

section \<open>The deployment\<close>

text \<open>The statements under \<open>try\<close>, in their order.\<close>

definition deploy_body :: "'w host \<Rightarrow> release_bundle \<Rightarrow> ('w, unit) run" where
  "deploy_body h b =
     seq (call h Validate (ho_validate h b)) (\<lambda>_.
     seq (advance h ''validated'' None None) (\<lambda>_.
     seq (call h Prepare_Candidate (ho_prepare_candidate h b)) (\<lambda>_.
     seq (advance h ''prepared'' None None) (\<lambda>_.
     seq (call h Backup (ho_backup h b)) (\<lambda>backup.
     seq (advance h ''backed_up'' (Some backup) None) (\<lambda>_.
     seq (call h Migrate (ho_migrate h b)) (\<lambda>_.
     seq (advance h ''migrated'' None None) (\<lambda>_.
     seq (call h Candidate_Health (ho_candidate_health h b)) (\<lambda>_.
     seq (advance h ''candidate_healthy'' None None) (\<lambda>_.
     seq (call h Switch_Traffic (ho_switch_traffic h b)) (\<lambda>_.
     seq (advance h ''traffic_switched'' None None) (\<lambda>_.
     seq (call h Replace_Workers (ho_replace_workers h b)) (\<lambda>_.
     seq (advance h ''workers_replaced'' None None) (\<lambda>_.
     seq (call h Stabilize (ho_stabilize h b)) (\<lambda>verification.
     seq (advance h ''stabilized'' None (Some verification)) (\<lambda>_.
     seq (call h Promote_Web (ho_promote_web h b)) (\<lambda>_.
     seq (advance h ''web_promoted'' None None) (\<lambda>_.
     seq (call h Finalize (ho_finalize h b)) (\<lambda>_.
     seq (advance h ''verified'' None None) (\<lambda>_.
     seq protect_recovery (\<lambda>_.
     seq (succeed h b) (\<lambda>_.
     case ho_complete_plan h of
       None \<Rightarrow> give ()
     | Some complete_plan \<Rightarrow>
         catch (call h Complete_Recovery_Plan complete_plan) (\<lambda>_. give ())))))))))))))))))))))))"

definition also_failed :: "string \<Rightarrow> (string \<Rightarrow> string) list \<Rightarrow> exn \<Rightarrow> string" where
  "also_failed message patterns e =
     message @ '' ('' @ ex_class e @ '': '' @ fst (failure_fields patterns e) @ '').''"

definition attempt_rollback ::
  "'w host \<Rightarrow> release_bundle \<Rightarrow> string option \<Rightarrow> string \<Rightarrow> ('w, string \<times> bool) run" where
  "attempt_rollback h b state message =
     catch (seq (call h (Rollback state) (ho_rollback h b state)) (\<lambda>recovery. give (recovery, True)))
       (\<lambda>e. give (also_failed message (ho_patterns h) e, False))"

definition reraise :: "string \<Rightarrow> exn \<Rightarrow> ('w, 'a) run" where
  "reraise prefix e = throw (if ex_deployment e then e else deployment_error (prefix @ ex_text e))"

text \<open>The \<open>except\<close> block.\<close>

definition deploy_recover :: "'w host \<Rightarrow> release_bundle \<Rightarrow> exn \<Rightarrow> ('w, unit) run" where
  "deploy_recover h b e =
     seq protect_recovery (\<lambda>_.
     seq (\<lambda>m. attempt_rollback h b (jr_state (mc_record m))
            ''Automatic code rollback also failed; keep the database backup and inspect the host locally'' m)
       (\<lambda>(recovery, passed).
     seq (call h Stabilization_Evidence (ho_stabilization_evidence h)) (\<lambda>verification.
     seq (fail_with h e recovery passed verification) (\<lambda>_.
     reraise ''Deployment failed: '' e))))"

definition deploy_tidy :: "'w host \<Rightarrow> release_bundle \<Rightarrow> ('w, unit) run" where
  "deploy_tidy h b =
     seq protect_recovery (\<lambda>_.
     catch (seq (call h Cleanup_Success (ho_cleanup_success h b)) (\<lambda>cleanup. record_cleanup h cleanup True))
       (\<lambda>e. catch (record_cleanup h
                (''Post-success web-slot cleanup failed; retained rollback images and any remaining slots (''
                 @ fst (failure_fields (ho_patterns h) e) @ '').'') False)
              (\<lambda>_. give ())))"

definition with_guard :: "'w host \<Rightarrow> ('w, unit) run \<Rightarrow> ('w, unit) run" where
  "with_guard h f = seq (guard_enter h) (\<lambda>_. finally_do f guard_exit)"

definition deploy_guarded :: "'w host \<Rightarrow> release_bundle \<Rightarrow> ('w, unit) run" where
  "deploy_guarded h b = (\<lambda>m. case deploy_body h b m of
     (Inl e, m') \<Rightarrow> deploy_recover h b e m' | (Inr _, m') \<Rightarrow> deploy_tidy h b m')"

definition deploy_run :: "'w host \<Rightarrow> release_bundle \<Rightarrow> ('w, unit) run" where
  "deploy_run h b = with_guard h (deploy_guarded h b)"

section \<open>The preflight\<close>

definition preflight_message :: string where
  "preflight_message = ''Candidate preflight cleanup also failed; production containers were not intentionally restarted''"

definition preflight_recover :: "'w host \<Rightarrow> release_bundle \<Rightarrow> exn \<Rightarrow> ('w, unit) run" where
  "preflight_recover h b e =
     seq protect_recovery (\<lambda>_.
     seq (attempt_rollback h b (Some ''validated'') preflight_message) (\<lambda>(recovery, passed).
     seq (preflight_fail h e recovery passed) (\<lambda>_. reraise ''Candidate preflight failed: '' e)))"

definition preflight_restore :: "'w host \<Rightarrow> release_bundle \<Rightarrow> ('w, unit) run" where
  "preflight_restore h b =
     seq protect_recovery (\<lambda>_ m.
     case call h (Rollback (Some ''validated'')) (ho_rollback h b (Some ''validated'')) m of
       (Inl e, m') \<Rightarrow>
         seq (preflight_fail h e
                ''Candidate checks passed but restoring the previous build target failed; production containers were not intentionally restarted.''
                False)
           (\<lambda>_. reraise ''Candidate preflight cleanup failed: '' e) m'
     | (Inr recovery, m') \<Rightarrow> preflight_succeed h recovery m')"

definition preflight_guarded :: "'w host \<Rightarrow> release_bundle \<Rightarrow> ('w, unit) run" where
  "preflight_guarded h b = (\<lambda>m.
     case seq (call h Validate (ho_validate h b)) (\<lambda>_. call h Prepare_Candidate (ho_prepare_candidate h b)) m of
       (Inl e, m') \<Rightarrow> preflight_recover h b e m' | (Inr _, m') \<Rightarrow> preflight_restore h b m')"

definition preflight_run :: "'w host \<Rightarrow> release_bundle \<Rightarrow> ('w, unit) run" where
  "preflight_run h b = with_guard h (preflight_guarded h b)"

end
