(* ===== verification/Deploy_Frames.thy ===== *)
theory Deploy_Frames
  imports Deploy_Engine
begin

text \<open>
  What the engine's statements do to its state, whatever the host answers: which
  parts of the machine a statement leaves alone, what it adds to the trace, and how
  an atomic write can end.
\<close>

section \<open>Frames\<close>

text \<open>Only the world moves, and the guard may be disarmed.\<close>

definition quiet :: "'w machine \<Rightarrow> 'w machine \<Rightarrow> bool" where
  "quiet m m' \<longleftrightarrow> mc_record m' = mc_record m \<and> mc_disk m' = mc_disk m \<and> mc_trace m' = mc_trace m
     \<and> (mc_armed m' \<longrightarrow> mc_armed m)"

lemma quiet_refl [simp]: "quiet m m"
  by (simp add: quiet_def)

lemma quiet_order [simp]: "reflp quiet" "transp quiet"
  by (auto simp: quiet_def intro: reflpI transpI)

lemma quietD:
  assumes "quiet m m'"
  shows "mc_record m' = mc_record m" "mc_disk m' = mc_disk m" "mc_trace m' = mc_trace m"
    "mc_armed m' \<Longrightarrow> mc_armed m"
  using assms by (simp_all add: quiet_def)

lemma checkpoint_quiet: "moves quiet (checkpoint h)"
  by (rule movesI) (auto simp: checkpoint_def quiet_def split: if_splits option.splits prod.splits)

lemma checkpoint_disarmed [simp]: "\<not> mc_armed m \<Longrightarrow> checkpoint h m = (Inr (), m)"
  by (simp add: checkpoint_def)

lemma checkpoint_Inl:
  "checkpoint h m = (Inl e, m') \<Longrightarrow> mc_armed m \<and> \<not> mc_armed m' \<and> (\<exists>name. e = interrupted name)"
  by (auto simp: checkpoint_def split: if_splits option.splits prod.splits)

lemma timestamp_eq:
  "\<exists>w. timestamp h m = (Inr (fst (ho_clock h (mc_world m))), m\<lparr>mc_world := w\<rparr>)"
  by (auto simp: timestamp_def split: prod.split)

lemma host_step_quiet: "moves quiet (host_step h s)"
proof -
  have "moves quiet (\<lambda>m. case ho_fault h s (mc_world m) of
     (None, w) \<Rightarrow> (Inr (), m\<lparr>mc_world := w\<rparr>) | (Some e, w) \<Rightarrow> (Inl e, m\<lparr>mc_world := w\<rparr>))"
    by (rule movesI) (auto simp: quiet_def split: prod.splits option.splits)
  then show ?thesis
    unfolding host_step_def by (intro moves_seq checkpoint_quiet) simp_all
qed

lemma write_temporary_quiet: "moves quiet (write_temporary h)"
  unfolding write_temporary_def by (intro moves_seq host_step_quiet quiet_order)

lemma write_replaced_quiet: "moves quiet (write_replaced h)"
  unfolding write_replaced_def by (intro moves_seq moves_finally host_step_quiet quiet_order)

section \<open>Atomic writes\<close>

text \<open>The document is installed; nothing else of the machine has changed.\<close>

definition installed :: "document \<Rightarrow> 'w machine \<Rightarrow> 'w machine \<Rightarrow> bool" where
  "installed doc m m' \<longleftrightarrow> mc_record m' = mc_record m \<and> mc_disk m' = install doc (mc_disk m)
     \<and> mc_trace m' = mc_trace m @ [Installed doc] \<and> (mc_armed m' \<longrightarrow> mc_armed m)"

text \<open>Nothing is installed; a temporary file may have been left behind.\<close>

definition abandoned :: "'w machine \<Rightarrow> 'w machine \<Rightarrow> bool" where
  "abandoned m m' \<longleftrightarrow> mc_record m' = mc_record m \<and> mc_trace m' = mc_trace m
     \<and> ds_attempts (mc_disk m') = ds_attempts (mc_disk m) \<and> ds_current (mc_disk m') = ds_current (mc_disk m)
     \<and> ds_temporaries (mc_disk m') \<le> Suc (ds_temporaries (mc_disk m))
     \<and> (mc_armed m' \<longrightarrow> mc_armed m)"

lemma install_temporaries:
  "install doc (ds\<lparr>ds_temporaries := n\<rparr>) = (install doc ds)\<lparr>ds_temporaries := n\<rparr>"
  "ds_temporaries (install doc ds) = ds_temporaries ds"
  by (cases doc; simp add: install_def)+

lemma temporaries_simp: "temporaries f m =
    (Inr (), m\<lparr>mc_disk := (mc_disk m)\<lparr>ds_temporaries := f (ds_temporaries (mc_disk m))\<rparr>\<rparr>)"
  by (simp add: temporaries_def)

lemma replace_simp: "replace doc m =
    (Inr (), m\<lparr>mc_disk := install doc ((mc_disk m)\<lparr>ds_temporaries := ds_temporaries (mc_disk m) - 1\<rparr>),
              mc_trace := mc_trace m @ [Installed doc]\<rparr>)"
  by (simp add: replace_def seq_def temporaries_def log_event_def)

lemma raised_again:
  assumes "seq (host_step h s) (\<lambda>_. throw e) m = (r, m')"
  shows "quiet m m'" and "\<exists>e'. r = Inl e'"
  using assms by (auto elim!: seq_cases dest: movesD [OF host_step_quiet])

lemma quiet_abandoned: "quiet m m' \<Longrightarrow> abandoned m m'"
  by (simp add: quiet_def abandoned_def)

lemma discarded:
  assumes "seq (host_step h s) (\<lambda>_. seq (temporaries (\<lambda>n. n - 1)) (\<lambda>_. throw e)) m = (r, m')"
  shows "mc_record m' = mc_record m" "mc_trace m' = mc_trace m" "mc_armed m' \<longrightarrow> mc_armed m"
    "ds_attempts (mc_disk m') = ds_attempts (mc_disk m)" "ds_current (mc_disk m') = ds_current (mc_disk m)"
    "ds_temporaries (mc_disk m') \<le> ds_temporaries (mc_disk m)" "\<exists>e'. r = Inl e'"
proof -
  consider (refused) e' where "host_step h s m = (Inl e', m')" "r = Inl e'"
    | (removed) m1 where "host_step h s m = (Inr (), m1)" "r = Inl e"
        "m' = m1\<lparr>mc_disk := (mc_disk m1)\<lparr>ds_temporaries := ds_temporaries (mc_disk m1) - 1\<rparr>\<rparr>"
    using assms by (elim seq_cases) (auto simp: temporaries_simp)
  then have "mc_record m' = mc_record m \<and> mc_trace m' = mc_trace m \<and> (mc_armed m' \<longrightarrow> mc_armed m)
    \<and> ds_attempts (mc_disk m') = ds_attempts (mc_disk m) \<and> ds_current (mc_disk m') = ds_current (mc_disk m)
    \<and> ds_temporaries (mc_disk m') \<le> ds_temporaries (mc_disk m) \<and> (\<exists>e'. r = Inl e')"
  proof cases
    case refused
    then show ?thesis
      using movesD [OF host_step_quiet refused(1)] by (simp add: quiet_def)
  next
    case removed
    then show ?thesis
      using movesD [OF host_step_quiet removed(1)] by (simp add: quiet_def)
  qed
  then show "mc_record m' = mc_record m" "mc_trace m' = mc_trace m" "mc_armed m' \<longrightarrow> mc_armed m"
    "ds_attempts (mc_disk m') = ds_attempts (mc_disk m)" "ds_current (mc_disk m') = ds_current (mc_disk m)"
    "ds_temporaries (mc_disk m') \<le> ds_temporaries (mc_disk m)" "\<exists>e'. r = Inl e'"
    by blast+
qed

lemma atomic_write_outcome:
  assumes "atomic_write h doc m = (r, m')"
  shows "installed doc m m' \<or> abandoned m m' \<and> (\<exists>e. r = Inl e)"
  using assms unfolding atomic_write_def
proof (cases rule: seq_cases)
  case (first e)
  then show ?thesis
    using movesD [OF host_step_quiet] quiet_abandoned by blast
next
  case (both _ m1)
  note parent = movesD [OF host_step_quiet both(1)]
  from both(2) show ?thesis
  proof (cases rule: seq_cases)
    case (first e)
    have "quiet m m'"
      using parent movesD [OF host_step_quiet first(1)] quiet_order(2) transpD by metis
    with first(2) show ?thesis
      using quiet_abandoned by blast
  next
    case (both _ m2)
    have q: "quiet m m2"
      using parent movesD [OF host_step_quiet both(1)] quiet_order(2) transpD by metis
    let ?m3 = "m2\<lparr>mc_disk := (mc_disk m2)\<lparr>ds_temporaries := Suc (ds_temporaries (mc_disk m2))\<rparr>\<rparr>"
    from both(2) have "seq (catch (write_temporary h)
              (\<lambda>e. seq (host_step h Unlink_Temporary) (\<lambda>_. seq (temporaries (\<lambda>n. n - 1)) (\<lambda>_. throw e))))
         (\<lambda>_. seq (replace doc)
           (\<lambda>_. catch (write_replaced h) (\<lambda>e. seq (host_step h Unlink_Temporary) (\<lambda>_. throw e)))) ?m3 = (r, m')"
      by (simp add: seq_def [of "temporaries Suc"] temporaries_simp)
    then show ?thesis
    proof (cases rule: seq_cases)
      case (first e)
      from first(1) obtain e0 m4 where m4: "write_temporary h ?m3 = (Inl e0, m4)"
        and d: "seq (host_step h Unlink_Temporary) (\<lambda>_. seq (temporaries (\<lambda>n. n - 1)) (\<lambda>_. throw e0)) m4 = (Inl e :: exn + unit, m')"
        by (cases rule: catch_cases) blast+
      have "abandoned m m'"
        using movesD [OF write_temporary_quiet m4] discarded [OF d] q
        by (auto simp: quiet_def abandoned_def)
      with first(2) show ?thesis by blast
    next
      case (both x m5)
      from both(1) have "write_temporary h ?m3 = (Inr x, m5)"
        using discarded(7) by (cases rule: catch_cases) fastforce+
      then have m5: "quiet ?m3 m5"
        by (rule movesD [OF write_temporary_quiet])
      let ?m6 = "m5\<lparr>mc_disk := install doc ((mc_disk m5)\<lparr>ds_temporaries := ds_temporaries (mc_disk m5) - 1\<rparr>),
              mc_trace := mc_trace m5 @ [Installed doc]\<rparr>"
      from both(2) have "catch (write_replaced h) (\<lambda>e. seq (host_step h Unlink_Temporary) (\<lambda>_. throw e)) ?m6 = (r, m')"
        by (simp add: seq_def [of "replace doc"] replace_simp)
      then have "quiet ?m6 m'"
      proof (cases rule: catch_cases)
        case (quiet x)
        show ?thesis using movesD [OF write_replaced_quiet quiet(1)] .
      next
        case (handled e m7)
        then show ?thesis
          using movesD [OF write_replaced_quiet handled(1)] raised_again(1) [OF handled(2)]
            quiet_order(2) transpD by metis
      qed
      moreover have "mc_disk ?m6 = install doc (mc_disk m)"
        using m5 q by (simp add: quiet_def)
      ultimately have "installed doc m m'"
        using m5 q by (auto simp: installed_def quiet_def)
      then show ?thesis ..
    qed
  qed
qed

lemma atomic_write_Inr: "atomic_write h doc m = (Inr u, m') \<Longrightarrow> installed doc m m'"
  using atomic_write_outcome by blast

section \<open>What is durable\<close>

text \<open>The files a trace of events leaves, from those there were.\<close>

fun replay :: "event list \<Rightarrow> disk \<Rightarrow> disk" where
  "replay [] ds = ds"
| "replay (Called op # es) ds = replay es ds"
| "replay (Installed doc # es) ds = replay es (install doc ds)"

definition same_files :: "disk \<Rightarrow> disk \<Rightarrow> bool" where
  "same_files ds ds' \<longleftrightarrow> ds_attempts ds' = ds_attempts ds \<and> ds_current ds' = ds_current ds"

definition durable :: "'w machine \<Rightarrow> 'w machine \<Rightarrow> bool" where
  "durable m m' \<longleftrightarrow> (\<exists>es. mc_trace m' = mc_trace m @ es \<and> same_files (replay es (mc_disk m)) (mc_disk m'))
     \<and> (mc_armed m' \<longrightarrow> mc_armed m)"

lemma replay_append: "replay (es @ fs) ds = replay fs (replay es ds)"
  by (induction es ds rule: replay.induct) auto

lemma same_files_install: "same_files ds ds' \<Longrightarrow> same_files (install doc ds) (install doc ds')"
  by (auto simp: same_files_def install_def split: document.split)

lemma same_files_replay: "same_files ds ds' \<Longrightarrow> same_files (replay es ds) (replay es ds')"
proof (induction es ds arbitrary: ds' rule: replay.induct)
  case (3 doc es ds)
  then show ?case by (simp add: same_files_install)
qed auto

lemma same_files_trans: "same_files x y \<Longrightarrow> same_files y z \<Longrightarrow> same_files x z"
  by (simp add: same_files_def)

lemma durable_refl [simp]: "reflp durable"
  by (auto intro!: reflpI exI [of _ "[]"] simp: durable_def same_files_def)

lemma durable_trans [simp]: "transp durable"
proof (rule transpI)
  fix x y z :: "'w machine"
  assume "durable x y" and "durable y z"
  then obtain es fs where "mc_trace y = mc_trace x @ es" "same_files (replay es (mc_disk x)) (mc_disk y)"
    "mc_trace z = mc_trace y @ fs" "same_files (replay fs (mc_disk y)) (mc_disk z)"
    "mc_armed z \<longrightarrow> mc_armed x"
    by (auto simp: durable_def)
  then show "durable x z"
    unfolding durable_def
    by (intro conjI exI [of _ "es @ fs"])
      (auto simp: replay_append intro: same_files_trans same_files_replay)
qed

lemma quiet_durable: "quiet m m' \<Longrightarrow> durable m m'"
  by (auto simp: quiet_def durable_def same_files_def intro!: exI [of _ "[]"])

lemma installed_durable: "installed doc m m' \<Longrightarrow> durable m m'"
  by (auto simp: installed_def durable_def same_files_def intro!: exI [of _ "[Installed doc]"])

lemma abandoned_durable: "abandoned m m' \<Longrightarrow> durable m m'"
  by (auto simp: abandoned_def durable_def same_files_def intro!: exI [of _ "[]"])

named_theorems durable_acts \<open>statements that change the disk only as the trace says\<close>

lemma durable_atomic_write [durable_acts]: "moves durable (atomic_write h doc)"
  using atomic_write_outcome installed_durable abandoned_durable by (intro movesI) blast

lemma durable_save [durable_acts]: "moves durable (save h)"
  unfolding save_def using movesD [OF durable_atomic_write] by (intro movesI) blast

lemma durable_checkpoint [durable_acts]: "moves durable (checkpoint h)"
  by (rule movesI) (blast intro: quiet_durable movesD [OF checkpoint_quiet])

lemma durable_host_step [durable_acts]: "moves durable (host_step h s)"
  by (rule movesI) (blast intro: quiet_durable movesD [OF host_step_quiet])

lemma durable_simple [durable_acts]:
  "moves durable (timestamp h)" "moves durable (on_world f)" "moves durable protect_recovery"
  "moves durable (on_record g)" "moves durable (log_event (Called op))" "moves durable guard_exit"
  by (rule movesI; force simp: timestamp_def on_world_def protect_recovery_def on_record_def log_event_def
      guard_exit_def durable_def same_files_def split: prod.splits)+

lemma durable_give [durable_acts]: "moves durable (give x)" "moves durable (throw e)"
  by (simp_all add: moves_give moves_throw)

lemma durable_compose [durable_acts]:
  "moves durable f \<Longrightarrow> (\<And>x. moves durable (g x)) \<Longrightarrow> moves durable (seq f g)"
  "moves durable f \<Longrightarrow> (\<And>e. moves durable (k e)) \<Longrightarrow> moves durable (catch f k)"
  "moves durable f \<Longrightarrow> moves durable l \<Longrightarrow> moves durable (finally_do f l)"
  by (auto intro: moves_seq moves_catch moves_finally)

lemma durable_call [durable_acts]: "moves durable (call h op f)"
  unfolding call_def by (intro durable_acts)

lemma durable_dependent:
  "(\<And>m. moves durable (f m)) \<Longrightarrow> moves durable (\<lambda>m. f m m)"
  by (auto simp: moves_def)

lemma durable_advance [durable_acts]: "moves durable (advance h state backup verification)"
proof -
  have "moves durable (\<lambda>m'. case advance_check (ho_patterns h) state verification (mc_record m) of
      Inl e \<Rightarrow> (Inl e, m')
    | Inr checked \<Rightarrow> seq (timestamp h) (\<lambda>now. seq (on_record (advanced now state backup checked)) (\<lambda>_. save h)) m')" for m
  proof (cases "advance_check (ho_patterns h) state verification (mc_record m)")
    case (Inl e)
    then show ?thesis using durable_give(2) [of e] by (simp add: throw_def)
  next
    case (Inr c)
    then show ?thesis by simp (intro durable_acts)
  qed
  from durable_dependent [OF this] show ?thesis
    by (simp add: advance_def)
qed

lemma durable_if [durable_acts]:
  "moves durable f \<Longrightarrow> moves durable g \<Longrightarrow> moves durable (\<lambda>m'. if b then f m' else g m')"
  by (simp add: moves_def)

lemma durable_raise [durable_acts]: "moves durable (\<lambda>m. (Inl e, m))"
  using durable_give(2) [of e] by (simp add: throw_def)

lemma durable_succeed [durable_acts]: "moves durable (succeed h b)"
proof -
  have w: "moves durable (\<lambda>m'. atomic_write h (Current (pointer_of b (mc_record m'))) m')"
    by (rule durable_dependent [where f = "\<lambda>m. atomic_write h (Current (pointer_of b (mc_record m)))"])
      (rule durable_acts)
  have "moves durable (\<lambda>m'. if jr_state (mc_record m) \<noteq> Some ''verified''
     then (Inl (deployment_error ''A deployment cannot succeed before verification''), m')
     else seq (timestamp h) (\<lambda>now. seq (on_record (succeeded now)) (\<lambda>_. seq (save h)
            (\<lambda>_ m'. atomic_write h (Current (pointer_of b (mc_record m'))) m'))) m')" for m
    by (intro durable_acts w)
  from durable_dependent [OF this] show ?thesis
    by (simp add: succeed_def)
qed

lemma durable_record_cleanup [durable_acts]: "moves durable (record_cleanup h detail passed)"
proof -
  have "moves durable (\<lambda>m'. if jr_result (mc_record m) \<noteq> ''success'' \<or> jr_state (mc_record m) \<noteq> Some ''verified''
     then (Inl (deployment_error ''Post-success cleanup requires a verified deployment''), m')
     else seq (timestamp h) (\<lambda>now. seq (on_record (cleaned (ho_patterns h) now detail passed)) (\<lambda>_. save h)) m')" for m
    by (intro durable_acts)
  from durable_dependent [OF this] show ?thesis
    by (simp add: record_cleanup_def)
qed

lemma durable_fail_with [durable_acts]: "moves durable (fail_with h e recovery passed verification)"
  unfolding fail_with_def by (intro durable_acts) (auto split: sum.splits option.splits intro!: durable_acts)

lemma durable_attempt_rollback [durable_acts]: "moves durable (attempt_rollback h b state message)"
  unfolding attempt_rollback_def by (intro durable_acts)

lemma durable_reraise [durable_acts]: "moves durable (reraise prefix e)"
  unfolding reraise_def by (rule durable_acts)

lemma durable_body: "moves durable (deploy_body h b)"
proof -
  have "moves durable (case ho_complete_plan h of None \<Rightarrow> give ()
     | Some complete_plan \<Rightarrow> catch (call h Complete_Recovery_Plan complete_plan) (\<lambda>_. give ()))"
    by (cases "ho_complete_plan h") (auto intro!: durable_acts)
  then show ?thesis
    unfolding deploy_body_def by (intro durable_acts)
qed

lemma durable_recover: "moves durable (deploy_recover h b e)"
proof -
  have "moves durable (\<lambda>m. attempt_rollback h b (jr_state (mc_record m)) message m)" for message
    by (rule durable_dependent) (rule durable_acts)
  then show ?thesis
    unfolding deploy_recover_def by (intro durable_acts) (auto split: prod.split intro!: durable_acts)
qed

lemma durable_tidy: "moves durable (deploy_tidy h b)"
  unfolding deploy_tidy_def by (intro durable_acts)

lemma durable_guarded: "moves durable (deploy_guarded h b)"
proof (rule movesI)
  fix m m' :: "'a machine" and r
  assume "deploy_guarded h b m = (r, m')"
  then show "durable m m'"
    by (auto simp: deploy_guarded_def split: prod.splits sum.splits
        dest!: movesD [OF durable_body] movesD [OF durable_recover] movesD [OF durable_tidy]
        elim: transpD [OF durable_trans])
qed

end
