(* ===== verification/Deploy_Protocol.thy ===== *)
theory Deploy_Protocol
  imports Deploy_Frames
begin

text \<open>
  The protocol a deployment keeps with its host, as a step relation on phases, and the
  proof that the engine refines it: whatever the backend answers, whatever signal or
  fault of the disk arrives, the events of a run are a path of the protocol. What the
  protocol promises (order, durability before the next operation, one rollback) is
  proved once by rule induction.
\<close>

section \<open>The protocol\<close>

definition forward :: "operation list" where
  "forward = [Validate, Prepare_Candidate, Backup, Migrate, Candidate_Health, Switch_Traffic,
     Replace_Workers, Stabilize, Promote_Web, Finalize]"

lemma length_forward [simp]: "length forward = 10"
  by (simp add: forward_def)

definition state_name :: "nat \<Rightarrow> string option" where
  "state_name n = (if n = 0 then None else Some (DEPLOYMENT_STATES ! (n - 1)))"

datatype phase =
  Ready nat | Calling nat | Publishing | Committed | Planned | Tidying | Restoring | Explained | Closed

text \<open>The state a rollback is told: the last one in the journal's memory.\<close>

fun may_undo :: "phase \<Rightarrow> string option \<Rightarrow> bool" where
  "may_undo (Ready n) s = (s = state_name n)"
| "may_undo (Calling n) s = (s = state_name n \<or> s = state_name (Suc n))"
| "may_undo Publishing s = (s = state_name 10)"
| "may_undo Committed s = (s = state_name 10)"
| "may_undo p s = False"

inductive engine_step :: "journal \<Rightarrow> phase \<Rightarrow> event \<Rightarrow> phase \<Rightarrow> bool" for b :: journal where
  start: "n < 10 \<Longrightarrow> engine_step b (Ready n) (Called (forward ! n)) (Calling n)"
| recorded: "n < 10 \<Longrightarrow> at_state (Suc n) j \<Longrightarrow> jr_result j = ''running'' \<Longrightarrow> older b j \<Longrightarrow>
    engine_step b (Calling n) (Installed (Attempt j)) (Ready (Suc n))"
| success: "at_state 10 j \<Longrightarrow> jr_result j = ''success'' \<Longrightarrow> older b j \<Longrightarrow>
    engine_step b (Ready 10) (Installed (Attempt j)) Publishing"
| publish: "pt_release_commit p = jr_release_commit b \<Longrightarrow> pt_manifest_sha256 p = jr_manifest_sha256 b \<Longrightarrow>
    engine_step b Publishing (Installed (Current p)) Committed"
| plan: "engine_step b Committed (Called Complete_Recovery_Plan) Planned"
| tidy: "p = Committed \<or> p = Planned \<Longrightarrow> engine_step b p (Called Cleanup_Success) Tidying"
| cleanup: "at_state 10 j \<Longrightarrow> jr_result j = ''success'' \<Longrightarrow> older b j \<Longrightarrow> jr_cleanup j \<noteq> None \<Longrightarrow>
    engine_step b Tidying (Installed (Attempt j)) Tidying"
| undo: "may_undo p s \<Longrightarrow> engine_step b p (Called (Rollback s)) Restoring"
| explain: "engine_step b Restoring (Called Stabilization_Evidence) Explained"
| failure: "jr_result j = ''failed'' \<Longrightarrow> older b j \<Longrightarrow>
    engine_step b Explained (Installed (Attempt j)) Closed"

inductive_cases engine_stepE: "engine_step b p ev q"
inductive_cases engine_calledE: "engine_step b p (Called op) q"
inductive_cases engine_installedE: "engine_step b p (Installed doc) q"
inductive_simps engine_closed: "engine_step b Closed ev q"

inductive follows :: "journal \<Rightarrow> phase \<Rightarrow> event list \<Rightarrow> phase \<Rightarrow> bool" for b :: journal and p :: phase where
  none: "follows b p [] p"
| more: "follows b p es q \<Longrightarrow> engine_step b q ev r \<Longrightarrow> follows b p (es @ [ev]) r"

definition engaged :: "journal \<Rightarrow> event list \<Rightarrow> phase \<Rightarrow> 'w machine \<Rightarrow> bool" where
  "engaged b t p m \<longleftrightarrow> (\<exists>es. mc_trace m = t @ es \<and> follows b (Ready 0) es p)"

lemma engaged_quiet: "engaged b t p m \<Longrightarrow> mc_trace m' = mc_trace m \<Longrightarrow> engaged b t p m'"
  by (simp add: engaged_def)

lemma engaged_more:
  assumes "engaged b t p m" and "mc_trace m' = mc_trace m @ [ev]" and "engine_step b p ev q"
  shows "engaged b t q m'"
  using assms unfolding engaged_def by (metis append.assoc follows.more)

section \<open>Backend calls and advances\<close>

lemma call_outcome:
  assumes "call h op f m = (r, m')"
  shows "mc_armed m \<and> quiet m m' \<and> (\<exists>e. r = Inl e)
    \<or> mc_record m' = mc_record m \<and> mc_disk m' = mc_disk m \<and> mc_trace m' = mc_trace m @ [Called op]
      \<and> (mc_armed m' \<longrightarrow> mc_armed m) \<and> (\<exists>w. r = fst (f w) \<and> (\<not> mc_armed m \<longrightarrow> w = mc_world m))"
  using assms unfolding call_def
proof (cases rule: seq_cases)
  case (first e)
  then show ?thesis
    using movesD [OF checkpoint_quiet first(1)] checkpoint_Inl [OF first(1)] by blast
next
  case (both x m1)
  have q: "quiet m m1" and w: "\<not> mc_armed m \<longrightarrow> m1 = m"
    using movesD [OF checkpoint_quiet both(1)] both(1) by auto
  from both(2) obtain w where "r = fst (f (mc_world m1))" "m' = m1\<lparr>mc_trace := mc_trace m1 @ [Called op], mc_world := w\<rparr>"
    by (auto simp: seq_def log_event_def on_world_def split: prod.splits)
  then show ?thesis
    using q w by (auto simp: quiet_def)
qed

definition running :: "journal \<Rightarrow> nat \<Rightarrow> journal \<Rightarrow> bool" where
  "running b n j \<longleftrightarrow> at_state n j \<and> journal_ok j \<and> jr_result j = ''running'' \<and> older b j"

definition undoable :: "journal \<Rightarrow> event list \<Rightarrow> 'w machine \<Rightarrow> bool" where
  "undoable b t m \<longleftrightarrow> (\<exists>p. engaged b t p m \<and> may_undo p (jr_state (mc_record m)))
     \<and> journal_ok (mc_record m) \<and> older b (mc_record m)"

lemma at_state_name: "at_state n j \<Longrightarrow> jr_state j = state_name n"
  by (simp add: at_state_def state_name_def)

lemma running_undoable:
  assumes "running b n (mc_record m)" and "engaged b t p m" and "p = Ready n \<or> p = Calling n \<or> (\<exists>k. p = Calling k \<and> n = Suc k)"
  shows "undoable b t m"
  using assms at_state_name by (fastforce simp: undoable_def running_def)

text \<open>A save records the journal of the memory, or leaves the files as they were.\<close>

lemma save_outcome:
  assumes "save h m = (r, m')"
  shows "mc_record m' = mc_record m \<and> (mc_armed m' \<longrightarrow> mc_armed m)
    \<and> (mc_trace m' = mc_trace m @ [Installed (Attempt (mc_record m))] \<or> mc_trace m' = mc_trace m \<and> (\<exists>e. r = Inl e))"
  using atomic_write_outcome [of h _ m r m'] assms
  by (auto simp: save_def installed_def abandoned_def)

lemma stamped_save:
  assumes "seq (timestamp h) (\<lambda>now. seq (on_record (f now)) (\<lambda>_. save h)) m = (r, m')"
  shows "\<exists>now. mc_record m' = f now (mc_record m) \<and> (mc_armed m' \<longrightarrow> mc_armed m)
    \<and> (mc_trace m' = mc_trace m @ [Installed (Attempt (f now (mc_record m)))]
       \<or> mc_trace m' = mc_trace m \<and> (\<exists>e. r = Inl e))"
proof -
  obtain now w where t: "timestamp h m = (Inr now, m\<lparr>mc_world := w\<rparr>)"
    using timestamp_eq [of h m] by blast
  have "save h (m\<lparr>mc_world := w, mc_record := f now (mc_record m)\<rparr>) = (r, m')"
    using assms by (simp add: seq_def t on_record_def)
  from save_outcome [OF this] show ?thesis
    by (intro exI [of _ now]) simp
qed

lemma advance_outcome:
  assumes run: "running b n (mc_record m)" and eng: "engaged b t (Calling n) m" and "n < 10"
    and adv: "advance h (DEPLOYMENT_STATES ! n) backup verification m = (r, m')"
  shows "undoable b t m'" and "r = Inr () \<Longrightarrow> running b (Suc n) (mc_record m') \<and> engaged b t (Ready (Suc n)) m'"
    and "mc_armed m' \<longrightarrow> mc_armed m"
proof -
  have *: "undoable b t m' \<and> (r = Inr () \<longrightarrow> running b (Suc n) (mc_record m') \<and> engaged b t (Ready (Suc n)) m')
    \<and> (mc_armed m' \<longrightarrow> mc_armed m)"
  proof (cases "advance_check (ho_patterns h) (DEPLOYMENT_STATES ! n) verification (mc_record m)")
    case (Inl e)
    then have "m' = m" "r = Inl e"
      using adv by (simp_all add: advance_def)
    then show ?thesis
      using run eng by (auto intro: running_undoable)
  next
    case (Inr checked)
    then have "seq (timestamp h) (\<lambda>now. seq (on_record (advanced now (DEPLOYMENT_STATES ! n) backup checked))
        (\<lambda>_. save h)) m = (r, m')"
      using adv by (simp add: advance_def)
    from stamped_save [OF this] obtain now j
      where j: "j = advanced now (DEPLOYMENT_STATES ! n) backup checked (mc_record m)"
        and rec: "mc_record m' = j" "mc_armed m' \<longrightarrow> mc_armed m"
        and tr: "mc_trace m' = mc_trace m @ [Installed (Attempt j)]
             \<or> mc_trace m' = mc_trace m \<and> (\<exists>e. r = Inl e)"
      by auto
    have step: "journal_apply (ho_patterns h) (Advance now (DEPLOYMENT_STATES ! n) backup verification) (mc_record m) = Inr j"
      using Inr j by simp
    have run': "running b (Suc n) j"
      using run \<open>n < 10\<close> journal_ok_apply [OF _ step] older_apply [OF step] at_state_advanced
      unfolding running_def j by (auto simp: advanced_def intro: older_trans)
    have "engaged b t (Ready (Suc n)) m'" if "mc_trace m' = mc_trace m @ [Installed (Attempt j)]"
      using engaged_more [OF eng that] run' \<open>n < 10\<close> by (auto simp: running_def intro: engine_step.recorded)
    moreover have "engaged b t (Calling n) m'" if "mc_trace m' = mc_trace m"
      using engaged_quiet [OF eng that] .
    ultimately show ?thesis
      using tr rec run' by (auto intro!: running_undoable [where n = "Suc n"])
  qed
  then show "undoable b t m'" and "r = Inr () \<Longrightarrow> running b (Suc n) (mc_record m') \<and> engaged b t (Ready (Suc n)) m'"
    and "mc_armed m' \<longrightarrow> mc_armed m"
    by blast+
qed

section \<open>The body as ten stages\<close>

type_synonym 'w stage = "operation \<times> ('w \<Rightarrow> (exn + mapping option \<times> mapping option) \<times> 'w)"

definition answer :: "('a \<Rightarrow> 'b) \<Rightarrow> ('w \<Rightarrow> (exn + 'a) \<times> 'w) \<Rightarrow> 'w \<Rightarrow> (exn + 'b) \<times> 'w" where
  "answer g f = (\<lambda>w. case f w of (Inl e, w') \<Rightarrow> (Inl e, w') | (Inr x, w') \<Rightarrow> (Inr (g x), w'))"

definition stages :: "'w host \<Rightarrow> release_bundle \<Rightarrow> 'w stage list" where
  "stages h b =
    (let done = answer (\<lambda>_. (None, None))
     in [(Validate, done (ho_validate h b)), (Prepare_Candidate, done (ho_prepare_candidate h b)),
         (Backup, answer (\<lambda>v. (Some v, None)) (ho_backup h b)), (Migrate, done (ho_migrate h b)),
         (Candidate_Health, done (ho_candidate_health h b)), (Switch_Traffic, done (ho_switch_traffic h b)),
         (Replace_Workers, done (ho_replace_workers h b)),
         (Stabilize, answer (\<lambda>v. (None, Some v)) (ho_stabilize h b)),
         (Promote_Web, done (ho_promote_web h b)), (Finalize, done (ho_finalize h b))])"

fun run_stages :: "'w host \<Rightarrow> 'w stage list \<Rightarrow> nat \<Rightarrow> ('w, unit) run \<Rightarrow> ('w, unit) run" where
  "run_stages h [] n k = k"
| "run_stages h ((op, f) # ss) n k =
     seq (call h op f) (\<lambda>(backup, verification).
       seq (advance h (DEPLOYMENT_STATES ! n) backup verification) (\<lambda>_. run_stages h ss (Suc n) k))"

definition commit :: "'w host \<Rightarrow> release_bundle \<Rightarrow> ('w, unit) run" where
  "commit h b = seq protect_recovery (\<lambda>_. seq (succeed h b) (\<lambda>_.
     case ho_complete_plan h of
       None \<Rightarrow> give ()
     | Some complete_plan \<Rightarrow> catch (call h Complete_Recovery_Plan complete_plan) (\<lambda>_. give ())))"

lemma call_answer: "seq (call h op (answer g f)) k = seq (call h op f) (\<lambda>x. k (g x))"
  by (auto simp: call_def seq_def on_world_def answer_def fun_eq_iff Let_def split: prod.splits sum.splits)

lemma deploy_body_stages: "deploy_body h b = run_stages h (stages h b) 0 (commit h b)"
  by (simp add: deploy_body_def stages_def Let_def call_answer commit_def DEPLOYMENT_STATES_def)

lemma stages_forward: "map fst (stages h b) = forward"
  by (simp add: stages_def forward_def Let_def)

lemma run_stages_outcome:
  assumes "map fst ss = drop n forward" and "running b n (mc_record m)" and "engaged b t (Ready n) m"
    and "n \<le> 10" and "run_stages h ss n k m = (r, m')"
  shows "undoable b t m' \<and> (\<exists>e. r = Inl e)
    \<or> (\<exists>m1. running b 10 (mc_record m1) \<and> engaged b t (Ready 10) m1 \<and> k m1 = (r, m'))"
  using assms
proof (induction h ss n k arbitrary: m rule: run_stages.induct)
  case (1 h n k)
  then have "n = 10"
    by (simp add: forward_def)
  with 1 show ?case by auto
next
  case (2 h op f ss n k)
  have n: "n < 10"
    using 2(2) by (cases "n < 10") (auto simp: forward_def)
  have "drop n forward = forward ! n # drop (Suc n) forward"
    by (rule Cons_nth_drop_Suc [symmetric]) (simp add: n)
  with 2(2) have op: "op = forward ! n" and rest: "map fst ss = drop (Suc n) forward"
    by auto
  from 2(6) have "seq (call h op f) (\<lambda>(backup, verification).
       seq (advance h (DEPLOYMENT_STATES ! n) backup verification) (\<lambda>_. run_stages h ss (Suc n) k)) m = (r, m')"
    by simp
  then show ?case
  proof (cases rule: seq_cases)
    case (first e)
    from call_outcome [OF first(1)] have rec: "mc_record m' = mc_record m"
      and tr: "mc_trace m' = mc_trace m \<or> mc_trace m' = mc_trace m @ [Called op]"
      by (auto simp: quiet_def)
    have "engaged b t (Ready n) m' \<or> engaged b t (Calling n) m'"
      using tr engaged_quiet [OF 2(4)] engaged_more [OF 2(4)] engine_step.start [OF n] op by blast
    with first(2) 2(3) show ?thesis
      by (auto simp: rec intro: running_undoable)
  next
    case (both x m1)
    from call_outcome [OF both(1)] have rec: "mc_record m1 = mc_record m"
      and tr: "mc_trace m1 = mc_trace m @ [Called op]"
      by auto
    have run: "running b n (mc_record m1)" and eng: "engaged b t (Calling n) m1"
      using 2(3) engaged_more [OF 2(4) tr] engine_step.start [OF n] op by (simp_all add: rec)
    obtain backup verification where x: "x = (backup, verification)"
      by (cases x)
    from both(2) have "seq (advance h (DEPLOYMENT_STATES ! n) backup verification)
        (\<lambda>_. run_stages h ss (Suc n) k) m1 = (r, m')"
      by (simp add: x)
    then show ?thesis
    proof (cases rule: seq_cases)
      case (first e)
      then show ?thesis
        using advance_outcome(1) [OF run eng n first(1)] by blast
    next
      case (both u m2)
      then have "running b (Suc n) (mc_record m2)" "engaged b t (Ready (Suc n)) m2"
        using advance_outcome(2) [OF run eng n both(1)] by simp_all
      then show ?thesis
        using 2(1) [OF rest _ _ _ both(2)] n by simp
    qed
  qed
qed

section \<open>Publishing the result\<close>

lemma at_state_unique: "at_state n j \<Longrightarrow> at_state k j \<Longrightarrow> n = k"
  by (auto simp: at_state_def dest: arg_cong [where f = length])

lemma running_verified:
  assumes "running b 10 j"
  shows "jr_state j = Some ''verified''" and "journal_ok (succeeded now j)" and "at_state 10 (succeeded now j)"
proof -
  have "at_state 10 j" and "journal_ok j"
    using assms by (auto simp: running_def)
  then show "jr_state j = Some ''verified''"
    using verified_iff by blast
  have "jr_verification j \<noteq> None"
    using \<open>journal_ok j\<close> \<open>at_state 10 j\<close> by (auto simp: journal_ok_def dest: at_state_unique)
  with \<open>at_state 10 j\<close> show "journal_ok (succeeded now j)"
    by (rule journal_ok_succeeded)
  show "at_state 10 (succeeded now j)"
    using \<open>at_state 10 j\<close> by (simp add: at_state_def succeeded_def)
qed

definition finished :: "journal \<Rightarrow> journal \<Rightarrow> bool" where
  "finished b j \<longleftrightarrow> at_state 10 j \<and> journal_ok j \<and> jr_result j = ''success'' \<and> older b j"

lemma finished_succeeded: "running b 10 j \<Longrightarrow> finished b (succeeded now j)"
  using running_verified(2,3)
  by (auto simp: finished_def running_def succeeded_def intro: older_trans older_others(1) [unfolded succeeded_def])

lemma finished_undoable:
  assumes "finished b (mc_record m)" and "engaged b t p m" and "p \<in> {Ready 10, Publishing, Committed}"
  shows "undoable b t m"
  using assms at_state_name [of 10 "mc_record m"] by (auto simp: undoable_def finished_def)

lemma succeed_outcome:
  assumes run: "running b0 10 (mc_record m)" and eng: "engaged b0 t (Ready 10) m"
    and ident: "bu_release_commit b = jr_release_commit b0" "bu_manifest_sha256 b = jr_manifest_sha256 b0"
    and "succeed h b m = (r, m')"
  shows "finished b0 (mc_record m')" and "undoable b0 t m'"
    and "r = Inr () \<Longrightarrow> engaged b0 t Committed m'" and "mc_armed m' \<longrightarrow> mc_armed m"
proof -
  obtain now w where t: "timestamp h m = (Inr now, m\<lparr>mc_world := w\<rparr>)"
    using timestamp_eq [of h m] by blast
  let ?j = "succeeded now (mc_record m)"
  let ?m1 = "m\<lparr>mc_world := w, mc_record := ?j\<rparr>"
  have fin: "finished b0 ?j"
    using finished_succeeded [OF run] .
  have eng1: "engaged b0 t (Ready 10) ?m1"
    using eng by (rule engaged_quiet) simp
  have step1: "engine_step b0 (Ready 10) (Installed (Attempt ?j)) Publishing"
    using fin by (auto simp: finished_def intro: engine_step.success)
  have "seq (save h) (\<lambda>_ m'. atomic_write h (Current (pointer_of b (mc_record m'))) m') ?m1 = (r, m')"
    using assms(5) running_verified(1) [OF run] by (simp add: succeed_def seq_def t on_record_def)
  then have "finished b0 (mc_record m') \<and> undoable b0 t m' \<and> (r = Inr () \<longrightarrow> engaged b0 t Committed m')
      \<and> (mc_armed m' \<longrightarrow> mc_armed m)"
  proof (cases rule: seq_cases)
    case (first e)
    have rec: "mc_record m' = ?j" and armed: "mc_armed m' \<longrightarrow> mc_armed m"
      and tr: "mc_trace m' = mc_trace ?m1 @ [Installed (Attempt ?j)] \<or> mc_trace m' = mc_trace ?m1"
      using save_outcome [OF first(1)] by auto
    have "engaged b0 t (Ready 10) m' \<or> engaged b0 t Publishing m'"
      using tr engaged_quiet [OF eng1] engaged_more [OF eng1 _ step1] by blast
    then have "undoable b0 t m'"
      using fin rec by (auto intro: finished_undoable)
    then show ?thesis
      using fin rec armed first(2) by simp
  next
    case (both x m2)
    have rec: "mc_record m2 = ?j" and armed: "mc_armed m2 \<longrightarrow> mc_armed m"
      and tr: "mc_trace m2 = mc_trace ?m1 @ [Installed (Attempt ?j)]"
      using save_outcome [OF both(1)] by auto
    have eng2: "engaged b0 t Publishing m2"
      using engaged_more [OF eng1 tr step1] .
    let ?p = "pointer_of b ?j"
    have step: "engine_step b0 Publishing (Installed (Current ?p)) Committed"
      by (rule engine_step.publish) (simp_all add: pointer_of_def ident)
    have out: "installed (Current ?p) m2 m' \<or> abandoned m2 m' \<and> (\<exists>e. r = Inl e)"
      using atomic_write_outcome both(2) rec by metis
    then have rec': "mc_record m' = ?j" "mc_armed m' \<longrightarrow> mc_armed m"
      using rec armed by (auto simp: installed_def abandoned_def)
    have com: "engaged b0 t Committed m'" if "installed (Current ?p) m2 m'"
      using that step by (auto simp: installed_def intro: engaged_more [OF eng2])
    have "engaged b0 t Committed m' \<or> engaged b0 t Publishing m'"
      using out com engaged_quiet [OF eng2] by (auto simp: abandoned_def)
    then have "undoable b0 t m'"
      using fin rec' by (auto intro: finished_undoable)
    then show ?thesis
      using fin rec' com out by auto
  qed
  then show "finished b0 (mc_record m')" and "undoable b0 t m'"
    and "r = Inr () \<Longrightarrow> engaged b0 t Committed m'" and "mc_armed m' \<longrightarrow> mc_armed m"
    by blast+
qed

lemma commit_outcome:
  assumes "running b0 10 (mc_record m)" and "engaged b0 t (Ready 10) m"
    and "bu_release_commit b = jr_release_commit b0" "bu_manifest_sha256 b = jr_manifest_sha256 b0"
    and "commit h b m = (r, m')"
  shows "\<not> mc_armed m'"
    and "undoable b0 t m' \<and> (\<exists>e. r = Inl e)
       \<or> r = Inr () \<and> finished b0 (mc_record m') \<and> (engaged b0 t Committed m' \<or> engaged b0 t Planned m')"
proof -
  let ?m = "m\<lparr>mc_armed := False\<rparr>"
  have pre: "running b0 10 (mc_record ?m)" "engaged b0 t (Ready 10) ?m"
    using assms(1,2) by (auto intro: engaged_quiet)
  have "seq (succeed h b) (\<lambda>_. case ho_complete_plan h of None \<Rightarrow> give ()
      | Some complete_plan \<Rightarrow> catch (call h Complete_Recovery_Plan complete_plan) (\<lambda>_. give ())) ?m = (r, m')"
    using assms(5) by (simp add: commit_def protect_recovery_def seq_def)
  then have "\<not> mc_armed m' \<and> (undoable b0 t m' \<and> (\<exists>e. r = Inl e)
      \<or> r = Inr () \<and> finished b0 (mc_record m') \<and> (engaged b0 t Committed m' \<or> engaged b0 t Planned m'))"
  proof (cases rule: seq_cases)
    case (first e)
    then show ?thesis
      using succeed_outcome [OF pre assms(3,4) first(1)] by auto
  next
    case (both x m1)
    then have fin: "finished b0 (mc_record m1)" and com: "engaged b0 t Committed m1" and safe: "\<not> mc_armed m1"
      using succeed_outcome [OF pre assms(3,4) both(1)] by auto
    show ?thesis
    proof (cases "ho_complete_plan h")
      case None
      with both(2) fin com safe show ?thesis by simp
    next
      case (Some complete_plan)
      obtain r1 m2 where c: "call h Complete_Recovery_Plan complete_plan m1 = (r1, m2)"
        by (cases "call h Complete_Recovery_Plan complete_plan m1")
      have "r = Inr ()" "m' = m2"
        using both(2) c by (auto simp: Some catch_def split: sum.splits)
      moreover have "mc_record m2 = mc_record m1" "\<not> mc_armed m2"
        "mc_trace m2 = mc_trace m1 @ [Called Complete_Recovery_Plan]"
        using call_outcome [OF c] safe by auto
      ultimately show ?thesis
        using fin engaged_more [OF com] engine_step.plan by auto
    qed
  qed
  then show "\<not> mc_armed m'"
    and "undoable b0 t m' \<and> (\<exists>e. r = Inl e)
       \<or> r = Inr () \<and> finished b0 (mc_record m') \<and> (engaged b0 t Committed m' \<or> engaged b0 t Planned m')"
    by blast+
qed

lemma body_outcome:
  assumes "running b0 0 (mc_record m)" and "engaged b0 t (Ready 0) m"
    and "bu_release_commit b = jr_release_commit b0" "bu_manifest_sha256 b = jr_manifest_sha256 b0"
    and "deploy_body h b m = (r, m')"
  shows "undoable b0 t m' \<and> (\<exists>e. r = Inl e)
    \<or> r = Inr () \<and> \<not> mc_armed m' \<and> finished b0 (mc_record m') \<and> (engaged b0 t Committed m' \<or> engaged b0 t Planned m')"
  using run_stages_outcome [of "stages h b" 0 b0 m t h "commit h b" r m'] assms commit_outcome
  by (simp add: deploy_body_stages stages_forward) blast

section \<open>Recovery and housekeeping\<close>

lemma seq_on_record: "seq (on_record f) g m = g () (m\<lparr>mc_record := f (mc_record m)\<rparr>)"
  by (simp add: seq_def on_record_def)

lemma seq_protect: "seq protect_recovery g m = g () (m\<lparr>mc_armed := False\<rparr>)"
  by (simp add: seq_def protect_recovery_def)

lemma call_disarmed:
  assumes "\<not> mc_armed m"
  shows "call h op f m =
    (fst (f (mc_world m)), m\<lparr>mc_trace := mc_trace m @ [Called op], mc_world := snd (f (mc_world m))\<rparr>)"
  using assms by (simp add: call_def seq_def log_event_def on_world_def split: prod.split)

definition rolled_back :: "'w host \<Rightarrow> release_bundle \<Rightarrow> string option \<Rightarrow> string \<Rightarrow> 'w \<Rightarrow> string \<times> bool" where
  "rolled_back h b state message w = (case fst (ho_rollback h b state w) of
     Inr recovery \<Rightarrow> (recovery, True)
   | Inl e \<Rightarrow> (also_failed message (ho_patterns h) e, False))"

lemma attempt_rollback_disarmed:
  assumes "\<not> mc_armed m"
  shows "attempt_rollback h b state message m =
    (Inr (rolled_back h b state message (mc_world m)),
     m\<lparr>mc_trace := mc_trace m @ [Called (Rollback state)], mc_world := snd (ho_rollback h b state (mc_world m))\<rparr>)"
  using assms
  by (simp add: attempt_rollback_def catch_def seq_def call_disarmed rolled_back_def split: sum.split)

lemma fail_with_outcome:
  assumes "fail_with h e recovery passed verification m = (r, m')" and "\<not> mc_armed m"
  shows "\<not> mc_armed m'" and "mc_trace m' = mc_trace m
    \<or> (\<exists>now checked. mc_trace m' = mc_trace m @
          [Installed (Attempt (failed now checked (failing (ho_patterns h) e recovery passed (mc_record m))))])"
proof -
  let ?j = "failing (ho_patterns h) e recovery passed (mc_record m)"
  let ?check = "case verification of None \<Rightarrow> Inr None
     | Some v \<Rightarrow> (case verification_entry (ho_patterns h) v of Inl e' \<Rightarrow> Inl e' | Inr c \<Rightarrow> Inr (Some c))"
  have "\<not> mc_armed m' \<and> (mc_trace m' = mc_trace m
    \<or> (\<exists>now checked. mc_trace m' = mc_trace m @ [Installed (Attempt (failed now checked ?j))]))"
  proof (cases ?check)
    case (Inl e')
    then show ?thesis
      using assms by (auto simp: fail_with_def seq_def on_record_def)
  next
    case (Inr checked)
    have "seq (timestamp h) (\<lambda>now. seq (on_record (failed now checked)) (\<lambda>_. save h)) (m\<lparr>mc_record := ?j\<rparr>) = (r, m')"
      using assms(1) Inr by (simp add: fail_with_def seq_on_record)
    from stamped_save [OF this] show ?thesis
      using assms(2) by auto
  qed
  then show "\<not> mc_armed m'" and "mc_trace m' = mc_trace m
    \<or> (\<exists>now checked. mc_trace m' = mc_trace m @ [Installed (Attempt (failed now checked ?j))])"
    by blast+
qed

lemma recover_outcome:
  assumes "undoable b0 t m" and "deploy_recover h b e m = (r, m')"
  shows "(\<exists>e'. r = Inl e') \<and> (engaged b0 t Explained m' \<or> engaged b0 t Closed m') \<and> \<not> mc_armed m'"
proof -
  obtain p where p: "engaged b0 t p m" "may_undo p (jr_state (mc_record m))" and old: "older b0 (mc_record m)"
    using assms(1) by (auto simp: undoable_def)
  let ?s = "jr_state (mc_record m)"
  let ?msg = "''Automatic code rollback also failed; keep the database backup and inspect the host locally''"
  obtain recovery passed where rb: "rolled_back h b ?s ?msg (mc_world m) = (recovery, passed)"
    by fastforce
  let ?m1 = "m\<lparr>mc_armed := False, mc_trace := mc_trace m @ [Called (Rollback ?s)],
      mc_world := snd (ho_rollback h b ?s (mc_world m))\<rparr>"
  have e1: "engaged b0 t Restoring ?m1"
    by (rule engaged_more [OF p(1) _ engine_step.undo [OF p(2)]]) simp
  have run: "seq (call h Stabilization_Evidence (ho_stabilization_evidence h)) (\<lambda>verification.
      seq (fail_with h e recovery passed verification) (\<lambda>_. reraise ''Deployment failed: '' e)) ?m1 = (r, m')"
    using assms(2) rb
    by (simp add: deploy_recover_def seq_protect
        seq_def [of "\<lambda>m. attempt_rollback h b (jr_state (mc_record m)) ?msg m"] attempt_rollback_disarmed)
  then show ?thesis
  proof (cases rule: seq_cases)
    case (first e')
    then have "mc_trace m' = mc_trace ?m1 @ [Called Stabilization_Evidence]" "\<not> mc_armed m'"
      by (auto simp: call_disarmed)
    then show ?thesis
      using engaged_more [OF e1 _ engine_step.explain] first(2) by blast
  next
    case (both verification m2)
    then have m2: "mc_trace m2 = mc_trace ?m1 @ [Called Stabilization_Evidence]" "\<not> mc_armed m2"
        "mc_record m2 = mc_record m"
      by (auto simp: call_disarmed)
    have e2: "engaged b0 t Explained m2"
      using engaged_more [OF e1 m2(1) engine_step.explain] .
    have closed: "engaged b0 t Closed m3"
      if "mc_trace m3 = mc_trace m2 @ [Installed (Attempt (failed now checked
            (failing (ho_patterns h) e recovery passed (mc_record m2))))]" for m3 :: "'a machine" and now checked
    proof (rule engaged_more [OF e2 that], rule engine_step.failure)
      show "older b0 (failed now checked (failing (ho_patterns h) e recovery passed (mc_record m2)))"
        using older_trans [OF old older_failed] by (simp add: m2(3))
    qed (simp add: failed_def)
    obtain r3 m3 where f: "fail_with h e recovery passed verification m2 = (r3, m3)"
      by (cases "fail_with h e recovery passed verification m2")
    have "\<exists>e'. r = Inl e'" "m' = m3"
      using both(2) f by (auto simp: seq_def reraise_def split: sum.splits)
    moreover have "engaged b0 t Explained m3 \<or> engaged b0 t Closed m3" "\<not> mc_armed m3"
      using fail_with_outcome [OF f m2(2)] engaged_quiet [OF e2] closed by blast+
    ultimately show ?thesis by simp
  qed
qed

lemma record_cleanup_outcome:
  assumes "finished b0 (mc_record m)" and "engaged b0 t Tidying m" and "record_cleanup h detail passed m = (r, m')"
  shows "finished b0 (mc_record m') \<and> engaged b0 t Tidying m'"
proof -
  have st: "jr_state (mc_record m) = Some ''verified''" "jr_result (mc_record m) = ''success''"
    using assms(1) verified_iff by (auto simp: finished_def)
  have fin: "finished b0 (cleaned p now detail passed (mc_record m))" for p now
    using assms(1) journal_ok_cleaned [of "mc_record m"] older_others(2)
    by (auto simp: finished_def at_state_def cleaned_def intro: older_trans)
  have step: "engine_step b0 Tidying (Installed (Attempt (cleaned p now detail passed (mc_record m)))) Tidying" for p now
    using fin [of p now] by (intro engine_step.cleanup) (auto simp: finished_def cleaned_def)
  have "seq (timestamp h) (\<lambda>now. seq (on_record (cleaned (ho_patterns h) now detail passed)) (\<lambda>_. save h)) m = (r, m')"
    using assms(3) st by (simp add: record_cleanup_def)
  from stamped_save [OF this] show ?thesis
    using fin engaged_more [OF assms(2) _ step] engaged_quiet [OF assms(2)] by metis
qed

lemma tidy_outcome:
  assumes fin: "finished b0 (mc_record m)" and eng: "engaged b0 t Committed m \<or> engaged b0 t Planned m"
    and "deploy_tidy h b m = (r, m')"
  shows "r = Inr () \<and> engaged b0 t Tidying m' \<and> finished b0 (mc_record m')"
proof -
  let ?m1 = "m\<lparr>mc_armed := False, mc_trace := mc_trace m @ [Called Cleanup_Success],
      mc_world := snd (ho_cleanup_success h b (mc_world m))\<rparr>"
  have tr: "mc_trace ?m1 = mc_trace m @ [Called Cleanup_Success]"
    by simp
  have "engaged b0 t Tidying ?m1"
    using eng engaged_more [OF _ tr] engine_step.tidy by blast
  moreover have "finished b0 (mc_record ?m1)"
    using fin by simp
  ultimately have e1: "engaged b0 t Tidying ?m1" "finished b0 (mc_record ?m1)" .
  let ?text = "\<lambda>e. ''Post-success web-slot cleanup failed; retained rollback images and any remaining slots (''
                 @ fst (failure_fields (ho_patterns h) e) @ '').''"
  have second: "r = Inr () \<and> engaged b0 t Tidying m' \<and> finished b0 (mc_record m')"
    if "catch (record_cleanup h (?text e) False) (\<lambda>_. give ()) m2 = (r, m')"
      and "engaged b0 t Tidying m2" "finished b0 (mc_record m2)" for e m2
    using that(1) record_cleanup_outcome [OF that(3,2)] by (cases rule: catch_cases) auto
  have call: "call h Cleanup_Success (ho_cleanup_success h b) (m\<lparr>mc_armed := False\<rparr>)
      = (fst (ho_cleanup_success h b (mc_world m)), ?m1)"
    by (simp add: call_disarmed)
  have "catch (seq (call h Cleanup_Success (ho_cleanup_success h b)) (\<lambda>cleanup. record_cleanup h cleanup True))
       (\<lambda>e. catch (record_cleanup h (?text e) False) (\<lambda>_. give ())) (m\<lparr>mc_armed := False\<rparr>) = (r, m')"
    using assms(3) by (simp add: deploy_tidy_def seq_protect)
  then show ?thesis
  proof (cases rule: catch_cases)
    case (quiet x)
    from quiet(1) obtain c where "record_cleanup h c True ?m1 = (Inr x, m')"
      unfolding seq_def call by (auto split: sum.splits)
    with quiet(2) show ?thesis
      using record_cleanup_outcome [OF e1(2,1)] by auto
  next
    case (handled e m2)
    from handled(1) consider "m2 = ?m1" | c where "record_cleanup h c True ?m1 = (Inl e, m2)"
      unfolding seq_def call by (auto split: sum.splits)
    then have "engaged b0 t Tidying m2 \<and> finished b0 (mc_record m2)"
      using e1 record_cleanup_outcome [OF e1(2,1)] by cases blast+
    with handled(2) show ?thesis
      using second by blast
  qed
qed

section \<open>The run refines the protocol\<close>

lemma running_base: "running (base_record now b operation) 0 (base_record now b operation)"
proof -
  have "at_state 0 (base_record now b operation)"
    by (simp add: at_state_def base_record_def)
  then show ?thesis
    by (auto simp: running_def journal_ok_def older_refl base_record_def intro!: exI [of _ 0])
qed

lemma guarded_outcome:
  assumes "running b0 0 (mc_record m)" and "engaged b0 t (Ready 0) m"
    and "bu_release_commit b = jr_release_commit b0" "bu_manifest_sha256 b = jr_manifest_sha256 b0"
    and "deploy_guarded h b m = (r, m')"
  shows "r = Inr () \<and> engaged b0 t Tidying m' \<and> finished b0 (mc_record m')
    \<or> (\<exists>e. r = Inl e) \<and> (engaged b0 t Explained m' \<or> engaged b0 t Closed m')"
proof -
  obtain r1 m1 where body: "deploy_body h b m = (r1, m1)"
    by (cases "deploy_body h b m")
  from body_outcome [OF assms(1-4) body] show ?thesis
  proof (elim disjE conjE exE)
    fix e
    assume "undoable b0 t m1" and "r1 = Inl e"
    then show ?thesis
      using assms(5) recover_outcome [of b0 t m1 h b e r m'] by (auto simp: deploy_guarded_def body)
  qed (use assms(5) tidy_outcome [of b0 m1 t h b r m'] in \<open>auto simp: deploy_guarded_def body\<close>)
qed

lemma with_guard_cases:
  assumes "with_guard h f m = (r, m')"
  obtains (refused) e where "r = Inl e" "quiet m m'"
  | (inside) w m1 where "ho_guard h (mc_world m) = (False, w)" "f (m\<lparr>mc_armed := True, mc_world := w\<rparr>) = (r, m1)"
      "m' = m1\<lparr>mc_armed := False\<rparr>"
proof -
  obtain g w where g: "ho_guard h (mc_world m) = (g, w)"
    by fastforce
  show ?thesis
  proof (cases g)
    case True
    then have "quiet m m'" "\<exists>e. r = Inl e"
      using assms g by (auto simp: with_guard_def seq_def guard_enter_def quiet_def)
    then show ?thesis using refused by blast
  next
    case False
    obtain r1 m1 where f: "f (m\<lparr>mc_armed := True, mc_world := w\<rparr>) = (r1, m1)"
      by fastforce
    then have "r = r1" "m' = m1\<lparr>mc_armed := False\<rparr>"
      using assms g False
      by (auto simp: with_guard_def seq_def guard_enter_def finally_do_def guard_exit_def split: sum.splits)
    then show ?thesis
      by (intro inside [of w m1]) (use g False f in simp_all)
  qed
qed

lemma deploy_run_outcome:
  assumes rec: "mc_record m = base_record now b operation" and "deploy_run h b m = (r, m')"
  defines "b0 \<equiv> base_record now b operation"
  obtains (refused) e where "r = Inl e" "quiet m m'"
  | (finished) "r = Inr ()" "engaged b0 (mc_trace m) Tidying m'"
  | (failed) e where "r = Inl e" "engaged b0 (mc_trace m) Explained m' \<or> engaged b0 (mc_trace m) Closed m'"
  using assms(2) unfolding deploy_run_def
proof (cases rule: with_guard_cases)
  case (refused e)
  then show ?thesis using that(1) by blast
next
  case (inside w m1)
  have "engaged b0 (mc_trace m) (Ready 0) (m\<lparr>mc_armed := True, mc_world := w\<rparr>)"
    by (auto simp: engaged_def intro: follows.none)
  moreover have "running b0 0 (mc_record (m\<lparr>mc_armed := True, mc_world := w\<rparr>))"
    using running_base by (simp add: rec b0_def)
  moreover have "bu_release_commit b = jr_release_commit b0" "bu_manifest_sha256 b = jr_manifest_sha256 b0"
    by (simp_all add: b0_def base_record_def)
  ultimately have "r = Inr () \<and> engaged b0 (mc_trace m) Tidying m1
    \<or> (\<exists>e. r = Inl e) \<and> (engaged b0 (mc_trace m) Explained m1 \<or> engaged b0 (mc_trace m) Closed m1)"
    using guarded_outcome [OF _ _ _ _ inside(2)] by blast
  then show ?thesis
    using that(2,3) by (auto simp: inside(3) engaged_def)
qed

section \<open>What the protocol promises\<close>

fun called :: "event list \<Rightarrow> operation list" where
  "called [] = []"
| "called (Called op # es) = op # called es"
| "called (Installed doc # es) = called es"

lemma called_append [simp]: "called (es @ fs) = called es @ called fs"
  by (induction es rule: called.induct) auto

text \<open>The operations a path into a phase has called, in their order.\<close>

definition undone :: "operation list \<Rightarrow> bool" where
  "undone ops \<longleftrightarrow> (\<exists>k \<le> 10. \<exists>s. ops = take k forward @ [Rollback s]
     \<and> (s = state_name k \<or> 0 < k \<and> s = state_name (k - 1)))"

fun ops_at :: "phase \<Rightarrow> operation list \<Rightarrow> bool" where
  "ops_at (Ready n) ops = (n \<le> 10 \<and> ops = take n forward)"
| "ops_at (Calling n) ops = (n < 10 \<and> ops = take (Suc n) forward)"
| "ops_at Publishing ops = (ops = forward)"
| "ops_at Committed ops = (ops = forward)"
| "ops_at Planned ops = (ops = forward @ [Complete_Recovery_Plan])"
| "ops_at Tidying ops = (ops = forward @ [Cleanup_Success] \<or> ops = forward @ [Complete_Recovery_Plan, Cleanup_Success])"
| "ops_at Restoring ops = undone ops"
| "ops_at p ops = (\<exists>us. undone us \<and> ops = us @ [Stabilization_Evidence])"

lemma take_Suc_forward: "n < 10 \<Longrightarrow> take (Suc n) forward = take n forward @ [forward ! n]"
  by (simp add: take_Suc_conv_app_nth)

lemma undone_from:
  assumes "ops_at p ops" and "may_undo p s"
  shows "undone (ops @ [Rollback s])"
proof (cases p)
  case (Ready n)
  with assms show ?thesis
    unfolding undone_def by (intro exI [of _ n] exI [of _ s] conjI) auto
next
  case (Calling n)
  with assms show ?thesis
    unfolding undone_def by (intro exI [of _ "Suc n"] exI [of _ s] conjI) auto
next
  case Publishing
  with assms show ?thesis
    unfolding undone_def by (intro exI [of _ 10] exI [of _ s] conjI) auto
next
  case Committed
  with assms show ?thesis
    unfolding undone_def by (intro exI [of _ 10] exI [of _ s] conjI) auto
qed (use assms in simp_all)

lemma ops_at_step: "engine_step b p ev q \<Longrightarrow> ops_at p ops \<Longrightarrow> ops_at q (ops @ called [ev])"
proof (induction rule: engine_step.cases)
  case (undo p s)
  then show ?case using undone_from by simp
qed (auto simp: take_Suc_forward)

lemma follows_ops: "follows b (Ready 0) es p \<Longrightarrow> ops_at p (called es)"
  by (induction rule: follows.induct) (use ops_at_step in \<open>auto\<close>)

end
