(* ===== verification/Deploy_Results.thy ===== *)
theory Deploy_Results
  imports Deploy_Protocol
begin

text \<open>
  What a deployment and a preflight guarantee: the order of the operations and of the
  durable records, the files after success and after failure, recovery that no signal
  interrupts, bounded failure text, and a preflight that never touches production.
\<close>

section \<open>Durable before the next operation\<close>

inductive_cases engine_readyE: "engine_step b p ev (Ready n)"

text \<open>What is durable when an operation is called.\<close>

fun prior :: "journal \<Rightarrow> event list \<Rightarrow> operation \<Rightarrow> bool" where
  "prior b pre Cleanup_Success = (\<exists>j p. Installed (Attempt j) \<in> set pre \<and> jr_result j = ''success''
     \<and> at_state 10 j \<and> Installed (Current p) \<in> set pre \<and> pt_release_commit p = jr_release_commit b)"
| "prior b pre op = (\<forall>k. 0 < k \<and> k < 10 \<and> op = forward ! k \<longrightarrow>
     (\<exists>j pre'. pre = pre' @ [Installed (Attempt j)] \<and> at_state k j \<and> jr_result j = ''running'' \<and> older b j))"

lemma ready_recorded:
  assumes "follows b (Ready 0) es (Ready n)" and "0 < n"
  shows "\<exists>j pre'. es = pre' @ [Installed (Attempt j)] \<and> at_state n j \<and> jr_result j = ''running'' \<and> older b j"
  using assms(1)
proof (cases rule: follows.cases)
  case none
  with assms(2) show ?thesis by simp
next
  case (more es' q ev)
  from more(3) show ?thesis
    by (cases rule: engine_readyE) (use more(1) in auto)
qed

lemma forward_same: "i < 10 \<Longrightarrow> k < 10 \<Longrightarrow> forward ! i = forward ! k \<longleftrightarrow> i = k"
  by (rule nth_eq_iff_index_eq) (simp_all add: forward_def)

lemma not_forward:
  assumes "k < 10"
  shows "forward ! k \<noteq> Cleanup_Success" "Complete_Recovery_Plan \<noteq> forward ! k"
    "Rollback s \<noteq> forward ! k" "Stabilization_Evidence \<noteq> forward ! k"
  using nth_mem [of k forward] assms by (auto simp: forward_def)

definition success_in :: "event list \<Rightarrow> bool" where
  "success_in es \<longleftrightarrow> (\<exists>j. Installed (Attempt j) \<in> set es \<and> jr_result j = ''success'' \<and> at_state 10 j)"

definition pointer_in :: "journal \<Rightarrow> event list \<Rightarrow> bool" where
  "pointer_in b es \<longleftrightarrow> (\<exists>p. Installed (Current p) \<in> set es \<and> pt_release_commit p = jr_release_commit b)"

fun published :: "journal \<Rightarrow> phase \<Rightarrow> event list \<Rightarrow> bool" where
  "published b Publishing es = success_in es"
| "published b Committed es = (success_in es \<and> pointer_in b es)"
| "published b Planned es = (success_in es \<and> pointer_in b es)"
| "published b Tidying es = (success_in es \<and> pointer_in b es)"
| "published b p es = True"

lemma in_grown: "success_in es \<Longrightarrow> success_in (es @ fs)" "pointer_in b es \<Longrightarrow> pointer_in b (es @ fs)"
  by (auto simp: success_in_def pointer_in_def)

lemma published_step: "engine_step b p ev q \<Longrightarrow> published b p es \<Longrightarrow> published b q (es @ [ev])"
proof (induction rule: engine_step.cases)
  case (success j)
  then show ?case by (auto simp: success_in_def)
next
  case (publish p)
  then have "pointer_in b (es @ [ev])"
    by (auto simp: pointer_in_def)
  with publish show ?case by (simp add: in_grown)
qed (auto simp: in_grown)

lemma follows_published: "follows b (Ready 0) es p \<Longrightarrow> published b p es"
proof (induction rule: follows.induct)
  case none
  then show ?case by simp
next
  case (more es q ev r)
  then show ?case by (blast intro: published_step)
qed

lemma called_prior:
  assumes "follows b (Ready 0) pre p" and "engine_step b p (Called op) q"
  shows "prior b pre op"
  using assms(2)
proof (cases rule: engine_step.cases)
  case (start n)
  have "prior b pre (forward ! n)"
  proof -
    have "\<exists>j pre'. pre = pre' @ [Installed (Attempt j)] \<and> at_state k j \<and> jr_result j = ''running'' \<and> older b j"
      if "0 < k" "k < 10" "forward ! n = forward ! k" for k
      using ready_recorded [of b pre n] assms(1) that start forward_same [of n k] by auto
    moreover have "forward ! n \<noteq> Cleanup_Success"
      using \<open>n < 10\<close> by (rule not_forward)
    ultimately show ?thesis
      by (cases "forward ! n") auto
  qed
  with start show ?thesis by simp
next
  case (tidy)
  then show ?thesis
    using follows_published [OF assms(1)] by (auto simp: success_in_def pointer_in_def)
qed (use not_forward in auto)

lemma follows_prior:
  assumes "follows b (Ready 0) es p" and "es = pre @ Called op # post"
  shows "prior b pre op"
  using assms
proof (induction arbitrary: pre post rule: follows.induct)
  case (more es q ev r)
  show ?case
  proof (cases post rule: rev_cases)
    case Nil
    with more show ?thesis by (auto intro: called_prior)
  next
    case (snoc post' x)
    with more show ?thesis by auto
  qed
qed simp

section \<open>The files of a path\<close>

fun files_at :: "journal \<Rightarrow> phase \<Rightarrow> disk \<Rightarrow> bool" where
  "files_at b (Ready n) ds = (0 < n \<longrightarrow> (\<exists>j. attempt_on ds (jr_attempt_id b) = Some j
     \<and> at_state n j \<and> jr_result j = ''running'' \<and> older b j))"
| "files_at b (Calling n) ds = (0 < n \<longrightarrow> (\<exists>j. attempt_on ds (jr_attempt_id b) = Some j
     \<and> at_state n j \<and> jr_result j = ''running'' \<and> older b j))"
| "files_at b Publishing ds = (\<exists>j. attempt_on ds (jr_attempt_id b) = Some j
     \<and> at_state 10 j \<and> jr_result j = ''success'' \<and> older b j)"
| "files_at b Restoring ds = True"
| "files_at b Explained ds = True"
| "files_at b Closed ds = (\<exists>j. attempt_on ds (jr_attempt_id b) = Some j \<and> jr_result j = ''failed'' \<and> older b j)"
| "files_at b p ds = (\<exists>j q. attempt_on ds (jr_attempt_id b) = Some j
     \<and> at_state 10 j \<and> jr_result j = ''success'' \<and> older b j
     \<and> ds_current ds = Some q \<and> pt_release_commit q = jr_release_commit b
     \<and> pt_manifest_sha256 q = jr_manifest_sha256 b)"

lemma attempt_on_install:
  "attempt_on (install (Attempt j) ds) a = (if a = jr_attempt_id j then Some j else attempt_on ds a)"
  "attempt_on (install (Current p) ds) a = attempt_on ds a"
  "ds_current (install (Attempt j) ds) = ds_current ds"
  "ds_current (install (Current p) ds) = Some p"
  by (simp_all add: attempt_on_def install_def)

lemma older_id: "older b j \<Longrightarrow> jr_attempt_id j = jr_attempt_id b"
  by (simp add: older_def)

lemma files_at_step:
  assumes "engine_step b p ev q" and "files_at b p ds"
  shows "files_at b q (replay [ev] ds)"
  using assms by (cases rule: engine_step.cases) (auto simp: attempt_on_install older_id)

lemma follows_files: "follows b (Ready 0) es p \<Longrightarrow> files_at b p (replay es ds)"
  by (induction rule: follows.induct) (auto simp: replay_append intro: files_at_step simp del: replay.simps(2,3))

lemma files_at_same: "same_files ds ds' \<Longrightarrow> files_at b p ds \<Longrightarrow> files_at b p ds'"
  by (cases p) (simp_all add: same_files_def attempt_on_def)

lemma durable_run: "moves durable (deploy_run h b)"
proof (rule movesI)
  fix m m' :: "'a machine" and r
  assume "deploy_run h b m = (r, m')"
  then show "durable m m'"
    unfolding deploy_run_def
  proof (cases rule: with_guard_cases)
    case (refused e)
    then show ?thesis by (simp add: quiet_durable)
  next
    case (inside w m1)
    have "durable (m\<lparr>mc_armed := True, mc_world := w\<rparr>) m1"
      using movesD [OF durable_guarded inside(2)] .
    then show ?thesis
      by (auto simp: durable_def inside(3))
  qed
qed

lemma engaged_files:
  assumes "engaged b t p m'" and "durable m m'" and "mc_trace m = t"
  shows "files_at b p (mc_disk m')"
proof -
  obtain es where es: "mc_trace m' = t @ es" "follows b (Ready 0) es p"
    using assms(1) by (auto simp: engaged_def)
  then have "same_files (replay es (mc_disk m)) (mc_disk m')"
    using assms(2,3) by (auto simp: durable_def)
  then show ?thesis
    using files_at_same follows_files [OF es(2)] by blast
qed

section \<open>Deployments\<close>

lemma new_events:
  assumes "engaged b (mc_trace m) p m'" and "mc_trace m' = mc_trace m @ es"
  shows "follows b (Ready 0) es p"
  using assms by (auto simp: engaged_def)

text \<open>
  C13. Whatever the host answers, a deployment's events are a path of the protocol: a
  finished run ends in housekeeping, a run that raises has asked the backend to roll
  back, unless the guard could not be installed and nothing was done.
\<close>

theorem deploy_refines_protocol:
  assumes "mc_record m = base_record now b ''deploy''" and "deploy_run h b m = (r, m')"
  shows "\<exists>es. mc_trace m' = mc_trace m @ es
    \<and> (r = Inr () \<longrightarrow> follows (base_record now b ''deploy'') (Ready 0) es Tidying)
    \<and> (\<forall>e. r = Inl e \<longrightarrow> es = [] \<or> follows (base_record now b ''deploy'') (Ready 0) es Explained
         \<or> follows (base_record now b ''deploy'') (Ready 0) es Closed)"
  using assms
proof (cases rule: deploy_run_outcome)
  case (refused e)
  then show ?thesis by (auto simp: quiet_def)
qed (auto simp: engaged_def)

text \<open>
  C11. A deployment that returns has called the ten operations in their order, the
  optional plan and the clean-up, and has not rolled back; one that raises has called
  a prefix of the ten and then rolled back exactly once, telling the backend the last
  state of the journal (or the one before, when the last could not be saved).
\<close>

theorem deploy_operations:
  assumes "mc_record m = base_record now b ''deploy''" and "deploy_run h b m = (r, m')"
    and "mc_trace m' = mc_trace m @ es"
  shows "(r = Inr () \<longrightarrow> called es = forward @ [Cleanup_Success]
      \<or> called es = forward @ [Complete_Recovery_Plan, Cleanup_Success])
    \<and> (\<forall>e. r = Inl e \<longrightarrow> es = [] \<or> (\<exists>us. undone us \<and> called es = us @ [Stabilization_Evidence]))"
  using assms(1,2)
proof (cases rule: deploy_run_outcome)
  case refused
  then show ?thesis
    using assms(3) by (auto simp: quiet_def)
next
  case finished
  then show ?thesis
    using follows_ops [OF new_events [OF finished(2) assms(3)]] by auto
next
  case failed
  have "ops_at Explained (called es)"
    using failed(2) follows_ops [OF new_events [OF _ assms(3)]] by fastforce
  with failed(1) show ?thesis by simp
qed

text \<open>
  C12. No operation of the deployment is started before the journal with the state
  before it is on disk, as the last thing that happened; and the old slots are cleaned
  up only after the verified journal and the current pointer are both on disk.
\<close>

theorem deploy_records_before_operating:
  assumes "mc_record m = base_record now b ''deploy''" and "deploy_run h b m = (r, m')"
    and "mc_trace m' = mc_trace m @ pre @ Called op # post"
  shows "prior (base_record now b ''deploy'') pre op"
  using assms(1,2)
proof (cases rule: deploy_run_outcome)
  case (refused e)
  with assms(3) show ?thesis by (simp add: quiet_def)
next
  case finished
  show ?thesis
    using follows_prior [OF new_events [OF finished(2) assms(3)]] by simp
next
  case (failed e)
  then show ?thesis
    using follows_prior new_events [OF _ assms(3)] by blast
qed

text \<open>
  C14. A deployment that returns has left the attempt on disk as successful, with all
  ten states in its history and everything it recorded before, and the current pointer
  at this release.
\<close>

theorem deploy_success_is_published:
  assumes "mc_record m = base_record now b ''deploy''" and "deploy_run h b m = (Inr u, m')"
  shows "\<exists>j q. attempt_on (mc_disk m') (bu_attempt_id b) = Some j
    \<and> jr_result j = ''success'' \<and> map fst (jr_history j) = DEPLOYMENT_STATES
    \<and> older (base_record now b ''deploy'') j \<and> ds_current (mc_disk m') = Some q
    \<and> pt_release_commit q = bu_release_commit b \<and> pt_manifest_sha256 q = bu_manifest_sha256 b"
  using assms
proof (cases rule: deploy_run_outcome)
  case finished
  from engaged_files [OF finished(2) movesD [OF durable_run assms(2)] refl]
  show ?thesis
    by (auto simp: base_record_def at_state_def)
qed simp_all

section \<open>Recording a failure\<close>

text \<open>A host whose disk refuses nothing.\<close>

definition faultless :: "'w host \<Rightarrow> bool" where
  "faultless h \<longleftrightarrow> (\<forall>s w. fst (ho_fault h s w) = None)"

text \<open>A statement that raises nothing while the guard is disarmed.\<close>

definition smooth :: "('w, unit) run \<Rightarrow> bool" where
  "smooth f \<longleftrightarrow> (\<forall>m. \<not> mc_armed m \<longrightarrow> fst (f m) = Inr () \<and> \<not> mc_armed (snd (f m)))"

lemma smoothD: "smooth f \<Longrightarrow> \<not> mc_armed m \<Longrightarrow> \<exists>m'. f m = (Inr (), m') \<and> \<not> mc_armed m'"
  by (metis prod.collapse smooth_def)

lemma smoothI: "(\<And>m. \<not> mc_armed m \<Longrightarrow> \<exists>m'. f m = (Inr (), m') \<and> \<not> mc_armed m') \<Longrightarrow> smooth f"
  unfolding smooth_def by fastforce

lemma smooth_seq:
  assumes "smooth f" and "\<And>x. smooth (g x)"
  shows "smooth (seq f g)"
proof (rule smoothI)
  fix m :: "'a machine"
  assume "\<not> mc_armed m"
  then obtain m1 where m1: "f m = (Inr (), m1)" "\<not> mc_armed m1"
    using smoothD [OF assms(1)] by blast
  then show "\<exists>m'. seq f g m = (Inr (), m') \<and> \<not> mc_armed m'"
    using smoothD [OF assms(2) m1(2)] by (simp add: seq_def)
qed

lemma smooth_catch:
  assumes "smooth f"
  shows "smooth (catch f k)"
proof (rule smoothI)
  fix m :: "'a machine"
  assume "\<not> mc_armed m"
  then show "\<exists>m'. catch f k m = (Inr (), m') \<and> \<not> mc_armed m'"
    using smoothD [OF assms] by (fastforce simp: catch_def)
qed

lemma smooth_finally:
  assumes "smooth f" and "smooth g"
  shows "smooth (finally_do f g)"
proof (rule smoothI)
  fix m :: "'a machine"
  assume "\<not> mc_armed m"
  then obtain m1 where m1: "f m = (Inr (), m1)" "\<not> mc_armed m1"
    using smoothD [OF assms(1)] by blast
  then show "\<exists>m'. finally_do f g m = (Inr (), m') \<and> \<not> mc_armed m'"
    using smoothD [OF assms(2) m1(2)] by (auto simp: finally_do_def)
qed

lemma smooth_host_step:
  assumes "faultless h"
  shows "smooth (host_step h s)"
  unfolding smooth_def
proof (intro allI impI)
  fix m :: "'a machine"
  assume m: "\<not> mc_armed m"
  obtain w where "ho_fault h s (mc_world m) = (None, w)"
    using assms unfolding faultless_def by (metis prod.collapse)
  with m show "fst (host_step h s m) = Inr () \<and> \<not> mc_armed (snd (host_step h s m))"
    by (simp add: host_step_def seq_def)
qed

lemma smooth_atomic_write: "faultless h \<Longrightarrow> smooth (atomic_write h doc)"
  unfolding atomic_write_def write_temporary_def write_replaced_def
  by (intro smooth_seq smooth_catch smooth_finally smooth_host_step)
    (auto simp: smooth_def temporaries_simp replace_simp)

lemma save_smooth:
  assumes "faultless h" and "\<not> mc_armed m"
  shows "\<exists>m'. save h m = (Inr (), m') \<and> installed (Attempt (mc_record m)) m m' \<and> \<not> mc_armed m'"
proof -
  obtain m' where "save h m = (Inr (), m')" "\<not> mc_armed m'"
    using smoothD [OF smooth_atomic_write [OF assms(1)] assms(2)] unfolding save_def by blast
  then show ?thesis
    using atomic_write_Inr [of h "Attempt (mc_record m)" m "()" m'] by (auto simp: save_def)
qed

definition checked_evidence :: "'w host \<Rightarrow> mapping option \<Rightarrow> exn + mapping option" where
  "checked_evidence h verification = (case verification of None \<Rightarrow> Inr None
     | Some v \<Rightarrow> (case verification_entry (ho_patterns h) v of Inl e' \<Rightarrow> Inl e' | Inr c \<Rightarrow> Inr (Some c)))"

lemma fail_with_smooth:
  assumes "faultless h" and "\<not> mc_armed m" and "checked_evidence h verification = Inr checked"
  shows "\<exists>now m'. fail_with h e recovery passed verification m = (Inr (), m')
    \<and> attempt_on (mc_disk m') (jr_attempt_id (mc_record m))
        = Some (failed now checked (failing (ho_patterns h) e recovery passed (mc_record m)))"
proof -
  let ?j = "failing (ho_patterns h) e recovery passed (mc_record m)"
  obtain now w where t: "timestamp h (m\<lparr>mc_record := ?j\<rparr>) = (Inr now, m\<lparr>mc_record := ?j, mc_world := w\<rparr>)"
    using timestamp_eq [of h "m\<lparr>mc_record := ?j\<rparr>"] by (auto simp: timestamp_def split: prod.splits)
  let ?m = "m\<lparr>mc_world := w, mc_record := failed now checked ?j\<rparr>"
  obtain m' where s: "save h ?m = (Inr (), m')" "installed (Attempt (failed now checked ?j)) ?m m'"
    using save_smooth [OF assms(1), of ?m] assms(2) by auto
  have "fail_with h e recovery passed verification m = (Inr (), m')"
    using s(1) assms(3) t
    by (simp add: fail_with_def seq_on_record checked_evidence_def seq_def [of "timestamp h"])
  moreover have "attempt_on (mc_disk m') (jr_attempt_id (mc_record m)) = Some (failed now checked ?j)"
    using s(2) by (simp add: installed_def attempt_on_install failed_def)
  ultimately show ?thesis by blast
qed

text \<open>
  C16. When the disk works and the backend's evidence is valid or absent, a recovery
  leaves the attempt on disk as failed, with the rollback's own outcome, the backend's
  answer bounded, and raises the original error, wrapped unless it is a deployment error.
\<close>

theorem deploy_failure_is_recorded:
  assumes "faultless h" and "\<And>w. \<exists>v checked. fst (ho_stabilization_evidence h w) = Inr v \<and> checked_evidence h v = Inr checked"
  shows "\<exists>m' j. deploy_recover h b e m
      = (Inl (if ex_deployment e then e else deployment_error (''Deployment failed: '' @ ex_text e)), m')
    \<and> attempt_on (mc_disk m') (jr_attempt_id (mc_record m)) = Some j \<and> jr_result j = ''failed''
    \<and> jr_failure j = Some (fst (failure_fields (ho_patterns h) e))
    \<and> map_option rb_result (jr_rollback j)
        = Some (case fst (ho_rollback h b (jr_state (mc_record m)) (mc_world m)) of Inr _ \<Rightarrow> ''passed'' | Inl _ \<Rightarrow> ''failed'')
    \<and> jr_history j = jr_history (mc_record m)"
proof -
  let ?s = "jr_state (mc_record m)"
  let ?msg = "''Automatic code rollback also failed; keep the database backup and inspect the host locally''"
  obtain recovery passed where rb: "rolled_back h b ?s ?msg (mc_world m) = (recovery, passed)"
    by fastforce
  have passed: "passed = (case fst (ho_rollback h b ?s (mc_world m)) of Inr _ \<Rightarrow> True | Inl _ \<Rightarrow> False)"
    using rb by (auto simp: rolled_back_def split: sum.splits)
  let ?w = "snd (ho_rollback h b ?s (mc_world m))"
  obtain v checked where v: "fst (ho_stabilization_evidence h ?w) = Inr v" "checked_evidence h v = Inr checked"
    using assms(2) by blast
  let ?m2 = "m\<lparr>mc_armed := False, mc_trace := mc_trace m @ [Called (Rollback ?s), Called Stabilization_Evidence],
      mc_world := snd (ho_stabilization_evidence h ?w)\<rparr>"
  obtain now m' where f: "fail_with h e recovery passed v ?m2 = (Inr (), m')"
      "attempt_on (mc_disk m') (jr_attempt_id (mc_record m))
        = Some (failed now checked (failing (ho_patterns h) e recovery passed (mc_record m)))"
    using fail_with_smooth [OF assms(1) _ v(2), of ?m2 e recovery passed] by auto
  have "deploy_recover h b e m = (Inl (if ex_deployment e then e else deployment_error (''Deployment failed: '' @ ex_text e)), m')"
    using f(1) v(1) rb
    by (simp add: deploy_recover_def protect_recovery_def reraise_def seq_def attempt_rollback_disarmed call_disarmed)
  moreover have "jr_failure (failing (ho_patterns h) e recovery passed (mc_record m))
      = Some (fst (failure_fields (ho_patterns h) e))"
    by (simp add: failing_def Let_def split: prod.split)
  ultimately show ?thesis
    using f(2) passed
    by (intro exI [of _ m'] exI [of _ "failed now checked (failing (ho_patterns h) e recovery passed (mc_record m))"] conjI)
      (auto simp: failed_def rollback_entry_def split: sum.split)
qed

text \<open>
  Evidence the journal refuses replaces the failure: the run raises the evidence's
  own error, and neither the original error nor the rollback's outcome reaches the disk.
\<close>

theorem invalid_evidence_hides_failure:
  assumes "fst (ho_stabilization_evidence h (snd (ho_rollback h b (jr_state (mc_record m)) (mc_world m)))) = Inr (Some v)"
    and "verification_entry (ho_patterns h) v = Inl e'"
  shows "fst (deploy_recover h b e m) = Inl e' \<and> mc_disk (snd (deploy_recover h b e m)) = mc_disk m"
proof -
  let ?s = "jr_state (mc_record m)"
  let ?msg = "''Automatic code rollback also failed; keep the database backup and inspect the host locally''"
  obtain recovery passed where rb: "rolled_back h b ?s ?msg (mc_world m) = (recovery, passed)"
    by fastforce
  show ?thesis
    using assms rb
    by (simp add: deploy_recover_def seq_protect seq_on_record reraise_def seq_def [of "call h Stabilization_Evidence f" for f]
        seq_def [of "fail_with h e recovery passed c" for c] seq_def [of "\<lambda>m. attempt_rollback h b (jr_state (mc_record m)) msg m" for msg]
        attempt_rollback_disarmed call_disarmed fail_with_def seq_assoc)
qed

section \<open>Recovery and signals\<close>

text \<open>The host with another source of signals.\<close>

definition signalled :: "('w \<Rightarrow> string option \<times> 'w) \<Rightarrow> 'w host \<Rightarrow> 'w host" where
  "signalled s h = h\<lparr>ho_signal := s\<rparr>"

text \<open>Two statements do the same to a disarmed machine and leave it disarmed.\<close>

definition deaf :: "('w, 'a) run \<Rightarrow> ('w, 'a) run \<Rightarrow> bool" where
  "deaf f g \<longleftrightarrow> (\<forall>m. \<not> mc_armed m \<longrightarrow> f m = g m \<and> \<not> mc_armed (snd (g m)))"

named_theorems deaf_acts \<open>statements that no signal reaches once the guard is disarmed\<close>

lemma deaf_seq [deaf_acts]: "deaf f f' \<Longrightarrow> (\<And>x. deaf (g x) (g' x)) \<Longrightarrow> deaf (seq f g) (seq f' g')"
  unfolding deaf_def by (auto simp: seq_def split: prod.splits sum.splits)

lemma deaf_catch [deaf_acts]: "deaf f f' \<Longrightarrow> (\<And>x. deaf (g x) (g' x)) \<Longrightarrow> deaf (catch f g) (catch f' g')"
  unfolding deaf_def by (auto simp: catch_def split: prod.splits sum.splits)

lemma deaf_finally [deaf_acts]: "deaf f f' \<Longrightarrow> deaf g g' \<Longrightarrow> deaf (finally_do f g) (finally_do f' g')"
  unfolding deaf_def by (fastforce simp: finally_do_def split: prod.splits sum.splits)

lemma deaf_simple [deaf_acts]:
  "deaf (give x) (give x)" "deaf (throw e) (throw e)" "deaf (on_record r) (on_record r)"
  "deaf (temporaries k) (temporaries k)" "deaf (replace doc) (replace doc)" "deaf (log_event ev) (log_event ev)"
  "deaf protect_recovery protect_recovery" "deaf (on_world w) (on_world w)"
  by (simp_all add: deaf_def on_record_def temporaries_def replace_simp log_event_def protect_recovery_def
      on_world_def split: prod.split)

lemma deaf_timestamp [deaf_acts]: "deaf (timestamp (signalled s h)) (timestamp h)"
  by (simp add: deaf_def timestamp_def signalled_def split: prod.split)

lemma deaf_checkpoint [deaf_acts]: "deaf (checkpoint (signalled s h)) (checkpoint h)"
  by (simp add: deaf_def)

lemma deaf_call [deaf_acts]: "deaf (call (signalled s h) op f) (call h op f)"
  unfolding call_def by (intro deaf_acts)

lemma deaf_host_step [deaf_acts]: "deaf (host_step (signalled s h) st) (host_step h st)"
proof -
  have "deaf (\<lambda>m. case ho_fault (signalled s h) st (mc_world m) of
      (None, w) \<Rightarrow> (Inr (), m\<lparr>mc_world := w\<rparr>) | (Some e, w) \<Rightarrow> (Inl e, m\<lparr>mc_world := w\<rparr>))
    (\<lambda>m. case ho_fault h st (mc_world m) of
      (None, w) \<Rightarrow> (Inr (), m\<lparr>mc_world := w\<rparr>) | (Some e, w) \<Rightarrow> (Inl e, m\<lparr>mc_world := w\<rparr>))"
    by (auto simp: deaf_def signalled_def split: prod.split option.split)
  then show ?thesis
    unfolding host_step_def by (intro deaf_seq deaf_checkpoint)
qed

lemma deaf_atomic_write [deaf_acts]: "deaf (atomic_write (signalled s h) doc) (atomic_write h doc)"
  unfolding atomic_write_def write_temporary_def write_replaced_def by (intro deaf_acts)

lemma deaf_dependent: "(\<And>m. deaf (f m) (g m)) \<Longrightarrow> deaf (\<lambda>m. f m m) (\<lambda>m. g m m)"
  by (simp add: deaf_def)

lemma deaf_save [deaf_acts]: "deaf (save (signalled s h)) (save h)"
  unfolding save_def
  by (rule deaf_dependent [where f = "\<lambda>m. atomic_write (signalled s h) (Attempt (mc_record m))"
        and g = "\<lambda>m. atomic_write h (Attempt (mc_record m))"]) (rule deaf_acts)

lemma signalled_fields [simp]:
  "ho_patterns (signalled s h) = ho_patterns h" "ho_rollback (signalled s h) = ho_rollback h"
  "ho_stabilization_evidence (signalled s h) = ho_stabilization_evidence h"
  "ho_cleanup_success (signalled s h) = ho_cleanup_success h"
  "ho_complete_plan (signalled s h) = ho_complete_plan h"
  by (simp_all add: signalled_def)

lemma deaf_pointer: "deaf (\<lambda>m'. atomic_write (signalled s h) (Current (pointer_of b (mc_record m'))) m')
    (\<lambda>m'. atomic_write h (Current (pointer_of b (mc_record m'))) m')"
  by (rule deaf_dependent [where f = "\<lambda>m. atomic_write (signalled s h) (Current (pointer_of b (mc_record m)))"
        and g = "\<lambda>m. atomic_write h (Current (pointer_of b (mc_record m)))"]) (rule deaf_acts)

lemma deaf_if: "deaf f g \<Longrightarrow> deaf f' g' \<Longrightarrow>
    deaf (\<lambda>m. if P m then f m else f' m) (\<lambda>m. if P m then g m else g' m)"
  by (simp add: deaf_def)

lemma deaf_raise: "deaf (\<lambda>m. (Inl e, m)) (\<lambda>m. (Inl e, m))"
  by (simp add: deaf_def)

lemma deaf_succeed: "deaf (succeed (signalled s h) b) (succeed h b)"
  unfolding succeed_def by (intro deaf_if deaf_raise deaf_seq deaf_acts deaf_pointer)

lemma deaf_record_cleanup: "deaf (record_cleanup (signalled s h) detail passed) (record_cleanup h detail passed)"
  unfolding record_cleanup_def signalled_fields by (intro deaf_if deaf_raise deaf_acts)

lemma deaf_fail_with: "deaf (fail_with (signalled s h) e recovery passed v) (fail_with h e recovery passed v)"
  unfolding fail_with_def signalled_fields
  by (intro deaf_acts) (auto split: sum.splits option.splits intro!: deaf_acts)

lemma deaf_attempt_rollback:
  "deaf (attempt_rollback (signalled s h) b state message) (attempt_rollback h b state message)"
  unfolding attempt_rollback_def signalled_fields by (intro deaf_acts)

lemma protected: "(\<And>x. deaf (f x) (g x)) \<Longrightarrow> seq protect_recovery f m = seq protect_recovery g m"
  by (simp add: seq_protect deaf_def)

text \<open>
  C17. Once a deployment recovers, publishes its success or tidies up, termination
  signals change nothing: the run is the same for every source of signals.
\<close>

theorem recovery_ignores_signals:
  "deploy_recover (signalled s h) b e m = deploy_recover h b e m
   \<and> commit (signalled s h) b m = commit h b m
   \<and> deploy_tidy (signalled s h) b m = deploy_tidy h b m"
proof (intro conjI)
  have rb: "deaf (\<lambda>m. attempt_rollback (signalled s h) b (jr_state (mc_record m)) msg m)
      (\<lambda>m. attempt_rollback h b (jr_state (mc_record m)) msg m)" for msg
    by (rule deaf_dependent [where f = "\<lambda>m. attempt_rollback (signalled s h) b (jr_state (mc_record m)) msg"
        and g = "\<lambda>m. attempt_rollback h b (jr_state (mc_record m)) msg"]) (rule deaf_attempt_rollback)
  show "deploy_recover (signalled s h) b e m = deploy_recover h b e m"
    unfolding deploy_recover_def reraise_def signalled_fields
    by (rule protected, intro deaf_seq rb) (auto intro!: deaf_seq deaf_call deaf_fail_with deaf_simple)
  have "deaf (case ho_complete_plan h of None \<Rightarrow> give ()
        | Some plan \<Rightarrow> catch (call (signalled s h) Complete_Recovery_Plan plan) (\<lambda>_. give ()))
      (case ho_complete_plan h of None \<Rightarrow> give ()
        | Some plan \<Rightarrow> catch (call h Complete_Recovery_Plan plan) (\<lambda>_. give ()))"
    by (cases "ho_complete_plan h") (auto intro!: deaf_acts)
  then show "commit (signalled s h) b m = commit h b m"
    unfolding commit_def signalled_fields by (intro protected deaf_seq deaf_succeed)
  show "deploy_tidy (signalled s h) b m = deploy_tidy h b m"
    unfolding deploy_tidy_def signalled_fields
    by (intro protected deaf_catch deaf_seq deaf_call deaf_record_cleanup deaf_simple)
qed

section \<open>Preflights\<close>

text \<open>A path of a preflight: some of the two candidate operations, the rollback, a record.\<close>

definition rehearsed :: "event list \<Rightarrow> bool" where
  "rehearsed es \<longleftrightarrow> (\<exists>k \<le> 2. \<exists>j. es = map Called (take k [Validate, Prepare_Candidate])
      @ [Called (Rollback (Some ''validated''))] @ j \<and> (j = [] \<or> (\<exists>x. j = [Installed (Attempt x)])))"

lemma preflight_fail_outcome:
  assumes "preflight_fail h e recovery passed m = (r, m')"
  shows "mc_trace m' = mc_trace m \<or> (\<exists>j. mc_trace m' = mc_trace m @ [Installed (Attempt j)])"
proof -
  let ?j = "failing (ho_patterns h) e recovery passed (mc_record m)"
  have "seq (timestamp h) (\<lambda>now. seq (on_record (failed now None)) (\<lambda>_. save h)) (m\<lparr>mc_record := ?j\<rparr>) = (r, m')"
    using assms by (simp add: preflight_fail_def seq_on_record)
  from stamped_save [OF this] show ?thesis by auto
qed

lemma preflight_succeed_outcome:
  assumes "preflight_succeed h recovery m = (r, m')"
  shows "mc_trace m' = mc_trace m \<and> (\<exists>e. r = Inl e)
    \<or> (\<exists>now. mc_trace m' = mc_trace m @ [Installed (Attempt (preflight_succeeded (ho_patterns h) now recovery (mc_record m)))])"
  using stamped_save [of h "\<lambda>now. preflight_succeeded (ho_patterns h) now recovery" m r m'] assms
  by (auto simp: preflight_succeed_def)

lemma reraise_trace: "seq f (\<lambda>_. reraise prefix e) m = (r, m') \<Longrightarrow> (\<exists>r1. f m = (r1, m')) \<and> (\<exists>e'. r = Inl e')"
  by (auto simp: seq_def reraise_def split: prod.splits sum.splits)

lemma preflight_recover_outcome:
  assumes "preflight_recover h b e m = (r, m')"
  shows "(\<exists>e'. r = Inl e') \<and> (\<exists>j. mc_trace m' = mc_trace m @ [Called (Rollback (Some ''validated''))] @ j
      \<and> (j = [] \<or> (\<exists>x. j = [Installed (Attempt x)])))"
proof -
  obtain recovery passed where rb: "rolled_back h b (Some ''validated'') preflight_message (mc_world m) = (recovery, passed)"
    by fastforce
  let ?m = "m\<lparr>mc_armed := False, mc_trace := mc_trace m @ [Called (Rollback (Some ''validated''))],
      mc_world := snd (ho_rollback h b (Some ''validated'') (mc_world m))\<rparr>"
  have "seq (preflight_fail h e recovery passed) (\<lambda>_. reraise ''Candidate preflight failed: '' e) ?m = (r, m')"
    using assms rb
    by (simp add: preflight_recover_def seq_protect seq_def [of "attempt_rollback h b s msg" for s msg] attempt_rollback_disarmed)
  then obtain r1 where "preflight_fail h e recovery passed ?m = (r1, m')" "\<exists>e'. r = Inl e'"
    using reraise_trace by blast
  then show ?thesis
    using preflight_fail_outcome by fastforce
qed

lemma preflight_restore_outcome:
  assumes "preflight_restore h b m = (r, m')"
  shows "\<exists>j. mc_trace m' = mc_trace m @ [Called (Rollback (Some ''validated''))] @ j
      \<and> (j = [] \<and> r \<noteq> Inr () \<or> (\<exists>x. j = [Installed (Attempt x)]
           \<and> (r = Inr () \<longrightarrow> (\<exists>now recovery. x = preflight_succeeded (ho_patterns h) now recovery (mc_record m)))))"
proof -
  let ?m = "m\<lparr>mc_armed := False, mc_trace := mc_trace m @ [Called (Rollback (Some ''validated''))],
      mc_world := snd (ho_rollback h b (Some ''validated'') (mc_world m))\<rparr>"
  show ?thesis
  proof (cases "fst (ho_rollback h b (Some ''validated'') (mc_world m))")
    case (Inl e)
    obtain msg front where "seq (preflight_fail h e msg False) (\<lambda>_. reraise front e) ?m = (r, m')"
      using assms Inl by (simp add: preflight_restore_def seq_protect call_disarmed)
    from reraise_trace [OF this] obtain r1 where "preflight_fail h e msg False ?m = (r1, m')" "\<exists>e'. r = Inl e'"
      by blast
    then show ?thesis
      using preflight_fail_outcome [of h e msg False ?m r1 m'] by auto
  next
    case (Inr recovery)
    then have "preflight_succeed h recovery ?m = (r, m')"
      using assms by (simp add: preflight_restore_def seq_protect call_disarmed)
    from preflight_succeed_outcome [OF this] show ?thesis
      by auto blast+
  qed
qed

lemma preflight_guarded_outcome:
  assumes "preflight_guarded h b m = (r, m')"
  shows "\<exists>es. mc_trace m' = mc_trace m @ es \<and> rehearsed es
    \<and> (r = Inr () \<longrightarrow> (\<exists>now recovery. es = map Called [Validate, Prepare_Candidate, Rollback (Some ''validated'')]
         @ [Installed (Attempt (preflight_succeeded (ho_patterns h) now recovery (mc_record m)))]))"
proof -
  let ?f = "seq (call h Validate (ho_validate h b)) (\<lambda>_. call h Prepare_Candidate (ho_prepare_candidate h b))"
  obtain r1 m1 where f: "?f m = (r1, m1)" by fastforce
  have started: "mc_record m1 = mc_record m \<and> (\<exists>k \<le> 2. mc_trace m1 = mc_trace m @ map Called (take k [Validate, Prepare_Candidate])
      \<and> (r1 = Inr () \<longrightarrow> k = 2))"
    using f
  proof (cases rule: seq_cases)
    case (first e)
    from call_outcome [OF first(1)] show ?thesis
    proof
      assume "mc_armed m \<and> quiet m m1 \<and> (\<exists>e'. Inl e = Inl e')"
      then show ?thesis
        using first(2) by (intro conjI exI [of _ 0]) (auto simp: quiet_def)
    next
      assume "mc_record m1 = mc_record m \<and> mc_disk m1 = mc_disk m \<and> mc_trace m1 = mc_trace m @ [Called Validate]
        \<and> (mc_armed m1 \<longrightarrow> mc_armed m) \<and> (\<exists>w. Inl e = fst (ho_validate h b w) \<and> (\<not> mc_armed m \<longrightarrow> w = mc_world m))"
      then show ?thesis
        using first(2) by (intro conjI exI [of _ 1]) auto
    qed
  next
    case (both x m2)
    from call_outcome [OF both(1)] have m2: "mc_record m2 = mc_record m" "mc_trace m2 = mc_trace m @ [Called Validate]"
      by auto
    from call_outcome [OF both(2)] show ?thesis
    proof
      assume "mc_armed m2 \<and> quiet m2 m1 \<and> (\<exists>e'. r1 = Inl e')"
      then show ?thesis
        using m2 by (intro conjI exI [of _ 1]) (auto simp: quiet_def)
    next
      assume "mc_record m1 = mc_record m2 \<and> mc_disk m1 = mc_disk m2 \<and> mc_trace m1 = mc_trace m2 @ [Called Prepare_Candidate]
        \<and> (mc_armed m1 \<longrightarrow> mc_armed m2) \<and> (\<exists>w. r1 = fst (ho_prepare_candidate h b w) \<and> (\<not> mc_armed m2 \<longrightarrow> w = mc_world m2))"
      then show ?thesis
        using m2 by (intro conjI exI [of _ 2]) auto
    qed
  qed
  then obtain k where k: "k \<le> 2" "mc_trace m1 = mc_trace m @ map Called (take k [Validate, Prepare_Candidate])"
      "r1 = Inr () \<longrightarrow> k = 2" and rec: "mc_record m1 = mc_record m"
    by blast
  show ?thesis
  proof (cases r1)
    case (Inl e)
    then have "preflight_recover h b e m1 = (r, m')"
      using assms f by (simp add: preflight_guarded_def)
    from preflight_recover_outcome [OF this] k show ?thesis
      unfolding rehearsed_def by (auto simp del: take_Suc_Cons)
  next
    case (Inr u)
    then have two: "k = 2" and "preflight_restore h b m1 = (r, m')"
      using assms f k(3) by (simp_all add: preflight_guarded_def)
    from preflight_restore_outcome [OF this(2)] obtain j
      where j: "mc_trace m' = mc_trace m1 @ [Called (Rollback (Some ''validated''))] @ j"
        "j = [] \<and> r \<noteq> Inr () \<or> (\<exists>x. j = [Installed (Attempt x)]
           \<and> (r = Inr () \<longrightarrow> (\<exists>now recovery. x = preflight_succeeded (ho_patterns h) now recovery (mc_record m1))))"
      by blast
    let ?es = "map Called (take 2 [Validate, Prepare_Candidate]) @ [Called (Rollback (Some ''validated''))] @ j"
    have "mc_trace m' = mc_trace m @ ?es"
      using j(1) k(2) two by simp
    moreover have "rehearsed ?es"
      unfolding rehearsed_def using j(2) by (intro exI [of _ 2] exI [of _ j]) auto
    ultimately show ?thesis
      using j(2) rec by (intro exI [of _ ?es]) auto
  qed
qed

lemma durable_preflight_fail [durable_acts]: "moves durable (preflight_fail h e recovery passed)"
  unfolding preflight_fail_def by (intro durable_acts)

lemma durable_preflight_succeed [durable_acts]: "moves durable (preflight_succeed h recovery)"
  unfolding preflight_succeed_def by (intro durable_acts)

lemma durable_preflight_recover: "moves durable (preflight_recover h b e)"
  unfolding preflight_recover_def by (intro durable_acts) (auto split: prod.split intro!: durable_acts)

lemma durable_preflight_restore: "moves durable (preflight_restore h b)"
proof -
  have "moves durable (\<lambda>m. case call h op f m of
      (Inl e, m') \<Rightarrow> seq (preflight_fail h e text1 False) (\<lambda>_. reraise text2 e) m'
    | (Inr recovery, m') \<Rightarrow> preflight_succeed h recovery m')" for op f text1 text2
  proof (rule movesI)
    have tail: "moves durable (seq (preflight_fail h e text1 False) (\<lambda>_. reraise text2 e))" for e
      by (intro durable_acts)
    fix m m' :: "'a machine" and r
    assume "(case call h op f m of
      (Inl e, m') \<Rightarrow> seq (preflight_fail h e text1 False) (\<lambda>_. reraise text2 e) m'
    | (Inr recovery, m') \<Rightarrow> preflight_succeed h recovery m') = (r, m')"
    then show "durable m m'"
      by (auto split: prod.splits sum.splits
          dest!: movesD [OF durable_call] movesD [OF durable_preflight_succeed] movesD [OF tail]
          elim: transpD [OF durable_trans])
  qed
  then show ?thesis
    unfolding preflight_restore_def by (intro durable_acts)
qed

lemma durable_preflight_guarded: "moves durable (preflight_guarded h b)"
proof (rule movesI)
  fix m m' :: "'a machine" and r
  assume a: "preflight_guarded h b m = (r, m')"
  have "moves durable (seq (call h Validate (ho_validate h b)) (\<lambda>_. call h Prepare_Candidate (ho_prepare_candidate h b)))"
    by (intro durable_acts)
  with a show "durable m m'"
    by (auto simp: preflight_guarded_def split: prod.splits sum.splits
        dest!: movesD [OF durable_preflight_recover] movesD [OF durable_preflight_restore]
        dest: movesD elim: transpD [OF durable_trans])
qed

lemma replay_called: "replay (map Called ops @ es) ds = replay es ds"
  by (induction ops) auto

lemma preflight_succeeded_fields:
  "jr_attempt_id (preflight_succeeded patterns now recovery j) = jr_attempt_id j"
  "jr_result (preflight_succeeded patterns now recovery j) = ''success''"
  "jr_state (preflight_succeeded patterns now recovery j) = Some ''candidate_validated''"
  "jr_rollback (preflight_succeeded patterns now recovery j) = Some (rollback_entry patterns recovery True)"
  by (simp_all add: preflight_succeeded_def Let_def)

lemma rehearsed_files:
  assumes "rehearsed es"
  shows "ds_current (replay es ds) = ds_current ds"
proof -
  obtain k j where "es = map Called (take k [Validate, Prepare_Candidate] @ [Rollback (Some ''validated'')]) @ j"
    and "j = [] \<or> (\<exists>x. j = [Installed (Attempt x)])"
    using assms by (auto simp: rehearsed_def simp del: take_Suc_Cons)
  then show ?thesis
    by (auto simp: replay_called attempt_on_install simp del: map_append)
qed

text \<open>
  A preflight calls at most the validation and the preparation of the candidate and
  then always rolls back, once, to the validated state; it never calls an operation that
  touches the database, the traffic or the workers, and leaves the current pointer
  alone. When it returns, the attempt on disk is a success in the state
  \<open>candidate_validated\<close> with a passed rollback.
\<close>

theorem preflight_spares_production:
  assumes "mc_record m = base_record now b ''preflight''" and "preflight_run h b m = (r, m')"
    and "mc_trace m' = mc_trace m @ es"
  shows "(es = [] \<or> rehearsed es) \<and> ds_current (mc_disk m') = ds_current (mc_disk m)
    \<and> (r = Inr () \<longrightarrow> called es = [Validate, Prepare_Candidate, Rollback (Some ''validated'')]
      \<and> (\<exists>j. attempt_on (mc_disk m') (bu_attempt_id b) = Some j \<and> jr_result j = ''success''
            \<and> jr_state j = Some ''candidate_validated'' \<and> map_option rb_result (jr_rollback j) = Some ''passed''))"
  using assms(2) unfolding preflight_run_def
  proof (cases rule: with_guard_cases)
    case (refused e)
    then show ?thesis
      using assms(3) by (simp add: quiet_def)
  next
    case (inside w m1)
    let ?m = "m\<lparr>mc_armed := True, mc_world := w\<rparr>"
    obtain fs where fs: "mc_trace m1 = mc_trace ?m @ fs" "rehearsed fs"
      "r = Inr () \<longrightarrow> (\<exists>now recovery. fs = map Called [Validate, Prepare_Candidate, Rollback (Some ''validated'')]
         @ [Installed (Attempt (preflight_succeeded (ho_patterns h) now recovery (mc_record ?m)))])"
      using preflight_guarded_outcome [OF inside(2)] by blast
    then have same: "fs = es"
      using assms(3) by (simp add: inside(3))
    have files: "same_files (replay es (mc_disk m)) (mc_disk m')"
      using movesD [OF durable_preflight_guarded inside(2)] fs(1) by (auto simp: durable_def inside(3) same)
    have "called es = [Validate, Prepare_Candidate, Rollback (Some ''validated'')]
      \<and> (\<exists>j. attempt_on (mc_disk m') (bu_attempt_id b) = Some j \<and> jr_result j = ''success''
            \<and> jr_state j = Some ''candidate_validated'' \<and> map_option rb_result (jr_rollback j) = Some ''passed'')"
      if ok: "r = Inr ()"
    proof -
      obtain now' recovery where es: "es = map Called [Validate, Prepare_Candidate, Rollback (Some ''validated'')]
          @ [Installed (Attempt (preflight_succeeded (ho_patterns h) now' recovery (base_record now b ''preflight'')))]"
        using fs(3) ok assms(1) same by auto
      let ?j = "preflight_succeeded (ho_patterns h) now' recovery (base_record now b ''preflight'')"
      have "attempt_on (replay es (mc_disk m)) (bu_attempt_id b) = Some ?j"
        unfolding es by (simp add: attempt_on_install preflight_succeeded_fields base_record_def)
      then have "attempt_on (mc_disk m') (bu_attempt_id b) = Some ?j"
        using files by (simp add: same_files_def attempt_on_def)
      moreover have "called es = [Validate, Prepare_Candidate, Rollback (Some ''validated'')]"
        unfolding es by simp
      ultimately show ?thesis
        by (simp add: preflight_succeeded_fields rollback_entry_def)
    qed
    moreover have "ds_current (mc_disk m') = ds_current (mc_disk m)"
      using files rehearsed_files [OF fs(2)] by (simp add: same_files_def same)
    moreover have "rehearsed es"
      using fs(2) by (simp add: same)
    ultimately show ?thesis by blast
  qed

section \<open>Bounded failure text\<close>

lemma splitlines_from_no_end:
  "list_all (Not \<circ> line_end) acc \<Longrightarrow> list_all (list_all (Not \<circ> line_end)) (splitlines_from acc s)"
proof (induction acc s rule: splitlines_from.induct)
  case (2 acc c cs)
  then show ?case
    by (simp split del: if_split) (simp split: if_split)
qed simp

lemma splitlines_no_end: "line \<in> set (splitlines s) \<Longrightarrow> c \<in> set line \<Longrightarrow> \<not> line_end c"
  using splitlines_from_no_end [of "[]" s] by (auto simp: splitlines_def list_all_iff)

lemma splitlines_from_nonempty: "acc \<noteq> [] \<or> s \<noteq> [] \<Longrightarrow> splitlines_from acc s \<noteq> []"
  by (induction acc s rule: splitlines_from.induct) auto

lemma list_all_last_n: "list_all P xs \<Longrightarrow> list_all P (last_n n xs)"
  using set_last_n [of n xs] by (auto simp: list_all_iff)

lemma LF_not_blank: "LF \<noteq> CHR '' ''"
  unfolding LF_def by code_simp

lemma LF_ends: "line_end LF"
  by (simp add: line_end_def LF_def code_def)

definition failure_raw :: "(string \<Rightarrow> string) list \<Rightarrow> exn \<Rightarrow> string" where
  "failure_raw patterns e = to_ascii (redact_sensitive_text patterns (unix_lines (strip_text (ex_text e))))"

text \<open>
  However long and strange the text of an exception: the summary has at most 500
  characters and no line break, the detail at most 32 KiB, both are ASCII, and the
  rollback's entry is one line of at most 500 characters.
\<close>

theorem failure_fields_bounded:
  assumes "list_all is_ascii (ex_class e)" and "LF \<notin> set (ex_class e)"
    and "failure_fields patterns e = (summary, detail)"
  shows "length summary \<le> 500 \<and> LF \<notin> set summary \<and> list_all is_ascii summary
    \<and> length detail \<le> 32768 \<and> list_all is_ascii detail
    \<and> length (rb_detail (rollback_entry patterns recovery passed)) \<le> 500
    \<and> LF \<notin> set (rb_detail (rollback_entry patterns recovery passed))"
proof -
  let ?raw = "failure_raw patterns e"
  let ?detail = "join [LF] (map (take 500) (last_n 80 (splitlines ?raw)))"
  have parts: "summary = take 500 (if ?raw = [] then ex_class e else hd (splitlines ?raw))"
    "detail = last_n MAX_FAILURE_DETAIL_BYTES (if ?detail = [] then ex_class e else ?detail)"
    using assms(3) by (auto simp: failure_fields_def failure_raw_def Let_def)
  have raw: "list_all is_ascii ?raw"
    by (simp add: failure_raw_def to_ascii_ascii)
  have hd_in: "hd (splitlines ?raw) \<in> set (splitlines ?raw)" if "?raw \<noteq> []"
    using splitlines_from_nonempty [of "[]" ?raw] that by (simp add: splitlines_def)
  have "set summary \<subseteq> set ?raw \<or> set summary \<subseteq> set (ex_class e)"
  proof (cases "?raw = []")
    case True
    then show ?thesis by (simp add: parts(1) set_take_subset)
  next
    case False
    then have "set (hd (splitlines ?raw)) \<subseteq> set ?raw"
      by (rule splitlines_chars [OF hd_in])
    with False show ?thesis
      using set_take_subset [of 500 "hd (splitlines ?raw)"] by (simp add: parts(1)) blast
  qed
  then have s_ascii: "list_all is_ascii summary"
    using raw assms(1) by (auto simp: list_all_iff)
  have "LF \<notin> set (hd (splitlines ?raw))" if "?raw \<noteq> []"
    using splitlines_no_end [OF hd_in [OF that]] LF_ends by blast
  then have s_line: "LF \<notin> set summary"
    using assms(2) in_set_takeD [of LF 500] by (simp add: parts(1)) blast
  have "set ?detail \<subseteq> insert LF (set ?raw)"
  proof -
    have "\<Union> (set ` set (map (take 500) (last_n 80 (splitlines ?raw)))) \<subseteq> set ?raw"
      using set_last_n [of 80 "splitlines ?raw"] splitlines_chars [of _ ?raw]
      by (fastforce dest: in_set_takeD)
    with set_join [of "[LF]" "map (take 500) (last_n 80 (splitlines ?raw))"] show ?thesis by auto
  qed
  moreover have "is_ascii LF"
    by (simp add: is_ascii_def LF_def code_def)
  ultimately have "list_all is_ascii ?detail"
    using raw by (auto simp: list_all_iff)
  then have d_ascii: "list_all is_ascii detail"
    unfolding parts(2) by (intro list_all_last_n) (simp add: assms(1))
  have "length detail \<le> 32768"
    unfolding parts(2) by (simp add: MAX_FAILURE_DETAIL_BYTES_def)
  moreover have "length summary \<le> 500"
    unfolding parts(1) by simp
  moreover have "length (rb_detail (rollback_entry patterns recovery passed)) \<le> 500"
    "LF \<notin> set (rb_detail (rollback_entry patterns recovery passed))"
    using LF_not_blank by (auto simp: rollback_entry_def one_line_def dest!: in_set_takeD split: if_splits)
  ultimately show ?thesis
    using s_ascii s_line d_ascii by blast
qed

text \<open>
  A journal write is all or nothing: either the document is in place, and nothing
  else of the files changed, or every document is as it was and the write raised.
\<close>

theorem atomic_write_all_or_nothing:
  assumes "atomic_write h doc m = (r, m')"
  shows "mc_disk m' = install doc (mc_disk m)
    \<or> same_files (mc_disk m) (mc_disk m') \<and> (\<exists>e. r = Inl e)"
  using atomic_write_outcome [OF assms] by (auto simp: installed_def abandoned_def same_files_def)

section \<open>A willing host\<close>

text \<open>No fault, no signal, and every operation answers, with evidence of success.\<close>

definition calm :: "'w host \<Rightarrow> bool" where
  "calm h \<longleftrightarrow> faultless h \<and> (\<forall>w. fst (ho_signal h w) = None) \<and> (\<forall>w. fst (ho_guard h w) = False)"

definition good_evidence :: "'w host \<Rightarrow> mapping \<Rightarrow> bool" where
  "good_evidence h v \<longleftrightarrow> (\<exists>c. verification_entry (ho_patterns h) v = Inr c \<and> get_key c ''result'' = PStr ''success'')"

definition answers :: "('w \<Rightarrow> (exn + 'a) \<times> 'w) \<Rightarrow> bool" where
  "answers f \<longleftrightarrow> (\<forall>w. \<exists>x. fst (f w) = Inr x)"

definition willing :: "'w host \<Rightarrow> release_bundle \<Rightarrow> bool" where
  "willing h b \<longleftrightarrow> answers (ho_validate h b) \<and> answers (ho_prepare_candidate h b) \<and> answers (ho_backup h b)
     \<and> answers (ho_migrate h b) \<and> answers (ho_candidate_health h b) \<and> answers (ho_switch_traffic h b)
     \<and> answers (ho_replace_workers h b) \<and> answers (ho_promote_web h b) \<and> answers (ho_finalize h b)
     \<and> (\<forall>w. \<exists>v. fst (ho_stabilize h b w) = Inr v \<and> good_evidence h v)"

definition untroubled :: "('w, 'a) run \<Rightarrow> bool" where
  "untroubled f \<longleftrightarrow> (\<forall>m. \<exists>x m'. f m = (Inr x, m'))"

lemma untroubledD: "untroubled f \<Longrightarrow> \<exists>x m'. f m = (Inr x, m')"
  by (simp add: untroubled_def)

named_theorems untroubled_acts \<open>statements a calm host lets through\<close>

lemma untroubled_seq [untroubled_acts]:
  assumes "untroubled f" and "\<And>x. untroubled (g x)"
  shows "untroubled (seq f g)"
  unfolding untroubled_def
proof
  fix m :: "'a machine"
  obtain x m1 where "f m = (Inr x, m1)"
    using untroubledD [OF assms(1)] by blast
  moreover obtain y m2 where "g x m1 = (Inr y, m2)"
    using untroubledD [OF assms(2)] by blast
  ultimately show "\<exists>x m'. seq f g m = (Inr x, m')"
    by (simp add: seq_def)
qed

lemma untroubled_catch [untroubled_acts]: "untroubled f \<Longrightarrow> untroubled (catch f k)"
  unfolding untroubled_def catch_def by (metis (mono_tags, lifting) old.prod.case sum.case(2))

lemma untroubled_finally [untroubled_acts]:
  assumes "untroubled f" and "untroubled g"
  shows "untroubled (finally_do f g)"
  unfolding untroubled_def
proof
  fix m :: "'a machine"
  obtain x m1 where "f m = (Inr x, m1)"
    using untroubledD [OF assms(1)] by blast
  moreover obtain y m2 where "g m1 = (Inr y, m2)"
    using untroubledD [OF assms(2)] by blast
  ultimately show "\<exists>x m'. finally_do f g m = (Inr x, m')"
    by (simp add: finally_do_def)
qed

lemma untroubled_simple [untroubled_acts]:
  "untroubled (give x)" "untroubled (on_record r)" "untroubled (temporaries k)" "untroubled (replace doc)"
  "untroubled (log_event ev)" "untroubled protect_recovery" "untroubled (timestamp h)"
  by (simp_all add: untroubled_def on_record_def temporaries_def replace_simp log_event_def
      protect_recovery_def timestamp_def split: prod.split)

lemma untroubled_checkpoint: "calm h \<Longrightarrow> untroubled (checkpoint h)"
  unfolding untroubled_def calm_def checkpoint_def
  by (auto split: prod.split option.split) (metis fst_conv option.distinct(1))

lemma untroubled_host_step: "calm h \<Longrightarrow> untroubled (host_step h s)"
proof -
  assume h: "calm h"
  have "untroubled (\<lambda>m. case ho_fault h s (mc_world m) of
      (None, w) \<Rightarrow> (Inr (), m\<lparr>mc_world := w\<rparr>) | (Some e, w) \<Rightarrow> (Inl e, m\<lparr>mc_world := w\<rparr>))"
    using h unfolding untroubled_def calm_def faultless_def
    by (auto split: prod.split option.split) (metis fst_conv option.distinct(1))
  then show ?thesis
    unfolding host_step_def by (intro untroubled_seq untroubled_checkpoint h)
qed

lemma untroubled_atomic_write: "calm h \<Longrightarrow> untroubled (atomic_write h doc)"
  unfolding atomic_write_def write_temporary_def write_replaced_def
  by (intro untroubled_acts untroubled_host_step)

lemma untroubled_call: "calm h \<Longrightarrow> answers f \<Longrightarrow> untroubled (call h op f)"
proof -
  assume h: "calm h" and f: "answers f"
  have "untroubled (on_world f)"
    unfolding untroubled_def
  proof
    fix m :: "'a machine"
    obtain x where "fst (f (mc_world m)) = Inr x"
      using f by (auto simp: answers_def)
    then show "\<exists>x m'. on_world f m = (Inr x, m')"
      by (auto simp: on_world_def split: prod.split)
  qed
  then show ?thesis
    unfolding call_def by (intro untroubled_acts untroubled_checkpoint h)
qed

lemma untroubled_save: "calm h \<Longrightarrow> untroubled (save h)"
  using untroubled_atomic_write unfolding untroubled_def save_def by blast

lemma advance_calm:
  assumes "calm h" and "advance_check (ho_patterns h) state verification (mc_record m) = Inr checked"
  shows "\<exists>m'. advance h state backup verification m = (Inr (), m')"
proof -
  have "untroubled (seq (timestamp h) (\<lambda>now. seq (on_record (advanced now state backup checked)) (\<lambda>_. save h)))"
    by (intro untroubled_acts untroubled_save assms(1))
  from untroubledD [OF this] show ?thesis
    by (simp add: advance_def assms(2))
qed

definition willing_stages :: "'w host \<Rightarrow> nat \<Rightarrow> 'w stage list \<Rightarrow> bool" where
  "willing_stages h n ss \<longleftrightarrow> (\<forall>i < length ss. \<forall>w. \<exists>backup verification.
     fst (snd (ss ! i) w) = Inr (backup, verification)
     \<and> (if n + i = 7 then \<exists>v. verification = Some v \<and> good_evidence h v else verification = None))"

lemma willing_stages_Cons:
  "willing_stages h n ((op, f) # ss) \<longleftrightarrow>
     (\<forall>w. \<exists>backup verification. fst (f w) = Inr (backup, verification)
        \<and> (if n = 7 then \<exists>v. verification = Some v \<and> good_evidence h v else verification = None))
     \<and> willing_stages h (Suc n) ss"
  unfolding willing_stages_def by (auto simp: All_less_Suc2 less_Suc_eq_0_disj)

lemma run_stages_calm:
  assumes "calm h" and "willing_stages h n ss" and "map fst ss = drop n forward"
    and "running b n (mc_record m)" and "engaged b t (Ready n) m" and "n \<le> 10"
  shows "\<exists>m1. running b 10 (mc_record m1) \<and> engaged b t (Ready 10) m1 \<and> run_stages h ss n k m = k m1"
  using assms
proof (induction h ss n k arbitrary: m rule: run_stages.induct)
  case (1 h n k)
  then have "n = 10" by simp
  with 1 show ?case by auto
next
  case (2 h op f ss n k)
  have n: "n < 10"
    using 2(4) by (cases "n < 10") auto
  have "drop n forward = forward ! n # drop (Suc n) forward"
    by (rule Cons_nth_drop_Suc [symmetric]) (simp add: n)
  with 2(4) have op: "op = forward ! n" and rest: "map fst ss = drop (Suc n) forward"
    by auto
  have "answers f"
    using 2(3) unfolding answers_def willing_stages_Cons by blast
  then obtain x m1 where c: "call h op f m = (Inr x, m1)"
    using untroubledD [OF untroubled_call [OF 2(2)]] by blast
  have rec: "mc_record m1 = mc_record m" and tr: "mc_trace m1 = mc_trace m @ [Called op]"
    and "\<exists>w. Inr x = fst (f w)"
    using call_outcome [OF c] by auto
  then obtain backup verification where x: "x = (backup, verification)"
    "if n = 7 then \<exists>v. verification = Some v \<and> good_evidence h v else verification = None"
    using 2(3) unfolding willing_stages_Cons by (metis old.sum.inject(2))
  have run: "running b n (mc_record m1)" and eng: "engaged b t (Calling n) m1"
    using 2(5) engaged_more [OF 2(6) tr] engine_step.start [OF n] op by (simp_all add: rec)
  have "\<exists>checked. advance_check (ho_patterns h) (DEPLOYMENT_STATES ! n) verification (mc_record m1) = Inr checked"
    using x(2) advance_check_ok [of n "mc_record m1" "ho_patterns h"] n run
    by (auto simp: running_def good_evidence_def split: if_splits)
  then obtain m2 where adv: "advance h (DEPLOYMENT_STATES ! n) backup verification m1 = (Inr (), m2)"
    using advance_calm [OF 2(2)] by blast
  have "running b (Suc n) (mc_record m2)" "engaged b t (Ready (Suc n)) m2"
    using advance_outcome(2) [OF run eng n adv] by simp_all
  then obtain m3 where "running b 10 (mc_record m3)" "engaged b t (Ready 10) m3" "run_stages h ss (Suc n) k m2 = k m3"
    using 2(1) [OF 2(2) _ rest] 2(3) n unfolding willing_stages_Cons by fastforce
  then show ?case
    using c adv x(1) by (auto simp: seq_def)
qed

lemma answer_stage:
  assumes "answers f"
  shows "\<exists>x. fst (answer g f w) = Inr (g x)"
proof -
  obtain x where "fst (f w) = Inr x"
    using assms by (auto simp: answers_def)
  then show ?thesis
    by (auto simp: answer_def split: prod.split)
qed

lemma willing_all:
  assumes "willing h b"
  shows "willing_stages h 0 (stages h b)"
proof -
  have "\<exists>bk. fst (answer (\<lambda>_. (None, None)) f w) = Inr (bk :: mapping option, None :: mapping option)"
    if "answers f" for f :: "'a \<Rightarrow> (exn + unit) \<times> 'a" and w
    using answer_stage [OF that] by fastforce
  moreover have "\<exists>bk. fst (answer (\<lambda>v. (Some v, None)) (ho_backup h b) w) = Inr (bk, None :: mapping option)" for w
    using answer_stage [of "ho_backup h b"] assms by (fastforce simp: willing_def)
  moreover have "\<exists>bk v. fst (answer (\<lambda>v. (None, Some v)) (ho_stabilize h b) w) = Inr (bk :: mapping option, v)
      \<and> (\<exists>c. v = Some c \<and> good_evidence h c)" for w
  proof -
    obtain v where "fst (ho_stabilize h b w) = Inr v" "good_evidence h v"
      using assms by (auto simp: willing_def)
    then show ?thesis
      by (auto simp: answer_def split: prod.split)
  qed
  moreover have "willing_stages h n []" for n
    by (simp add: willing_stages_def)
  ultimately show ?thesis
    using assms unfolding stages_def Let_def willing_stages_Cons willing_def by (intro conjI allI) simp_all
qed

lemma deploy_returns:
  assumes "calm h" and "willing h b" and "mc_record m = base_record now b ''deploy''"
  shows "\<exists>m'. deploy_run h b m = (Inr (), m')"
proof -
  let ?b0 = "base_record now b ''deploy''"
  obtain w where w: "ho_guard h (mc_world m) = (False, w)"
    using assms(1) unfolding calm_def by (metis prod.collapse)
  let ?m = "m\<lparr>mc_armed := True, mc_world := w\<rparr>"
  have "running ?b0 0 (mc_record ?m)"
    using running_base by (simp add: assms(3))
  moreover have "engaged ?b0 (mc_trace m) (Ready 0) ?m"
    by (auto simp: engaged_def intro: follows.none)
  ultimately obtain m1 where m1: "running ?b0 10 (mc_record m1)" "engaged ?b0 (mc_trace m) (Ready 10) m1"
      "deploy_body h b ?m = commit h b m1"
    using run_stages_calm [OF assms(1) willing_all [OF assms(2)], of ?b0 ?m "mc_trace m" "commit h b"]
    by (auto simp: deploy_body_stages stages_forward)
  have st: "jr_state (mc_record m1) = Some ''verified''"
    using running_verified(1) [OF m1(1)] .
  let ?f = "seq (timestamp h) (\<lambda>now. seq (on_record (succeeded now)) (\<lambda>_. seq (save h)
      (\<lambda>_ m'. atomic_write h (Current (pointer_of b (mc_record m'))) m')))"
  have "untroubled (\<lambda>m'. atomic_write h (Current (pointer_of b (mc_record m'))) m')"
    using untroubled_atomic_write [OF assms(1)] unfolding untroubled_def by blast
  then have "untroubled ?f"
    by (intro untroubled_acts untroubled_save assms(1))
  from untroubledD [OF this, of "m1\<lparr>mc_armed := False\<rparr>"]
  obtain m2 where "succeed h b (m1\<lparr>mc_armed := False\<rparr>) = (Inr (), m2)"
    using st by (auto simp: succeed_def)
  moreover have "\<exists>m3. (case ho_complete_plan h of None \<Rightarrow> give ()
      | Some plan \<Rightarrow> catch (call h Complete_Recovery_Plan plan) (\<lambda>_. give ())) m2 = (Inr (), m3)"
    by (auto simp: catch_def split: option.split prod.split sum.split)
  ultimately obtain m3 where m3: "commit h b m1 = (Inr (), m3)"
    by (auto simp: commit_def protect_recovery_def seq_def)
  have ident: "bu_release_commit b = jr_release_commit ?b0" "bu_manifest_sha256 b = jr_manifest_sha256 ?b0"
    by (simp_all add: base_record_def)
  have fin: "finished ?b0 (mc_record m3)"
    "engaged ?b0 (mc_trace m) Committed m3 \<or> engaged ?b0 (mc_trace m) Planned m3"
    using commit_outcome(2) [OF m1(1,2) ident m3] by auto
  obtain r m4 where m4: "deploy_tidy h b m3 = (r, m4)"
    by fastforce
  with tidy_outcome [OF fin m4] have "deploy_guarded h b ?m = (Inr (), m4)"
    by (simp add: deploy_guarded_def m1(3) m3)
  then show ?thesis
    by (simp add: deploy_run_def with_guard_def seq_def guard_enter_def w finally_do_def guard_exit_def)
qed

text \<open>
  C15. When the disk works, no signal comes, every operation of the backend answers and
  the stabilization's evidence is one of success, a deployment returns, and the current
  pointer names the release it deployed.
\<close>

theorem deploy_completes:
  assumes "calm h" and "willing h b" and "mc_record m = base_record now b ''deploy''"
  shows "\<exists>m' q. deploy_run h b m = (Inr (), m') \<and> ds_current (mc_disk m') = Some q
    \<and> pt_release_commit q = bu_release_commit b \<and> pt_manifest_sha256 q = bu_manifest_sha256 b"
proof -
  obtain m' where m': "deploy_run h b m = (Inr (), m')"
    using deploy_returns [OF assms] by blast
  from assms(3) m' show ?thesis
  proof (cases rule: deploy_run_outcome)
    case finished
    from engaged_files [OF finished(2) movesD [OF durable_run m'] refl] m'
    show ?thesis
      by (auto simp: base_record_def)
  qed simp_all
qed

end
