(* ===== verification/Deploy_Samples.thy ===== *)
theory Deploy_Samples
  imports Deploy_Results
begin

text \<open>
  The engine on concrete hosts: a deployment that succeeds, one whose migration fails,
  one that is interrupted, and a preflight. The world counts the clock's ticks.
\<close>

definition sample_bundle :: release_bundle where
  "sample_bundle = \<lparr>bu_attempt_id = ''71-1'', bu_repository = ''buh/platform'',
     bu_release_commit = ''c0ffee'', bu_source_commit = ''5eed'', bu_platform_version = ''4.2.0'',
     bu_manifest_sha256 = ''abcd'', bu_recovery_transition = None, bu_recovery_sha256 = None\<rparr>"

definition sample_evidence :: mapping where
  "sample_evidence = [(''filename'', PStr ''HEALTH.json''), (''sha256'', PStr (replicate 64 (CHR ''a''))),
     (''result'', PStr ''success''), (''iterations'', PInt 3), (''allowed_log_findings'', PInt 1),
     (''warnings'', PList [PStr ''slow worker'']), (''failure'', PNone)]"

definition fine :: "'a \<Rightarrow> nat \<Rightarrow> (exn + unit) \<times> nat" where
  "fine b w = (Inr (), w)"

definition sample_host :: "nat host" where
  "sample_host = \<lparr>ho_validate = fine, ho_prepare_candidate = fine,
     ho_backup = (\<lambda>b w. (Inr [(''filename'', PStr ''db.sql'')], w)), ho_migrate = fine,
     ho_candidate_health = fine, ho_switch_traffic = fine, ho_replace_workers = fine,
     ho_stabilize = (\<lambda>b w. (Inr sample_evidence, w)), ho_stabilization_evidence = (\<lambda>w. (Inr None, w)),
     ho_promote_web = fine, ho_finalize = fine, ho_complete_plan = Some (\<lambda>w. (Inr (), w)),
     ho_cleanup_success = (\<lambda>b w. (Inr ''removed one slot'', w)),
     ho_rollback = (\<lambda>b s w. (Inr ''restored'', w)), ho_signal = (\<lambda>w. (None, w)),
     ho_guard = (\<lambda>w. (False, w)), ho_clock = (\<lambda>w. (show_nat w, Suc w)),
     ho_fault = (\<lambda>s w. (None, w)), ho_patterns = []\<rparr>"

definition sample_error :: exn where
  "sample_error = \<lparr>ex_class = ''CalledProcessError'', ex_text = ''migrate: exit 1'', ex_deployment = False\<rparr>"

definition broken_host :: "nat host" where
  "broken_host = sample_host\<lparr>ho_migrate := (\<lambda>b w. (Inl sample_error, w))\<rparr>"

definition sample_machine :: "string \<Rightarrow> nat machine" where
  "sample_machine operation = \<lparr>mc_record = base_record ''0'' sample_bundle operation,
     mc_disk = \<lparr>ds_attempts = [], ds_current = None, ds_temporaries = 0\<rparr>, mc_armed = False,
     mc_trace = [], mc_world = 1\<rparr>"

lemma sample_record [simp]: "mc_record (sample_machine op) = base_record ''0'' sample_bundle op"
  by (simp add: sample_machine_def)

abbreviation deploying :: "nat machine" where
  "deploying \<equiv> sample_machine ''deploy''"

abbreviation preflighting :: "nat machine" where
  "preflighting \<equiv> sample_machine ''preflight''"

lemma sample_calm: "calm sample_host"
  by (simp add: calm_def faultless_def sample_host_def)

lemma sample_evidence_checks: "verification_entry [] sample_evidence = Inr sample_evidence"
  by code_simp

lemma sample_evidence_success: "get_key sample_evidence ''result'' = PStr ''success''"
  by code_simp

lemma sample_willing: "willing sample_host sample_bundle"
  using sample_evidence_checks sample_evidence_success
  by (auto simp: willing_def answers_def sample_host_def fine_def good_evidence_def)

lemma sample_returns: "\<exists>m'. deploy_run sample_host sample_bundle deploying = (Inr (), m')"
  by (rule deploy_returns [OF sample_calm sample_willing sample_record])

lemma in_called: "op \<in> set (called es) \<Longrightarrow> Called op \<in> set es"
  by (induction es rule: called.induct) auto

lemma sample_trace [simp]: "mc_trace (sample_machine op) = []"
  by (simp add: sample_machine_def)

section \<open>Witnesses\<close>

lemma deploy_completes_witness:
  "\<exists>m' q. deploy_run sample_host sample_bundle deploying = (Inr (), m') \<and> ds_current (mc_disk m') = Some q
    \<and> pt_release_commit q = ''c0ffee''"
  using deploy_completes [OF sample_calm sample_willing sample_record]
  by (auto simp: sample_bundle_def)

lemma deploy_refines_protocol_witness:
  "\<exists>m'. deploy_run sample_host sample_bundle deploying = (Inr (), m')
    \<and> follows (base_record ''0'' sample_bundle ''deploy'') (Ready 0) (mc_trace m') Tidying"
proof -
  obtain m' where m': "deploy_run sample_host sample_bundle deploying = (Inr (), m')"
    using sample_returns by blast
  then show ?thesis
    using deploy_refines_protocol [OF sample_record m'] by simp
qed

lemma deploy_operations_witness:
  "\<exists>m'. deploy_run sample_host sample_bundle deploying = (Inr (), m')
    \<and> (called (mc_trace m') = forward @ [Cleanup_Success]
       \<or> called (mc_trace m') = forward @ [Complete_Recovery_Plan, Cleanup_Success])"
proof -
  obtain m' where m': "deploy_run sample_host sample_bundle deploying = (Inr (), m')"
    using sample_returns by blast
  then show ?thesis
    using deploy_operations [OF sample_record m', of "mc_trace m'"] by simp
qed

lemma deploy_records_before_operating_witness:
  "\<exists>m' pre post. deploy_run sample_host sample_bundle deploying = (Inr (), m')
    \<and> mc_trace m' = pre @ Called Cleanup_Success # post
    \<and> prior (base_record ''0'' sample_bundle ''deploy'') pre Cleanup_Success"
proof -
  obtain m' where m': "deploy_run sample_host sample_bundle deploying = (Inr (), m')"
    using sample_returns by blast
  have "Cleanup_Success \<in> set (called (mc_trace m'))"
  proof (rule deploy_run_outcome [OF sample_record m'])
    assume "engaged (base_record ''0'' sample_bundle ''deploy'') (mc_trace deploying) Tidying m'"
    then show ?thesis
      using follows_ops by (fastforce simp: engaged_def)
  qed simp_all
  then have "Called Cleanup_Success \<in> set (mc_trace m')"
    by (rule in_called)
  then obtain pre post where split: "mc_trace m' = pre @ Called Cleanup_Success # post"
    using split_list by metis
  then show ?thesis
    using m' deploy_records_before_operating [OF sample_record m', of pre Cleanup_Success post] by auto
qed

lemma deploy_success_is_published_witness:
  "\<exists>m' j. deploy_run sample_host sample_bundle deploying = (Inr (), m')
    \<and> attempt_on (mc_disk m') ''71-1'' = Some j \<and> jr_result j = ''success''"
proof -
  obtain m' where m': "deploy_run sample_host sample_bundle deploying = (Inr (), m')"
    using sample_returns by blast
  then show ?thesis
    using deploy_success_is_published [OF sample_record m'] by (auto simp: sample_bundle_def)
qed

lemma broken_faultless: "faultless broken_host"
  by (simp add: faultless_def broken_host_def sample_host_def)

lemma broken_evidence:
  "\<exists>v checked. fst (ho_stabilization_evidence broken_host w) = Inr v \<and> checked_evidence broken_host v = Inr checked"
  by (simp add: broken_host_def sample_host_def checked_evidence_def)

lemma deploy_failure_is_recorded_witness:
  "\<exists>m' j. deploy_recover broken_host sample_bundle sample_error deploying
      = (Inl (deployment_error ''Deployment failed: migrate: exit 1''), m')
    \<and> attempt_on (mc_disk m') ''71-1'' = Some j \<and> jr_result j = ''failed''
    \<and> map_option rb_result (jr_rollback j) = Some ''passed''"
  using deploy_failure_is_recorded [OF broken_faultless broken_evidence, of sample_bundle sample_error deploying]
  by (auto simp: sample_error_def base_record_def sample_bundle_def broken_host_def sample_host_def)

definition unproven_host :: "nat host" where
  "unproven_host = broken_host\<lparr>ho_stabilization_evidence := (\<lambda>w. (Inr (Some []), w))\<rparr>"

lemma empty_evidence: "verification_entry [] [] = Inl invalid_evidence"
  by code_simp

lemma invalid_evidence_hides_failure_witness:
  "fst (deploy_recover unproven_host sample_bundle sample_error deploying) = Inl invalid_evidence
    \<and> ds_attempts (mc_disk (snd (deploy_recover unproven_host sample_bundle sample_error deploying))) = []"
proof -
  have "ho_patterns unproven_host = []"
    by (simp add: unproven_host_def broken_host_def sample_host_def)
  then have "fst (deploy_recover unproven_host sample_bundle sample_error deploying) = Inl invalid_evidence
    \<and> mc_disk (snd (deploy_recover unproven_host sample_bundle sample_error deploying)) = mc_disk deploying"
    by (intro invalid_evidence_hides_failure [where v = "[]"]) (simp_all add: empty_evidence, simp add: unproven_host_def)
  then show ?thesis
    by (simp add: sample_machine_def)
qed

lemma preflight_spares_production_witness:
  "\<exists>es. mc_trace (snd (preflight_run sample_host sample_bundle preflighting)) = es \<and> (es = [] \<or> rehearsed es)"
proof -
  obtain r m' where m': "preflight_run sample_host sample_bundle preflighting = (r, m')"
    by fastforce
  then show ?thesis
    using preflight_spares_production [OF sample_record m', of "mc_trace m'"] by simp
qed

lemma failure_fields_bounded_witness:
  "length (fst (failure_fields [] sample_error)) \<le> 500 \<and> length (snd (failure_fields [] sample_error)) \<le> 32768"
proof -
  have "list_all is_ascii (ex_class sample_error)" and "LF \<notin> set (ex_class sample_error)"
    by code_simp+
  then show ?thesis
    using failure_fields_bounded [of sample_error "[]" "fst (failure_fields [] sample_error)"
        "snd (failure_fields [] sample_error)"] by simp
qed

lemma atomic_write_all_or_nothing_witness:
  "\<exists>r m'. atomic_write sample_host (Attempt (mc_record deploying)) deploying = (r, m')
    \<and> (mc_disk m' = install (Attempt (mc_record deploying)) (mc_disk deploying)
       \<or> same_files (mc_disk deploying) (mc_disk m'))"
proof -
  obtain r m' where m': "atomic_write sample_host (Attempt (mc_record deploying)) deploying = (r, m')"
    by fastforce
  then show ?thesis
    using atomic_write_all_or_nothing [OF m'] by blast
qed

end
