(* ===== verification/Retry_Budget.thy ===== *)
theory Retry_Budget
  imports PyValue "HOL-Library.AList" "HOL-Library.Char_ord" "HOL-Library.List_Lexorder"
    "HOL-Library.Product_Lexorder" "HOL-Library.Multiset"
begin

text \<open>
  The retry reservation policy of the recovery tools (\<open>ops/recovery/retry_budget.py\<close>):
  which failed sections of which characters are tried again, how often, and what is
  remembered. Numbers have their types and times are finite, so of the checks on the
  inputs those on signs remain; a dictionary is an association list in insertion order.
\<close>

section \<open>Plans and records\<close>

record retry_plan =
  rp_character_pk :: int
  rp_authorization_ids :: "int list"
  rp_sections :: "string list"
  rp_status :: string

record retry_entry =
  re_attempts :: int
  re_last_attempt :: rat
  re_authorization_ids :: "int list"

record retry_limits =
  rl_now :: rat
  rl_cooldown :: rat
  rl_max_attempts :: int
  rl_limit :: int
  rl_override :: bool

text \<open>A candidate is \<open>(attempts, last_attempt, character_pk, section, key)\<close>.\<close>

type_synonym retry_candidate = "int \<times> rat \<times> int \<times> string \<times> string"
type_synonym budget = "(string \<times> retry_entry) list"

record retry_scan =
  sc_current :: budget
  sc_seen :: "string list"
  sc_candidates :: "retry_candidate list"
  sc_templates :: "(int \<times> retry_plan) list"

definition ids :: "int list \<Rightarrow> string + int list" where
  "ids vs = (if list_ex (\<lambda>v. v < 0) vs then Inl ''Authorization IDs must be nonnegative integers''
     else Inr (sort (remdups vs)))"

definition retry_key :: "int \<Rightarrow> string \<Rightarrow> string" where
  "retry_key pk name = show_int pk @ '':'' @ name"

definition no_entry :: retry_entry where
  "no_entry = \<lparr>re_attempts = 0, re_last_attempt = 0, re_authorization_ids = []\<rparr>"

definition previous :: "budget \<Rightarrow> string \<Rightarrow> retry_entry" where
  "previous state key = (case map_of state key of None \<Rightarrow> no_entry | Some e \<Rightarrow> e)"

definition setdefault :: "string \<Rightarrow> retry_entry \<Rightarrow> budget \<Rightarrow> budget" where
  "setdefault key e current = (case map_of current key of None \<Rightarrow> AList.update key e current | Some _ \<Rightarrow> current)"

section \<open>Scanning the plans\<close>

text \<open>
  One section of a plan. The variable \<open>authorization_ids\<close> of the loop is rebound
  here, so its value is passed on to the next section of the same plan.
\<close>

definition scan_section :: "retry_limits \<Rightarrow> budget \<Rightarrow> retry_plan \<Rightarrow> string \<Rightarrow> int list \<times> retry_scan
    \<Rightarrow> string + int list \<times> retry_scan" where
  "scan_section cfg state plan name = (\<lambda>(auth, sc).
     if name = '''' \<or> CHR '':'' \<in> set name
     then Inl ''Section names must be nonempty strings without colons''
     else let pk = rp_character_pk plan; key = retry_key pk name in
       if key \<in> set (sc_seen sc) then Inr (auth, sc)
       else let sc1 = sc\<lparr>sc_seen := key # sc_seen sc\<rparr>; prev = previous state key; attempts = re_attempts prev in
         if attempts < 0 then Inl ''Stored attempt counts must be nonnegative integers''
         else bind_result (ids (re_authorization_ids prev)) (\<lambda>prior.
           if rp_status plan \<noteq> ''planned'' \<or> auth = []
           then Inr (auth, sc1\<lparr>sc_current := setdefault key
                  \<lparr>re_attempts = attempts, re_last_attempt = re_last_attempt prev, re_authorization_ids = prior\<rparr>
                  (sc_current sc1)\<rparr>)
           else let renewed = \<not> set auth \<subseteq> set prior;
                    auth' = (if \<not> renewed \<and> prior \<noteq> [] then prior else auth);
                    attempts' = (if renewed then 0 else attempts);
                    last = (if renewed then 0 else re_last_attempt prev);
                    entry = \<lparr>re_attempts = attempts', re_last_attempt = last, re_authorization_ids = auth'\<rparr>;
                    sc2 = sc1\<lparr>sc_current := AList.update key entry (sc_current sc1)\<rparr>
                in Inr (auth', if rl_override cfg \<or> attempts' < rl_max_attempts cfg
                                \<and> (attempts' = 0 \<or> rl_cooldown cfg \<le> rl_now cfg - last)
                       then sc2\<lparr>sc_candidates := sc_candidates sc2 @ [(attempts', last, pk, name, key)]\<rparr>
                       else sc2)))"

fun scan_sections :: "retry_limits \<Rightarrow> budget \<Rightarrow> retry_plan \<Rightarrow> string list \<Rightarrow> int list \<times> retry_scan
    \<Rightarrow> string + retry_scan" where
  "scan_sections cfg state plan [] (auth, sc) = Inr sc"
| "scan_sections cfg state plan (name # names) (auth, sc) =
     bind_result (scan_section cfg state plan name (auth, sc)) (scan_sections cfg state plan names)"

definition scan_plan :: "retry_limits \<Rightarrow> budget \<Rightarrow> retry_plan \<Rightarrow> retry_scan \<Rightarrow> string + retry_scan" where
  "scan_plan cfg state plan sc =
     (let pk = rp_character_pk plan in
      if pk < 0 then Inl ''Character IDs must be nonnegative integers''
      else bind_result (ids (rp_authorization_ids plan)) (\<lambda>auth.
        bind_result (case map_of (sc_templates sc) pk of
             None \<Rightarrow> Inr (sc\<lparr>sc_templates := AList.update pk plan (sc_templates sc)\<rparr>)
           | Some t \<Rightarrow> bind_result (ids (rp_authorization_ids t)) (\<lambda>seen_ids.
               if seen_ids \<noteq> auth then Inl ''One character cannot have conflicting authorization sets'' else Inr sc))
          (\<lambda>sc1. scan_sections cfg state plan (rp_sections plan) (auth, sc1))))"

fun scan_plans :: "retry_limits \<Rightarrow> budget \<Rightarrow> retry_plan list \<Rightarrow> retry_scan \<Rightarrow> string + retry_scan" where
  "scan_plans cfg state [] sc = Inr sc"
| "scan_plans cfg state (plan # plans) sc = bind_result (scan_plan cfg state plan sc) (scan_plans cfg state plans)"

section \<open>Reserving\<close>

definition reserve :: "rat \<Rightarrow> retry_entry \<Rightarrow> retry_entry" where
  "reserve now e = e\<lparr>re_attempts := re_attempts e + 1, re_last_attempt := now\<rparr>"

text \<open>The plan selected for a character: its template with no section yet.\<close>

definition selected_plan :: "retry_plan \<Rightarrow> string + retry_plan" where
  "selected_plan t = bind_result (ids (rp_authorization_ids t)) (\<lambda>auth.
     Inr (t\<lparr>rp_sections := [], rp_authorization_ids := auth\<rparr>))"

definition reserve_one :: "rat \<Rightarrow> (int \<times> retry_plan) list \<Rightarrow> retry_candidate \<Rightarrow> (int \<times> retry_plan) list \<times> budget
    \<Rightarrow> string + (int \<times> retry_plan) list \<times> budget" where
  "reserve_one now templates = (\<lambda>(attempts, last, pk, name, key) (selected, current).
     let current1 = AList.update key (reserve now (previous current key)) current in
     bind_result (case map_of selected pk of
          Some p \<Rightarrow> Inr p
        | None \<Rightarrow> selected_plan (the (map_of templates pk)))
       (\<lambda>p. Inr (AList.update pk (p\<lparr>rp_sections := rp_sections p @ [name]\<rparr>) selected, current1)))"

fun reserve_all :: "rat \<Rightarrow> (int \<times> retry_plan) list \<Rightarrow> retry_candidate list \<Rightarrow> (int \<times> retry_plan) list \<times> budget
    \<Rightarrow> string + (int \<times> retry_plan) list \<times> budget" where
  "reserve_all now templates [] acc = Inr acc"
| "reserve_all now templates (c # cs) acc =
     bind_result (reserve_one now templates c acc) (reserve_all now templates cs)"

definition chosen :: "retry_limits \<Rightarrow> retry_scan \<Rightarrow> retry_candidate list" where
  "chosen cfg sc = take (nat (rl_limit cfg)) (sort (sc_candidates sc))"

definition choose_retries :: "retry_limits \<Rightarrow> retry_plan list \<Rightarrow> budget \<Rightarrow> string + retry_plan list \<times> budget" where
  "choose_retries cfg plans state =
     (if rl_cooldown cfg < 0 then Inl ''Retry timestamps and cooldown must be finite''
      else if rl_max_attempts cfg < 0 then Inl ''Maximum attempts must be a nonnegative integer''
      else if rl_limit cfg < 0 then Inl ''Section limit must be a nonnegative integer''
      else bind_result (scan_plans cfg state plans
             \<lparr>sc_current = state, sc_seen = [], sc_candidates = [], sc_templates = []\<rparr>) (\<lambda>sc.
        bind_result (reserve_all (rl_now cfg) (sc_templates sc) (chosen cfg sc) ([], sc_current sc))
          (\<lambda>(selected, current). Inr (map snd selected, current))))"

section \<open>What the scan keeps\<close>

























section \<open>What reserving keeps\<close>

definition selected_keys :: "retry_plan list \<Rightarrow> string list" where
  "selected_keys ps = concat (map (\<lambda>p. map (retry_key (rp_character_pk p)) (rp_sections p)) ps)"

lemma selected_keys_Cons [simp]:
  "selected_keys (p # ps) = map (retry_key (rp_character_pk p)) (rp_sections p) @ selected_keys ps"
  "selected_keys [] = []"
  by (simp_all add: selected_keys_def)










text \<open>A character with one authorization and two failed sections.\<close>

definition sibling_plan :: retry_plan where
  "sibling_plan = \<lparr>rp_character_pk = 7, rp_authorization_ids = [1], rp_sections = [''assets'', ''wallet''],
     rp_status = ''planned''\<rparr>"

definition exhausted :: "int list \<Rightarrow> retry_entry" where
  "exhausted auth = \<lparr>re_attempts = 3, re_last_attempt = 100, re_authorization_ids = auth\<rparr>"

definition sample_limits :: retry_limits where
  "sample_limits = \<lparr>rl_now = 200, rl_cooldown = 3600, rl_max_attempts = 3, rl_limit = 50, rl_override = False\<rparr>"

text \<open>
  A section's budget can be renewed by a sibling: the wallet of character 7 has
  spent its three attempts and is cooling down, and its record knows the plan's only
  authorization. Planned alone it is not tried; planned after a section whose record
  remembers a deleted authorization, it is reset and tried again.
\<close>

theorem sibling_renews_budget:
  "choose_retries sample_limits [sibling_plan\<lparr>rp_sections := [''wallet'']\<rparr>]
      [(''7:assets'', exhausted [1, 2]), (''7:wallet'', exhausted [1])]
    = Inr ([], [(''7:assets'', exhausted [1, 2]), (''7:wallet'', exhausted [1])])
  \<and> (\<exists>current. choose_retries sample_limits [sibling_plan]
        [(''7:assets'', exhausted [1, 2]), (''7:wallet'', exhausted [1])]
      = Inr ([sibling_plan\<lparr>rp_sections := [''wallet'']\<rparr>], current)
      \<and> map_of current ''7:wallet'' = Some \<lparr>re_attempts = 1, re_last_attempt = 200, re_authorization_ids = [1, 2]\<rparr>)"
proof -
  have "choose_retries sample_limits [sibling_plan]
      [(''7:assets'', exhausted [1, 2]), (''7:wallet'', exhausted [1])]
    = Inr ([sibling_plan\<lparr>rp_sections := [''wallet'']\<rparr>],
        [(''7:assets'', exhausted [1, 2]),
         (''7:wallet'', \<lparr>re_attempts = 1, re_last_attempt = 200, re_authorization_ids = [1, 2]\<rparr>)])"
    by code_simp
  moreover have "choose_retries sample_limits [sibling_plan\<lparr>rp_sections := [''wallet'']\<rparr>]
      [(''7:assets'', exhausted [1, 2]), (''7:wallet'', exhausted [1])]
    = Inr ([], [(''7:assets'', exhausted [1, 2]), (''7:wallet'', exhausted [1])])"
    by code_simp
  ultimately show ?thesis
    by simp
qed


end
