(* ===== verification/Health_Env.thy ===== *)
theory Health_Env
  imports Effects "HOL-Library.Char_ord" "HOL-Library.List_Lexorder"
begin

text \<open>
  The text handling of the host agent (\<open>apps/vps-health/src/host-agent\<close>): the integers
  Python reads from text, the worker count kept in the \<open>.env\<close> file of the Auth stack, and
  the names of the services a restart may touch.
\<close>

section \<open>Integers in text\<close>

definition digit :: "char \<Rightarrow> bool" where
  "digit c \<longleftrightarrow> 48 \<le> code c \<and> code c \<le> 57"

text \<open>Digits with single underscores between them; the flag says whether a digit came before.\<close>

fun read_digits :: "bool \<Rightarrow> int \<Rightarrow> string \<Rightarrow> int option" where
  "read_digits after acc [] = (if after then Some acc else None)"
| "read_digits after acc (c # cs) =
     (if digit c then read_digits True (10 * acc + (int (code c) - 48)) cs
      else if c = CHR ''_'' \<and> after then read_digits False acc cs
      else None)"

definition int_of_text :: "string \<Rightarrow> int option" where
  "int_of_text text =
     (case strip_text text of
        [] \<Rightarrow> None
      | c # cs \<Rightarrow> if c = CHR ''-'' then map_option uminus (read_digits False 0 cs)
          else if c = CHR ''+'' then read_digits False 0 cs
          else read_digits False 0 (c # cs))"

text \<open>\<open>int(v)\<close>: \<open>None\<close> stands for the \<open>TypeError\<close> or \<open>ValueError\<close> it raises. Floats are finite.\<close>

fun int_of_value :: "pyval \<Rightarrow> int option" where
  "int_of_value (PInt i) = Some i"
| "int_of_value (PBool b) = Some (if b then 1 else 0)"
| "int_of_value (PFloat x) = Some (if x < 0 then - \<lfloor>- x\<rfloor> else \<lfloor>x\<rfloor>)"
| "int_of_value (PStr text) = int_of_text text"
| "int_of_value v = None"

section \<open>The worker count of the stack\<close>

text \<open>The segments between line feeds: one more than there are line feeds.\<close>

fun segments :: "string \<Rightarrow> string list" where
  "segments [] = [[]]"
| "segments (c # cs) =
     (if c = LF then [] # segments cs else (c # hd (segments cs)) # tl (segments cs))"

definition count_key :: string where
  "count_key = ''BUH_AUTH_WORKER_COUNT=''"

definition count_line :: "int \<Rightarrow> string" where
  "count_line count = count_key @ show_int count"

fun replace_first :: "('a \<Rightarrow> bool) \<Rightarrow> 'a \<Rightarrow> 'a list \<Rightarrow> 'a list" where
  "replace_first P y [] = []"
| "replace_first P y (x # xs) = (if P x then y # xs else x # replace_first P y xs)"

text \<open>\<open>ENV_COUNT_RE\<close> matches the segments that start with the key.\<close>

definition is_count_line :: "string \<Rightarrow> bool" where
  "is_count_line line \<longleftrightarrow> starts_with line count_key"

definition rstrip_text :: "string \<Rightarrow> string" where
  "rstrip_text s = rev (dropWhile text_space (rev s))"

definition with_worker_count :: "int \<Rightarrow> string \<Rightarrow> string" where
  "with_worker_count count text =
     (if list_ex is_count_line (segments text)
      then join [LF] (replace_first is_count_line (count_line count) (segments text))
      else rstrip_text text @ [LF] @ count_line count @ [LF])"

text \<open>\<open>desired_workers\<close>; reading a file translates its line ends.\<close>

definition desired_workers :: "string option \<Rightarrow> int" where
  "desired_workers env =
     (case env of
        None \<Rightarrow> 0
      | Some content \<Rightarrow>
          (case List.find is_count_line (segments (unix_lines content)) of
             None \<Rightarrow> 2
           | Some line \<Rightarrow>
               (case int_of_text (strip_text (drop (length count_key) line)) of
                  None \<Rightarrow> 2
                | Some n \<Rightarrow> max 1 (min 8 n))))"

section \<open>The services a restart names\<close>

definition suffix_char :: "char \<Rightarrow> bool" where
  "suffix_char c \<longleftrightarrow> digit c \<or> (97 \<le> code c \<and> code c \<le> 122) \<or> c = CHR ''_'' \<or> c = CHR ''-''"

text \<open>\<open>AUTH_RESTART_SERVICE_RE\<close>.\<close>

definition auth_service :: "string \<Rightarrow> bool" where
  "auth_service name \<longleftrightarrow>
     name = ''allianceauth_gunicorn'' \<or> name = ''allianceauth_beat'' \<or> name = ''allianceauth_worker''
     \<or> starts_with name ''allianceauth_worker_''
       \<and> drop (length ''allianceauth_worker_'') name \<noteq> []
       \<and> list_all suffix_char (drop (length ''allianceauth_worker_'') name)"

definition auth_restart_services :: "string list" where
  "auth_restart_services = [''allianceauth_gunicorn'', ''allianceauth_worker'',
     ''allianceauth_worker_services'', ''allianceauth_beat'', ''nginx'']"

text \<open>\<open>restart_service_names\<close>, given the exit status and output of \<open>config --services\<close>.\<close>

definition restart_service_names :: "int \<Rightarrow> string \<Rightarrow> string list" where
  "restart_service_names returncode output =
     (if returncode \<noteq> 0 then auth_restart_services
      else let names = ''nginx'' # filter auth_service (map strip_text (splitlines output))
           in if set [''allianceauth_gunicorn'', ''allianceauth_worker'', ''allianceauth_beat''] \<subseteq> set names
              then sort (remdups names) else auth_restart_services)"

definition restartable :: "string \<Rightarrow> bool" where
  "restartable name \<longleftrightarrow> name = ''nginx'' \<or> auth_service name"

lemma restart_names_restartable:
  "name \<in> set (restart_service_names returncode output) \<Longrightarrow> restartable name"
proof -
  have "list_all restartable auth_restart_services"
    by (simp add: auth_restart_services_def restartable_def auth_service_def starts_with_def
        suffix_char_def digit_def code_def)
  then show "name \<in> set (restart_service_names returncode output) \<Longrightarrow> restartable name"
    by (auto simp: restart_service_names_def Let_def list_all_iff restartable_def split: if_splits)
qed

section \<open>Writing the count and reading it back\<close>

lemma segments_nonempty [simp]: "segments s \<noteq> []"
  by (cases s) auto

lemma segments_no_LF: "seg \<in> set (segments s) \<Longrightarrow> LF \<notin> set seg"
proof (induction s arbitrary: seg)
  case (Cons c cs)
  then show ?case
    by (auto split: if_splits dest: list.set_sel(2) [rotated] simp: list.set_sel(1))
qed simp

lemma segments_plain: "LF \<notin> set s \<Longrightarrow> segments s = [s]"
  by (induction s) auto

lemma segments_append: "segments (s @ LF # t) = segments s @ segments t"
  by (induction s) auto

lemma segments_join:
  "\<forall>seg \<in> set xs. LF \<notin> set seg \<Longrightarrow> xs \<noteq> [] \<Longrightarrow> segments (join [LF] xs) = xs"
  by (induction "[LF]" xs rule: join.induct) (auto simp: segments_plain segments_append)

lemma no_CR_append: "CR \<notin> set s \<Longrightarrow> crlf_to_lf s = s"
  by (induction s rule: crlf_to_lf.induct) auto

lemma unix_lines_plain: "CR \<notin> set s \<Longrightarrow> unix_lines s = s"
  unfolding unix_lines_def no_CR_append by (rule map_idI) auto

lemma unix_lines_no_CR: "CR \<notin> set (unix_lines s)"
proof -
  have "LF \<noteq> CR" by (simp add: LF_def CR_def)
  then show ?thesis by (auto simp: unix_lines_def)
qed

lemma segments_chars: "seg \<in> set (segments s) \<Longrightarrow> set seg \<subseteq> set s"
proof (induction s arbitrary: seg)
  case (Cons c cs)
  have sub: "hd (segments cs) \<in> set (segments cs)" "set (tl (segments cs)) \<subseteq> set (segments cs)"
    by (auto dest: list.set_sel(2) [rotated])
  consider "seg = []" | "seg \<in> set (segments cs)" | "seg = c # hd (segments cs)"
    using Cons.prems sub(2) by (auto split: if_splits)
  then show ?case
    using Cons.IH sub(1) by cases fastforce+
qed simp

lemma replace_first_find:
  "list_ex P xs \<Longrightarrow> P y \<Longrightarrow> List.find P (replace_first P y xs) = Some y"
  by (induction xs) auto

lemma set_replace_first: "set (replace_first P y xs) \<subseteq> insert y (set xs)"
  by (induction xs) auto


lemma count_cases:
  assumes "1 \<le> n" and "n \<le> (8 :: int)"
  obtains "n = 1" | "n = 2" | "n = 3" | "n = 4" | "n = 5" | "n = 6" | "n = 7" | "n = 8"
  using assms by linarith

lemma read_count:
  assumes "1 \<le> n" and "n \<le> 8"
  shows "int_of_text (strip_text (show_int n)) = Some n"
  using assms by (rule count_cases) (simp; code_simp)+

lemma count_line_plain:
  assumes "1 \<le> n" and "n \<le> 8"
  shows "LF \<notin> set (count_line n) \<and> CR \<notin> set (count_line n)"
  using assms by (rule count_cases) (simp; code_simp)+

lemma count_line_found [simp]: "is_count_line (count_line n)"
  by (simp add: is_count_line_def count_line_def)

lemma count_line_text [simp]: "drop (length count_key) (count_line n) = show_int n"
  by (simp add: count_line_def)

lemma desired_workers_found:
  assumes "CR \<notin> set text" and "List.find is_count_line (segments text) = Some (count_line n)"
    and "1 \<le> n" and "n \<le> 8"
  shows "desired_workers (Some text) = n"
  using assms read_count [of n] by (simp add: desired_workers_def unix_lines_plain)

lemma set_rstrip_text: "set (rstrip_text s) \<subseteq> set s"
  by (auto simp: rstrip_text_def dest: set_dropWhileD)

lemma with_worker_count_segments:
  assumes "list_ex is_count_line (segments text)" and "1 \<le> n" and "n \<le> 8"
  shows "segments (with_worker_count n text) = replace_first is_count_line (count_line n) (segments text)"
proof -
  have "\<forall>seg \<in> set (replace_first is_count_line (count_line n) (segments text)). LF \<notin> set seg"
    using set_replace_first [of is_count_line "count_line n" "segments text"] segments_no_LF count_line_plain [OF assms(2,3)]
    by blast
  moreover have "replace_first is_count_line (count_line n) (segments text) \<noteq> []"
    by (cases "segments text") auto
  ultimately show ?thesis
    using assms(1) by (simp add: with_worker_count_def segments_join)
qed

lemma with_worker_count_no_CR:
  assumes "CR \<notin> set text" and "1 \<le> n" and "n \<le> 8"
  shows "CR \<notin> set (with_worker_count n text)"
proof -
  let ?segs = "replace_first is_count_line (count_line n) (segments text)"
  have "LF \<noteq> CR"
    by (simp add: LF_def CR_def)
  moreover have "CR \<notin> set seg" if "seg \<in> set ?segs" for seg
    using that set_replace_first [of is_count_line "count_line n" "segments text"] segments_chars assms
      count_line_plain by blast
  then have "CR \<notin> set (join [LF] ?segs)"
    using set_join [of "[LF]" ?segs] \<open>LF \<noteq> CR\<close> by auto
  ultimately show ?thesis
    using count_line_plain assms set_rstrip_text [of "text"] by (auto simp: with_worker_count_def)
qed

lemma segments_hd: "\<exists>zs. hd (segments (s @ t)) = hd (segments s) @ zs"
  by (induction s) auto

lemma segments_tl: "seg \<in> set (tl (segments s)) \<Longrightarrow> \<exists>ys. seg @ ys \<in> set (tl (segments (s @ t)))"
proof (induction s)
  case (Cons c cs)
  show ?case
  proof (cases "c = LF")
    case False
    with Cons show ?thesis by simp
  next
    case True
    then have "seg = hd (segments cs) \<or> seg \<in> set (tl (segments cs))"
      using Cons.prems by (metis list.set_cases list.sel segments.simps(2))
    then show ?thesis
    proof
      assume "seg = hd (segments cs)"
      moreover obtain zs where "hd (segments (cs @ t)) = hd (segments cs) @ zs"
        using segments_hd by blast
      ultimately have "seg @ zs \<in> set (segments (cs @ t))"
        using list.set_sel(1) [OF segments_nonempty, of "cs @ t"] by metis
      with True show ?thesis by auto
    next
      assume "seg \<in> set (tl (segments cs))"
      then obtain ys where "seg @ ys \<in> set (tl (segments (cs @ t)))"
        using Cons.IH by blast
      then have "seg @ ys \<in> set (segments (cs @ t))"
        using list.set_sel(2) [OF segments_nonempty] by metis
      with True show ?thesis by auto
    qed
  qed
qed simp

lemma segments_extend: "seg \<in> set (segments s) \<Longrightarrow> \<exists>ys. seg @ ys \<in> set (segments (s @ t))"
proof (induction s arbitrary: seg)
  case Nil
  then have "seg @ hd (segments t) \<in> set (segments ([] @ t))"
    by simp
  then show ?case ..
next
  case (Cons c cs)
  consider "c = LF" "seg = []" | "c = LF" "seg \<in> set (segments cs)" | "c \<noteq> LF" "seg = c # hd (segments cs)"
    | "c \<noteq> LF" "seg \<in> set (tl (segments cs))"
    using Cons.prems by (auto split: if_splits)
  then show ?case
  proof cases
    case 1
    then have "seg @ [] \<in> set (segments ((c # cs) @ t))" by simp
    then show ?thesis ..
  next
    case 2
    then show ?thesis using Cons.IH by auto
  next
    case 3
    obtain zs where "hd (segments (cs @ t)) = hd (segments cs) @ zs"
      using segments_hd by blast
    then have "seg @ zs \<in> set (segments ((c # cs) @ t))"
      using 3 by simp
    then show ?thesis ..
  next
    case 4
    obtain zs where "seg @ zs \<in> set (tl (segments (cs @ t)))"
      using segments_tl [OF 4(2)] by blast
    then have "seg @ zs \<in> set (segments ((c # cs) @ t))"
      using 4(1) by simp
    then show ?thesis ..
  qed
qed

lemma desired_after_write:
  assumes "CR \<notin> set text" and n: "1 \<le> n" "n \<le> 8"
  shows "desired_workers (Some (with_worker_count n text)) = n"
proof (rule desired_workers_found [OF with_worker_count_no_CR [OF assms] _ n])
  show "List.find is_count_line (segments (with_worker_count n text)) = Some (count_line n)"
  proof (cases "list_ex is_count_line (segments text)")
    case True
    then show ?thesis
      by (simp add: with_worker_count_segments n replace_first_find)
  next
    case False
    let ?old = "rstrip_text text"
    have "segments (with_worker_count n text) = segments ?old @ [count_line n, []]"
      using False count_line_plain [OF n] by (simp add: with_worker_count_def segments_append segments_plain)
    moreover have "List.find is_count_line (segments ?old) = None"
    proof -
      obtain ws where ws: "text = ?old @ ws"
        unfolding rstrip_text_def by (metis rev_append rev_rev_ident takeWhile_dropWhile_id)
      have "\<not> is_count_line seg" if in_old: "seg \<in> set (segments ?old)" for seg
      proof -
        obtain ys where "seg @ ys \<in> set (segments text)"
          using segments_extend [OF in_old, of ws] ws by auto
        then have "\<not> is_count_line (seg @ ys)"
          using False by (auto simp: list_ex_iff)
        then show ?thesis
          by (auto simp: is_count_line_def starts_with_def)
      qed
      then show ?thesis
        by (auto simp: find_None_iff)
    qed
    ultimately show ?thesis
      by (simp add: find_append)
  qed
qed

end
