(* ===== verification/Health_Host.thy ===== *)
theory Health_Host
  imports Health_Env
begin

text \<open>
  The state of the host agent (\<open>apps/vps-health/src/host-agent\<close>) and the host it runs on.
  Every answer of the host (a subprocess, a clock, a write to the disk) is the answer to
  the n-th question asked; \<open>ag_asked\<close> counts the questions. The agent keeps one JSON
  document per operation; its fields have the types the agent writes.
\<close>

section \<open>Operations, threads and the process\<close>

record guarded_operation =
  od_id :: string
  od_action :: string
  od_worker_count :: "int option"
  od_requester :: string
  od_status :: string
  od_message :: string
  od_accepted_at :: string
  od_started_at :: "string option"
  od_finished_at :: "string option"
  od_result :: pyval

text \<open>
  How far the thread of an operation is: before its first write, ready to run, its worker
  count written, outcome known, outcome written.
\<close>

datatype stage = Sleeping | Working | Counted | Worked | Reported

record performer =
  pf_operation :: guarded_operation
  pf_stage :: stage

text \<open>A document replaced; a write that failed before the replacement; one that failed after it.\<close>

datatype disk_answer = Written | Lost string | Late string

text \<open>
  What the agent asks the host: the writes of documents and of the environment file, the
  clocks, a command, the private directory of a scan and its removal, the names of the wheel
  files, and a reading of the metrics. \<open>hw_json\<close> is \<open>json.loads\<close> and \<open>hw_json_prefix\<close> is
  \<open>JSONDecoder.raw_decode\<close>, with \<open>None\<close> for \<open>JSONDecodeError\<close>; \<open>hw_shown\<close> is \<open>str\<close> on what is
  not text.
\<close>

record host_world =
  hw_disk :: "nat \<Rightarrow> disk_answer"
  hw_env :: "nat \<Rightarrow> exn option"
  hw_env_missing :: string
  hw_clock :: "nat \<Rightarrow> rat"
  hw_utc :: "nat \<Rightarrow> string"
  hw_run :: "nat \<Rightarrow> string list \<Rightarrow> exn + (int \<times> string)"
  hw_directory :: "nat \<Rightarrow> exn + string"
  hw_tidy :: "nat \<Rightarrow> exn option"
  hw_wheels :: "nat \<Rightarrow> exn + string list"
  hw_platform :: string
  hw_json :: "string \<Rightarrow> pyval option"
  hw_json_prefix :: "string \<Rightarrow> pyval option"
  hw_collect :: "nat \<Rightarrow> exn + (string \<times> pyval) list"
  hw_shown :: "pyval \<Rightarrow> string"

record host_agent =
  ag_documents :: "(string \<times> guarded_operation option) list"
  ag_env :: "string option"
  ag_active :: "string option"
  ag_last :: "string \<Rightarrow> rat"
  ag_performers :: "performer list"
  ag_metrics :: "(string \<times> pyval) list"
  ag_commands :: "string list list"
  ag_asked :: nat

definition asked :: "host_agent \<Rightarrow> host_agent" where
  "asked s = s\<lparr>ag_asked := Suc (ag_asked s)\<rparr>"

definition plain_error :: "string \<Rightarrow> string \<Rightarrow> exn" where
  "plain_error cls message = \<lparr>ex_class = cls, ex_text = message, ex_deployment = False\<rparr>"

section \<open>Values\<close>

fun truthy :: "pyval \<Rightarrow> bool" where
  "truthy PNone = False"
| "truthy (PBool b) = b"
| "truthy (PInt i) = (i \<noteq> 0)"
| "truthy (PFloat x) = (x \<noteq> 0)"
| "truthy (PStr s) = (s \<noteq> '''')"
| "truthy (PList vs) = (vs \<noteq> [])"
| "truthy (PDict kvs) = (kvs \<noteq> [])"

text \<open>\<open>str(v or "")\<close>: how Python prints numbers and containers is a parameter.\<close>

definition text_or_blank :: "host_world \<Rightarrow> pyval \<Rightarrow> string" where
  "text_or_blank w v = (if truthy v then (case v of PStr s \<Rightarrow> s | _ \<Rightarrow> hw_shown w v) else '''')"

text \<open>\<open>str(v)\<close>, and \<open>str(v or fallback)\<close>.\<close>

definition text_of :: "host_world \<Rightarrow> pyval \<Rightarrow> string" where
  "text_of w v = (case v of PStr s \<Rightarrow> s | _ \<Rightarrow> hw_shown w v)"

definition text_or :: "host_world \<Rightarrow> string \<Rightarrow> pyval \<Rightarrow> string" where
  "text_or w fallback v = (if truthy v then text_of w v else fallback)"

definition first_of :: "string \<Rightarrow> string \<Rightarrow> string" where
  "first_of s fallback = (if s = [] then fallback else s)"

section \<open>Commands\<close>

definition compose_command :: "string list \<Rightarrow> string list" where
  "compose_command arguments = [''docker'', ''compose'', ''--env-file=.env''] @ arguments"

definition run_command :: "host_world \<Rightarrow> string list \<Rightarrow> host_agent \<Rightarrow> (exn + int \<times> string) \<times> host_agent" where
  "run_command w command s =
     (hw_run w (ag_asked s) command, (asked s)\<lparr>ag_commands := ag_commands s @ [command]\<rparr>)"

end
