(* ===== verification/Health_Scan.thy ===== *)
theory Health_Scan
  imports Health_Host "HOL-Library.AList"
begin

text \<open>
  The update scan of the host agent (\<open>run_update_scan\<close>): the packages of the host, the Python
  packages of Auth, the wheel files kept beside the stack and the container images, with every
  command it runs. The regular expressions are matched in the order Python's engine tries
  them; text is ASCII where they fold case.
\<close>

section \<open>Matching\<close>

text \<open>The ways to consume a run of characters, longest first, or shortest first.\<close>

definition greedy :: "(char \<Rightarrow> bool) \<Rightarrow> nat \<Rightarrow> string \<Rightarrow> (string \<times> string) list" where
  "greedy P n s = map (\<lambda>k. (take k s, drop k s)) (rev [n..<Suc (length (takeWhile P s))])"

definition reluctant :: "(char \<Rightarrow> bool) \<Rightarrow> nat \<Rightarrow> string \<Rightarrow> (string \<times> string) list" where
  "reluctant P n s = map (\<lambda>k. (take k s, drop k s)) [n..<Suc (length (takeWhile P s))]"

definition literal :: "string \<Rightarrow> string \<Rightarrow> string list" where
  "literal p s = (if starts_with s p then [drop (length p) s] else [])"

definition literal_any_case :: "string \<Rightarrow> string \<Rightarrow> string list" where
  "literal_any_case p s = (if starts_with (lower s) p then [drop (length p) s] else [])"

text \<open>\<open>parse_json_output\<close>.\<close>

definition parse_json_output :: "host_world \<Rightarrow> string \<Rightarrow> pyval \<Rightarrow> pyval" where
  "parse_json_output w raw fallback =
     (let text = strip_text raw
      in case hw_json w text of
           Some v \<Rightarrow> v
         | None \<Rightarrow>
             (case dropWhile (\<lambda>c. c \<noteq> CHR ''['' \<and> c \<noteq> CHR ''{'') text of
                [] \<Rightarrow> fallback
              | rest \<Rightarrow> (case hw_json_prefix w rest of Some v \<Rightarrow> v | None \<Rightarrow> fallback)))"

text \<open>What a check reports: updates, an inventory, how many updates, and its warnings.\<close>

record check_report =
  ck_updates :: "pyval list"
  ck_listing :: "pyval list"
  ck_count :: nat
  ck_errors :: "string list"

section \<open>Packages of the host\<close>

definition not_space :: "char \<Rightarrow> bool" where
  "not_space c \<longleftrightarrow> \<not> text_space c"

text \<open>The pattern of a simulated installation, from the start of a line: name, current version in
  brackets if there is one, candidate; with each, what is left of the text.\<close>

definition current_version :: "string \<Rightarrow> (string option \<times> string) list" where
  "current_version s =
     concat (map (\<lambda>r1. concat (map (\<lambda>(current, r2). concat (map (\<lambda>r3.
       map (\<lambda>(_, r4). (Some current, r4)) (greedy text_space 1 r3))
       (literal '']'' r2))) (greedy (\<lambda>c. c \<noteq> CHR '']'') 1 r1))) (literal ''['' s))
     @ [(None, s)]"

definition closing_parenthesis :: "string \<Rightarrow> string list" where
  "closing_parenthesis s =
     concat (map (\<lambda>(_, r1). concat (map (\<lambda>(_, r2). literal '')'' r2)
       (greedy (\<lambda>c. c \<noteq> CHR '')'') 0 r1))) (greedy text_space 1 s))
     @ literal '')'' s"

definition apt_line :: "string \<Rightarrow> ((string \<times> string option \<times> string) \<times> string) list" where
  "apt_line s =
     concat (map (\<lambda>r1. concat (map (\<lambda>(_, r2). concat (map (\<lambda>(name, r3). concat (map (\<lambda>(_, r4).
       concat (map (\<lambda>(current, r5). concat (map (\<lambda>r6. concat (map (\<lambda>(candidate, r7).
         map (\<lambda>r8. ((name, current, candidate), r8)) (closing_parenthesis r7))
         (greedy not_space 1 r6))) (literal ''('' r5))) (current_version r4)))
       (greedy text_space 1 r3))) (greedy not_space 1 r2))) (greedy text_space 1 r1)))
       (literal ''Inst'' s))"

text \<open>\<open>finditer\<close>: the first number counts the characters of a match still to pass.\<close>

fun apt_matches :: "nat \<Rightarrow> bool \<Rightarrow> string \<Rightarrow> (string \<times> string option \<times> string) list" where
  "apt_matches skip line_start [] = []"
| "apt_matches (Suc skip) line_start (c # cs) = apt_matches skip (c = LF) cs"
| "apt_matches 0 line_start (c # cs) =
     (case (if line_start then apt_line (c # cs) else []) of
        [] \<Rightarrow> apt_matches 0 (c = LF) cs
      | (found, rest) # _ \<Rightarrow> found # apt_matches (length cs - length rest) (c = LF) cs)"

definition apt_update :: "string \<times> string option \<times> string \<Rightarrow> pyval" where
  "apt_update found = (case found of (name, current, candidate) \<Rightarrow>
     PDict [(''name'', PStr (take 180 name)),
            (''current'', PStr (take 120 (case current of None \<Rightarrow> ''unknown'' | Some v \<Rightarrow> v))),
            (''latest'', PStr (take 120 candidate))])"

definition apt_lists :: "string \<Rightarrow> string" where
  "apt_lists path = ''Dir::State::lists='' @ path"

definition host_package_scan :: "host_world \<Rightarrow> string \<Rightarrow> (host_agent, check_report) act" where
  "host_package_scan w path =
     seq (run_command w [''apt-get'', ''-o'', apt_lists path, ''-o'', ''APT::Get::List-Cleanup=0'', ''update''])
       (\<lambda>(refreshed, refreshed_text).
     seq (run_command w (if refreshed \<noteq> 0 then [''apt-get'', ''-s'', ''upgrade'']
                         else [''apt-get'', ''-o'', apt_lists path, ''-s'', ''upgrade'']))
       (\<lambda>(simulated, simulated_text).
     let refresh_errors = (if refreshed \<noteq> 0
           then [''Temporary APT metadata refresh failed: ''
                  @ first_of (last_n 1200 (strip_text refreshed_text)) ''unknown APT error''] else []);
         simulation_errors = (if simulated \<noteq> 0
           then [''APT upgrade simulation failed: ''
                  @ first_of (last_n 1200 (strip_text simulated_text)) ''unknown APT error''] else []);
         updates = (if simulated \<noteq> 0 then [] else map apt_update (apt_matches 0 True simulated_text))
     in give \<lparr>ck_updates = take 500 updates, ck_listing = [], ck_count = length updates,
              ck_errors = refresh_errors @ simulation_errors\<rparr>))"

text \<open>\<open>with tempfile.TemporaryDirectory\<close>: the private package lists, and their removal.\<close>

definition tidy :: "host_world \<Rightarrow> (host_agent, unit) act" where
  "tidy w = (\<lambda>s. case hw_tidy w (ag_asked s) of
     None \<Rightarrow> (Inr (), asked s) | Some e \<Rightarrow> (Inl e, asked s))"

definition host_package_updates :: "host_world \<Rightarrow> (host_agent, check_report) act" where
  "host_package_updates w = (\<lambda>s. case hw_directory w (ag_asked s) of
     Inl e \<Rightarrow> (Inl e, asked s)
   | Inr path \<Rightarrow> finally_do (host_package_scan w path) (tidy w) (asked s))"

section \<open>Python packages of Auth\<close>

definition quoted_text :: "string \<Rightarrow> string" where
  "quoted_text s = CHR 0x27 # s @ [CHR 0x27]"

definition inventory_program :: string where
  "inventory_program =
     ''import importlib.metadata as m,json; print(json.dumps(sorted([{'' @ quoted_text ''name''
     @ '':d.metadata.get('' @ quoted_text ''Name'' @ '',d.name),'' @ quoted_text ''version'' @ '':d.version} ''
     @ ''for d in m.distributions() if (d.metadata.get('' @ quoted_text ''Name'' @ '',d.name) or '' @ quoted_text []
     @ '').lower().startswith(('' @ quoted_text ''aa-'' @ '','' @ quoted_text ''allianceauth'' @ '',''
     @ quoted_text ''django-esi'' @ ''))], key=lambda x:x['' @ quoted_text ''name'' @ ''].lower())))''"

definition inventory_command :: "string list" where
  "inventory_command = compose_command [''exec'', ''-T'', ''allianceauth_gunicorn'', ''python3'', ''-c'', inventory_program]"

definition outdated_command :: "string list" where
  "outdated_command = compose_command [''exec'', ''-T'', ''allianceauth_gunicorn'', ''python3'', ''-m'', ''pip'',
     ''list'', ''--outdated'', ''--format=json'', ''--disable-pip-version-check'']"

text \<open>The items of a list, nothing for any other value.\<close>

definition items_of :: "pyval \<Rightarrow> pyval list" where
  "items_of v = (case v of PList vs \<Rightarrow> vs | _ \<Rightarrow> [])"

definition python_update :: "host_world \<Rightarrow> pyval \<Rightarrow> pyval list" where
  "python_update w item = (case item of
     PDict d \<Rightarrow>
       [PDict [(''name'', PStr (take 180 (text_or w ''unknown'' (get_key d ''name'')))),
               (''current'', PStr (take 120 (text_or w ''unknown'' (get_key d ''version'')))),
               (''latest'', PStr (take 120 (text_or w ''unknown'' (get_key d ''latest_version'')))),
               (''type'', PStr (take 40 (text_or w [] (get_key d ''latest_filetype''))))]]
   | _ \<Rightarrow> [])"

definition python_package_updates :: "host_world \<Rightarrow> (host_agent, check_report) act" where
  "python_package_updates w =
     seq (run_command w inventory_command) (\<lambda>(listed, listed_text).
     seq (run_command w outdated_command) (\<lambda>(checked, checked_text).
     let installed = (if listed = 0 then parse_json_output w listed_text (PList []) else PList []);
         outdated = (if checked = 0 then parse_json_output w checked_text (PList []) else PList []);
         updates = concat (map (python_update w) (take 500 (items_of outdated)))
     in give \<lparr>ck_updates = updates, ck_listing = items_of installed, ck_count = length updates,
              ck_errors =
                (if listed \<noteq> 0 then [''Could not inventory Auth Python packages: '' @ last_n 1000 listed_text] else [])
                @ (if checked \<noteq> 0 then [''PyPI update check failed: '' @ last_n 1000 checked_text] else [])\<rparr>))"

section \<open>Wheel files\<close>

datatype version_part = Number nat | Letters string

definition letter :: "char \<Rightarrow> bool" where
  "letter c \<longleftrightarrow> (65 \<le> code c \<and> code c \<le> 90) \<or> (97 \<le> code c \<and> code c \<le> 122)"

text \<open>\<open>version_key\<close>: runs of digits and of letters, the rest dropped.\<close>

function version_key :: "string \<Rightarrow> version_part list" where
  "version_key [] = []"
| "version_key (c # cs) =
     (if digit c then Number (foldl (\<lambda>n d. 10 * n + (code d - 48)) 0 (takeWhile digit (c # cs)))
        # version_key (dropWhile digit cs)
      else if letter c then Letters (lower (takeWhile letter (c # cs))) # version_key (dropWhile letter cs)
      else version_key cs)"
  by pat_completeness auto
termination
  by (relation "measure length") (auto simp: le_imp_less_Suc length_dropWhile_le)

text \<open>\<open><\<close> on tuples: the first parts that differ decide.\<close>

fun part_less :: "version_part \<Rightarrow> version_part \<Rightarrow> bool" where
  "part_less (Number m) (Number n) = (m < n)"
| "part_less (Number m) (Letters b) = True"
| "part_less (Letters a) (Number n) = False"
| "part_less (Letters a) (Letters b) = (a < b)"

fun key_less :: "version_part list \<Rightarrow> version_part list \<Rightarrow> bool" where
  "key_less [] ys = (ys \<noteq> [])"
| "key_less (x # xs) [] = False"
| "key_less (x # xs) (y # ys) = (if x = y then key_less xs ys else part_less x y)"

text \<open>\<open>re.sub(r"[-_.]+", "-", s).lower()\<close>.\<close>

definition separator :: "char \<Rightarrow> bool" where
  "separator c \<longleftrightarrow> c = CHR ''-'' \<or> c = CHR ''_'' \<or> c = CHR ''.''"

fun collapse :: "bool \<Rightarrow> string \<Rightarrow> string" where
  "collapse inside [] = []"
| "collapse inside (c # cs) =
     (if separator c then (if inside then [] else ''-'') @ collapse True cs else c # collapse False cs)"

definition package_key :: "string \<Rightarrow> string" where
  "package_key name = lower (collapse False name)"

definition wheel_char :: "char \<Rightarrow> bool" where
  "wheel_char c \<longleftrightarrow> letter c \<or> digit c \<or> c = CHR ''_'' \<or> c = CHR ''.'' \<or> c = CHR ''-''"

text \<open>\<open>wheel_pattern\<close>: the name and version of a wheel file.\<close>

definition wheel_matches :: "string \<Rightarrow> (string \<times> string) list" where
  "wheel_matches s =
     concat (map (\<lambda>prefix. concat (map (\<lambda>r1. concat (map (\<lambda>(more, r2). concat (map (\<lambda>r3.
       concat (map (\<lambda>(version, r4). concat (map (\<lambda>r5. concat (map (\<lambda>r6.
         if r6 = [] \<or> r6 = [LF] then [(take (length prefix) s @ more, version)] else [])
         (case r5 of [] \<Rightarrow> [] | d # r \<Rightarrow> if digit d then literal_any_case ''-none-any.whl'' r else [])))
         (literal_any_case ''-py'' r4)))
         (if r3 = [] \<or> \<not> digit (hd r3) then [] else greedy (\<lambda>c. c \<noteq> CHR ''-'') 1 r3)))
       (literal ''-'' r2))) (reluctant wheel_char 0 r1))) (literal_any_case prefix s)))
       [''aa'', ''allianceauth''])"

record wheel =
  wl_version :: string
  wl_file :: string

text \<open>The newest wheel of each package, in the order the packages were first met.\<close>

fun newest_wheels :: "(string \<times> wheel) list \<Rightarrow> string list \<Rightarrow> (string \<times> wheel) list" where
  "newest_wheels kept [] = kept"
| "newest_wheels kept (path # paths) =
     (case wheel_matches path of
        [] \<Rightarrow> newest_wheels kept paths
      | (name, version) # _ \<Rightarrow>
          (let key = package_key name;
               better = (case map_of kept key of
                           None \<Rightarrow> True
                         | Some current \<Rightarrow> key_less (version_key (wl_version current)) (version_key version))
           in newest_wheels (if better then AList.update key \<lparr>wl_version = version, wl_file = path\<rparr> kept else kept) paths))"

definition installed_versions :: "host_world \<Rightarrow> pyval list \<Rightarrow> string \<Rightarrow> string option" where
  "installed_versions w items = map_of (rev (concat (map (\<lambda>item. case item of
     PDict d \<Rightarrow> [(package_key (text_or w [] (get_key d ''name'')), text_or w [] (get_key d ''version''))]
   | _ \<Rightarrow> []) items)))"

definition wheel_entry :: "string \<times> wheel \<Rightarrow> pyval" where
  "wheel_entry e = PDict [(''name'', PStr (fst e)), (''version'', PStr (wl_version (snd e))), (''file'', PStr (wl_file (snd e)))]"

definition wheel_mismatch :: "(string \<Rightarrow> string option) \<Rightarrow> string \<times> wheel \<Rightarrow> pyval list" where
  "wheel_mismatch installed e =
     (case installed (fst e) of
        None \<Rightarrow> []
      | Some current \<Rightarrow>
          if current \<noteq> [] \<and> current \<noteq> wl_version (snd e)
          then [PDict [(''name'', PStr (fst e)), (''current'', PStr current), (''latest'', PStr (wl_version (snd e))),
                       (''file'', PStr (wl_file (snd e)))]]
          else [])"

definition local_wheel_updates :: "host_world \<Rightarrow> pyval list \<Rightarrow> (host_agent, check_report) act" where
  "local_wheel_updates w installed_buh = (\<lambda>s. case hw_wheels w (ag_asked s) of
     Inl e \<Rightarrow> (Inl e, asked s)
   | Inr paths \<Rightarrow>
       (let kept = newest_wheels [] paths;
            mismatches = concat (map (wheel_mismatch (installed_versions w installed_buh)) (sort_key fst kept))
        in (Inr \<lparr>ck_updates = mismatches, ck_listing = take 300 (map wheel_entry kept),
                 ck_count = length mismatches, ck_errors = []\<rparr>, asked s)))"

section \<open>Container images\<close>

text \<open>\<open>v.get\<close> on what is not a dictionary.\<close>

definition python_type :: "pyval \<Rightarrow> string" where
  "python_type v = (case v of PNone \<Rightarrow> ''NoneType'' | PBool _ \<Rightarrow> ''bool'' | PInt _ \<Rightarrow> ''int'' | PFloat _ \<Rightarrow> ''float''
     | PStr _ \<Rightarrow> ''str'' | PList _ \<Rightarrow> ''list'' | PDict _ \<Rightarrow> ''dict'')"

definition attribute_error :: "pyval \<Rightarrow> string \<Rightarrow> exn" where
  "attribute_error v name = plain_error ''AttributeError''
     (quoted_text (python_type v) @ '' object has no attribute '' @ quoted_text name)"

definition image_command :: "string \<Rightarrow> string list" where
  "image_command ref = [''docker'', ''image'', ''inspect'', ''--format'', ''{{json .RepoDigests}}'', ref]"

definition registry_command :: "string \<Rightarrow> string list" where
  "registry_command ref = [''docker'', ''buildx'', ''imagetools'', ''inspect'', ref, ''--format'', ''{{json .Manifest.Digest}}'']"

definition manifest_command :: "string \<Rightarrow> string list" where
  "manifest_command ref = [''docker'', ''manifest'', ''inspect'', ''--verbose'', ref]"

text \<open>\<open>str(value).rsplit("@", 1)[-1]\<close> of the values with an at sign, as a sorted list without repetition.\<close>

definition after_last_at :: "string \<Rightarrow> string" where
  "after_last_at s = rev (takeWhile (\<lambda>c. c \<noteq> CHR ''@'') (rev s))"

definition local_digests :: "host_world \<Rightarrow> int \<times> string \<Rightarrow> string list" where
  "local_digests w result = (case result of (returncode, output) \<Rightarrow>
     if returncode \<noteq> 0 then []
     else sort (remdups (map (\<lambda>v. after_last_at (text_of w v))
            (filter (\<lambda>v. CHR ''@'' \<in> set (text_of w v)) (items_of (parse_json_output w output (PList [])))))))"

definition strip_quotes :: "string \<Rightarrow> string" where
  "strip_quotes s = (let quote = (\<lambda>c. c = CHR 0x22) in rev (dropWhile quote (rev (dropWhile quote s))))"

definition descriptor_digest :: "host_world \<Rightarrow> pyval \<Rightarrow> exn + string" where
  "descriptor_digest w payload = (case payload of
     PDict p \<Rightarrow>
       (if \<not> truthy (get_key p ''Descriptor'') then Inr []
        else (case get_key p ''Descriptor'' of
                PDict d \<Rightarrow> Inr (text_or w [] (get_key d ''digest''))
              | v \<Rightarrow> Inl (attribute_error v ''get'')))
   | _ \<Rightarrow> Inr [])"

text \<open>The digest in the registry, by either command, and the warning when neither tells it.\<close>

definition remote_digest :: "host_world \<Rightarrow> string \<Rightarrow> (host_agent, string \<times> string list) act" where
  "remote_digest w ref =
     seq (run_command w (registry_command ref)) (\<lambda>(returncode, output).
     if returncode = 0 then give (strip_quotes (strip_text output), [])
     else seq (run_command w (manifest_command ref)) (\<lambda>(fallback_code, fallback_output).
       case descriptor_digest w (if fallback_code = 0 then parse_json_output w fallback_output (PDict []) else PDict []) of
         Inl e \<Rightarrow> throw e
       | Inr digest \<Rightarrow>
           give (digest, if digest \<noteq> [] then []
                  else [''Could not check registry digest for '' @ ref @ '': ''
                         @ last_n 600 (first_of output fallback_output)])))"

text \<open>The services that name the image.\<close>

definition services_of_image :: "(string \<times> pyval) list \<Rightarrow> string \<Rightarrow> string list" where
  "services_of_image services ref =
     sort (map fst (filter (\<lambda>(name, data). case data of PDict d \<Rightarrow> get_key d ''image'' = PStr ref | _ \<Rightarrow> False) services))"

definition inspect_image :: "host_world \<Rightarrow> (string \<times> pyval) list \<Rightarrow> string \<Rightarrow> (host_agent, (bool \<times> pyval) \<times> string list) act" where
  "inspect_image w services ref =
     seq (run_command w (image_command ref)) (\<lambda>inspected.
     seq (remote_digest w ref) (\<lambda>(remote, warnings).
     let digests = local_digests w inspected;
         available = (remote \<noteq> [] \<and> digests \<noteq> [] \<and> remote \<notin> set digests)
     in give ((available,
          PDict [(''image'', PStr (take 300 ref)),
                 (''services'', PList (map PStr (services_of_image services ref))),
                 (''local_digests'', PList (map PStr (take 5 digests))),
                 (''remote_digest'', PStr (take 120 remote)),
                 (''update_available'', PBool available),
                 (''comparison'', PStr (if remote \<noteq> [] \<and> digests \<noteq> [] then ''exact'' else ''unavailable''))]),
        warnings)))"

text \<open>The image of a service to look up, if it has one and is not built here.\<close>

definition image_of :: "host_world \<Rightarrow> pyval \<Rightarrow> string" where
  "image_of w service = (case service of
     PDict d \<Rightarrow> if truthy (get_key d ''build'') then [] else strip_text (text_or w [] (get_key d ''image''))
   | _ \<Rightarrow> [])"

fun inspect_images ::
  "host_world \<Rightarrow> (string \<times> pyval) list \<Rightarrow> string list \<Rightarrow> pyval list \<Rightarrow> (host_agent, (bool \<times> pyval) list \<times> string list) act" where
  "inspect_images w services seen [] = give ([], [])"
| "inspect_images w services seen (service # rest) =
     (let ref = image_of w service
      in if ref = [] \<or> ref \<in> set seen then inspect_images w services seen rest
         else seq (inspect_image w services ref) (\<lambda>(row, warnings).
              seq (inspect_images w services (ref # seen) rest) (\<lambda>(rows, more).
              give (row # rows, warnings @ more))))"

definition inventory_images :: "string list" where
  "inventory_images = compose_command [''config'', ''--format'', ''json'']"

definition check_services :: "host_world \<Rightarrow> pyval \<Rightarrow> (host_agent, check_report) act" where
  "check_services w v = (case v of
     PDict services \<Rightarrow>
       seq (inspect_images w services [] (map snd services)) (\<lambda>(images, errors).
         give \<lparr>ck_updates = [], ck_listing = map snd images, ck_count = length (filter fst images),
               ck_errors = errors\<rparr>)
   | _ \<Rightarrow> throw (attribute_error v ''values''))"

definition configured_services :: "pyval \<Rightarrow> pyval" where
  "configured_services v = (case v of
     PDict config \<Rightarrow> if ''services'' \<in> set (map fst config) then get_key config ''services'' else PDict []
   | _ \<Rightarrow> PDict [])"

definition docker_image_updates :: "host_world \<Rightarrow> (host_agent, check_report) act" where
  "docker_image_updates w =
     seq (run_command w inventory_images) (\<lambda>(returncode, output).
     if returncode \<noteq> 0
     then give \<lparr>ck_updates = [], ck_listing = [], ck_count = 0,
                ck_errors = [''Docker Compose image inventory failed: '' @ last_n 1200 output]\<rparr>
     else check_services w (configured_services (parse_json_output w output (PDict []))))"

section \<open>The scan\<close>

record scan_summary =
  sm_result :: pyval
  sm_total :: int
  sm_errors :: int

definition monotonic :: "host_world \<Rightarrow> (host_agent, rat) act" where
  "monotonic w = (\<lambda>s. (Inr (hw_clock w (ag_asked s)), asked s))"

definition utc_now :: "host_world \<Rightarrow> (host_agent, string) act" where
  "utc_now w = (\<lambda>s. (Inr (hw_utc w (ag_asked s)), asked s))"

definition texts :: "string list \<Rightarrow> pyval" where
  "texts xs = PList (map PStr xs)"

definition counted :: "nat \<Rightarrow> pyval" where
  "counted n = PInt (int n)"

definition run_update_scan :: "host_world \<Rightarrow> (host_agent, scan_summary) act" where
  "run_update_scan w =
     seq (monotonic w) (\<lambda>started.
     seq (host_package_updates w) (\<lambda>host.
     seq (python_package_updates w) (\<lambda>python.
     seq (local_wheel_updates w (ck_listing python)) (\<lambda>wheels.
     seq (docker_image_updates w) (\<lambda>docker.
     seq (utc_now w) (\<lambda>generated_at.
     seq (monotonic w) (\<lambda>ended.
     let errors = ck_errors host @ ck_errors python @ ck_errors wheels @ ck_errors docker;
         total = ck_count host + ck_count python + ck_count wheels + ck_count docker
     in give \<lparr>sm_result = PDict
          [(''generated_at'', PStr generated_at),
           (''duration_seconds'', PFloat (quantize_even 2 (ended - started))),
           (''host'', PDict [(''platform'', PStr (take 300 (hw_platform w))), (''updates'', PList (ck_updates host)),
              (''count'', counted (ck_count host))]),
           (''python'', PDict [(''installed_buh'', PList (ck_listing python)), (''updates'', PList (ck_updates python)),
              (''count'', counted (ck_count python)), (''errors'', texts (ck_errors python))]),
           (''local_wheels'', PDict [(''local_wheels'', PList (ck_listing wheels)), (''updates'', PList (ck_updates wheels)),
              (''count'', counted (ck_count wheels)), (''errors'', texts (ck_errors wheels))]),
           (''docker'', PDict [(''images'', PList (ck_listing docker)), (''count'', counted (ck_count docker)),
              (''errors'', texts (ck_errors docker))]),
           (''summary'', PDict [(''total_updates'', counted total), (''host_packages'', counted (ck_count host)),
              (''python_packages'', counted (ck_count python)), (''local_wheels'', counted (ck_count wheels)),
              (''docker_images'', counted (ck_count docker)), (''errors'', counted (length errors))]),
           (''errors'', texts (take 50 errors))],
        sm_total = int total, sm_errors = int (length errors)\<rparr>)))))))"

section \<open>What the scan runs and leaves alone\<close>

text \<open>
  The commands that look and change nothing of the stack or the host's packages: package lists
  are fetched into the directory made for the scan, the upgrade is only simulated, the
  containers are asked for their packages, and configuration, images and registries are read.
\<close>

definition inspects :: "host_world \<Rightarrow> string list \<Rightarrow> bool" where
  "inspects w command \<longleftrightarrow>
     (\<exists>n path. hw_directory w n = Inr path
        \<and> (command = [''apt-get'', ''-o'', ''Dir::State::lists='' @ path, ''-o'', ''APT::Get::List-Cleanup=0'', ''update'']
           \<or> command = [''apt-get'', ''-o'', ''Dir::State::lists='' @ path, ''-s'', ''upgrade'']))
     \<or> command = [''apt-get'', ''-s'', ''upgrade'']
     \<or> command = [''docker'', ''compose'', ''--env-file=.env'', ''exec'', ''-T'', ''allianceauth_gunicorn'', ''python3'', ''-c'', inventory_program]
     \<or> command = [''docker'', ''compose'', ''--env-file=.env'', ''exec'', ''-T'', ''allianceauth_gunicorn'', ''python3'', ''-m'', ''pip'',
           ''list'', ''--outdated'', ''--format=json'', ''--disable-pip-version-check'']
     \<or> command = [''docker'', ''compose'', ''--env-file=.env'', ''config'', ''--format'', ''json'']
     \<or> (\<exists>ref. ref \<noteq> [] \<and>
          (command = [''docker'', ''image'', ''inspect'', ''--format'', ''{{json .RepoDigests}}'', ref]
           \<or> command = [''docker'', ''buildx'', ''imagetools'', ''inspect'', ref, ''--format'', ''{{json .Manifest.Digest}}'']
           \<or> command = [''docker'', ''manifest'', ''inspect'', ''--verbose'', ref]))"

definition scanning :: "host_world \<Rightarrow> host_agent \<Rightarrow> host_agent \<Rightarrow> bool" where
  "scanning w s s' \<longleftrightarrow>
     (\<exists>n new. s' = s\<lparr>ag_commands := ag_commands s @ new, ag_asked := n\<rparr> \<and> ag_asked s \<le> n
        \<and> (\<forall>command \<in> set new. inspects w command))"

lemma scanning_order [simp]: "reflp (scanning w)" "transp (scanning w)"
proof -
  show "reflp (scanning w)"
  proof (rule reflpI)
    show "scanning w s s" for s
      unfolding scanning_def by (rule exI [of _ "ag_asked s"], rule exI [of _ "[]"]) simp
  qed
  show "transp (scanning w)"
  proof (rule transpI)
    fix s s' s''
    assume "scanning w s s'" and "scanning w s' s''"
    then obtain n new k more where 1: "s' = s\<lparr>ag_commands := ag_commands s @ new, ag_asked := n\<rparr>" "ag_asked s \<le> n"
        "\<forall>command \<in> set new. inspects w command"
      and 2: "s'' = s'\<lparr>ag_commands := ag_commands s' @ more, ag_asked := k\<rparr>" "ag_asked s' \<le> k"
        "\<forall>command \<in> set more. inspects w command"
      by (auto simp: scanning_def)
    show "scanning w s s''"
      unfolding scanning_def
      by (rule exI [of _ k], rule exI [of _ "new @ more"]) (use 1 2 in auto)
  qed
qed

named_theorems scan_acts \<open>statements that run inspecting commands only\<close>

lemma scanning_run: "inspects w command \<Longrightarrow> moves (scanning w) (run_command w command)"
proof (rule movesI)
  fix s r s'
  assume "inspects w command" and "run_command w command s = (r, s')"
  then show "scanning w s s'"
    unfolding scanning_def run_command_def asked_def
    by (intro exI [of _ "Suc (ag_asked s)"] exI [of _ "[command]"]) auto
qed

lemma scanning_asks: "scanning w s (asked s)"
  unfolding scanning_def asked_def by (rule exI [of _ "Suc (ag_asked s)"], rule exI [of _ "[]"]) simp

lemma scanning_simple [scan_acts]:
  "moves (scanning w) (give x)" "moves (scanning w) (throw e)" "moves (scanning w) (monotonic w)"
  "moves (scanning w) (utc_now w)" "moves (scanning w) (tidy w)" "moves (scanning w) (local_wheel_updates w installed)"
  by (auto simp: moves_give moves_throw)
    (auto simp: moves_def monotonic_def utc_now_def tidy_def local_wheel_updates_def Let_def scanning_asks
      split: option.split sum.split)

lemma scanning_seq [scan_acts]:
  "moves (scanning w) f \<Longrightarrow> (\<And>x. moves (scanning w) (g x)) \<Longrightarrow> moves (scanning w) (seq f g)"
  by (rule moves_seq) simp_all

lemma scanning_finally [scan_acts]:
  "moves (scanning w) f \<Longrightarrow> moves (scanning w) g \<Longrightarrow> moves (scanning w) (finally_do f g)"
  by (rule moves_finally) simp_all

lemma scanning_host: "moves (scanning w) (host_package_updates w)"
proof (rule movesI)
  fix s r s'
  assume run: "host_package_updates w s = (r, s')"
  show "scanning w s s'"
  proof (cases "hw_directory w (ag_asked s)")
    case (Inl e)
    then show ?thesis
      using run by (auto simp: host_package_updates_def scanning_asks)
  next
    case (Inr path)
    have "\<exists>n. hw_directory w n = Inr path"
      using Inr ..
    then have "moves (scanning w) (host_package_scan w path)"
      unfolding host_package_scan_def Let_def
      by (intro scanning_seq scanning_run)
        (auto simp: inspects_def apt_lists_def intro!: scan_acts scanning_run split: prod.split)
    then have "moves (scanning w) (finally_do (host_package_scan w path) (tidy w))"
      by (intro scan_acts)
    moreover have "finally_do (host_package_scan w path) (tidy w) (asked s) = (r, s')"
      using run Inr by (simp add: host_package_updates_def)
    ultimately have "scanning w (asked s) s'"
      by (rule movesD)
    then show ?thesis
      by (rule transpD [OF scanning_order(2) scanning_asks])
  qed
qed

lemma inspecting_commands:
  "inspects w inventory_command" "inspects w outdated_command" "inspects w inventory_images"
  "ref \<noteq> [] \<Longrightarrow> inspects w (image_command ref)" "ref \<noteq> [] \<Longrightarrow> inspects w (registry_command ref)"
  "ref \<noteq> [] \<Longrightarrow> inspects w (manifest_command ref)"
  by (simp_all add: inspects_def inventory_command_def outdated_command_def inventory_images_def compose_command_def
      image_command_def registry_command_def manifest_command_def)

lemma scanning_python: "moves (scanning w) (python_package_updates w)"
  unfolding python_package_updates_def Let_def
  by (intro scanning_seq scanning_run inspecting_commands)
    (auto intro!: scan_acts scanning_run inspecting_commands split: prod.split)

lemma scanning_image:
  assumes "ref \<noteq> []"
  shows "moves (scanning w) (inspect_image w services ref)"
proof -
  have "moves (scanning w) (remote_digest w ref)"
    unfolding remote_digest_def
    by (intro scanning_seq scanning_run inspecting_commands assms)
      (auto intro!: scan_acts scanning_run inspecting_commands assms split: prod.split sum.split)
  then show ?thesis
    unfolding inspect_image_def Let_def
    by (intro scanning_seq scanning_run inspecting_commands assms) (auto intro!: scan_acts split: prod.split)
qed

lemma scanning_images: "moves (scanning w) (inspect_images w services seen rest)"
proof (induction rest arbitrary: seen)
  case Nil
  show ?case
    unfolding inspect_images.simps by (rule scan_acts)
next
  case (Cons service rest)
  then show ?case
    by (auto simp: Let_def intro!: scan_acts scanning_image split: prod.split)
qed

lemma scanning_services: "moves (scanning w) (check_services w v)"
  unfolding check_services_def
  by (cases v) (auto intro!: scan_acts scanning_images split: prod.split)

lemma scanning_docker: "moves (scanning w) (docker_image_updates w)"
  unfolding docker_image_updates_def
  by (intro scanning_seq scanning_run inspecting_commands)
    (auto intro!: scanning_services scan_acts split: prod.split)

lemma scanning_update_scan: "moves (scanning w) (run_update_scan w)"
  unfolding run_update_scan_def Let_def
  by (intro scan_acts scanning_host scanning_python scanning_docker)

end
