(* ===== verification/Health_Agent.thy ===== *)
theory Health_Agent
  imports Health_Scan "HOL-Library.AList"
begin

text \<open>
  The guarded operations of the host agent (\<open>apps/vps-health/src/host-agent\<close>): what a
  request must pass to start one, the thread that performs it, and what a restart of the
  agent does.
\<close>

section \<open>Documents\<close>

text \<open>\<open>ACTION_ID_RE\<close>, and \<open>uuid.UUID\<close> on what it admits.\<close>

definition id_char :: "char \<Rightarrow> bool" where
  "id_char c \<longleftrightarrow> digit c \<or> (97 \<le> code c \<and> code c \<le> 102) \<or> (65 \<le> code c \<and> code c \<le> 70) \<or> c = CHR ''-''"

definition action_id_text :: "string \<Rightarrow> bool" where
  "action_id_text s \<longleftrightarrow> length s = 36 \<and> list_all id_char s"

definition uuid_text :: "string \<Rightarrow> bool" where
  "uuid_text s \<longleftrightarrow> length (filter (\<lambda>c. c \<noteq> CHR ''-'') s) = 32"

text \<open>\<open>atomic_json\<close> of an operation's document.\<close>

definition write_document :: "host_world \<Rightarrow> string \<Rightarrow> guarded_operation \<Rightarrow> host_agent \<Rightarrow> (exn + unit) \<times> host_agent" where
  "write_document w name op s =
     (let s' = asked s;
          done = s'\<lparr>ag_documents := AList.update name (Some op) (ag_documents s')\<rparr>
      in case hw_disk w (ag_asked s) of
           Written \<Rightarrow> (Inr (), done)
         | Lost message \<Rightarrow> (Inl (plain_error ''OSError'' message), s')
         | Late message \<Rightarrow> (Inl (plain_error ''OSError'' message), done))"

definition read_action :: "string \<Rightarrow> host_agent \<Rightarrow> guarded_operation option" where
  "read_action action_id s =
     (if \<not> action_id_text action_id then None
      else case map_of (ag_documents s) action_id of Some (Some op) \<Rightarrow> Some op | _ \<Rightarrow> None)"

section \<open>Admission\<close>

definition guarded_actions :: "string list" where
  "guarded_actions = [''restart_auth'', ''set_workers'', ''check_updates'']"

definition cooldown :: "string \<Rightarrow> rat" where
  "cooldown name =
     (if name = ''restart_auth'' then 120 else if name = ''set_workers'' then 20 else 300)"

text \<open>The checks \<open>accept_action\<close> makes before it takes the lock: an error, the id and name of
  an operation to admit, or the operation already on file under that id.\<close>

datatype checked = Admissible string string | Existing guarded_operation

definition check_request :: "host_world \<Rightarrow> (string \<times> pyval) list \<Rightarrow> host_agent \<Rightarrow> exn + checked" where
  "check_request w payload s =
     (let action_id = text_or_blank w (get_key payload ''action_id'');
          name = text_or_blank w (get_key payload ''action'')
      in if \<not> action_id_text action_id \<or> \<not> uuid_text action_id
         then Inl (plain_error ''ValueError'' ''A valid UUID action ID is required.'')
         else if name \<notin> set guarded_actions
         then Inl (plain_error ''ValueError'' ''This action is not in the host-agent allowlist.'')
         else case read_action action_id s of
                Some op \<Rightarrow> Inr (Existing op)
              | None \<Rightarrow> Inr (Admissible action_id name))"

definition requested_count :: "string \<Rightarrow> pyval \<Rightarrow> exn + int option" where
  "requested_count name v =
     (if name = ''set_workers''
      then (case int_of_value v of
              None \<Rightarrow> Inl (plain_error ''ValueError'' ''Worker count must be an integer.'')
            | Some n \<Rightarrow>
                if 1 \<le> n \<and> n \<le> 8 then Inr (Some n)
                else Inl (plain_error ''ValueError'' ''Worker count is outside the hard 1-8 safety range.''))
      else Inr None)"

definition new_operation :: "host_world \<Rightarrow> string \<Rightarrow> string \<Rightarrow> int option \<Rightarrow> (string \<times> pyval) list \<Rightarrow> string \<Rightarrow> guarded_operation" where
  "new_operation w action_id name worker_count payload stamp =
     \<lparr>od_id = action_id, od_action = name, od_worker_count = worker_count,
      od_requester = take 150 (text_or_blank w (get_key payload ''requester'')),
      od_status = ''accepted'', od_message = ''Action accepted by the guarded host agent.'',
      od_accepted_at = stamp, od_started_at = None, od_finished_at = None, od_result = PDict []\<rparr>"

text \<open>The part of \<open>accept_action\<close> under \<open>action_lock\<close>: the clock is read twice, the time
  of day once, and the document written in between.\<close>

definition admit :: "host_world \<Rightarrow> string \<Rightarrow> string \<Rightarrow> (string \<times> pyval) list \<Rightarrow> host_agent \<Rightarrow> (exn + guarded_operation) \<times> host_agent" where
  "admit w action_id name payload s =
     (case ag_active s of
        Some other \<Rightarrow>
          (Inl (plain_error ''ValueError'' (''Another guarded operation ('' @ other @ '') is still running.'')), s)
      | None \<Rightarrow>
          (let remaining = cooldown name - (hw_clock w (ag_asked s) - ag_last s name);
               s1 = asked s
           in if remaining > 0
              then (Inl (plain_error ''ValueError'' (''Action cooldown is active for another ''
                      @ show_int (\<lfloor>remaining\<rfloor> + 1) @ ''s.'')), s1)
              else case requested_count name (get_key payload ''worker_count'') of
                     Inl e \<Rightarrow> (Inl e, s1)
                   | Inr worker_count \<Rightarrow>
                       (let op = new_operation w action_id name worker_count payload (hw_utc w (ag_asked s1))
                        in case write_document w action_id op (asked s1) of
                             (Inl e, s2) \<Rightarrow> (Inl e, s2)
                           | (Inr _, s2) \<Rightarrow>
                               (Inr op, (asked s2)\<lparr>ag_last := (ag_last s2)(name := hw_clock w (ag_asked s2)),
                                  ag_active := Some action_id,
                                  ag_performers := ag_performers s2 @ [\<lparr>pf_operation = op, pf_stage = Sleeping\<rparr>]\<rparr>))))"

definition accept_action :: "host_world \<Rightarrow> (string \<times> pyval) list \<Rightarrow> host_agent \<Rightarrow> (exn + guarded_operation) \<times> host_agent" where
  "accept_action w payload s =
     (case check_request w payload s of
        Inl e \<Rightarrow> (Inl e, s)
      | Inr (Existing op) \<Rightarrow> (Inr op, s)
      | Inr (Admissible action_id name) \<Rightarrow> admit w action_id name payload s)"

section \<open>Performing an operation\<close>

definition restart_services :: "host_world \<Rightarrow> host_agent \<Rightarrow> (exn + int \<times> string) \<times> host_agent" where
  "restart_services w s =
     (case run_command w (compose_command [''config'', ''--services'']) s of
        (Inl e, s') \<Rightarrow> (Inl e, s')
      | (Inr (returncode, output), s') \<Rightarrow>
          run_command w (compose_command (''restart'' # restart_service_names returncode output)) s')"

text \<open>\<open>write_worker_count\<close>: the file is replaced whole or not at all.\<close>

definition write_worker_count :: "host_world \<Rightarrow> int \<Rightarrow> host_agent \<Rightarrow> (exn + unit) \<times> host_agent" where
  "write_worker_count w count s =
     (case ag_env s of
        None \<Rightarrow> (Inl (plain_error ''OSError'' (hw_env_missing w)), s)
      | Some content \<Rightarrow>
          (case hw_env w (ag_asked s) of
             Some e \<Rightarrow> (Inl e, asked s)
           | None \<Rightarrow> (Inr (), (asked s)\<lparr>ag_env := Some (with_worker_count count (unix_lines content))\<rparr>)))"

definition scale_command :: "int \<Rightarrow> string list" where
  "scale_command count = compose_command [''up'', ''-d'', ''--no-deps'', ''--scale'',
     ''allianceauth_worker='' @ show_int count, ''allianceauth_worker'']"

definition scan_message :: "scan_summary \<Rightarrow> string" where
  "scan_message summary = ''Update scan completed: '' @ show_int (sm_total summary) @ '' update(s) found''
     @ (if sm_errors summary \<noteq> 0 then '' with '' @ show_int (sm_errors summary) @ '' check warning(s).'' else ''.'')"

definition op_failed :: "string \<Rightarrow> guarded_operation \<Rightarrow> guarded_operation" where
  "op_failed message op = op\<lparr>od_status := ''failed'', od_message := take 4000 message\<rparr>"

definition op_succeeded :: "string \<Rightarrow> guarded_operation \<Rightarrow> guarded_operation" where
  "op_succeeded message op = op\<lparr>od_status := ''succeeded'', od_message := message\<rparr>"

text \<open>The end of the \<open>try\<close> block: a non-zero exit status is a \<open>RuntimeError\<close>.\<close>

definition conclude :: "string \<Rightarrow> exn + (int \<times> string) \<Rightarrow> guarded_operation \<Rightarrow> guarded_operation" where
  "conclude success_message result op =
     (case result of
        Inl e \<Rightarrow> op_failed (ex_text e) op
      | Inr (returncode, output) \<Rightarrow>
          if returncode \<noteq> 0
          then op_failed (let tail = last_n 2000 (strip_text output)
                          in if tail = '''' then ''Docker Compose failed.'' else tail) op
          else op_succeeded success_message op)"

definition performer_at :: "stage \<Rightarrow> guarded_operation \<Rightarrow> performer" where
  "performer_at st op = \<lparr>pf_operation = op, pf_stage = st\<rparr>"

text \<open>The \<open>try\<close> block of \<open>perform_action\<close>, up to the worker count written for \<open>set_workers\<close>.\<close>

definition work :: "host_world \<Rightarrow> guarded_operation \<Rightarrow> host_agent \<Rightarrow> performer \<times> host_agent" where
  "work w op s =
     (if od_action op = ''restart_auth'' then
        (case restart_services w s of (result, s') \<Rightarrow>
           (performer_at Worked (conclude ''Alliance Auth application services restarted successfully.'' result op), s'))
      else if od_action op = ''set_workers'' then
        (case od_worker_count op of
           None \<Rightarrow> (performer_at Worked (op_failed (''int() argument must be a string, a bytes-like object or a real number, not '' @ [CHR 0x27] @ ''NoneType'' @ [CHR 0x27]) op), s)
         | Some count \<Rightarrow>
             if \<not> (1 \<le> count \<and> count \<le> 8)
             then (performer_at Worked (op_failed ''Worker count is outside the hard 1-8 safety range.'' op), s)
             else (case write_worker_count w count s of
                     (Inl e, s') \<Rightarrow> (performer_at Worked (op_failed (ex_text e) op), s')
                   | (Inr _, s') \<Rightarrow> (performer_at Counted op, s')))
      else if od_action op = ''check_updates'' then
        (case run_update_scan w s of
           (Inl e, s') \<Rightarrow> (performer_at Worked (op_failed (ex_text e) op), s')
         | (Inr summary, s') \<Rightarrow>
             (performer_at Worked (op_succeeded (scan_message summary) (op\<lparr>od_result := sm_result summary\<rparr>)), s'))
      else (performer_at Worked (op_failed ''Unsupported action.'' op), s))"

definition scale_workers :: "host_world \<Rightarrow> guarded_operation \<Rightarrow> host_agent \<Rightarrow> performer \<times> host_agent" where
  "scale_workers w op s =
     (let count = the (od_worker_count op)
      in case run_command w (scale_command count) s of (result, s') \<Rightarrow>
           (performer_at Worked (conclude (''Alliance Auth worker count set to '' @ show_int count @ ''.'') result op), s'))"

text \<open>One stage of \<open>perform_action\<close>; \<open>None\<close> is the end of the thread, an exception that
  leaves it included.\<close>

definition start_stage :: "host_world \<Rightarrow> guarded_operation \<Rightarrow> host_agent \<Rightarrow> performer option \<times> host_agent" where
  "start_stage w op s =
     (let op' = op\<lparr>od_status := ''running'', od_started_at := Some (hw_utc w (ag_asked s)),
                   od_message := ''The host agent is applying the guarded operation.''\<rparr>
      in case write_document w (od_id op) op' (asked s) of
           (Inl e, s') \<Rightarrow> (None, s')
         | (Inr _, s') \<Rightarrow> (Some (performer_at Working op'), s'))"

definition report_stage :: "host_world \<Rightarrow> guarded_operation \<Rightarrow> host_agent \<Rightarrow> performer option \<times> host_agent" where
  "report_stage w op s =
     (let op' = op\<lparr>od_finished_at := Some (hw_utc w (ag_asked s))\<rparr>
      in case write_document w (od_id op) op' (asked s) of
           (Inl e, s') \<Rightarrow> (None, s')
         | (Inr _, s') \<Rightarrow> (Some (performer_at Reported op'), s'))"

definition release_stage :: " guarded_operation \<Rightarrow> host_agent \<Rightarrow> performer option \<times> host_agent" where
  "release_stage op s =
     (None, if ag_active s = Some (od_id op) then s\<lparr>ag_active := None\<rparr> else s)"

definition perform_stage :: "host_world \<Rightarrow> performer \<Rightarrow> host_agent \<Rightarrow> performer option \<times> host_agent" where
  "perform_stage w p s =
     (case pf_stage p of
        Sleeping \<Rightarrow> start_stage w (pf_operation p) s
      | Working \<Rightarrow> (case work w (pf_operation p) s of (p', s') \<Rightarrow> (Some p', s'))
      | Counted \<Rightarrow> (case scale_workers w (pf_operation p) s of (p', s') \<Rightarrow> (Some p', s'))
      | Worked \<Rightarrow> report_stage w (pf_operation p) s
      | Reported \<Rightarrow> release_stage (pf_operation p) s)"

fun remaining_stages :: "stage \<Rightarrow> nat" where
  "remaining_stages Sleeping = 5"
| "remaining_stages Working = 4"
| "remaining_stages Counted = 3"
| "remaining_stages Worked = 2"
| "remaining_stages Reported = 1"

lemma work_stage:
  "work w op s = (p, s') \<Longrightarrow> pf_stage p = Worked \<or> pf_stage p = Counted \<and> od_action op = ''set_workers''"
  by (auto simp: work_def performer_at_def split: prod.splits sum.splits option.splits if_splits)

lemma perform_stage_advances:
  "perform_stage w p s = (Some p', s') \<Longrightarrow> remaining_stages (pf_stage p') < remaining_stages (pf_stage p)"
  by (auto simp: perform_stage_def start_stage_def report_stage_def release_stage_def scale_workers_def
      performer_at_def Let_def dest!: work_stage split: stage.splits prod.splits sum.splits)

text \<open>\<open>perform_action\<close>, undisturbed: the stages to the end of the thread.\<close>

function perform_action :: "host_world \<Rightarrow> performer \<Rightarrow> host_agent \<Rightarrow> host_agent" where
  "perform_action w p s =
     (case perform_stage w p s of
        (None, s') \<Rightarrow> s'
      | (Some p', s') \<Rightarrow> perform_action w p' s')"
  by pat_completeness auto
termination
  by (relation "measure (\<lambda>(w, p, s). remaining_stages (pf_stage p))") (auto dest: perform_stage_advances [OF sym])

declare perform_action.simps [simp del]

section \<open>Requests\<close>

text \<open>
  \<open>handle_request\<close>, given the token on file; an answer is a dictionary without its order.
  An exception outside \<open>ValueError\<close>, \<open>OSError\<close> and \<open>RuntimeError\<close> leaves it; the class of
  an exception of the host is the one of the three it belongs to, when it does.
\<close>

datatype answer = Refused string | Metrics "(string \<times> pyval) list" | Operation guarded_operation

definition handled :: "exn \<Rightarrow> bool" where
  "handled e \<longleftrightarrow> ex_class e \<in> set [''ValueError'', ''OSError'', ''RuntimeError'']"

definition refusal :: "exn \<Rightarrow> exn + answer" where
  "refusal e = (if handled e then Inr (Refused (ex_text e)) else Inl e)"

text \<open>The token check: \<open>None\<close> lets the request through.\<close>

definition token_refusal :: "host_world \<Rightarrow> string option \<Rightarrow> (string \<times> pyval) list \<Rightarrow> (exn + answer) option" where
  "token_refusal w token payload =
     (case token of
        None \<Rightarrow> Some (Inr (Refused ''Agent token is unavailable.''))
      | Some content \<Rightarrow>
          (let expected = strip_text content; supplied = text_or_blank w (get_key payload ''token'')
           in if expected = [] \<or> supplied = [] then Some (Inr (Refused ''Authentication failed.''))
              else if \<not> list_all is_ascii expected \<or> \<not> list_all is_ascii supplied
              then Some (Inl (type_error ''comparing strings with non-ASCII characters is not supported''))
              else if expected \<noteq> supplied then Some (Inr (Refused ''Authentication failed.''))
              else None))"

definition serve :: "host_world \<Rightarrow> (string \<times> pyval) list \<Rightarrow> host_agent \<Rightarrow> (exn + answer) \<times> host_agent" where
  "serve w payload s =
     (if get_key payload ''operation'' = PStr ''metrics'' then
        (if ag_metrics s \<noteq> [] then (Inr (Metrics (ag_metrics s)), s)
         else (case hw_collect w (ag_asked s) of
                 Inl e \<Rightarrow> (refusal e, asked s)
               | Inr metrics \<Rightarrow> (Inr (Metrics metrics), asked s)))
      else if get_key payload ''operation'' = PStr ''action'' then
        (case accept_action w payload s of
           (Inl e, s') \<Rightarrow> (refusal e, s')
         | (Inr op, s') \<Rightarrow> (Inr (Operation op), s'))
      else if get_key payload ''operation'' = PStr ''action_status'' then
        (case read_action (text_or_blank w (get_key payload ''action_id'')) s of
           Some op \<Rightarrow> (Inr (Operation op), s)
         | None \<Rightarrow> (Inr (Refused ''Action was not found.''), s))
      else (Inr (Refused ''Unknown operation.''), s))"

definition handle_request :: "host_world \<Rightarrow> string option \<Rightarrow> (string \<times> pyval) list \<Rightarrow> host_agent \<Rightarrow> (exn + answer) \<times> host_agent" where
  "handle_request w token payload s =
     (case token_refusal w token payload of
        Some refused \<Rightarrow> (refused, s)
      | None \<Rightarrow> serve w payload s)"

section \<open>A new process\<close>

text \<open>\<open>prepare_runtime\<close>: the documents in the order the directory lists them.\<close>

definition interrupted_operation :: "host_world \<Rightarrow> guarded_operation \<Rightarrow> host_agent \<Rightarrow> guarded_operation" where
  "interrupted_operation w op s = op\<lparr>od_status := ''failed'',
     od_message := ''The host agent restarted before this operation completed.'',
     od_finished_at := Some (hw_utc w (ag_asked s))\<rparr>"

definition unfinished :: " guarded_operation \<Rightarrow> bool" where
  "unfinished op \<longleftrightarrow> od_status op = ''accepted'' \<or> od_status op = ''running''"

fun close_interrupted :: "host_world \<Rightarrow> (string \<times> guarded_operation option) list \<Rightarrow> host_agent \<Rightarrow> (exn + unit) \<times> host_agent" where
  "close_interrupted w [] s = (Inr (), s)"
| "close_interrupted w ((name, document) # rest) s =
     (case document of
        Some op \<Rightarrow>
          if unfinished op
          then (case write_document w name (interrupted_operation w op s) (asked s) of
                  (Inl e, s') \<Rightarrow> (Inl e, s')
                | (Inr _, s') \<Rightarrow> close_interrupted w rest s')
          else close_interrupted w rest s
      | None \<Rightarrow> close_interrupted w rest s)"

definition new_process :: "host_agent \<Rightarrow> host_agent" where
  "new_process s = s\<lparr>ag_active := None, ag_last := (\<lambda>_. 0), ag_performers := [], ag_metrics := []\<rparr>"

definition restart_agent :: "host_world \<Rightarrow> host_agent \<Rightarrow> (exn + unit) \<times> host_agent" where
  "restart_agent w s = (let s' = new_process s in close_interrupted w (ag_documents s') s')"

end
