(* ===== verification/Health_Alerts.thy ===== *)
theory Health_Alerts
  imports Table Health_Agent
begin

text \<open>
  The monitoring half of VPS Health (\<open>apps/vps-health/src/buh_vps_health\<close>): what the host
  agent's telemetry becomes as a snapshot, when an alert is raised or resolved, and who is
  told. Floats are exact rationals (no NaN, no infinity, no rounding of a quotient);
  snapshots taken at one instant are ordered by their keys. Every reading of the clock
  is the next element of a sequence; \<open>hm_reads\<close> counts them.
\<close>

section \<open>Configuration, snapshots and alerts\<close>

record health_config =
  hc_history_retention_days :: nat
  hc_snapshot_interval_minutes :: nat
  hc_warning_cpu_percent :: nat
  hc_warning_memory_percent :: nat
  hc_warning_disk_percent :: nat
  hc_warning_load_per_cpu :: rat
  hc_warning_queue_depth :: nat
  hc_alert_sustain_minutes :: nat
  hc_notify_directors :: bool
  hc_worker_minimum :: int
  hc_worker_maximum :: int

definition default_config :: health_config where
  "default_config = \<lparr>hc_history_retention_days = 30, hc_snapshot_interval_minutes = 1,
     hc_warning_cpu_percent = 85, hc_warning_memory_percent = 85, hc_warning_disk_percent = 85,
     hc_warning_load_per_cpu = 3 / 2, hc_warning_queue_depth = 500, hc_alert_sustain_minutes = 5,
     hc_notify_directors = True, hc_worker_minimum = 1, hc_worker_maximum = 8\<rparr>"

record health_snapshot =
  hs_pk :: nat
  hs_captured_at :: instant
  hs_cpu_percent :: rat
  hs_cpu_count :: int
  hs_load_1 :: rat
  hs_load_5 :: rat
  hs_load_15 :: rat
  hs_memory_percent :: rat
  hs_memory_used_bytes :: int
  hs_memory_total_bytes :: int
  hs_swap_percent :: rat
  hs_disk_percent :: rat
  hs_disk_used_bytes :: int
  hs_disk_total_bytes :: int
  hs_filesystems :: pyval
  hs_network_rx :: rat
  hs_network_tx :: rat
  hs_container_total :: int
  hs_container_unhealthy :: int
  hs_worker_desired :: int
  hs_worker_online :: int
  hs_active_tasks :: int
  hs_queued_tasks :: int

datatype severity = Warning_Level | Danger_Level | Success_Level

record alert_state =
  al_pk :: nat
  al_key :: string
  al_title :: string
  al_message :: string
  al_severity :: severity
  al_active :: bool
  al_first_seen_at :: instant
  al_last_seen_at :: instant
  al_resolved_at :: "instant option"
  al_notification_sent_at :: "instant option"

text \<open>A user as the recipients query reads one: the permissions are an application and a code name.\<close>

record health_user =
  hu_id :: nat
  hu_is_active :: bool
  hu_is_superuser :: bool
  hu_permissions :: "(string \<times> string) list"
  hu_group_permissions :: "(string \<times> string) list"

record health_notice =
  hn_user :: nat
  hn_title :: string
  hn_message :: string
  hn_level :: severity

text \<open>What comes back over the agent's socket.\<close>

datatype transport =
  No_Token string
| No_Connection string
| Too_Long
| Not_Json
| Reply "(string \<times> pyval) list"

record monitor_world =
  mw_now :: "nat \<Rightarrow> instant"
  mw_metrics :: "nat \<Rightarrow> transport"
  mw_workload :: "nat \<Rightarrow> exn + (string \<times> pyval) list"
  mw_column_check :: "health_snapshot \<Rightarrow> exn option"
  mw_users :: "health_user list"
  mw_shown :: "pyval \<Rightarrow> string"

record monitor =
  hm_config :: "health_config option"
  hm_snapshots :: "health_snapshot table"
  hm_alerts :: "alert_state table"
  hm_outbox :: "health_notice list"
  hm_reads :: nat
  hm_asked :: nat

definition read_clock :: "monitor_world \<Rightarrow> monitor \<Rightarrow> instant \<times> monitor" where
  "read_clock w s = (mw_now w (hm_reads s), s\<lparr>hm_reads := Suc (hm_reads s)\<rparr>)"

text \<open>\<open>HealthConfiguration.get_solo\<close>.\<close>

definition get_solo :: "monitor \<Rightarrow> health_config \<times> monitor" where
  "get_solo s = (case hm_config s of
      Some config \<Rightarrow> (config, s)
    | None \<Rightarrow> (default_config, s\<lparr>hm_config := Some default_config\<rparr>))"

section \<open>The agent's answer\<close>

definition agent_unavailable :: "string \<Rightarrow> exn" where
  "agent_unavailable message = plain_error ''AgentUnavailable'' message"

text \<open>\<open>request_agent\<close>: how a reply or its absence is read.\<close>

definition read_reply :: "(pyval \<Rightarrow> string) \<Rightarrow> transport \<Rightarrow> exn + (string \<times> pyval) list" where
  "read_reply shown t = (case t of
      No_Token reason \<Rightarrow> Inl (agent_unavailable (''Host-agent token is unavailable: '' @ reason))
    | No_Connection reason \<Rightarrow> Inl (agent_unavailable (''Host agent is unavailable: '' @ reason))
    | Too_Long \<Rightarrow> Inl (agent_unavailable ''Host-agent response exceeded the safety limit.'')
    | Not_Json \<Rightarrow> Inl (agent_unavailable ''Host agent returned an invalid response.'')
    | Reply response \<Rightarrow>
        if truthy (get_key response ''ok'') then Inr response
        else Inl (agent_unavailable
               (if truthy (get_key response ''error'')
                then (case get_key response ''error'' of PStr text \<Rightarrow> text | v \<Rightarrow> shown v)
                else ''Host agent rejected the request.'')))"

text \<open>\<open>get_metrics\<close>: the \<open>metrics\<close> of the reply, a dictionary whenever the agent sends them.\<close>

definition get_metrics :: "monitor_world \<Rightarrow> monitor \<Rightarrow> (exn + (string \<times> pyval) list) \<times> monitor" where
  "get_metrics w s =
     (case read_reply (mw_shown w) (mw_metrics w (hm_asked s)) of
        Inl e \<Rightarrow> Inl e
      | Inr response \<Rightarrow>
          (case get_key response ''metrics'' of
             PDict metrics \<Rightarrow> Inr metrics
           | _ \<Rightarrow> Inl (plain_error ''KeyError'' ''metrics'')),
      s\<lparr>hm_asked := Suc (hm_asked s)\<rparr>)"

definition get_worker_workload :: "monitor_world \<Rightarrow> monitor \<Rightarrow> (exn + (string \<times> pyval) list) \<times> monitor" where
  "get_worker_workload w s = (mw_workload w (hm_asked s), s\<lparr>hm_asked := Suc (hm_asked s)\<rparr>)"

section \<open>File systems\<close>

definition byte_fields :: "string list" where
  "byte_fields = [''total_bytes'', ''used_bytes'', ''free_bytes'', ''available_bytes'']"

definition filesystem_rows :: "(string \<times> string \<times> string) list" where
  "filesystem_rows = [(''system'', ''System disk'', ''/''), (''data'', ''Auth data'', ''/srv/buh-data'')]"

definition blank_row :: "string \<Rightarrow> string \<Rightarrow> string \<Rightarrow> (string \<times> pyval) list" where
  "blank_row identifier label mountpoint =
     [(''id'', PStr identifier), (''label'', PStr label), (''mountpoint'', PStr mountpoint),
      (''available'', PBool False), (''status'', PStr ''unavailable'')]
     @ map (\<lambda>k. (k, PNone)) (byte_fields @ [''percent''])"

definition filesystem_source :: "string \<Rightarrow> pyval list \<Rightarrow> (string \<times> pyval) list" where
  "filesystem_source identifier raw =
     (case List.find (\<lambda>item. is_dict item \<and> get_key (the_dict item) ''id'' = PStr identifier) raw of
        None \<Rightarrow> [] | Some item \<Rightarrow> the_dict item)"

definition down_status :: "pyval \<Rightarrow> bool" where
  "down_status v \<longleftrightarrow> v = PStr ''not_mounted'' \<or> v = PStr ''duplicate'' \<or> v = PStr ''unavailable''"

definition percent_used :: "int \<Rightarrow> int \<Rightarrow> rat" where
  "percent_used used whole = quantize_even 2 (of_int (100 * used) / of_int whole)"

definition byte_count :: "pyval \<Rightarrow> bool" where
  "byte_count v \<longleftrightarrow> is_int v \<and> 0 \<le> the_int v"

definition source_mounted :: "string \<Rightarrow> (string \<times> pyval) list \<Rightarrow> bool" where
  "source_mounted mountpoint source \<longleftrightarrow>
     get_key source ''available'' = PBool True \<and> get_key source ''status'' = PStr ''mounted''
     \<and> get_key source ''mountpoint'' = PStr mountpoint
     \<and> list_all (\<lambda>k. byte_count (get_key source k)) byte_fields"

text \<open>The sizes add up: the test on the numbers of a mounted file system.\<close>

definition sizes_agree :: "int \<Rightarrow> int \<Rightarrow> int \<Rightarrow> int \<Rightarrow> bool" where
  "sizes_agree whole used free available \<longleftrightarrow> whole > 0 \<and> used + free = whole \<and> available \<le> free"

definition filesystem_row :: "string \<times> string \<times> string \<Rightarrow> pyval list \<Rightarrow> (string \<times> pyval) list" where
  "filesystem_row = (\<lambda>(identifier, label, mountpoint) raw.
     (let source = filesystem_source identifier raw;
          blank = blank_row identifier label mountpoint;
          row = (if down_status (get_key source ''status'')
                 then set_key ''status'' (get_key source ''status'') blank else blank);
          num = (\<lambda>k. the_int (get_key source k))
      in if source_mounted mountpoint source
            \<and> sizes_agree (num ''total_bytes'') (num ''used_bytes'') (num ''free_bytes'') (num ''available_bytes'')
         then set_key ''percent'' (PFloat (percent_used (num ''used_bytes'') (num ''total_bytes'')))
                (set_key ''status'' (PStr ''mounted'')
                  (set_key ''available'' (PBool True)
                    (fold (\<lambda>k. set_key k (get_key source k)) byte_fields row)))
         else row))"

text \<open>\<open>_snapshot_filesystems\<close>.\<close>

definition snapshot_filesystems :: "(string \<times> pyval) list \<Rightarrow> pyval" where
  "snapshot_filesystems host =
     (case get_key host ''filesystems'' of
        PList raw \<Rightarrow> PList (map (\<lambda>spec. PDict (filesystem_row spec raw)) filesystem_rows)
      | _ \<Rightarrow> PList [])"

section \<open>Taking a snapshot\<close>

definition number_or :: "(string \<times> pyval) list \<Rightarrow> string \<Rightarrow> int \<Rightarrow> pyval" where
  "number_or mapping key fallback = (case get_key mapping key of PNone \<Rightarrow> PInt fallback | v \<Rightarrow> v)"

text \<open>\<open>float(text)\<close> of a decimal literal.\<close>

definition digits_value :: "string \<Rightarrow> int option" where
  "digits_value s = (if s = '''' then Some 0 else read_digits False 0 s)"

definition unsigned_float :: "string \<Rightarrow> rat option" where
  "unsigned_float s =
     (let mantissa = takeWhile (\<lambda>c. c \<noteq> CHR ''e'' \<and> c \<noteq> CHR ''E'') s;
          exponent = drop (length mantissa) s;
          whole = takeWhile (\<lambda>c. c \<noteq> CHR ''.'') mantissa;
          fraction = drop (Suc (length whole)) mantissa;
          scale = length (filter digit fraction)
      in if whole = '''' \<and> fraction = '''' then None
         else case (digits_value whole, digits_value fraction,
                    if exponent = '''' then Some 0 else int_of_text (drop 1 exponent)) of
                (Some a, Some b, Some e) \<Rightarrow> Some ((of_int a + of_int b / 10 ^ scale) * pow10 e)
              | _ \<Rightarrow> None)"

definition float_of_text :: "string \<Rightarrow> rat option" where
  "float_of_text text =
     (case strip_text text of
        [] \<Rightarrow> None
      | c # cs \<Rightarrow> if c = CHR ''-'' then map_option uminus (unsigned_float cs)
          else if c = CHR ''+'' then unsigned_float cs
          else unsigned_float (c # cs))"

definition not_a_number :: "pyval \<Rightarrow> exn" where
  "not_a_number v =
     (if is_str v then plain_error ''ValueError'' ''invalid literal'' else type_error ''not a number'')"

fun to_float :: "pyval \<Rightarrow> exn + rat" where
  "to_float (PInt i) = Inr (of_int i)"
| "to_float (PBool b) = Inr (if b then 1 else 0)"
| "to_float (PFloat x) = Inr x"
| "to_float (PStr text) =
     (case float_of_text text of Some x \<Rightarrow> Inr x | None \<Rightarrow> Inl (not_a_number (PStr text)))"
| "to_float v = Inl (not_a_number v)"

definition to_int :: "pyval \<Rightarrow> exn + int" where
  "to_int v = (case int_of_value v of Some i \<Rightarrow> Inr i | None \<Rightarrow> Inl (not_a_number v))"

text \<open>\<open>metrics.get(key) or {}\<close>, before the first \<open>get\<close> on it.\<close>

definition subdict :: "string \<Rightarrow> (string \<times> pyval) list \<Rightarrow> exn + (string \<times> pyval) list" where
  "subdict key mapping =
     (let v = get_key mapping key
      in if \<not> truthy v then Inr []
         else case v of PDict d \<Rightarrow> Inr d | _ \<Rightarrow> Inl (plain_error ''AttributeError'' ''get''))"

fun all_results :: "('a \<Rightarrow> exn + 'b) \<Rightarrow> 'a list \<Rightarrow> exn + 'b list" where
  "all_results f [] = Inr []"
| "all_results f (x # xs) =
     (case f x of Inl e \<Rightarrow> Inl e
      | Inr y \<Rightarrow> (case all_results f xs of Inl e \<Rightarrow> Inl e | Inr ys \<Rightarrow> Inr (y # ys)))"

definition float_keys :: "string list" where
  "float_keys = [''cpu_percent'', ''load_1'', ''load_5'', ''load_15'', ''memory_percent'', ''swap_percent'',
     ''disk_percent'', ''network_rx_bytes_per_second'', ''network_tx_bytes_per_second'']"

definition build_snapshot :: "nat \<Rightarrow> instant \<Rightarrow> rat list \<Rightarrow> int list \<Rightarrow> pyval \<Rightarrow> health_snapshot" where
  "build_snapshot pk t fl it filesystems =
     \<lparr>hs_pk = pk, hs_captured_at = t, hs_cpu_percent = fl ! 0, hs_cpu_count = max 1 (it ! 0),
      hs_load_1 = fl ! 1, hs_load_5 = fl ! 2, hs_load_15 = fl ! 3, hs_memory_percent = fl ! 4,
      hs_memory_used_bytes = it ! 1, hs_memory_total_bytes = it ! 2, hs_swap_percent = fl ! 5,
      hs_disk_percent = fl ! 6, hs_disk_used_bytes = it ! 3, hs_disk_total_bytes = it ! 4,
      hs_filesystems = filesystems, hs_network_rx = fl ! 7, hs_network_tx = fl ! 8,
      hs_container_total = it ! 5, hs_container_unhealthy = it ! 6, hs_worker_desired = it ! 7,
      hs_worker_online = it ! 8, hs_active_tasks = it ! 9, hs_queued_tasks = it ! 10\<rparr>"

text \<open>The integers of a snapshot, in the order \<open>capture_snapshot\<close> converts them.\<close>

definition int_sources ::
    "(string \<times> pyval) list \<Rightarrow> (string \<times> pyval) list \<Rightarrow> (string \<times> pyval) list \<Rightarrow> (string \<times> pyval) list \<Rightarrow> pyval list" where
  "int_sources host docker workers workload =
     number_or host ''cpu_count'' 1
     # map (\<lambda>k. number_or host k 0) [''memory_used_bytes'', ''memory_total_bytes'', ''disk_used_bytes'', ''disk_total_bytes'']
     @ [number_or docker ''total'' 0, number_or docker ''unhealthy'' 0,
        number_or workers ''desired'' 0, number_or workers ''online'' 0,
        number_or workload ''active_total'' 0, number_or workload ''queued'' 0]"

text \<open>
  The row \<open>capture_snapshot\<close> creates, once the metrics and the workload are there: the
  integers are converted first, the floats when the row is saved, and then the database
  checks the columns.
\<close>

definition store_snapshot ::
    "monitor_world \<Rightarrow> (string \<times> pyval) list \<Rightarrow> (string \<times> pyval) list \<Rightarrow> monitor \<Rightarrow> (exn + health_snapshot) \<times> monitor" where
  "store_snapshot w metrics workload s =
     (case (subdict ''host'' metrics, subdict ''docker'' metrics, subdict ''workers'' metrics) of
        (Inr host, Inr docker, Inr workers) \<Rightarrow>
          (case all_results to_int (int_sources host docker workers workload) of
             Inl e \<Rightarrow> (Inl e, s)
           | Inr ints \<Rightarrow>
               (case read_clock w s of (t, s1) \<Rightarrow>
                  (case all_results (\<lambda>k. to_float (number_or host k 0)) float_keys of
                     Inl e \<Rightarrow> (Inl e, s1)
                   | Inr floats \<Rightarrow>
                       (let row = (\<lambda>pk. build_snapshot pk t floats ints (snapshot_filesystems host))
                        in case mw_column_check w (row (next_pk (hm_snapshots s1))) of
                             Some e \<Rightarrow> (Inl e, s1)
                           | None \<Rightarrow> (Inr (row (next_pk (hm_snapshots s1))),
                               s1\<lparr>hm_snapshots := create row (hm_snapshots s1)\<rparr>)))))
      | (Inl e, _, _) \<Rightarrow> (Inl e, s)
      | (Inr _, Inl e, _) \<Rightarrow> (Inl e, s)
      | (Inr _, Inr _, Inl e) \<Rightarrow> (Inl e, s))"

text \<open>\<open>capture_snapshot\<close>: empty metrics or an empty workload are asked for again.\<close>

definition capture_snapshot ::
    "monitor_world \<Rightarrow> (string \<times> pyval) list \<Rightarrow> (string \<times> pyval) list \<Rightarrow> monitor \<Rightarrow> (exn + health_snapshot) \<times> monitor" where
  "capture_snapshot w metrics workload s =
     (case (if metrics \<noteq> [] then (Inr metrics, s) else get_metrics w s) of
        (Inl e, s1) \<Rightarrow> (Inl e, s1)
      | (Inr metrics', s1) \<Rightarrow>
          (case (if workload \<noteq> [] then (Inr workload, s1) else get_worker_workload w s1) of
             (Inl e, s2) \<Rightarrow> (Inl e, s2)
           | (Inr workload', s2) \<Rightarrow> store_snapshot w metrics' workload' s2))"


section \<open>Raising and resolving an alert\<close>

definition alert_for :: "string \<Rightarrow> monitor \<Rightarrow> alert_state option" where
  "alert_for key s = List.find (\<lambda>a. al_key a = key) (rows (hm_alerts s))"

text \<open>\<open>alert.save()\<close>: \<open>last_seen_at\<close> is the time of the save.\<close>

definition save_alert :: "monitor_world \<Rightarrow> alert_state \<Rightarrow> monitor \<Rightarrow> alert_state \<times> monitor" where
  "save_alert w a s =
     (case read_clock w s of (t, s1) \<Rightarrow>
        let a' = a\<lparr>al_last_seen_at := t\<rparr>
        in (a', s1\<lparr>hm_alerts := update al_pk (al_pk a) (\<lambda>_. a') (hm_alerts s1)\<rparr>))"

text \<open>\<open>AlertState.objects.get_or_create\<close>: both times of a new row are read from the clock.\<close>

definition get_or_create_alert ::
    "monitor_world \<Rightarrow> string \<Rightarrow> bool \<Rightarrow> string \<Rightarrow> string \<Rightarrow> severity \<Rightarrow> instant option \<Rightarrow> monitor
     \<Rightarrow> (alert_state \<times> bool) \<times> monitor" where
  "get_or_create_alert w key active title message severity resolved s =
     (case alert_for key s of
        Some a \<Rightarrow> ((a, False), s)
      | None \<Rightarrow>
          (case read_clock w s of (t1, s1) \<Rightarrow>
             (case read_clock w s1 of (t2, s2) \<Rightarrow>
                (let row = (\<lambda>pk. \<lparr>al_pk = pk, al_key = key, al_title = title, al_message = message,
                                  al_severity = severity, al_active = active, al_first_seen_at = t1,
                                  al_last_seen_at = t2, al_resolved_at = resolved,
                                  al_notification_sent_at = None\<rparr>)
                 in ((row (next_pk (hm_alerts s2)), True), s2\<lparr>hm_alerts := create row (hm_alerts s2)\<rparr>)))))"

definition set_alert ::
    "monitor_world \<Rightarrow> string \<Rightarrow> bool \<Rightarrow> string \<Rightarrow> string \<Rightarrow> severity \<Rightarrow> monitor \<Rightarrow> (alert_state \<times> bool) \<times> monitor" where
  "set_alert w key active title message severity s =
     (case read_clock w s of (current, s1) \<Rightarrow>
        (case get_or_create_alert w key active title message severity (if active then None else Some current) s1 of
           ((alert, created), s2) \<Rightarrow>
             (let transitioned = ((created \<and> active) \<or> al_active alert \<noteq> active);
                  alert1 = alert\<lparr>al_title := title, al_message := message,
                    al_severity := (if active then severity else Success_Level), al_active := active\<rparr>;
                  alert2 =
                    (if created \<and> \<not> active then alert1\<lparr>al_notification_sent_at := Some current\<rparr>
                     else if transitioned then alert1\<lparr>al_notification_sent_at := None,
                       al_resolved_at := (if active then None else Some current)\<rparr>
                     else alert1)
              in case save_alert w alert2 s2 of (alert3, s3) \<Rightarrow> ((alert3, transitioned), s3))))"

section \<open>Evaluating a snapshot\<close>

text \<open>\<open>order_by("-captured_at")\<close>.\<close>

definition newest_snapshots :: "monitor \<Rightarrow> health_snapshot list" where
  "newest_snapshots s = rev (sort_key hs_captured_at (rows (hm_snapshots s)))"

text \<open>\<open>_sustained\<close>.\<close>

definition sustained :: "(health_snapshot \<Rightarrow> rat) \<Rightarrow> rat \<Rightarrow> nat \<Rightarrow> monitor \<Rightarrow> bool" where
  "sustained field threshold samples s =
     (let vs = map field (take samples (newest_snapshots s))
      in samples \<le> length vs \<and> list_all (\<lambda>v. threshold \<le> v) vs)"

text \<open>\<open>_data_filesystem\<close>.\<close>

definition data_filesystem :: "health_snapshot \<Rightarrow> (string \<times> pyval) list option" where
  "data_filesystem snapshot =
     (case hs_filesystems snapshot of
        PList (v # vs) \<Rightarrow>
          map_option the_dict (List.find (\<lambda>item. get_key (the_dict item) ''id'' = PStr ''data'')
            (the_list (snapshot_filesystems [(''filesystems'', PList (v # vs))])))
      | _ \<Rightarrow> None)"

fun as_number :: "pyval \<Rightarrow> rat" where
  "as_number (PInt i) = of_int i"
| "as_number (PFloat x) = x"
| "as_number v = 0"

definition row_available :: "(string \<times> pyval) list option \<Rightarrow> bool" where
  "row_available row \<longleftrightarrow> (case row of None \<Rightarrow> False | Some r \<Rightarrow> truthy (get_key r ''available''))"

definition high_usage :: "nat \<Rightarrow> (string \<times> pyval) list \<Rightarrow> bool" where
  "high_usage threshold row \<longleftrightarrow>
     of_nat threshold \<le> as_number (get_key row ''percent'') \<or> as_number (get_key row ''available_bytes'') = 0"

text \<open>\<open>_data_pressure\<close>: \<open>None\<close> when the telemetry decides nothing.\<close>

definition data_pressure :: "health_snapshot \<Rightarrow> nat \<Rightarrow> nat \<Rightarrow> monitor \<Rightarrow> bool option" where
  "data_pressure snapshot threshold samples s =
     (if \<not> row_available (data_filesystem snapshot) then None
      else if \<not> high_usage threshold (the (data_filesystem snapshot)) then Some False
      else (let found = map data_filesystem (take samples (newest_snapshots s))
            in if length found < samples \<or> \<not> list_all row_available found then None
               else Some (list_all (\<lambda>row. high_usage threshold (the row)) found)))"

definition sample_count :: "health_config \<Rightarrow> nat" where
  "sample_count config =
     max 1 (nat \<lceil>(of_nat (hc_alert_sustain_minutes config) :: rat) / of_nat (hc_snapshot_interval_minutes config)\<rceil>)"

text \<open>The measured alerts of \<open>evaluate_alerts\<close>: key, field, threshold, title and message.\<close>

definition measured_alerts ::
    "health_config \<Rightarrow> health_snapshot \<Rightarrow> (string \<times> (health_snapshot \<Rightarrow> rat) \<times> rat \<times> string \<times> string) list" where
  "measured_alerts config snapshot =
     [(''cpu'', hs_cpu_percent, of_nat (hc_warning_cpu_percent config), ''Sustained VPS CPU pressure'',
       ''CPU remained at or above '' @ show_nat (hc_warning_cpu_percent config) @ ''% for approximately ''
         @ show_nat (hc_alert_sustain_minutes config) @ '' minutes.''),
      (''memory'', hs_memory_percent, of_nat (hc_warning_memory_percent config), ''Sustained VPS memory pressure'',
       ''RAM remained at or above '' @ show_nat (hc_warning_memory_percent config) @ ''% for approximately ''
         @ show_nat (hc_alert_sustain_minutes config) @ '' minutes.''),
      (''disk'', hs_disk_percent, of_nat (hc_warning_disk_percent config), ''VPS disk space warning'',
       ''Disk utilization is at or above '' @ show_nat (hc_warning_disk_percent config) @ ''%.''),
      (''load'', hs_load_5, hc_warning_load_per_cpu config * of_int (max 1 (hs_cpu_count snapshot)),
       ''Sustained VPS load warning'', ''Five-minute load remained above the configured per-CPU threshold.''),
      (''queue'', \<lambda>r. of_int (hs_queued_tasks r), of_nat (hc_warning_queue_depth config),
       ''Alliance Auth task queue warning'',
       ''The Celery queue remained at or above '' @ show_nat (hc_warning_queue_depth config) @ '' tasks.'')]"

definition alert_checks :: "health_config \<Rightarrow> health_snapshot \<Rightarrow> monitor \<Rightarrow> (string \<times> bool \<times> string \<times> string) list" where
  "alert_checks config snapshot s =
     map (\<lambda>(key, field, threshold, title, message).
            (key, sustained field threshold (sample_count config) s, title, message)) (measured_alerts config snapshot)
     @ [(''containers'', hs_container_unhealthy snapshot > 0, ''Unhealthy or restarting Docker container'',
         show_int (hs_container_unhealthy snapshot) @ '' container(s) are unhealthy or restarting.'')]"

fun set_alerts :: "monitor_world \<Rightarrow> (string \<times> bool \<times> string \<times> string) list \<Rightarrow> monitor \<Rightarrow> alert_state list \<times> monitor" where
  "set_alerts w [] s = ([], s)"
| "set_alerts w ((key, active, title, message) # checks) s =
     (case set_alert w key active title message Danger_Level s of
        ((alert, changed), s1) \<Rightarrow>
          (case set_alerts w checks s1 of
             (alerts, s2) \<Rightarrow> ((if changed then alert # alerts else alerts), s2)))"

definition availability_check :: "bool \<Rightarrow> string \<times> bool \<times> string \<times> string" where
  "availability_check available =
     (''disk:data:unavailable'', \<not> available,
      if available then ''Auth data storage telemetry available'' else ''Auth data storage unavailable'',
      if available then ''The Auth data filesystem is mounted and reporting metrics.''
      else ''The Auth data filesystem is not mounted or its metrics cannot be read.'')"

definition pressure_check :: "health_config \<Rightarrow> bool \<Rightarrow> string \<times> bool \<times> string \<times> string" where
  "pressure_check config pressure =
     (''disk:data'', pressure, ''Auth data disk space warning'',
      ''Auth data disk utilization remained at or above '' @ show_nat (hc_warning_disk_percent config)
        @ ''% or had no available space.'')"

text \<open>The two checks on the data file system, when the snapshot has one.\<close>

definition data_checks :: "health_config \<Rightarrow> health_snapshot \<Rightarrow> monitor \<Rightarrow> (string \<times> bool \<times> string \<times> string) list" where
  "data_checks config snapshot s =
     (case data_filesystem snapshot of
        None \<Rightarrow> []
      | Some row \<Rightarrow>
          availability_check (get_key row ''available'' = PBool True)
          # (case data_pressure snapshot (hc_warning_disk_percent config) (sample_count config) s of
               None \<Rightarrow> [] | Some pressure \<Rightarrow> [pressure_check config pressure]))"

text \<open>\<open>evaluate_alerts\<close>: setting an alert reads and writes no snapshot, so the checks can be made first.\<close>

definition evaluate_alerts ::
    "monitor_world \<Rightarrow> health_snapshot \<Rightarrow> health_config \<Rightarrow> monitor \<Rightarrow> (exn + alert_state list) \<times> monitor" where
  "evaluate_alerts w snapshot config s =
     (if hc_snapshot_interval_minutes config = 0
      then (Inl (plain_error ''ZeroDivisionError'' ''division by zero''), s)
      else (case set_alerts w (alert_checks config snapshot s @ data_checks config snapshot s) s of
              (alerts, s') \<Rightarrow> (Inr alerts, s')))"

definition record_agent_failure :: "monitor_world \<Rightarrow> string \<Rightarrow> monitor \<Rightarrow> monitor" where
  "record_agent_failure w message s =
     snd (set_alert w ''agent'' True ''VPS Health host agent unavailable'' message Danger_Level s)"

definition record_agent_recovery :: "monitor_world \<Rightarrow> monitor \<Rightarrow> monitor" where
  "record_agent_recovery w s =
     (case alert_for ''agent'' s of
        None \<Rightarrow> s
      | Some _ \<Rightarrow> snd (set_alert w ''agent'' False ''VPS Health host agent recovered''
          ''Live host metrics and guarded controls are responding again.'' Warning_Level s))"

section \<open>Telling the directors\<close>

definition notification_codes :: "string list" where
  "notification_codes = [''manage_health_settings'', ''restart_auth_services'']"

definition health_permission :: "string \<times> string \<Rightarrow> bool" where
  "health_permission = (\<lambda>(app, code_name). app = ''buh_vps_health'' \<and> code_name \<in> set notification_codes)"

text \<open>
  The query joins each user with the permissions of the user and of the user's groups, a row with
  no permission where there is none; \<open>distinct\<close> drops the users met again.
\<close>

definition outer_join :: "'a list \<Rightarrow> 'a option list" where
  "outer_join xs = (if xs = [] then [None] else map Some xs)"

definition recipient_row :: "health_user \<Rightarrow> (string \<times> string) option \<times> (string \<times> string) option \<Rightarrow> bool" where
  "recipient_row u = (\<lambda>(own, group).
     hu_is_superuser u \<or> (case own of None \<Rightarrow> False | Some p \<Rightarrow> health_permission p)
     \<or> (case group of None \<Rightarrow> False | Some p \<Rightarrow> health_permission p))"

definition notification_recipients :: "health_user list \<Rightarrow> health_user list" where
  "notification_recipients users =
     remdups (concat (map (\<lambda>u. map (\<lambda>_. u) (filter (recipient_row u)
         (List.product (outer_join (hu_permissions u)) (outer_join (hu_group_permissions u)))))
       (filter hu_is_active users)))"

definition notice_of :: "alert_state \<Rightarrow> health_user \<Rightarrow> health_notice" where
  "notice_of a u = \<lparr>hn_user = hu_id u, hn_title = al_title a, hn_message = al_message a, hn_level = al_severity a\<rparr>"

text \<open>\<open>save(update_fields=...)\<close> writes two columns of the row.\<close>

definition mark_notified :: "monitor_world \<Rightarrow> alert_state \<Rightarrow> monitor \<Rightarrow> monitor" where
  "mark_notified w a s =
     (case read_clock w s of (t1, s1) \<Rightarrow>
        (case read_clock w s1 of (t2, s2) \<Rightarrow>
           s2\<lparr>hm_alerts := update al_pk (al_pk a)
                 (\<lambda>r. r\<lparr>al_notification_sent_at := Some t1, al_last_seen_at := t2\<rparr>) (hm_alerts s2)\<rparr>))"

definition announce_alert :: "monitor_world \<Rightarrow> health_user list \<Rightarrow> alert_state \<Rightarrow> monitor \<Rightarrow> monitor" where
  "announce_alert w recipients a s =
     mark_notified w a (s\<lparr>hm_outbox := hm_outbox s @ map (notice_of a) recipients\<rparr>)"

definition pending_alerts :: "monitor \<Rightarrow> alert_state list" where
  "pending_alerts s =
     sort_key al_last_seen_at (filter (\<lambda>a. al_notification_sent_at a = None) (rows (hm_alerts s)))"

definition dispatch_notifications :: "monitor_world \<Rightarrow> health_config \<Rightarrow> monitor \<Rightarrow> nat \<times> monitor" where
  "dispatch_notifications w config s =
     (if \<not> hc_notify_directors config then (0, s)
      else (let recipients = notification_recipients (mw_users w)
            in (length (pending_alerts s) * length recipients,
                fold (announce_alert w recipients) (pending_alerts s) s)))"

definition cleanup_history :: "monitor_world \<Rightarrow> health_config \<Rightarrow> monitor \<Rightarrow> nat \<times> monitor" where
  "cleanup_history w config s =
     (case read_clock w s of (t, s1) \<Rightarrow>
        (let old = (\<lambda>r. hs_captured_at r < t - days (hc_history_retention_days config))
         in (length (filter old (rows (hm_snapshots s1))),
             s1\<lparr>hm_snapshots := delete_where old (hm_snapshots s1)\<rparr>)))"

section \<open>One round of monitoring\<close>

datatype round_result = Agent_Failed string | Round_Done nat nat nat | Not_Due

text \<open>The \<open>try\<close> block of \<open>capture_and_evaluate\<close>, for the configuration it read.\<close>

definition attempt_round :: "monitor_world \<Rightarrow> health_config \<Rightarrow> monitor \<Rightarrow> (exn + health_snapshot) \<times> monitor" where
  "attempt_round w config s =
     (case get_metrics w s of
        (Inl e, s1) \<Rightarrow> (Inl e, s1)
      | (Inr metrics, s1) \<Rightarrow>
          (case get_worker_workload w s1 of
             (Inl e, s2) \<Rightarrow> (Inl e, s2)
           | (Inr workload, s2) \<Rightarrow>
               (case capture_snapshot w metrics workload s2 of
                  (Inl e, s3) \<Rightarrow> (Inl e, s3)
                | (Inr snapshot, s3) \<Rightarrow>
                    (case evaluate_alerts w snapshot config (record_agent_recovery w s3) of
                       (Inl e, s4) \<Rightarrow> (Inl e, s4)
                     | (Inr alerts, s4) \<Rightarrow> (Inr snapshot, s4)))))"

definition capture_and_evaluate :: "monitor_world \<Rightarrow> monitor \<Rightarrow> (exn + round_result) \<times> monitor" where
  "capture_and_evaluate w s0 =
     (case get_solo s0 of (config, s) \<Rightarrow>
        (case attempt_round w config s of
           (Inl e, s1) \<Rightarrow>
             if ex_class e = ''AgentUnavailable''
             then (Inr (Agent_Failed (ex_text e)),
                   snd (dispatch_notifications w config (record_agent_failure w (ex_text e) s1)))
             else (Inl e, s1)
         | (Inr snapshot, s1) \<Rightarrow>
             (case dispatch_notifications w config s1 of (notifications, s2) \<Rightarrow>
                (case cleanup_history w config s2 of (deleted, s3) \<Rightarrow>
                   (Inr (Round_Done (hs_pk snapshot) notifications deleted), s3)))))"

text \<open>\<open>capture_health_snapshot\<close> of \<open>tasks.py\<close>.\<close>

definition capture_health_snapshot :: "monitor_world \<Rightarrow> monitor \<Rightarrow> (exn + round_result) \<times> monitor" where
  "capture_health_snapshot w s0 =
     (case get_solo s0 of (config, s) \<Rightarrow>
        (case newest_snapshots s of
           [] \<Rightarrow> capture_and_evaluate w s
         | latest # _ \<Rightarrow>
             (case read_clock w s of (t, s1) \<Rightarrow>
                if t - hs_captured_at latest < int (hc_snapshot_interval_minutes config) * 60 - 5
                then (Inr Not_Due, s1) else capture_and_evaluate w s1)))"

end
