(* ===== verification/Health_Monitor.thy ===== *)
theory Health_Monitor
  imports Health_Alerts "HOL-Library.Multiset"
begin

text \<open>
  What the monitoring of VPS Health promises. The contract of the alert table, that a
  check moves one alert as an abstract switch does and leaves the others alone, is the
  locale \<open>alert_board\<close>; the evaluation of a snapshot rests on it.
\<close>

section \<open>The abstract alert\<close>

text \<open>
  An alert as its readers see it: whether it is active, and whether its last change has
  still to be announced. A first healthy sample is no event.
\<close>

type_synonym alert_view = "(bool \<times> bool) option"

fun transition :: "bool \<Rightarrow> alert_view \<Rightarrow> bool \<times> bool" where
  "transition active None = (active, active)"
| "transition active (Some (was, pending)) = (active, pending \<or> was \<noteq> active)"

fun changes :: "bool \<Rightarrow> alert_view \<Rightarrow> bool" where
  "changes active None = active"
| "changes active (Some (was, pending)) = (was \<noteq> active)"

locale alert_board =
  fixes view :: "'k \<Rightarrow> 's \<Rightarrow> alert_view"
    and put :: "'k \<times> bool \<times> 'i \<Rightarrow> 's \<Rightarrow> 's"
    and ok :: "'s \<Rightarrow> bool"
  assumes ok_put: "ok s \<Longrightarrow> ok (put c s)"
    and view_put: "ok s \<Longrightarrow>
          view k (put (key, active, info) s) =
            (if k = key then Some (transition active (view key s)) else view k s)"
begin

lemma ok_puts: "ok s \<Longrightarrow> ok (fold put cs s)"
  by (induction cs arbitrary: s) (auto intro: ok_put)

lemma view_other: "ok s \<Longrightarrow> k \<notin> fst ` set cs \<Longrightarrow> view k (fold put cs s) = view k s"
proof (induction cs arbitrary: s)
  case (Cons c cs)
  obtain key active info where c: "c = (key, active, info)"
    by (cases c)
  with Cons.prems show ?case
    using Cons.IH [OF ok_put] by (simp add: view_put)
qed simp

lemma view_puts:
  assumes "ok s" and "distinct (map fst cs)" and "(k, active, info) \<in> set cs"
  shows "view k (fold put cs s) = Some (transition active (view k s))"
  using assms
proof (induction cs arbitrary: s)
  case (Cons c cs)
  show ?case
  proof (cases "c = (k, active, info)")
    case True
    then have "k \<notin> fst ` set cs"
      using Cons.prems(2) by auto
    with True Cons.prems(1) show ?thesis
      by (simp add: view_other ok_put view_put)
  next
    case False
    then have "(k, active, info) \<in> set cs" and "fst c \<noteq> k"
      using Cons.prems(2,3) by (auto simp: image_iff)
    moreover obtain key a i where "c = (key, a, i)"
      by (cases c)
    ultimately show ?thesis
      using Cons by (simp add: ok_put view_put)
  qed
qed simp

end

section \<open>The alert table\<close>

definition alerts_ok :: "monitor \<Rightarrow> bool" where
  "alerts_ok s \<longleftrightarrow> well_keyed al_pk (hm_alerts s) \<and> distinct (map al_key (rows (hm_alerts s)))"

definition view_of :: "alert_state \<Rightarrow> bool \<times> bool" where
  "view_of a = (al_active a, al_notification_sent_at a = None)"

definition alert_view_of :: "string \<Rightarrow> monitor \<Rightarrow> alert_view" where
  "alert_view_of key s = map_option view_of (alert_for key s)"

lemma read_clock_simp [simp]: "read_clock w s = (mw_now w (hm_reads s), s\<lparr>hm_reads := Suc (hm_reads s)\<rparr>)"
  by (simp add: read_clock_def)

lemma alert_for_reads [simp]:
  "alert_for k (s\<lparr>hm_reads := n\<rparr>) = alert_for k s" "alerts_ok (s\<lparr>hm_reads := n\<rparr>) = alerts_ok s"
  by (simp_all add: alert_for_def alerts_ok_def)

lemma alert_for_SomeD: "alert_for key s = Some a \<Longrightarrow> a \<in> set (rows (hm_alerts s)) \<and> al_key a = key"
  by (auto simp: alert_for_def dest: find_SomeD)

lemma find_replaced:
  assumes "distinct (map al_pk xs)" and "distinct (map al_key xs)" and "a \<in> set xs" and "al_key b = al_key a"
  shows "List.find (\<lambda>r. al_key r = k) (map (\<lambda>r. if al_pk r = al_pk a then b else r) xs)
    = (if k = al_key a then Some b else List.find (\<lambda>r. al_key r = k) xs)"
  using assms
proof (induction xs)
  case (Cons x xs)
  show ?case
  proof (cases "x = a")
    case True
    then have "map (\<lambda>r. if al_pk r = al_pk a then b else r) xs = xs"
      using Cons.prems by (intro map_idI) (auto simp: image_iff)
    with True Cons.prems(4) show ?thesis by auto
  next
    case False
    then have "a \<in> set xs" and "al_pk x \<noteq> al_pk a" and "al_key x \<noteq> al_key a"
      using Cons.prems by (auto simp: image_iff)
    with Cons show ?thesis by auto
  qed
qed simp

lemma map_rows_update:
  assumes "distinct (map al_pk (rows t))" and "a \<in> set (rows t)" and "f b = f a"
  shows "map f (rows (update al_pk (al_pk a) (\<lambda>_. b) t)) = map f (rows t)"
proof -
  have "r = a" if "r \<in> set (rows t)" "al_pk r = al_pk a" for r
    using assms(1,2) that by (auto simp: distinct_map dest: inj_onD)
  then show ?thesis
    using assms(3) by (auto simp: rows_update)
qed

text \<open>Saving a changed row of the table.\<close>

lemma alert_for_update:
  assumes "alerts_ok s" and "a \<in> set (rows (hm_alerts s))" and "al_pk b = al_pk a" and "al_key b = al_key a"
  shows "alert_for k (s\<lparr>hm_alerts := update al_pk (al_pk a) (\<lambda>_. b) (hm_alerts s)\<rparr>)
      = (if k = al_key a then Some b else alert_for k s)"
    and "alerts_ok (s\<lparr>hm_alerts := update al_pk (al_pk a) (\<lambda>_. b) (hm_alerts s)\<rparr>)"
proof -
  have keys: "distinct (map al_pk (rows (hm_alerts s)))" "distinct (map al_key (rows (hm_alerts s)))"
    using assms(1) by (auto simp: alerts_ok_def well_keyed_def)
  show "alert_for k (s\<lparr>hm_alerts := update al_pk (al_pk a) (\<lambda>_. b) (hm_alerts s)\<rparr>)
      = (if k = al_key a then Some b else alert_for k s)"
    using find_replaced [OF keys assms(2,4)] by (simp add: alert_for_def rows_update)
  let ?t = "update al_pk (al_pk a) (\<lambda>_. b) (hm_alerts s)"
  have pks: "map al_pk (rows ?t) = map al_pk (rows (hm_alerts s))"
    by (rule map_rows_update [OF keys(1) assms(2,3)])
  have names: "map al_key (rows ?t) = map al_key (rows (hm_alerts s))"
    by (rule map_rows_update [OF keys(1) assms(2,4)])
  have "al_pk ` set (rows ?t) = al_pk ` set (rows (hm_alerts s))"
    by (metis pks list.set_map)
  moreover have "next_pk ?t = next_pk (hm_alerts s)"
    by (simp add: update_def)
  moreover have "\<forall>n \<in> al_pk ` set (rows (hm_alerts s)). n < next_pk (hm_alerts s)"
    using assms(1) by (simp add: alerts_ok_def well_keyed_def)
  ultimately have "\<forall>n \<in> al_pk ` set (rows ?t). n < next_pk ?t"
    by metis
  then show "alerts_ok (s\<lparr>hm_alerts := ?t\<rparr>)"
    using keys by (simp add: alerts_ok_def well_keyed_def pks names)
qed

lemma alert_for_create:
  assumes "alerts_ok s" and "alert_for key s = None" and "\<And>pk. al_pk (mk pk) = pk" and "\<And>pk. al_key (mk pk) = key"
  shows "alert_for k (s\<lparr>hm_alerts := create mk (hm_alerts s)\<rparr>)
      = (if k = key then Some (mk (next_pk (hm_alerts s))) else alert_for k s)"
    and "alerts_ok (s\<lparr>hm_alerts := create mk (hm_alerts s)\<rparr>)"
proof -
  show "alert_for k (s\<lparr>hm_alerts := create mk (hm_alerts s)\<rparr>)
      = (if k = key then Some (mk (next_pk (hm_alerts s))) else alert_for k s)"
    using assms(2,4) by (auto simp: alert_for_def rows_create find_append split: option.split)
  have "key \<notin> al_key ` set (rows (hm_alerts s))"
    using assms(2) by (auto simp: alert_for_def find_None_iff)
  then show "alerts_ok (s\<lparr>hm_alerts := create mk (hm_alerts s)\<rparr>)"
    using assms(1,3,4) by (auto simp: alerts_ok_def well_keyed_create rows_create)
qed

lemma get_or_create_outcome:
  assumes "alerts_ok s" and "get_or_create_alert w key active title message severity resolved s = ((a, created), s')"
  shows "alerts_ok s' \<and> alert_for key s' = Some a \<and> (\<forall>k. k \<noteq> key \<longrightarrow> alert_for k s' = alert_for k s)
    \<and> (if created then alert_for key s = None \<and> al_active a = active \<and> al_notification_sent_at a = None
       else alert_for key s = Some a)"
proof (cases "alert_for key s")
  case (Some b)
  with assms show ?thesis by (auto simp: get_or_create_alert_def)
next
  case None
  let ?row = "\<lambda>pk. \<lparr>al_pk = pk, al_key = key, al_title = title, al_message = message,
      al_severity = severity, al_active = active, al_first_seen_at = mw_now w (hm_reads s),
      al_last_seen_at = mw_now w (Suc (hm_reads s)), al_resolved_at = resolved, al_notification_sent_at = None\<rparr>"
  let ?s = "s\<lparr>hm_reads := Suc (Suc (hm_reads s))\<rparr>"
  have res: "a = ?row (next_pk (hm_alerts s))" "created" "s' = ?s\<lparr>hm_alerts := create ?row (hm_alerts ?s)\<rparr>"
    using assms(2) None by (auto simp: get_or_create_alert_def Let_def)
  have "alerts_ok ?s" and "alert_for key ?s = None"
    using assms(1) None by simp_all
  note new = alert_for_create [OF this, of ?row]
  show ?thesis
    using new None by (simp add: res)
qed

lemma save_alert_outcome:
  assumes "alerts_ok s" and "alert_for key s = Some a" and "al_pk b = al_pk a" and "al_key b = key"
    and "save_alert w b s = (b', s')"
  shows "alerts_ok s' \<and> alert_for key s' = Some b' \<and> (\<forall>k. k \<noteq> key \<longrightarrow> alert_for k s' = alert_for k s)
    \<and> b' = b\<lparr>al_last_seen_at := mw_now w (hm_reads s)\<rparr>"
proof -
  let ?s = "s\<lparr>hm_reads := Suc (hm_reads s)\<rparr>"
  have ok: "alerts_ok ?s" and a: "a \<in> set (rows (hm_alerts ?s))" "al_key a = key"
    using assms(1,2) by (auto dest: alert_for_SomeD)
  have b': "b' = b\<lparr>al_last_seen_at := mw_now w (hm_reads s)\<rparr>"
    and s': "s' = ?s\<lparr>hm_alerts := update al_pk (al_pk a) (\<lambda>_. b') (hm_alerts ?s)\<rparr>"
    using assms(3,5) by (auto simp: save_alert_def Let_def)
  have "al_pk b' = al_pk a" "al_key b' = al_key a"
    using b' assms(3,4) a(2) by simp_all
  note new = alert_for_update [OF ok a(1) this]
  show ?thesis
    unfolding s' using new a(2) b' by simp
qed

lemma set_alert_step:
  assumes "alerts_ok s" and "set_alert w key active title message severity s = ((a, changed), s')"
  shows "alert_view_of key s' = Some (transition active (alert_view_of key s))
    \<and> (changed \<longleftrightarrow> changes active (alert_view_of key s))
    \<and> (\<forall>k. k \<noteq> key \<longrightarrow> alert_for k s' = alert_for k s) \<and> alerts_ok s'
    \<and> alert_for key s' = Some a \<and> al_active a = active \<and> al_message a = message"
proof -
  let ?s1 = "s\<lparr>hm_reads := Suc (hm_reads s)\<rparr>"
  obtain a1 created s2 where got: "get_or_create_alert w key active title message severity
      (if active then None else Some (mw_now w (hm_reads s))) ?s1 = ((a1, created), s2)"
    by (metis prod.collapse)
  have "alerts_ok ?s1"
    using assms(1) by simp
  note first = get_or_create_outcome [OF this got]
  let ?changed = "created \<and> active \<or> al_active a1 \<noteq> active"
  let ?a2 = "a1\<lparr>al_title := title, al_message := message,
      al_severity := (if active then severity else Success_Level), al_active := active\<rparr>"
  let ?a3 = "if created \<and> \<not> active then ?a2\<lparr>al_notification_sent_at := Some (mw_now w (hm_reads s))\<rparr>
      else if ?changed then ?a2\<lparr>al_notification_sent_at := None,
        al_resolved_at := (if active then None else Some (mw_now w (hm_reads s)))\<rparr>
      else ?a2"
  have "save_alert w ?a3 s2 = (a, s')" and ch: "changed = ?changed"
    using assms(2) got by (auto simp: set_alert_def Let_def split: prod.splits)
  moreover have "al_pk ?a3 = al_pk a1" "al_key ?a3 = key"
    using first by (auto dest: alert_for_SomeD)
  ultimately have second: "alerts_ok s' \<and> alert_for key s' = Some a \<and> (\<forall>k. k \<noteq> key \<longrightarrow> alert_for k s' = alert_for k s2)
      \<and> a = ?a3\<lparr>al_last_seen_at := mw_now w (hm_reads s2)\<rparr>"
    using save_alert_outcome [of s2 key a1 ?a3 w a s'] first by blast
  have view: "view_of a = (active, \<not> (created \<and> \<not> active) \<and> (?changed \<or> al_notification_sent_at a1 = None))"
    using second by (auto simp: view_of_def)
  have "view_of a = transition active (alert_view_of key s) \<and> (?changed \<longleftrightarrow> changes active (alert_view_of key s))"
    using first view by (cases created) (auto simp: alert_view_of_def view_of_def)
  moreover have "al_active a = active \<and> al_message a = message"
    using second by simp
  ultimately show ?thesis
    using first second ch by (simp add: alert_view_of_def)
qed

text \<open>
  C35. Setting an alert moves it as the abstract switch does: the change is reported
  exactly when there is one, it is then to be announced, a change not announced yet
  stays so, and no other alert is touched.
\<close>

theorem set_alert_refines:
  assumes "alerts_ok s" and "set_alert w key active title message severity s = ((a, changed), s')"
  shows "alert_view_of key s' = Some (transition active (alert_view_of key s))
    \<and> (changed \<longleftrightarrow> changes active (alert_view_of key s))
    \<and> (\<forall>k. k \<noteq> key \<longrightarrow> alert_for k s' = alert_for k s) \<and> alerts_ok s'"
  using set_alert_step [OF assms] by blast

definition put_alert :: "monitor_world \<Rightarrow> string \<times> bool \<times> string \<times> string \<Rightarrow> monitor \<Rightarrow> monitor" where
  "put_alert w = (\<lambda>(key, active, title, message) s. snd (set_alert w key active title message Danger_Level s))"

lemma put_alert_outcome:
  assumes "alerts_ok s"
  shows "alerts_ok (put_alert w (key, active, info) s)"
    and "alert_view_of key (put_alert w (key, active, info) s) = Some (transition active (alert_view_of key s))"
    and "k \<noteq> key \<Longrightarrow> alert_for k (put_alert w (key, active, info) s) = alert_for k s"
proof -
  obtain title message where info: "info = (title, message)"
    by (cases info)
  obtain a ch s' where run: "set_alert w key active title message Danger_Level s = ((a, ch), s')"
    by (metis prod.collapse)
  from set_alert_step [OF assms run] run
  show "alerts_ok (put_alert w (key, active, info) s)"
    and "alert_view_of key (put_alert w (key, active, info) s) = Some (transition active (alert_view_of key s))"
    and "k \<noteq> key \<Longrightarrow> alert_for k (put_alert w (key, active, info) s) = alert_for k s"
    by (simp_all add: put_alert_def info)
qed

interpretation board: alert_board alert_view_of "put_alert w" alerts_ok for w
proof
  show "alerts_ok (put_alert w c s)" if "alerts_ok s" for c s
    using put_alert_outcome(1) [OF that] by (cases c) simp
  show "alert_view_of k (put_alert w (key, active, info) s)
      = (if k = key then Some (transition active (alert_view_of key s)) else alert_view_of k s)"
    if "alerts_ok s" for k key active info s
  proof (cases "k = key")
    case True
    then show ?thesis using put_alert_outcome(2) [OF that, of key w active info] by (cases info) simp
  next
    case False
    then show ?thesis using put_alert_outcome(3) [OF that False, of w active info] by (cases info) (simp add: alert_view_of_def)
  qed
qed

section \<open>Evaluating a snapshot\<close>

lemma set_alerts_state: "snd (set_alerts w cs s) = fold (put_alert w) cs s"
  by (induction w cs s rule: set_alerts.induct) (auto simp: put_alert_def split: prod.splits)

lemma fold_put_rows:
  "alerts_ok s \<Longrightarrow> k \<notin> fst ` set cs \<Longrightarrow> alert_for k (fold (put_alert w) cs s) = alert_for k s"
proof (induction cs arbitrary: s)
  case (Cons c cs)
  obtain key active info where c: "c = (key, active, info)"
    by (cases c)
  with Cons.prems show ?case
    using Cons.IH [OF put_alert_outcome(1)] put_alert_outcome(3) by simp
qed simp

lemma keys_of_checks:
  "map fst (alert_checks config snapshot s) = [''cpu'', ''memory'', ''disk'', ''load'', ''queue'', ''containers'']"
  by (simp add: alert_checks_def measured_alerts_def)

lemma keys_of_data_checks:
  "map fst (data_checks config snapshot s)
     = (case data_filesystem snapshot of None \<Rightarrow> []
        | Some _ \<Rightarrow> ''disk:data:unavailable'' # (case data_pressure snapshot (hc_warning_disk_percent config) (sample_count config) s of
            None \<Rightarrow> [] | Some _ \<Rightarrow> [''disk:data'']))"
  by (simp add: data_checks_def availability_check_def pressure_check_def split: option.split)

lemma distinct_checks: "distinct (map fst (alert_checks config snapshot s @ data_checks config snapshot s))"
  by (simp add: keys_of_checks keys_of_data_checks split: option.split)

lemma evaluated:
  assumes "evaluate_alerts w snapshot config s = (Inr alerts, s')"
  shows "s' = fold (put_alert w) (alert_checks config snapshot s @ data_checks config snapshot s) s"
  using assms set_alerts_state [of w "alert_checks config snapshot s @ data_checks config snapshot s" s]
  by (auto simp: evaluate_alerts_def split: if_splits prod.splits)

lemma evaluated_view:
  assumes "alerts_ok s" and "evaluate_alerts w snapshot config s = (Inr alerts, s')"
    and "(k, active, info) \<in> set (alert_checks config snapshot s @ data_checks config snapshot s)"
  shows "alert_view_of k s' = Some (transition active (alert_view_of k s))"
  unfolding evaluated [OF assms(2)] by (rule board.view_puts [OF assms(1) distinct_checks assms(3)])

lemma fst_transition [simp]: "fst (transition active v) = active"
  by (cases "(active, v)" rule: transition.cases) auto

lemma active_by_view:
  "alert_view_of k s = Some (transition active v) \<Longrightarrow> \<exists>a. alert_for k s = Some a \<and> al_active a = active"
  by (auto simp: alert_view_of_def view_of_def dest: arg_cong [where f = fst])

text \<open>
  Any way to pick the newest rows agrees with the query up to rows taken at one instant: the
  snapshots fall into the recent ones, as many as asked for or all there are, and earlier ones,
  none of which was taken after a recent one.
\<close>

lemma newest_split:
  "mset (take n (newest_snapshots s) @ drop n (newest_snapshots s)) = mset (rows (hm_snapshots s))"
  "length (take n (newest_snapshots s)) = min n (length (rows (hm_snapshots s)))"
  "r \<in> set (take n (newest_snapshots s)) \<Longrightarrow> q \<in> set (drop n (newest_snapshots s)) \<Longrightarrow> hs_captured_at q \<le> hs_captured_at r"
proof -
  show "mset (take n (newest_snapshots s) @ drop n (newest_snapshots s)) = mset (rows (hm_snapshots s))"
    by (simp add: newest_snapshots_def)
  show "length (take n (newest_snapshots s)) = min n (length (rows (hm_snapshots s)))"
    by (simp add: newest_snapshots_def)
  have "sorted_wrt (\<lambda>r q. hs_captured_at q \<le> hs_captured_at r) (newest_snapshots s)"
    using sorted_sort_key [of hs_captured_at "rows (hm_snapshots s)"]
    by (simp add: newest_snapshots_def sorted_wrt_rev sorted_map)
  then have "sorted_wrt (\<lambda>r q. hs_captured_at q \<le> hs_captured_at r)
      (take n (newest_snapshots s) @ drop n (newest_snapshots s))"
    by simp
  then show "hs_captured_at q \<le> hs_captured_at r"
    if "r \<in> set (take n (newest_snapshots s))" "q \<in> set (drop n (newest_snapshots s))"
    using that unfolding sorted_wrt_append by blast
qed

text \<open>The number of snapshots that cover the time an alert must last, at least one.\<close>

lemma sample_count_covers:
  assumes "0 < hc_snapshot_interval_minutes config"
  shows "1 \<le> sample_count config"
    and "hc_alert_sustain_minutes config \<le> sample_count config * hc_snapshot_interval_minutes config"
    and "1 < sample_count config \<Longrightarrow>
      (sample_count config - 1) * hc_snapshot_interval_minutes config < hc_alert_sustain_minutes config"
proof -
  let ?a = "hc_alert_sustain_minutes config" and ?b = "hc_snapshot_interval_minutes config"
  let ?q = "(of_nat ?a :: rat) / of_nat ?b"
  have b: "(0 :: rat) < of_nat ?b"
    using assms by simp
  have q: "0 \<le> \<lceil>?q\<rceil>"
    by (simp add: le_ceiling_iff) (rule less_le_trans [of _ 0]; simp)
  show "1 \<le> sample_count config"
    by (simp add: sample_count_def)
  have "(of_nat ?a :: rat) \<le> of_int \<lceil>?q\<rceil> * of_nat ?b"
    by (rule pos_divide_le_eq [OF b, THEN iffD1]) (rule le_of_int_ceiling)
  also have "\<dots> = of_nat (nat \<lceil>?q\<rceil> * ?b)"
    using q by simp
  finally have "?a \<le> nat \<lceil>?q\<rceil> * ?b"
    by (simp only: of_nat_le_iff)
  also have "\<dots> \<le> sample_count config * ?b"
    by (simp add: sample_count_def)
  finally show "?a \<le> sample_count config * ?b" .
  show "(sample_count config - 1) * ?b < ?a" if "1 < sample_count config"
  proof -
    have "sample_count config = max 1 (nat \<lceil>?q\<rceil>)"
      by (simp only: sample_count_def)
    then have n: "sample_count config = nat \<lceil>?q\<rceil>" "0 < \<lceil>?q\<rceil>"
      using that by linarith+
    have "of_int (\<lceil>?q\<rceil> - 1) < ?q"
      using ceiling_correct [of ?q] by simp
    then have "of_int (\<lceil>?q\<rceil> - 1) * (of_nat ?b :: rat) < of_nat ?a"
      by (rule pos_less_divide_eq [OF b, THEN iffD1])
    moreover have "\<lceil>?q\<rceil> - 1 = int (sample_count config - 1)"
      using n that by linarith
    ultimately have "(of_nat ((sample_count config - 1) * ?b) :: rat) < of_nat ?a"
      by simp
    then show ?thesis
      by (simp only: of_nat_less_iff)
  qed
qed

text \<open>
  C36. After a snapshot is evaluated there are recent snapshots, as many as cover the time the
  configuration asks for and none of them older than another snapshot, by which every measured
  alert can be told: the CPU, memory, disk and queue alerts, and the load alert with its limit per
  CPU of the snapshot, are each active exactly when there are that many snapshots and in every one of
  them the measure of that alert is at or above its threshold; the container alert is active
  exactly when the snapshot counts an unhealthy container.
\<close>

theorem evaluate_alerts_reflects:
  assumes "alerts_ok s" and "evaluate_alerts w snapshot config s = (Inr alerts, s')"
  shows "\<exists>n recent earlier. 1 \<le> n
    \<and> hc_alert_sustain_minutes config \<le> n * hc_snapshot_interval_minutes config
    \<and> (1 < n \<longrightarrow> (n - 1) * hc_snapshot_interval_minutes config < hc_alert_sustain_minutes config)
    \<and> mset (recent @ earlier) = mset (rows (hm_snapshots s)) \<and> length recent = min n (length (rows (hm_snapshots s)))
    \<and> (\<forall>r \<in> set recent. \<forall>q \<in> set earlier. hs_captured_at q \<le> hs_captured_at r)
    \<and> (\<forall>(key, measure, threshold) \<in>
         {(''cpu'', hs_cpu_percent, of_nat (hc_warning_cpu_percent config)),
          (''memory'', hs_memory_percent, of_nat (hc_warning_memory_percent config)),
          (''disk'', hs_disk_percent, of_nat (hc_warning_disk_percent config)),
          (''load'', hs_load_5, hc_warning_load_per_cpu config * of_int (max 1 (hs_cpu_count snapshot))),
          (''queue'', \<lambda>r. of_int (hs_queued_tasks r), of_nat (hc_warning_queue_depth config))}.
         \<exists>a. alert_for key s' = Some a
           \<and> (al_active a \<longleftrightarrow> n \<le> length (rows (hm_snapshots s)) \<and> (\<forall>r \<in> set recent. threshold \<le> measure r)))
    \<and> (\<exists>a. alert_for ''containers'' s' = Some a \<and> (al_active a \<longleftrightarrow> 0 < hs_container_unhealthy snapshot))"
proof -
  let ?n = "sample_count config" and ?news = "newest_snapshots s"
  have pos: "0 < hc_snapshot_interval_minutes config"
    using assms(2) by (auto simp: evaluate_alerts_def split: if_splits)
  have measured: "\<exists>a. alert_for key s' = Some a
      \<and> (al_active a \<longleftrightarrow> ?n \<le> length (rows (hm_snapshots s)) \<and> (\<forall>r \<in> set (take ?n ?news). threshold \<le> measure r))"
    if "(key, measure, threshold, info) \<in> set (measured_alerts config snapshot)" for key measure threshold info
  proof -
    have "(key, sustained measure threshold ?n s, info)
        \<in> set (alert_checks config snapshot s @ data_checks config snapshot s)"
      using that by (cases info) (force simp: alert_checks_def)
    from active_by_view [OF evaluated_view [OF assms this]] show ?thesis
      using newest_split(2) [of ?n s] by (auto simp: sustained_def list_all_iff)
  qed
  have "(''containers'', 0 < hs_container_unhealthy snapshot, ''Unhealthy or restarting Docker container'',
         show_int (hs_container_unhealthy snapshot) @ '' container(s) are unhealthy or restarting.'')
      \<in> set (alert_checks config snapshot s @ data_checks config snapshot s)"
    by (simp add: alert_checks_def)
  note containers = active_by_view [OF evaluated_view [OF assms this]]
  show ?thesis
  proof (rule exI [of _ ?n], rule exI [of _ "take ?n ?news"], rule exI [of _ "drop ?n ?news"], intro conjI)
    show "\<exists>a. alert_for ''containers'' s' = Some a \<and> (al_active a \<longleftrightarrow> 0 < hs_container_unhealthy snapshot)"
      by (rule containers)
    show "\<forall>(key, measure, threshold) \<in>
         {(''cpu'', hs_cpu_percent, of_nat (hc_warning_cpu_percent config)),
          (''memory'', hs_memory_percent, of_nat (hc_warning_memory_percent config)),
          (''disk'', hs_disk_percent, of_nat (hc_warning_disk_percent config)),
          (''load'', hs_load_5, hc_warning_load_per_cpu config * of_int (max 1 (hs_cpu_count snapshot))),
          (''queue'', \<lambda>r. of_int (hs_queued_tasks r), of_nat (hc_warning_queue_depth config))}.
         \<exists>a. alert_for key s' = Some a
           \<and> (al_active a \<longleftrightarrow> ?n \<le> length (rows (hm_snapshots s)) \<and> (\<forall>r \<in> set (take ?n ?news). threshold \<le> measure r))"
      using measured [unfolded measured_alerts_def] by simp
    show "mset (take ?n ?news @ drop ?n ?news) = mset (rows (hm_snapshots s))"
      by (rule newest_split)
    show "length (take ?n ?news) = min ?n (length (rows (hm_snapshots s)))"
      by (rule newest_split)
    show "\<forall>r \<in> set (take ?n ?news). \<forall>q \<in> set (drop ?n ?news). hs_captured_at q \<le> hs_captured_at r"
      using newest_split(3) by blast
  qed (use sample_count_covers [OF pos] in simp_all)
qed

text \<open>What the newest snapshots report of the data file system.\<close>

definition reports_high :: "health_config \<Rightarrow> health_snapshot \<Rightarrow> bool" where
  "reports_high config snapshot \<longleftrightarrow> row_available (data_filesystem snapshot)
     \<and> high_usage (hc_warning_disk_percent config) (the (data_filesystem snapshot))"

definition reports_low :: "health_config \<Rightarrow> health_snapshot \<Rightarrow> bool" where
  "reports_low config snapshot \<longleftrightarrow> row_available (data_filesystem snapshot)
     \<and> \<not> high_usage (hc_warning_disk_percent config) (the (data_filesystem snapshot))"

lemma pressure_cases:
  assumes "data_pressure snapshot (hc_warning_disk_percent config) (sample_count config) s = Some active"
  shows "if active then reports_high config snapshot \<and> sample_count config \<le> length (newest_snapshots s)
           \<and> (\<forall>r \<in> set (take (sample_count config) (newest_snapshots s)). reports_high config r)
         else reports_low config snapshot
           \<or> (\<exists>r \<in> set (take (sample_count config) (newest_snapshots s)). reports_low config r)"
  using assms
  by (auto simp: data_pressure_def reports_high_def reports_low_def Let_def list_all_iff list_ex_iff
      split: if_splits)

text \<open>
  Missing telemetry of the data file system neither raises nor resolves its disk
  alert: the alert becomes active only when this snapshot and each of the newest ones
  report high usage, it stops being active only when one of them reports usage below the
  limit, and otherwise its row is not written.
\<close>

theorem data_alert_needs_telemetry:
  assumes "alerts_ok s" and "evaluate_alerts w snapshot config s = (Inr alerts, s')"
  shows "alert_for ''disk:data'' s' = alert_for ''disk:data'' s
    \<or> (\<exists>a. alert_for ''disk:data'' s' = Some a \<and> al_active a \<and> reports_high config snapshot
         \<and> sample_count config \<le> length (newest_snapshots s)
         \<and> (\<forall>r \<in> set (take (sample_count config) (newest_snapshots s)). reports_high config r))
    \<or> (\<exists>a. alert_for ''disk:data'' s' = Some a \<and> \<not> al_active a
         \<and> (reports_low config snapshot
            \<or> (\<exists>r \<in> set (take (sample_count config) (newest_snapshots s)). reports_low config r)))"
proof (cases "\<exists>active. (''disk:data'', active, snd (snd (pressure_check config active))) \<in> set (data_checks config snapshot s)
    \<and> data_pressure snapshot (hc_warning_disk_percent config) (sample_count config) s = Some active")
  case True
  then obtain active where c: "(''disk:data'', active, snd (snd (pressure_check config active))) \<in> set (alert_checks config snapshot s @ data_checks config snapshot s)"
    and p: "data_pressure snapshot (hc_warning_disk_percent config) (sample_count config) s = Some active"
    by auto
  from active_by_view [OF evaluated_view [OF assms c]] pressure_cases [OF p] show ?thesis
    by (auto split: if_splits)
next
  case False
  then have "''disk:data'' \<notin> fst ` set (alert_checks config snapshot s @ data_checks config snapshot s)"
    by (auto simp: alert_checks_def measured_alerts_def data_checks_def availability_check_def pressure_check_def
        split: option.splits)
  then have "alert_for ''disk:data'' s' = alert_for ''disk:data'' s"
    unfolding evaluated [OF assms(2)] by (rule fold_put_rows [OF assms(1)])
  then show ?thesis ..
qed

end
