(* ===== verification/Health_Rounds.thy ===== *)
theory Health_Rounds
  imports Health_Monitor
begin

text \<open>The telemetry of file systems, the announcement of alerts and the rounds of monitoring.\<close>

section \<open>Normalised file systems\<close>

definition mounted_row :: "string \<Rightarrow> string \<Rightarrow> string \<Rightarrow> int \<Rightarrow> int \<Rightarrow> int \<Rightarrow> int \<Rightarrow> (string \<times> pyval) list" where
  "mounted_row i l m whole used free available =
     [(''id'', PStr i), (''label'', PStr l), (''mountpoint'', PStr m), (''available'', PBool True),
      (''status'', PStr ''mounted''), (''total_bytes'', PInt whole), (''used_bytes'', PInt used),
      (''free_bytes'', PInt free), (''available_bytes'', PInt available),
      (''percent'', PFloat (percent_used used whole))]"

definition down_row :: "string \<Rightarrow> string \<Rightarrow> string \<Rightarrow> pyval \<Rightarrow> (string \<times> pyval) list" where
  "down_row i l m status =
     [(''id'', PStr i), (''label'', PStr l), (''mountpoint'', PStr m), (''available'', PBool False),
      (''status'', status), (''total_bytes'', PNone), (''used_bytes'', PNone),
      (''free_bytes'', PNone), (''available_bytes'', PNone), (''percent'', PNone)]"

definition sizes_ok :: "int \<Rightarrow> int \<Rightarrow> int \<Rightarrow> int \<Rightarrow> bool" where
  "sizes_ok whole used free available \<longleftrightarrow>
     0 \<le> used \<and> 0 \<le> free \<and> 0 \<le> available \<and> sizes_agree whole used free available"

lemma byte_countD: "byte_count v \<Longrightarrow> \<exists>n. v = PInt n \<and> 0 \<le> n"
  by (cases v) (auto simp: byte_count_def)

lemma blank_row_is_down: "blank_row i l m = down_row i l m (PStr ''unavailable'')"
  by (simp add: blank_row_def down_row_def byte_fields_def)

lemma set_status_down: "set_key ''status'' v (down_row i l m st) = down_row i l m v"
  by (simp add: down_row_def)

lemma filesystem_row_cases:
  obtains (mounted) whole used free available where
      "filesystem_row (i, l, m) raw = mounted_row i l m whole used free available" "sizes_ok whole used free available"
  | (down) status where "filesystem_row (i, l, m) raw = down_row i l m status" "down_status status"
proof -
  let ?src = "filesystem_source i raw"
  let ?num = "\<lambda>k. the_int (get_key ?src k)"
  let ?agree = "sizes_agree (?num ''total_bytes'') (?num ''used_bytes'') (?num ''free_bytes'') (?num ''available_bytes'')"
  have plain: "filesystem_row (i, l, m) raw = down_row i l m
      (if down_status (get_key ?src ''status'') then get_key ?src ''status'' else PStr ''unavailable'')"
    if "\<not> (source_mounted m ?src \<and> ?agree)"
    using that by (auto simp: filesystem_row_def Let_def blank_row_is_down set_status_down)
  show thesis
  proof (cases "source_mounted m ?src \<and> ?agree")
    case False
    have "down_status (if down_status (get_key ?src ''status'') then get_key ?src ''status'' else PStr ''unavailable'')"
      by (simp add: down_status_def)
    with down plain [OF False] show thesis by blast
  next
    case True
    then have counts: "byte_count (get_key ?src k)" if "k \<in> set byte_fields" for k
      using that by (simp add: source_mounted_def list_all_iff)
    obtain t u f a where n: "get_key ?src ''total_bytes'' = PInt t" "get_key ?src ''used_bytes'' = PInt u"
        "get_key ?src ''free_bytes'' = PInt f" "get_key ?src ''available_bytes'' = PInt a"
      and pos: "0 \<le> u" "0 \<le> f" "0 \<le> a"
      using counts [of "''total_bytes''"] counts [of "''used_bytes''"] counts [of "''free_bytes''"]
        counts [of "''available_bytes''"] by (auto simp: byte_fields_def dest!: byte_countD)
    have "\<not> down_status (get_key ?src ''status'')"
      using True by (simp add: source_mounted_def down_status_def)
    then have "filesystem_row (i, l, m) raw = mounted_row i l m t u f a"
      using True by (simp add: filesystem_row_def Let_def n blank_row_is_down byte_fields_def)
        (simp add: down_row_def mounted_row_def)
    with mounted pos True show thesis
      by (simp add: sizes_ok_def n)
  qed
qed

lemma mounted_row_again:
  assumes "filesystem_source i raw = mounted_row i l m whole used free available" and "sizes_ok whole used free available"
  shows "filesystem_row (i, l, m) raw = mounted_row i l m whole used free available"
proof -
  have keys: "get_key (mounted_row i l m whole used free available) ''available'' = PBool True"
    "get_key (mounted_row i l m whole used free available) ''status'' = PStr ''mounted''"
    "get_key (mounted_row i l m whole used free available) ''mountpoint'' = PStr m"
    "get_key (mounted_row i l m whole used free available) ''total_bytes'' = PInt whole"
    "get_key (mounted_row i l m whole used free available) ''used_bytes'' = PInt used"
    "get_key (mounted_row i l m whole used free available) ''free_bytes'' = PInt free"
    "get_key (mounted_row i l m whole used free available) ''available_bytes'' = PInt available"
    by (simp_all add: mounted_row_def get_key_def)
  have "source_mounted m (mounted_row i l m whole used free available)"
    using assms(2) by (simp add: source_mounted_def keys byte_fields_def byte_count_def sizes_ok_def sizes_agree_def)
  with assms show ?thesis
    by (simp add: filesystem_row_def Let_def keys blank_row_is_down byte_fields_def down_status_def sizes_ok_def)
      (simp add: down_row_def mounted_row_def)
qed

lemma down_row_again:
  assumes "filesystem_source i raw = down_row i l m status" and "down_status status"
  shows "filesystem_row (i, l, m) raw = down_row i l m status"
proof -
  have "get_key (down_row i l m status) ''status'' = status" "get_key (down_row i l m status) ''available'' = PBool False"
    by (simp_all add: down_row_def get_key_def)
  with assms show ?thesis
    by (simp add: filesystem_row_def Let_def source_mounted_def blank_row_is_down set_status_down)
qed

lemma filesystem_row_again:
  assumes "filesystem_source i raw' = filesystem_row (i, l, m) raw"
  shows "filesystem_row (i, l, m) raw' = filesystem_row (i, l, m) raw"
  by (rule filesystem_row_cases [of i l m raw]) (use assms in \<open>auto intro: mounted_row_again down_row_again\<close>)

lemma row_id: "get_key (filesystem_row (i, l, m) raw) ''id'' = PStr i"
  by (rule filesystem_row_cases [of i l m raw]) (auto simp: mounted_row_def down_row_def get_key_def)

lemma percent_bounds:
  assumes "0 \<le> used" and "used \<le> whole" and "0 < whole"
  shows "0 \<le> percent_used used whole \<and> percent_used used whole \<le> 100"
proof -
  let ?x = "of_int (100 * used) / of_int whole :: rat"
  have x: "0 \<le> ?x" "?x \<le> 100"
    using assms by (auto simp: divide_le_eq)
  have "round_half_even (?x * 100) \<ge> 0"
    using x by (simp add: round_half_even_def Let_def)
  moreover have "round_half_even (?x * 100) \<le> 10000"
  proof (cases "?x = 100")
    case True
    then show ?thesis by (simp add: round_half_even_def)
  next
    case False
    then have "?x * 100 < 10000"
      using x by simp
    then have "\<lfloor>?x * 100\<rfloor> < 10000"
      by (simp add: floor_less_iff)
    then show ?thesis
      by (simp add: round_half_even_def Let_def)
  qed
  ultimately show ?thesis
    using x by (simp add: percent_used_def quantize_even_def)
qed

text \<open>
  The file systems of a snapshot are well formed and normalising them again changes
  nothing, which is what makes the stored telemetry safe to read back: there are exactly
  two rows, and an available one has sizes that add up and a percentage from 0 to 100.
\<close>

theorem filesystems_normalised:
  assumes "get_key host ''filesystems'' = PList raw"
  shows "snapshot_filesystems [(''filesystems'', snapshot_filesystems host)] = snapshot_filesystems host
    \<and> map (\<lambda>item. get_key (the_dict item) ''id'') (the_list (snapshot_filesystems host)) = [PStr ''system'', PStr ''data'']
    \<and> (\<forall>item \<in> set (the_list (snapshot_filesystems host)). get_key (the_dict item) ''available'' = PBool True \<longrightarrow>
         (\<exists>whole used free available p.
            get_key (the_dict item) ''total_bytes'' = PInt whole \<and> get_key (the_dict item) ''used_bytes'' = PInt used
            \<and> get_key (the_dict item) ''free_bytes'' = PInt free
            \<and> get_key (the_dict item) ''available_bytes'' = PInt available
            \<and> get_key (the_dict item) ''percent'' = PFloat p
            \<and> used + free = whole \<and> 0 < whole \<and> 0 \<le> used \<and> 0 \<le> available \<and> available \<le> free
            \<and> 0 \<le> p \<and> p \<le> 100))"
proof -
  let ?sys = "filesystem_row (''system'', ''System disk'', ''/'') raw"
  let ?data = "filesystem_row (''data'', ''Auth data'', ''/srv/buh-data'') raw"
  have shape: "snapshot_filesystems host = PList [PDict ?sys, PDict ?data]"
    using assms by (simp add: snapshot_filesystems_def filesystem_rows_def)
  have src: "filesystem_source ''system'' [PDict ?sys, PDict ?data] = ?sys"
    "filesystem_source ''data'' [PDict ?sys, PDict ?data] = ?data"
    by (simp_all add: filesystem_source_def row_id)
  have "snapshot_filesystems [(''filesystems'', snapshot_filesystems host)] = snapshot_filesystems host"
    unfolding shape
    by (simp add: snapshot_filesystems_def filesystem_rows_def get_key_def filesystem_row_again [OF src(1)]
        filesystem_row_again [OF src(2)])
  moreover have "\<exists>whole used free available p.
            get_key row ''total_bytes'' = PInt whole \<and> get_key row ''used_bytes'' = PInt used
            \<and> get_key row ''free_bytes'' = PInt free \<and> get_key row ''available_bytes'' = PInt available
            \<and> get_key row ''percent'' = PFloat p
            \<and> used + free = whole \<and> 0 < whole \<and> 0 \<le> used \<and> 0 \<le> available \<and> available \<le> free
            \<and> 0 \<le> p \<and> p \<le> 100"
    if row: "row = filesystem_row (i, l, m) raw" and "get_key row ''available'' = PBool True" for row i l m
  proof (rule filesystem_row_cases [of i l m raw])
    fix whole used free available
    assume mounted: "filesystem_row (i, l, m) raw = mounted_row i l m whole used free available"
      and ok: "sizes_ok whole used free available"
    have "0 \<le> percent_used used whole \<and> percent_used used whole \<le> 100"
      using ok by (intro percent_bounds) (auto simp: sizes_ok_def sizes_agree_def)
    then show ?thesis
      using ok by (simp add: row mounted mounted_row_def get_key_def sizes_ok_def sizes_agree_def)
  next
    fix status
    assume "filesystem_row (i, l, m) raw = down_row i l m status"
    then show ?thesis
      using that(2) by (simp add: row down_row_def get_key_def)
  qed
  ultimately show ?thesis
    by (auto simp: shape row_id)
qed

section \<open>Announcing alerts\<close>

lemma mark_notified_rows:
  "rows (hm_alerts (mark_notified w a s)) =
     map (\<lambda>r. if al_pk r = al_pk a then r\<lparr>al_notification_sent_at := Some (mw_now w (hm_reads s)),
       al_last_seen_at := mw_now w (Suc (hm_reads s))\<rparr> else r) (rows (hm_alerts s))"
  by (simp add: mark_notified_def rows_update)

lemma mark_notified_frame [simp]:
  "hm_outbox (mark_notified w a s) = hm_outbox s" "hm_snapshots (mark_notified w a s) = hm_snapshots s"
  "hm_config (mark_notified w a s) = hm_config s"
  by (simp_all add: mark_notified_def)

lemma announce_frame [simp]:
  "hm_outbox (announce_alert w us a s) = hm_outbox s @ map (notice_of a) us"
  "hm_snapshots (announce_alert w us a s) = hm_snapshots s"
  by (simp_all add: announce_alert_def)

lemma announced_frame [simp]:
  "hm_outbox (fold (announce_alert w us) xs s) = hm_outbox s @ concat (map (\<lambda>a. map (notice_of a) us) xs)"
  "hm_snapshots (fold (announce_alert w us) xs s) = hm_snapshots s"
  by (induction xs arbitrary: s) auto

lemma announced_rows:
  assumes "r \<in> set (rows (hm_alerts (fold (announce_alert w us) xs s)))" and "al_notification_sent_at r = None"
  shows "al_pk r \<notin> al_pk ` set xs \<and> r \<in> set (rows (hm_alerts s))"
  using assms
proof (induction xs arbitrary: s)
  case (Cons a xs)
  have "al_pk r \<notin> al_pk ` set xs" and "r \<in> set (rows (hm_alerts (announce_alert w us a s)))"
    using Cons.IH [of "announce_alert w us a s"] Cons.prems by auto
  moreover from this(2) have "al_pk r \<noteq> al_pk a" and "r \<in> set (rows (hm_alerts s))"
    using Cons.prems(2) by (auto simp: announce_alert_def mark_notified_rows split: if_splits)
  ultimately show ?case by simp
qed simp

lemma set_pending: "set (pending_alerts s) = {a \<in> set (rows (hm_alerts s)). al_notification_sent_at a = None}"
  by (simp add: pending_alerts_def)

lemma pending_after: "pending_alerts (fold (announce_alert w us) (pending_alerts s) s) = []"
proof -
  have "al_notification_sent_at r \<noteq> None"
    if "r \<in> set (rows (hm_alerts (fold (announce_alert w us) (pending_alerts s) s)))" for r
  proof
    assume none: "al_notification_sent_at r = None"
    from announced_rows [OF that none] none show False
      by (auto simp: set_pending)
  qed
  then have "set (pending_alerts (fold (announce_alert w us) (pending_alerts s) s)) = {}"
    unfolding set_pending by blast
  then show ?thesis by simp
qed

text \<open>Who is told: the active users who are superusers or hold one of the two permissions.\<close>

lemma outer_join_some: "Some x \<in> set (outer_join xs) \<longleftrightarrow> x \<in> set xs"
  by (auto simp: outer_join_def)

lemma outer_join_nonempty: "\<exists>p. p \<in> set (outer_join xs)"
  by (cases xs) (auto simp: outer_join_def)

lemma recipient_joined:
  "(\<exists>row \<in> set (outer_join xs) \<times> set (outer_join ys). recipient_row u row) \<longleftrightarrow>
     hu_is_superuser u \<or> (\<exists>p \<in> set xs \<union> set ys. health_permission p)"
proof
  assume "\<exists>row \<in> set (outer_join xs) \<times> set (outer_join ys). recipient_row u row"
  then show "hu_is_superuser u \<or> (\<exists>p \<in> set xs \<union> set ys. health_permission p)"
    by (auto simp: recipient_row_def outer_join_some split: option.splits)
next
  obtain p q where some: "p \<in> set (outer_join xs)" "q \<in> set (outer_join ys)"
    using outer_join_nonempty by metis
  assume "hu_is_superuser u \<or> (\<exists>p \<in> set xs \<union> set ys. health_permission p)"
  then consider "hu_is_superuser u" | x where "Some x \<in> set (outer_join xs)" "health_permission x"
    | y where "Some y \<in> set (outer_join ys)" "health_permission y"
    by (auto simp: outer_join_some)
  then show "\<exists>row \<in> set (outer_join xs) \<times> set (outer_join ys). recipient_row u row"
  proof cases
    case 1
    then show ?thesis
      using some by (intro bexI [of _ "(p, q)"]) (simp_all add: recipient_row_def)
  next
    case (2 x)
    then show ?thesis
      using some by (intro bexI [of _ "(Some x, q)"]) (simp_all add: recipient_row_def)
  next
    case (3 y)
    then show ?thesis
      using some by (intro bexI [of _ "(p, Some y)"]) (simp_all add: recipient_row_def)
  qed
qed

lemma recipients_are:
  "distinct (notification_recipients users)"
  "set (notification_recipients users) = {u \<in> set users. hu_is_active u
     \<and> (hu_is_superuser u
        \<or> (\<exists>name \<in> {''manage_health_settings'', ''restart_auth_services''}.
             (''buh_vps_health'', name) \<in> set (hu_permissions u) \<union> set (hu_group_permissions u)))}"
proof -
  show "distinct (notification_recipients users)"
    by (simp add: notification_recipients_def)
  have held: "(\<exists>p \<in> ps. health_permission p) \<longleftrightarrow>
      (\<exists>name \<in> {''manage_health_settings'', ''restart_auth_services''}. (''buh_vps_health'', name) \<in> ps)" for ps
    by (auto simp: health_permission_def notification_codes_def)
  have "u \<in> set (notification_recipients users) \<longleftrightarrow> u \<in> set users \<and> hu_is_active u
      \<and> (\<exists>row \<in> set (outer_join (hu_permissions u)) \<times> set (outer_join (hu_group_permissions u)). recipient_row u row)" for u
    by (auto simp: notification_recipients_def)
  then show "set (notification_recipients users) = {u \<in> set users. hu_is_active u
     \<and> (hu_is_superuser u
        \<or> (\<exists>name \<in> {''manage_health_settings'', ''restart_auth_services''}.
             (''buh_vps_health'', name) \<in> set (hu_permissions u) \<union> set (hu_group_permissions u)))}"
    unfolding recipient_joined held by blast
qed

lemma mset_pending: "mset (pending_alerts s) = {#a \<in># mset (rows (hm_alerts s)). al_notification_sent_at a = None#}"
  by (simp add: pending_alerts_def mset_filter)

text \<open>
  C37. With notifications on, a dispatch tells every active user who is a superuser or holds one
  of the two permissions, directly or by a group, once of every alert whose change is to be
  announced, and of no other, in the order the alerts were last seen, with its title, message and
  level; afterwards every alert is marked as announced, and a second dispatch sends nothing and
  changes nothing. With notifications off it does nothing at all.
\<close>

theorem dispatch_announces_once:
  assumes "dispatch_notifications w config s = (sent, s')"
  shows "if hc_notify_directors config
    then (\<exists>us as. distinct us
          \<and> set us = {u \<in> set (mw_users w). hu_is_active u
               \<and> (hu_is_superuser u
                  \<or> (\<exists>name \<in> {''manage_health_settings'', ''restart_auth_services''}.
                       (''buh_vps_health'', name) \<in> set (hu_permissions u) \<union> set (hu_group_permissions u)))}
          \<and> mset as = {#a \<in># mset (rows (hm_alerts s)). al_notification_sent_at a = None#}
          \<and> sorted (map al_last_seen_at as)
          \<and> hm_outbox s' = hm_outbox s @ concat (map (\<lambda>a. map (\<lambda>u. \<lparr>hn_user = hu_id u, hn_title = al_title a,
               hn_message = al_message a, hn_level = al_severity a\<rparr>) us) as)
          \<and> sent = length as * length us)
      \<and> (\<forall>a \<in> set (rows (hm_alerts s')). al_notification_sent_at a \<noteq> None)
      \<and> dispatch_notifications w config s' = (0, s')
    else sent = 0 \<and> s' = s"
proof (cases "hc_notify_directors config")
  case False
  with assms show ?thesis
    by (simp add: dispatch_notifications_def)
next
  case True
  let ?us = "notification_recipients (mw_users w)"
  have s': "s' = fold (announce_alert w ?us) (pending_alerts s) s" and sent: "sent = length (pending_alerts s) * length ?us"
    using assms True by (auto simp: dispatch_notifications_def Let_def)
  have none: "pending_alerts s' = []"
    unfolding s' by (rule pending_after)
  then have "\<forall>a \<in> set (rows (hm_alerts s')). al_notification_sent_at a \<noteq> None"
    using set_pending [of s'] by auto
  moreover have "dispatch_notifications w config s' = (0, s')"
    using True none by (simp add: dispatch_notifications_def)
  moreover have "hm_outbox s' = hm_outbox s @ concat (map (\<lambda>a. map (\<lambda>u. \<lparr>hn_user = hu_id u, hn_title = al_title a,
       hn_message = al_message a, hn_level = al_severity a\<rparr>) ?us) (pending_alerts s))"
    by (simp add: s' notice_of_def [abs_def])
  moreover have "sorted (map al_last_seen_at (pending_alerts s))"
    by (simp add: pending_alerts_def)
  ultimately show ?thesis
    unfolding if_P [OF True]
    by (intro conjI exI [of _ ?us] exI [of _ "pending_alerts s"] recipients_are mset_pending sent)
qed

section \<open>Rounds\<close>

lemma save_alert_frame: "save_alert w a s = (a', s') \<Longrightarrow> hm_snapshots s' = hm_snapshots s \<and> hm_config s' = hm_config s"
  by (auto simp: save_alert_def Let_def)

lemma get_or_create_frame:
  "get_or_create_alert w key active title message severity resolved s = (r, s') \<Longrightarrow>
     hm_snapshots s' = hm_snapshots s \<and> hm_config s' = hm_config s"
  by (auto simp: get_or_create_alert_def Let_def split: option.splits)

lemma set_alert_frame:
  assumes "set_alert w key active title message severity s = (r, s')"
  shows "hm_snapshots s' = hm_snapshots s \<and> hm_config s' = hm_config s"
proof -
  obtain a1 created s2 where got: "get_or_create_alert w key active title message severity
      (if active then None else Some (mw_now w (hm_reads s))) (s\<lparr>hm_reads := Suc (hm_reads s)\<rparr>) = ((a1, created), s2)"
    by (metis prod.collapse)
  obtain b b' where "save_alert w b s2 = (b', s')"
    using assms got by (auto simp: set_alert_def Let_def split: prod.splits)
  then show ?thesis
    using get_or_create_frame [OF got] by (auto dest: save_alert_frame)
qed

lemma put_alert_frame [simp]:
  "hm_snapshots (put_alert w c s) = hm_snapshots s" "hm_config (put_alert w c s) = hm_config s"
proof -
  obtain key active title message where c: "c = (key, active, title, message)"
    by (cases c)
  obtain r s' where run: "set_alert w key active title message Danger_Level s = (r, s')"
    by (cases "set_alert w key active title message Danger_Level s")
  from set_alert_frame [OF run] run
  show "hm_snapshots (put_alert w c s) = hm_snapshots s" and "hm_config (put_alert w c s) = hm_config s"
    by (simp_all add: c put_alert_def)
qed

lemma fold_put_frame [simp]:
  "hm_snapshots (fold (put_alert w) cs s) = hm_snapshots s" "hm_config (fold (put_alert w) cs s) = hm_config s"
  by (induction cs arbitrary: s) auto

lemma get_metrics_frame:
  "get_metrics w s = (r, s') \<Longrightarrow> hm_snapshots s' = hm_snapshots s \<and> hm_alerts s' = hm_alerts s"
  by (auto simp: get_metrics_def)

lemma get_workload_frame:
  "get_worker_workload w s = (r, s') \<Longrightarrow> hm_snapshots s' = hm_snapshots s \<and> hm_alerts s' = hm_alerts s"
  by (auto simp: get_worker_workload_def)

lemma store_snapshot_frame:
  "store_snapshot w metrics workload s = (r, s') \<Longrightarrow> hm_alerts s' = hm_alerts s
     \<and> (\<forall>e. r = Inl e \<longrightarrow> hm_snapshots s' = hm_snapshots s)"
  by (auto simp: store_snapshot_def Let_def split: sum.splits option.splits)

lemma capture_snapshot_frame:
  assumes "capture_snapshot w metrics workload s = (r, s')"
  shows "hm_alerts s' = hm_alerts s \<and> (\<forall>e. r = Inl e \<longrightarrow> hm_snapshots s' = hm_snapshots s)"
proof -
  have store: "hm_alerts s' = hm_alerts s2 \<and> (\<forall>e. r = Inl e \<longrightarrow> hm_snapshots s' = hm_snapshots s2)"
    if "store_snapshot w m k s2 = (r, s')" for m k s2
    using store_snapshot_frame [OF that] by blast
  show ?thesis
    using assms
    by (auto simp: capture_snapshot_def split: if_splits prod.splits sum.splits
        dest!: get_metrics_frame get_workload_frame store)
qed

lemma evaluate_error: "evaluate_alerts w snapshot config s = (Inl e, s') \<Longrightarrow> ex_class e = ''ZeroDivisionError''"
  by (auto simp: evaluate_alerts_def plain_error_def split: if_splits prod.splits)

lemma attempt_unavailable:
  assumes "attempt_round w config s = (Inl e, s')" and "ex_class e = ''AgentUnavailable''"
  shows "hm_snapshots s' = hm_snapshots s \<and> hm_alerts s' = hm_alerts s"
  using assms
  by (auto simp: attempt_round_def split: prod.splits sum.splits
      dest!: get_metrics_frame get_workload_frame capture_snapshot_frame evaluate_error)

lemma get_solo_frame:
  "get_solo s = (config, s') \<Longrightarrow> hm_snapshots s' = hm_snapshots s \<and> hm_alerts s' = hm_alerts s"
  by (auto simp: get_solo_def split: option.splits)

text \<open>Announcing an alert leaves what it says.\<close>

definition says :: "string \<Rightarrow> bool \<Rightarrow> string \<Rightarrow> monitor \<Rightarrow> bool" where
  "says key active message s \<longleftrightarrow> (\<exists>a. alert_for key s = Some a \<and> al_active a = active \<and> al_message a = message)"

lemma find_map_same:
  "(\<And>r. al_key (f r) = al_key r) \<Longrightarrow>
     List.find (\<lambda>r. al_key r = k) (map f xs) = map_option f (List.find (\<lambda>r. al_key r = k) xs)"
  by (induction xs) auto

definition content_of :: "alert_state \<Rightarrow> bool \<times> string" where
  "content_of a = (al_active a, al_message a)"

lemma content_announce: "map_option content_of (alert_for key (announce_alert w us a s)) = map_option content_of (alert_for key s)"
proof -
  let ?f = "\<lambda>r. if al_pk r = al_pk a then r\<lparr>al_notification_sent_at := Some (mw_now w (hm_reads s)),
       al_last_seen_at := mw_now w (Suc (hm_reads s))\<rparr> else r"
  have rows: "rows (hm_alerts (announce_alert w us a s)) = map ?f (rows (hm_alerts s))"
    by (simp add: announce_alert_def mark_notified_rows)
  have "alert_for key (announce_alert w us a s) = map_option ?f (alert_for key s)"
    unfolding alert_for_def rows by (rule find_map_same) simp
  moreover have "content_of (?f r) = content_of r" for r
    by (simp add: content_of_def)
  ultimately show ?thesis
    by (simp add: option.map_comp comp_def)
qed

lemma content_announced:
  "map_option content_of (alert_for key (fold (announce_alert w us) xs s)) = map_option content_of (alert_for key s)"
  by (induction xs arbitrary: s) (simp_all add: content_announce)

lemma says_content: "says key active message s \<longleftrightarrow> map_option content_of (alert_for key s) = Some (active, message)"
  by (auto simp: says_def content_of_def)

lemma content_dispatch:
  "dispatch_notifications w config s = (n, s') \<Longrightarrow>
     map_option content_of (alert_for key s') = map_option content_of (alert_for key s)"
  by (auto simp: dispatch_notifications_def Let_def content_announced split: if_splits)

lemma dispatch_frame:
  "dispatch_notifications w config s = (n, s') \<Longrightarrow> hm_snapshots s' = hm_snapshots s
     \<and> (says key active message s \<longrightarrow> says key active message s')
     \<and> (hc_notify_directors config \<longrightarrow> pending_alerts s' = [])"
  using content_dispatch [of w config s n s' key]
  by (auto simp: dispatch_notifications_def Let_def pending_after says_content split: if_splits)

text \<open>
  A round in which the host agent cannot be asked stores and deletes no snapshot: the
  agent alert becomes active with the reason, and with notifications on no change is
  left unannounced.
\<close>

theorem agent_failure_recorded:
  assumes "alerts_ok s" and "capture_and_evaluate w s = (Inr (Agent_Failed reason), s')"
  shows "hm_snapshots s' = hm_snapshots s
    \<and> (\<exists>a. alert_for ''agent'' s' = Some a \<and> al_active a \<and> al_message a = reason)
    \<and> (hc_notify_directors (fst (get_solo s)) \<longrightarrow> pending_alerts s' = [])"
proof -
  obtain config s1 where solo: "get_solo s = (config, s1)"
    by (cases "get_solo s")
  obtain r s2 where run1: "attempt_round w config s1 = (r, s2)"
    by (cases "attempt_round w config s1")
  have "\<exists>e. r = Inl e \<and> ex_class e = ''AgentUnavailable''"
    using assms(2) by (cases r) (simp_all add: capture_and_evaluate_def solo run1 split: if_splits prod.splits)
  then obtain e where r: "r = Inl e" and cls: "ex_class e = ''AgentUnavailable''"
    by blast
  note tried = run1 [unfolded r]
  have "capture_and_evaluate w s = (Inr (Agent_Failed (ex_text e)),
      snd (dispatch_notifications w config (record_agent_failure w (ex_text e) s2)))"
    by (simp add: capture_and_evaluate_def solo tried cls)
  then have reason: "reason = ex_text e"
    and s': "s' = snd (dispatch_notifications w config (record_agent_failure w (ex_text e) s2))"
    using assms(2) by simp_all
  have same: "hm_snapshots s2 = hm_snapshots s" "alerts_ok s2"
    using attempt_unavailable [OF tried cls] get_solo_frame [OF solo] assms(1) by (simp_all add: alerts_ok_def)
  obtain a ch s3 where set3: "set_alert w ''agent'' True ''VPS Health host agent unavailable'' (ex_text e) Danger_Level s2 = ((a, ch), s3)"
    by (metis prod.collapse)
  then have s3: "record_agent_failure w (ex_text e) s2 = s3"
    by (simp add: record_agent_failure_def)
  have "says ''agent'' True reason s3"
    using set_alert_step [OF same(2) set3] by (simp add: says_def reason)
  moreover obtain n where run: "dispatch_notifications w config s3 = (n, s')"
    using s' s3 by (metis prod.collapse)
  ultimately have "says ''agent'' True reason s'"
    using dispatch_frame [OF run] by blast
  then show ?thesis
    using dispatch_frame [OF run] set_alert_frame [OF set3] same(1) solo by (simp add: says_def)
qed

lemma evaluated_frame:
  assumes "evaluate_alerts w snapshot config s = (Inr alerts, s')"
  shows "hm_snapshots s' = hm_snapshots s"
  unfolding evaluated [OF assms] by simp

lemma recovered:
  assumes "alerts_ok s"
  shows "alerts_ok (record_agent_recovery w s)"
    and "alert_for ''agent'' (record_agent_recovery w s) = Some a \<Longrightarrow> \<not> al_active a"
proof -
  have "alerts_ok (record_agent_recovery w s) \<and> (\<forall>a. alert_for ''agent'' (record_agent_recovery w s) = Some a \<longrightarrow> \<not> al_active a)"
  proof (cases "alert_for ''agent'' s")
    case None
    with assms show ?thesis by (simp add: record_agent_recovery_def)
  next
    case (Some b)
    obtain a ch s' where run: "set_alert w ''agent'' False ''VPS Health host agent recovered''
        ''Live host metrics and guarded controls are responding again.'' Warning_Level s = ((a, ch), s')"
      by (metis prod.collapse)
    with set_alert_step [OF assms run] Some show ?thesis
      by (simp add: record_agent_recovery_def)
  qed
  then show "alerts_ok (record_agent_recovery w s)"
    and "alert_for ''agent'' (record_agent_recovery w s) = Some a \<Longrightarrow> \<not> al_active a"
    by blast+
qed

lemma attempt_succeeds:
  assumes "attempt_round w config s = (Inr snapshot, s')" and "alerts_ok s"
  shows "\<forall>a. alert_for ''agent'' s' = Some a \<longrightarrow> \<not> al_active a"
proof -
  obtain metrics s1 where 1: "get_metrics w s = (Inr metrics, s1)"
    using assms(1) by (auto simp: attempt_round_def split: prod.splits sum.splits)
  obtain workload s2 where 2: "get_worker_workload w s1 = (Inr workload, s2)"
    using assms(1) 1 by (auto simp: attempt_round_def split: prod.splits sum.splits)
  obtain r s3 where 3: "capture_snapshot w metrics workload s2 = (r, s3)"
    by (cases "capture_snapshot w metrics workload s2")
  have ok3: "alerts_ok s3"
    using get_metrics_frame [OF 1] get_workload_frame [OF 2] capture_snapshot_frame [OF 3] assms(2)
    by (simp add: alerts_ok_def)
  have "\<exists>snap. r = Inr snap"
    using assms(1) 1 2 3 by (cases r) (simp_all add: attempt_round_def)
  then obtain snap where snap: "r = Inr snap" ..
  obtain q s4 where 4: "evaluate_alerts w snap config (record_agent_recovery w s3) = (q, s4)"
    by (cases "evaluate_alerts w snap config (record_agent_recovery w s3)")
  have "s' = s4" and "\<exists>alerts. q = Inr alerts"
    using assms(1) 1 2 3 snap 4 by (cases q; simp add: attempt_round_def)+
  then obtain alerts where ev: "evaluate_alerts w snap config (record_agent_recovery w s3) = (Inr alerts, s')"
    using 4 by blast
  have "''agent'' \<notin> fst ` set (alert_checks config snap (record_agent_recovery w s3)
      @ data_checks config snap (record_agent_recovery w s3))"
    by (auto simp: alert_checks_def measured_alerts_def data_checks_def availability_check_def pressure_check_def
        split: option.splits)
  then have "alert_for ''agent'' s' = alert_for ''agent'' (record_agent_recovery w s3)"
    unfolding evaluated [OF ev] by (rule fold_put_rows [OF recovered(1) [OF ok3]])
  then show ?thesis
    using recovered(2) [OF ok3] by simp
qed

text \<open>
  A round that completes leaves the agent alert absent or resolved and keeps only
  snapshots younger than the retention at the time it cleaned up.
\<close>

theorem completed_round:
  assumes "alerts_ok s" and "capture_and_evaluate w s = (Inr (Round_Done pk notifications deleted), s')"
  shows "(\<forall>a. alert_for ''agent'' s' = Some a \<longrightarrow> \<not> al_active a)
    \<and> (\<exists>n. \<forall>r \<in> set (rows (hm_snapshots s')).
         mw_now w n - days (hc_history_retention_days (fst (get_solo s))) \<le> hs_captured_at r)"
proof -
  obtain config s1 where solo: "get_solo s = (config, s1)"
    by (cases "get_solo s")
  obtain r s2 where 1: "attempt_round w config s1 = (r, s2)"
    by (cases "attempt_round w config s1")
  have "\<exists>snapshot. r = Inr snapshot"
    using assms(2) by (cases r) (simp_all add: capture_and_evaluate_def solo 1 split: if_splits)
  then obtain snapshot where r: "r = Inr snapshot" ..
  obtain n s3 where 2: "dispatch_notifications w config s2 = (n, s3)"
    by (cases "dispatch_notifications w config s2")
  have 3: "cleanup_history w config s3 = (deleted, s')"
    using assms(2) by (auto simp: capture_and_evaluate_def solo 1 r 2 split: prod.splits)
  have "alerts_ok s1"
    using get_solo_frame [OF solo] assms(1) by (simp add: alerts_ok_def)
  from attempt_succeeds [OF 1 [unfolded r] this]
  have "\<forall>a. alert_for ''agent'' s3 = Some a \<longrightarrow> \<not> al_active a"
    using content_dispatch [OF 2, of "''agent''"]
    by (cases "alert_for ''agent'' s2") (auto simp: content_of_def)
  moreover have "hm_alerts s' = hm_alerts s3"
    and young: "\<forall>r \<in> set (rows (hm_snapshots s')). mw_now w (hm_reads s3) - days (hc_history_retention_days config) \<le> hs_captured_at r"
    using 3 by (auto simp: cleanup_history_def Let_def rows_delete_where)
  then have "alert_for ''agent'' s' = alert_for ''agent'' s3"
    by (simp add: alert_for_def)
  ultimately have "\<forall>a. alert_for ''agent'' s' = Some a \<longrightarrow> \<not> al_active a"
    by simp
  moreover have "fst (get_solo s) = config"
    by (simp add: solo)
  ultimately show ?thesis
    using young by blast
qed

end
