(* ===== verification/Health_Console.thy ===== *)
theory Health_Console
  imports Health_Alerts
begin

text \<open>
  The guarded operations of VPS Health as a director uses them
  (\<open>apps/vps-health/src/buh_vps_health/views.py\<close>, \<open>agent_client.py\<close> and \<open>synchronize_action\<close>
  of \<open>services.py\<close>), composed with the host agent's own handling of the requests. A request
  is one exchange over the socket; whether it arrives, and whether the answer does, is
  part of the world.
\<close>

section \<open>Actions\<close>

datatype action_kind = Restart_Auth | Set_Workers | Check_Updates

datatype action_status = Queued | Accepted | Running | Succeeded | Failed

record health_action =
  ha_id :: string
  ha_kind :: action_kind
  ha_target_worker_count :: "int option"
  ha_requested_by :: nat
  ha_status :: action_status
  ha_agent_action_id :: string
  ha_message :: string
  ha_result_payload :: pyval
  ha_started_at :: "instant option"
  ha_finished_at :: "instant option"

text \<open>The socket at one exchange: the request is lost, the answer is lost, or neither.\<close>

datatype link = Connected | Refused_Connection string | Answer_Lost string | Oversized

record console_world =
  cw_host :: host_world
  cw_link :: "nat \<Rightarrow> link"
  cw_client_token :: "string option"
  cw_agent_token :: "string option"
  cw_uuid :: "nat \<Rightarrow> string"
  cw_now :: "nat \<Rightarrow> instant"
  cw_parse_datetime :: "string \<Rightarrow> exn + instant option"

record console =
  cs_actions :: "health_action list"
  cs_config :: health_config
  cs_agent :: host_agent
  cs_exchanges :: nat
  cs_times :: nat

definition action_name :: "action_kind \<Rightarrow> string" where
  "action_name kind = (case kind of
     Restart_Auth \<Rightarrow> ''restart_auth'' | Set_Workers \<Rightarrow> ''set_workers'' | Check_Updates \<Rightarrow> ''check_updates'')"

section \<open>One exchange with the agent\<close>

definition optional_text :: "string option \<Rightarrow> pyval" where
  "optional_text t = (case t of None \<Rightarrow> PNone | Some s \<Rightarrow> PStr s)"

definition optional_int :: "int option \<Rightarrow> pyval" where
  "optional_int t = (case t of None \<Rightarrow> PNone | Some n \<Rightarrow> PInt n)"

text \<open>The JSON of an operation, and the answer the agent sends; a handler that raised sends nothing.\<close>

definition operation_json :: "guarded_operation \<Rightarrow> (string \<times> pyval) list" where
  "operation_json op =
     [(''id'', PStr (od_id op)), (''action'', PStr (od_action op)), (''worker_count'', optional_int (od_worker_count op)),
      (''requester'', PStr (od_requester op)), (''status'', PStr (od_status op)), (''message'', PStr (od_message op)),
      (''accepted_at'', PStr (od_accepted_at op)), (''started_at'', optional_text (od_started_at op)),
      (''finished_at'', optional_text (od_finished_at op)), (''result'', od_result op)]"

definition answer_json :: "exn + answer \<Rightarrow> transport" where
  "answer_json r = (case r of
      Inl e \<Rightarrow> Not_Json
    | Inr (Refused reason) \<Rightarrow> Reply [(''ok'', PBool False), (''error'', PStr reason)]
    | Inr (Metrics metrics) \<Rightarrow> Reply [(''ok'', PBool True), (''metrics'', PDict metrics)]
    | Inr (Operation op) \<Rightarrow> Reply [(''ok'', PBool True), (''action'', PDict (operation_json op))])"

text \<open>\<open>request_agent\<close>: the token is stripped when it is read; without one nothing is sent.\<close>

definition request_agent ::
    "console_world \<Rightarrow> (string \<times> pyval) list \<Rightarrow> console \<Rightarrow> (exn + (string \<times> pyval) list) \<times> console" where
  "request_agent w payload s =
     (case cw_client_token w of
        None \<Rightarrow> (read_reply (hw_shown (cw_host w)) (No_Token ''the file cannot be read''), s)
      | Some content \<Rightarrow>
          (let message = (''token'', PStr (strip_text content)) # payload;
               s1 = s\<lparr>cs_exchanges := Suc (cs_exchanges s)\<rparr>
           in case cw_link w (cs_exchanges s) of
                Refused_Connection reason \<Rightarrow> (read_reply (hw_shown (cw_host w)) (No_Connection reason), s1)
              | lk \<Rightarrow>
                  (case handle_request (cw_host w) (cw_agent_token w) message (cs_agent s) of
                     (r, agent) \<Rightarrow>
                       (read_reply (hw_shown (cw_host w))
                          (case lk of Answer_Lost reason \<Rightarrow> No_Connection reason | Oversized \<Rightarrow> Too_Long
                           | _ \<Rightarrow> answer_json r),
                        s1\<lparr>cs_agent := agent\<rparr>))))"

definition submit_action ::
    "console_world \<Rightarrow> string \<Rightarrow> string \<Rightarrow> string \<Rightarrow> int option \<Rightarrow> console
     \<Rightarrow> (exn + (string \<times> pyval) list) \<times> console" where
  "submit_action w action_id name requester worker_count s =
     request_agent w
       [(''operation'', PStr ''action''), (''action_id'', PStr action_id), (''action'', PStr name),
        (''requester'', PStr (take 150 requester)), (''worker_count'', optional_int worker_count)] s"

definition query_action ::
    "console_world \<Rightarrow> string \<Rightarrow> console \<Rightarrow> (exn + (string \<times> pyval) list) \<times> console" where
  "query_action w action_id s =
     request_agent w [(''operation'', PStr ''action_status''), (''action_id'', PStr action_id)] s"

section \<open>Actions of the console\<close>

definition find_action :: "string \<Rightarrow> console \<Rightarrow> health_action option" where
  "find_action i s = List.find (\<lambda>a. ha_id a = i) (cs_actions s)"

definition write_action :: "health_action \<Rightarrow> console \<Rightarrow> console" where
  "write_action a s = s\<lparr>cs_actions := map (\<lambda>b. if ha_id b = ha_id a then a else b) (cs_actions s)\<rparr>"

text \<open>\<open>has_permission\<close>; an inactive user has no permission of its own.\<close>

definition has_permission :: "health_user \<Rightarrow> string \<Rightarrow> bool" where
  "has_permission u code_name \<longleftrightarrow> hu_is_superuser u
     \<or> hu_is_active u \<and> (''buh_vps_health'', code_name) \<in> set (hu_permissions u @ hu_group_permissions u)"

datatype view_result =
  Permission_Denied
| Answered nat string
| Started health_action

definition new_action :: "console_world \<Rightarrow> action_kind \<Rightarrow> int option \<Rightarrow> health_user \<Rightarrow> console \<Rightarrow> health_action" where
  "new_action w kind target user s =
     \<lparr>ha_id = cw_uuid w (length (cs_actions s)), ha_kind = kind, ha_target_worker_count = target,
      ha_requested_by = hu_id user, ha_status = Queued, ha_agent_action_id = '''',
      ha_message = ''Waiting for the host agent.'', ha_result_payload = PDict [],
      ha_started_at = None, ha_finished_at = None\<rparr>"

definition as_text :: "console_world \<Rightarrow> pyval \<Rightarrow> string" where
  "as_text w v = (case v of PStr s \<Rightarrow> s | _ \<Rightarrow> hw_shown (cw_host w) v)"

text \<open>\<open>response["action"]["id"]\<close> and \<open>response["action"].get("message", default)\<close>.\<close>

definition accepted_fields ::
    "console_world \<Rightarrow> string \<Rightarrow> (string \<times> pyval) list \<Rightarrow> exn + (string \<times> string)" where
  "accepted_fields w default_message response =
     (case get_key response ''action'' of
        PDict data \<Rightarrow>
          (case map_of data ''id'' of
             None \<Rightarrow> Inl (plain_error ''KeyError'' ''id'')
           | Some i \<Rightarrow> Inr (as_text w i, case map_of data ''message'' of None \<Rightarrow> default_message | Some m \<Rightarrow> as_text w m))
      | _ \<Rightarrow> Inl (plain_error ''KeyError'' ''action''))"

text \<open>
  What \<open>restart_auth\<close>, \<open>set_workers\<close> and \<open>check_updates\<close> do once their own checks pass: an
  action is created, the agent asked, and the answer recorded.
\<close>

definition launch ::
    "console_world \<Rightarrow> action_kind \<Rightarrow> int option \<Rightarrow> string \<Rightarrow> health_user \<Rightarrow> string \<Rightarrow> console
     \<Rightarrow> (exn + view_result) \<times> console" where
  "launch w kind target default_message user username s =
     (let a = new_action w kind target user s;
          s1 = s\<lparr>cs_actions := cs_actions s @ [a]\<rparr>
      in case submit_action w (ha_id a) (action_name kind) username target s1 of
           (Inl e, s2) \<Rightarrow>
             if ex_class e = ''AgentUnavailable''
             then (Inr (Answered 503 (ex_text e)),
                   write_action (a\<lparr>ha_status := Failed, ha_message := ex_text e,
                                   ha_finished_at := Some (cw_now w (cs_times s2))\<rparr>)
                     (s2\<lparr>cs_times := Suc (cs_times s2)\<rparr>))
             else (Inl e, s2)
         | (Inr response, s2) \<Rightarrow>
             (case accepted_fields w default_message response of
                Inl e \<Rightarrow> (Inl e, s2)
              | Inr (agent_id, message) \<Rightarrow>
                  (let a' = a\<lparr>ha_agent_action_id := agent_id, ha_status := Accepted, ha_message := message\<rparr>
                   in (Inr (Started a'), write_action a' s2))))"

definition restart_auth ::
    "console_world \<Rightarrow> health_user \<Rightarrow> string \<Rightarrow> string option \<Rightarrow> console \<Rightarrow> (exn + view_result) \<times> console" where
  "restart_auth w user username confirmation s =
     (if \<not> has_permission user ''restart_auth_services'' then (Inr Permission_Denied, s)
      else if confirmation \<noteq> Some ''RESTART AUTH'' then (Inr (Answered 400 ''Confirmation did not match.''), s)
      else launch w Restart_Auth None ''Restart accepted.'' user username s)"

definition set_workers ::
    "console_world \<Rightarrow> health_user \<Rightarrow> string \<Rightarrow> string \<Rightarrow> console \<Rightarrow> (exn + view_result) \<times> console" where
  "set_workers w user username count_text s =
     (if \<not> has_permission user ''scale_workers'' then (Inr Permission_Denied, s)
      else case int_of_text count_text of
             None \<Rightarrow> (Inr (Answered 400 ''Worker count must be a number.''), s)
           | Some count \<Rightarrow>
               if \<not> (hc_worker_minimum (cs_config s) \<le> count \<and> count \<le> hc_worker_maximum (cs_config s))
               then (Inr (Answered 400 (''Worker count must be between '' @ show_int (hc_worker_minimum (cs_config s))
                       @ '' and '' @ show_int (hc_worker_maximum (cs_config s)) @ ''.'')), s)
               else launch w Set_Workers (Some count) ''Scaling accepted.'' user username s)"

definition scan_open :: "health_action \<Rightarrow> bool" where
  "scan_open a \<longleftrightarrow> ha_kind a = Check_Updates \<and> (ha_status a = Queued \<or> ha_status a = Accepted \<or> ha_status a = Running)"

definition check_updates ::
    "console_world \<Rightarrow> health_user \<Rightarrow> string \<Rightarrow> console \<Rightarrow> (exn + view_result) \<times> console" where
  "check_updates w user username s =
     (if \<not> has_permission user ''check_updates'' then (Inr Permission_Denied, s)
      else if list_ex scan_open (cs_actions s) then (Inr (Answered 409 ''An update scan is already running.''), s)
      else launch w Check_Updates None ''Update scan accepted.'' user username s)"

section \<open>Following an action\<close>

definition settled :: "action_status \<Rightarrow> bool" where
  "settled st \<longleftrightarrow> st = Succeeded \<or> st = Failed"

text \<open>\<open>STATUS_MAP.get(v, current)\<close>.\<close>

definition mapped_status :: "pyval \<Rightarrow> action_status \<Rightarrow> action_status" where
  "mapped_status v current =
     (if v = PStr ''accepted'' \<or> v = PStr ''queued'' then Accepted
      else if v = PStr ''running'' then Running
      else if v = PStr ''succeeded'' then Succeeded
      else if v = PStr ''failed'' then Failed
      else current)"

definition parsed_time ::
    "console_world \<Rightarrow> (string \<times> pyval) list \<Rightarrow> string \<Rightarrow> instant option \<Rightarrow> exn + instant option" where
  "parsed_time w data key current =
     (let v = get_key data key
      in if \<not> truthy v then Inr current
         else case v of PStr s \<Rightarrow> cw_parse_datetime w s
              | _ \<Rightarrow> Inl (type_error ''fromisoformat: argument must be str''))"

definition synchronized :: "console_world \<Rightarrow> (string \<times> pyval) list \<Rightarrow> health_action \<Rightarrow> exn + health_action" where
  "synchronized w data a =
     (if \<not> hashable (get_key data ''status'') then Inl (type_error ''unhashable type'')
      else case (parsed_time w data ''started_at'' (ha_started_at a), parsed_time w data ''finished_at'' (ha_finished_at a)) of
             (Inl e, _) \<Rightarrow> Inl e
           | (Inr _, Inl e) \<Rightarrow> Inl e
           | (Inr started, Inr finished) \<Rightarrow>
               Inr (a\<lparr>ha_status := mapped_status (get_key data ''status'') (ha_status a),
                      ha_message := (if truthy (get_key data ''message'') then as_text w (get_key data ''message'')
                                     else ha_message a),
                      ha_result_payload := (if truthy (get_key data ''result'') then get_key data ''result''
                                            else ha_result_payload a),
                      ha_started_at := started, ha_finished_at := finished\<rparr>))"

definition synchronize_action ::
    "console_world \<Rightarrow> health_action \<Rightarrow> console \<Rightarrow> (exn + health_action) \<times> console" where
  "synchronize_action w a s =
     (if ha_agent_action_id a = '''' \<or> settled (ha_status a) then (Inr a, s)
      else (case query_action w (ha_agent_action_id a) s of
              (Inl e, s1) \<Rightarrow> (Inl e, s1)
            | (Inr response, s1) \<Rightarrow>
                (case subdict ''action'' response of
                   Inl e \<Rightarrow> (Inl e, s1)
                 | Inr data \<Rightarrow>
                     (case synchronized w data a of
                        Inl e \<Rightarrow> (Inl e, s1)
                      | Inr a' \<Rightarrow> (Inr a', write_action a' s1)))))"

text \<open>\<open>action_detail\<close>: an agent that does not answer leaves the action as it is on file.\<close>

datatype detail = Detail_Denied | Not_Found | Detail health_action bool

definition action_detail ::
    "console_world \<Rightarrow> health_user \<Rightarrow> string \<Rightarrow> console \<Rightarrow> (exn + detail) \<times> console" where
  "action_detail w user action_id s =
     (if \<not> has_permission user ''view_action_history'' then (Inr Detail_Denied, s)
      else case find_action action_id s of
             None \<Rightarrow> (Inr Not_Found, s)
           | Some a \<Rightarrow>
               (let shows_result = has_permission user ''view_update_results''
                in case synchronize_action w a s of
                     (Inr a', s1) \<Rightarrow> (Inr (Detail a' shows_result), s1)
                   | (Inl e, s1) \<Rightarrow>
                       if ex_class e = ''AgentUnavailable'' then (Inr (Detail a shows_result), s1) else (Inl e, s1)))"

text \<open>
  \<open>live_metrics\<close>: the page that is polled follows the newest twelve actions and the newest update
  scan. The actions are read newest first, before the first of them is followed. The workload and the
  alerts the page also shows are read elsewhere and change nothing.
\<close>

record live_page =
  lv_agent_error :: string
  lv_host :: pyval
  lv_docker :: pyval
  lv_workers :: pyval
  lv_actions :: "(health_action \<times> bool) list"
  lv_latest_update :: "health_action option"

datatype live = Live_Denied | Live live_page

definition recent_actions :: "console \<Rightarrow> health_action list" where
  "recent_actions s = rev (cs_actions s)"

definition follow :: "console_world \<Rightarrow> health_action \<Rightarrow> console \<Rightarrow> (exn + health_action) \<times> console" where
  "follow w a s =
     (case synchronize_action w a s of
        (Inr a', s1) \<Rightarrow> (Inr a', s1)
      | (Inl e, s1) \<Rightarrow> if ex_class e = ''AgentUnavailable'' then (Inr a, s1) else (Inl e, s1))"

fun follow_all :: "console_world \<Rightarrow> health_action list \<Rightarrow> console \<Rightarrow> (exn + health_action list) \<times> console" where
  "follow_all w [] s = (Inr [], s)"
| "follow_all w (a # rest) s =
     (case follow w a s of
        (Inl e, s1) \<Rightarrow> (Inl e, s1)
      | (Inr a', s1) \<Rightarrow>
          (case follow_all w rest s1 of
             (Inl e, s2) \<Rightarrow> (Inl e, s2)
           | (Inr followed, s2) \<Rightarrow> (Inr (a' # followed), s2)))"

definition shown_metrics ::
    "console_world \<Rightarrow> console \<Rightarrow> (exn + (string \<times> pyval) list \<times> string) \<times> console" where
  "shown_metrics w s =
     (case request_agent w [(''operation'', PStr ''metrics'')] s of
        (Inl e, s1) \<Rightarrow> if ex_class e = ''AgentUnavailable'' then (Inr ([], ex_text e), s1) else (Inl e, s1)
      | (Inr response, s1) \<Rightarrow>
          (case get_key response ''metrics'' of
             PDict metrics \<Rightarrow> (Inr (metrics, ''''), s1)
           | _ \<Rightarrow> (Inl (plain_error ''KeyError'' ''metrics''), s1)))"

text \<open>\<open>metrics.get(key, {}) if allowed else {}\<close>.\<close>

definition metric_for :: "bool \<Rightarrow> (string \<times> pyval) list \<Rightarrow> string \<Rightarrow> pyval" where
  "metric_for allowed metrics key =
     (if allowed then (case map_of metrics key of None \<Rightarrow> PDict [] | Some v \<Rightarrow> v) else PDict [])"

definition followed_actions :: "console_world \<Rightarrow> health_user \<Rightarrow> console \<Rightarrow> (exn + health_action list) \<times> console" where
  "followed_actions w user s =
     (if has_permission user ''view_action_history'' then follow_all w (take 12 (recent_actions s)) s else (Inr [], s))"

definition latest_update :: "console_world \<Rightarrow> health_user \<Rightarrow> console \<Rightarrow> (exn + health_action option) \<times> console" where
  "latest_update w user s =
     (if \<not> has_permission user ''view_update_results'' then (Inr None, s)
      else case List.find (\<lambda>a. ha_kind a = Check_Updates) (recent_actions s) of
             None \<Rightarrow> (Inr None, s)
           | Some a \<Rightarrow> (case follow w a s of (Inl e, s1) \<Rightarrow> (Inl e, s1) | (Inr a', s1) \<Rightarrow> (Inr (Some a'), s1)))"

definition live_metrics :: "console_world \<Rightarrow> health_user \<Rightarrow> console \<Rightarrow> (exn + live) \<times> console" where
  "live_metrics w user s =
     (if \<not> has_permission user ''view_vps_health'' then (Inr Live_Denied, s)
      else case shown_metrics w s of
        (Inl e, s1) \<Rightarrow> (Inl e, s1)
      | (Inr (metrics, agent_error), s1) \<Rightarrow>
          (case followed_actions w user s1 of
             (Inl e, s2) \<Rightarrow> (Inl e, s2)
           | (Inr actions, s2) \<Rightarrow>
               (case latest_update w user s2 of
                  (Inl e, s3) \<Rightarrow> (Inl e, s3)
                | (Inr latest, s3) \<Rightarrow>
                    (Inr (Live \<lparr>lv_agent_error = agent_error,
                       lv_host = metric_for (has_permission user ''view_host_metrics'') metrics ''host'',
                       lv_docker = metric_for (has_permission user ''view_container_metrics'') metrics ''docker'',
                       lv_workers = metric_for (has_permission user ''view_worker_workload''
                          \<or> has_permission user ''scale_workers'') metrics ''workers'',
                       lv_actions = map (\<lambda>a. (a, has_permission user ''view_update_results'')) actions,
                       lv_latest_update = latest\<rparr>), s3))))"

end
