(* ===== verification/Health_Steps.thy ===== *)
theory Health_Steps
  imports Health_Agent
begin

text \<open>
  The host agent as a system of threads: request threads that check a request and then
  wait for the lock, one thread per admitted operation, the collector, and the process
  itself, which may die at any moment and start anew. The operations of the model are the
  steps; the properties are invariants of every interleaving of them.
\<close>

section \<open>Interleavings\<close>

type_synonym pending = "string \<times> string \<times> (string \<times> pyval) list"

record agent_system =
  sy_agent :: host_agent
  sy_waiting :: "pending list"
  sy_serving :: bool

definition advance_performer :: "host_world \<Rightarrow> performer list \<Rightarrow> performer \<Rightarrow> performer list \<Rightarrow> host_agent \<Rightarrow> host_agent" where
  "advance_performer w ps p qs s =
     (case perform_stage w p s of (outcome, s') \<Rightarrow>
        s'\<lparr>ag_performers := ps @ (case outcome of None \<Rightarrow> [] | Some p' \<Rightarrow> [p']) @ qs\<rparr>)"

text \<open>
  \<open>live_step\<close> is a step of a running process, or of an administrator who edits the
  environment file; \<open>agent_step\<close> adds the end of the process and its start. A start that
  raises leaves the process down.
\<close>

inductive live_step :: "host_world \<Rightarrow> string option \<Rightarrow> agent_system \<Rightarrow> agent_system \<Rightarrow> bool"
  for w :: host_world and token :: "string option" where
  request_checked:
    "sy_serving y \<Longrightarrow> token_refusal w token payload = None \<Longrightarrow> get_key payload ''operation'' = PStr ''action'' \<Longrightarrow>
     check_request w payload (sy_agent y) = Inr (Admissible action_id name) \<Longrightarrow>
     live_step w token y (y\<lparr>sy_waiting := sy_waiting y @ [(action_id, name, payload)]\<rparr>)"
| request_admitted:
    "sy_serving y \<Longrightarrow> sy_waiting y = xs @ (action_id, name, payload) # ys \<Longrightarrow>
     admit w action_id name payload (sy_agent y) = (r, s') \<Longrightarrow>
     live_step w token y (y\<lparr>sy_agent := s', sy_waiting := xs @ ys\<rparr>)"
| operation_advanced:
    "sy_serving y \<Longrightarrow> ag_performers (sy_agent y) = ps @ p # qs \<Longrightarrow>
     live_step w token y (y\<lparr>sy_agent := advance_performer w ps p qs (sy_agent y)\<rparr>)"
| metrics_collected:
    "sy_serving y \<Longrightarrow> live_step w token y (y\<lparr>sy_agent := (asked (sy_agent y))\<lparr>ag_metrics := m\<rparr>\<rparr>)"
| environment_edited:
    "live_step w token y (y\<lparr>sy_agent := (sy_agent y)\<lparr>ag_env := env\<rparr>\<rparr>)"

inductive agent_step :: "host_world \<Rightarrow> string option \<Rightarrow> agent_system \<Rightarrow> agent_system \<Rightarrow> bool"
  for w :: host_world and token :: "string option" where
  alive: "live_step w token y y' \<Longrightarrow> agent_step w token y y'"
| process_ended: "agent_step w token y (y\<lparr>sy_waiting := [], sy_serving := False\<rparr>)"
| process_started:
    "\<not> sy_serving y \<Longrightarrow> restart_agent w (sy_agent y) = (r, s') \<Longrightarrow>
     agent_step w token y (y\<lparr>sy_agent := s', sy_serving := (r = Inr ())\<rparr>)"

inductive_cases live_stepE: "live_step w token y y'"
inductive_cases agent_stepE: "agent_step w token y y'"

text \<open>Before its first process the host has documents and an environment file, and ran no command.\<close>

inductive agent_reachable :: "host_world \<Rightarrow> string option \<Rightarrow> agent_system \<Rightarrow> bool"
  for w :: host_world and token :: "string option" where
  off: "ag_commands s = [] \<Longrightarrow> ag_performers s = [] \<Longrightarrow>
     agent_reachable w token \<lparr>sy_agent = s, sy_waiting = [], sy_serving = False\<rparr>"
| step: "agent_reachable w token y \<Longrightarrow> agent_step w token y y' \<Longrightarrow> agent_reachable w token y'"

section \<open>What the operations leave alone\<close>

lemma asked_fields [simp]:
  "ag_documents (asked s) = ag_documents s" "ag_env (asked s) = ag_env s" "ag_active (asked s) = ag_active s"
  "ag_last (asked s) = ag_last s" "ag_performers (asked s) = ag_performers s" "ag_metrics (asked s) = ag_metrics s"
  "ag_commands (asked s) = ag_commands s" "ag_asked (asked s) = Suc (ag_asked s)"
  by (simp_all add: asked_def)

lemma write_document_frame:
  "write_document w name op s = (r, s') \<Longrightarrow>
     ag_active s' = ag_active s \<and> ag_performers s' = ag_performers s \<and> ag_commands s' = ag_commands s
     \<and> ag_env s' = ag_env s \<and> ag_last s' = ag_last s \<and> ag_metrics s' = ag_metrics s \<and> ag_asked s' = Suc (ag_asked s)"
  by (auto simp: write_document_def Let_def split: disk_answer.splits)

lemma write_document_Inr:
  "write_document w name op s = (Inr u, s') \<Longrightarrow> ag_documents s' = AList.update name (Some op) (ag_documents s)"
  by (auto simp: write_document_def Let_def split: disk_answer.splits)

lemma write_document_lost:
  "hw_disk w (ag_asked s) \<noteq> Written \<Longrightarrow> \<exists>e s'. write_document w name op s = (Inl e, s')"
  by (auto simp: write_document_def Let_def split: disk_answer.splits)

lemma write_document_written:
  "hw_disk w (ag_asked s) = Written \<Longrightarrow>
     write_document w name op s = (Inr (), (asked s)\<lparr>ag_documents := AList.update name (Some op) (ag_documents s)\<rparr>)"
  by (auto simp: write_document_def Let_def)

text \<open>What \<open>admit\<close> does when it admits, and that it changes nothing but the clock and the disk otherwise.\<close>

lemma admit_refused:
  assumes "admit w action_id name payload s = (Inl e, s')"
  shows "ag_active s' = ag_active s \<and> ag_performers s' = ag_performers s \<and> ag_commands s' = ag_commands s"
  using assms
  by (auto simp: admit_def Let_def split: option.splits if_splits sum.splits prod.splits
      dest!: write_document_frame)

lemma admit_accepted:
  assumes "admit w action_id name payload s = (Inr op, s')"
  shows "ag_active s = None \<and> cooldown name \<le> hw_clock w (ag_asked s) - ag_last s name
    \<and> ag_active s' = Some action_id \<and> ag_performers s' = ag_performers s @ [performer_at Sleeping op]
    \<and> ag_commands s' = ag_commands s \<and> od_id op = action_id \<and> od_action op = name
    \<and> (name = ''set_workers'' \<longrightarrow> (\<exists>n. od_worker_count op = Some n \<and> 1 \<le> n \<and> n \<le> 8))
    \<and> ag_documents s' = AList.update action_id (Some op) (ag_documents s)"
  using assms
  by (auto simp: admit_def Let_def new_operation_def requested_count_def performer_at_def
      split: option.splits if_splits sum.splits prod.splits
      dest: write_document_frame write_document_Inr)

section \<open>One operation at a time\<close>

text \<open>The commands a guarded operation may run.\<close>

definition confined :: "host_world \<Rightarrow> string list \<Rightarrow> bool" where
  "confined w command \<longleftrightarrow> inspects w command
     \<or> command = compose_command [''config'', ''--services'']
     \<or> (\<exists>names. command = compose_command (''restart'' # names) \<and> (\<forall>name \<in> set names. restartable name))
     \<or> (\<exists>n. 1 \<le> n \<and> n \<le> 8 \<and> command = scale_command n)"

definition performer_ok :: "performer \<Rightarrow> bool" where
  "performer_ok p \<longleftrightarrow>
     (od_action (pf_operation p) = ''set_workers'' \<longrightarrow>
        (\<exists>n. od_worker_count (pf_operation p) = Some n \<and> 1 \<le> n \<and> n \<le> 8))
     \<and> (pf_stage p = Counted \<longrightarrow> od_action (pf_operation p) = ''set_workers'')"

definition guarded :: "host_world \<Rightarrow> host_agent \<Rightarrow> bool" where
  "guarded w s \<longleftrightarrow> length (ag_performers s) \<le> 1
     \<and> (\<forall>p \<in> set (ag_performers s). ag_active s = Some (od_id (pf_operation p)) \<and> performer_ok p)
     \<and> (\<forall>command \<in> set (ag_commands s). confined w command)"

lemma run_command_frame:
  "run_command w command s = (r, s') \<Longrightarrow> ag_active s' = ag_active s \<and> ag_performers s' = ag_performers s
     \<and> ag_commands s' = ag_commands s @ [command] \<and> ag_asked s' = Suc (ag_asked s)"
  by (auto simp: run_command_def)

lemma restart_services_frame:
  assumes "restart_services w s = (r, s')"
  shows "ag_active s' = ag_active s \<and> ag_performers s' = ag_performers s \<and> ag_asked s \<le> ag_asked s'
    \<and> (\<exists>new. ag_commands s' = ag_commands s @ new \<and> (\<forall>command \<in> set new. confined w command))"
proof -
  have "confined w (compose_command [''config'', ''--services''])"
    by (simp add: confined_def)
  moreover have "confined w (compose_command (''restart'' # restart_service_names rc out))" for rc out
    using restart_names_restartable by (auto simp: confined_def)
  ultimately show ?thesis
    using assms by (auto simp: restart_services_def split: prod.splits sum.splits dest!: run_command_frame)
qed

lemma conclude_fields [simp]:
  "od_id (conclude m r op) = od_id op" "od_action (conclude m r op) = od_action op"
  "od_worker_count (conclude m r op) = od_worker_count op"
  by (simp_all add: conclude_def op_failed_def op_succeeded_def split: sum.split prod.split)

lemma op_failed_fields [simp]:
  "od_id (op_failed m op) = od_id op" "od_action (op_failed m op) = od_action op"
  "od_worker_count (op_failed m op) = od_worker_count op"
  by (simp_all add: op_failed_def)

lemma performer_at_fields [simp]: "pf_operation (performer_at st op) = op" "pf_stage (performer_at st op) = st"
  by (simp_all add: performer_at_def)

lemma update_scan_frame:
  assumes "run_update_scan w s = (r, s')"
  shows "ag_active s' = ag_active s \<and> ag_performers s' = ag_performers s \<and> ag_env s' = ag_env s
    \<and> ag_asked s \<le> ag_asked s'
    \<and> (\<exists>new. ag_commands s' = ag_commands s @ new \<and> (\<forall>command \<in> set new. confined w command))"
  using movesD [OF scanning_update_scan assms] by (auto simp: scanning_def confined_def)

lemma work_frame:
  assumes "work w op s = (p, s')" and "performer_ok (performer_at Working op)"
  shows "ag_active s' = ag_active s \<and> ag_performers s' = ag_performers s \<and> od_id (pf_operation p) = od_id op
    \<and> performer_ok p \<and> (\<exists>new. ag_commands s' = ag_commands s @ new \<and> (\<forall>command \<in> set new. confined w command))"
  using assms
  by (auto simp: work_def performer_ok_def write_worker_count_def op_succeeded_def
      split: if_splits prod.splits option.splits sum.splits dest!: restart_services_frame update_scan_frame)

lemma scale_workers_frame:
  assumes "scale_workers w op s = (p, s')" and "performer_ok (performer_at Counted op)"
  shows "ag_active s' = ag_active s \<and> ag_performers s' = ag_performers s \<and> od_id (pf_operation p) = od_id op
    \<and> performer_ok p \<and> (\<exists>new. ag_commands s' = ag_commands s @ new \<and> (\<forall>command \<in> set new. confined w command))"
proof -
  obtain n where n: "od_worker_count op = Some n" "1 \<le> n" "n \<le> 8"
    using assms(2) by (auto simp: performer_ok_def)
  have "confined w (scale_command n)"
    using n by (auto simp: confined_def)
  with assms n show ?thesis
    by (auto simp: scale_workers_def performer_ok_def Let_def split: prod.splits dest!: run_command_frame)
qed

text \<open>What one stage of a performer may change.\<close>

lemma perform_stage_frame:
  assumes "perform_stage w p s = (outcome, s')" and "performer_ok p"
  shows "ag_performers s' = ag_performers s
    \<and> (\<forall>p'. outcome = Some p' \<longrightarrow> ag_active s' = ag_active s
          \<and> od_id (pf_operation p') = od_id (pf_operation p) \<and> performer_ok p')
    \<and> (\<exists>new. ag_commands s' = ag_commands s @ new \<and> (\<forall>command \<in> set new. confined w command))"
proof (cases "pf_stage p")
  case Sleeping
  with assms show ?thesis
    by (auto simp: perform_stage_def start_stage_def Let_def performer_ok_def split: prod.splits sum.splits
        dest!: write_document_frame)
next
  case Working
  with assms have "performer_ok (performer_at Working (pf_operation p))"
    by (simp add: performer_ok_def)
  with Working assms show ?thesis
    by (auto simp: perform_stage_def split: prod.splits dest!: work_frame)
next
  case Counted
  with assms have "performer_ok (performer_at Counted (pf_operation p))"
    by (simp add: performer_ok_def)
  with Counted assms show ?thesis
    by (auto simp: perform_stage_def split: prod.splits dest!: scale_workers_frame)
next
  case Worked
  with assms show ?thesis
    by (auto simp: perform_stage_def report_stage_def Let_def performer_ok_def split: prod.splits sum.splits
        dest!: write_document_frame)
next
  case Reported
  with assms show ?thesis
    by (auto simp: perform_stage_def release_stage_def)
qed

lemma guarded_advance:
  assumes "guarded w s" and "ag_performers s = ps @ p # qs"
  shows "guarded w (advance_performer w ps p qs s)"
proof -
  obtain outcome s' where run: "perform_stage w p s = (outcome, s')"
    by (cases "perform_stage w p s")
  have alone: "ps = []" "qs = []" and p: "ag_active s = Some (od_id (pf_operation p))" "performer_ok p"
    using assms by (auto simp: guarded_def)
  note frame = perform_stage_frame [OF run p(2)]
  obtain new where new: "ag_commands s' = ag_commands s @ new" "\<forall>command \<in> set new. confined w command"
    using frame by blast
  have log: "\<forall>command \<in> set (ag_commands s'). confined w command"
    using assms(1) new(2) unfolding guarded_def new(1) by auto
  show ?thesis
  proof (cases outcome)
    case None
    with log show ?thesis
      by (simp add: guarded_def advance_performer_def run alone)
  next
    case (Some p')
    then have "ag_active s' = Some (od_id (pf_operation p'))" and "performer_ok p'"
      using frame p(1) by auto
    with log show ?thesis
      by (simp add: guarded_def advance_performer_def run alone Some)
  qed
qed

lemma guarded_admit:
  assumes "guarded w s" and "admit w action_id name payload s = (r, s')"
  shows "guarded w s'"
proof (cases r)
  case (Inl e)
  with assms show ?thesis
    using admit_refused by (fastforce simp: guarded_def)
next
  case (Inr op)
  note acc = admit_accepted [OF assms(2) [unfolded Inr]]
  have "ag_performers s = []"
    using assms(1) acc by (cases "ag_performers s") (auto simp: guarded_def)
  with acc assms(1) show ?thesis
    by (auto simp: guarded_def performer_ok_def)
qed

lemma guarded_live:
  assumes "live_step w token y y'" and "guarded w (sy_agent y)"
  shows "guarded w (sy_agent y')"
  using assms
proof cases
  case request_checked
  with assms(2) show ?thesis by simp
next
  case request_admitted
  with assms(2) show ?thesis by (auto intro: guarded_admit)
next
  case operation_advanced
  with assms(2) show ?thesis by (auto intro: guarded_advance)
qed (use assms(2) in \<open>simp_all add: guarded_def\<close>)

lemma close_interrupted_frame:
  "close_interrupted w ds s = (r, s') \<Longrightarrow> ag_active s' = ag_active s \<and> ag_performers s' = ag_performers s
     \<and> ag_commands s' = ag_commands s"
proof (induction ds arbitrary: s)
  case (Cons d ds)
  obtain name document where d: "d = (name, document)"
    by (cases d)
  consider (skipped) "close_interrupted w ds s = (r, s')"
    | (closing) op where "document = Some op" "unfinished op"
    using Cons.prems by (cases document) (auto simp: d split: if_splits)
  then show ?case
  proof cases
    case skipped
    then show ?thesis by (rule Cons.IH)
  next
    case (closing op)
    obtain r1 s1 where w1: "write_document w name (interrupted_operation w op s) (asked s) = (r1, s1)"
      by (cases "write_document w name (interrupted_operation w op s) (asked s)")
    have "r1 = Inl e \<Longrightarrow> s' = s1" and "r1 = Inr () \<Longrightarrow> close_interrupted w ds s1 = (r, s')" for e
      using Cons.prems by (simp_all add: d closing w1)
    with write_document_frame [OF w1] Cons.IH [of s1] show ?thesis
      by (cases r1) auto
  qed
qed simp

lemma guarded_restart:
  assumes "restart_agent w s = (r, s')" and "guarded w s"
  shows "guarded w s'"
  using assms close_interrupted_frame [of w _ "new_process s" r s']
  by (auto simp: restart_agent_def guarded_def new_process_def Let_def)

lemma guarded_step:
  assumes "agent_step w token y y'" and "guarded w (sy_agent y)"
  shows "guarded w (sy_agent y')"
  using assms by cases (auto intro: guarded_live guarded_restart)

lemma guarded_reachable: "agent_reachable w token y \<Longrightarrow> guarded w (sy_agent y)"
proof (induction rule: agent_reachable.induct)
  case (off s)
  then show ?case by (simp add: guarded_def)
qed (rule guarded_step)

end
