(* ===== verification/Health_Results.thy ===== *)
theory Health_Results
  imports Health_Steps "HOL-Library.Transitive_Closure_Table"
begin

text \<open>What the host agent guarantees, whatever the order of its threads and the answers of the host.\<close>

section \<open>An operation runs to its end\<close>

lemma perform_action_end: "perform_stage w p s = (None, s') \<Longrightarrow> perform_action w p s = s'"
  by (subst perform_action.simps) simp

lemma perform_action_next: "perform_stage w p s = (Some p', s') \<Longrightarrow> perform_action w p s = perform_action w p' s'"
  by (subst perform_action.simps) simp

definition concluded :: "guarded_operation \<Rightarrow> bool" where
  "concluded op \<longleftrightarrow> od_status op = ''succeeded'' \<or> od_status op = ''failed''"

lemma conclude_concluded: "concluded (conclude m r op)"
  by (simp add: concluded_def conclude_def op_failed_def op_succeeded_def split: sum.split prod.split)

lemma op_failed_concluded: "concluded (op_failed m op)" "od_status (op_failed m op) = ''failed''"
  by (simp_all add: concluded_def op_failed_def)

lemma started_fields [simp]:
  "od_started_at (conclude m r op) = od_started_at op" "od_started_at (op_failed m op) = od_started_at op"
  "od_started_at (op_succeeded m op) = od_started_at op"
  by (simp_all add: conclude_def op_failed_def op_succeeded_def split: sum.split prod.split)

text \<open>A reported success of a new worker count: the count is on file and was applied last.\<close>

definition count_applied :: "guarded_operation \<Rightarrow> host_agent \<Rightarrow> bool" where
  "count_applied op s \<longleftrightarrow> (od_action op = ''set_workers'' \<and> od_status op = ''succeeded'' \<longrightarrow>
     (\<exists>n. od_worker_count op = Some n \<and> desired_workers (ag_env s) = n
        \<and> ag_commands s \<noteq> [] \<and> last (ag_commands s) = scale_command n))"

lemma count_written:
  assumes "write_worker_count w n s = (Inr u, s')" and "1 \<le> n" and "n \<le> 8"
  shows "desired_workers (ag_env s') = n"
  using assms desired_after_write [OF unix_lines_no_CR]
  by (auto simp: write_worker_count_def split: option.splits)

lemma work_outcome:
  assumes "work w op s = (p, s')" and "performer_ok (performer_at Working op)"
  shows "od_id (pf_operation p) = od_id op \<and> od_action (pf_operation p) = od_action op
    \<and> od_worker_count (pf_operation p) = od_worker_count op
    \<and> od_started_at (pf_operation p) = od_started_at op \<and> ag_active s' = ag_active s
    \<and> ag_asked s \<le> ag_asked s'
    \<and> (pf_stage p = Worked \<and> concluded (pf_operation p) \<and> count_applied (pf_operation p) s'
       \<or> pf_stage p = Counted \<and> performer_ok p \<and> desired_workers (ag_env s') = the (od_worker_count op))"
proof -
  consider (restart) "od_action op = ''restart_auth''" | (count) n where "od_action op = ''set_workers''"
      "od_worker_count op = Some n" "1 \<le> n" "n \<le> 8"
    | (scan) "od_action op = ''check_updates''"
    | (other) "od_action op \<notin> {''restart_auth'', ''set_workers'', ''check_updates''}"
    using assms(2) by (auto simp: performer_ok_def)
  then show ?thesis
  proof cases
    case restart
    with assms show ?thesis
      by (auto simp: work_def conclude_concluded count_applied_def split: prod.splits
          dest!: restart_services_frame)
  next
    case (count n)
    show ?thesis
    proof (cases "write_worker_count w n s")
      case (Pair r s1)
      then have "ag_active s1 = ag_active s" and "ag_asked s \<le> ag_asked s1"
        by (auto simp: write_worker_count_def split: option.splits)
      with assms count Pair show ?thesis
        by (cases r) (auto simp: work_def op_failed_concluded count_applied_def performer_ok_def dest: count_written)
    qed
  next
    case scan
    obtain r s1 where run: "run_update_scan w s = (r, s1)"
      by fastforce
    with assms scan update_scan_frame [OF run] show ?thesis
      by (cases r) (auto simp: work_def count_applied_def op_failed_concluded concluded_def op_succeeded_def)
  next
    case other
    with assms show ?thesis
      by (auto simp: work_def count_applied_def op_failed_concluded)
  qed
qed

lemma scale_outcome:
  assumes "scale_workers w op s = (p, s')" and "performer_ok (performer_at Counted op)"
    and "desired_workers (ag_env s) = the (od_worker_count op)"
  shows "od_id (pf_operation p) = od_id op \<and> od_action (pf_operation p) = od_action op
    \<and> od_started_at (pf_operation p) = od_started_at op \<and> ag_active s' = ag_active s
    \<and> ag_asked s \<le> ag_asked s' \<and> pf_stage p = Worked \<and> concluded (pf_operation p) \<and> count_applied (pf_operation p) s'"
  using assms
  by (auto simp: scale_workers_def run_command_def Let_def conclude_concluded count_applied_def performer_ok_def)

definition closes :: "guarded_operation \<Rightarrow> host_agent \<Rightarrow> bool" where
  "closes op t \<longleftrightarrow> ag_active t = None
     \<and> (\<exists>d. map_of (ag_documents t) (od_id op) = Some (Some d) \<and> od_action d = od_action op
         \<and> concluded d \<and> od_started_at d \<noteq> None \<and> od_finished_at d \<noteq> None \<and> count_applied d t)"

text \<open>A document of the operation could not be written while it was performed: the lock is not freed.\<close>

definition left_locked :: "host_world \<Rightarrow> guarded_operation \<Rightarrow> host_agent \<Rightarrow> host_agent \<Rightarrow> bool" where
  "left_locked w op s t \<longleftrightarrow> ag_active t = Some (od_id op)
     \<and> (\<exists>n. ag_asked s \<le> n \<and> n < ag_asked t \<and> hw_disk w n \<noteq> Written)"

lemma left_locked_earlier: "left_locked w op s' t \<Longrightarrow> ag_asked s \<le> ag_asked s' \<Longrightarrow> left_locked w op s t"
  by (auto simp: left_locked_def intro: order_trans)

lemma lost_left_locked:
  assumes "perform_stage w p s = (None, s')" and "ag_active s' = Some (od_id op)"
    and "hw_disk w n \<noteq> Written" and "ag_asked s \<le> n" and "n < ag_asked s'"
  shows "left_locked w op s (perform_action w p s)"
  using assms by (auto simp: left_locked_def perform_action_end)

lemma report_ends:
  assumes "ag_active s = Some (od_id op)"
    and "concluded op" and "od_started_at op \<noteq> None" and "count_applied op s"
  shows "closes op (perform_action w (performer_at Worked op) s)
    \<or> left_locked w op s (perform_action w (performer_at Worked op) s)"
proof (cases "hw_disk w (Suc (ag_asked s)) = Written")
  case True
  let ?op = "op\<lparr>od_finished_at := Some (hw_utc w (ag_asked s))\<rparr>"
  let ?s = "(asked (asked s))\<lparr>ag_documents := AList.update (od_id op) (Some ?op) (ag_documents s)\<rparr>"
  have "perform_stage w (performer_at Worked op) s = (Some (performer_at Reported ?op), ?s)"
    using True by (simp add: perform_stage_def report_stage_def Let_def write_document_written)
  moreover have "perform_stage w (performer_at Reported ?op) ?s = (None, ?s\<lparr>ag_active := None\<rparr>)"
    using assms(1) by (simp add: perform_stage_def release_stage_def)
  ultimately have "perform_action w (performer_at Worked op) s = ?s\<lparr>ag_active := None\<rparr>"
    by (simp add: perform_action_next perform_action_end)
  with assms show ?thesis
    by (auto simp: closes_def update_conv' concluded_def count_applied_def)
next
  case False
  then obtain s' where "perform_stage w (performer_at Worked op) s = (None, s')"
      "ag_active s' = ag_active s" "ag_asked s' = Suc (Suc (ag_asked s))"
    by (cases "hw_disk w (Suc (ag_asked s))")
      (auto simp: perform_stage_def report_stage_def write_document_def Let_def)
  with False assms(1) show ?thesis
    using lost_left_locked [of w "performer_at Worked op" s s' op "Suc (ag_asked s)"] by simp
qed

lemma reported_performer_ends:
  assumes "pf_stage p = Worked" and "ag_active s = Some (od_id (pf_operation p))"
    and "concluded (pf_operation p)" and "od_started_at (pf_operation p) \<noteq> None"
    and "count_applied (pf_operation p) s"
  shows "closes (pf_operation p) (perform_action w p s) \<or> left_locked w (pf_operation p) s (perform_action w p s)"
proof -
  have "p = performer_at Worked (pf_operation p)"
    using assms(1) by (simp add: performer_at_def)
  then show ?thesis
    using report_ends [OF assms(2-5), of w] by metis
qed

lemma perform_action_ends:
  assumes "ag_active s = Some (od_id op)" and "performer_ok (performer_at Sleeping op)"
  shows "closes op (perform_action w (performer_at Sleeping op) s)
    \<or> left_locked w op s (perform_action w (performer_at Sleeping op) s)"
proof (cases "hw_disk w (Suc (ag_asked s)) = Written")
  case False
  then obtain s' where "perform_stage w (performer_at Sleeping op) s = (None, s')"
      "ag_active s' = ag_active s" "ag_asked s' = Suc (Suc (ag_asked s))"
    by (cases "hw_disk w (Suc (ag_asked s))")
      (auto simp: perform_stage_def start_stage_def write_document_def Let_def)
  with False assms(1) show ?thesis
    using lost_left_locked [of w "performer_at Sleeping op" s s' op "Suc (ag_asked s)"] by simp
next
  case True
  then obtain op1 s1 where 1: "perform_stage w (performer_at Sleeping op) s = (Some (performer_at Working op1), s1)"
    and op1: "od_id op1 = od_id op" "od_action op1 = od_action op" "od_worker_count op1 = od_worker_count op"
      "od_started_at op1 \<noteq> None" and s1: "ag_active s1 = Some (od_id op)" "ag_asked s \<le> ag_asked s1"
    using assms(1) by (auto simp: perform_stage_def start_stage_def Let_def write_document_written)
  obtain p2 s2 where 2: "work w op1 s1 = (p2, s2)"
    by (cases "work w op1 s1")
  have ok: "performer_ok (performer_at Working op1)"
    using assms(2) op1 by (simp add: performer_ok_def)
  note out = work_outcome [OF 2 ok]
  have first: "perform_action w (performer_at Sleeping op) s = perform_action w p2 s2"
    using 1 2 by (simp add: perform_action_next perform_stage_def)
  have renamed: "closes op t \<or> left_locked w op s t"
    if "closes op' t \<or> left_locked w op' s' t" "od_id op' = od_id op" "od_action op' = od_action op" "ag_asked s \<le> ag_asked s'"
    for op' s' t
    using that left_locked_earlier [of w op s' t s] by (auto simp: closes_def left_locked_def)
  show ?thesis
  proof (cases "pf_stage p2 = Worked")
    case True
    then have "closes (pf_operation p2) (perform_action w p2 s2) \<or> left_locked w (pf_operation p2) s2 (perform_action w p2 s2)"
      using out s1 op1 by (intro reported_performer_ends) auto
    then show ?thesis
      unfolding first using out op1 s1
      by (intro renamed [where op' = "pf_operation p2" and s' = s2]) auto
  next
    case False
    then have counted: "pf_stage p2 = Counted" and ok2: "performer_ok p2"
      and env: "desired_workers (ag_env s2) = the (od_worker_count op1)"
      using out by auto
    obtain p3 s3 where 3: "scale_workers w (pf_operation p2) s2 = (p3, s3)"
      by (cases "scale_workers w (pf_operation p2) s2")
    have ok3: "performer_ok (performer_at Counted (pf_operation p2))"
      using ok2 counted by (simp add: performer_ok_def)
    have env3: "desired_workers (ag_env s2) = the (od_worker_count (pf_operation p2))"
      using env out by simp
    note out3 = scale_outcome [OF 3 ok3 env3]
    have next3: "perform_action w p2 s2 = perform_action w p3 s3"
      using 3 counted by (simp add: perform_action_next perform_stage_def)
    have "closes (pf_operation p3) (perform_action w p3 s3) \<or> left_locked w (pf_operation p3) s3 (perform_action w p3 s3)"
      using out out3 s1 op1 by (intro reported_performer_ends) auto
    then show ?thesis
      unfolding first next3 using out out3 op1 s1
      by (intro renamed [where op' = "pf_operation p3" and s' = s3]) auto
  qed
qed

text \<open>
  C31. An operation the agent admits, performed to its end with no other thread in between:
  the lock is free again and the operation's document says that it succeeded or failed, with
  the times it started and finished; when it says that a worker count was set, the environment
  file asks for that count and the last command scaled the stack to it. The one way out of this
  is a disk that refused a write on the way; then the operation keeps the lock.
\<close>

theorem admitted_operation_finishes:
  assumes "admit w action_id name payload s = (Inr op, s')"
    and "t = perform_action w (performer_at Sleeping op) s'"
  shows "(ag_active t = None
      \<and> (\<exists>d. map_of (ag_documents t) action_id = Some (Some d)
           \<and> od_action d = name \<and> (od_status d = ''succeeded'' \<or> od_status d = ''failed'')
           \<and> od_started_at d \<noteq> None \<and> od_finished_at d \<noteq> None
           \<and> (name = ''set_workers'' \<and> od_status d = ''succeeded'' \<longrightarrow>
               (\<exists>n. od_worker_count d = Some n \<and> desired_workers (ag_env t) = n
                  \<and> last (ag_commands t) = scale_command n))))
    \<or> (ag_active t = Some action_id
      \<and> (\<exists>n. ag_asked s' \<le> n \<and> n < ag_asked t \<and> hw_disk w n \<noteq> Written))"
proof -
  note acc = admit_accepted [OF assms(1)]
  then have "closes op t \<or> left_locked w op s' t"
    unfolding assms(2) by (intro perform_action_ends) (auto simp: performer_ok_def)
  with acc show ?thesis
    by (auto simp: closes_def left_locked_def concluded_def count_applied_def)
qed

section \<open>Every interleaving\<close>

text \<open>
  C29. However requests, operations, collections, edits of the environment file and ends
  and starts of the process interleave, at most one guarded operation is being performed,
  and it holds the lock under its own id.
\<close>

theorem guarded_operations_exclusive:
  assumes "agent_reachable w token y"
  shows "length (ag_performers (sy_agent y)) \<le> 1
    \<and> (\<forall>p \<in> set (ag_performers (sy_agent y)). ag_active (sy_agent y) = Some (od_id (pf_operation p)))"
  using guarded_reachable [OF assms] by (auto simp: guarded_def)

text \<open>
  C30. Whatever is requested, the guarded operations only ever list the services of the
  stack, restart services of Alliance Auth and nginx, scale the workers to a count from 1 to 8,
  and run the commands of the update scan, each of which looks and changes nothing: package
  lists fetched into the scan's own directory, a simulated upgrade, the packages of the Auth
  container, the configuration of the stack, and the digests of its images.
\<close>

theorem agent_commands_confined:
  assumes "agent_reachable w token y" and "command \<in> set (ag_commands (sy_agent y))"
  shows "command = [''docker'', ''compose'', ''--env-file=.env'', ''config'', ''--services'']
    \<or> (\<exists>names. command = [''docker'', ''compose'', ''--env-file=.env'', ''restart''] @ names
         \<and> (\<forall>name \<in> set names. name = ''nginx'' \<or> auth_service name))
    \<or> (\<exists>n. 1 \<le> n \<and> n \<le> 8 \<and> command = [''docker'', ''compose'', ''--env-file=.env'', ''up'', ''-d'', ''--no-deps'',
         ''--scale'', ''allianceauth_worker='' @ show_int n, ''allianceauth_worker''])
    \<or> inspects w command"
proof -
  have "confined w command"
    using guarded_reachable [OF assms(1)] assms(2) by (auto simp: guarded_def)
  then show ?thesis
    by (auto simp: confined_def restartable_def compose_command_def scale_command_def)
qed

text \<open>An operation whose thread died: the lock stays with it until the process starts anew.\<close>

definition orphaned :: "string \<Rightarrow> host_agent \<Rightarrow> bool" where
  "orphaned action_id s \<longleftrightarrow> ag_active s = Some action_id \<and> ag_performers s = []"

lemma admit_orphaned: "orphaned action_id s \<Longrightarrow> \<exists>e. admit w i name payload s = (Inl e, s)"
  by (auto simp: orphaned_def admit_def)

lemma orphaned_live:
  assumes "live_step w token y y'" and "orphaned action_id (sy_agent y)"
  shows "orphaned action_id (sy_agent y')"
  using assms(1)
proof cases
  case (request_admitted xs i name payload ys r s')
  then show ?thesis
    using admit_orphaned [OF assms(2), of w i name payload] assms(2) by auto
qed (use assms(2) in \<open>auto simp: orphaned_def\<close>)

lemma orphaned_always:
  "(live_step w token)\<^sup>*\<^sup>* y z \<Longrightarrow> orphaned action_id (sy_agent y) \<Longrightarrow> orphaned action_id (sy_agent z)"
  by (induction rule: rtranclp_induct) (auto intro: orphaned_live)

lemma lost_write_ends_performer:
  assumes "pf_stage p = Sleeping \<or> pf_stage p = Worked" and "hw_disk w (Suc (ag_asked s)) \<noteq> Written"
  obtains s' where "perform_stage w p s = (None, s')" and "ag_active s' = ag_active s"
  using assms
  by (cases "hw_disk w (Suc (ag_asked s))")
    (auto simp: perform_stage_def start_stage_def report_stage_def write_document_def Let_def)

text \<open>
  A status the agent cannot write is never made good: when the first or the last
  document of the operation being performed cannot be written, its thread ends with the
  lock held, and until the process starts anew every guarded operation is refused.
\<close>

theorem lost_status_refuses_operations:
  assumes "agent_reachable w token y" and "sy_serving y" and "ag_performers (sy_agent y) = [p]"
    and "pf_stage p = Sleeping \<or> pf_stage p = Worked"
    and "hw_disk w (Suc (ag_asked (sy_agent y))) \<noteq> Written"
  shows "live_step w token y (y\<lparr>sy_agent := advance_performer w [] p [] (sy_agent y)\<rparr>)
    \<and> (\<forall>z. (live_step w token)\<^sup>*\<^sup>* (y\<lparr>sy_agent := advance_performer w [] p [] (sy_agent y)\<rparr>) z \<longrightarrow>
         ag_performers (sy_agent z) = []
         \<and> (\<forall>action_id name payload. \<exists>e. admit w action_id name payload (sy_agent z) = (Inl e, sy_agent z)))"
proof -
  let ?y = "y\<lparr>sy_agent := advance_performer w [] p [] (sy_agent y)\<rparr>"
  obtain s' where "perform_stage w p (sy_agent y) = (None, s')" and "ag_active s' = ag_active (sy_agent y)"
    using lost_write_ends_performer [OF assms(4,5)] .
  moreover have "ag_active (sy_agent y) = Some (od_id (pf_operation p))"
    using guarded_reachable [OF assms(1)] assms(3) by (simp add: guarded_def)
  ultimately have start: "orphaned (od_id (pf_operation p)) (sy_agent ?y)"
    by (simp add: orphaned_def advance_performer_def)
  have "live_step w token y ?y"
    using assms(2,3) by (intro operation_advanced) simp_all
  moreover have "orphaned (od_id (pf_operation p)) (sy_agent z)" if "(live_step w token)\<^sup>*\<^sup>* ?y z" for z
    using that start by (rule orphaned_always)
  ultimately show ?thesis
    using admit_orphaned orphaned_def by metis
qed

section \<open>Requests made again, and a process that starts anew\<close>

lemma accepted_on_file:
  assumes "accept_action w payload s = (Inr op, s')"
  shows "accept_action w payload s' = (Inr op, s')"
proof (cases "check_request w payload s")
  case (Inl e)
  with assms show ?thesis by (simp add: accept_action_def)
next
  case (Inr c)
  show ?thesis
  proof (cases c)
    case (Existing op')
    with Inr assms show ?thesis by (auto simp: accept_action_def)
  next
    case (Admissible action_id name)
    then have "admit w action_id name payload s = (Inr op, s')"
      using Inr assms by (simp add: accept_action_def)
    note acc = admit_accepted [OF this]
    have "read_action action_id s' = Some op"
      using acc Inr Admissible
      by (auto simp: read_action_def update_conv' check_request_def Let_def split: if_splits option.splits)
    then have "check_request w payload s' = Inr (Existing op)"
      using Inr Admissible by (auto simp: check_request_def Let_def split: if_splits option.splits)
    then show ?thesis
      by (simp add: accept_action_def)
  qed
qed

text \<open>
  C32. A request for a guarded operation that was answered with the operation can be sent
  again: it gets the same answer, starts nothing and changes nothing.
\<close>

theorem repeated_request_idempotent:
  assumes "handle_request w token payload s = (Inr (Operation op), s')"
  shows "handle_request w token payload s' = (Inr (Operation op), s')"
proof -
  have served: "token_refusal w token payload = None" "serve w payload s = (Inr (Operation op), s')"
  proof -
    show none: "token_refusal w token payload = None"
      using assms by (auto simp: handle_request_def token_refusal_def Let_def split: option.splits if_splits)
    show "serve w payload s = (Inr (Operation op), s')"
      using assms none by (simp add: handle_request_def)
  qed
  have "serve w payload s' = (Inr (Operation op), s')"
  proof (cases "get_key payload ''operation'' = PStr ''action''")
    case True
    then have "accept_action w payload s = (Inr op, s')"
      using served(2) by (auto simp: serve_def refusal_def split: prod.splits sum.splits if_splits)
    from accepted_on_file [OF this] True show ?thesis
      by (simp add: serve_def)
  next
    case False
    with served(2) show ?thesis
      by (auto simp: serve_def refusal_def split: if_splits option.splits sum.splits)
  qed
  with served(1) show ?thesis
    by (simp add: handle_request_def)
qed

lemma close_interrupted_documents:
  assumes "close_interrupted w ds s = (Inr (), s')"
  shows "if \<exists>op. (name, Some op) \<in> set ds \<and> unfinished op
         then \<exists>op'. map_of (ag_documents s') name = Some (Some op') \<and> od_status op' = ''failed''
         else map_of (ag_documents s') name = map_of (ag_documents s) name"
  using assms
proof (induction ds arbitrary: s)
  case (Cons d ds)
  obtain n document where d: "d = (n, document)"
    by (cases d)
  consider (skipped) "close_interrupted w ds s = (Inr (), s')" "\<nexists>op. document = Some op \<and> unfinished op"
    | (closing) op where "document = Some op" "unfinished op"
    using Cons.prems by (cases document) (auto simp: d split: if_splits)
  then show ?case
  proof cases
    case skipped
    with Cons.IH [OF skipped(1)] show ?thesis
      by (auto simp: d split: if_splits)
  next
    case (closing op)
    obtain s1 where w1: "write_document w n (interrupted_operation w op s) (asked s) = (Inr (), s1)"
      and rest: "close_interrupted w ds s1 = (Inr (), s')"
      using Cons.prems by (auto simp: d closing split: prod.splits sum.splits)
    have docs: "map_of (ag_documents s1) = (map_of (ag_documents s))(n \<mapsto> Some (interrupted_operation w op s))"
      by (simp add: write_document_Inr [OF w1] update_conv')
    have failed: "od_status (interrupted_operation w op s) = ''failed''"
      by (simp add: interrupted_operation_def)
    show ?thesis
      using Cons.IH [OF rest] docs failed closing by (auto simp: d split: if_splits)
  qed
qed simp

text \<open>
  C33. After a start of the agent that succeeds no operation is on file as accepted or
  running: those that were are failed, and the document of every other operation is as
  it was.
\<close>

theorem restart_closes_interrupted:
  assumes "restart_agent w s = (Inr (), s')" and "distinct (map fst (ag_documents s))"
    and "map_of (ag_documents s) name = Some (Some op)"
  shows "if od_status op = ''accepted'' \<or> od_status op = ''running''
    then \<exists>op'. map_of (ag_documents s') name = Some (Some op') \<and> od_status op' = ''failed''
    else map_of (ag_documents s') name = Some (Some op)"
proof -
  have docs: "ag_documents (new_process s) = ag_documents s"
    by (simp add: new_process_def)
  have "(name, Some op') \<in> set (ag_documents s) \<longleftrightarrow> op' = op" for op'
    using map_of_eq_Some_iff [OF assms(2)] assms(3) by (metis option.inject)
  then show ?thesis
    using close_interrupted_documents [of w "ag_documents s" "new_process s" s' name] assms
    by (auto simp: restart_agent_def Let_def docs unfinished_def split: if_splits)
qed

section \<open>The worker count\<close>

text \<open>
  The worker count written to the environment file is the count read back from it;
  every line but the first that sets the count stays as it was when there is one.
\<close>

theorem worker_count_roundtrip:
  assumes "write_worker_count w count s = (Inr (), s')" and "1 \<le> count" and "count \<le> 8"
  shows "desired_workers (ag_env s') = count
    \<and> (\<exists>old new. ag_env s = Some old \<and> ag_env s' = Some new
         \<and> (list_ex is_count_line (segments (unix_lines old)) \<longrightarrow>
              segments new = replace_first is_count_line (count_line count) (segments (unix_lines old))))"
proof -
  obtain old where "ag_env s = Some old" and "ag_env s' = Some (with_worker_count count (unix_lines old))"
    using assms(1) by (auto simp: write_worker_count_def split: option.splits)
  then show ?thesis
    using count_written [OF assms] with_worker_count_segments [OF _ assms(2,3)] by simp
qed

end
