(* ===== verification/Health_Requests.thy ===== *)
theory Health_Requests
  imports Health_Console Health_Results
begin

text \<open>What a director's request comes to, on the console and at the agent.\<close>

section \<open>A started operation\<close>

lemma read_reply_Reply:
  "read_reply shown t = Inr response \<Longrightarrow> t = Reply response \<and> truthy (get_key response ''ok'')"
  by (auto simp: read_reply_def split: transport.splits if_splits)

lemma read_reply_unavailable: "read_reply shown t = Inl e \<Longrightarrow> ex_class e = ''AgentUnavailable''"
  by (auto simp: read_reply_def agent_unavailable_def plain_error_def split: transport.splits if_splits)

lemma request_agent_frame:
  "request_agent w payload s = (r, s') \<Longrightarrow> cs_actions s' = cs_actions s \<and> cs_config s' = cs_config s
     \<and> (\<forall>e. r = Inl e \<longrightarrow> ex_class e = ''AgentUnavailable'')"
  by (auto simp: request_agent_def Let_def split: option.splits link.splits prod.splits dest!: read_reply_unavailable)

lemma answer_json_operation:
  assumes "answer_json r = Reply response" and "accepted_fields w default_message response = Inr (i, message)"
  obtains op where "r = Inr (Operation op)" and "i = od_id op" and "message = od_message op"
proof -
  obtain x where r: "r = Inr x"
    using assms(1) by (cases r) (auto simp: answer_json_def)
  show thesis
  proof (cases x)
    case (Operation op)
    then have "response = [(''ok'', PBool True), (''action'', PDict (operation_json op))]"
      using assms(1) r by (simp add: answer_json_def)
    with assms(2) have "i = od_id op" and "message = od_message op"
      by (simp_all add: accepted_fields_def get_key_def operation_json_def as_text_def)
    with r Operation that show thesis by blast
  qed (use assms r in \<open>auto simp: answer_json_def accepted_fields_def get_key_def\<close>)
qed

text \<open>The exchange behind an accepted submission.\<close>

lemma submitted:
  assumes "submit_action w action_id name requester worker_count s = (Inr response, s')"
    and "accepted_fields w default_message response = Inr (i, message)"
  obtains op payload where "handle_request (cw_host w) (cw_agent_token w) payload (cs_agent s) = (Inr (Operation op), cs_agent s')"
    and "payload = (''token'', PStr (strip_text (the (cw_client_token w))))
         # [(''operation'', PStr ''action''), (''action_id'', PStr action_id), (''action'', PStr name),
            (''requester'', PStr (take 150 requester)), (''worker_count'', optional_int worker_count)]"
    and "i = od_id op" and "cw_link w (cs_exchanges s) = Connected"
proof -
  obtain content where token: "cw_client_token w = Some content"
    using assms(1) by (cases "cw_client_token w") (auto simp: submit_action_def request_agent_def read_reply_def)
  define payload where "payload = (''token'', PStr (strip_text content))
         # [(''operation'', PStr ''action''), (''action_id'', PStr action_id), (''action'', PStr name),
            (''requester'', PStr (take 150 requester)), (''worker_count'', optional_int worker_count)]"
  obtain r agent where run: "handle_request (cw_host w) (cw_agent_token w) payload (cs_agent s) = (r, agent)"
    by (cases "handle_request (cw_host w) (cw_agent_token w) payload (cs_agent s)")
  have "cw_link w (cs_exchanges s) = Connected \<and> answer_json r = Reply response \<and> cs_agent s' = agent"
    using assms(1) run
    by (auto simp: submit_action_def request_agent_def Let_def token payload_def [symmetric]
        split: link.splits dest!: read_reply_Reply)
  then show thesis
    using answer_json_operation [OF _ assms(2)] that run by (metis payload_def token option.sel)
qed

lemma launched:
  assumes "launch w kind target default_message user username s = (Inr (Started a), s')"
  obtains op payload where
      "handle_request (cw_host w) (cw_agent_token w) payload (cs_agent s) = (Inr (Operation op), cs_agent s')"
    and "payload = (''token'', PStr (strip_text (the (cw_client_token w))))
         # [(''operation'', PStr ''action''), (''action_id'', PStr (ha_id a)), (''action'', PStr (action_name kind)),
            (''requester'', PStr (take 150 username)), (''worker_count'', optional_int target)]"
    and "ha_agent_action_id a = od_id op" and "ha_status a = Accepted" and "ha_id a = cw_uuid w (length (cs_actions s))"
    and "a \<in> set (cs_actions s')" and "cw_link w (cs_exchanges s) = Connected"
proof -
  let ?new = "new_action w kind target user s"
  let ?s1 = "s\<lparr>cs_actions := cs_actions s @ [?new]\<rparr>"
  obtain r s2 where sub: "submit_action w (ha_id ?new) (action_name kind) username target ?s1 = (r, s2)"
    by (cases "submit_action w (ha_id ?new) (action_name kind) username target ?s1")
  obtain response where r: "r = Inr response"
    using assms sub by (cases r) (auto simp: launch_def Let_def split: if_splits)
  obtain i message where acc: "accepted_fields w default_message response = Inr (i, message)"
    and a: "a = ?new\<lparr>ha_agent_action_id := i, ha_status := Accepted, ha_message := message\<rparr>"
    and s': "s' = write_action a s2"
    using assms sub r by (auto simp: launch_def Let_def split: sum.splits)
  have "cs_actions s2 = cs_actions s @ [?new]"
    using request_agent_frame [of w _ ?s1 r s2] sub by (simp add: submit_action_def)
  then have "a \<in> set (cs_actions s')"
    by (auto simp: s' a write_action_def new_action_def)
  moreover have "cs_agent s' = cs_agent s2" and "ha_id a = ha_id ?new"
    by (simp_all add: s' a write_action_def)
  moreover have "ha_status a = Accepted" and "ha_agent_action_id a = i"
    by (simp_all add: a)
  moreover have "ha_id ?new = cw_uuid w (length (cs_actions s))"
    by (simp add: new_action_def)
  moreover obtain op payload where
      "handle_request (cw_host w) (cw_agent_token w) payload (cs_agent ?s1) = (Inr (Operation op), cs_agent s2)"
    and "payload = (''token'', PStr (strip_text (the (cw_client_token w))))
         # [(''operation'', PStr ''action''), (''action_id'', PStr (ha_id ?new)), (''action'', PStr (action_name kind)),
            (''requester'', PStr (take 150 username)), (''worker_count'', optional_int target)]"
    and "i = od_id op" and "cw_link w (cs_exchanges ?s1) = Connected"
    by (rule submitted [OF sub [unfolded r] acc])
  ultimately show thesis
    by (intro that) simp_all
qed

lemma requested_admission:
  assumes "handle_request w token payload s = (Inr (Operation op), s')"
    and "get_key payload ''operation'' = PStr ''action''" and "get_key payload ''action_id'' = PStr i"
    and "get_key payload ''action'' = PStr name" and "name \<noteq> ''''" and "i \<noteq> ''''" and "read_action i s = None"
  shows "admit w i name payload s = (Inr op, s')"
proof -
  have "accept_action w payload s = (Inr op, s')"
    using assms(1,2) by (auto simp: handle_request_def serve_def token_refusal_def refusal_def Let_def
        split: option.splits sum.splits prod.splits if_splits)
  with assms(3-) show ?thesis
    by (auto simp: accept_action_def check_request_def text_or_blank_def Let_def split: if_splits)
qed

lemma launched_admission:
  assumes "launch w Set_Workers (Some count) default_message user username s = (Inr (Started a), s')"
    and "read_action (cw_uuid w (length (cs_actions s))) (cs_agent s) = None"
    and "cw_uuid w (length (cs_actions s)) \<noteq> ''''"
  obtains op where "od_action op = ''set_workers''" and "od_worker_count op = Some count" and "od_id op = ha_id a"
    and "1 \<le> count" and "count \<le> 8" and "ag_active (cs_agent s') = Some (ha_id a)"
    and "performer_at Sleeping op \<in> set (ag_performers (cs_agent s'))" and "ha_agent_action_id a = ha_id a"
    and "ha_status a = Accepted" and "a \<in> set (cs_actions s')"
proof -
  obtain op payload where run: "handle_request (cw_host w) (cw_agent_token w) payload (cs_agent s) = (Inr (Operation op), cs_agent s')"
    and payload: "payload = (''token'', PStr (strip_text (the (cw_client_token w))))
         # [(''operation'', PStr ''action''), (''action_id'', PStr (ha_id a)), (''action'', PStr (action_name Set_Workers)),
            (''requester'', PStr (take 150 username)), (''worker_count'', optional_int (Some count))]"
    and a: "ha_agent_action_id a = od_id op" "ha_status a = Accepted" "ha_id a = cw_uuid w (length (cs_actions s))"
      "a \<in> set (cs_actions s')"
    by (rule launched [OF assms(1)])
  have adm: "admit (cw_host w) (ha_id a) ''set_workers'' payload (cs_agent s) = (Inr op, cs_agent s')"
    by (rule requested_admission [OF run]) (use assms(2,3) a(3) in \<open>simp_all add: payload get_key_def action_name_def\<close>)
  note acc = admit_accepted [OF adm]
  have "od_worker_count op = Some count"
    using adm
    by (auto simp: admit_def Let_def payload get_key_def optional_int_def requested_count_def new_operation_def
        split: option.splits if_splits sum.splits prod.splits)
  with a acc show thesis
    by (intro that) auto
qed

text \<open>
  A request for workers that the console reports as started was permitted and within
  the configured range; the host agent admitted exactly that operation under the
  action's own id, with that count and within its hard range, and holds its lock for it.
\<close>

theorem started_workers_admitted:
  assumes "set_workers w user username count_text s = (Inr (Started a), s')"
    and "read_action (cw_uuid w (length (cs_actions s))) (cs_agent s) = None"
    and "cw_uuid w (length (cs_actions s)) \<noteq> ''''"
  shows "has_permission user ''scale_workers''
    \<and> (\<exists>count op. int_of_text count_text = Some count
         \<and> hc_worker_minimum (cs_config s) \<le> count \<and> count \<le> hc_worker_maximum (cs_config s)
         \<and> 1 \<le> count \<and> count \<le> 8
         \<and> od_action op = ''set_workers'' \<and> od_worker_count op = Some count \<and> od_id op = ha_id a
         \<and> ag_active (cs_agent s') = Some (ha_id a)
         \<and> performer_at Sleeping op \<in> set (ag_performers (cs_agent s')))
    \<and> ha_status a = Accepted \<and> ha_agent_action_id a = ha_id a \<and> a \<in> set (cs_actions s')"
proof -
  obtain count where perm: "has_permission user ''scale_workers''" "int_of_text count_text = Some count"
      "hc_worker_minimum (cs_config s) \<le> count" "count \<le> hc_worker_maximum (cs_config s)"
    and go: "launch w Set_Workers (Some count) ''Scaling accepted.'' user username s = (Inr (Started a), s')"
    using assms(1) by (auto simp: set_workers_def split: if_splits option.splits)
  show ?thesis
    by (rule launched_admission [OF go assms(2,3)]) (use perm in blast)
qed

section \<open>A lost answer\<close>

definition losing :: "console_world \<Rightarrow> nat \<Rightarrow> string \<Rightarrow> console_world" where
  "losing w n reason = w\<lparr>cw_link := (cw_link w)(n := Answer_Lost reason)\<rparr>"

lemma losing_fields [simp]:
  "cw_host (losing w n reason) = cw_host w" "cw_client_token (losing w n reason) = cw_client_token w"
  "cw_agent_token (losing w n reason) = cw_agent_token w" "cw_uuid (losing w n reason) = cw_uuid w"
  "cw_link (losing w n reason) n = Answer_Lost reason" "cw_now (losing w n reason) = cw_now w"
  by (simp_all add: losing_def)

lemma lost_launch:
  assumes "launch w kind target default_message user username s = (Inr (Started a), s')"
  obtains t b where "launch (losing w (cs_exchanges s) reason) kind target default_message user username s
      = (Inr (Answered 503 (''Host agent is unavailable: '' @ reason)), t)"
    and "cs_agent t = cs_agent s'" and "b \<in> set (cs_actions t)" and "ha_id b = ha_id a" and "ha_status b = Failed"
    and "ha_agent_action_id b = ''''"
proof -
  let ?w = "losing w (cs_exchanges s) reason"
  obtain op payload where run: "handle_request (cw_host w) (cw_agent_token w) payload (cs_agent s) = (Inr (Operation op), cs_agent s')"
    and payload: "payload = (''token'', PStr (strip_text (the (cw_client_token w))))
         # [(''operation'', PStr ''action''), (''action_id'', PStr (ha_id a)), (''action'', PStr (action_name kind)),
            (''requester'', PStr (take 150 username)), (''worker_count'', optional_int target)]"
    and a: "ha_id a = cw_uuid w (length (cs_actions s))"
    by (rule launched [OF assms])
  obtain content where token: "cw_client_token w = Some content"
    using assms by (cases "cw_client_token w")
      (auto simp: launch_def submit_action_def request_agent_def read_reply_def agent_unavailable_def plain_error_def Let_def)
  let ?new = "new_action ?w kind target user s"
  have new: "ha_id ?new = ha_id a" "ha_agent_action_id ?new = ''''"
    by (simp_all add: new_action_def a)
  let ?failed = "?new\<lparr>ha_status := Failed, ha_message := ''Host agent is unavailable: '' @ reason,
      ha_finished_at := Some (cw_now w (cs_times s))\<rparr>"
  let ?s1 = "s\<lparr>cs_actions := cs_actions s @ [?new]\<rparr>"
  let ?s2 = "?s1\<lparr>cs_exchanges := Suc (cs_exchanges s), cs_agent := cs_agent s'\<rparr>"
  have "submit_action ?w (ha_id ?new) (action_name kind) username target ?s1
      = (Inl (agent_unavailable (''Host agent is unavailable: '' @ reason)), ?s2)"
    using run by (simp add: submit_action_def request_agent_def token new payload Let_def read_reply_def)
  then have eq: "launch ?w kind target default_message user username s
      = (Inr (Answered 503 (''Host agent is unavailable: '' @ reason)),
         write_action ?failed (?s2\<lparr>cs_times := Suc (cs_times s)\<rparr>))"
    by (simp add: launch_def Let_def agent_unavailable_def plain_error_def)
  have mem: "?failed \<in> set (cs_actions (write_action ?failed (?s2\<lparr>cs_times := Suc (cs_times s)\<rparr>)))"
    by (auto simp: write_action_def)
  show thesis
    by (rule that [OF eq _ mem]) (simp_all add: write_action_def new)
qed

text \<open>
  When the agent's answer to an accepted request is lost, the console records the
  action as failed while the agent performs it: the agent's state is the same as if the
  answer had arrived, and the failed action has no agent id by which it could be
  followed.
\<close>

theorem lost_answer_fails_running_operation:
  assumes "set_workers w user username count_text s = (Inr (Started a), s')"
    and "read_action (cw_uuid w (length (cs_actions s))) (cs_agent s) = None"
    and "cw_uuid w (length (cs_actions s)) \<noteq> ''''"
  shows "\<exists>t b. set_workers (losing w (cs_exchanges s) reason) user username count_text s
        = (Inr (Answered 503 (''Host agent is unavailable: '' @ reason)), t)
    \<and> b \<in> set (cs_actions t) \<and> ha_id b = ha_id a \<and> ha_status b = Failed \<and> ha_agent_action_id b = ''''
    \<and> cs_agent t = cs_agent s' \<and> ag_active (cs_agent t) = Some (ha_id b)"
proof -
  obtain count where ok: "has_permission user ''scale_workers''" "int_of_text count_text = Some count"
      "hc_worker_minimum (cs_config s) \<le> count" "count \<le> hc_worker_maximum (cs_config s)"
    and go: "launch w Set_Workers (Some count) ''Scaling accepted.'' user username s = (Inr (Started a), s')"
    using assms(1) by (auto simp: set_workers_def split: if_splits option.splits)
  obtain t b where t: "launch (losing w (cs_exchanges s) reason) Set_Workers (Some count) ''Scaling accepted.'' user username s
      = (Inr (Answered 503 (''Host agent is unavailable: '' @ reason)), t)"
    and b: "cs_agent t = cs_agent s'" "b \<in> set (cs_actions t)" "ha_id b = ha_id a" "ha_status b = Failed"
      "ha_agent_action_id b = ''''"
    by (rule lost_launch [OF go])
  have "ag_active (cs_agent s') = Some (ha_id a)"
    by (rule launched_admission [OF go assms(2,3)])
  moreover have "set_workers (losing w (cs_exchanges s) reason) user username count_text s
      = (Inr (Answered 503 (''Host agent is unavailable: '' @ reason)), t)"
    using ok t by (simp add: set_workers_def)
  ultimately show ?thesis
    using b by auto
qed

section \<open>Any sequence of requests\<close>

text \<open>The requests of the pages, and a move of the agent between two of them.\<close>

datatype console_request =
  Restart_Request health_user string "string option"
| Workers_Request health_user string string
| Updates_Request health_user string
| Detail_Request health_user string
| Live_Request health_user
| Agent_Moved host_agent

fun console_step :: "console_world \<Rightarrow> console_request \<Rightarrow> console \<Rightarrow> exn + console" where
  "console_step w (Restart_Request user username confirmation) s = Inr (snd (restart_auth w user username confirmation s))"
| "console_step w (Workers_Request user username count_text) s = Inr (snd (set_workers w user username count_text s))"
| "console_step w (Updates_Request user username) s = Inr (snd (check_updates w user username s))"
| "console_step w (Detail_Request user action_id) s = Inr (snd (action_detail w user action_id s))"
| "console_step w (Live_Request user) s = Inr (snd (live_metrics w user s))"
| "console_step w (Agent_Moved agent) s = Inr (s\<lparr>cs_agent := agent\<rparr>)"

definition console_ok :: "console_world \<Rightarrow> console \<Rightarrow> bool" where
  "console_ok w s \<longleftrightarrow> inj (cw_uuid w) \<and> distinct (map ha_id (cs_actions s))
     \<and> (\<forall>a \<in> set (cs_actions s). \<exists>n < length (cs_actions s). ha_id a = cw_uuid w n)
     \<and> length (filter scan_open (cs_actions s)) \<le> 1"

definition settled_kept :: "console \<Rightarrow> console \<Rightarrow> bool" where
  "settled_kept s s' \<longleftrightarrow> (\<forall>a \<in> set (cs_actions s). settled (ha_status a) \<longrightarrow> a \<in> set (cs_actions s'))"

lemma settled_not_open: "settled (ha_status a) \<Longrightarrow> \<not> scan_open a"
  by (auto simp: settled_def scan_open_def)

text \<open>A launch adds one action, under the next identifier.\<close>

lemma write_last:
  "ha_id b = ha_id a \<Longrightarrow> \<forall>c \<in> set xs. ha_id c \<noteq> ha_id a \<Longrightarrow> cs_actions s = xs @ [a] \<Longrightarrow>
     cs_actions (write_action b s) = xs @ [b]"
  by (auto simp: write_action_def intro!: map_idI)

lemma launch_adds:
  assumes "launch w kind target default_message user username s = (r, s')" and "console_ok w s"
  obtains b where "cs_actions s' = cs_actions s @ [b]" and "ha_id b = cw_uuid w (length (cs_actions s))" and "ha_kind b = kind"
proof -
  let ?new = "new_action w kind target user s"
  let ?s1 = "s\<lparr>cs_actions := cs_actions s @ [?new]\<rparr>"
  obtain q s2 where sub: "submit_action w (ha_id ?new) (action_name kind) username target ?s1 = (q, s2)"
    by (cases "submit_action w (ha_id ?new) (action_name kind) username target ?s1")
  have acts: "cs_actions s2 = cs_actions s @ [?new]"
    using request_agent_frame [of w _ ?s1 q s2] sub by (simp add: submit_action_def)
  have new: "ha_id ?new = cw_uuid w (length (cs_actions s))" "ha_kind ?new = kind"
    by (simp_all add: new_action_def)
  have fresh: "\<forall>c \<in> set (cs_actions s). ha_id c \<noteq> ha_id ?new"
    using assms(2) by (auto simp: console_ok_def new dest!: bspec dest: injD)
  have wrote: "cs_actions (write_action b t) = cs_actions s @ [b]"
    if "ha_id b = ha_id ?new" and "cs_actions t = cs_actions s2" for b t
    using write_last [OF that(1) fresh] that(2) acts by simp
  show thesis
  proof (cases q)
    case (Inl e)
    with assms(1) sub that new acts show thesis
      by (auto simp: launch_def Let_def wrote split: if_splits)
  next
    case (Inr response)
    with assms(1) sub that new acts show thesis
      by (auto simp: launch_def Let_def wrote split: sum.splits prod.splits)
  qed
qed

lemma launch_keeps:
  assumes "launch w kind target default_message user username s = (r, s')" and "console_ok w s"
    and "kind = Check_Updates \<Longrightarrow> \<not> list_ex scan_open (cs_actions s)"
  shows "console_ok w s' \<and> settled_kept s s'"
proof -
  obtain b where b: "cs_actions s' = cs_actions s @ [b]" "ha_id b = cw_uuid w (length (cs_actions s))" "ha_kind b = kind"
    by (rule launch_adds [OF assms(1,2)])
  have "\<forall>c \<in> set (cs_actions s). ha_id c \<noteq> ha_id b"
    using assms(2) by (auto simp: console_ok_def b(2) dest!: bspec dest: injD)
  moreover have "length (filter scan_open (cs_actions s')) \<le> 1"
  proof (cases "kind = Check_Updates")
    case True
    then have "filter scan_open (cs_actions s) = []"
      using assms(3) by (simp add: list_ex_iff filter_empty_conv)
    then show ?thesis by (simp add: b)
  next
    case False
    then show ?thesis
      using assms(2) b by (simp add: console_ok_def scan_open_def)
  qed
  moreover have "\<exists>n < length (cs_actions s'). ha_id c = cw_uuid w n" if "c \<in> set (cs_actions s')" for c
    using that assms(2) b by (auto simp: console_ok_def less_Suc_eq dest!: bspec)
  ultimately show ?thesis
    using assms(2) b by (auto simp: console_ok_def settled_kept_def)
qed

text \<open>Following an action writes that action only, and only while it is open.\<close>

lemma synchronized_fields:
  "synchronized w data a = Inr a' \<Longrightarrow> ha_id a' = ha_id a \<and> ha_kind a' = ha_kind a"
  by (auto simp: synchronized_def split: if_splits sum.splits)

lemma synchronize_cases:
  assumes "synchronize_action w a s = (r, s')"
  obtains (same) "cs_actions s' = cs_actions s"
  | (wrote) b where "cs_actions s' = map (\<lambda>c. if ha_id c = ha_id a then b else c) (cs_actions s)" and "ha_id b = ha_id a"
      and "ha_kind b = ha_kind a" and "\<not> settled (ha_status a)"
proof (cases "ha_agent_action_id a = '''' \<or> settled (ha_status a)")
  case True
  with assms that(1) show thesis by (auto simp: synchronize_action_def)
next
  case False
  obtain q s1 where qu: "query_action w (ha_agent_action_id a) s = (q, s1)"
    by (cases "query_action w (ha_agent_action_id a) s")
  have acts: "cs_actions s1 = cs_actions s"
    using request_agent_frame [of w _ s q s1] qu by (simp add: query_action_def)
  consider "s' = s1" | data b where "synchronized w data a = Inr b" "s' = write_action b s1"
    using assms False qu by (auto simp: synchronize_action_def split: sum.splits) metis
  then show thesis
  proof cases
    case 1
    with acts that(1) show thesis by simp
  next
    case (2 data b)
    with synchronized_fields [OF 2(1)] acts False show thesis
      by (intro that(2) [of b]) (simp_all add: write_action_def)
  qed
qed

lemma find_action_SomeD: "find_action i s = Some a \<Longrightarrow> a \<in> set (cs_actions s)"
  by (auto simp: find_action_def dest: find_SomeD)

lemma settled_kept_refl [simp]: "settled_kept s s"
  by (simp add: settled_kept_def)

lemma settled_kept_trans: "settled_kept s t \<Longrightarrow> settled_kept t u \<Longrightarrow> settled_kept s u"
  by (simp add: settled_kept_def)

lemma same_actions_keep:
  "cs_actions s' = cs_actions s \<Longrightarrow> console_ok w s \<Longrightarrow> console_ok w s' \<and> settled_kept s s'"
  by (simp add: console_ok_def settled_kept_def)

lemma synchronize_keeps:
  assumes run: "synchronize_action w a s = (r, s')" and ok: "console_ok w s" and a: "a \<in> set (cs_actions s)"
  shows "console_ok w s' \<and> settled_kept s s'"
    and "\<And>c. c \<in> set (cs_actions s) \<Longrightarrow> ha_id c \<noteq> ha_id a \<Longrightarrow> c \<in> set (cs_actions s')"
proof -
  have "(console_ok w s' \<and> settled_kept s s')
      \<and> (\<forall>c \<in> set (cs_actions s). ha_id c \<noteq> ha_id a \<longrightarrow> c \<in> set (cs_actions s'))"
    using run
  proof (cases rule: synchronize_cases)
    case same
    then show ?thesis
      using same_actions_keep [OF _ ok] by auto
  next
    case (wrote b)
    have inj: "c = a" if "c \<in> set (cs_actions s)" "ha_id c = ha_id a" for c
      using ok that a by (auto simp: console_ok_def distinct_map dest: inj_onD)
    have ids: "map ha_id (cs_actions s') = map ha_id (cs_actions s)"
      using wrote by simp
    have open_count: "length (filter scan_open (cs_actions s')) \<le> length (filter scan_open (cs_actions s))"
    proof -
      have "scan_open b \<longrightarrow> scan_open a"
        using wrote(3,4) by (cases "ha_status a") (auto simp: scan_open_def settled_def)
      then have "length (filter scan_open (map (\<lambda>c. if ha_id c = ha_id a then b else c) xs)) \<le> length (filter scan_open xs)"
        if "\<forall>c \<in> set xs. ha_id c = ha_id a \<longrightarrow> c = a" for xs
        using that by (induction xs) auto
      then show ?thesis
        using inj wrote(1) by simp
    qed
    have len: "length (cs_actions s') = length (cs_actions s)"
      using wrote by simp
    have "\<exists>n < length (cs_actions s'). ha_id c = cw_uuid w n" if "c \<in> set (cs_actions s')" for c
    proof -
      have "ha_id c \<in> ha_id ` set (cs_actions s)"
        using that ids by (metis image_eqI list.set_map)
      then show ?thesis
        using ok len by (auto simp: console_ok_def)
    qed
    moreover have "c \<in> set (cs_actions s')" if "c \<in> set (cs_actions s)" "settled (ha_status c) \<or> ha_id c \<noteq> ha_id a" for c
      using that inj wrote(1,4) by force
    ultimately show ?thesis
      using ok ids open_count by (simp add: console_ok_def settled_kept_def)
  qed
  then show "console_ok w s' \<and> settled_kept s s'"
    and "\<And>c. c \<in> set (cs_actions s) \<Longrightarrow> ha_id c \<noteq> ha_id a \<Longrightarrow> c \<in> set (cs_actions s')"
    by blast+
qed

lemma detail_keeps:
  assumes "action_detail w user action_id s = (r, s')" and "console_ok w s"
  shows "console_ok w s' \<and> settled_kept s s'"
proof -
  consider "s' = s" | a q where "find_action action_id s = Some a" "synchronize_action w a s = (q, s')"
    using assms(1) by (auto simp: action_detail_def Let_def split: if_splits option.splits prod.splits sum.splits)
  then show ?thesis
  proof cases
    case 1
    with assms(2) show ?thesis by simp
  next
    case (2 a q)
    from synchronize_keeps(1) [OF 2(2) assms(2) find_action_SomeD [OF 2(1)]] show ?thesis .
  qed
qed

text \<open>The polled page follows actions one after the other.\<close>

lemma follow_synchronizes:
  assumes "follow w a s = (r, s')"
  obtains q where "synchronize_action w a s = (q, s')"
  using assms that by (auto simp: follow_def split: prod.splits sum.splits if_splits)

lemma follow_all_keeps:
  assumes "follow_all w as s = (r, s')" and "console_ok w s" and "set as \<subseteq> set (cs_actions s)"
    and "distinct (map ha_id as)"
  shows "console_ok w s' \<and> settled_kept s s'"
  using assms
proof (induction as arbitrary: s r)
  case (Cons a as)
  obtain q s1 where f: "follow w a s = (q, s1)"
    by (cases "follow w a s")
  then obtain p where "synchronize_action w a s = (p, s1)"
    by (rule follow_synchronizes)
  note step = synchronize_keeps [OF this Cons.prems(2)]
  have kept: "console_ok w s1 \<and> settled_kept s s1"
    using step(1) Cons.prems(3) by simp
  have "set as \<subseteq> set (cs_actions s1)"
  proof
    fix c
    assume "c \<in> set as"
    then have "c \<in> set (cs_actions s)" and "ha_id c \<noteq> ha_id a"
      using Cons.prems(3,4) by (auto, metis image_eqI)
    then show "c \<in> set (cs_actions s1)"
      using step(2) Cons.prems(3) by simp
  qed
  then have rest: "console_ok w s' \<and> settled_kept s1 s'" if "follow_all w as s1 = (t, s')" for t
    using Cons.IH [OF that] kept Cons.prems(4) by simp
  consider "s' = s1" | t where "follow_all w as s1 = (t, s')"
    using Cons.prems(1) f by (auto split: prod.splits sum.splits)
  then show ?case
    using kept rest settled_kept_trans by cases blast+
qed simp

lemma live_keeps:
  assumes "live_metrics w user s = (r, s')" and "console_ok w s"
  shows "console_ok w s' \<and> settled_kept s s'"
proof -
  have shown: "console_ok w s1 \<and> settled_kept s s1" if "shown_metrics w s = (q, s1)" for q s1
  proof -
    obtain p t where p: "request_agent w [(''operation'', PStr ''metrics'')] s = (p, t)"
      by (cases "request_agent w [(''operation'', PStr ''metrics'')] s")
    with that have "t = s1"
      by (auto simp: shown_metrics_def split: sum.splits if_splits pyval.splits)
    with p show ?thesis
      using same_actions_keep [OF _ assms(2)] request_agent_frame by metis
  qed
  have actions: "console_ok w s2 \<and> settled_kept s1 s2"
    if "followed_actions w user s1 = (q, s2)" "console_ok w s1" for q s1 s2
  proof (cases "has_permission user ''view_action_history''")
    case True
    have "distinct (map ha_id (take 12 (recent_actions s1)))"
      using that(2) by (simp add: recent_actions_def console_ok_def rev_map [symmetric] take_map [symmetric])
    then show ?thesis
      using that True follow_all_keeps [of w "take 12 (recent_actions s1)" s1 q s2] set_take_subset [of 12 "recent_actions s1"]
      by (simp add: followed_actions_def recent_actions_def)
  next
    case False
    with that show ?thesis by (simp add: followed_actions_def)
  qed
  have latest: "console_ok w s2 \<and> settled_kept s1 s2"
    if run: "latest_update w user s1 = (q, s2)" and ok: "console_ok w s1" for q s1 s2
  proof -
    consider "s2 = s1" | a p where "List.find (\<lambda>a. ha_kind a = Check_Updates) (recent_actions s1) = Some a" "follow w a s1 = (p, s2)"
      using run by (auto simp: latest_update_def split: if_splits option.splits prod.splits sum.splits)
    then show ?thesis
    proof cases
      case 1
      with ok show ?thesis by simp
    next
      case (2 a p)
      have "a \<in> set (cs_actions s1)"
        using find_SomeD [OF 2(1)] by (simp add: recent_actions_def)
      moreover obtain p' where "synchronize_action w a s1 = (p', s2)"
        using 2(2) by (rule follow_synchronizes)
      ultimately show ?thesis
        using synchronize_keeps(1) ok by blast
    qed
  qed
  show ?thesis
  proof (cases "has_permission user ''view_vps_health''")
    case False
    with assms show ?thesis by (simp add: live_metrics_def)
  next
    case True
    obtain q1 s1 where m: "shown_metrics w s = (q1, s1)"
      by (cases "shown_metrics w s")
    obtain q2 s2 where f: "followed_actions w user s1 = (q2, s2)"
      by (cases "followed_actions w user s1")
    obtain q3 s3 where l: "latest_update w user s2 = (q3, s3)"
      by (cases "latest_update w user s2")
    have 1: "console_ok w s1 \<and> settled_kept s s1"
      by (rule shown [OF m])
    then have 2: "console_ok w s2 \<and> settled_kept s s2"
      using actions [OF f] settled_kept_trans by blast
    then have 3: "console_ok w s3 \<and> settled_kept s s3"
      using latest [OF l] settled_kept_trans by blast
    have "s' = s1 \<or> s' = s2 \<or> s' = s3"
      using assms(1) True m f l by (auto simp: live_metrics_def split: sum.splits)
    then show ?thesis
      using 1 2 3 by blast
  qed
qed

lemma request_keeps:
  assumes "console_step w request s = Inr s'" and "console_ok w s"
  shows "console_ok w s' \<and> settled_kept s s'"
proof -
  have same: "console_ok w s \<and> settled_kept s s"
    using assms(2) by (simp add: settled_kept_def)
  show ?thesis
  proof (cases request)
    case (Restart_Request user username confirmation)
    with assms same show ?thesis
      using launch_keeps [of w Restart_Auth None _ user username s _ s']
      by (auto simp: restart_auth_def split: if_splits) (metis action_kind.distinct prod.collapse)+
  next
    case (Workers_Request user username count_text)
    with assms same show ?thesis
      using launch_keeps [of w Set_Workers _ _ user username s _ s']
      by (auto simp: set_workers_def split: if_splits option.splits) (metis action_kind.distinct prod.collapse)+
  next
    case (Updates_Request user username)
    with assms same show ?thesis
      using launch_keeps [of w Check_Updates None _ user username s _ s']
      by (auto simp: check_updates_def split: if_splits) (metis prod.collapse)+
  next
    case (Detail_Request user action_id)
    then have "action_detail w user action_id s = (fst (action_detail w user action_id s), s')"
      using assms(1) by (simp add: prod_eq_iff)
    then show ?thesis
      using assms(2) by (rule detail_keeps)
  next
    case (Live_Request user)
    then have "live_metrics w user s = (fst (live_metrics w user s), s')"
      using assms(1) by (simp add: prod_eq_iff)
    then show ?thesis
      using assms(2) by (rule live_keeps)
  next
    case (Agent_Moved agent)
    with assms show ?thesis
      by (auto simp: console_ok_def settled_kept_def)
  qed
qed

interpretation console: monotone_machine "console_step w" "console_ok w" settled_kept for w
proof
  show "console_ok w s'" if "console_ok w s" and "console_step w x s = Inr s'" for s x s'
    using request_keeps that by blast
  show "settled_kept s s'" if "console_ok w s" and "console_step w x s = Inr s'" for s x s'
    using request_keeps that by blast
qed (auto simp: settled_kept_def)

text \<open>
  C34. Whatever requests the pages serve and whatever the agent does in between: an action
  that is recorded as succeeded or failed is never changed again, every action keeps an
  identifier of its own, and at most one update scan is open.
\<close>

theorem settled_actions_final:
  assumes "console_ok w s"
  shows "(\<forall>a \<in> set (cs_actions s). settled (ha_status a) \<longrightarrow> a \<in> set (cs_actions (run_ops (console_step w) requests s)))
    \<and> distinct (map ha_id (cs_actions (run_ops (console_step w) requests s)))
    \<and> length (filter scan_open (cs_actions (run_ops (console_step w) requests s))) \<le> 1"
  using console.run_below [OF assms, of requests] console.run_good [OF assms, of requests]
  by (simp add: settled_kept_def console_ok_def)

end
