(* ===== verification/Health_Samples.thy ===== *)
theory Health_Samples
  imports Health_Results
begin

text \<open>A host that answers every question well, and requests made of its agent.\<close>

definition sample_host :: host_world where
  "sample_host = \<lparr>hw_disk = (\<lambda>_. Written), hw_env = (\<lambda>_. None), hw_env_missing = ''No such file'',
     hw_clock = (\<lambda>n. 1000), hw_utc = (\<lambda>n. ''2026-01-01T00:00:00+00:00''), hw_run = (\<lambda>n command. Inr (0, '''')),
     hw_directory = (\<lambda>n. Inr ''/tmp/buh-update-check-1/lists''), hw_tidy = (\<lambda>n. None), hw_wheels = (\<lambda>n. Inr []),
     hw_platform = ''Linux'', hw_json = (\<lambda>t. None), hw_json_prefix = (\<lambda>t. None), hw_collect = (\<lambda>n. Inr []),
     hw_shown = (\<lambda>v. ''?'')\<rparr>"

text \<open>The disk fills up after the operation was accepted.\<close>

definition full_host :: host_world where
  "full_host = sample_host\<lparr>hw_disk := (\<lambda>n. if n < 4 then Written else Lost ''No space left on device'')\<rparr>"

definition sample_id :: string where
  "sample_id = ''12345678-1234-1234-1234-123456789abc''"

definition sample_payload :: "(string \<times> pyval) list" where
  "sample_payload = [(''token'', PStr ''secret''), (''operation'', PStr ''action''), (''action_id'', PStr sample_id),
     (''action'', PStr ''set_workers''), (''worker_count'', PInt 4), (''requester'', PStr ''director'')]"

definition sample_agent :: host_agent where
  "sample_agent = \<lparr>ag_documents = [], ag_env = Some ''A=1'', ag_active = None, ag_last = (\<lambda>_. 0), ag_performers = [],
     ag_metrics = [], ag_commands = [], ag_asked = 0\<rparr>"

definition sample_operation :: guarded_operation where
  "sample_operation = \<lparr>od_id = sample_id, od_action = ''set_workers'', od_worker_count = Some 4,
     od_requester = ''director'', od_status = ''accepted'',
     od_message = ''Action accepted by the guarded host agent.'',
     od_accepted_at = ''2026-01-01T00:00:00+00:00'', od_started_at = None, od_finished_at = None,
     od_result = PDict []\<rparr>"

lemma sample_checks:
  "token_refusal sample_host (Some ''secret'') sample_payload = None"
  "check_request sample_host sample_payload sample_agent = Inr (Admissible sample_id ''set_workers'')"
  by code_simp+

lemma full_checks:
  "token_refusal full_host (Some ''secret'') sample_payload = None"
  "check_request full_host sample_payload sample_agent = Inr (Admissible sample_id ''set_workers'')"
  by code_simp+

lemma sample_admitted:
  "fst (admit sample_host sample_id ''set_workers'' sample_payload sample_agent) = Inr sample_operation"
  "fst (admit full_host sample_id ''set_workers'' sample_payload sample_agent) = Inr sample_operation"
  by code_simp+

lemma sample_token: "get_key sample_payload ''operation'' = PStr ''action''"
  by code_simp

lemma repeated_request_idempotent_witness:
  "\<exists>s'. handle_request sample_host (Some ''secret'') sample_payload sample_agent = (Inr (Operation sample_operation), s')
     \<and> handle_request sample_host (Some ''secret'') sample_payload s' = (Inr (Operation sample_operation), s')"
proof -
  obtain s' where "admit sample_host sample_id ''set_workers'' sample_payload sample_agent = (Inr sample_operation, s')"
    using sample_admitted(1) by (metis prod.collapse)
  then have "handle_request sample_host (Some ''secret'') sample_payload sample_agent = (Inr (Operation sample_operation), s')"
    by (simp add: handle_request_def serve_def accept_action_def sample_checks sample_token)
  then show ?thesis
    using repeated_request_idempotent by blast
qed

text \<open>On a disk that writes the operation finishes; on one that fills up it keeps the lock.\<close>

lemma admitted_operation_finishes_witness:
  "(\<exists>s' d. admit sample_host sample_id ''set_workers'' sample_payload sample_agent = (Inr sample_operation, s')
     \<and> ag_active (perform_action sample_host (performer_at Sleeping sample_operation) s') = None
     \<and> map_of (ag_documents (perform_action sample_host (performer_at Sleeping sample_operation) s')) sample_id = Some (Some d)
     \<and> (od_status d = ''succeeded'' \<or> od_status d = ''failed''))
   \<and> (\<exists>s'. admit full_host sample_id ''set_workers'' sample_payload sample_agent = (Inr sample_operation, s')
     \<and> (ag_active (perform_action full_host (performer_at Sleeping sample_operation) s') = None
        \<or> (\<exists>n \<ge> ag_asked s'. hw_disk full_host n \<noteq> Written)))"
  (is "?finished \<and> ?locked")
proof
  obtain s' where s': "admit sample_host sample_id ''set_workers'' sample_payload sample_agent = (Inr sample_operation, s')"
    using sample_admitted(1) by (metis prod.collapse)
  have "\<forall>n. hw_disk sample_host n = Written"
    by (simp add: sample_host_def)
  then show ?finished
    using admitted_operation_finishes [OF s' refl] s' by blast
next
  obtain s' where s': "admit full_host sample_id ''set_workers'' sample_payload sample_agent = (Inr sample_operation, s')"
    using sample_admitted(2) by (metis prod.collapse)
  then show ?locked
    using admitted_operation_finishes [OF s' refl] by blast
qed

text \<open>An agent that served the request.\<close>

lemma sample_serving:
  assumes "token_refusal w (Some ''secret'') sample_payload = None"
    and "check_request w sample_payload sample_agent = Inr (Admissible sample_id ''set_workers'')"
    and "admit w sample_id ''set_workers'' sample_payload sample_agent = (Inr sample_operation, s')"
  shows "agent_reachable w (Some ''secret'') \<lparr>sy_agent = s', sy_waiting = [], sy_serving = True\<rparr>"
proof -
  let ?off = "\<lparr>sy_agent = sample_agent, sy_waiting = [], sy_serving = False\<rparr>"
  let ?on = "\<lparr>sy_agent = sample_agent, sy_waiting = [], sy_serving = True\<rparr>"
  let ?asked = "\<lparr>sy_agent = sample_agent, sy_waiting = [(sample_id, ''set_workers'', sample_payload)], sy_serving = True\<rparr>"
  have "agent_reachable w (Some ''secret'') ?off"
    by (rule agent_reachable.off) (simp_all add: sample_agent_def)
  moreover have "agent_step w (Some ''secret'') ?off ?on"
    using process_started [of ?off w "Inr ()" sample_agent "Some ''secret''"]
    by (simp add: restart_agent_def new_process_def sample_agent_def)
  moreover have "live_step w (Some ''secret'') ?on ?asked"
    using request_checked [of ?on w "Some ''secret''" sample_payload sample_id "''set_workers''"] assms(1,2)
    by (simp add: sample_token)
  moreover have "live_step w (Some ''secret'') ?asked \<lparr>sy_agent = s', sy_waiting = [], sy_serving = True\<rparr>"
    using request_admitted [of ?asked "[]" sample_id "''set_workers''" sample_payload "[]" w "Inr sample_operation" s'] assms(3)
    by simp
  ultimately show ?thesis
    by (meson agent_reachable.step alive)
qed

lemma guarded_operations_exclusive_witness:
  "\<exists>y. agent_reachable sample_host (Some ''secret'') y \<and> length (ag_performers (sy_agent y)) = 1
     \<and> ag_active (sy_agent y) = Some sample_id"
proof -
  obtain s' where s': "admit sample_host sample_id ''set_workers'' sample_payload sample_agent = (Inr sample_operation, s')"
    using sample_admitted(1) by (metis prod.collapse)
  let ?y = "\<lparr>sy_agent = s', sy_waiting = [], sy_serving = True\<rparr>"
  have reach: "agent_reachable sample_host (Some ''secret'') ?y"
    by (rule sample_serving [OF sample_checks s'])
  have one: "ag_performers s' = [performer_at Sleeping sample_operation]"
    using admit_accepted [OF s'] by (simp add: sample_agent_def)
  then have "ag_active s' = Some sample_id"
    using guarded_operations_exclusive [OF reach] by (simp add: sample_operation_def)
  with reach one show ?thesis
    by (intro exI [of _ ?y]) simp
qed

text \<open>The operation performed up to the command that scales the stack.\<close>

definition running_operation :: guarded_operation where
  "running_operation = sample_operation\<lparr>od_status := ''running'', od_started_at := Some ''2026-01-01T00:00:00+00:00'',
     od_message := ''The host agent is applying the guarded operation.''\<rparr>"

definition sample_states :: "host_agent list" where
  "sample_states =
     (let s0 = snd (admit sample_host sample_id ''set_workers'' sample_payload sample_agent);
          s1 = advance_performer sample_host [] (performer_at Sleeping sample_operation) [] s0;
          s2 = advance_performer sample_host [] (performer_at Working running_operation) [] s1
      in [s0, s1, s2, advance_performer sample_host [] (performer_at Counted running_operation) [] s2])"

lemma sample_run:
  "map ag_performers (take 3 sample_states) =
     [[performer_at Sleeping sample_operation], [performer_at Working running_operation], [performer_at Counted running_operation]]"
  "ag_commands (sample_states ! 3) = [scale_command 4]"
  by code_simp+

lemma agent_commands_confined_witness:
  "\<exists>y. agent_reachable sample_host (Some ''secret'') y \<and> ag_commands (sy_agent y) = [scale_command 4]
     \<and> \<not> inspects sample_host (scale_command 4)
     \<and> (\<exists>n. 1 \<le> n \<and> n \<le> 8 \<and> scale_command 4 = [''docker'', ''compose'', ''--env-file=.env'', ''up'', ''-d'', ''--no-deps'',
         ''--scale'', ''allianceauth_worker='' @ show_int n, ''allianceauth_worker''])"
proof -
  let ?on = "\<lambda>s. \<lparr>sy_agent = s, sy_waiting = [], sy_serving = True\<rparr> :: agent_system"
  obtain s0 where s0: "admit sample_host sample_id ''set_workers'' sample_payload sample_agent = (Inr sample_operation, s0)"
    using sample_admitted(1) by (metis prod.collapse)
  have states: "sample_states ! 0 = s0"
    "sample_states ! 1 = advance_performer sample_host [] (performer_at Sleeping sample_operation) [] (sample_states ! 0)"
    "sample_states ! 2 = advance_performer sample_host [] (performer_at Working running_operation) [] (sample_states ! 1)"
    "sample_states ! 3 = advance_performer sample_host [] (performer_at Counted running_operation) [] (sample_states ! 2)"
    by (simp_all add: sample_states_def Let_def s0)
  have performers: "ag_performers (sample_states ! 0) = [performer_at Sleeping sample_operation]"
    "ag_performers (sample_states ! 1) = [performer_at Working running_operation]"
    "ag_performers (sample_states ! 2) = [performer_at Counted running_operation]"
    using sample_run(1) by (simp_all add: sample_states_def Let_def)
  have more: "agent_reachable sample_host (Some ''secret'') (?on (advance_performer sample_host [] p [] s))"
    if "agent_reachable sample_host (Some ''secret'') (?on s)" "ag_performers s = [p]" for p s
    using operation_advanced [of "?on s" "[]" p "[]" sample_host "Some ''secret''"] that
    by (auto intro: agent_reachable.step alive)
  have "agent_reachable sample_host (Some ''secret'') (?on (sample_states ! 0))"
    using sample_serving [OF sample_checks s0] by (simp add: states(1))
  then have "agent_reachable sample_host (Some ''secret'') (?on (sample_states ! 3))"
    using more performers states(2-4) by metis
  moreover have "\<not> inspects sample_host (scale_command 4)"
    by (simp add: inspects_def scale_command_def compose_command_def)
  ultimately show ?thesis
    using agent_commands_confined [of sample_host "Some ''secret''" "?on (sample_states ! 3)" "scale_command 4"] sample_run(2)
    by (intro exI [of _ "?on (sample_states ! 3)"]) (auto simp: scale_command_def compose_command_def)
qed

lemma lost_status_refuses_operations_witness:
  "\<exists>y. live_step full_host (Some ''secret'') y (y\<lparr>sy_agent :=
     advance_performer full_host [] (performer_at Sleeping sample_operation) [] (sy_agent y)\<rparr>)
   \<and> ag_performers (sy_agent y) \<noteq> []"
proof -
  obtain s' where s': "admit full_host sample_id ''set_workers'' sample_payload sample_agent = (Inr sample_operation, s')"
    using sample_admitted(2) by (metis prod.collapse)
  let ?y = "\<lparr>sy_agent = s', sy_waiting = [], sy_serving = True\<rparr>"
  have reach: "agent_reachable full_host (Some ''secret'') ?y"
    by (rule sample_serving [OF full_checks s'])
  have one: "ag_performers s' = [performer_at Sleeping sample_operation]"
    using admit_accepted [OF s'] by (simp add: sample_agent_def)
  have "ag_asked (snd (admit full_host sample_id ''set_workers'' sample_payload sample_agent)) = 4"
    by code_simp
  then have "ag_asked s' = 4"
    by (simp only: s' snd_conv)
  then have "hw_disk full_host (Suc (ag_asked s')) \<noteq> Written"
    by (simp add: full_host_def)
  then show ?thesis
    using lost_status_refuses_operations [OF reach] one by (intro exI [of _ ?y]) simp
qed

lemma restart_closes_interrupted_witness:
  "\<exists>s' op'. restart_agent sample_host (sample_agent\<lparr>ag_documents := [(sample_id, Some sample_operation)]\<rparr>) = (Inr (), s')
     \<and> map_of (ag_documents s') sample_id = Some (Some op') \<and> od_status op' = ''failed''"
proof -
  let ?s = "sample_agent\<lparr>ag_documents := [(sample_id, Some sample_operation)]\<rparr>"
  have "fst (restart_agent sample_host ?s) = Inr ()"
    by code_simp
  then obtain s' where s': "restart_agent sample_host ?s = (Inr (), s')"
    by (metis prod.collapse)
  have "\<exists>op'. map_of (ag_documents s') sample_id = Some (Some op') \<and> od_status op' = ''failed''"
    using restart_closes_interrupted [OF s', of sample_id sample_operation] by (simp add: sample_operation_def)
  with s' show ?thesis by blast
qed

lemma worker_count_roundtrip_witness:
  "\<exists>s'. write_worker_count sample_host 4 sample_agent = (Inr (), s') \<and> desired_workers (ag_env s') = 4"
proof -
  have "fst (write_worker_count sample_host 4 sample_agent) = Inr ()"
    by code_simp
  then obtain s' where "write_worker_count sample_host 4 sample_agent = (Inr (), s')"
    by (metis prod.collapse)
  then show ?thesis
    using worker_count_roundtrip by fastforce
qed

end
