(* ===== verification/Health_Witnesses.thy ===== *)
theory Health_Witnesses
  imports Health_Rounds Health_Requests Health_Samples
begin

text \<open>Monitoring and requests at concrete inputs.\<close>

section \<open>Monitoring\<close>

definition director :: health_user where
  "director = \<lparr>hu_id = 7, hu_is_active = True, hu_is_superuser = False,
     hu_permissions = [(''buh_vps_health'', ''scale_workers''), (''buh_vps_health'', ''manage_health_settings'')],
     hu_group_permissions = []\<rparr>"

definition former_director :: health_user where
  "former_director = director\<lparr>hu_id := 8, hu_is_active := False\<rparr>"

definition sample_metrics :: "(string \<times> pyval) list" where
  "sample_metrics = [(''host'', PDict [(''cpu_percent'', PFloat 90)]), (''docker'', PDict [(''unhealthy'', PInt 2)])]"

definition sample_monitor_world :: monitor_world where
  "sample_monitor_world = \<lparr>mw_now = (\<lambda>n. 1000000 + int n),
     mw_metrics = (\<lambda>n. Reply [(''ok'', PBool True), (''metrics'', PDict sample_metrics)]),
     mw_workload = (\<lambda>n. Inr [(''queued'', PInt 3)]), mw_column_check = (\<lambda>r. None), mw_users = [director, former_director],
     mw_shown = (\<lambda>v. '''')\<rparr>"

definition cut_off_world :: monitor_world where
  "cut_off_world = sample_monitor_world\<lparr>mw_metrics := (\<lambda>n. No_Connection ''timed out'')\<rparr>"

definition fresh_monitor :: monitor where
  "fresh_monitor = \<lparr>hm_config = None, hm_snapshots = empty_table, hm_alerts = empty_table, hm_outbox = [],
     hm_reads = 0, hm_asked = 0\<rparr>"

definition sample_snapshot :: health_snapshot where
  "sample_snapshot = build_snapshot 1 1000000 (replicate 9 90) (replicate 11 2)
     (snapshot_filesystems [(''filesystems'', PList [])])"

lemma fresh_ok: "alerts_ok fresh_monitor"
  by (simp add: alerts_ok_def fresh_monitor_def well_keyed_empty) (simp add: empty_table_def)

lemma set_alert_refines_witness:
  "\<exists>a s'. set_alert sample_monitor_world ''cpu'' True ''High'' ''CPU is high.'' Danger_Level fresh_monitor = ((a, True), s')
     \<and> alert_view_of ''cpu'' s' = Some (True, True)"
proof -
  have none: "alert_view_of ''cpu'' fresh_monitor = None"
    by (simp add: alert_view_of_def alert_for_def fresh_monitor_def empty_table_def)
  obtain a ch s' where run: "set_alert sample_monitor_world ''cpu'' True ''High'' ''CPU is high.'' Danger_Level fresh_monitor = ((a, ch), s')"
    by (metis prod.collapse)
  from set_alert_refines [OF fresh_ok run] run none show ?thesis
    by auto
qed

lemma sample_evaluation:
  obtains alerts s' where "evaluate_alerts sample_monitor_world sample_snapshot default_config fresh_monitor = (Inr alerts, s')"
  by (cases "set_alerts sample_monitor_world (alert_checks default_config sample_snapshot fresh_monitor
        @ data_checks default_config sample_snapshot fresh_monitor) fresh_monitor")
    (auto simp: evaluate_alerts_def default_config_def)

lemma evaluate_alerts_reflects_witness:
  "\<exists>alerts s' a b. evaluate_alerts sample_monitor_world sample_snapshot default_config fresh_monitor = (Inr alerts, s')
     \<and> alert_for ''containers'' s' = Some a \<and> al_active a \<and> alert_for ''cpu'' s' = Some b \<and> \<not> al_active b"
proof -
  obtain alerts s' where run: "evaluate_alerts sample_monitor_world sample_snapshot default_config fresh_monitor = (Inr alerts, s')"
    by (rule sample_evaluation)
  have unhealthy: "0 < hs_container_unhealthy sample_snapshot"
    by code_simp
  have none: "length (rows (hm_snapshots fresh_monitor)) = 0"
    by (simp add: fresh_monitor_def empty_table_def)
  from evaluate_alerts_reflects [OF fresh_ok run] obtain a b where
    "alert_for ''containers'' s' = Some a" "al_active a \<longleftrightarrow> 0 < hs_container_unhealthy sample_snapshot"
    "alert_for ''cpu'' s' = Some b" "\<not> al_active b"
    by (auto simp: none)
  with run unhealthy show ?thesis
    by blast
qed

lemma data_alert_needs_telemetry_witness:
  "\<exists>alerts s'. evaluate_alerts sample_monitor_world sample_snapshot default_config fresh_monitor = (Inr alerts, s')
     \<and> alert_for ''disk:data'' s' = alert_for ''disk:data'' fresh_monitor"
proof -
  obtain alerts s' where run: "evaluate_alerts sample_monitor_world sample_snapshot default_config fresh_monitor = (Inr alerts, s')"
    by (rule sample_evaluation)
  have "\<not> row_available (data_filesystem sample_snapshot)"
    by code_simp
  then have "\<not> reports_high default_config sample_snapshot" and "\<not> reports_low default_config sample_snapshot"
    by (simp_all add: reports_high_def reports_low_def)
  moreover have "newest_snapshots fresh_monitor = []"
    by (simp add: newest_snapshots_def fresh_monitor_def empty_table_def)
  ultimately show ?thesis
    using data_alert_needs_telemetry [OF fresh_ok run] run by auto
qed

lemma filesystems_normalised_witness:
  "snapshot_filesystems [(''filesystems'', snapshot_filesystems [(''filesystems'', PList [])])]
     = snapshot_filesystems [(''filesystems'', PList [])]"
proof -
  have "get_key [(''filesystems'', PList [])] ''filesystems'' = PList []"
    by (simp add: get_key_def)
  from filesystems_normalised [OF this] show ?thesis ..
qed

text \<open>An alert to be announced.\<close>

definition pending_monitor :: monitor where
  "pending_monitor = fresh_monitor\<lparr>hm_alerts := \<lparr>rows = [\<lparr>al_pk = 1, al_key = ''cpu'', al_title = ''High'',
     al_message = ''CPU is high.'', al_severity = Danger_Level, al_active = True, al_first_seen_at = 5,
     al_last_seen_at = 5, al_resolved_at = None, al_notification_sent_at = None\<rparr>], next_pk = 2\<rparr>\<rparr>"

lemma dispatch_announces_once_witness:
  "\<exists>s'. dispatch_notifications sample_monitor_world default_config pending_monitor = (1, s')
     \<and> (\<forall>a \<in> set (rows (hm_alerts s')). al_notification_sent_at a \<noteq> None)
     \<and> dispatch_notifications sample_monitor_world default_config s' = (0, s')"
proof -
  have on: "hc_notify_directors default_config"
    by (simp add: default_config_def)
  have "fst (dispatch_notifications sample_monitor_world default_config pending_monitor) = 1"
    by code_simp
  then obtain s' where run: "dispatch_notifications sample_monitor_world default_config pending_monitor = (1, s')"
    by (metis prod.collapse)
  from dispatch_announces_once [OF run] on run show ?thesis
    by auto
qed

lemma agent_failure_recorded_witness:
  "\<exists>s' a. capture_and_evaluate cut_off_world fresh_monitor
       = (Inr (Agent_Failed ''Host agent is unavailable: timed out''), s')
     \<and> alert_for ''agent'' s' = Some a \<and> al_active a"
proof -
  have "fst (capture_and_evaluate cut_off_world fresh_monitor) = Inr (Agent_Failed ''Host agent is unavailable: timed out'')"
    by code_simp
  then obtain s' where run: "capture_and_evaluate cut_off_world fresh_monitor
       = (Inr (Agent_Failed ''Host agent is unavailable: timed out''), s')"
    by (metis prod.collapse)
  from agent_failure_recorded [OF fresh_ok run] run show ?thesis
    by blast
qed

lemma completed_round_witness:
  "\<exists>s'. capture_and_evaluate sample_monitor_world fresh_monitor = (Inr (Round_Done 1 1 0), s')
     \<and> (\<forall>a. alert_for ''agent'' s' = Some a \<longrightarrow> \<not> al_active a)"
proof -
  have "fst (capture_and_evaluate sample_monitor_world fresh_monitor) = Inr (Round_Done 1 1 0)"
    by code_simp
  then obtain s' where run: "capture_and_evaluate sample_monitor_world fresh_monitor = (Inr (Round_Done 1 1 0), s')"
    by (metis prod.collapse)
  from completed_round [OF fresh_ok run] run show ?thesis
    by blast
qed

section \<open>Requests\<close>

text \<open>Identifiers of 36 characters, one per action.\<close>

definition sample_uuid :: "nat \<Rightarrow> string" where
  "sample_uuid n = (if n = 0 then sample_id else replicate n (CHR ''x''))"

lemma inj_sample_uuid: "inj sample_uuid"
proof (rule injI)
  fix m n
  assume same: "sample_uuid m = sample_uuid n"
  have id: "sample_id \<noteq> replicate k (CHR ''x'')" for k
  proof
    assume eq: "sample_id = replicate k (CHR ''x'')"
    have "CHR ''1'' \<in> set sample_id"
      by (simp add: sample_id_def)
    then show False
      unfolding eq by simp
  qed
  with same show "m = n"
    by (auto simp: sample_uuid_def split: if_splits dest: arg_cong [where f = length]) (metis id)+
qed

definition sample_console_world :: console_world where
  "sample_console_world = \<lparr>cw_host = sample_host, cw_link = (\<lambda>n. Connected), cw_client_token = Some ''secret'',
     cw_agent_token = Some ''secret'', cw_uuid = sample_uuid, cw_now = (\<lambda>n. 0), cw_parse_datetime = (\<lambda>t. Inr None)\<rparr>"

definition sample_console :: console where
  "sample_console = \<lparr>cs_actions = [], cs_config = default_config, cs_agent = sample_agent, cs_exchanges = 0, cs_times = 0\<rparr>"

definition accepted_action :: health_action where
  "accepted_action = \<lparr>ha_id = sample_id, ha_kind = Set_Workers, ha_target_worker_count = Some 4, ha_requested_by = 7,
     ha_status = Accepted, ha_agent_action_id = sample_id, ha_message = ''Action accepted by the guarded host agent.'',
     ha_result_payload = PDict [], ha_started_at = None, ha_finished_at = None\<rparr>"

lemma sample_started:
  obtains s' where "set_workers sample_console_world director ''director'' ''4'' sample_console = (Inr (Started accepted_action), s')"
proof -
  have "fst (set_workers sample_console_world director ''director'' ''4'' sample_console) = Inr (Started accepted_action)"
    by code_simp
  then show thesis
    using that by (metis prod.collapse)
qed

lemma sample_fresh:
  "read_action (cw_uuid sample_console_world (length (cs_actions sample_console))) (cs_agent sample_console) = None"
  "cw_uuid sample_console_world (length (cs_actions sample_console)) \<noteq> ''''"
  by code_simp+

lemma started_workers_admitted_witness:
  "\<exists>s'. set_workers sample_console_world director ''director'' ''4'' sample_console = (Inr (Started accepted_action), s')
     \<and> ag_active (cs_agent s') = Some (ha_id accepted_action)"
proof -
  obtain s' where run: "set_workers sample_console_world director ''director'' ''4'' sample_console = (Inr (Started accepted_action), s')"
    by (rule sample_started)
  from started_workers_admitted [OF run sample_fresh] run show ?thesis
    by blast
qed

lemma lost_answer_fails_running_operation_witness:
  "\<exists>t b. set_workers (losing sample_console_world 0 ''timed out'') director ''director'' ''4'' sample_console
       = (Inr (Answered 503 ''Host agent is unavailable: timed out''), t)
     \<and> b \<in> set (cs_actions t) \<and> ha_status b = Failed \<and> ag_active (cs_agent t) = Some (ha_id b)"
proof -
  obtain s' where run: "set_workers sample_console_world director ''director'' ''4'' sample_console = (Inr (Started accepted_action), s')"
    by (rule sample_started)
  have "cs_exchanges sample_console = 0"
    by (simp add: sample_console_def)
  with lost_answer_fails_running_operation [OF run sample_fresh, of "''timed out''"] show ?thesis
    by auto
qed

lemma settled_actions_final_witness:
  "\<exists>s. accepted_action\<lparr>ha_status := Failed\<rparr> \<in> set (cs_actions s)
     \<and> accepted_action\<lparr>ha_status := Failed\<rparr> \<in> set (cs_actions
          (run_ops (console_step sample_console_world) [Updates_Request director ''director'', Detail_Request director sample_id] s))"
proof -
  let ?s = "sample_console\<lparr>cs_actions := [accepted_action\<lparr>ha_status := Failed\<rparr>]\<rparr>"
  have "console_ok sample_console_world ?s"
    by (simp add: console_ok_def sample_console_world_def inj_sample_uuid accepted_action_def sample_uuid_def scan_open_def)
  from settled_actions_final [OF this, of "[Updates_Request director ''director'', Detail_Request director sample_id]"]
  show ?thesis
    by (intro exI [of _ ?s]) (simp add: settled_def)
qed

end
