(* ===== verification/Contract_Text.thy ===== *)
theory Contract_Text
  imports PyValue "HOL-Library.Char_ord" "HOL-Library.List_Lexorder"
begin

text \<open>
  What the deployment documents (\<open>ops/deploy/contracts.py\<close>, \<open>ops/release/recovery_policy.py\<close>)
  are read with: equality of Python values, the canonical JSON text, paths, version numbers
  and the full matches of the compiled patterns. Where the language raises \<open>TypeError\<close>, on
  a list put into a set, the model raises it too.
\<close>

section \<open>Equality of values\<close>

text \<open>Numbers of all three types compare by value; the items of a mapping have no order.\<close>

fun number_of :: "pyval \<Rightarrow> rat option" where
  "number_of (PBool b) = Some (if b then 1 else 0)"
| "number_of (PInt i) = Some (of_int i)"
| "number_of (PFloat q) = Some q"
| "number_of v = None"

function py_eq :: "pyval \<Rightarrow> pyval \<Rightarrow> bool" where
  "py_eq (PList vs) w =
     (case w of PList ws \<Rightarrow> length vs = length ws \<and> list_all (\<lambda>(a, b). py_eq a b) (zip vs ws) | _ \<Rightarrow> False)"
| "py_eq (PDict kvs) w =
     (case w of
        PDict kws \<Rightarrow> length kvs = length kws \<and>
          list_all (\<lambda>kv. case map_of kws (fst kv) of None \<Rightarrow> False | Some b \<Rightarrow> py_eq (snd kv) b) kvs
      | _ \<Rightarrow> False)"
| "py_eq PNone w \<longleftrightarrow> w = PNone"
| "py_eq (PStr s) w \<longleftrightarrow> w = PStr s"
| "py_eq (PBool b) w \<longleftrightarrow> number_of w = Some (if b then 1 else 0)"
| "py_eq (PInt i) w \<longleftrightarrow> number_of w = Some (of_int i)"
| "py_eq (PFloat q) w \<longleftrightarrow> number_of w = Some q"
  by pat_completeness auto
termination
proof (relation "measure (size \<circ> fst)")
  show "((a, b), PList vs, w) \<in> measure (size \<circ> fst)"
    if "(a, b) = z" and "z \<in> set (zip vs ws)" for vs ws :: "pyval list" and w z a b
    using set_zip_leftD [of a b vs ws] that size_list_estimation' [of a vs _ size, OF _ order_refl]
    by (auto simp: le_imp_less_Suc)
next
  show "((snd z, b), PDict kvs, w) \<in> measure (size \<circ> fst)"
    if "z \<in> set kvs" for kvs :: "(string \<times> pyval) list" and w z b
    using that size_list_estimation' [of z kvs _ "size_prod (\<lambda>_. 0) size", OF _ order_refl]
    by (simp add: le_imp_less_Suc prod.size_gen(1) [of _ _ "fst z" "snd z", simplified])
qed simp_all

text \<open>\<open>len(xs) == len(set(xs))\<close>; \<open>set\<close> raises on a member that is a list or a mapping.\<close>

fun all_different :: "pyval list \<Rightarrow> bool" where
  "all_different [] = True"
| "all_different (v # vs) = (list_all (\<lambda>w. \<not> py_eq v w) vs \<and> all_different vs)"

definition unhashable :: exn where
  "unhashable = type_error ''unhashable type''"

section \<open>Canonical JSON\<close>

text \<open>
  \<open>canonical_json_bytes\<close>: sorted keys, no blanks, every character outside the printable
  ASCII ones escaped, and a line end. The text of a float is a parameter.
\<close>

definition hex4 :: "nat \<Rightarrow> string" where
  "hex4 n = map (\<lambda>k. (''0123456789abcdef'' ! ((n div 16 ^ k) mod 16))) [3, 2, 1, 0]"

definition json_char :: "char \<Rightarrow> string" where
  "json_char c =
     (if c = CHR 0x22 then [CHR 0x5C, CHR 0x22]
      else if c = CHR 0x5C then [CHR 0x5C, CHR 0x5C]
      else if printable c then [c]
      else if code c = 8 then [CHR 0x5C, CHR ''b'']
      else if code c = 9 then [CHR 0x5C, CHR ''t'']
      else if code c = 10 then [CHR 0x5C, CHR ''n'']
      else if code c = 12 then [CHR 0x5C, CHR ''f'']
      else if code c = 13 then [CHR 0x5C, CHR ''r'']
      else CHR 0x5C # CHR ''u'' # hex4 (code c))"

definition json_string :: "string \<Rightarrow> string" where
  "json_string s = CHR 0x22 # concat (map json_char s) @ [CHR 0x22]"

fun json_text :: "(rat \<Rightarrow> string) \<Rightarrow> pyval \<Rightarrow> string" where
  "json_text float PNone = ''null''"
| "json_text float (PBool b) = (if b then ''true'' else ''false'')"
| "json_text float (PInt i) = show_int i"
| "json_text float (PFloat q) = float q"
| "json_text float (PStr s) = json_string s"
| "json_text float (PList vs) = ''['' @ join '','' (map (json_text float) vs) @ '']''"
| "json_text float (PDict kvs) =
     ''{'' @ join '','' (map snd (sort_key fst (map (\<lambda>(k, v). (k, json_string k @ '':'' @ json_text float v)) kvs)))
     @ ''}''"

definition canonical_json :: "(rat \<Rightarrow> string) \<Rightarrow> pyval \<Rightarrow> string" where
  "canonical_json float v = json_text float v @ [LF]"

section \<open>Splitting\<close>

text \<open>\<open>s.split(c)\<close> for one character.\<close>

fun split_on :: "char \<Rightarrow> string \<Rightarrow> string list" where
  "split_on c [] = [[]]"
| "split_on c (d # s) =
     (if d = c then [] # split_on c s
      else (case split_on c s of [] \<Rightarrow> [[d]] | p # ps \<Rightarrow> (d # p) # ps))"

definition ends_with :: "string \<Rightarrow> string \<Rightarrow> bool" where
  "ends_with s p \<longleftrightarrow> starts_with (rev s) (rev p)"

fun contains :: "string \<Rightarrow> string \<Rightarrow> bool" where
  "contains p [] = (p = [])"
| "contains p (c # s) = (starts_with (c # s) p \<or> contains p s)"

section \<open>Paths\<close>

text \<open>\<open>PurePosixPath(s).parts\<close>: the root, one slash or exactly two, and the names that are
  neither empty nor a dot.\<close>

definition path_names :: "string \<Rightarrow> string list" where
  "path_names s = filter (\<lambda>p. p \<noteq> [] \<and> p \<noteq> ''.'') (split_on (CHR ''/'') s)"

definition path_root :: "string \<Rightarrow> string" where
  "path_root s =
     (if \<not> starts_with s ''/'' then ''''
      else if starts_with s ''//'' \<and> \<not> starts_with s ''///'' then ''//'' else ''/'')"

definition path_parts :: "string \<Rightarrow> string list" where
  "path_parts s = (if path_root s = '''' then [] else [path_root s]) @ path_names s"

section \<open>Full matches\<close>

definition between :: "char \<Rightarrow> char \<Rightarrow> char \<Rightarrow> bool" where
  "between lo hi c \<longleftrightarrow> code lo \<le> code c \<and> code c \<le> code hi"

definition digit :: "char \<Rightarrow> bool" where
  "digit c \<longleftrightarrow> between (CHR ''0'') (CHR ''9'') c"

definition lower_case :: "char \<Rightarrow> bool" where
  "lower_case c \<longleftrightarrow> between (CHR ''a'') (CHR ''z'') c"

definition upper_case :: "char \<Rightarrow> bool" where
  "upper_case c \<longleftrightarrow> between (CHR ''A'') (CHR ''Z'') c"

definition alnum :: "char \<Rightarrow> bool" where
  "alnum c \<longleftrightarrow> digit c \<or> lower_case c \<or> upper_case c"

definition alnum_or :: "string \<Rightarrow> char \<Rightarrow> bool" where
  "alnum_or extra c \<longleftrightarrow> alnum c \<or> c \<in> set extra"

text \<open>One character of the first class, then \<open>lo\<close> to \<open>hi\<close> of the second.\<close>

definition head_then :: "(char \<Rightarrow> bool) \<Rightarrow> (char \<Rightarrow> bool) \<Rightarrow> nat \<Rightarrow> nat \<Rightarrow> string \<Rightarrow> bool" where
  "head_then first rest lo hi s \<longleftrightarrow>
     (case s of [] \<Rightarrow> False
      | c # cs \<Rightarrow> first c \<and> lo \<le> length cs \<and> length cs \<le> hi \<and> list_all rest cs)"

definition COMMIT_RE :: "string \<Rightarrow> bool" where
  "COMMIT_RE s \<longleftrightarrow> length s = 40 \<and> list_all hex_digit s"

definition SERVICE_RE :: "string \<Rightarrow> bool" where
  "SERVICE_RE = head_then alnum (alnum_or ''_.-'') 0 63"

definition SAFE_RELATIVE_RE :: "string \<Rightarrow> bool" where
  "SAFE_RELATIVE_RE = head_then (alnum_or ''.'') (alnum_or ''._/-'') 0 254"

definition SAFE_REPOSITORY_RE :: "string \<Rightarrow> bool" where
  "SAFE_REPOSITORY_RE s \<longleftrightarrow>
     (case split_on (CHR ''/'') s of
        [owner, name] \<Rightarrow> head_then alnum (alnum_or ''-'') 0 38 owner
          \<and> 1 \<le> length name \<and> length name \<le> 100 \<and> list_all (alnum_or ''._-'') name
      | _ \<Rightarrow> False)"

definition command_re :: "string \<Rightarrow> bool" where
  "command_re = head_then lower_case (\<lambda>c. lower_case c \<or> digit c \<or> c = CHR ''_'') 0 63"

definition contract_name_re :: "string \<Rightarrow> bool" where
  "contract_name_re = head_then alnum (alnum_or ''_.:-'') 0 199"

definition run_id_re :: "string \<Rightarrow> bool" where
  "run_id_re = head_then (\<lambda>c. digit c \<and> c \<noteq> CHR ''0'') digit 0 19"

text \<open>\<open>[a-z0-9]+(?:[._/-][a-z0-9]+)*(?::[A-Za-z0-9][A-Za-z0-9._-]{0,127})?@sha256:[0-9a-f]{64}\<close>:
  no class before the at sign has one, and only the colon starts the tag.\<close>

definition image_name :: "string \<Rightarrow> bool" where
  "image_name s \<longleftrightarrow>
     list_all (\<lambda>p. p \<noteq> [] \<and> list_all (\<lambda>c. lower_case c \<or> digit c) p)
       (split_on (CHR ''/'') (map (\<lambda>c. if c \<in> set ''._-'' then CHR ''/'' else c) s))"

definition IMAGE_DIGEST_RE :: "string \<Rightarrow> bool" where
  "IMAGE_DIGEST_RE s \<longleftrightarrow>
     (case split_on (CHR ''@'') s of
        [img, hashed] \<Rightarrow>
          starts_with hashed ''sha256:'' \<and> sha256_text (drop 7 hashed)
          \<and> (case split_on (CHR 0x3A) img of
               [name] \<Rightarrow> image_name name
             | [name, tag] \<Rightarrow> image_name name \<and> head_then alnum (alnum_or ''._-'') 0 127 tag
             | _ \<Rightarrow> False)
      | _ \<Rightarrow> False)"

section \<open>Version numbers\<close>

text \<open>A number without leading zeros, \<open>0|[1-9][0-9]*\<close>.\<close>

definition plain_number :: "string \<Rightarrow> bool" where
  "plain_number s \<longleftrightarrow> list_all digit s \<and> s \<noteq> [] \<and> (s = ''0'' \<or> hd s \<noteq> CHR ''0'')"

definition SEMVER_RE :: "string \<Rightarrow> bool" where
  "SEMVER_RE s \<longleftrightarrow> (let ps = split_on (CHR ''.'') s in length ps = 3 \<and> list_all plain_number ps)"

text \<open>The tuple of the three numbers, compared as Python compares tuples.\<close>

datatype version = Version nat nat nat

fun version_numbers :: "version \<Rightarrow> nat list" where
  "version_numbers (Version a b c) = [a, b, c]"

instantiation version :: linorder
begin

definition less_eq_version :: "version \<Rightarrow> version \<Rightarrow> bool" where
  "v \<le> w \<longleftrightarrow> version_numbers v \<le> version_numbers w"

definition less_version :: "version \<Rightarrow> version \<Rightarrow> bool" where
  "v < w \<longleftrightarrow> version_numbers v < version_numbers w"

instance
proof
  fix u v w :: version
  show "v < w \<longleftrightarrow> v \<le> w \<and> \<not> w \<le> v" and "v \<le> v" and "v \<le> w \<or> w \<le> v"
    by (auto simp: less_eq_version_def less_version_def)
  show "u \<le> v \<Longrightarrow> v \<le> w \<Longrightarrow> u \<le> w"
    unfolding less_eq_version_def by (rule order_trans)
  assume "v \<le> w" and "w \<le> v"
  then have "version_numbers v = version_numbers w"
    by (simp add: less_eq_version_def)
  then show "v = w"
    by (cases v; cases w) simp
qed

end

definition read_version :: "string \<Rightarrow> version" where
  "read_version s =
     (let ps = split_on (CHR ''.'') s in Version (read_nat (ps ! 0)) (read_nat (ps ! 1)) (read_nat (ps ! 2)))"

definition show_version :: "version \<Rightarrow> string" where
  "show_version v = join ''.'' (map show_nat (version_numbers v))"

section \<open>Checks in a row\<close>

text \<open>\<open>if not p: raise e\<close>, and a comprehension whose items may raise.\<close>

definition require :: "bool \<Rightarrow> exn \<Rightarrow> exn + unit" where
  "require p e = (if p then Inr () else Inl e)"

fun each_result :: "('a \<Rightarrow> exn + 'b) \<Rightarrow> 'a list \<Rightarrow> exn + 'b list" where
  "each_result f [] = Inr []"
| "each_result f (x # xs) =
     bind_result (f x) (\<lambda>y. bind_result (each_result f xs) (\<lambda>ys. Inr (y # ys)))"

definition same_keys :: "(string \<times> pyval) list \<Rightarrow> string list \<Rightarrow> bool" where
  "same_keys kvs names \<longleftrightarrow> set (map fst kvs) = set names"

text \<open>What the documents are decoded and hashed with: \<open>json.loads\<close> (\<open>None\<close>: the bytes
  are not UTF-8 or not JSON), the text of a float, SHA-256, and the Unicode tables.\<close>

record library =
  lb_loads :: "string \<Rightarrow> pyval option"
  lb_float :: "rat \<Rightarrow> string"
  lb_sha256 :: "string \<Rightarrow> string"
  lb_nfc :: "string \<Rightarrow> string"
  lb_casefold :: "string \<Rightarrow> string"

lemma require_Inr [simp]: "require p e = Inr u \<longleftrightarrow> p"
  by (simp add: require_def)

lemma each_result_Inr:
  "each_result f xs = Inr ys \<Longrightarrow> list_all2 (\<lambda>x y. f x = Inr y) xs ys"
  by (induction xs arbitrary: ys) (auto simp: bind_result_Inr_iff)

lemma each_result_set: "each_result f xs = Inr ys \<Longrightarrow> y \<in> set ys \<Longrightarrow> \<exists>x \<in> set xs. f x = Inr y"
  by (induction xs arbitrary: ys) (auto simp: bind_result_Inr_iff)

lemma each_result_length: "each_result f xs = Inr ys \<Longrightarrow> length ys = length xs"
  by (drule each_result_Inr, drule list_all2_lengthD) simp

section \<open>Splitting and joining again\<close>

lemma split_on_nonempty [simp]: "split_on c s \<noteq> []"
  by (induction s) (auto split: list.splits)

lemma join_split_on: "join [c] (split_on c s) = s"
proof (induction s)
  case (Cons d s)
  obtain p ps where "split_on c s = p # ps"
    by (cases "split_on c s") auto
  with Cons show ?case
    by (cases ps) auto
qed simp

lemma split_on_plain: "c \<notin> set s \<Longrightarrow> split_on c s = [s]"
  by (induction s) auto

lemma split_on_append: "c \<notin> set p \<Longrightarrow> split_on c (p @ c # s) = p # split_on c s"
  by (induction p) auto

lemma split_on_join: "ps \<noteq> [] \<Longrightarrow> (\<And>p. p \<in> set ps \<Longrightarrow> c \<notin> set p) \<Longrightarrow> split_on c (join [c] ps) = ps"
  by (induction "[c]" ps rule: join.induct) (simp_all add: split_on_plain split_on_append)

lemma split_on_parts: "p \<in> set (split_on c s) \<Longrightarrow> c \<notin> set p \<and> set p \<subseteq> set s"
proof (induction s arbitrary: p)
  case (Cons d s)
  then show ?case
    by (cases "split_on c s") (fastforce split: if_splits)+
qed simp

section \<open>Numbers and versions read back\<close>

lemma digit_digit_char: "d < 10 \<Longrightarrow> digit (digit_char d)"
  by (simp add: digit_def between_def code_def of_digit_char)

lemma digit_char_code: "digit c \<Longrightarrow> digit_char (code c - 48) = c"
  by (simp add: digit_def between_def code_def digit_char_def)

lemma digit_code: "digit c \<Longrightarrow> code c - 48 < 10"
  by (auto simp: digit_def between_def code_def)

lemma digits_show_nat: "list_all digit (show_nat n)"
  by (induction n rule: show_nat.induct) (subst show_nat.simps, simp add: digit_digit_char)

lemma show_nat_nonempty [simp]: "show_nat n \<noteq> []"
  by (subst show_nat.simps) simp

lemma zero_char: "char_of (48 :: nat) = CHR ''0''"
  by code_simp

lemma digit_char_zero: "d < 10 \<Longrightarrow> digit_char d = CHR ''0'' \<longleftrightarrow> d = 0"
proof
  assume "d < 10" and "digit_char d = CHR ''0''"
  then have "48 + d = of_char (CHR ''0'')"
    using of_digit_char [of d] by simp
  then show "d = 0"
    by simp
qed (simp add: digit_char_def zero_char)

lemma hd_show_nat: "hd (show_nat n) = CHR ''0'' \<longleftrightarrow> n = 0"
proof (induction n rule: show_nat.induct)
  case (1 n)
  then show ?case
    by (subst show_nat.simps) (simp add: digit_char_zero hd_append div_eq_0_iff)
qed

lemma plain_show_nat: "plain_number (show_nat n)"
proof (cases "n = 0")
  case True
  then show ?thesis
    by (simp add: plain_number_def show_nat.simps [of 0] digit_char_def digit_def between_def code_def)
next
  case False
  then show ?thesis
    by (simp add: plain_number_def digits_show_nat hd_show_nat)
qed

lemma read_nat_snoc: "read_nat (s @ [c]) = 10 * read_nat s + (code c - 48)"
  by (simp add: read_nat_def code_def)

lemma read_nat_positive: "list_all digit s \<Longrightarrow> s \<noteq> [] \<Longrightarrow> hd s \<noteq> CHR ''0'' \<Longrightarrow> 0 < read_nat s"
proof (induction s rule: rev_induct)
  case (snoc c s)
  show ?case
  proof (cases "s = []")
    case True
    then have "digit c" "c \<noteq> CHR ''0''"
      using snoc.prems by simp_all
    then have "code c - 48 \<noteq> 0"
      using digit_char_code [of c] by (metis digit_char_zero zero_less_numeral)
    then show ?thesis
      using True by (simp add: read_nat_snoc [of "[]", simplified])
  qed (use snoc in \<open>simp add: read_nat_snoc\<close>)
qed simp

lemma show_read_digits:
  "list_all digit s \<Longrightarrow> s \<noteq> [] \<Longrightarrow> hd s \<noteq> CHR ''0'' \<Longrightarrow> show_nat (read_nat s) = s"
proof (induction s rule: rev_induct)
  case (snoc c s)
  have c: "code c - 48 < 10" "digit_char (code c - 48) = c"
    using snoc.prems by (simp_all add: digit_code digit_char_code)
  show ?case
  proof (cases "s = []")
    case True
    then show ?thesis
      using c by (simp add: read_nat_def code_def show_nat.simps)
  next
    case False
    then have "show_nat (read_nat s) = s" "0 < read_nat s"
      using snoc by (simp_all add: read_nat_positive)
    then show ?thesis
      using c by (subst show_nat.simps) (simp add: read_nat_snoc)
  qed
qed simp

lemma show_read_plain: "plain_number s \<Longrightarrow> show_nat (read_nat s) = s"
proof (cases "s = ''0''")
  case True
  then show ?thesis
    by (simp add: read_nat_def show_nat.simps digit_char_def zero_char)
qed (simp add: plain_number_def show_read_digits)

lemma no_dot_plain: "plain_number s \<Longrightarrow> CHR ''.'' \<notin> set s"
  by (auto simp: plain_number_def list_all_iff digit_def between_def code_def)

lemma three_elements: "length xs = 3 \<longleftrightarrow> (\<exists>a b c. xs = [a, b, c])"
  by (auto simp: numeral_eq_Suc length_Suc_conv)

lemma split_show_version:
  "split_on (CHR ''.'') (show_version v) = map show_nat (version_numbers v)"
  unfolding show_version_def
  using no_dot_plain [OF plain_show_nat] by (cases v) (intro split_on_join, auto)

lemma version_of_show: "SEMVER_RE (show_version v)" "read_version (show_version v) = v"
  by (cases v; simp add: SEMVER_RE_def read_version_def split_show_version plain_show_nat)+

lemma show_of_read: "SEMVER_RE s \<Longrightarrow> show_version (read_version s) = s"
proof -
  assume s: "SEMVER_RE s"
  then obtain a b c where p: "split_on (CHR ''.'') s = [a, b, c]"
    and n: "plain_number a" "plain_number b" "plain_number c"
    by (auto simp: SEMVER_RE_def Let_def three_elements)
  have "show_version (read_version s) = join ''.'' [a, b, c]"
    using n by (simp add: show_version_def read_version_def p show_read_plain)
  also have "\<dots> = s"
    using join_split_on [of "CHR ''.''" s] by (simp add: p)
  finally show ?thesis .
qed

end
