(* ===== verification/Recovery_Policy.thy ===== *)
theory Recovery_Policy
  imports Contract_Text
begin

text \<open>
  The reviewed policy of a release-gap recovery (\<open>ops/release/recovery_policy.py\<close>): the
  identity of a release, the two policies a recovery may name, one read from a file and one
  written in the code, and the boundary of compatibility the second may cross. What is
  decoded stays a Python value where the code compares it as one; a validated identity is
  a record of its five fields.
\<close>

section \<open>Identities of releases\<close>

definition policy_error :: "string \<Rightarrow> exn" where
  "policy_error message =
     \<lparr>ex_class = ''RecoveryPolicyError'', ex_text = message, ex_deployment = False\<rparr>"

text \<open>\<open>except RecoveryPolicyError as exc: raise DeploymentError(str(exc)) from exc\<close>.\<close>

definition as_deployment_error :: "exn + 'a \<Rightarrow> exn + 'a" where
  "as_deployment_error r =
     (case r of Inr x \<Rightarrow> Inr x
      | Inl e \<Rightarrow> Inl (if ex_class e = ''RecoveryPolicyError'' then deployment_error (ex_text e) else e))"

record release_identity =
  ri_manifest_sha256 :: string
  ri_platform_version :: string
  ri_release_commit :: string
  ri_release_ref :: string
  ri_source_commit :: string

definition identity_fields :: "string list" where
  "identity_fields =
     [''manifest_sha256'', ''platform_version'', ''release_commit'', ''release_ref'', ''source_commit'']"

definition identity_value :: "release_identity \<Rightarrow> pyval" where
  "identity_value i = PDict
     [(''manifest_sha256'', PStr (ri_manifest_sha256 i)),
      (''platform_version'', PStr (ri_platform_version i)),
      (''release_commit'', PStr (ri_release_commit i)),
      (''release_ref'', PStr (ri_release_ref i)),
      (''source_commit'', PStr (ri_source_commit i))]"

text \<open>The fields of a mapping known to have exactly these, all strings.\<close>

definition read_identity :: "pyval \<Rightarrow> release_identity" where
  "read_identity v =
     (let field = \<lambda>k. the_str (get_key (the_dict v) k)
      in \<lparr>ri_manifest_sha256 = field ''manifest_sha256'', ri_platform_version = field ''platform_version'',
          ri_release_commit = field ''release_commit'', ri_release_ref = field ''release_ref'',
          ri_source_commit = field ''source_commit''\<rparr>)"

definition version_tuple :: "pyval \<Rightarrow> exn + version" where
  "version_tuple v =
     (if is_str v \<and> SEMVER_RE (the_str v) then Inr (read_version (the_str v))
      else Inl (policy_error ''Recovery policy contains an invalid platform version''))"

definition str_matching :: "(string \<Rightarrow> bool) \<Rightarrow> pyval \<Rightarrow> bool" where
  "str_matching p v \<longleftrightarrow> is_str v \<and> p (the_str v)"

definition release_ref :: "string \<Rightarrow> string" where
  "release_ref version = ''release/platform-v'' @ version"

definition validate_release_identity :: "string \<Rightarrow> pyval \<Rightarrow> exn + release_identity" where
  "validate_release_identity place v =
     (let d = the_dict v
      in bind_result (require (is_dict v \<and> same_keys d identity_fields)
              (policy_error (place @ '' has invalid fields''))) (\<lambda>_.
         bind_result (version_tuple (get_key d ''platform_version'')) (\<lambda>_.
         bind_result (require (get_key d ''release_ref'' = PStr (release_ref (the_str (get_key d ''platform_version''))))
              (policy_error (place @ '' has an invalid release ref''))) (\<lambda>_.
         bind_result (require (str_matching COMMIT_RE (get_key d ''release_commit''))
              (policy_error (place @ '' has an invalid release_commit''))) (\<lambda>_.
         bind_result (require (str_matching COMMIT_RE (get_key d ''source_commit''))
              (policy_error (place @ '' has an invalid source_commit''))) (\<lambda>_.
         bind_result (require (str_matching sha256_text (get_key d ''manifest_sha256''))
              (policy_error (place @ '' has an invalid manifest digest''))) (\<lambda>_.
         Inr (read_identity v))))))))"

text \<open>A list comprehension over \<open>enumerate(items)\<close>; the index is part of the context.\<close>

definition validate_identities :: "string \<Rightarrow> pyval list \<Rightarrow> exn + release_identity list" where
  "validate_identities place items =
     each_result (\<lambda>(i, v). validate_release_identity (place @ show_nat i) v) (enumerate 0 items)"

text \<open>\<open>versions == sorted(set(versions))\<close>.\<close>

definition strictly_sorted :: "version list \<Rightarrow> bool" where
  "strictly_sorted vs \<longleftrightarrow> vs = sort (remdups vs)"

definition identity_version :: "release_identity \<Rightarrow> version" where
  "identity_version i = read_version (ri_platform_version i)"

section \<open>The successor gap, written in the code\<close>

definition V08_GAP_POLICY_ID :: string where
  "V08_GAP_POLICY_ID = ''production-v0.8.0-v0.8.1-gap-20260930''"

definition RELEASE_0_8_0 :: pyval where
  "RELEASE_0_8_0 = PDict
     [(''manifest_sha256'', PStr ''025a59f242337bc47b9af313a319a57a992af93854bce9f5749381547dcfd450''),
      (''platform_version'', PStr ''0.8.0''),
      (''release_commit'', PStr ''4f23266088dfb4bdef42f503fecc21360e90c351''),
      (''release_ref'', PStr ''release/platform-v0.8.0''),
      (''source_commit'', PStr ''ffe6e1b1834f0c550cff001a2b7c14cd6839256e'')]"

definition RELEASE_0_8_1 :: pyval where
  "RELEASE_0_8_1 = PDict
     [(''manifest_sha256'', PStr ''ac7e338da9232e53bae216aa86f32967e918928009d34b59f6a7e5c5fdbcf675''),
      (''platform_version'', PStr ''0.8.1''),
      (''release_commit'', PStr ''93e166acaeff18e4ec1967c7c4443075aa2fab78''),
      (''release_ref'', PStr ''release/platform-v0.8.1''),
      (''source_commit'', PStr ''656f9d7bd677d14e92d20b2ca188a3cb5e316617'')]"

definition V08_GAP_POLICY :: "(string \<times> pyval) list" where
  "V08_GAP_POLICY =
     [(''baseline'', RELEASE_0_8_0),
      (''published_releases'', PList [RELEASE_0_8_0, RELEASE_0_8_1]),
      (''policy_id'', PStr V08_GAP_POLICY_ID),
      (''repository'', PStr ''Fifty5D/B-UH-AllianceAuth''),
      (''schema_version'', PInt 1)]"

definition V08_ADDED_APPS :: "string list" where
  "V08_ADDED_APPS = [''memberaudit-autoreg'', ''vps-health'']"

section \<open>The host baseline of the historical policy\<close>

definition image_id :: "string \<Rightarrow> bool" where
  "image_id s \<longleftrightarrow> starts_with s ''sha256:'' \<and> sha256_text (drop 7 s)"

definition has_keys :: "pyval \<Rightarrow> string list \<Rightarrow> bool" where
  "has_keys v names \<longleftrightarrow> is_dict v \<and> same_keys (the_dict v) names"

definition owned_file :: "(string \<times> pyval) list \<Rightarrow> string \<Rightarrow> pyval" where
  "owned_file rest mode = PDict ((''gid'', PInt 0) # (''uid'', PInt 0) # (''mode'', PStr mode) # rest)"

definition service_identity_ok :: "pyval \<Rightarrow> bool" where
  "service_identity_ok v \<longleftrightarrow>
     has_keys v [''image_id'', ''replicas''] \<and> str_matching image_id (get_key (the_dict v) ''image_id'')
     \<and> is_int (get_key (the_dict v) ''replicas'')
     \<and> 1 \<le> the_int (get_key (the_dict v) ''replicas'') \<and> the_int (get_key (the_dict v) ''replicas'') \<le> 128"

definition front_container_ok :: "pyval \<Rightarrow> string \<Rightarrow> string \<Rightarrow> bool" where
  "front_container_ok v service container \<longleftrightarrow>
     has_keys v [''container'', ''image_id'', ''service'']
     \<and> get_key (the_dict v) ''service'' = PStr service
     \<and> get_key (the_dict v) ''container'' = PStr container
     \<and> str_matching image_id (get_key (the_dict v) ''image_id'')"

definition receiver_baseline_ok :: "pyval \<Rightarrow> exn + unit" where
  "receiver_baseline_ok v =
     bind_result (require (has_keys v [''config'', ''files'', ''install_record''])
        (policy_error ''Recovery installed-receiver baseline changed'')) (\<lambda>_.
     bind_result (require (py_eq (get_key (the_dict v) ''config'')
          (owned_file [(''path'', PStr ''/etc/buh-platform-v2/receiver.json''), (''schema_version'', PInt 1),
             (''sha256'', PStr ''b57e6db83bccbedcf944985469f4f621e0b34b4eb34274b68c2dff210444bb04'')] ''0600''))
        (policy_error ''Recovery receiver-config baseline changed'')) (\<lambda>_.
     bind_result (require (py_eq (get_key (the_dict v) ''install_record'')
          (owned_file [(''path'', PStr ''/etc/buh-platform-v2/INSTALL.json''),
             (''sha256'', PStr ''98c1dafcc50c410a8caae7531f4b2f87b1caa055a0fdd3ca6e97973c7ce9f743''),
             (''source_commit'', PStr ''afd2d37e09856c34be1d18f76383898d87a384a7'')] ''0600''))
        (policy_error ''Recovery receiver-install baseline changed'')) (\<lambda>_.
     require (py_eq (get_key (the_dict v) ''files'') (PDict
          [(''/usr/local/lib/buh-platform-v2/ops/deploy/contracts.py'', owned_file
              [(''sha256'', PStr ''62a02fcd36393bb110c15f2489e66d42e043ad21ee211e37ab03c80a584a2701'')] ''0644''),
           (''/usr/local/lib/buh-platform-v2/ops/deploy/docker_host.py'', owned_file
              [(''sha256'', PStr ''c538f0737c1fd81561250ae24dc81b94e82caf8de4c76e589d865d484120c6d0'')] ''0644''),
           (''/usr/local/sbin/buh-deploy-dispatch'', owned_file
              [(''sha256'', PStr ''6684f39ab4413540545bafa8fba1908f9fd412dbf4c9500cb77eff86a2e359ac'')] ''0755''),
           (''/usr/local/sbin/buh-platform-v2-receiver'', owned_file
              [(''sha256'', PStr ''41efdd024619c2c4048e7964ef9220bddf52fd09284004837a8293f126b26d48'')] ''0755'')]))
        (policy_error ''Recovery receiver-file baseline changed''))))"

definition validate_host_baseline :: "pyval \<Rightarrow> exn + unit" where
  "validate_host_baseline v =
     (let field = get_key (the_dict v)
      in bind_result (require (has_keys v
              [''auth_services'', ''compose_files_after_activation'', ''compose_files_before_activation'',
               ''discord_owner'', ''front_proxy'', ''installed_receiver'', ''local_settings'', ''nginx''])
            (policy_error ''Recovery host baseline has invalid fields'')) (\<lambda>_.
         bind_result (require (has_keys (field ''auth_services'')
              [''allianceauth_gunicorn'', ''allianceauth_worker'', ''allianceauth_worker_services'',
               ''allianceauth_beat''])
            (policy_error ''Recovery host baseline has invalid Auth services'')) (\<lambda>_.
         bind_result (each_result (\<lambda>(service, identity). require (service_identity_ok identity)
              (policy_error (''Recovery host baseline has an invalid '' @ service @ '' identity'')))
            (the_dict (field ''auth_services''))) (\<lambda>_.
         bind_result (require (py_eq (field ''compose_files_before_activation'')
              (PList [PStr ''docker-compose.yml'', PStr ''docker-compose.buh-vps-health.yml'']))
            (policy_error ''Recovery pre-activation Compose baseline changed'')) (\<lambda>_.
         bind_result (require (py_eq (field ''compose_files_after_activation'')
              (PList [PStr ''docker-compose.yml'', PStr ''docker-compose.buh-vps-health.yml'',
                      PStr ''docker-compose.buh-platform-v2.yml'']))
            (policy_error ''Recovery activated Compose baseline changed'')) (\<lambda>_.
         bind_result (require (has_keys (field ''discord_owner'') [''auth_username'', ''discord_user_id'', ''guild_id'']
              \<and> get_key (the_dict (field ''discord_owner'')) ''auth_username'' = PStr ''Fifty5D''
              \<and> get_key (the_dict (field ''discord_owner'')) ''discord_user_id'' = PStr ''318985508913020930''
              \<and> get_key (the_dict (field ''discord_owner'')) ''guild_id'' = PStr ''1521272563626672198'')
            (policy_error ''Recovery Discord owner baseline changed'')) (\<lambda>_.
         bind_result (require (py_eq (field ''local_settings'')
              (PDict [(''gid'', PInt 61000), (''mode'', PStr ''0640''), (''path'', PStr ''conf/local.py''),
                      (''uid'', PInt 0)]))
            (policy_error ''Recovery local-settings baseline changed'')) (\<lambda>_.
         bind_result (receiver_baseline_ok (field ''installed_receiver'')) (\<lambda>_.
         bind_result (require (front_container_ok (field ''nginx'') ''nginx'' ''aa-docker-nginx-1'')
            (policy_error ''Recovery nginx baseline changed'')) (\<lambda>_.
         require (front_container_ok (field ''front_proxy'') ''proxy'' ''aa-docker-proxy-1'')
            (policy_error ''Recovery front_proxy baseline changed'')))))))))))"

section \<open>Loading a policy\<close>

definition policy_fields :: "string list" where
  "policy_fields = [''baseline'', ''host_baseline'', ''policy_id'', ''published_releases'', ''repository'',
     ''schema_version'', ''server_evidence'']"

text \<open>The text of the policy file, or \<open>None\<close> when reading it raises \<open>OSError\<close>.\<close>

definition load_policy :: "library \<Rightarrow> string option \<Rightarrow> exn + (string \<times> pyval) list" where
  "load_policy lib file =
     bind_result (case file of None \<Rightarrow> Inl (policy_error ''Reviewed recovery policy is unavailable'') | Some raw \<Rightarrow> Inr raw)
       (\<lambda>raw.
     bind_result (require (raw \<noteq> [] \<and> length raw \<le> 64 * 1024)
        (policy_error ''Reviewed recovery policy has an unsafe size'')) (\<lambda>_.
     bind_result (case (if list_all is_ascii raw then lb_loads lib raw else None) of
          None \<Rightarrow> Inl (policy_error ''Reviewed recovery policy is unreadable'') | Some v \<Rightarrow> Inr v) (\<lambda>v.
     bind_result (require (raw = canonical_json (lb_float lib) v)
        (policy_error ''Reviewed recovery policy is not canonical'')) (\<lambda>_.
     bind_result (require (has_keys v policy_fields)
        (policy_error ''Reviewed recovery policy has invalid fields'')) (\<lambda>_.
     (let d = the_dict v
      in bind_result (require (py_eq (get_key d ''schema_version'') (PInt 1)
              \<and> get_key d ''policy_id'' = PStr ''production-v0.5.6-published-gap-20260907''
              \<and> get_key d ''repository'' = PStr ''Fifty5D/B-UH-AllianceAuth'')
            (policy_error ''Reviewed recovery policy has the wrong identity'')) (\<lambda>_.
         bind_result (require (py_eq (get_key d ''server_evidence'') (PDict
              [(''captured_at'', PStr ''2026-09-07T22:17:17.791522+00:00''),
               (''sha256'', PStr ''df9865e121e068cc65c3e6b05cb287f1b87f05772e54ecd4c7d07fa61137fc38'')]))
            (policy_error ''Reviewed server evidence identity changed'')) (\<lambda>_.
         bind_result (validate_release_identity ''Recovery baseline'' (get_key d ''baseline'')) (\<lambda>baseline.
         bind_result (require (is_list (get_key d ''published_releases'')
              \<and> length (the_list (get_key d ''published_releases'')) = 3)
            (policy_error ''Reviewed recovery chain has an invalid length'')) (\<lambda>_.
         bind_result (validate_identities ''Recovery release '' (the_list (get_key d ''published_releases''))) (\<lambda>identities.
         bind_result (require (hd identities = baseline)
            (policy_error ''Recovery chain does not start at its baseline'')) (\<lambda>_.
         bind_result (require (strictly_sorted (map identity_version identities))
            (policy_error ''Recovery release chain is not strictly increasing'')) (\<lambda>_.
         bind_result (validate_host_baseline (get_key d ''host_baseline'')) (\<lambda>_.
         Inr d)))))))))))))) "

definition policy_sha256 :: "library \<Rightarrow> string option \<Rightarrow> exn + string" where
  "policy_sha256 lib file =
     bind_result (load_policy lib file) (\<lambda>d. Inr (lb_sha256 lib (canonical_json (lb_float lib) (PDict d))))"

definition load_transition_policy :: "library \<Rightarrow> string option \<Rightarrow> pyval \<Rightarrow> exn + (string \<times> pyval) list" where
  "load_transition_policy lib file policy_id =
     (if policy_id = PStr V08_GAP_POLICY_ID then Inr V08_GAP_POLICY
      else bind_result (load_policy lib file) (\<lambda>historical.
             bind_result (require (py_eq policy_id (get_key historical ''policy_id''))
                (policy_error ''Unrecognized deployment recovery policy'')) (\<lambda>_. Inr historical)))"

definition transition_policy_sha256 :: "library \<Rightarrow> (string \<times> pyval) list \<Rightarrow> string" where
  "transition_policy_sha256 lib policy = lb_sha256 lib (canonical_json (lb_float lib) (PDict policy))"

text \<open>The releases of a loaded policy, whose entries are mappings of the five strings.\<close>

definition published_releases :: "(string \<times> pyval) list \<Rightarrow> release_identity list" where
  "published_releases policy = map read_identity (the_list (get_key policy ''published_releases''))"

section \<open>The compatibility boundary of the successor gap\<close>

definition applications_of :: "pyval \<Rightarrow> pyval" where
  "applications_of values = get_key (the_dict values) ''applications''"

definition without_keys :: "string list \<Rightarrow> (string \<times> pyval) list \<Rightarrow> pyval" where
  "without_keys ks kvs = PDict (filter (\<lambda>kv. fst kv \<notin> set ks) kvs)"

definition validate_v08_gap_compatibility ::
  "(string \<times> pyval) list list \<Rightarrow> (string \<times> pyval) list \<Rightarrow> exn + unit" where
  "validate_v08_gap_compatibility lineage target =
     bind_result (require (length lineage = 2
          \<and> map (\<lambda>m. get_key m ''platform_version'') lineage = [PStr ''0.8.0'', PStr ''0.8.1'']
          \<and> get_key target ''platform_version'' = PStr ''0.8.2'')
        (policy_error ''The v0.8 recovery release chain changed'')) (\<lambda>_.
     (let old = get_key (lineage ! 0) ''compatibility''; immediate = get_key (lineage ! 1) ''compatibility'';
          current = get_key target ''compatibility'';
          old_values = get_key (the_dict old) ''values''; next_values = get_key (the_dict immediate) ''values'';
          old_apps = applications_of old_values; next_apps = applications_of next_values
      in bind_result (require (is_dict old \<and> is_dict immediate \<and> is_dict current)
            (policy_error ''The v0.8 compatibility records are invalid'')) (\<lambda>_.
         bind_result (require (get_key (the_dict old) ''sha256''
                  = PStr ''79ed7d91eea4d620d1c25fa5e6e21f8f81b885fe3c7ef397ec560f22c444ade3''
              \<and> get_key (the_dict immediate) ''sha256''
                  = PStr ''9c2bf892171a9abfa3cc0aff9a8df1e78e4e9cbc771ff282365d44fc36c8bbc4''
              \<and> py_eq current immediate)
            (policy_error ''The v0.8 compatibility identities changed'')) (\<lambda>_.
         bind_result (require (is_dict old_values \<and> is_dict next_values)
            (policy_error ''The v0.8 compatibility values are invalid'')) (\<lambda>_.
         bind_result (require (is_dict old_apps \<and> is_dict next_apps)
            (policy_error ''The v0.8 application rosters are invalid'')) (\<lambda>_.
         bind_result (require (set (map fst (the_dict next_apps)) - set (map fst (the_dict old_apps))
              = set V08_ADDED_APPS)
            (policy_error ''The v0.8 helper-app additions changed'')) (\<lambda>_.
         require (py_eq (without_keys V08_ADDED_APPS (the_dict next_apps)) old_apps
              \<and> py_eq (without_keys [''applications''] (the_dict next_values))
                  (without_keys [''applications''] (the_dict old_values)))
            (policy_error ''The v0.8 compatibility expansion changed''))))))))"

definition manifest_recovery :: "library \<Rightarrow> (string \<times> pyval) list \<Rightarrow> pyval" where
  "manifest_recovery lib policy = PDict
     [(''baseline'', get_key policy ''baseline''),
      (''intervening_releases'', PList (drop 1 (the_list (get_key policy ''published_releases'')))),
      (''policy_id'', get_key policy ''policy_id''),
      (''policy_sha256'', PStr (transition_policy_sha256 lib policy))]"

section \<open>The opt-in a manifest carries\<close>

record manifest_opt_in =
  mo_baseline :: release_identity
  mo_intervening_releases :: "release_identity list"
  mo_policy_id :: string
  mo_policy_sha256 :: string

definition policy_id_re :: "string \<Rightarrow> bool" where
  "policy_id_re = head_then (\<lambda>c. lower_case c \<or> digit c) (\<lambda>c. lower_case c \<or> digit c \<or> c \<in> set ''.-'') 0 99"

definition validate_manifest_recovery :: "pyval \<Rightarrow> exn + manifest_opt_in" where
  "validate_manifest_recovery v =
     (let d = the_dict v; policy_id = get_key d ''policy_id''; hashed = get_key d ''policy_sha256'';
          intervening = get_key d ''intervening_releases''
      in bind_result (require (has_keys v [''baseline'', ''intervening_releases'', ''policy_id'', ''policy_sha256''])
            (policy_error ''Deployment recovery metadata has invalid fields'')) (\<lambda>_.
         bind_result (require (str_matching policy_id_re policy_id \<and> str_matching sha256_text hashed)
            (policy_error ''Deployment recovery metadata has an invalid identity'')) (\<lambda>_.
         bind_result (validate_release_identity ''Deployment recovery baseline'' (get_key d ''baseline'')) (\<lambda>baseline.
         bind_result (require (is_list intervening \<and> 1 \<le> length (the_list intervening)
              \<and> length (the_list intervening) \<le> 8)
            (policy_error ''Deployment recovery chain has an invalid length'')) (\<lambda>_.
         bind_result (validate_identities ''Deployment recovery release '' (the_list intervening)) (\<lambda>releases.
         bind_result (require (strictly_sorted (map identity_version (baseline # releases)))
            (policy_error ''Deployment recovery chain is not strictly increasing'')) (\<lambda>_.
         Inr \<lparr>mo_baseline = baseline, mo_intervening_releases = releases,
              mo_policy_id = the_str policy_id, mo_policy_sha256 = the_str hashed\<rparr>)))))))"

end
