(* ===== verification/Deploy_Request.thy ===== *)
theory Deploy_Request
  imports Recovery_Policy
begin

text \<open>
  The request of a deployment and the field checks every document shares
  (\<open>ops/deploy/contracts.py\<close>).
\<close>

section \<open>Reading a document\<close>

definition MAX_REQUEST_BYTES :: nat where
  "MAX_REQUEST_BYTES = 16 * 1024"

text \<open>What a path leads to; a file has its bytes and the mode set for it. \<open>Special\<close> stands for a symbolic link and for everything that is
  neither a regular file nor a directory.\<close>

datatype node = Regular string "nat option" | Directory | Special

fun is_regular :: "node option \<Rightarrow> bool" where
  "is_regular (Some (Regular bytes mode)) = True"
| "is_regular n = False"

fun_cases is_regularE: "is_regular n"

fun bytes_of :: "node option \<Rightarrow> string" where
  "bytes_of (Some (Regular bytes mode)) = bytes"
| "bytes_of n = ''''"

text \<open>\<open>repr\<close> of a list of strings, for messages: a quote and the control characters are escaped.\<close>

definition hex2 :: "nat \<Rightarrow> string" where
  "hex2 n = drop 2 (hex4 n)"

definition repr_char :: "char \<Rightarrow> char \<Rightarrow> string" where
  "repr_char quote c =
     (if c = quote \<or> c = CHR 0x5C then [CHR 0x5C, c]
      else if code c = 9 then [CHR 0x5C, CHR ''t'']
      else if code c = 10 then [CHR 0x5C, CHR ''n'']
      else if code c = 13 then [CHR 0x5C, CHR ''r'']
      else if code c < 32 \<or> (127 \<le> code c \<and> code c \<le> 160) \<or> code c = 173
      then CHR 0x5C # CHR ''x'' # hex2 (code c)
      else [c])"

definition repr_string :: "string \<Rightarrow> string" where
  "repr_string s =
     (let quote = (if CHR 0x27 \<in> set s \<and> CHR 0x22 \<notin> set s then CHR 0x22 else CHR 0x27)
      in quote # concat (map (repr_char quote) s) @ [quote])"

definition repr_strings :: "string list \<Rightarrow> string" where
  "repr_strings xs = ''['' @ join '', '' (map repr_string xs) @ '']''"

text \<open>The two sets are given as lists without repetition.\<close>

definition strict_keys :: "string \<Rightarrow> string list \<Rightarrow> string list \<Rightarrow> (string \<times> pyval) list \<Rightarrow> exn + unit" where
  "strict_keys place allowed required d =
     (let keys = map fst d;
          missing = filter (\<lambda>k. k \<notin> set keys) required;
          unknown = filter (\<lambda>k. k \<notin> set allowed) keys
      in require (missing = [] \<and> unknown = [])
           (deployment_error (''Invalid '' @ place @ '' fields; missing='' @ repr_strings (sort missing)
              @ '', unknown='' @ repr_strings (sort unknown))))"

definition load_json :: "library \<Rightarrow> node option \<Rightarrow> nat \<Rightarrow> string \<Rightarrow> exn + (string \<times> pyval) list" where
  "load_json lib file max_bytes place =
     bind_result (require (is_regular file) (deployment_error (place @ '' is not a regular file''))) (\<lambda>_.
     bind_result (require (bytes_of file \<noteq> [] \<and> length (bytes_of file) \<le> max_bytes)
        (deployment_error (place @ '' has an unsafe size''))) (\<lambda>_.
     bind_result (case lb_loads lib (bytes_of file) of
          None \<Rightarrow> Inl (deployment_error (place @ '' is not valid JSON'')) | Some v \<Rightarrow> Inr v) (\<lambda>v.
     bind_result (require (is_dict v) (deployment_error (place @ '' must be an object''))) (\<lambda>_.
     bind_result (require (bytes_of file = canonical_json (lb_float lib) v)
        (deployment_error (place @ '' must use canonical JSON''))) (\<lambda>_.
     Inr (the_dict v))))))"

section \<open>Field checks\<close>

text \<open>A path is kept as its parts; \<open>Path\<close> forgets dots and repeated slashes, but not that
  exactly two slashes were in front.\<close>

definition absolute_directory :: "string \<Rightarrow> pyval \<Rightarrow> exn + string list" where
  "absolute_directory place v =
     bind_result (require (is_str v \<and> starts_with (the_str v) ''/'')
        (deployment_error (place @ '' must be an absolute path''))) (\<lambda>_.
     bind_result (require (path_parts (the_str v) \<noteq> [''/''] \<and> ''..'' \<notin> set (path_parts (the_str v))
          \<and> length (the_str v) \<le> 255)
        (deployment_error (place @ '' is unsafe''))) (\<lambda>_.
     Inr (path_parts (the_str v))))"

definition relative_path :: "string \<Rightarrow> pyval \<Rightarrow> exn + string list" where
  "relative_path place v =
     bind_result (require (str_matching SAFE_RELATIVE_RE v \<and> \<not> starts_with (the_str v) ''/''
          \<and> path_parts (the_str v) \<noteq> [] \<and> ''..'' \<notin> set (path_parts (the_str v))
          \<and> \<not> contains ''//'' (the_str v))
        (deployment_error (place @ '' is unsafe''))) (\<lambda>_.
     Inr (path_parts (the_str v)))"

definition service_name :: "string \<Rightarrow> pyval \<Rightarrow> exn + string" where
  "service_name place v =
     bind_result (require (str_matching SERVICE_RE v)
        (deployment_error (place @ '' is not a safe service name''))) (\<lambda>_. Inr (the_str v))"

definition has_control :: "string \<Rightarrow> bool" where
  "has_control s \<longleftrightarrow> list_ex (\<lambda>c. code c < 32) s"

definition safe_argument :: "string \<Rightarrow> pyval \<Rightarrow> exn + string" where
  "safe_argument place v =
     bind_result (require (is_str v \<and> the_str v \<noteq> [] \<and> length (the_str v) \<le> 255 \<and> \<not> has_control (the_str v))
        (deployment_error (place @ '' is not a safe argument''))) (\<lambda>_. Inr (the_str v))"

section \<open>The request\<close>

record transition =
  tr_policy_id :: string
  tr_policy_sha256 :: string
  tr_purpose :: string
  tr_releases :: "release_identity list"

record deployment_request =
  rq_mode :: string
  rq_repository :: string
  rq_release_commit :: string
  rq_release_ref :: string
  rq_platform_version :: string
  rq_manifest_sha256 :: string
  rq_workflow_run_id :: string
  rq_workflow_run_attempt :: int
  rq_recovery_transition :: "transition option"

definition attempt_id :: "deployment_request \<Rightarrow> string" where
  "attempt_id q = ''gh-'' @ rq_workflow_run_id q @ ''-'' @ show_int (rq_workflow_run_attempt q)"

definition request_fields :: "string list" where
  "request_fields = [''schema_version'', ''mode'', ''repository'', ''release_commit'', ''release_ref'',
     ''platform_version'', ''manifest_sha256'', ''workflow_run_id'', ''workflow_run_attempt'']"

text \<open>The target of the request, but for the source commit, which its manifest authenticates.\<close>

definition targets_request :: "release_identity \<Rightarrow> (string \<times> pyval) list \<Rightarrow> bool" where
  "targets_request target request \<longleftrightarrow>
     PStr (ri_manifest_sha256 target) = get_key request ''manifest_sha256''
     \<and> PStr (ri_platform_version target) = get_key request ''platform_version''
     \<and> PStr (ri_release_commit target) = get_key request ''release_commit''
     \<and> PStr (ri_release_ref target) = get_key request ''release_ref''"

definition upgrade_preflight_exact ::
  "pyval \<Rightarrow> pyval \<Rightarrow> release_identity list \<Rightarrow> release_identity list \<Rightarrow> bool" where
  "upgrade_preflight_exact purpose mode releases fixed \<longleftrightarrow>
     purpose = PStr ''receiver-upgrade-preflight'' \<and> mode = PStr ''preflight'' \<and> releases = fixed"

definition recovery_exact ::
  "pyval \<Rightarrow> pyval \<Rightarrow> release_identity list \<Rightarrow> release_identity list \<Rightarrow> bool" where
  "recovery_exact purpose policy_id releases fixed \<longleftrightarrow>
     purpose = PStr ''production-recovery'' \<and> butlast releases = fixed
     \<and> identity_version (last fixed) < identity_version (last releases)
     \<and> \<not> (policy_id = PStr V08_GAP_POLICY_ID \<and> ri_platform_version (last releases) \<noteq> ''0.8.2'')"

definition load_recovery ::
  "library \<Rightarrow> string option \<Rightarrow> pyval \<Rightarrow> (string \<times> pyval) list \<Rightarrow> exn + transition" where
  "load_recovery lib policy_file v request =
     (let d = the_dict v
      in bind_result (require (has_keys v [''policy_id'', ''policy_sha256'', ''purpose'', ''releases''])
            (deployment_error ''Recovery transition has invalid fields'')) (\<lambda>_.
         bind_result (as_deployment_error (load_transition_policy lib policy_file (get_key d ''policy_id''))) (\<lambda>policy.
         bind_result (require (py_eq (get_key d ''policy_id'') (get_key policy ''policy_id'')
              \<and> get_key d ''policy_sha256'' = PStr (transition_policy_sha256 lib policy))
            (deployment_error ''Recovery transition policy identity changed'')) (\<lambda>_.
         bind_result (require (is_list (get_key d ''releases'') \<and> 3 \<le> length (the_list (get_key d ''releases''))
              \<and> length (the_list (get_key d ''releases'')) \<le> 9)
            (deployment_error ''Recovery transition has an invalid chain length'')) (\<lambda>_.
         bind_result (as_deployment_error
              (validate_identities ''Recovery transition release '' (the_list (get_key d ''releases'')))) (\<lambda>releases.
         bind_result (require (targets_request (last releases) request)
            (deployment_error ''Recovery transition target differs from the request'')) (\<lambda>_.
         bind_result
            (if last releases = last (published_releases policy)
             then require (upgrade_preflight_exact (get_key d ''purpose'') (get_key request ''mode'') releases
                    (published_releases policy))
                  (deployment_error ''Receiver-upgrade recovery request is not exact'')
             else require (recovery_exact (get_key d ''purpose'') (get_key policy ''policy_id'') releases
                    (published_releases policy))
                  (deployment_error ''Production recovery request is not the reviewed chain'')) (\<lambda>_.
         Inr \<lparr>tr_policy_id = the_str (get_key d ''policy_id''),
              tr_policy_sha256 = the_str (get_key d ''policy_sha256''),
              tr_purpose = the_str (get_key d ''purpose''), tr_releases = releases\<rparr>))))))))"

definition load_request :: "library \<Rightarrow> string option \<Rightarrow> node option \<Rightarrow> exn + deployment_request" where
  "load_request lib policy_file file =
     bind_result (load_json lib file MAX_REQUEST_BYTES ''deployment request'') (\<lambda>d.
     (let schema = get_key d ''schema_version''; with_recovery = py_eq schema (PInt 2);
          fields = request_fields @ (if with_recovery then [''recovery_transition''] else []);
          version = get_key d ''platform_version''; attempt = get_key d ''workflow_run_attempt''
      in bind_result (strict_keys ''deployment request'' fields fields d) (\<lambda>_.
         bind_result (require (hashable schema) unhashable) (\<lambda>_.
         bind_result (require (py_eq schema (PInt 1) \<or> with_recovery)
            (deployment_error ''Unsupported deployment request schema'')) (\<lambda>_.
         bind_result (require (hashable (get_key d ''mode'')) unhashable) (\<lambda>_.
         bind_result (require (get_key d ''mode'' = PStr ''preflight'' \<or> get_key d ''mode'' = PStr ''deploy'')
            (deployment_error ''Unsupported deployment mode'')) (\<lambda>_.
         bind_result (require (str_matching SAFE_REPOSITORY_RE (get_key d ''repository''))
            (deployment_error ''Invalid deployment repository'')) (\<lambda>_.
         bind_result (require (str_matching COMMIT_RE (get_key d ''release_commit''))
            (deployment_error ''Invalid release commit'')) (\<lambda>_.
         bind_result (require (str_matching SEMVER_RE version)
            (deployment_error ''Invalid platform version'')) (\<lambda>_.
         bind_result (require (get_key d ''release_ref'' = PStr (release_ref (the_str version)))
            (deployment_error ''Release ref and platform version disagree'')) (\<lambda>_.
         bind_result (require (str_matching sha256_text (get_key d ''manifest_sha256''))
            (deployment_error ''Invalid release manifest digest'')) (\<lambda>_.
         bind_result (require (str_matching run_id_re (get_key d ''workflow_run_id''))
            (deployment_error ''Invalid workflow run id'')) (\<lambda>_.
         bind_result (require (is_int attempt \<and> 1 \<le> the_int attempt \<and> the_int attempt \<le> 1000)
            (deployment_error ''Invalid workflow run attempt'')) (\<lambda>_.
         bind_result (if with_recovery
                      then bind_result (load_recovery lib policy_file (get_key d ''recovery_transition'') d) (\<lambda>t. Inr (Some t))
                      else Inr None) (\<lambda>recovery.
         Inr \<lparr>rq_mode = the_str (get_key d ''mode''), rq_repository = the_str (get_key d ''repository''),
              rq_release_commit = the_str (get_key d ''release_commit''),
              rq_release_ref = the_str (get_key d ''release_ref''),
              rq_platform_version = the_str version,
              rq_manifest_sha256 = the_str (get_key d ''manifest_sha256''),
              rq_workflow_run_id = the_str (get_key d ''workflow_run_id''),
              rq_workflow_run_attempt = the_int attempt, rq_recovery_transition = recovery\<rparr>)))))))))))))))"

definition transition_value :: "transition \<Rightarrow> pyval" where
  "transition_value t = PDict
     [(''policy_id'', PStr (tr_policy_id t)), (''policy_sha256'', PStr (tr_policy_sha256 t)),
      (''purpose'', PStr (tr_purpose t)), (''releases'', PList (map identity_value (tr_releases t)))]"

definition recovery_sha256 :: "library \<Rightarrow> deployment_request \<Rightarrow> string option" where
  "recovery_sha256 lib q =
     (case rq_recovery_transition q of
        None \<Rightarrow> None
      | Some t \<Rightarrow> Some (lb_sha256 lib (canonical_json (lb_float lib) (transition_value t))))"

end
