(* ===== verification/Deploy_Config.thy ===== *)
theory Deploy_Config
  imports Deploy_Request
begin

text \<open>
  The configuration of the receiver, \<open>ReceiverConfig.load\<close> of \<open>ops/deploy/contracts.py\<close>,
  check by check. A failed check is the value it raises; the checks run in the order of
  the code. Schema 1 predates some fields, which then take fixed values.
\<close>

section \<open>The configuration\<close>

record smoke_check =
  sk_url :: string
  sk_statuses :: "int list"

record receiver_config =
  rc_schema_version :: int
  rc_repository :: string
  rc_app_dir :: "string list"
  rc_state_dir :: "string list"
  rc_backup_dir :: "string list"
  rc_compose_file :: "string list"
  rc_env_file :: "string list"
  rc_custom_dockerfile :: "string list"
  rc_local_settings :: "string list"
  rc_manage_py :: string
  rc_auth_services :: "string list"
  rc_gunicorn_service :: string
  rc_worker_service :: string
  rc_database_service :: string
  rc_redis_service :: string
  rc_proxy_service :: string
  rc_beat_service :: string
  rc_nginx_upstream_file :: "string list"
  rc_nginx_upstream_container_file :: string
  rc_gunicorn_port :: int
  rc_setup_arguments :: "(string \<times> string list) list"
  rc_smoke_checks :: "smoke_check list"
  rc_application_health_commands :: "string list"
  rc_required_celery_queues :: "string list"
  rc_required_celery_tasks :: "string list"
  rc_fatal_log_allowlist :: "string list"
  rc_legacy_platform_version :: string
  rc_legacy_release_commit :: string
  rc_command_timeout_seconds :: int
  rc_health_attempts :: int
  rc_health_interval_seconds :: int
  rc_stabilization_seconds :: int
  rc_stabilization_interval_seconds :: int
  rc_restore_tmpfs_mb :: int
  rc_max_archive_bytes :: int

definition MAX_ARCHIVE_BYTES :: int where
  "MAX_ARCHIVE_BYTES = 256 * 1024 * 1024"

definition v1_fields :: "string list" where
  "v1_fields =
     [''schema_version'', ''repository'', ''app_dir'', ''state_dir'', ''backup_dir'', ''compose_file'',
      ''env_file'', ''custom_dockerfile'', ''local_settings'', ''manage_py'', ''auth_services'',
      ''gunicorn_service'', ''worker_service'', ''database_service'', ''redis_service'', ''proxy_service'',
      ''setup_arguments'', ''smoke_checks'', ''legacy_platform_version'', ''legacy_release_commit'',
      ''command_timeout_seconds'', ''health_attempts'', ''health_interval_seconds'', ''restore_tmpfs_mb'',
      ''max_archive_bytes'']"

definition v2_fields :: "string list" where
  "v2_fields = v1_fields @
     [''beat_service'', ''nginx_upstream_file'', ''nginx_upstream_container_file'', ''gunicorn_port'',
      ''application_health_commands'', ''required_celery_queues'', ''required_celery_tasks'',
      ''fatal_log_allowlist'', ''stabilization_seconds'', ''stabilization_interval_seconds'']"

text \<open>The schema: 1, 2, or refused. \<open>True\<close> in the second case.\<close>

definition config_schema :: "(string \<times> pyval) list \<Rightarrow> exn + bool" where
  "config_schema d =
     (if py_eq (get_key d ''schema_version'') (PInt 1)
      then bind_result (strict_keys ''receiver config'' v1_fields v1_fields d) (\<lambda>_. Inr False)
      else if py_eq (get_key d ''schema_version'') (PInt 2)
      then bind_result (strict_keys ''receiver config'' v2_fields v2_fields d) (\<lambda>_. Inr True)
      else Inl (deployment_error ''Unsupported receiver config schema''))"

text \<open>An absolute path inside a container; \<open>lstrip\<close> takes every slash in front away.\<close>

definition container_path :: "string \<Rightarrow> pyval \<Rightarrow> exn + string" where
  "container_path message v =
     bind_result (require (is_str v \<and> starts_with (the_str v) ''/'' \<and> ''..'' \<notin> set (path_parts (the_str v))
          \<and> SAFE_RELATIVE_RE (dropWhile (\<lambda>c. c = CHR ''/'') (the_str v)))
        (deployment_error message)) (\<lambda>_. Inr (the_str v))"

section \<open>Services\<close>

record service_roster =
  sv_auth :: "string list"
  sv_gunicorn :: string
  sv_worker :: string
  sv_database :: string
  sv_redis :: string
  sv_proxy :: string
  sv_beat :: string

definition auth_service_names :: "pyval \<Rightarrow> exn + string list" where
  "auth_service_names v =
     (let vs = the_list v; message = deployment_error ''auth_services must be a unique, non-empty list''
      in bind_result (require (is_list v \<and> vs \<noteq> [] \<and> length vs \<le> 16) message) (\<lambda>_.
         bind_result (require (list_all hashable vs) unhashable) (\<lambda>_.
         bind_result (require (all_different vs) message) (\<lambda>_.
         each_result (\<lambda>(i, w). service_name (''auth service '' @ show_nat i) w) (enumerate 0 vs)))))"

text \<open>Schema 1 names no beat service: the one whose name ends so.\<close>

definition beat_service_of :: "bool \<Rightarrow> (string \<times> pyval) list \<Rightarrow> string list \<Rightarrow> exn + string" where
  "beat_service_of v2 d auth =
     (if v2 then service_name ''beat_service'' (get_key d ''beat_service'')
      else (case filter (\<lambda>s. ends_with (lower s) ''beat'') auth of
              [s] \<Rightarrow> Inr s
            | _ \<Rightarrow> Inl (deployment_error ''Schema-v1 receiver config must identify exactly one *beat service'')))"

definition load_services :: "bool \<Rightarrow> (string \<times> pyval) list \<Rightarrow> exn + service_roster" where
  "load_services v2 d =
     (let named = \<lambda>k. service_name k (get_key d k)
      in bind_result (auth_service_names (get_key d ''auth_services'')) (\<lambda>auth.
         bind_result (named ''gunicorn_service'') (\<lambda>gunicorn.
         bind_result (named ''worker_service'') (\<lambda>worker.
         bind_result (named ''database_service'') (\<lambda>database.
         bind_result (named ''redis_service'') (\<lambda>redis.
         bind_result (named ''proxy_service'') (\<lambda>proxy.
         bind_result (require (gunicorn \<in> set auth)
            (deployment_error ''gunicorn_service must occur in auth_services'')) (\<lambda>_.
         bind_result (require (worker \<in> set auth)
            (deployment_error ''worker_service must occur in auth_services'')) (\<lambda>_.
         bind_result (beat_service_of v2 d auth) (\<lambda>beat.
         bind_result (require (beat \<in> set auth)
            (deployment_error ''beat_service must occur in auth_services'')) (\<lambda>_.
         bind_result (require (beat \<noteq> gunicorn \<and> beat \<noteq> worker)
            (deployment_error ''Gunicorn, worker, and beat services must be distinct'')) (\<lambda>_.
         bind_result (require (distinct [database, redis, proxy]
              \<and> list_all (\<lambda>s. s \<notin> set auth) [database, redis, proxy])
            (deployment_error ''Database, Redis, and proxy services must be distinct from Auth services'')) (\<lambda>_.
         Inr \<lparr>sv_auth = auth, sv_gunicorn = gunicorn, sv_worker = worker, sv_database = database,
              sv_redis = redis, sv_proxy = proxy, sv_beat = beat\<rparr>)))))))))))))"

section \<open>Arguments of the setup commands\<close>

definition setup_argument :: "string \<times> pyval \<Rightarrow> exn + string \<times> string list" where
  "setup_argument item =
     (case item of (command, arguments) \<Rightarrow>
       bind_result (require (command_re command)
          (deployment_error ''setup_arguments contains an unsafe command'')) (\<lambda>_.
       bind_result (require (is_list arguments \<and> length (the_list arguments) \<le> 32)
          (deployment_error (''Invalid arguments for '' @ command))) (\<lambda>_.
       bind_result (each_result (\<lambda>(i, v). safe_argument (''argument '' @ show_nat i @ '' for '' @ command) v)
            (enumerate 0 (the_list arguments))) (\<lambda>args.
       Inr (command, args)))))"

definition load_setup_arguments :: "pyval \<Rightarrow> exn + (string \<times> string list) list" where
  "load_setup_arguments v =
     bind_result (require (is_dict v \<and> length (the_dict v) \<le> 32)
        (deployment_error ''setup_arguments must be an object'')) (\<lambda>_.
     each_result setup_argument (the_dict v))"

section \<open>Smoke checks\<close>

definition ORIGIN :: string where
  "ORIGIN = ''https://auth.b-uh.com''"

definition REQUIRED_SMOKE_CHECK_STATUSES :: "(string \<times> int list) list" where
  "REQUIRED_SMOKE_CHECK_STATUSES =
     [(''/'', [200, 302]), (''/account/login/'', [200, 302]), (''/moon-tax/'', [200, 302, 403]),
      (''/structure-operations/'', [200, 302, 403]), (''/mining-analytics/'', [200, 302, 403])]"

text \<open>\<open>urlsplit\<close> of a text that begins with \<open>https://\<close> and holds no control character: the
  host ends at the first slash, question mark or number sign; a number sign starts the fragment
  and a question mark the query. A host equal to the production one has no port, user or password.\<close>

definition url_host :: "string \<Rightarrow> string" where
  "url_host url = takeWhile (\<lambda>c. c \<notin> set ''/?#'') (drop 8 url)"

definition url_path :: "string \<Rightarrow> string" where
  "url_path url =
     takeWhile (\<lambda>c. c \<noteq> CHR ''?'') (takeWhile (\<lambda>c. c \<noteq> CHR ''#'')
       (dropWhile (\<lambda>c. c \<notin> set ''/?#'') (drop 8 url)))"

definition path_char :: "char \<Rightarrow> bool" where
  "path_char = alnum_or (CHR 0x27 # ''._~!$&()*+,;=:@/-'')"

definition smoke_url_ok :: "string \<Rightarrow> bool" where
  "smoke_url_ok url \<longleftrightarrow>
     starts_with url ''https://'' \<and> length url \<le> 500 \<and> \<not> has_control url
     \<and> url_host url = ''auth.b-uh.com''
     \<and> starts_with (url_path url) ''/'' \<and> \<not> contains ''//'' (url_path url)
     \<and> list_all (\<lambda>p. p \<noteq> ''.'' \<and> p \<noteq> ''..'') (split_on (CHR ''/'') (url_path url))
     \<and> list_all path_char (url_path url)
     \<and> url = ORIGIN @ url_path url"

definition smoke_statuses_ok :: "pyval list \<Rightarrow> bool" where
  "smoke_statuses_ok vs \<longleftrightarrow> list_all (\<lambda>v. is_int v \<and> 100 \<le> the_int v \<and> the_int v \<le> 499) vs"

definition load_smoke_check :: "nat \<times> pyval \<Rightarrow> exn + smoke_check" where
  "load_smoke_check item =
     (case item of (i, v) \<Rightarrow>
       let d = the_dict v; url = get_key d ''url''; statuses = get_key d ''statuses''; vs = the_list statuses;
           place = ''Smoke check '' @ show_nat i; wrong = deployment_error (place @ '' has invalid statuses'')
       in bind_result (require (is_dict v) (deployment_error (place @ '' must be an object''))) (\<lambda>_.
          bind_result (strict_keys (''smoke check '' @ show_nat i) [''url'', ''statuses''] [''url'', ''statuses''] d) (\<lambda>_.
          bind_result (require (str_matching smoke_url_ok url)
             (deployment_error (place @ '' must use the production HTTPS origin''))) (\<lambda>_.
          bind_result (require (is_list statuses \<and> vs \<noteq> [] \<and> length vs \<le> 8) wrong) (\<lambda>_.
          bind_result (require (list_all hashable vs) unhashable) (\<lambda>_.
          bind_result (require (all_different vs \<and> smoke_statuses_ok vs) wrong) (\<lambda>_.
          Inr \<lparr>sk_url = the_str url, sk_statuses = map the_int vs\<rparr>)))))))"

definition check_route :: "smoke_check \<Rightarrow> string" where
  "check_route c = url_path (sk_url c)"

text \<open>Schema 2 lists every required route with its fixed statuses; schema 1 may allow fewer, and
  the routes it lacks are added.\<close>

definition strict_check_ok :: "smoke_check \<Rightarrow> bool" where
  "strict_check_ok c \<longleftrightarrow>
     (case map_of REQUIRED_SMOKE_CHECK_STATUSES (check_route c) of
        None \<Rightarrow> True | Some expected \<Rightarrow> set (sk_statuses c) = set expected)"

definition legacy_check_ok :: "smoke_check \<Rightarrow> bool" where
  "legacy_check_ok c \<longleftrightarrow>
     (case map_of REQUIRED_SMOKE_CHECK_STATUSES (check_route c) of
        None \<Rightarrow> True | Some expected \<Rightarrow> set (sk_statuses c) \<subseteq> set expected)"

definition missing_checks :: "smoke_check list \<Rightarrow> smoke_check list" where
  "missing_checks checks =
     map (\<lambda>(route, statuses). \<lparr>sk_url = ORIGIN @ route, sk_statuses = statuses\<rparr>)
       (filter (\<lambda>(route, statuses). route \<notin> set (map check_route checks)) REQUIRED_SMOKE_CHECK_STATUSES)"

definition complete_checks :: "bool \<Rightarrow> smoke_check list \<Rightarrow> exn + smoke_check list" where
  "complete_checks v2 checks =
     bind_result (require (distinct (map check_route checks))
        (deployment_error ''smoke_checks must use unique route paths'')) (\<lambda>_.
     if v2
     then bind_result (require (missing_checks checks = [])
            (deployment_error ''smoke_checks must uniquely cover public, login, Moon Tax, Structure Ops, and Mining Analytics routes'')) (\<lambda>_.
          bind_result (each_result (\<lambda>c. require (strict_check_ok c)
               (deployment_error (''Smoke check for '' @ check_route c @ '' must use its fixed status policy''))) checks) (\<lambda>_.
          Inr checks))
     else bind_result (each_result (\<lambda>c. require (legacy_check_ok c)
               (deployment_error (''Legacy smoke check for '' @ check_route c @ '' exceeds its fixed status policy''))) checks) (\<lambda>_.
          Inr (checks @ missing_checks checks)))"

definition load_smoke_checks :: "bool \<Rightarrow> pyval \<Rightarrow> exn + smoke_check list" where
  "load_smoke_checks v2 v =
     bind_result (require (is_list v \<and> 1 \<le> length (the_list v) \<and> length (the_list v) \<le> 16)
        (deployment_error ''smoke_checks must be a bounded, non-empty list'')) (\<lambda>_.
     bind_result (each_result load_smoke_check (enumerate 0 (the_list v))) (complete_checks v2))"

section \<open>Bounded fields\<close>

definition bounded_strings ::
  "bool \<Rightarrow> (string \<times> pyval) list \<Rightarrow> string \<Rightarrow> nat \<Rightarrow> nat \<Rightarrow> (string \<Rightarrow> bool) \<Rightarrow> string list \<Rightarrow> exn + string list" where
  "bounded_strings v2 d name lo hi pattern defaults =
     (let raw = (if v2 then get_key d name else PList (map PStr defaults)); vs = the_list raw;
          wrong = deployment_error (name @ '' must be a bounded list of safe unique strings'')
      in bind_result (require (is_list raw \<and> lo \<le> length vs \<and> length vs \<le> hi) wrong) (\<lambda>_.
         bind_result (require (list_all hashable vs) unhashable) (\<lambda>_.
         bind_result (require (all_different vs \<and> list_all (str_matching pattern) vs) wrong) (\<lambda>_.
         Inr (map the_str vs)))))"

definition bounded_int :: "(string \<times> pyval) list \<Rightarrow> string \<Rightarrow> int \<Rightarrow> int \<Rightarrow> exn + int" where
  "bounded_int d name lo hi =
     (let v = get_key d name
      in bind_result (require (is_int v \<and> lo \<le> the_int v \<and> the_int v \<le> hi)
            (deployment_error (name @ '' is outside its safe range''))) (\<lambda>_. Inr (the_int v)))"

section \<open>The allowed log signatures\<close>

text \<open>The three groups of \<open>FATAL_LOG_ALLOWLIST_RE\<close>; no class holds the bar between them.\<close>

definition signature_groups :: "string \<Rightarrow> (string \<times> string \<times> string) option" where
  "signature_groups s =
     (case split_on (CHR ''|'') s of
        [a, b, c] \<Rightarrow>
          (if starts_with a ''component='' \<and> starts_with b ''exception='' \<and> starts_with c ''message=''
              \<and> head_then lower_case (\<lambda>c. lower_case c \<or> digit c \<or> c \<in> set ''_.-'') 2 23 (drop 10 a)
              \<and> head_then upper_case (alnum_or ''_.'') 2 47 (drop 10 b)
              \<and> head_then alnum (\<lambda>c. 32 \<le> code c \<and> code c \<noteq> 127) 19 71 (drop 8 c)
           then Some (drop 10 a, drop 10 b, drop 8 c) else None)
      | _ \<Rightarrow> None)"

text \<open>Runs of at least three ASCII letters or digits, and the word characters of a pattern.\<close>

definition message_words :: "string \<Rightarrow> string list" where
  "message_words s =
     map lower (filter (\<lambda>w. 3 \<le> length w)
       (split_on (CHR '' '') (map (\<lambda>c. if alnum c then c else CHR '' '') s)))"

definition word_char :: "char \<Rightarrow> bool" where
  "word_char c \<longleftrightarrow> alnum c \<or> c = CHR ''_''
     \<or> code c \<in> {170, 178, 179, 181, 185, 186, 188, 189, 190}
     \<or> (192 \<le> code c \<and> code c \<noteq> 215 \<and> code c \<noteq> 247)"

text \<open>\<open>\bw\b\<close> somewhere, read from left to right with the character before.\<close>

fun word_from :: "string \<Rightarrow> bool \<Rightarrow> string \<Rightarrow> bool" where
  "word_from w after_word [] = False"
| "word_from w after_word (c # s) =
     ((\<not> after_word \<and> starts_with (c # s) w
       \<and> (case drop (length w) (c # s) of [] \<Rightarrow> True | d # _ \<Rightarrow> \<not> word_char d))
      \<or> word_from w (word_char c) s)"

definition has_word :: "string \<Rightarrow> string \<Rightarrow> bool" where
  "has_word w s = word_from w False s"

definition broad_text :: "string \<Rightarrow> bool" where
  "broad_text s \<longleftrightarrow>
     has_word ''403'' s \<or> has_word ''50013'' s \<or> contains ''permission'' (lower s)
     \<or> has_word ''error'' (lower s) \<or> has_word ''errors'' (lower s)"

definition EXACT_DISCORD_PERMISSION_MESSAGE :: string where
  "EXACT_DISCORD_PERMISSION_MESSAGE = ''403 Forbidden (error code: 50013): Missing Permissions''"

definition narrow_signature :: "string \<Rightarrow> bool" where
  "narrow_signature s \<longleftrightarrow>
     (case signature_groups s of
        None \<Rightarrow> False
      | Some (component, exception, message) \<Rightarrow>
          \<not> exception \<in> {''Error'', ''Exception'', ''HTTPError''}
          \<and> 4 \<le> length (remdups (message_words message))
          \<and> ((exception \<in> {''Forbidden'', ''DiscordForbidden''} \<and> message = EXACT_DISCORD_PERMISSION_MESSAGE)
             \<or> \<not> broad_text s))"

definition load_allowlist :: "bool \<Rightarrow> (string \<times> pyval) list \<Rightarrow> exn + string list" where
  "load_allowlist v2 d =
     (let raw = (if v2 then get_key d ''fatal_log_allowlist'' else PList []); vs = the_list raw;
          wrong = deployment_error ''fatal_log_allowlist must contain bounded structured signatures''
      in bind_result (require (is_list raw \<and> length vs \<le> 32) wrong) (\<lambda>_.
         bind_result (require (list_all hashable vs) unhashable) (\<lambda>_.
         bind_result (require (all_different vs
              \<and> list_all (str_matching (\<lambda>s. signature_groups s \<noteq> None)) vs) wrong) (\<lambda>_.
         bind_result (require (list_all (\<lambda>v. narrow_signature (the_str v)) vs)
            (deployment_error ''fatal_log_allowlist contains a broad or forbidden signature'')) (\<lambda>_.
         Inr (map the_str vs))))))"

section \<open>The whole configuration\<close>

record directories =
  dr_app :: "string list"
  dr_state :: "string list"
  dr_backup :: "string list"

definition load_directories :: "(string \<times> pyval) list \<Rightarrow> exn + directories" where
  "load_directories d =
     bind_result (absolute_directory ''app_dir'' (get_key d ''app_dir'')) (\<lambda>app.
     bind_result (absolute_directory ''state_dir'' (get_key d ''state_dir'')) (\<lambda>state.
     bind_result (absolute_directory ''backup_dir'' (get_key d ''backup_dir'')) (\<lambda>backup.
     bind_result (require (distinct [app, state, backup])
        (deployment_error ''Application, state, and backup directories must differ'')) (\<lambda>_.
     Inr \<lparr>dr_app = app, dr_state = state, dr_backup = backup\<rparr>))))"

record traffic_plan =
  tp_upstream_file :: "string list"
  tp_upstream_container_file :: string
  tp_gunicorn_port :: int
  tp_stabilization_seconds :: int
  tp_stabilization_interval_seconds :: int

definition legacy_plan :: traffic_plan where
  "legacy_plan =
     \<lparr>tp_upstream_file = path_parts ''conf/buh-platform-v2/nginx/upstream.conf'',
      tp_upstream_container_file = ''/etc/nginx/buh-platform-v2/upstream.conf'',
      tp_gunicorn_port = 8000, tp_stabilization_seconds = 300, tp_stabilization_interval_seconds = 15\<rparr>"

definition load_traffic_plan :: "bool \<Rightarrow> (string \<times> pyval) list \<Rightarrow> exn + traffic_plan" where
  "load_traffic_plan v2 d =
     (if \<not> v2 then Inr legacy_plan
      else bind_result (relative_path ''nginx_upstream_file'' (get_key d ''nginx_upstream_file'')) (\<lambda>file.
           bind_result (container_path ''Invalid in-container Nginx upstream path''
              (get_key d ''nginx_upstream_container_file'')) (\<lambda>inside.
           bind_result (bounded_int d ''gunicorn_port'' 1024 65535) (\<lambda>port.
           bind_result (bounded_int d ''stabilization_seconds'' 300 1800) (\<lambda>seconds.
           bind_result (bounded_int d ''stabilization_interval_seconds'' 5 60) (\<lambda>interval.
           bind_result (require (interval \<le> seconds)
              (deployment_error ''stabilization_interval_seconds exceeds stabilization_seconds'')) (\<lambda>_.
           Inr \<lparr>tp_upstream_file = file, tp_upstream_container_file = inside, tp_gunicorn_port = port,
                tp_stabilization_seconds = seconds, tp_stabilization_interval_seconds = interval\<rparr>)))))))"

record contract_names =
  cn_health_commands :: "string list"
  cn_queues :: "string list"
  cn_tasks :: "string list"
  cn_allowlist :: "string list"

definition load_contract_names :: "bool \<Rightarrow> (string \<times> pyval) list \<Rightarrow> exn + contract_names" where
  "load_contract_names v2 d =
     bind_result (bounded_strings v2 d ''application_health_commands'' 1 16 command_re
        [''buh_moon_tax_status'', ''buh_structure_ops_status'', ''buh_mining_check'']) (\<lambda>commands.
     bind_result (bounded_strings v2 d ''required_celery_queues'' 1 32 contract_name_re
        [''celery'', ''services'']) (\<lambda>queues.
     bind_result (bounded_strings v2 d ''required_celery_tasks'' 1 64 contract_name_re
        [''buh_moon_tax.tasks.run_scheduled_audit'', ''buh_structure_ops.tasks.capture_and_evaluate'']) (\<lambda>tasks.
     bind_result (load_allowlist v2 d) (\<lambda>allowlist.
     Inr \<lparr>cn_health_commands = commands, cn_queues = queues, cn_tasks = tasks, cn_allowlist = allowlist\<rparr>))))"

definition check_legacy_release :: "(string \<times> pyval) list \<Rightarrow> exn + unit" where
  "check_legacy_release d =
     bind_result (require (str_matching SEMVER_RE (get_key d ''legacy_platform_version''))
        (deployment_error ''Invalid legacy platform version'')) (\<lambda>_.
     require (str_matching COMMIT_RE (get_key d ''legacy_release_commit''))
        (deployment_error ''Invalid legacy release commit''))"

record host_limits =
  hl_compose_file :: "string list"
  hl_env_file :: "string list"
  hl_custom_dockerfile :: "string list"
  hl_local_settings :: "string list"
  hl_command_timeout_seconds :: int
  hl_health_attempts :: int
  hl_health_interval_seconds :: int
  hl_restore_tmpfs_mb :: int
  hl_max_archive_bytes :: int

text \<open>The fields checked in the call that makes the configuration.\<close>

definition load_host_limits :: "(string \<times> pyval) list \<Rightarrow> exn + host_limits" where
  "load_host_limits d =
     (let path = \<lambda>k. relative_path k (get_key d k)
      in bind_result (path ''compose_file'') (\<lambda>compose.
         bind_result (path ''env_file'') (\<lambda>env.
         bind_result (path ''custom_dockerfile'') (\<lambda>dockerfile.
         bind_result (path ''local_settings'') (\<lambda>settings.
         bind_result (bounded_int d ''command_timeout_seconds'' 30 3600) (\<lambda>timeout.
         bind_result (bounded_int d ''health_attempts'' 1 120) (\<lambda>attempts.
         bind_result (bounded_int d ''health_interval_seconds'' 1 60) (\<lambda>interval.
         bind_result (bounded_int d ''restore_tmpfs_mb'' 256 16384) (\<lambda>tmpfs.
         bind_result (bounded_int d ''max_archive_bytes'' (1024 * 1024) MAX_ARCHIVE_BYTES) (\<lambda>archive.
         Inr \<lparr>hl_compose_file = compose, hl_env_file = env, hl_custom_dockerfile = dockerfile,
              hl_local_settings = settings, hl_command_timeout_seconds = timeout,
              hl_health_attempts = attempts, hl_health_interval_seconds = interval,
              hl_restore_tmpfs_mb = tmpfs, hl_max_archive_bytes = archive\<rparr>))))))))))"

definition make_config ::
  "bool \<Rightarrow> (string \<times> pyval) list \<Rightarrow> string \<Rightarrow> service_roster \<Rightarrow> (string \<times> string list) list
     \<Rightarrow> smoke_check list \<Rightarrow> contract_names \<Rightarrow> directories \<Rightarrow> traffic_plan \<Rightarrow> host_limits \<Rightarrow> receiver_config" where
  "make_config v2 d manage services setup checks names dirs plan limits =
     \<lparr>rc_schema_version = (if v2 then 2 else 1), rc_repository = the_str (get_key d ''repository''),
      rc_app_dir = dr_app dirs, rc_state_dir = dr_state dirs, rc_backup_dir = dr_backup dirs,
      rc_compose_file = hl_compose_file limits, rc_env_file = hl_env_file limits,
      rc_custom_dockerfile = hl_custom_dockerfile limits, rc_local_settings = hl_local_settings limits,
      rc_manage_py = manage, rc_auth_services = sv_auth services,
      rc_gunicorn_service = sv_gunicorn services, rc_worker_service = sv_worker services,
      rc_database_service = sv_database services, rc_redis_service = sv_redis services,
      rc_proxy_service = sv_proxy services, rc_beat_service = sv_beat services,
      rc_nginx_upstream_file = tp_upstream_file plan,
      rc_nginx_upstream_container_file = tp_upstream_container_file plan,
      rc_gunicorn_port = tp_gunicorn_port plan, rc_setup_arguments = setup, rc_smoke_checks = checks,
      rc_application_health_commands = cn_health_commands names,
      rc_required_celery_queues = cn_queues names, rc_required_celery_tasks = cn_tasks names,
      rc_fatal_log_allowlist = cn_allowlist names,
      rc_legacy_platform_version = the_str (get_key d ''legacy_platform_version''),
      rc_legacy_release_commit = the_str (get_key d ''legacy_release_commit''),
      rc_command_timeout_seconds = hl_command_timeout_seconds limits,
      rc_health_attempts = hl_health_attempts limits,
      rc_health_interval_seconds = hl_health_interval_seconds limits,
      rc_stabilization_seconds = tp_stabilization_seconds plan,
      rc_stabilization_interval_seconds = tp_stabilization_interval_seconds plan,
      rc_restore_tmpfs_mb = hl_restore_tmpfs_mb limits,
      rc_max_archive_bytes = hl_max_archive_bytes limits\<rparr>"

text \<open>The checks on the decoded mapping, in their order.\<close>

definition parse_config :: "(string \<times> pyval) list \<Rightarrow> exn + receiver_config" where
  "parse_config d =
     bind_result (config_schema d) (\<lambda>v2.
     bind_result (require (str_matching SAFE_REPOSITORY_RE (get_key d ''repository''))
        (deployment_error ''Invalid repository in receiver config'')) (\<lambda>_.
     bind_result (container_path ''Invalid in-container manage.py path'' (get_key d ''manage_py'')) (\<lambda>manage.
     bind_result (load_services v2 d) (\<lambda>services.
     bind_result (load_setup_arguments (get_key d ''setup_arguments'')) (\<lambda>setup.
     bind_result (load_smoke_checks v2 (get_key d ''smoke_checks'')) (\<lambda>checks.
     bind_result (load_contract_names v2 d) (\<lambda>names.
     bind_result (check_legacy_release d) (\<lambda>_.
     bind_result (load_directories d) (\<lambda>dirs.
     bind_result (load_traffic_plan v2 d) (\<lambda>plan.
     bind_result (load_host_limits d) (\<lambda>limits.
     Inr (make_config v2 d manage services setup checks names dirs plan limits))))))))))))"

definition load_config :: "library \<Rightarrow> node option \<Rightarrow> exn + receiver_config" where
  "load_config lib file = bind_result (load_json lib file (64 * 1024) ''receiver config'') parse_config"

end
