(* ===== verification/Deploy_Archive.thy ===== *)
theory Deploy_Archive
  imports Deploy_Request Effects
begin

text \<open>
  The archive of a deployment request, \<open>read_bounded_stream\<close> and \<open>extract_archive\<close> of
  \<open>ops/deploy/contracts.py\<close>. The members a tar reader finds are a parameter, as is every fault
  of the disk; what is written is a tree of named nodes. A failed extraction leaves what it
  had written.
\<close>

section \<open>The tree\<close>

text \<open>The nodes under the destination by the names on their path; the destination is the empty
  path. \<open>tree_calls\<close> numbers the calls of the operating system, each of which may fail.\<close>

record tree =
  tree_nodes :: "(string list \<times> node) list"
  tree_calls :: nat

definition node_at :: "tree \<Rightarrow> string list \<Rightarrow> node option" where
  "node_at t p = map_of (tree_nodes t) p"

definition os_error :: "string \<Rightarrow> exn" where
  "os_error name = \<lparr>ex_class = name, ex_text = name, ex_deployment = False\<rparr>"

definition os_call :: "(nat \<Rightarrow> exn option) \<Rightarrow> (tree, unit) act" where
  "os_call disk = (\<lambda>t.
     (case disk (tree_calls t) of None \<Rightarrow> Inr () | Some e \<Rightarrow> Inl e, t\<lparr>tree_calls := Suc (tree_calls t)\<rparr>))"

definition add_node :: "string list \<Rightarrow> node \<Rightarrow> (tree, unit) act" where
  "add_node p n = change (\<lambda>t. t\<lparr>tree_nodes := (p, n) # tree_nodes t\<rparr>)"

fun nodes_changed :: "string list \<Rightarrow> (node \<Rightarrow> node) \<Rightarrow> (string list \<times> node) list \<Rightarrow> (string list \<times> node) list" where
  "nodes_changed p f [] = []"
| "nodes_changed p f ((q, n) # kvs) = (q, if q = p then f n else n) # nodes_changed p f kvs"

definition change_node :: "string list \<Rightarrow> (node \<Rightarrow> node) \<Rightarrow> (tree, unit) act" where
  "change_node p f = change (\<lambda>t. t\<lparr>tree_nodes := nodes_changed p f (tree_nodes t)\<rparr>)"

text \<open>\<open>mkdir\<close> where the parent exists.\<close>

definition make_directory :: "(nat \<Rightarrow> exn option) \<Rightarrow> string list \<Rightarrow> bool \<Rightarrow> (tree, unit) act" where
  "make_directory disk p exist_ok = seq (os_call disk) (\<lambda>_ t.
     case node_at t p of
       None \<Rightarrow> add_node p Directory t
     | Some n \<Rightarrow> if exist_ok \<and> n = Directory then (Inr (), t) else (Inl (os_error ''FileExistsError''), t))"

text \<open>\<open>open("xb")\<close>.\<close>

definition open_new :: "(nat \<Rightarrow> exn option) \<Rightarrow> string list \<Rightarrow> (tree, unit) act" where
  "open_new disk p = seq (os_call disk) (\<lambda>_ t.
     if node_at t p \<noteq> None then (Inl (os_error ''FileExistsError''), t)
     else add_node p (Regular [] None) t)"

fun append_bytes :: "string \<Rightarrow> node \<Rightarrow> node" where
  "append_bytes chunk (Regular bytes mode) = Regular (bytes @ chunk) mode"
| "append_bytes chunk n = n"

fun set_mode :: "nat \<Rightarrow> node \<Rightarrow> node" where
  "set_mode m (Regular bytes mode) = Regular bytes (Some m)"
| "set_mode m n = n"

definition write_bytes :: "(nat \<Rightarrow> exn option) \<Rightarrow> string list \<Rightarrow> string \<Rightarrow> (tree, unit) act" where
  "write_bytes disk p chunk = seq (os_call disk) (\<lambda>_. change_node p (append_bytes chunk))"

definition change_mode :: "(nat \<Rightarrow> exn option) \<Rightarrow> string list \<Rightarrow> nat \<Rightarrow> (tree, unit) act" where
  "change_mode disk p m = seq (os_call disk) (\<lambda>_. change_node p (set_mode m))"

section \<open>Members\<close>

definition MAX_EXPANDED_BYTES :: int where
  "MAX_EXPANDED_BYTES = 256 * 1024 * 1024"

definition MAX_ARCHIVE_MEMBERS :: nat where
  "MAX_ARCHIVE_MEMBERS = 144"

definition MAX_FILE_BYTES :: int where
  "MAX_FILE_BYTES = 64 * 1024 * 1024"

datatype member_kind = File_Member | Directory_Member | Link_Member | Other_Member

text \<open>A member as the tar reader presents it: its declared size, its stream, if it has one, and
  the exception a read beyond the end of a damaged stream raises.\<close>

record member =
  mb_name :: string
  mb_pax :: bool
  mb_kind :: member_kind
  mb_size :: int
  mb_stream :: "string option"
  mb_fault :: "exn option"

text \<open>\<open>tarfile.open\<close>: it opens, it raises \<open>TarError\<close> or \<open>OSError\<close>, or it raises another
  exception; then \<open>getmembers\<close>.\<close>

datatype open_outcome = Opened | Not_An_Archive | Open_Raised exn

record tar_reader =
  tar_open :: "string \<Rightarrow> open_outcome"
  tar_members :: "string \<Rightarrow> exn + member list"

definition read_bounded_stream :: "string \<Rightarrow> int \<Rightarrow> exn + string" where
  "read_bounded_stream stream maximum =
     (let bytes = take (nat (maximum + 1)) stream
      in if bytes = [] then Inl (deployment_error ''Deployment archive is empty'')
         else if maximum < int (length bytes)
         then Inl (deployment_error ''Deployment archive exceeds the configured limit'')
         else Inr bytes)"

definition lineage_name :: "string \<Rightarrow> bool" where
  "lineage_name s \<longleftrightarrow>
     starts_with s ''v'' \<and> ends_with s ''.RELEASE.json'' \<and> 14 \<le> length s
     \<and> SEMVER_RE (take (length s - 14) (drop 1 s))"

section \<open>The checks on a member's name\<close>

definition member_name_ok :: "library \<Rightarrow> string list \<Rightarrow> string \<Rightarrow> bool" where
  "member_name_ok lib seen name \<longleftrightarrow>
     lb_nfc lib name = name \<and> \<not> starts_with name ''/'' \<and> CHR 0x5C \<notin> set name
     \<and> ''..'' \<notin> set (path_parts name) \<and> path_parts name \<noteq> []
     \<and> lb_casefold lib (lb_nfc lib name) \<notin> set seen \<and> length name \<le> 300"

definition check_member_path :: "string \<Rightarrow> exn + unit" where
  "check_member_path name =
     (let parts = path_parts name; root = hd parts
      in bind_result (require (root \<in> {''REQUEST.json'', ''lineage'', ''release''})
            (deployment_error (''Undeclared archive root: '' @ repr_string name))) (\<lambda>_.
         bind_result (require (root = ''REQUEST.json'' \<longrightarrow> length parts = 1)
            (deployment_error ''REQUEST.json must be at the archive root'')) (\<lambda>_.
         bind_result (require (root = ''release'' \<longrightarrow> length parts \<le> 2)
            (deployment_error ''Nested release paths are not allowed'')) (\<lambda>_.
         require (root = ''lineage'' \<longrightarrow>
              length parts \<le> 2 \<and> (length parts = 2 \<longrightarrow> lineage_name (parts ! 1)))
            (deployment_error ''Lineage paths are not canonical'')))))"

definition check_member :: "library \<Rightarrow> string list \<Rightarrow> member \<Rightarrow> exn + unit" where
  "check_member lib seen m =
     bind_result (require (\<not> mb_pax m) (deployment_error ''Extended tar headers are not allowed'')) (\<lambda>_.
     bind_result (require (member_name_ok lib seen (mb_name m))
        (deployment_error (''Unsafe archive member: '' @ repr_string (mb_name m)))) (\<lambda>_.
     check_member_path (mb_name m)))"

text \<open>The checks on a file before anything is written; the value is the new total.\<close>

definition check_file :: "member \<Rightarrow> int \<Rightarrow> exn + int" where
  "check_file m expanded =
     bind_result (require (mb_kind m = File_Member)
        (deployment_error (''Archive member is not a regular file: '' @ mb_name m))) (\<lambda>_.
     bind_result (require (0 < mb_size m \<and> mb_size m \<le> MAX_FILE_BYTES)
        (deployment_error (''Archive member has an unsafe size: '' @ mb_name m))) (\<lambda>_.
     bind_result (require (expanded + mb_size m \<le> MAX_EXPANDED_BYTES)
        (deployment_error ''Deployment archive expands beyond its safe limit'')) (\<lambda>_.
     Inr (expanded + mb_size m))))"

section \<open>Writing a member\<close>

text \<open>The loop over the chunks; the value is what is left of the stream.\<close>

function copy_stream ::
  "(nat \<Rightarrow> exn option) \<Rightarrow> member \<Rightarrow> string list \<Rightarrow> nat \<Rightarrow> string \<Rightarrow> (tree, string) act" where
  "copy_stream disk m p remaining stream =
     (if remaining = 0 then give stream
      else let wanted = min (1024 * 1024) remaining; chunk = take wanted stream
           in if mb_fault m \<noteq> None \<and> length stream < wanted then throw (the (mb_fault m))
              else if chunk = []
              then throw (deployment_error (''Archive member ended early: '' @ mb_name m))
              else seq (write_bytes disk p chunk)
                     (\<lambda>_. copy_stream disk m p (remaining - length chunk) (drop wanted stream)))"
  by pat_completeness auto
termination
  by (relation "measure (\<lambda>(_, _, _, remaining, _). remaining)") (auto simp: min_def)

declare copy_stream.simps [simp del]

definition write_member :: "(nat \<Rightarrow> exn option) \<Rightarrow> member \<Rightarrow> (tree, unit) act" where
  "write_member disk m =
     (case mb_stream m of
        None \<Rightarrow> throw (deployment_error (''Could not read archive member: '' @ mb_name m))
      | Some stream \<Rightarrow>
          (let p = path_parts (mb_name m)
           in seq (make_directory disk (butlast p) True) (\<lambda>_.
              seq (open_new disk p) (\<lambda>_.
              seq (copy_stream disk m p (nat (mb_size m)) stream) (\<lambda>rest.
              seq (if rest = [] then give ()
                   else throw (deployment_error (''Archive member exceeds its declared size: '' @ mb_name m))) (\<lambda>_.
              change_mode disk p (if mb_name m = ''REQUEST.json'' then 384 else 420)))))))"

text \<open>A result as a statement.\<close>

definition lift_result :: "exn + 'a \<Rightarrow> ('s, 'a) act" where
  "lift_result r = (\<lambda>s. (r, s))"

lemma lift_result_simps [simp]:
  "lift_result (Inr x) = give x" "lift_result (Inl e) = throw e"
  by (simp_all add: lift_result_def fun_eq_iff)

fun extract_members ::
  "library \<Rightarrow> (nat \<Rightarrow> exn option) \<Rightarrow> string list \<Rightarrow> int \<Rightarrow> member list \<Rightarrow> (tree, unit) act" where
  "extract_members lib disk seen expanded [] = give ()"
| "extract_members lib disk seen expanded (m # ms) =
     seq (lift_result (check_member lib seen m)) (\<lambda>_.
     let seen' = lb_casefold lib (lb_nfc lib (mb_name m)) # seen
     in if mb_kind m = Directory_Member
        then seq (lift_result (require (path_parts (mb_name m) \<in> {[''release''], [''lineage'']})
                 (deployment_error ''Archive contains an undeclared directory''))) (\<lambda>_.
             extract_members lib disk seen' expanded ms)
        else seq (lift_result (check_file m expanded)) (\<lambda>expanded'.
             seq (write_member disk m) (\<lambda>_.
             extract_members lib disk seen' expanded' ms)))"

definition extract_archive ::
  "library \<Rightarrow> tar_reader \<Rightarrow> (nat \<Rightarrow> exn option) \<Rightarrow> string \<Rightarrow> (tree, unit) act" where
  "extract_archive lib tar disk bytes =
     seq (make_directory disk [] False) (\<lambda>_.
     seq (lift_result (case tar_open tar bytes of
            Opened \<Rightarrow> Inr ()
          | Not_An_Archive \<Rightarrow> Inl (deployment_error ''Deployment archive is not a valid gzip tar'')
          | Open_Raised e \<Rightarrow> Inl e)) (\<lambda>_.
     seq (lift_result (tar_members tar bytes)) (\<lambda>members.
     seq (lift_result (require (members \<noteq> [] \<and> length members \<le> MAX_ARCHIVE_MEMBERS)
            (deployment_error ''Deployment archive has an unsafe member count''))) (\<lambda>_.
     seq (extract_members lib disk [] 0 members) (\<lambda>_ t.
     lift_result (bind_result (require (is_regular (node_at t [''REQUEST.json'']))
            (deployment_error ''Deployment archive lacks REQUEST.json'')) (\<lambda>_.
          require (node_at t [''release''] = Some Directory)
            (deployment_error ''Deployment archive lacks its release directory''))) t)))))"

end
