(* ===== verification/Deploy_Bundle.thy ===== *)
theory Deploy_Bundle
  imports Deploy_Config Deploy_Archive Deploy_Journal
begin

text \<open>
  The validated bundle (\<open>load_validated_bundle\<close> and \<open>_load_recovery_lineage\<close> of
  \<open>ops/deploy/contracts.py\<close>) and what the engine's journal copies of it. The release validator
  (\<open>ops/release/buh_release.py\<close>) is a parameter.
\<close>

section \<open>Bundles\<close>

text \<open>\<open>verify_release_dir\<close> and \<open>validate_manifest_data\<close>; the text of what the first raises is
  part of the message, the second is only asked whether it raises.\<close>

record validator =
  va_release :: "tree \<Rightarrow> string + (string \<times> pyval) list"
  va_manifest :: "(string \<times> pyval) list \<Rightarrow> bool"

record validated_bundle =
  vb_request :: deployment_request
  vb_manifest :: "(string \<times> pyval) list"
  vb_install_plan :: pyval
  vb_lineage :: "(string \<times> pyval) list list"

definition sha256_file :: "library \<Rightarrow> node option \<Rightarrow> exn + string" where
  "sha256_file lib file =
     (if is_regular file then Inr (lb_sha256 lib (bytes_of file)) else Inl (os_error ''FileNotFoundError''))"

text \<open>\<open>v.get(k) if isinstance(v, dict) else None\<close>.\<close>

definition part :: "pyval \<Rightarrow> string \<Rightarrow> pyval" where
  "part v k = (if is_dict v then get_key (the_dict v) k else PNone)"

section \<open>Lineage\<close>

definition lineage_file :: "release_identity \<Rightarrow> string" where
  "lineage_file i = ''v'' @ ri_platform_version i @ ''.RELEASE.json''"

definition lineage_entries :: "tree \<Rightarrow> (string \<times> node) list" where
  "lineage_entries t =
     concat (map (\<lambda>(p, n). case p of [d, x] \<Rightarrow> if d = ''lineage'' then [(x, n)] else [] | _ \<Rightarrow> []) (tree_nodes t))"

definition predecessor :: "release_identity \<Rightarrow> pyval" where
  "predecessor i = PDict
     [(''manifest_sha256'', PStr (ri_manifest_sha256 i)), (''platform_version'', PStr (ri_platform_version i)),
      (''source_commit'', PStr (ri_source_commit i))]"

definition compatibility_values :: "(string \<times> pyval) list \<Rightarrow> pyval" where
  "compatibility_values manifest = part (get_key manifest ''compatibility'') ''values''"

definition rollback_compatible :: "pyval \<Rightarrow> bool" where
  "rollback_compatible policy \<longleftrightarrow>
     is_dict policy \<and> get_key (the_dict policy) ''database_migrations_must_be_rollback_compatible'' = PBool True"

definition base_image :: "(string \<times> pyval) list \<Rightarrow> pyval" where
  "base_image manifest = part (part (compatibility_values manifest) ''production_runtime'') ''base_image''"

definition compatibility_safe :: "(string \<times> pyval) list \<Rightarrow> bool" where
  "compatibility_safe manifest \<longleftrightarrow>
     is_dict (get_key manifest ''compatibility'')
     \<and> rollback_compatible (part (compatibility_values manifest) ''policy'')
     \<and> is_dict (part (compatibility_values manifest) ''production_runtime'')
     \<and> str_matching IMAGE_DIGEST_RE (base_image manifest)"

text \<open>The variables of the loop over the earlier releases.\<close>

record lineage_state =
  ls_previous :: pyval
  ls_compatibility :: pyval
  ls_image :: pyval
  ls_manifests :: "(string \<times> pyval) list list"

definition lineage_start :: lineage_state where
  "lineage_start = \<lparr>ls_previous = PNone, ls_compatibility = PNone, ls_image = PNone, ls_manifests = []\<rparr>"

definition identity_matches ::
  "library \<Rightarrow> release_identity \<Rightarrow> pyval \<Rightarrow> node option \<Rightarrow> (string \<times> pyval) list \<Rightarrow> bool" where
  "identity_matches lib i previous file v \<longleftrightarrow>
     get_key v ''platform_version'' = PStr (ri_platform_version i)
     \<and> get_key v ''source_commit'' = PStr (ri_source_commit i)
     \<and> sha256_file lib file = Inr (ri_manifest_sha256 i)
     \<and> (previous \<noteq> PNone \<longrightarrow> py_eq (get_key v ''previous_release'') previous)"

text \<open>One round: the compatibility identity is remembered from the first release that has one, and
  the later ones must have the same, except under the successor policy.\<close>

definition lineage_round ::
  "library \<Rightarrow> validator \<Rightarrow> (string \<times> pyval) list \<Rightarrow> tree \<Rightarrow> nat \<Rightarrow> release_identity \<Rightarrow> lineage_state
     \<Rightarrow> exn + lineage_state" where
  "lineage_round lib va policy t index i st =
     (let file = node_at t [''lineage'', lineage_file i]
      in bind_result (load_json lib file (nat MAX_FILE_BYTES) (''recovery lineage release '' @ show_nat index)) (\<lambda>v.
         bind_result (require (canonical_json (lb_float lib) (PDict v) = bytes_of file)
            (deployment_error ''Recovery lineage manifest is not canonical'')) (\<lambda>_.
         bind_result (require (va_manifest va v)
            (deployment_error (''Recovery lineage manifest '' @ show_nat index @ '' is invalid''))) (\<lambda>_.
         bind_result (require (identity_matches lib i (ls_previous st) file v)
            (deployment_error ''Recovery lineage identity is missing, altered, or reordered'')) (\<lambda>_.
         bind_result (require (compatibility_safe v)
            (deployment_error ''Recovery lineage compatibility boundary is unsafe'')) (\<lambda>_.
         bind_result (require (ls_compatibility st = PNone
              \<or> get_key policy ''policy_id'' = PStr V08_GAP_POLICY_ID
              \<or> py_eq (part (get_key v ''compatibility'') ''sha256'') (ls_compatibility st)
                 \<and> base_image v = ls_image st)
            (deployment_error ''Recovery lineage crosses an unreviewed compatibility boundary'')) (\<lambda>_.
         Inr (st\<lparr>ls_previous := predecessor i,
                 ls_compatibility := (if ls_compatibility st = PNone
                    then part (get_key v ''compatibility'') ''sha256'' else ls_compatibility st),
                 ls_image := (if ls_compatibility st = PNone then base_image v else ls_image st),
                 ls_manifests := ls_manifests st @ [v]\<rparr>))))))))"

fun lineage_rounds ::
  "library \<Rightarrow> validator \<Rightarrow> (string \<times> pyval) list \<Rightarrow> tree \<Rightarrow> nat \<Rightarrow> release_identity list \<Rightarrow> lineage_state
     \<Rightarrow> exn + lineage_state" where
  "lineage_rounds lib va policy t index [] st = Inr st"
| "lineage_rounds lib va policy t index (i # is) st =
     bind_result (lineage_round lib va policy t index i st) (lineage_rounds lib va policy t (Suc index) is)"

definition target_accepted ::
  "(string \<times> pyval) list \<Rightarrow> (string \<times> pyval) list \<Rightarrow> lineage_state \<Rightarrow> bool" where
  "target_accepted policy target st \<longleftrightarrow>
     py_eq (get_key target ''previous_release'') (ls_previous st)
     \<and> rollback_compatible (part (compatibility_values target) ''policy'')
     \<and> is_dict (part (compatibility_values target) ''production_runtime'')
     \<and> py_eq (base_image target) (ls_image st)
     \<and> (get_key policy ''policy_id'' \<noteq> PStr V08_GAP_POLICY_ID
        \<longrightarrow> py_eq (part (get_key target ''compatibility'') ''sha256'') (ls_compatibility st))"

definition load_recovery_lineage ::
  "library \<Rightarrow> string option \<Rightarrow> validator \<Rightarrow> tree \<Rightarrow> transition \<Rightarrow> (string \<times> pyval) list
     \<Rightarrow> exn + (string \<times> pyval) list list" where
  "load_recovery_lineage lib policy_file va t tr target =
     (let earlier = butlast (tr_releases tr); entries = lineage_entries t
      in bind_result (require (get_key target ''source_commit'' = PStr (ri_source_commit (last (tr_releases tr))))
            (deployment_error ''Recovery target source differs from its manifest'')) (\<lambda>_.
         bind_result (as_deployment_error (load_transition_policy lib policy_file (PStr (tr_policy_id tr)))) (\<lambda>policy.
         bind_result (if tr_purpose tr = ''production-recovery''
              then require (py_eq (get_key target ''deployment_recovery'') (manifest_recovery lib policy))
                     (deployment_error ''Recovery target manifest does not contain the reviewed opt-in'')
              else require (''deployment_recovery'' \<notin> set (map fst target))
                     (deployment_error ''Receiver-upgrade preflight target unexpectedly carries recovery metadata'')) (\<lambda>_.
         bind_result (require (node_at t [''lineage''] = Some Directory)
            (deployment_error ''Recovery deployment archive lacks safe lineage evidence'')) (\<lambda>_.
         bind_result (require (list_all (\<lambda>(x, n). is_regular (Some n)) entries)
            (deployment_error ''Recovery lineage contains an unsafe entry'')) (\<lambda>_.
         bind_result (require (set (map fst entries) = set (map lineage_file earlier))
            (deployment_error ''Recovery lineage files are incomplete or unrelated'')) (\<lambda>_.
         bind_result (lineage_rounds lib va policy t 0 earlier lineage_start) (\<lambda>st.
         bind_result (if get_key policy ''policy_id'' = PStr V08_GAP_POLICY_ID
              then as_deployment_error (validate_v08_gap_compatibility (ls_manifests st) target) else Inr ()) (\<lambda>_.
         bind_result (require (target_accepted policy target st)
            (deployment_error ''Recovery target compatibility or predecessor changed'')) (\<lambda>_.
         Inr (ls_manifests st)))))))))))"

section \<open>The bundle\<close>

definition load_validated_bundle ::
  "library \<Rightarrow> string option \<Rightarrow> validator \<Rightarrow> tree \<Rightarrow> receiver_config \<Rightarrow> exn + validated_bundle" where
  "load_validated_bundle lib policy_file va t config =
     bind_result (load_request lib policy_file (node_at t [''REQUEST.json''])) (\<lambda>q.
     bind_result (require (rq_repository q = rc_repository config)
        (deployment_error ''Deployment request targets the wrong repository'')) (\<lambda>_.
     bind_result (case va_release va t of
          Inl reason \<Rightarrow> Inl (deployment_error (''Release bundle validation failed: '' @ reason))
        | Inr manifest \<Rightarrow> Inr manifest) (\<lambda>manifest.
     bind_result (sha256_file lib (node_at t [''release'', ''RELEASE.json''])) (\<lambda>hashed.
     bind_result (require (hashed = rq_manifest_sha256 q)
        (deployment_error ''Deployment request manifest digest is incorrect'')) (\<lambda>_.
     bind_result (require (get_key manifest ''platform_version'' = PStr (rq_platform_version q))
        (deployment_error ''Request and release platform versions disagree'')) (\<lambda>_.
     bind_result (require (get_key manifest ''platform_id'' = PStr ''buh-allianceauth'')
        (deployment_error ''Release manifest has the wrong platform id'')) (\<lambda>_.
     (let plan = node_at t [''release'', ''INSTALL_PLAN.json'']
      in bind_result (case (if is_regular plan \<and> list_all is_ascii (bytes_of plan) then lb_loads lib (bytes_of plan) else None) of
            None \<Rightarrow> Inl (deployment_error ''Could not load the verified install plan'') | Some v \<Rightarrow> Inr v) (\<lambda>install.
         bind_result (case rq_recovery_transition q of
              Some tr \<Rightarrow> load_recovery_lineage lib policy_file va t tr manifest
            | None \<Rightarrow> if node_at t [''lineage''] \<noteq> None
                then Inl (deployment_error ''A direct deployment archive contains undeclared lineage'')
                else Inr []) (\<lambda>lineage.
         Inr \<lparr>vb_request = q, vb_manifest = manifest, vb_install_plan = install, vb_lineage = lineage\<rparr>)))))))))) "

text \<open>What the journal copies of the bundle.\<close>

definition release_bundle_of :: "library \<Rightarrow> validated_bundle \<Rightarrow> release_bundle" where
  "release_bundle_of lib b =
     (let q = vb_request b
      in \<lparr>bu_attempt_id = attempt_id q, bu_repository = rq_repository q,
          bu_release_commit = rq_release_commit q,
          bu_source_commit = the_str (get_key (vb_manifest b) ''source_commit''),
          bu_platform_version = rq_platform_version q, bu_manifest_sha256 = rq_manifest_sha256 q,
          bu_recovery_transition = map_option (\<lambda>tr. \<lparr>rt_versions = map ri_platform_version (tr_releases tr),
              rt_policy_id = tr_policy_id tr, rt_purpose = tr_purpose tr\<rparr>) (rq_recovery_transition q),
          bu_recovery_sha256 = recovery_sha256 lib q\<rparr>)"

section \<open>The chain of an accepted recovery\<close>

lemma sha256_file_Inr: "sha256_file lib file = Inr h \<longleftrightarrow> is_regular file \<and> h = lb_sha256 lib (bytes_of file)"
  by (auto simp: sha256_file_def)

text \<open>A manifest that is the file of a release: its identity and the digest of its canonical text.\<close>

definition manifest_of :: "library \<Rightarrow> release_identity \<Rightarrow> (string \<times> pyval) list \<Rightarrow> bool" where
  "manifest_of lib i v \<longleftrightarrow>
     get_key v ''platform_version'' = PStr (ri_platform_version i)
     \<and> get_key v ''source_commit'' = PStr (ri_source_commit i)
     \<and> lb_sha256 lib (canonical_json (lb_float lib) (PDict v)) = ri_manifest_sha256 i"

definition follows_release :: "pyval \<Rightarrow> (string \<times> pyval) list \<Rightarrow> bool" where
  "follows_release previous v \<longleftrightarrow> previous \<noteq> PNone \<longrightarrow> py_eq (get_key v ''previous_release'') previous"

fun linked :: "library \<Rightarrow> pyval \<Rightarrow> release_identity list \<Rightarrow> (string \<times> pyval) list list \<Rightarrow> bool" where
  "linked lib previous [] [] = True"
| "linked lib previous (i # is) (v # vs) =
     (manifest_of lib i v \<and> follows_release previous v \<and> compatibility_safe v \<and> linked lib (predecessor i) is vs)"
| "linked lib previous _ _ = False"

lemma lineage_round_Inr:
  assumes "lineage_round lib va policy t index i st = Inr st'"
  obtains v where "manifest_of lib i v" and "follows_release (ls_previous st) v" and "compatibility_safe v"
    and "ls_previous st' = predecessor i" and "ls_manifests st' = ls_manifests st @ [v]"
proof -
  let ?file = "node_at t [''lineage'', lineage_file i]"
  obtain v where v: "canonical_json (lb_float lib) (PDict v) = bytes_of ?file"
      "identity_matches lib i (ls_previous st) ?file v" "compatibility_safe v"
      "ls_previous st' = predecessor i" "ls_manifests st' = ls_manifests st @ [v]"
    using assms unfolding lineage_round_def Let_def bind_result_Inr_iff require_Inr by clarsimp
  then have "manifest_of lib i v" "follows_release (ls_previous st) v"
    by (auto simp: identity_matches_def sha256_file_Inr manifest_of_def follows_release_def)
  with v show ?thesis
    by (intro that [of v]) simp_all
qed

lemma lineage_rounds_Inr:
  assumes "lineage_rounds lib va policy t index is st = Inr st'"
  shows "\<exists>vs. ls_manifests st' = ls_manifests st @ vs \<and> linked lib (ls_previous st) is vs
    \<and> ls_previous st' = (if is = [] then ls_previous st else predecessor (last is))"
  using assms
proof (induction "is" arbitrary: index st)
  case (Cons i "is")
  then obtain st1 where st1: "lineage_round lib va policy t index i st = Inr st1"
      "lineage_rounds lib va policy t (Suc index) is st1 = Inr st'"
    by (auto simp: bind_result_Inr_iff)
  obtain v where v: "manifest_of lib i v" "follows_release (ls_previous st) v" "compatibility_safe v"
      "ls_previous st1 = predecessor i" "ls_manifests st1 = ls_manifests st @ [v]"
    by (rule lineage_round_Inr [OF st1(1)])
  obtain vs where "ls_manifests st' = ls_manifests st1 @ vs" "linked lib (ls_previous st1) is vs"
      "ls_previous st' = (if is = [] then ls_previous st1 else predecessor (last is))"
    using Cons.IH [OF st1(2)] by blast
  with v show ?case
    by (intro exI [of _ "v # vs"]) auto
qed simp

lemma load_recovery_lineage_Inr:
  assumes "load_recovery_lineage lib policy_file va t tr target = Inr lineage" and "butlast (tr_releases tr) \<noteq> []"
  shows "linked lib PNone (butlast (tr_releases tr)) lineage
    \<and> get_key target ''source_commit'' = PStr (ri_source_commit (last (tr_releases tr)))
    \<and> py_eq (get_key target ''previous_release'') (predecessor (last (butlast (tr_releases tr))))"
proof -
  obtain policy st where st: "lineage_rounds lib va policy t 0 (butlast (tr_releases tr)) lineage_start = Inr st"
      "target_accepted policy target st" "lineage = ls_manifests st"
      "get_key target ''source_commit'' = PStr (ri_source_commit (last (tr_releases tr)))"
    using assms(1) unfolding load_recovery_lineage_def Let_def bind_result_Inr_iff require_Inr by clarsimp
  then show ?thesis
    using lineage_rounds_Inr [OF st(1)] assms(2) by (auto simp: lineage_start_def target_accepted_def)
qed

lemma load_validated_bundle_Inr:
  assumes "load_validated_bundle lib policy_file va t config = Inr b"
  obtains "load_request lib policy_file (node_at t [''REQUEST.json'']) = Inr (vb_request b)"
    and "rq_repository (vb_request b) = rc_repository config" and "va_release va t = Inr (vb_manifest b)"
    and "is_regular (node_at t [''release'', ''RELEASE.json''])"
    and "lb_sha256 lib (bytes_of (node_at t [''release'', ''RELEASE.json''])) = rq_manifest_sha256 (vb_request b)"
    and "get_key (vb_manifest b) ''platform_version'' = PStr (rq_platform_version (vb_request b))"
    and "case rq_recovery_transition (vb_request b) of
           Some tr \<Rightarrow> load_recovery_lineage lib policy_file va t tr (vb_manifest b) = Inr (vb_lineage b)
         | None \<Rightarrow> node_at t [''lineage''] = None \<and> vb_lineage b = []"
proof -
  obtain q manifest lineage install where q: "load_request lib policy_file (node_at t [''REQUEST.json'']) = Inr q"
      "rq_repository q = rc_repository config"
      "(case va_release va t of
          Inl reason \<Rightarrow> Inl (deployment_error (''Release bundle validation failed: '' @ reason))
        | Inr manifest \<Rightarrow> Inr manifest) = Inr manifest"
      "sha256_file lib (node_at t [''release'', ''RELEASE.json'']) = Inr (rq_manifest_sha256 q)"
      "get_key manifest ''platform_version'' = PStr (rq_platform_version q)"
      "(case rq_recovery_transition q of
              Some tr \<Rightarrow> load_recovery_lineage lib policy_file va t tr manifest
            | None \<Rightarrow> if node_at t [''lineage''] \<noteq> None
                then Inl (deployment_error ''A direct deployment archive contains undeclared lineage'')
                else Inr []) = Inr lineage"
    and b: "b = \<lparr>vb_request = q, vb_manifest = manifest, vb_install_plan = install, vb_lineage = lineage\<rparr>"
    using assms unfolding load_validated_bundle_def Let_def bind_result_Inr_iff require_Inr by clarsimp
  then show ?thesis
    by (intro that) (auto simp: sha256_file_Inr split: sum.splits option.splits if_splits)
qed

end
