(* ===== verification/Deploy_Receiver.thy ===== *)
theory Deploy_Receiver
  imports Deploy_Bundle Deploy_Engine
begin

text \<open>
  The forced command that receives a deployment (\<open>ops/deploy/receiver.py\<close>): the host lock, one
  archive, one run of the engine, one exit code. The operating system's answers about paths and
  the lock, the archive reader, the validator and the backend are parameters.
\<close>

section \<open>The host of the receiver\<close>

datatype file_kind = Plain_File | Folder | Link | Other_File

record stat_result =
  st_kind :: file_kind
  st_uid :: int
  st_mode :: nat
  st_dev :: int
  st_ino :: int

text \<open>\<open>flock\<close> without waiting: taken, held by another process, or failed.\<close>

datatype flock_result = Taken | Held | Flock_Raised exn

text \<open>
  \<open>lk_lstat\<close> and \<open>lk_stat\<close> answer \<open>None\<close> where the call raises \<open>OSError\<close>; \<open>lk_fstat\<close> is the
  answer about the inherited descriptor, \<open>lk_dup\<close> and \<open>lk_open\<close> what duplicating it or opening
  the lock file yields: the \<open>fstat\<close> of the new descriptor or an exception.
\<close>

record lock_host =
  lk_euid :: int
  lk_lstat :: "string list \<Rightarrow> stat_result option"
  lk_stat :: "string list \<Rightarrow> stat_result option"
  lk_fstat :: "int \<Rightarrow> stat_result option"
  lk_dup :: "exn option"
  lk_prepare :: "exn option"
  lk_open :: "exn + (exn + stat_result)"
  lk_flock :: flock_result

text \<open>
  Everything the receiver meets besides the host the engine runs on: the environment, the
  configuration file, the standard input, the temporary directory, the construction of the backend,
  and what the backend does about the recovery plan of an attempt that died: reading the plan,
  removing it, and the rollback it calls for, which works on the host and may put back or remove the
  current pointer (\<open>_restore_deployment_current\<close>).
\<close>

record incomplete_plan =
  ip_attempt_id :: string
  ip_phase :: string

record 'w site =
  si_command :: string
  si_config :: "node option"
  si_policy :: "string option"
  si_lock :: lock_host
  si_stdin :: string
  si_library :: library
  si_reader :: tar_reader
  si_validator :: validator
  si_disk :: "nat \<Rightarrow> exn option"
  si_make_temporary :: "exn option"
  si_remove_temporary :: "exn option"
  si_load_plan :: "receiver_config \<Rightarrow> 'w \<Rightarrow> (exn + incomplete_plan option) \<times> 'w"
  si_complete_plan :: "incomplete_plan \<Rightarrow> 'w \<Rightarrow> (exn + unit) \<times> 'w"
  si_rollback_plan :: "incomplete_plan \<Rightarrow> 'w \<Rightarrow> pointer option \<Rightarrow> (exn + string) \<times> 'w \<times> pointer option"
  si_make_host :: "receiver_config \<Rightarrow> 'w \<Rightarrow> (exn + unit) \<times> 'w"
  si_host :: "'w host"

text \<open>The process: its open lock descriptors, whether it read the archive, the tree in the
  temporary directory, if there is one, and the machine of the engine.\<close>

record 'w process =
  pr_locks :: nat
  pr_read :: bool
  pr_tree :: "tree option"
  pr_machine :: "'w machine"

type_synonym ('w, 'a) step = "('w process, 'a) act"

definition on_machine :: "('w, 'a) run \<Rightarrow> ('w, 'a) step" where
  "on_machine f = (\<lambda>s. let (r, m) = f (pr_machine s) in (r, s\<lparr>pr_machine := m\<rparr>))"

definition locks :: "(nat \<Rightarrow> nat) \<Rightarrow> ('w, unit) step" where
  "locks f = change (\<lambda>s. s\<lparr>pr_locks := f (pr_locks s)\<rparr>)"

section \<open>The command\<close>

definition COMMANDS :: "string \<Rightarrow> string option" where
  "COMMANDS = map_of [(''preflight platform-v2'', ''preflight''), (''deploy platform-v2'', ''deploy'')]"

text \<open>An unset environment variable is the empty text.\<close>

definition forced_mode :: "string \<Rightarrow> string option \<Rightarrow> exn + string" where
  "forced_mode original explicit =
     (case explicit of
        Some mode \<Rightarrow>
          (if original \<noteq> [] \<and> COMMANDS original \<noteq> Some mode
           then Inl (deployment_error ''The forced mode does not match the original SSH command'')
           else Inr mode)
      | None \<Rightarrow>
          (case COMMANDS original of
             None \<Rightarrow> Inl (deployment_error ''The forced command rejected this SSH request'')
           | Some mode \<Rightarrow> Inr mode))"

section \<open>The lock\<close>

definition lock_busy :: exn where
  "lock_busy = \<lparr>ex_class = ''LockBusy'', ex_text = ''Another Platform v2 operation is already running'',
     ex_deployment = True\<rparr>"

text \<open>A write bit of the group or of others, \<open>mode & 0o022\<close>; any bit of theirs, \<open>mode & 0o077\<close>.\<close>

definition shared_write :: "nat \<Rightarrow> bool" where
  "shared_write mode \<longleftrightarrow> odd (mode div 2) \<or> odd (mode div 16)"

definition shared_access :: "nat \<Rightarrow> bool" where
  "shared_access mode \<longleftrightarrow> mode mod 64 \<noteq> 0"

text \<open>The directories on the way to a path, the root left out, outermost first.\<close>

definition ancestors :: "string list \<Rightarrow> string list list" where
  "ancestors p = map (\<lambda>k. ''/'' # take k (tl (butlast p))) [1..<length p - 1]"

definition ancestor_safe :: "stat_result \<Rightarrow> bool" where
  "ancestor_safe s \<longleftrightarrow> st_kind s = Folder \<and> st_uid s = 0 \<and> \<not> shared_write (st_mode s)"

definition verify_ancestors :: "lock_host \<Rightarrow> string list \<Rightarrow> exn + unit" where
  "verify_ancestors lk p =
     bind_result (require (p \<noteq> [] \<and> starts_with (hd p) ''/'' \<and> p \<noteq> [''/''])
        (deployment_error ''Deployment path is not a safe absolute path'')) (\<lambda>_.
     bind_result (each_result (\<lambda>q.
         case lk_lstat lk q of
           None \<Rightarrow> Inl (deployment_error ''Deployment path ancestor is unavailable'')
         | Some s \<Rightarrow> require (ancestor_safe s) (deployment_error ''Deployment path ancestor is unsafe''))
       (ancestors p)) (\<lambda>_. Inr ()))"

definition lock_file_ok :: "stat_result \<Rightarrow> bool" where
  "lock_file_ok s \<longleftrightarrow> st_kind s = Plain_File \<and> st_uid s = 0 \<and> st_mode s = 384"

definition verify_directories :: "lock_host \<Rightarrow> receiver_config \<Rightarrow> exn + unit" where
  "verify_directories lk c =
     bind_result (require (lk_euid lk = 0) (deployment_error ''Platform v2 receiver must run as root'')) (\<lambda>_.
     bind_result (verify_ancestors lk (rc_state_dir c)) (\<lambda>_.
     bind_result (verify_ancestors lk (rc_backup_dir c)) (\<lambda>_.
     case (lk_lstat lk (rc_state_dir c), lk_lstat lk (rc_backup_dir c)) of
       (Some s, Some b) \<Rightarrow>
         bind_result (require (st_kind s = Folder \<and> st_uid s = 0 \<and> \<not> shared_access (st_mode s))
            (deployment_error ''Deployment state directory is not private and root-owned'')) (\<lambda>_.
         require (st_kind b = Folder \<and> st_uid b = 0 \<and> st_mode b = 448)
            (deployment_error ''Deployment backup directory is not private and root-owned''))
     | _ \<Rightarrow> Inl (deployment_error ''Deployment state or backup directory is unavailable''))))"

definition lock_path :: "receiver_config \<Rightarrow> string list" where
  "lock_path c = rc_state_dir c @ [''deploy.lock'']"

text \<open>The checks on an inherited descriptor.\<close>

definition verify_inherited :: "lock_host \<Rightarrow> receiver_config \<Rightarrow> int \<Rightarrow> exn + unit" where
  "verify_inherited lk c fd =
     bind_result (require (3 \<le> fd) (deployment_error ''Inherited deployment lock descriptor is invalid'')) (\<lambda>_.
     case (lk_stat lk (lock_path c), lk_fstat lk fd) of
       (Some p, Some d) \<Rightarrow>
         require (lock_file_ok p \<and> lock_file_ok d \<and> (st_dev p, st_ino p) = (st_dev d, st_ino d))
           (deployment_error ''Inherited deployment lock identity is invalid'')
     | _ \<Rightarrow> Inl (deployment_error ''Inherited deployment lock is unavailable''))"

definition raise_some :: "exn option \<Rightarrow> ('s, unit) act" where
  "raise_some e = (case e of None \<Rightarrow> give () | Some x \<Rightarrow> throw x)"

definition take_flock :: "lock_host \<Rightarrow> ('s, unit) act" where
  "take_flock lk =
     (case lk_flock lk of Taken \<Rightarrow> give () | Held \<Rightarrow> throw lock_busy | Flock_Raised e \<Rightarrow> throw e)"

text \<open>A descriptor that is not handed to the caller is closed again.\<close>

definition closing_on_error :: "('w, unit) step \<Rightarrow> ('w, unit) step" where
  "closing_on_error f = catch f (\<lambda>e. seq (locks (\<lambda>n. n - 1)) (\<lambda>_. throw e))"

definition open_lock :: "lock_host \<Rightarrow> receiver_config \<Rightarrow> int option \<Rightarrow> ('w, unit) step" where
  "open_lock lk c inherited =
     seq (lift_result (verify_directories lk c)) (\<lambda>_.
     case inherited of
       Some fd \<Rightarrow>
         seq (lift_result (verify_inherited lk c fd)) (\<lambda>_.
         seq (raise_some (lk_dup lk)) (\<lambda>_.
         seq (locks Suc) (\<lambda>_.
         closing_on_error (seq (raise_some (lk_prepare lk)) (\<lambda>_. take_flock lk)))))
     | None \<Rightarrow>
         (case lk_open lk of
            Inl e \<Rightarrow> throw e
          | Inr found \<Rightarrow>
              seq (locks Suc) (\<lambda>_.
              closing_on_error
                (seq (lift_result found) (\<lambda>details.
                 seq (lift_result (require (lock_file_ok details)
                        (deployment_error ''Deployment lock is not a private root-owned file''))) (\<lambda>_.
                 take_flock lk)))))) "

section \<open>One archive\<close>

text \<open>\<open>with TemporaryDirectory\<close> around a block that works on the tree.\<close>

definition remove_temporary :: "'w site \<Rightarrow> ('w, unit) step" where
  "remove_temporary si = seq (raise_some (si_remove_temporary si)) (\<lambda>_. change (\<lambda>s. s\<lparr>pr_tree := None\<rparr>))"

definition with_temporary :: "'w site \<Rightarrow> ('w, 'a) step \<Rightarrow> ('w, 'a) step" where
  "with_temporary si f =
     seq (raise_some (si_make_temporary si)) (\<lambda>_.
     seq (change (\<lambda>s. s\<lparr>pr_tree := Some \<lparr>tree_nodes = [], tree_calls = 0\<rparr>\<rparr>)) (\<lambda>_.
     finally_do f (remove_temporary si)))"

definition on_tree :: "(tree, 'a) act \<Rightarrow> ('w, 'a) step" where
  "on_tree f = (\<lambda>s. let (r, t) = f (the (pr_tree s)) in (r, s\<lparr>pr_tree := Some t\<rparr>))"

definition read_stdin :: "'w site \<Rightarrow> receiver_config \<Rightarrow> ('w, string) step" where
  "read_stdin si c = (\<lambda>s. (read_bounded_stream (si_stdin si) (rc_max_archive_bytes c), s\<lparr>pr_read := True\<rparr>))"

record outcome_report =
  or_result :: string
  or_platform_version :: string
  or_manifest_sha256 :: string
  or_recovery_sha256 :: "string option"

definition report_of :: "library \<Rightarrow> string \<Rightarrow> validated_bundle \<Rightarrow> outcome_report" where
  "report_of lib result b =
     \<lparr>or_result = result, or_platform_version = rq_platform_version (vb_request b),
      or_manifest_sha256 = rq_manifest_sha256 (vb_request b),
      or_recovery_sha256 = recovery_sha256 lib (vb_request b)\<rparr>"

text \<open>The engine's part: the journal is opened, the run follows.\<close>

definition run_engine :: "'w site \<Rightarrow> string \<Rightarrow> validated_bundle \<Rightarrow> ('w, outcome_report) step" where
  "run_engine si mode b =
     (let rb = release_bundle_of (si_library si) b; h = si_host si
      in if mode = ''preflight''
         then seq (on_machine (open_journal h rb ''preflight'')) (\<lambda>_.
              seq (on_machine (preflight_run h rb)) (\<lambda>_.
              give (report_of (si_library si) ''preflight-passed'' b)))
         else seq (on_machine (open_journal h rb ''deploy'')) (\<lambda>_.
              seq (on_machine (deploy_run h rb)) (\<lambda>_.
              give (report_of (si_library si) ''verified'' b))))"

definition process_archive :: "'w site \<Rightarrow> receiver_config \<Rightarrow> string \<Rightarrow> string \<Rightarrow> ('w, outcome_report) step" where
  "process_archive si c mode bytes =
     with_temporary si
       (seq (on_tree (extract_archive (si_library si) (si_reader si) (si_disk si) bytes)) (\<lambda>_ s.
        case load_validated_bundle (si_library si) (si_policy si) (si_validator si) (the (pr_tree s)) c of
          Inl e \<Rightarrow> (Inl e, s)
        | Inr b \<Rightarrow>
            (if rq_mode (vb_request b) \<noteq> mode
             then (Inl (deployment_error ''The deployment request mode does not match the forced command''), s)
             else seq (on_machine (on_world (si_make_host si c))) (\<lambda>_. run_engine si mode b) s)))"

section \<open>An attempt that died\<close>

definition RETAINED_ATTEMPT :: string where
  "RETAINED_ATTEMPT = ''gh-34713182347-1''"

text \<open>The attempt of the plan is on file as a verified success.\<close>

definition attempt_verified :: "incomplete_plan \<Rightarrow> disk \<Rightarrow> bool" where
  "attempt_verified p ds =
     (case attempt_on ds (ip_attempt_id p) of
        None \<Rightarrow> False
      | Some j \<Rightarrow> jr_result j = ''success'' \<and> jr_state j = Some ''verified'')"

definition rollback_plan :: "'w site \<Rightarrow> incomplete_plan \<Rightarrow> ('w, string) run" where
  "rollback_plan si p =
     seq (log_event (Called (Rollback (Some (ip_phase p))))) (\<lambda>_ m.
       case si_rollback_plan si p (mc_world m) (ds_current (mc_disk m)) of
         (r, w, current) \<Rightarrow> (r, m\<lparr>mc_world := w, mc_disk := (mc_disk m)\<lparr>ds_current := current\<rparr>\<rparr>))"

text \<open>\<open>recover_incomplete_plan\<close> of \<open>docker_host.py\<close>.\<close>

definition recover_incomplete_plan :: "'w site \<Rightarrow> receiver_config \<Rightarrow> ('w, string option) run" where
  "recover_incomplete_plan si c =
     seq (on_world (si_load_plan si c)) (\<lambda>loaded m.
       case loaded of
         None \<Rightarrow> (Inr None, m)
       | Some p \<Rightarrow>
           if ip_attempt_id p = RETAINED_ATTEMPT
           then (Inl (deployment_error (''Retained worker failure requires explicit worker-recovery ''
                   @ ''verification and separately approved completion; no new archive was read'')), m)
           else if attempt_verified p (mc_disk m)
           then seq (on_world (si_complete_plan si p)) (\<lambda>_.
                  give (Some ''A verified prior attempt left only a stale recovery marker.'')) m
           else seq (rollback_plan si p) (\<lambda>text.
                  give (Some (''Recovered an incomplete prior deployment before accepting new input: ''
                    @ text))) m)"

section \<open>One request\<close>

definition refuse_after_recovery :: "string option \<Rightarrow> exn + unit" where
  "refuse_after_recovery recovery =
     (case recovery of
        None \<Rightarrow> Inr ()
      | Some text \<Rightarrow> Inl (deployment_error
            (text @ '' The new archive was not read; submit a fresh workflow attempt.'')))"

definition receive_locked :: "'w site \<Rightarrow> receiver_config \<Rightarrow> string \<Rightarrow> ('w, outcome_report) step" where
  "receive_locked si c mode =
     seq (on_machine (recover_incomplete_plan si c)) (\<lambda>recovery.
     seq (lift_result (refuse_after_recovery recovery)) (\<lambda>_.
     seq (read_stdin si c) (process_archive si c mode)))"

definition receive :: "'w site \<Rightarrow> string option \<Rightarrow> int option \<Rightarrow> ('w, outcome_report) step" where
  "receive si explicit inherited =
     seq (lift_result (forced_mode (si_command si) explicit)) (\<lambda>mode.
     seq (lift_result (load_config (si_library si) (si_config si))) (\<lambda>c.
     seq (open_lock (si_lock si) c inherited) (\<lambda>_.
     finally_do (receive_locked si c mode) (locks (\<lambda>n. n - 1)))))"

section \<open>The exit code\<close>

datatype printout = Printed outcome_report | Complained string

definition first_line :: "string \<Rightarrow> string" where
  "first_line s = take 500 (hd (splitlines s))"

text \<open>An empty message has no first line: the handler itself raises then, and the process ends
  with a traceback and code 1.\<close>

definition exit_of :: "exn + outcome_report \<Rightarrow> nat \<times> printout" where
  "exit_of r =
     (case r of
        Inr report \<Rightarrow> (0, Printed report)
      | Inl e \<Rightarrow>
          if ex_class e = ''LockBusy'' then (73, Complained (ex_text e))
          else if ex_deployment e then
            (if splitlines (ex_text e) = [] then (1, Complained ''IndexError'')
             else (65, Complained (''Platform v2 operation failed: '' @ first_line (ex_text e))))
          else (70, Complained (''Platform v2 operation failed internally: '' @ ex_class e)))"

definition main :: "'w site \<Rightarrow> string option \<Rightarrow> int option \<Rightarrow> 'w process \<Rightarrow> (nat \<times> printout) \<times> 'w process" where
  "main si explicit inherited s =
     (case receive si explicit inherited s of (r, s') \<Rightarrow> (exit_of r, s'))"

end
