(* ===== verification/Archive_Results.thy ===== *)
theory Archive_Results
  imports Deploy_Archive
begin

text \<open>
  What an extraction leaves on the disk, whatever the archive holds and wherever it stops:
  only the declared names, within the bounds, nothing written twice; and, when it is
  accepted, every file with exactly its declared bytes.
\<close>

section \<open>Names\<close>

definition plain_name :: "string \<Rightarrow> bool" where
  "plain_name x \<longleftrightarrow> x \<noteq> [] \<and> x \<noteq> ''.'' \<and> x \<noteq> ''..'' \<and> CHR ''/'' \<notin> set x \<and> CHR 0x5C \<notin> set x"

definition file_place :: "string list \<Rightarrow> bool" where
  "file_place p \<longleftrightarrow>
     p \<in> {[''REQUEST.json''], [''release''], [''lineage'']}
     \<or> (\<exists>x. p = [''release'', x] \<and> plain_name x)
     \<or> (\<exists>x. p = [''lineage'', x] \<and> plain_name x \<and> lineage_name x)"

definition allowed_node :: "string list \<Rightarrow> node \<Rightarrow> bool" where
  "allowed_node p n \<longleftrightarrow>
     (n = Directory \<and> p \<in> {[], [''release''], [''lineage'']}) \<or> (is_regular (Some n) \<and> file_place p)"

lemma path_root_relative: "\<not> starts_with s ''/'' \<Longrightarrow> path_root s = ''''"
  by (simp add: path_root_def)

lemma path_names_plain:
  assumes "x \<in> set (path_names s)" and "''..'' \<notin> set (path_names s)" and "CHR 0x5C \<notin> set s"
  shows "plain_name x"
proof -
  have x: "x \<in> set (split_on (CHR ''/'') s)" "x \<noteq> []" "x \<noteq> ''.''"
    using assms(1) by (auto simp: path_names_def)
  then have "CHR ''/'' \<notin> set x" "set x \<subseteq> set s"
    using split_on_parts [of x] by auto
  then show ?thesis
    using x assms by (auto simp: plain_name_def)
qed

lemma checked_place:
  assumes "check_member lib seen m = Inr u"
  shows "file_place (path_parts (mb_name m))"
proof -
  let ?p = "path_parts (mb_name m)"
  have ok: "member_name_ok lib seen (mb_name m)" "check_member_path (mb_name m) = Inr ()"
    using assms by (auto simp: check_member_def bind_result_Inr_iff)
  then have p: "?p = path_names (mb_name m)" and "?p \<noteq> []"
    by (auto simp: member_name_ok_def path_parts_def path_root_relative)
  have plain: "plain_name x" if "x \<in> set ?p" for x
    using that ok(1) p by (auto simp: member_name_ok_def intro: path_names_plain)
  have root: "hd ?p \<in> {''REQUEST.json'', ''lineage'', ''release''}"
    and len: "length ?p \<le> 2" "hd ?p = ''REQUEST.json'' \<Longrightarrow> length ?p = 1"
    and line: "hd ?p = ''lineage'' \<Longrightarrow> length ?p = 2 \<Longrightarrow> lineage_name (?p ! 1)"
    using ok(2) by (auto simp: check_member_path_def bind_result_Inr_iff Let_def)
  obtain r rest where r: "?p = r # rest"
    using \<open>?p \<noteq> []\<close> by (cases ?p) auto
  show ?thesis
  proof (cases rest)
    case Nil
    then show ?thesis using r root by (auto simp: file_place_def)
  next
    case (Cons x more)
    then have "rest = [x]"
      using r len(1) by simp
    then show ?thesis
      using r root len line plain by (auto simp: file_place_def)
  qed
qed

lemma place_parent: "file_place p \<Longrightarrow> butlast p \<in> {[], [''release''], [''lineage'']}"
  by (auto simp: file_place_def)

section \<open>The invariant of the tree\<close>

definition size_of :: "node \<Rightarrow> int" where
  "size_of n = int (length (bytes_of (Some n)))"

definition tree_bytes :: "tree \<Rightarrow> int" where
  "tree_bytes t = sum_list (map (\<lambda>(p, n). size_of n) (tree_nodes t))"

definition tree_files :: "tree \<Rightarrow> nat" where
  "tree_files t = length (filter (\<lambda>(p, n). is_regular (Some n)) (tree_nodes t))"

definition confined :: "int \<Rightarrow> nat \<Rightarrow> tree \<Rightarrow> bool" where
  "confined b k t \<longleftrightarrow>
     distinct (map fst (tree_nodes t)) \<and> list_all (\<lambda>(p, n). allowed_node p n) (tree_nodes t)
     \<and> tree_bytes t \<le> b \<and> tree_files t \<le> k"

lemma confined_more: "confined b k t \<Longrightarrow> b \<le> b' \<Longrightarrow> k \<le> k' \<Longrightarrow> confined b' k' t"
  by (auto simp: confined_def)

lemma os_call_nodes: "os_call disk t = (r, t') \<Longrightarrow> tree_nodes t' = tree_nodes t"
  by (auto simp: os_call_def)

lemma confined_same: "tree_nodes t' = tree_nodes t \<Longrightarrow> confined b k t \<longleftrightarrow> confined b k t'"
  by (simp add: confined_def tree_bytes_def tree_files_def)

lemma confined_add:
  assumes "confined b k t" and "node_at t p = None" and "allowed_node p n" and "size_of n = 0"
  shows "confined b (if is_regular (Some n) then Suc k else k) (t\<lparr>tree_nodes := (p, n) # tree_nodes t\<rparr>)"
proof -
  have "p \<notin> set (map fst (tree_nodes t))"
    using assms(2) unfolding node_at_def map_of_eq_None_iff by simp
  then show ?thesis
    using assms by (auto simp: confined_def tree_bytes_def tree_files_def)
qed

lemma keys_change [simp]: "map fst (nodes_changed p f kvs) = map fst kvs"
  by (induction p f kvs rule: nodes_changed.induct) simp_all

lemma lookup_change: "map_of (nodes_changed p f kvs) q = (if q = p then map_option f (map_of kvs q) else map_of kvs q)"
  by (induction p f kvs rule: nodes_changed.induct) auto

lemma change_absent: "p \<notin> set (map fst kvs) \<Longrightarrow> nodes_changed p f kvs = kvs"
  by (induction p f kvs rule: nodes_changed.induct) auto

lemma regular_append [simp]: "is_regular (Some (append_bytes chunk n)) = is_regular (Some n)"
  by (cases n) auto

lemma regular_mode [simp]: "is_regular (Some (set_mode m n)) = is_regular (Some n)"
  by (cases n) auto

lemma sum_change:
  assumes "distinct (map fst kvs)" and "\<And>n. size_of (f n) \<le> size_of n + d" and "0 \<le> d"
  shows "sum_list (map (\<lambda>(p, n). size_of n) (nodes_changed p f kvs))
    \<le> sum_list (map (\<lambda>(p, n). size_of n) kvs) + d"
  using assms(1)
proof (induction kvs)
  case (Cons kv kvs)
  obtain q n where kv: "kv = (q, n)"
    by (cases kv)
  show ?case
  proof (cases "q = p")
    case True
    then have "nodes_changed p f kvs = kvs"
      using Cons.prems kv by (simp add: change_absent)
    then show ?thesis
      using True kv assms(2) [of n] by simp
  next
    case False
    then show ?thesis
      using Cons kv by simp
  qed
qed (simp add: assms(3))

lemma files_change:
  assumes "\<And>n. is_regular (Some (f n)) = is_regular (Some n)"
  shows "length (filter (\<lambda>(q, n). is_regular (Some n)) (nodes_changed p f kvs))
    = length (filter (\<lambda>(q, n). is_regular (Some n)) kvs)"
proof (induction kvs)
  case (Cons kv kvs)
  then show ?case
    by (cases kv) (simp add: assms)
qed simp

lemma allowed_change:
  assumes "\<And>n. is_regular (Some (f n)) = is_regular (Some n)" and "f Directory = Directory"
    and "list_all (\<lambda>(q, n). allowed_node q n) kvs"
  shows "list_all (\<lambda>(q, n). allowed_node q n) (nodes_changed p f kvs)"
  using assms(3)
proof (induction kvs)
  case (Cons kv kvs)
  have "allowed_node q (f n)" if "allowed_node q n" for q n
    using that assms(1) [of n] assms(2) by (auto simp: allowed_node_def)
  with Cons show ?case
    by (cases kv) auto
qed simp

lemma confined_change:
  assumes "confined b k t" and "\<And>n. size_of (f n) \<le> size_of n + d" and "0 \<le> d"
    and "\<And>n. is_regular (Some (f n)) = is_regular (Some n)" and "f Directory = Directory"
    and "tree_nodes t' = nodes_changed p f (tree_nodes t)"
  shows "confined (b + d) k t'"
proof -
  have t: "distinct (map fst (tree_nodes t))" "list_all (\<lambda>(p, n). allowed_node p n) (tree_nodes t)"
      "tree_bytes t \<le> b" "tree_files t \<le> k"
    using assms(1) by (simp_all add: confined_def)
  have "tree_bytes t' \<le> b + d"
    using sum_change [where p = p, OF t(1) assms(2,3)] t(3) by (simp add: tree_bytes_def assms(6))
  moreover have "tree_files t' \<le> k"
    using files_change [where p = p, OF assms(4)] t(4) by (simp add: tree_files_def assms(6))
  ultimately show ?thesis
    using t(1) allowed_change [where p = p, OF assms(4,5) t(2)] by (simp add: confined_def assms(6))
qed

section \<open>The statements\<close>

lemma confined_os_call: "confined b k t \<Longrightarrow> os_call disk t = (r, t') \<Longrightarrow> confined b k t'"
  using os_call_nodes confined_same by metis

lemma confined_make_directory:
  assumes "make_directory disk p exist_ok t = (r, t')" and "p \<in> {[], [''release''], [''lineage'']}"
    and "confined b k t"
  shows "confined b k t'"
  using assms(1)
  unfolding make_directory_def
proof (cases rule: seq_cases)
  case (both x s)
  have s: "confined b k s"
    using both(1) assms(3) confined_os_call by blast
  show ?thesis
  proof (cases "node_at s p")
    case None
    have "confined b k (s\<lparr>tree_nodes := (p, Directory) # tree_nodes s\<rparr>)"
      using confined_add [OF s None, of Directory] assms(2) by (simp add: allowed_node_def size_of_def)
    then show ?thesis
      using both(2) None by (simp add: add_node_def)
  qed (use both(2) s in \<open>auto split: if_splits\<close>)
qed (use assms(3) confined_os_call in blast)

lemma confined_open_new:
  assumes "open_new disk p t = (r, t')" and "file_place p" and "confined b k t"
  shows "confined b (Suc k) t'"
  using assms(1)
  unfolding open_new_def
proof (cases rule: seq_cases)
  case (both x s)
  have s: "confined b k s"
    using both(1) assms(3) confined_os_call by blast
  show ?thesis
  proof (cases "node_at s p")
    case None
    then show ?thesis
      using both(2) confined_add [OF s None, of "Regular [] None"] assms(2)
      by (simp add: allowed_node_def size_of_def add_node_def)
  next
    case (Some n)
    then show ?thesis
      using both(2) confined_more [OF s, of b "Suc k"] by simp
  qed
next
  case (first e)
  then show ?thesis
    using confined_more [of b k t' b "Suc k"] confined_os_call [OF assms(3) first(1)] by simp
qed

lemma size_append: "size_of (append_bytes chunk n) \<le> size_of n + int (length chunk)"
  by (cases n) (auto simp: size_of_def)

lemma size_set_mode: "size_of (set_mode m n) = size_of n"
  by (cases n) (auto simp: size_of_def)

lemma confined_write_bytes:
  assumes "write_bytes disk p chunk t = (r, t')" and "confined b k t"
  shows "confined (b + int (length chunk)) k t'"
  using assms(1)
  unfolding write_bytes_def
proof (cases rule: seq_cases)
  case (both x s)
  then have "tree_nodes t' = nodes_changed p (append_bytes chunk) (tree_nodes s)"
    by (auto simp: change_node_def)
  then show ?thesis
    by (rule confined_change [OF confined_os_call [OF assms(2) both(1)] size_append, rotated 3]) simp_all
next
  case (first e)
  then show ?thesis
    using confined_more [OF confined_os_call [OF assms(2) first(1)], of "b + int (length chunk)" k] by simp
qed

lemma confined_change_mode:
  assumes "change_mode disk p m t = (r, t')" and "confined b k t"
  shows "confined b k t'"
  using assms(1)
  unfolding change_mode_def
proof (cases rule: seq_cases)
  case (both x s)
  then have "tree_nodes t' = nodes_changed p (set_mode m) (tree_nodes s)"
    by (auto simp: change_node_def)
  then have "confined (b + 0) k t'"
    by (rule confined_change [OF confined_os_call [OF assms(2) both(1)], rotated 4])
      (simp_all add: size_set_mode)
  then show ?thesis by simp
qed (use assms(2) confined_os_call in blast)

lemma confined_copy_stream:
  assumes "copy_stream disk m p remaining stream t = (r, t')" and "confined b k t"
  shows "confined (b + int remaining) k t'"
  using assms
proof (induction disk m p remaining stream arbitrary: t b rule: copy_stream.induct)
  case (1 disk m p remaining stream)
  let ?wanted = "min (1024 * 1024) remaining"
  let ?chunk = "take ?wanted stream"
  have keep: "confined (b + int remaining) k t"
    using "1.prems"(2) by (rule confined_more) simp_all
  show ?case
  proof (cases "remaining = 0 \<or> (mb_fault m \<noteq> None \<and> length stream < ?wanted) \<or> ?chunk = []")
    case True
    then have "t' = t"
      using "1.prems"(1) by (subst (asm) copy_stream.simps) (auto simp: Let_def split: if_splits)
    then show ?thesis
      using keep by simp
  next
    case False
    then have "seq (write_bytes disk p ?chunk)
        (\<lambda>_. copy_stream disk m p (remaining - length ?chunk) (drop ?wanted stream)) t = (r, t')"
      using "1.prems"(1) by (subst (asm) copy_stream.simps) (auto simp: Let_def split: if_splits)
    then show ?thesis
    proof (cases rule: seq_cases)
      case (first e)
      then show ?thesis
        using confined_more [OF confined_write_bytes [OF first(1) "1.prems"(2)]] by simp
    next
      case (both u s)
      have "confined (b + int (length ?chunk) + int (remaining - length ?chunk)) k t'"
        using False by (intro "1.IH" [OF _ refl refl _ _ both(2)] confined_write_bytes [OF both(1) "1.prems"(2)]) auto
      moreover have "length ?chunk \<le> remaining"
        by simp
      ultimately show ?thesis
        by (simp add: of_nat_diff)
    qed
  qed
qed

lemma confined_write_member:
  assumes "write_member disk m t = (r, t')" and "confined b k t" and "file_place (path_parts (mb_name m))"
    and "0 \<le> mb_size m"
  shows "confined (b + mb_size m) (Suc k) t'"
proof -
  let ?p = "path_parts (mb_name m)"
  have more: "confined b' k' s \<Longrightarrow> b' \<le> b + mb_size m \<Longrightarrow> k' \<le> Suc k \<Longrightarrow> confined (b + mb_size m) (Suc k) s"
    for b' k' s by (rule confined_more)
  show ?thesis
  proof (cases "mb_stream m")
    case None
    then show ?thesis
      using assms more [OF assms(2)] by (simp add: write_member_def)
  next
    case (Some stream)
    then have "seq (make_directory disk (butlast ?p) True) (\<lambda>_.
        seq (open_new disk ?p) (\<lambda>_.
        seq (copy_stream disk m ?p (nat (mb_size m)) stream) (\<lambda>rest.
        seq (if rest = [] then give ()
             else throw (deployment_error (''Archive member exceeds its declared size: '' @ mb_name m))) (\<lambda>_.
        change_mode disk ?p (if mb_name m = ''REQUEST.json'' then 384 else 420))))) t = (r, t')"
      using assms(1) by (simp add: write_member_def Let_def)
    then show ?thesis
    proof (cases rule: seq_cases)
      case (first e)
      then show ?thesis
        using more confined_make_directory [OF first(1) place_parent [OF assms(3)] assms(2)] assms(4) by simp
    next
      case made: (both u t1)
      have t1: "confined b k t1"
        by (rule confined_make_directory [OF made(1) place_parent [OF assms(3)] assms(2)])
      from made(2) show ?thesis
      proof (cases rule: seq_cases)
        case (first e)
        then show ?thesis
          using more confined_open_new [OF first(1) assms(3) t1] assms(4) by simp
      next
        case opened: (both u t2)
        have t2: "confined b (Suc k) t2"
          by (rule confined_open_new [OF opened(1) assms(3) t1])
        from opened(2) show ?thesis
        proof (cases rule: seq_cases)
          case (first e)
          then show ?thesis
            using confined_copy_stream [OF first(1) t2] assms(4) by simp
        next
          case (both rest t3)
          have "confined (b + mb_size m) (Suc k) t3"
            using confined_copy_stream [OF both(1) t2] assms(4) by simp
          then show ?thesis
            using both(2) confined_change_mode by (auto split: if_splits)
        qed
      qed
    qed
  qed
qed

lemma confined_extract_members:
  assumes "extract_members lib disk seen expanded ms t = (r, t')" and "confined expanded k t"
    and "expanded \<le> MAX_EXPANDED_BYTES"
  shows "confined MAX_EXPANDED_BYTES (k + length ms) t'"
  using assms
proof (induction ms arbitrary: seen expanded k t)
  case Nil
  then show ?case
    using confined_more [of expanded k t MAX_EXPANDED_BYTES k] by simp
next
  case (Cons m ms)
  have keep: "confined MAX_EXPANDED_BYTES (k + length (m # ms)) t"
    using Cons.prems(2,3) by (rule confined_more) simp
  show ?case
  proof (cases "check_member lib seen m")
    case (Inl e)
    then show ?thesis
      using Cons.prems(1) keep by (simp add: seq_def lift_result_def)
  next
    case (Inr u)
    note place = checked_place [OF Inr]
    let ?seen = "lb_casefold lib (lb_nfc lib (mb_name m)) # seen"
    show ?thesis
    proof (cases "mb_kind m = Directory_Member")
      case True
      show ?thesis
      proof (cases "path_parts (mb_name m) \<in> {[''release''], [''lineage'']}")
        case ok: True
        then have "extract_members lib disk ?seen expanded ms t = (r, t')"
          using Cons.prems(1) Inr True by (simp add: seq_def lift_result_def require_def Let_def)
        then show ?thesis
          using Cons.IH [OF _ Cons.prems(2,3)] confined_more [of MAX_EXPANDED_BYTES "k + length ms" t'] by fastforce
      next
        case False
        then show ?thesis
          using Cons.prems(1) keep Inr True by (simp add: seq_def lift_result_def require_def Let_def)
      qed
    next
      case False
      show ?thesis
      proof (cases "check_file m expanded")
        case (Inl e)
        then show ?thesis
          using Cons.prems(1) keep Inr False by (simp add: seq_def lift_result_def Let_def)
      next
        case accepted: (Inr expanded')
        then have size: "expanded' = expanded + mb_size m" "0 < mb_size m" "expanded' \<le> MAX_EXPANDED_BYTES"
          by (auto simp: check_file_def bind_result_Inr_iff)
        have "seq (write_member disk m) (\<lambda>_. extract_members lib disk ?seen expanded' ms) t = (r, t')"
          using Cons.prems(1) Inr False accepted by (simp add: seq_def lift_result_def Let_def)
        then show ?thesis
        proof (cases rule: seq_cases)
          case (first e)
          then have "confined (expanded + mb_size m) (Suc k) t'"
            using confined_write_member [OF first(1) Cons.prems(2) place] size(2) by simp
          then show ?thesis
            by (rule confined_more) (use size in simp_all)
        next
          case (both u s)
          have "confined expanded' (Suc k) s"
            using confined_write_member [OF both(1) Cons.prems(2) place] size(1,2) by simp
          then have "confined MAX_EXPANDED_BYTES (Suc k + length ms) t'"
            by (rule Cons.IH [OF both(2) _ size(3)])
          then show ?thesis
            by simp
        qed
      qed
    qed
  qed
qed

section \<open>The whole extraction\<close>

lemma extract_archive_invariant:
  assumes "extract_archive lib tar disk bytes t = (r, t')" and "tree_nodes t = []"
  shows "confined MAX_EXPANDED_BYTES MAX_ARCHIVE_MEMBERS t'"
proof -
  have t: "confined 0 0 t"
    using assms(2) by (simp add: confined_def tree_bytes_def tree_files_def)
  have more: "confined 0 0 s \<Longrightarrow> confined MAX_EXPANDED_BYTES MAX_ARCHIVE_MEMBERS s" for s
    by (erule confined_more) (simp_all add: MAX_EXPANDED_BYTES_def)
  from assms(1) [unfolded extract_archive_def] show ?thesis
  proof (cases rule: seq_cases)
    case (first e)
    then show ?thesis
      using more confined_make_directory [OF first(1) _ t] by simp
  next
    case (both u s)
    have s: "confined 0 0 s"
      by (rule confined_make_directory [OF both(1) _ t]) simp
    let ?members = "tar_members tar bytes"
    show ?thesis
    proof (cases "tar_open tar bytes = Opened
        \<and> (\<exists>ms. ?members = Inr ms \<and> ms \<noteq> [] \<and> length ms \<le> MAX_ARCHIVE_MEMBERS)")
      case False
      then have "t' = s"
        using both(2)
        by (cases "tar_open tar bytes"; cases ?members) (auto simp: seq_def lift_result_def require_def split: if_splits)
      then show ?thesis
        using more [OF s] by simp
    next
      case True
      then obtain ms where ms: "tar_open tar bytes = Opened" "?members = Inr ms" "ms \<noteq> []"
          "length ms \<le> MAX_ARCHIVE_MEMBERS"
        by blast
      obtain r' where "extract_members lib disk [] 0 ms s = (r', t')"
        using both(2) ms
        by (cases "extract_members lib disk [] 0 ms s")
          (auto simp: seq_def lift_result_def require_def split: sum.splits)
      then have "confined MAX_EXPANDED_BYTES (0 + length ms) t'"
        using s by (rule confined_extract_members) (simp add: MAX_EXPANDED_BYTES_def)
      then show ?thesis
        using ms(4) by (elim confined_more) simp_all
    qed
  qed
qed

section \<open>Exact content\<close>

text \<open>Every node that is there stays as it is, but for the one at \<open>p\<close>.\<close>

definition keeps_but :: "string list \<Rightarrow> tree \<Rightarrow> tree \<Rightarrow> bool" where
  "keeps_but p t t' \<longleftrightarrow> (\<forall>q n. q \<noteq> p \<longrightarrow> node_at t q = Some n \<longrightarrow> node_at t' q = Some n)"

lemma keeps_but_trans: "keeps_but p t t' \<Longrightarrow> keeps_but p t' t'' \<Longrightarrow> keeps_but p t t''"
  by (simp add: keeps_but_def)

lemma os_call_Inr: "os_call disk t = (Inr u, s) \<Longrightarrow> node_at s = node_at t"
  by (auto simp: node_at_def fun_eq_iff dest: os_call_nodes)

lemma changed_at:
  "node_at (t\<lparr>tree_nodes := nodes_changed p f (tree_nodes t)\<rparr>) q
    = (if q = p then map_option f (node_at t q) else node_at t q)"
  by (simp add: node_at_def lookup_change)

lemma make_directory_Inr:
  "make_directory disk p exist_ok t = (Inr u, t') \<Longrightarrow> keeps_but q t t' \<and> (q \<noteq> p \<longrightarrow> node_at t' q = node_at t q)"
  unfolding make_directory_def
  by (erule seq_InrE) (auto simp: add_node_def keeps_but_def node_at_def os_call_nodes split: option.splits if_splits)

lemma open_new_Inr:
  "open_new disk p t = (Inr u, t') \<Longrightarrow>
     node_at t p = None \<and> node_at t' p = Some (Regular [] None) \<and> keeps_but p t t'"
  unfolding open_new_def
  by (erule seq_InrE) (auto simp: add_node_def keeps_but_def node_at_def os_call_nodes split: if_splits)

lemma write_bytes_Inr:
  "write_bytes disk p chunk t = (Inr u, t') \<Longrightarrow>
     node_at t' p = map_option (append_bytes chunk) (node_at t p) \<and> keeps_but p t t'"
  unfolding write_bytes_def
  by (erule seq_InrE) (auto simp: change_node_def keeps_but_def changed_at dest!: os_call_Inr)

lemma change_mode_Inr:
  "change_mode disk p m t = (Inr u, t') \<Longrightarrow>
     node_at t' p = map_option (set_mode m) (node_at t p) \<and> keeps_but p t t'"
  unfolding change_mode_def
  by (erule seq_InrE) (auto simp: change_node_def keeps_but_def changed_at dest!: os_call_Inr)

lemma copy_stream_Inr:
  assumes "copy_stream disk m p remaining stream t = (Inr rest, t')"
    and "node_at t p = Some (Regular b mode)"
  shows "node_at t' p = Some (Regular (b @ take remaining stream) mode) \<and> remaining \<le> length stream
    \<and> rest = drop remaining stream \<and> keeps_but p t t'"
  using assms
proof (induction disk m p remaining stream arbitrary: t b rule: copy_stream.induct)
  case (1 disk m p remaining stream)
  let ?wanted = "min (1024 * 1024) remaining"
  let ?chunk = "take ?wanted stream"
  show ?case
  proof (cases "remaining = 0")
    case True
    then show ?thesis
      using "1.prems" by (simp add: copy_stream.simps keeps_but_def)
  next
    case False
    then have go: "\<not> (mb_fault m \<noteq> None \<and> length stream < ?wanted)" "?chunk \<noteq> []"
      and run: "seq (write_bytes disk p ?chunk)
        (\<lambda>_. copy_stream disk m p (remaining - length ?chunk) (drop ?wanted stream)) t = (Inr rest, t')"
      using "1.prems"(1) by (auto simp: copy_stream.simps [of _ _ _ remaining] Let_def split: if_splits)
    from run obtain u s where s: "write_bytes disk p ?chunk t = (Inr u, s)"
      "copy_stream disk m p (remaining - length ?chunk) (drop ?wanted stream) s = (Inr rest, t')"
      by (rule seq_InrE)
    have at: "node_at s p = Some (Regular (b @ ?chunk) mode)" "keeps_but p t s"
      using write_bytes_Inr [OF s(1)] "1.prems"(2) by simp_all
    note ih = "1.IH" [OF False refl refl go s(2) at(1)]
    have "length ?chunk + (remaining - length ?chunk) = remaining"
      by simp
    moreover have "length ?chunk = ?wanted"
    proof (rule ccontr)
      assume "length ?chunk \<noteq> ?wanted"
      then have "length stream < ?wanted"
        by (simp add: min_def split: if_splits)
      then have "length ?chunk = length stream" "drop ?wanted stream = []" "length stream < remaining"
        by simp_all
      then show False
        using ih by simp
    qed
    ultimately show ?thesis
      using ih at(2) by (auto simp: take_add [symmetric] min_def intro: keeps_but_trans split: if_splits)
  qed
qed

lemma write_member_Inr:
  assumes "write_member disk m t = (Inr u, t')" and "0 < mb_size m"
  shows "\<exists>stream mode. mb_stream m = Some stream \<and> int (length stream) = mb_size m
    \<and> node_at t' (path_parts (mb_name m)) = Some (Regular stream (Some mode))
    \<and> keeps_but (path_parts (mb_name m)) t t' \<and> (path_parts (mb_name m) \<noteq> [] \<longrightarrow> node_at t (path_parts (mb_name m)) = None)"
proof -
  let ?p = "path_parts (mb_name m)"
  obtain stream where stream: "mb_stream m = Some stream"
    using assms(1) by (cases "mb_stream m") (auto simp: write_member_def)
  let ?mode = "if mb_name m = ''REQUEST.json'' then 384 else 420 :: nat"
  have run: "seq (make_directory disk (butlast ?p) True) (\<lambda>_. seq (open_new disk ?p) (\<lambda>_.
      seq (copy_stream disk m ?p (nat (mb_size m)) stream) (\<lambda>rest.
      seq (if rest = [] then give ()
           else throw (deployment_error (''Archive member exceeds its declared size: '' @ mb_name m))) (\<lambda>_.
      change_mode disk ?p ?mode)))) t = (Inr u, t')"
    using assms(1) stream by (simp add: write_member_def Let_def)
  obtain u1 t1 where t1: "make_directory disk (butlast ?p) True t = (Inr u1, t1)"
    and run1: "seq (open_new disk ?p) (\<lambda>_.
      seq (copy_stream disk m ?p (nat (mb_size m)) stream) (\<lambda>rest.
      seq (if rest = [] then give ()
           else throw (deployment_error (''Archive member exceeds its declared size: '' @ mb_name m))) (\<lambda>_.
      change_mode disk ?p ?mode))) t1 = (Inr u, t')"
    by (rule seq_InrE [OF run])
  obtain u2 t2 where t2: "open_new disk ?p t1 = (Inr u2, t2)"
    and run2: "seq (copy_stream disk m ?p (nat (mb_size m)) stream) (\<lambda>rest.
      seq (if rest = [] then give ()
           else throw (deployment_error (''Archive member exceeds its declared size: '' @ mb_name m))) (\<lambda>_.
      change_mode disk ?p ?mode)) t2 = (Inr u, t')"
    by (rule seq_InrE [OF run1])
  obtain rest t3 where t3: "copy_stream disk m ?p (nat (mb_size m)) stream t2 = (Inr rest, t3)"
    and run3: "seq (if rest = [] then give ()
           else throw (deployment_error (''Archive member exceeds its declared size: '' @ mb_name m))) (\<lambda>_.
      change_mode disk ?p ?mode) t3 = (Inr u, t')"
    by (rule seq_InrE [OF run2])
  have rest: "rest = []" and t4: "change_mode disk ?p ?mode t3 = (Inr u, t')"
    using run3 by (auto split: if_splits)
  note made = make_directory_Inr [OF t1, of ?p]
  note opened = open_new_Inr [OF t2]
  note copied = copy_stream_Inr [OF t3 conjunct1 [OF conjunct2 [OF opened]]]
  note mode = change_mode_Inr [OF t4]
  have "length stream = nat (mb_size m)"
    using copied rest by simp
  moreover have "?p \<noteq> butlast ?p" if "?p \<noteq> []"
    using that by (metis append_butlast_last_id not_Cons_self2 self_append_conv)
  moreover have "keeps_but ?p t t'"
    using made opened copied mode by (blast intro: keeps_but_trans)
  ultimately show ?thesis
    using stream made opened copied mode assms(2) by (auto simp: numeral_eq_Suc)
qed

lemma extract_members_Inr:
  assumes "extract_members lib disk seen expanded ms t = (Inr u, t')"
  shows "(\<forall>q n. node_at t q = Some n \<longrightarrow> node_at t' q = Some n)
    \<and> (\<forall>m \<in> set ms. mb_kind m \<noteq> Directory_Member \<longrightarrow>
        (\<exists>stream mode. mb_stream m = Some stream \<and> int (length stream) = mb_size m
          \<and> node_at t' (path_parts (mb_name m)) = Some (Regular stream (Some mode))))"
  using assms
proof (induction ms arbitrary: seen expanded t)
  case (Cons m ms)
  have checked: "check_member lib seen m = Inr ()"
    using Cons.prems by (cases "check_member lib seen m") (auto simp: seq_def lift_result_def)
  let ?seen = "lb_casefold lib (lb_nfc lib (mb_name m)) # seen"
  show ?case
  proof (cases "mb_kind m = Directory_Member")
    case True
    then have "extract_members lib disk ?seen expanded ms t = (Inr u, t')"
      using Cons.prems checked by (auto simp: seq_def lift_result_def require_def Let_def split: if_splits)
    from Cons.IH [OF this] show ?thesis
      using True by auto
  next
    case False
    obtain expanded' where e: "check_file m expanded = Inr expanded'"
      using Cons.prems checked False
      by (cases "check_file m expanded") (auto simp: seq_def lift_result_def Let_def)
    then have pos: "0 < mb_size m"
      by (auto simp: check_file_def bind_result_Inr_iff)
    have "seq (write_member disk m) (\<lambda>_. extract_members lib disk ?seen expanded' ms) t = (Inr u, t')"
      using Cons.prems checked False e by (simp add: seq_def lift_result_def Let_def)
    then obtain v s where s: "write_member disk m t = (Inr v, s)"
      "extract_members lib disk ?seen expanded' ms s = (Inr u, t')"
      by (rule seq_InrE)
    have "path_parts (mb_name m) \<noteq> []"
      using checked by (auto simp: check_member_def member_name_ok_def bind_result_Inr_iff)
    then obtain stream mode where w: "mb_stream m = Some stream" "int (length stream) = mb_size m"
        "node_at s (path_parts (mb_name m)) = Some (Regular stream (Some mode))"
        "keeps_but (path_parts (mb_name m)) t s" "node_at t (path_parts (mb_name m)) = None"
      using write_member_Inr [OF s(1) pos] by blast
    note ih = Cons.IH [OF s(2)]
    have "node_at s q = Some n" if "node_at t q = Some n" for q n
      using that w(4,5) by (cases "q = path_parts (mb_name m)") (auto simp: keeps_but_def)
    then show ?thesis
      using ih w(1-3) by auto
  qed
qed simp

section \<open>What an extraction promises\<close>

text \<open>
  C23. Whatever an archive holds, however its reader and the disk fail, and wherever the
  extraction stops, what is on the disk is the destination, its two directories, REQUEST.json
  and files directly in the two directories, whose names cannot leave them; nothing is written
  over, and neither the number of the files nor their bytes exceed the limits.
\<close>

theorem extract_archive_confined:
  "let t = snd (extract_archive lib tar disk bytes \<lparr>tree_nodes = [], tree_calls = calls\<rparr>)
   in list_all (\<lambda>(p, n). (n = Directory \<and> p \<in> {[], [''release''], [''lineage'']})
          \<or> (is_regular (Some n) \<and> file_place p)) (tree_nodes t)
      \<and> distinct (map fst (tree_nodes t))
      \<and> tree_bytes t \<le> 256 * 1024 * 1024 \<and> tree_files t \<le> 144"
proof -
  obtain r t where "extract_archive lib tar disk bytes \<lparr>tree_nodes = [], tree_calls = calls\<rparr> = (r, t)"
    by fastforce
  moreover from this have "confined MAX_EXPANDED_BYTES MAX_ARCHIVE_MEMBERS t"
    by (rule extract_archive_invariant) simp
  ultimately show ?thesis
    by (simp add: confined_def allowed_node_def MAX_EXPANDED_BYTES_def MAX_ARCHIVE_MEMBERS_def)
qed

text \<open>
  C24. An accepted archive is on the disk as it was sent: every member that is not a directory is a
  file with the bytes of its stream, as many as it declared, under its own path, and REQUEST.json
  and the release directory are there.
\<close>

theorem extract_archive_exact:
  assumes "extract_archive lib tar disk bytes t = (Inr (), t')" and "tar_members tar bytes = Inr ms"
    and "m \<in> set ms" and "mb_kind m \<noteq> Directory_Member"
  shows "(\<exists>mode. node_at t' (path_parts (mb_name m)) = Some (Regular (the (mb_stream m)) (Some mode)))
    \<and> int (length (the (mb_stream m))) = mb_size m
    \<and> is_regular (node_at t' [''REQUEST.json'']) \<and> node_at t' [''release''] = Some Directory"
proof -
  obtain s where "extract_members lib disk [] 0 ms s = (Inr (), t')"
    and last: "is_regular (node_at t' [''REQUEST.json''])" "node_at t' [''release''] = Some Directory"
    using assms(1,2)
    by (auto simp: extract_archive_def seq_def lift_result_def require_def bind_result_Inr_iff
        split: prod.splits sum.splits if_splits open_outcome.splits)
  from extract_members_Inr [OF this(1)] assms(3,4) last show ?thesis
    by fastforce
qed

end
