(* ===== verification/Contract_Results.thy ===== *)
theory Contract_Results
  imports Deploy_Config
begin

text \<open>
  What an accepted document promises: a configuration whose services and smoke checks are
  those of the production site, a request whose fields identify one release and one workflow
  attempt, and a recovery that is the reviewed chain of releases.
\<close>

section \<open>Version numbers\<close>

text \<open>
  Reading a version number undoes printing it: a text is accepted as a platform version
  exactly when it is the printed form of the tuple it is read as, so two different texts are
  never compared as the same version.
\<close>

theorem version_text_roundtrip: "version_tuple (PStr s) = Inr v \<longleftrightarrow> s = show_version v"
  by (auto simp: version_tuple_def show_of_read version_of_show)

section \<open>Requests\<close>

lemma str_matching_iff: "str_matching p v \<longleftrightarrow> (\<exists>s. v = PStr s \<and> p s)"
  by (cases v) (auto simp: str_matching_def)

lemma py_eq_str [simp]: "py_eq v (PStr s) \<longleftrightarrow> v = PStr s"
  by (cases v) auto

lemma is_int_iff: "is_int v \<longleftrightarrow> (\<exists>i. v = PInt i)"
  by (cases v) auto

lemma is_str_iff: "is_str v \<longleftrightarrow> (\<exists>s. v = PStr s)"
  by (cases v) auto

lemma as_deployment_error_Inr [simp]: "as_deployment_error r = Inr x \<longleftrightarrow> r = Inr x"
  by (cases r) (auto simp: as_deployment_error_def)

lemma load_request_fields:
  assumes "load_request lib policy_file file = Inr q"
  shows "rq_mode q \<in> {''preflight'', ''deploy''}" and "SAFE_REPOSITORY_RE (rq_repository q)"
    and "COMMIT_RE (rq_release_commit q)" and "SEMVER_RE (rq_platform_version q)"
    and "rq_release_ref q = ''release/platform-v'' @ rq_platform_version q"
    and "sha256_text (rq_manifest_sha256 q)" and "run_id_re (rq_workflow_run_id q)"
    and "1 \<le> rq_workflow_run_attempt q" and "rq_workflow_run_attempt q \<le> 1000"
  using assms
  by (auto simp: load_request_def bind_result_Inr_iff Let_def str_matching_def release_ref_def)

lemma load_request_recovery:
  assumes "load_request lib policy_file file = Inr q" and "rq_recovery_transition q = Some t"
  shows "\<exists>d. load_recovery lib policy_file (get_key d ''recovery_transition'') d = Inr t
    \<and> get_key d ''mode'' = PStr (rq_mode q) \<and> get_key d ''manifest_sha256'' = PStr (rq_manifest_sha256 q)
    \<and> get_key d ''platform_version'' = PStr (rq_platform_version q)
    \<and> get_key d ''release_commit'' = PStr (rq_release_commit q)
    \<and> get_key d ''release_ref'' = PStr (rq_release_ref q)"
  using assms
  by (auto simp: load_request_def bind_result_Inr_iff Let_def str_matching_iff release_ref_def split: if_splits)

lemma load_json_Inr:
  assumes "load_json lib file n place = Inr d"
  shows "\<exists>mode. file = Some (Regular (canonical_json (lb_float lib) (PDict d)) mode)
    \<and> length (canonical_json (lb_float lib) (PDict d)) \<le> n
    \<and> lb_loads lib (canonical_json (lb_float lib) (PDict d)) = Some (PDict d)"
proof -
  obtain v where v: "is_regular file" "length (bytes_of file) \<le> n" "lb_loads lib (bytes_of file) = Some v"
      "is_dict v" "bytes_of file = canonical_json (lb_float lib) v" "d = the_dict v"
    using assms by (auto simp: load_json_def bind_result_Inr_iff split: option.splits)
  then have "v = PDict d"
    by (cases v) auto
  moreover obtain mode where "file = Some (Regular (bytes_of file) mode)"
    using v(1) by (elim is_regularE) simp_all
  ultimately show ?thesis
    using v by metis
qed

lemma run_id_no_dash: "run_id_re s \<Longrightarrow> CHR ''-'' \<notin> set s"
  by (auto simp: run_id_re_def head_then_def list_all_iff digit_def between_def code_def split: list.splits)

lemma split_at_first: "c \<notin> set a \<Longrightarrow> c \<notin> set b \<Longrightarrow> a @ c # x = b @ c # y \<Longrightarrow> a = b \<and> x = y"
proof (induction a arbitrary: b)
  case Nil
  then show ?case by (cases b) auto
next
  case (Cons d a)
  then show ?case by (cases b) auto
qed

lemma show_int_inj: "0 \<le> i \<Longrightarrow> 0 \<le> j \<Longrightarrow> show_int i = show_int j \<Longrightarrow> i = j"
  by (metis int_nat_eq not_less read_show_nat show_int_def)

text \<open>
  The identity of an attempt, which names its journal, tells attempts apart: two accepted
  requests have the same identity only when they come from the same workflow run and the same
  attempt of it.
\<close>

theorem attempt_identity_unique:
  assumes "load_request lib policy_file file = Inr q" and "load_request lib' policy_file' file' = Inr q'"
    and "attempt_id q = attempt_id q'"
  shows "rq_workflow_run_id q = rq_workflow_run_id q'
    \<and> rq_workflow_run_attempt q = rq_workflow_run_attempt q'"
proof -
  note q = load_request_fields [OF assms(1)] and q' = load_request_fields [OF assms(2)]
  have "rq_workflow_run_id q @ CHR ''-'' # show_int (rq_workflow_run_attempt q)
      = rq_workflow_run_id q' @ CHR ''-'' # show_int (rq_workflow_run_attempt q')"
    using assms(3) by (simp add: attempt_id_def)
  then have "rq_workflow_run_id q = rq_workflow_run_id q'
      \<and> show_int (rq_workflow_run_attempt q) = show_int (rq_workflow_run_attempt q')"
    by (intro split_at_first [OF run_id_no_dash [OF q(7)] run_id_no_dash [OF q'(7)]])
  then show ?thesis
    using show_int_inj q(8) q'(8) by simp
qed

section \<open>Recovery transitions\<close>

lemma validate_identity_Inr: "validate_release_identity place v = Inr i \<Longrightarrow> i = read_identity v"
  by (auto simp: validate_release_identity_def bind_result_Inr_iff Let_def)

lemma list_all2_enumerate:
  "list_all2 (\<lambda>(i, x) y. P i x y) (enumerate n xs) ys \<Longrightarrow> (\<And>i x y. P i x y \<Longrightarrow> y = f x) \<Longrightarrow> ys = map f xs"
proof (induction xs arbitrary: n ys)
  case (Cons x xs)
  then show ?case by (cases ys) auto
qed simp

lemma validate_identities_Inr:
  assumes "validate_identities place vs = Inr is"
  shows "is = map read_identity vs"
proof -
  have "list_all2 (\<lambda>x y. (case x of (i, v) \<Rightarrow> validate_release_identity (place @ show_nat i) v) = Inr y)
      (enumerate 0 vs) is"
    using assms unfolding validate_identities_def by (rule each_result_Inr)
  then have "list_all2 (\<lambda>(i, v) y. validate_release_identity (place @ show_nat i) v = Inr y) (enumerate 0 vs) is"
    by (rule list_all2_mono) (simp add: case_prod_beta)
  then show ?thesis
    by (rule list_all2_enumerate) (rule validate_identity_Inr)
qed

lemma sort_remdups_strict: "xs = sort (remdups xs) \<Longrightarrow> sorted_wrt (<) (xs :: version list)"
  by (metis distinct_remdups distinct_sort sorted_sort strict_sorted_iff)

lemma published_V08: "published_releases V08_GAP_POLICY = map read_identity [RELEASE_0_8_0, RELEASE_0_8_1]"
  by (simp add: published_releases_def V08_GAP_POLICY_def get_key_def)

lemma published_increasing:
  assumes "load_transition_policy lib file policy_id = Inr policy"
  shows "sorted_wrt (<) (map identity_version (published_releases policy)) \<and> published_releases policy \<noteq> []"
proof (cases "policy_id = PStr V08_GAP_POLICY_ID")
  case True
  then have "policy = V08_GAP_POLICY"
    using assms by (simp add: load_transition_policy_def)
  moreover have "sorted_wrt (<) (map identity_version (map read_identity [RELEASE_0_8_0, RELEASE_0_8_1]))"
    by code_simp
  ultimately show ?thesis
    by (simp add: published_V08)
next
  case False
  then have "load_policy lib file = Inr policy"
    using assms by (auto simp: load_transition_policy_def bind_result_Inr_iff)
  then obtain place "is" where "validate_identities place (the_list (get_key policy ''published_releases'')) = Inr is"
      "strictly_sorted (map identity_version is)" "length (the_list (get_key policy ''published_releases'')) = 3"
    by (auto simp: load_policy_def bind_result_Inr_iff Let_def)
  then show ?thesis
    using validate_identities_Inr [of place "the_list (get_key policy ''published_releases'')" "is"]
    by (auto simp: published_releases_def strictly_sorted_def intro!: sort_remdups_strict)
qed

lemma last_largest: "sorted_wrt (<) xs \<Longrightarrow> x \<in> set xs \<Longrightarrow> x \<le> (last xs :: version)"
  by (induction xs rule: rev_induct) (auto simp: sorted_wrt_append)

lemma chain_increases:
  assumes "recovery_exact purpose policy_id releases fixed" and "releases \<noteq> []" and "fixed \<noteq> []"
    and "sorted_wrt (<) (map identity_version fixed)"
  shows "sorted_wrt (<) (map identity_version releases)"
proof -
  have "map identity_version releases = map identity_version (butlast releases @ [last releases])"
    using append_butlast_last_id [OF assms(2)] by (rule arg_cong [OF sym])
  then have "map identity_version releases = map identity_version fixed @ [identity_version (last releases)]"
    using assms(1) by (simp add: recovery_exact_def)
  moreover have "x < identity_version (last releases)" if "x \<in> set (map identity_version fixed)" for x
    using last_largest [OF assms(4) that] assms(1,3)
    by (auto simp: recovery_exact_def last_map intro: order_le_less_trans)
  ultimately show ?thesis
    using assms(4) by (simp add: sorted_wrt_append)
qed

lemma policy_ids:
  assumes "load_transition_policy lib file policy_id = Inr policy"
  shows "get_key policy ''policy_id'' = PStr V08_GAP_POLICY_ID
    \<or> get_key policy ''policy_id'' = PStr ''production-v0.5.6-published-gap-20260907''"
  using assms
  by (auto simp: load_transition_policy_def load_policy_def bind_result_Inr_iff Let_def V08_GAP_POLICY_def get_key_def
      split: if_splits)

lemma load_recovery_Inr:
  assumes "load_recovery lib policy_file v d = Inr t"
  obtains policy where "load_transition_policy lib policy_file (PStr (tr_policy_id t)) = Inr policy"
    and "get_key policy ''policy_id'' = PStr (tr_policy_id t)"
    and "tr_policy_sha256 t = transition_policy_sha256 lib policy"
    and "3 \<le> length (tr_releases t)" and "targets_request (last (tr_releases t)) d"
    and "if last (tr_releases t) = last (published_releases policy)
         then upgrade_preflight_exact (PStr (tr_purpose t)) (get_key d ''mode'') (tr_releases t) (published_releases policy)
         else recovery_exact (PStr (tr_purpose t)) (PStr (tr_policy_id t)) (tr_releases t) (published_releases policy)"
proof -
  let ?v = "the_dict v"
  obtain policy releases where policy: "load_transition_policy lib policy_file (get_key ?v ''policy_id'') = Inr policy"
      "py_eq (get_key ?v ''policy_id'') (get_key policy ''policy_id'')"
      "get_key ?v ''policy_sha256'' = PStr (transition_policy_sha256 lib policy)"
    and releases: "3 \<le> length (the_list (get_key ?v ''releases''))"
      "validate_identities ''Recovery transition release '' (the_list (get_key ?v ''releases'')) = Inr releases"
    and goal: "targets_request (last releases) d"
    and check: "(if last releases = last (published_releases policy)
        then require (upgrade_preflight_exact (get_key ?v ''purpose'') (get_key d ''mode'') releases (published_releases policy))
               (deployment_error ''Receiver-upgrade recovery request is not exact'')
        else require (recovery_exact (get_key ?v ''purpose'') (get_key policy ''policy_id'') releases (published_releases policy))
               (deployment_error ''Production recovery request is not the reviewed chain'')) = Inr ()"
    and made: "t = \<lparr>tr_policy_id = the_str (get_key ?v ''policy_id''),
        tr_policy_sha256 = the_str (get_key ?v ''policy_sha256''),
        tr_purpose = the_str (get_key ?v ''purpose''), tr_releases = releases\<rparr>"
    using assms unfolding load_recovery_def Let_def bind_result_Inr_iff as_deployment_error_Inr require_Inr
    by clarsimp
  obtain i where i: "get_key ?v ''policy_id'' = PStr i" "get_key policy ''policy_id'' = PStr i"
    using policy_ids [OF policy(1)] policy(2) by auto
  have "releases = map read_identity (the_list (get_key ?v ''releases''))"
    by (rule validate_identities_Inr [OF releases(2)])
  then have "3 \<le> length releases"
    using releases(1) by auto
  moreover have "if last releases = last (published_releases policy)
      then upgrade_preflight_exact (PStr (tr_purpose t)) (get_key d ''mode'') releases (published_releases policy)
      else recovery_exact (PStr (tr_purpose t)) (PStr i) releases (published_releases policy)"
    using check i made
    by (auto simp: upgrade_preflight_exact_def recovery_exact_def split: if_splits)
  moreover have "tr_policy_id t = i" "tr_releases t = releases"
      "tr_policy_sha256 t = transition_policy_sha256 lib policy"
    using i policy(3) made by simp_all
  ultimately show ?thesis
    using policy(1) goal i by (intro that [of policy]) simp_all
qed

text \<open>
  C27. A recovery an accepted request carries is a reviewed one: it names a policy that was loaded
  and its digest, its last release is the one the request deploys, its releases are the published
  ones of the policy (for the preflight of a receiver upgrade) or these and one newer release
  (for a production recovery, which from the second policy can only be 0.8.2), and the versions
  of the chain strictly increase.
\<close>

theorem recovery_request_reviewed:
  assumes "load_request lib policy_file file = Inr q" and "rq_recovery_transition q = Some t"
  shows "\<exists>policy. load_transition_policy lib policy_file (PStr (tr_policy_id t)) = Inr policy
    \<and> tr_policy_sha256 t = transition_policy_sha256 lib policy
    \<and> (rq_mode q = ''preflight'' \<and> tr_purpose t = ''receiver-upgrade-preflight'' \<and> tr_releases t = published_releases policy
       \<or> tr_purpose t = ''production-recovery'' \<and> butlast (tr_releases t) = published_releases policy
         \<and> (tr_policy_id t = V08_GAP_POLICY_ID \<longrightarrow> ri_platform_version (last (tr_releases t)) = ''0.8.2''))
    \<and> sorted_wrt (<) (map identity_version (tr_releases t))
    \<and> ri_platform_version (last (tr_releases t)) = rq_platform_version q
    \<and> ri_manifest_sha256 (last (tr_releases t)) = rq_manifest_sha256 q
    \<and> ri_release_commit (last (tr_releases t)) = rq_release_commit q"
proof -
  obtain d where d: "load_recovery lib policy_file (get_key d ''recovery_transition'') d = Inr t"
      "get_key d ''mode'' = PStr (rq_mode q)" "get_key d ''manifest_sha256'' = PStr (rq_manifest_sha256 q)"
      "get_key d ''platform_version'' = PStr (rq_platform_version q)"
      "get_key d ''release_commit'' = PStr (rq_release_commit q)"
    using load_request_recovery [OF assms] by blast
  obtain policy where policy: "load_transition_policy lib policy_file (PStr (tr_policy_id t)) = Inr policy"
      "tr_policy_sha256 t = transition_policy_sha256 lib policy" "3 \<le> length (tr_releases t)"
      "targets_request (last (tr_releases t)) d"
    and chain: "if last (tr_releases t) = last (published_releases policy)
         then upgrade_preflight_exact (PStr (tr_purpose t)) (get_key d ''mode'') (tr_releases t) (published_releases policy)
         else recovery_exact (PStr (tr_purpose t)) (PStr (tr_policy_id t)) (tr_releases t) (published_releases policy)"
    by (rule load_recovery_Inr [OF d(1)])
  note fixed = published_increasing [OF policy(1)]
  have "tr_releases t \<noteq> []"
    using policy(3) by auto
  then have "sorted_wrt (<) (map identity_version (tr_releases t))"
    using chain fixed chain_increases by (auto simp: upgrade_preflight_exact_def split: if_splits)
  then show ?thesis
    using policy chain d(2-5)
    by (intro exI [of _ policy])
      (simp add: targets_request_def upgrade_preflight_exact_def recovery_exact_def split: if_splits)
qed

section \<open>The configuration\<close>

lemma parse_config_Inr:
  assumes "load_config lib file = Inr c"
  obtains d v2 services checks dirs limits where "load_services v2 d = Inr services"
    and "load_smoke_checks v2 (get_key d ''smoke_checks'') = Inr checks"
    and "load_directories d = Inr dirs" and "load_host_limits d = Inr limits"
    and "rc_auth_services c = sv_auth services" and "rc_gunicorn_service c = sv_gunicorn services"
    and "rc_worker_service c = sv_worker services" and "rc_beat_service c = sv_beat services"
    and "rc_database_service c = sv_database services" and "rc_redis_service c = sv_redis services"
    and "rc_proxy_service c = sv_proxy services" and "rc_smoke_checks c = checks"
    and "rc_app_dir c = dr_app dirs" and "rc_state_dir c = dr_state dirs"
    and "rc_backup_dir c = dr_backup dirs" and "rc_max_archive_bytes c = hl_max_archive_bytes limits"
proof -
  obtain d where "parse_config d = Inr c"
    using assms by (auto simp: load_config_def bind_result_Inr_iff)
  then obtain v2 manage services cmds checks names dirs plan limits
    where "load_services v2 d = Inr services" "load_smoke_checks v2 (get_key d ''smoke_checks'') = Inr checks"
      "load_directories d = Inr dirs" "load_host_limits d = Inr limits"
      and c: "c = make_config v2 d manage services cmds checks names dirs plan limits"
    unfolding parse_config_def bind_result_Inr_iff by clarsimp
  then show ?thesis
    by (intro that [of v2 d services checks dirs limits]) (simp_all add: make_config_def)
qed

lemma different_strings: "all_different (map PStr ss) \<longleftrightarrow> distinct ss"
  by (induction ss) (auto simp: list_all_iff)

lemma service_name_Inr: "service_name place v = Inr s \<longleftrightarrow> v = PStr s \<and> SERVICE_RE s"
  by (auto simp: service_name_def bind_result_Inr_iff str_matching_iff)

lemma each_service:
  assumes "each_result (\<lambda>(i, w). service_name (place i) w) (enumerate n vs) = Inr ss"
  shows "vs = map PStr ss \<and> list_all SERVICE_RE ss"
  using assms
proof (induction vs arbitrary: n ss)
  case (Cons v vs)
  then obtain s ss' where "service_name (place n) v = Inr s" "ss = s # ss'"
      "each_result (\<lambda>(i, w). service_name (place i) w) (enumerate (Suc n) vs) = Inr ss'"
    by (auto simp: bind_result_Inr_iff)
  then show ?case
    using Cons.IH by (auto simp: service_name_Inr)
qed simp

lemma auth_names:
  assumes "auth_service_names v = Inr ss"
  shows "distinct ss \<and> list_all SERVICE_RE ss \<and> ss \<noteq> []"
proof -
  have each: "each_result (\<lambda>(i, w). service_name (''auth service '' @ show_nat i) w) (enumerate 0 (the_list v)) = Inr ss"
    and "all_different (the_list v)" "the_list v \<noteq> []"
    using assms by (auto simp: auth_service_names_def bind_result_Inr_iff Let_def)
  then show ?thesis
    using each_service [OF each] by (auto simp: different_strings)
qed

text \<open>
  C25. In an accepted configuration the names cannot be mixed up: the Auth services are safe
  names without repetition, among them are the web, worker and beat services, the beat service is
  neither of the other two, and the database, Redis and proxy services are three others, outside
  the Auth services.
\<close>

theorem config_services_separate:
  assumes "load_config lib file = Inr c"
  shows "distinct (rc_auth_services c) \<and> list_all SERVICE_RE (rc_auth_services c)
    \<and> {rc_gunicorn_service c, rc_worker_service c, rc_beat_service c} \<subseteq> set (rc_auth_services c)
    \<and> rc_beat_service c \<notin> {rc_gunicorn_service c, rc_worker_service c}
    \<and> distinct [rc_database_service c, rc_redis_service c, rc_proxy_service c]
    \<and> {rc_database_service c, rc_redis_service c, rc_proxy_service c} \<inter> set (rc_auth_services c) = {}"
proof -
  obtain d v2 sv where sv: "load_services v2 d = Inr sv"
    and c: "rc_auth_services c = sv_auth sv" "rc_gunicorn_service c = sv_gunicorn sv"
      "rc_worker_service c = sv_worker sv" "rc_beat_service c = sv_beat sv"
      "rc_database_service c = sv_database sv" "rc_redis_service c = sv_redis sv"
      "rc_proxy_service c = sv_proxy sv"
    using assms by (rule parse_config_Inr) blast
  have "auth_service_names (get_key d ''auth_services'') = Inr (sv_auth sv)"
    and "sv_gunicorn sv \<in> set (sv_auth sv)" "sv_worker sv \<in> set (sv_auth sv)" "sv_beat sv \<in> set (sv_auth sv)"
    and "sv_beat sv \<noteq> sv_gunicorn sv" "sv_beat sv \<noteq> sv_worker sv"
    and "distinct [sv_database sv, sv_redis sv, sv_proxy sv]"
    and "sv_database sv \<notin> set (sv_auth sv)" "sv_redis sv \<notin> set (sv_auth sv)" "sv_proxy sv \<notin> set (sv_auth sv)"
    using sv by (auto simp: load_services_def bind_result_Inr_iff Let_def)
  then show ?thesis
    using auth_names by (auto simp: c)
qed

section \<open>Smoke checks\<close>

lemma smoke_check_Inr:
  assumes "load_smoke_check item = Inr k"
  shows "smoke_url_ok (sk_url k) \<and> sk_statuses k \<noteq> [] \<and> list_all (\<lambda>n. 100 \<le> n \<and> n \<le> 499) (sk_statuses k)"
  using assms
  by (cases item)
    (auto simp: load_smoke_check_def bind_result_Inr_iff Let_def str_matching_iff smoke_statuses_ok_def list_all_iff)

lemma smoke_url_route: "smoke_url_ok url \<Longrightarrow> url = ORIGIN @ url_path url \<and> starts_with (url_path url) ''/''"
  by (simp add: smoke_url_ok_def)

lemma required_routes:
  "list_all (\<lambda>(route, statuses). url_path (ORIGIN @ route) = route \<and> smoke_url_ok (ORIGIN @ route)
     \<and> statuses \<noteq> [] \<and> list_all (\<lambda>n. 100 \<le> n \<and> n \<le> 499) statuses) REQUIRED_SMOKE_CHECK_STATUSES"
  by code_simp

lemma distinct_required: "distinct (map fst REQUIRED_SMOKE_CHECK_STATUSES)"
  by code_simp

lemma route_of_missing:
  "map check_route (missing_checks checks)
    = filter (\<lambda>r. r \<notin> set (map check_route checks)) (map fst REQUIRED_SMOKE_CHECK_STATUSES)"
proof -
  have "map check_route (map (\<lambda>(route, statuses). \<lparr>sk_url = ORIGIN @ route, sk_statuses = statuses\<rparr>) (filter P rs))
      = map fst (filter P rs)" if "list_all (\<lambda>(route, statuses). url_path (ORIGIN @ route) = route) rs" for P rs
    using that by (induction rs) (auto simp: check_route_def)
  moreover have "list_all (\<lambda>(route, statuses :: int list). url_path (ORIGIN @ route) = route) REQUIRED_SMOKE_CHECK_STATUSES"
    using required_routes by (auto simp: list_all_iff)
  ultimately have "map check_route (missing_checks checks)
      = map fst (filter (\<lambda>(route, statuses). route \<notin> set (map check_route checks)) REQUIRED_SMOKE_CHECK_STATUSES)"
    unfolding missing_checks_def by blast
  also have "\<dots> = filter (\<lambda>r. r \<notin> set (map check_route checks)) (map fst REQUIRED_SMOKE_CHECK_STATUSES)"
    by (simp add: filter_map comp_def case_prod_beta')
  finally show ?thesis .
qed

definition check_sound :: "smoke_check \<Rightarrow> bool" where
  "check_sound k \<longleftrightarrow> smoke_url_ok (sk_url k) \<and> sk_statuses k \<noteq> [] \<and> list_all (\<lambda>n. 100 \<le> n \<and> n \<le> 499) (sk_statuses k)"

lemma missing_sound: "k \<in> set (missing_checks checks) \<Longrightarrow> check_sound k
    \<and> map_of REQUIRED_SMOKE_CHECK_STATUSES (check_route k) = Some (sk_statuses k)"
  using required_routes map_of_is_SomeI [OF distinct_required]
  by (fastforce simp: missing_checks_def check_sound_def check_route_def list_all_iff)

lemma strict_legacy: "strict_check_ok k \<Longrightarrow> legacy_check_ok k"
  by (simp add: strict_check_ok_def legacy_check_ok_def split: option.splits)

lemma complete_checks_Inr:
  assumes "complete_checks v2 checks = Inr checks'" and "list_all check_sound checks"
  shows "list_all check_sound checks' \<and> distinct (map check_route checks')
    \<and> set (map fst REQUIRED_SMOKE_CHECK_STATUSES) \<subseteq> set (map check_route checks')
    \<and> list_all legacy_check_ok checks'"
proof -
  have each: "P k" if "each_result (\<lambda>k. require (P k) (err k)) ks = Inr us" "k \<in> set ks" for P err ks us k
    using that by (induction ks arbitrary: us) (auto simp: bind_result_Inr_iff)
  have distinct: "distinct (map check_route checks)"
    using assms(1) by (simp add: complete_checks_def bind_result_Inr_iff)
  show ?thesis
  proof (cases v2)
    case True
    then have "checks' = checks" "missing_checks checks = []" and "\<And>k. k \<in> set checks \<Longrightarrow> strict_check_ok k"
      using assms(1) by (auto simp: complete_checks_def bind_result_Inr_iff dest: each)
    moreover have "set (map fst REQUIRED_SMOKE_CHECK_STATUSES) \<subseteq> set (map check_route checks)"
    proof -
      have "filter (\<lambda>r. r \<notin> set (map check_route checks)) (map fst REQUIRED_SMOKE_CHECK_STATUSES) = []"
        using route_of_missing [of checks] \<open>missing_checks checks = []\<close> by simp
      then show ?thesis
        unfolding filter_empty_conv by blast
    qed
    ultimately show ?thesis
      using assms(2) distinct
      by (auto simp: list_all_iff intro: strict_legacy)
  next
    case False
    then have c: "checks' = checks @ missing_checks checks" and "\<And>k. k \<in> set checks \<Longrightarrow> legacy_check_ok k"
      using assms(1) by (auto simp: complete_checks_def bind_result_Inr_iff dest: each)
    then have "list_all legacy_check_ok checks'"
      using missing_sound by (fastforce simp: list_all_iff legacy_check_ok_def split: option.splits)
    moreover have "distinct (map check_route checks')"
      using distinct distinct_required by (auto simp: c route_of_missing)
    moreover have "set (map fst REQUIRED_SMOKE_CHECK_STATUSES) \<subseteq> set (map check_route checks')"
      using route_of_missing [of checks] by (auto simp: c set_eq_iff)
    moreover have "list_all check_sound checks'"
      using assms(2) missing_sound by (auto simp: c list_all_iff)
    ultimately show ?thesis by blast
  qed
qed

text \<open>
  C26. Whatever schema a configuration has, once accepted its smoke checks cover the five routes of
  the site that must answer, each at most with its fixed statuses; every check asks the
  production origin over HTTPS, accepts some status and none of a server error, and no two checks
  ask the same route.
\<close>

theorem config_checks_production:
  assumes "load_config lib file = Inr c"
  shows "list_all (\<lambda>k. sk_url k = ''https://auth.b-uh.com'' @ check_route k \<and> starts_with (check_route k) ''/''
        \<and> sk_statuses k \<noteq> [] \<and> list_all (\<lambda>n. 100 \<le> n \<and> n \<le> 499) (sk_statuses k)) (rc_smoke_checks c)
    \<and> distinct (map check_route (rc_smoke_checks c))
    \<and> list_all (\<lambda>(route, allowed). list_ex (\<lambda>k. check_route k = route \<and> set (sk_statuses k) \<subseteq> set allowed)
        (rc_smoke_checks c)) REQUIRED_SMOKE_CHECK_STATUSES"
proof -
  obtain d v2 checks where "load_smoke_checks v2 (get_key d ''smoke_checks'') = Inr checks"
    and c: "rc_smoke_checks c = checks"
    using assms by (rule parse_config_Inr) blast
  then obtain loaded where "each_result load_smoke_check (enumerate 0 (the_list (get_key d ''smoke_checks''))) = Inr loaded"
    and complete: "complete_checks v2 loaded = Inr checks"
    by (auto simp: load_smoke_checks_def bind_result_Inr_iff)
  then have "list_all check_sound loaded"
    by (auto simp: list_all_iff check_sound_def dest!: each_result_set smoke_check_Inr)
  note facts = complete_checks_Inr [OF complete this]
  have "list_ex (\<lambda>k. check_route k = route \<and> set (sk_statuses k) \<subseteq> set allowed) checks"
    if "(route, allowed) \<in> set REQUIRED_SMOKE_CHECK_STATUSES" for route allowed
  proof -
    have "route \<in> set (map fst REQUIRED_SMOKE_CHECK_STATUSES)"
      using imageI [OF that, of fst] by simp
    then have "route \<in> set (map check_route checks)"
      using facts by blast
    then obtain k where "k \<in> set checks" "check_route k = route"
      by auto
    moreover have "map_of REQUIRED_SMOKE_CHECK_STATUSES route = Some allowed"
      using that distinct_required by (rule map_of_is_SomeI [rotated])
    moreover have "legacy_check_ok k"
      using facts \<open>k \<in> set checks\<close> by (simp add: list_all_iff)
    ultimately show ?thesis
      by (auto simp: list_ex_iff legacy_check_ok_def)
  qed
  then have "list_all (\<lambda>(route, allowed). list_ex (\<lambda>k. check_route k = route \<and> set (sk_statuses k) \<subseteq> set allowed)
      checks) REQUIRED_SMOKE_CHECK_STATUSES"
    by (auto simp: list_all_iff)
  moreover have "list_all (\<lambda>k. sk_url k = ''https://auth.b-uh.com'' @ check_route k \<and> starts_with (check_route k) ''/''
        \<and> sk_statuses k \<noteq> [] \<and> list_all (\<lambda>n. 100 \<le> n \<and> n \<le> 499) (sk_statuses k)) checks"
    using facts smoke_url_route [unfolded ORIGIN_def]
    unfolding list_all_iff check_sound_def check_route_def by blast
  ultimately show ?thesis
    using facts c by blast
qed

section \<open>Where the configuration promises less than it says\<close>

text \<open>
  The message speaks of three distinct services, but the web and the worker service may be the
  same; and two directories that differ only in a doubled first slash, which Linux does not
  distinguish, count as different, so that the root itself passes.
\<close>

lemma web_may_be_worker:
  "load_services True
     [(''auth_services'', PList [PStr ''web'', PStr ''beat'']), (''gunicorn_service'', PStr ''web''),
      (''worker_service'', PStr ''web''), (''database_service'', PStr ''db''), (''redis_service'', PStr ''redis''),
      (''proxy_service'', PStr ''proxy''), (''beat_service'', PStr ''beat'')]
   = Inr \<lparr>sv_auth = [''web'', ''beat''], sv_gunicorn = ''web'', sv_worker = ''web'', sv_database = ''db'',
          sv_redis = ''redis'', sv_proxy = ''proxy'', sv_beat = ''beat''\<rparr>"
  by code_simp

lemma doubled_slash_accepted:
  "load_directories [(''app_dir'', PStr ''/srv/app''), (''state_dir'', PStr ''//srv/app''), (''backup_dir'', PStr ''//'')]
   = Inr \<lparr>dr_app = [''/'', ''srv'', ''app''], dr_state = [''//'', ''srv'', ''app''], dr_backup = [''//'']\<rparr>"
  by code_simp

end
