(* ===== verification/Receiver_Results.thy ===== *)
theory Receiver_Results
  imports Deploy_Receiver Archive_Results Contract_Results Deploy_Results
begin

text \<open>
  What the receiver guarantees around the engine: the lock is released, nothing runs that was not
  validated under the lock, a key for preflights cannot deploy, and exit code 0 means that the
  deployment printed is the one in place.
\<close>

section \<open>Statements that leave the machine's history alone\<close>

text \<open>The trace and the files of the engine are the same before and after.\<close>

definition idle :: "'w process \<Rightarrow> 'w process \<Rightarrow> bool" where
  "idle s s' \<longleftrightarrow> mc_trace (pr_machine s') = mc_trace (pr_machine s) \<and> mc_disk (pr_machine s') = mc_disk (pr_machine s)"

lemma idle_order [simp]: "reflp idle" "transp idle"
  by (auto simp: idle_def intro: reflpI transpI)

lemma idle_refl [simp]: "idle s s"
  by (simp add: idle_def)

lemma idle_trans: "idle s s' \<Longrightarrow> idle s' s'' \<Longrightarrow> idle s s''"
  by (simp add: idle_def)

named_theorems idle_acts \<open>statements of the receiver that leave the engine alone\<close>

lemma idle_simple [idle_acts]:
  "moves idle (lift_result r)" "moves idle (locks f)" "moves idle (raise_some x)" "moves idle (take_flock lk)"
  "moves idle (read_stdin si c)" "moves idle (on_tree g)" "moves idle (on_machine (on_world k))"
  "moves idle (give v)" "moves idle (throw e)" "moves idle (change (\<lambda>s. s\<lparr>pr_tree := t\<rparr>))"
  by (auto simp: moves_def idle_def lift_result_def locks_def raise_some_def take_flock_def read_stdin_def
      on_tree_def on_machine_def on_world_def split: prod.split option.split flock_result.split)

lemma idle_compose [idle_acts]:
  "moves idle f \<Longrightarrow> (\<And>x. moves idle (g x)) \<Longrightarrow> moves idle (seq f g)"
  "moves idle f \<Longrightarrow> (\<And>e. moves idle (k e)) \<Longrightarrow> moves idle (catch f k)"
  "moves idle f \<Longrightarrow> moves idle l \<Longrightarrow> moves idle (finally_do f l)"
  by (auto intro: moves_seq moves_catch moves_finally)

lemma idle_open_lock [idle_acts]: "moves idle (open_lock lk c inherited)"
  unfolding open_lock_def closing_on_error_def
  by (cases inherited; cases "lk_open lk"; simp; intro idle_acts)

lemma idle_remove [idle_acts]: "moves idle (remove_temporary si)"
  unfolding remove_temporary_def by (intro idle_acts)

text \<open>Opening the lock touches neither the machine nor the input.\<close>

definition untouched :: "'w process \<Rightarrow> 'w process \<Rightarrow> bool" where
  "untouched s s' \<longleftrightarrow> pr_machine s' = pr_machine s \<and> pr_read s' = pr_read s"

lemma untouched_order [simp]: "reflp untouched" "transp untouched"
  by (auto simp: untouched_def intro: reflpI transpI)

named_theorems untouched_acts \<open>statements of the receiver that leave its machine and its input alone\<close>

lemma untouched_simple [untouched_acts]:
  "moves untouched (lift_result r)" "moves untouched (locks f)" "moves untouched (raise_some x)"
  "moves untouched (take_flock lk)" "moves untouched (throw e)"
  by (auto simp: moves_def untouched_def lift_result_def locks_def raise_some_def take_flock_def
      split: option.split flock_result.split)

lemma untouched_compose [untouched_acts]:
  "moves untouched f \<Longrightarrow> (\<And>x. moves untouched (g x)) \<Longrightarrow> moves untouched (seq f g)"
  "moves untouched f \<Longrightarrow> (\<And>e. moves untouched (k e)) \<Longrightarrow> moves untouched (catch f k)"
  by (auto intro: moves_seq moves_catch)

lemma untouched_open_lock: "moves untouched (open_lock lk c inherited)"
  unfolding open_lock_def closing_on_error_def
  by (cases inherited; cases "lk_open lk"; simp; intro untouched_acts)

lemma untouched_idle: "untouched s s' \<Longrightarrow> idle s s'"
  by (simp add: untouched_def idle_def)

section \<open>An attempt that died\<close>

text \<open>
  A recovery plan was found and rolled back, and that is all that happened: one rollback is called, in
  the phase of the plan, the current pointer is what the rollback makes of it, the attempts on file are
  the same, and the input was not read.
\<close>

definition interrupted_rolled_back :: "'w site \<Rightarrow> receiver_config \<Rightarrow> 'w process \<Rightarrow> 'w process \<Rightarrow> bool" where
  "interrupted_rolled_back si c s s' \<longleftrightarrow>
     (\<exists>p w r w' current. si_load_plan si c (mc_world (pr_machine s)) = (Inr (Some p), w)
        \<and> ip_attempt_id p \<noteq> RETAINED_ATTEMPT \<and> \<not> attempt_verified p (mc_disk (pr_machine s))
        \<and> si_rollback_plan si p w (ds_current (mc_disk (pr_machine s))) = (r, w', current)
        \<and> mc_trace (pr_machine s') = mc_trace (pr_machine s) @ [Called (Rollback (Some (ip_phase p)))]
        \<and> mc_disk (pr_machine s') = (mc_disk (pr_machine s))\<lparr>ds_current := current\<rparr>
        \<and> pr_read s' = pr_read s)"

lemma recover_cases:
  assumes "on_machine (recover_incomplete_plan si c) s = (r, s')"
  obtains (left) "idle s s'" "r = Inr None \<longrightarrow> si_load_plan si c (mc_world (pr_machine s)) = (Inr None, mc_world (pr_machine s'))"
  | (rolled_back) "interrupted_rolled_back si c s s'" "r \<noteq> Inr None"
proof -
  obtain loaded w where load: "si_load_plan si c (mc_world (pr_machine s)) = (loaded, w)"
    by fastforce
  show ?thesis
  proof (cases "\<exists>p. loaded = Inr (Some p) \<and> ip_attempt_id p \<noteq> RETAINED_ATTEMPT
      \<and> \<not> attempt_verified p (mc_disk (pr_machine s))")
    case True
    then obtain p where p: "loaded = Inr (Some p)" "ip_attempt_id p \<noteq> RETAINED_ATTEMPT"
        "\<not> attempt_verified p (mc_disk (pr_machine s))"
      by blast
    obtain q w' current where "si_rollback_plan si p w (ds_current (mc_disk (pr_machine s))) = (q, w', current)"
      by (metis prod_cases3)
    then show ?thesis
      using assms load p rolled_back
      by (cases q) (auto simp: interrupted_rolled_back_def recover_incomplete_plan_def on_machine_def seq_def
          on_world_def rollback_plan_def log_event_def)
  next
    case False
    then show ?thesis
      using assms load left
      by (auto simp: idle_def recover_incomplete_plan_def on_machine_def seq_def on_world_def
          split: sum.splits option.splits if_splits prod.splits)
  qed
qed

section \<open>The lock\<close>

text \<open>The descriptors after a statement, whether or not it raises.\<close>

definition same_locks :: "'w process \<Rightarrow> 'w process \<Rightarrow> bool" where
  "same_locks s s' \<longleftrightarrow> pr_locks s' = pr_locks s"

lemma same_locks_order [simp]: "reflp same_locks" "transp same_locks"
  by (auto simp: same_locks_def intro: reflpI transpI)

lemma same_locks_refl [simp]: "same_locks s s"
  by (simp add: same_locks_def)

named_theorems lock_acts \<open>statements of the receiver that keep its descriptors\<close>

lemma same_locks_simple [lock_acts]:
  "moves same_locks (lift_result r)" "moves same_locks (raise_some x)" "moves same_locks (take_flock lk)"
  "moves same_locks (read_stdin si c)" "moves same_locks (on_tree g)" "moves same_locks (on_machine f)"
  "moves same_locks (give v)" "moves same_locks (throw e)" "moves same_locks (change (\<lambda>s. s\<lparr>pr_tree := t\<rparr>))"
  by (auto simp: moves_def same_locks_def lift_result_def raise_some_def take_flock_def read_stdin_def
      on_tree_def on_machine_def split: prod.split option.split flock_result.split)

lemma same_locks_compose [lock_acts]:
  "moves same_locks f \<Longrightarrow> (\<And>x. moves same_locks (g x)) \<Longrightarrow> moves same_locks (seq f g)"
  "moves same_locks f \<Longrightarrow> moves same_locks l \<Longrightarrow> moves same_locks (finally_do f l)"
  by (auto intro: moves_seq moves_finally)

lemma same_locks_engine [lock_acts]: "moves same_locks (run_engine si mode b)"
  unfolding run_engine_def Let_def by (simp; intro impI conjI lock_acts)

lemma same_locks_archive [lock_acts]: "moves same_locks (process_archive si c mode bytes)"
proof -
  have body: "moves same_locks (\<lambda>s. case F s of Inl e \<Rightarrow> (Inl e, s)
      | Inr b \<Rightarrow> (if G b then (Inl x, s) else seq (on_machine k) (\<lambda>_. run_engine si mode b) s))" for F G k x
  proof (rule movesI)
    fix s s' :: "'a process" and r
    assume "(case F s of Inl e \<Rightarrow> (Inl e, s)
      | Inr b \<Rightarrow> (if G b then (Inl x, s) else seq (on_machine k) (\<lambda>_. run_engine si mode b) s)) = (r, s')"
    moreover have "moves same_locks (seq (on_machine k) (\<lambda>_. run_engine si mode b))" for b
      by (intro lock_acts)
    ultimately show "same_locks s s'"
      by (auto split: sum.splits if_splits dest: movesD)
  qed
  show ?thesis
    unfolding process_archive_def with_temporary_def remove_temporary_def by (intro lock_acts body)
qed

lemma open_lock_count:
  assumes "open_lock lk c inherited s = (r, s')"
  shows "(r = Inr () \<and> pr_locks s' = Suc (pr_locks s) \<and> verify_directories lk c = Inr () \<and> lk_flock lk = Taken)
    \<or> ((\<exists>e. r = Inl e) \<and> pr_locks s' = pr_locks s)"
proof (cases "verify_directories lk c")
  case (Inl e)
  then show ?thesis
    using assms by (simp add: open_lock_def) metis
next
  case dirs: (Inr u)
  have closing: "(r = Inr () \<and> pr_locks s' = Suc (pr_locks s) \<and> lk_flock lk = Taken) \<or> ((\<exists>e. r = Inl e) \<and> pr_locks s' = pr_locks s)"
    if "seq (locks Suc) (\<lambda>_. closing_on_error (seq f g)) s = (r, s')" and "moves same_locks f"
      and g: "\<And>x. moves same_locks (g x)" and taken: "\<And>x a a'. g x a = (Inr (), a') \<Longrightarrow> lk_flock lk = Taken"
    for f :: "('a, 'b) step" and g
  proof -
    have fg: "moves same_locks (seq f g)"
      using that(2) g by (intro lock_acts)
    let ?s = "s\<lparr>pr_locks := Suc (pr_locks s)\<rparr>"
    obtain r1 s1 where run: "seq f g ?s = (r1, s1)"
      by fastforce
    have "pr_locks s1 = Suc (pr_locks s)"
      using movesD [OF fg run] by (simp add: same_locks_def)
    moreover have "lk_flock lk = Taken" if "r1 = Inr ()"
      using run that taken by (auto elim!: seq_InrE)
    ultimately show ?thesis
      using that(1) run
      by (cases r1) (auto simp: seq_def [of "locks f" for f] locks_def closing_on_error_def catch_def seq_def)
  qed
  have flock: "lk_flock lk = Taken" if "take_flock lk a = (Inr (), a')" for a a' :: "'a process"
    using that by (auto simp: take_flock_def split: flock_result.splits)
  show ?thesis
  proof (cases inherited)
    case None
    show ?thesis
    proof (cases "lk_open lk")
      case (Inl e)
      then show ?thesis
        using assms dirs None by (auto simp: open_lock_def)
    next
      case (Inr found)
      then have "seq (locks Suc) (\<lambda>_. closing_on_error (seq (lift_result found)
          (\<lambda>x. seq (lift_result (require (lock_file_ok x)
              (deployment_error ''Deployment lock is not a private root-owned file''))) (\<lambda>_. take_flock lk)))) s = (r, s')"
        using assms dirs None by (simp add: open_lock_def)
      then have "(r = Inr () \<and> pr_locks s' = Suc (pr_locks s) \<and> lk_flock lk = Taken)
          \<or> ((\<exists>e. r = Inl e) \<and> pr_locks s' = pr_locks s)"
        by (rule closing) (auto intro: lock_acts elim!: seq_InrE dest: flock)
      then show ?thesis
        using dirs by simp
    qed
  next
    case (Some fd)
    show ?thesis
    proof (cases "verify_inherited lk c fd = Inr () \<and> lk_dup lk = None")
      case True
      then have "seq (locks Suc) (\<lambda>_. closing_on_error (seq (raise_some (lk_prepare lk)) (\<lambda>x. take_flock lk))) s = (r, s')"
        using assms dirs Some by (simp add: open_lock_def raise_some_def [of None])
      then have "(r = Inr () \<and> pr_locks s' = Suc (pr_locks s) \<and> lk_flock lk = Taken)
          \<or> ((\<exists>e. r = Inl e) \<and> pr_locks s' = pr_locks s)"
        by (rule closing) (auto intro: lock_acts dest: flock)
      then show ?thesis
        using dirs by simp
    next
      case False
      have "(\<exists>e. r = Inl e) \<and> s' = s"
      proof (cases "verify_inherited lk c fd")
        case (Inl e)
        then show ?thesis
          using assms dirs Some by (simp add: open_lock_def) metis
      next
        case (Inr v)
        then obtain e where "lk_dup lk = Some e"
          using False by (cases "lk_dup lk") auto
        then show ?thesis
          using assms dirs Some Inr by (simp add: open_lock_def raise_some_def) metis
      qed
      then show ?thesis
        by simp
    qed
  qed
qed

text \<open>
  C22. However a request ends, at its first check or after the deployment, the lock descriptor it
  opened is closed: the process holds as many after the command as before.
\<close>

theorem receiver_releases_lock: "pr_locks (snd (main si explicit inherited s)) = pr_locks s"
proof -
  obtain r s' where run: "receive si explicit inherited s = (r, s')"
    by fastforce
  have "pr_locks s' = pr_locks s"
  proof (cases "forced_mode (si_command si) explicit")
    case (Inl e)
    then show ?thesis
      using run by (auto simp: receive_def)
  next
    case mode: (Inr mode)
    show ?thesis
    proof (cases "load_config (si_library si) (si_config si)")
      case (Inl e)
      then show ?thesis
        using run mode by (auto simp: receive_def)
    next
      case (Inr c)
      have "seq (open_lock (si_lock si) c inherited)
          (\<lambda>_. finally_do (receive_locked si c mode) (locks (\<lambda>n. n - 1))) s = (r, s')"
        using run mode Inr by (simp add: receive_def)
      then show ?thesis
      proof (cases rule: seq_cases)
        case (first e)
        then show ?thesis
          using open_lock_count [OF first(1)] by auto
      next
        case (both u s1)
        have body: "moves same_locks (receive_locked si c mode)"
          unfolding receive_locked_def by (intro lock_acts)
        have s1: "pr_locks s1 = Suc (pr_locks s)"
          using open_lock_count [OF both(1)] by auto
        from both(2) show ?thesis
          by (cases rule: finally_cases)
            (auto simp: locks_def s1 same_locks_def dest!: movesD [OF body])
      qed
    qed
  qed
  then show ?thesis
    by (simp add: main_def run)
qed

section \<open>How a request can go\<close>

text \<open>The tree the archive extracts to, in a fresh temporary directory.\<close>

definition archive_of :: "'w site \<Rightarrow> string \<Rightarrow> tree \<Rightarrow> bool" where
  "archive_of si bytes t \<longleftrightarrow>
     extract_archive (si_library si) (si_reader si) (si_disk si) bytes \<lparr>tree_nodes = [], tree_calls = 0\<rparr> = (Inr (), t)"

lemma process_archive_cases:
  assumes "process_archive si c mode bytes s = (r, s')"
  obtains (never) "idle s s'" "\<exists>e. r = Inl e"
  | (started) b t s1 r2 s2 where "archive_of si bytes t"
      "load_validated_bundle (si_library si) (si_policy si) (si_validator si) t c = Inr b"
      "rq_mode (vb_request b) = mode" "idle s s1" "run_engine si mode b s1 = (r2, s2)"
      "idle s2 s'" "r = r2 \<or> (\<exists>e. r = Inl e)"
proof -
  let ?body = "seq (on_tree (extract_archive (si_library si) (si_reader si) (si_disk si) bytes)) (\<lambda>_ s.
        case load_validated_bundle (si_library si) (si_policy si) (si_validator si) (the (pr_tree s)) c of
          Inl e \<Rightarrow> (Inl e, s)
        | Inr b \<Rightarrow>
            (if rq_mode (vb_request b) \<noteq> mode
             then (Inl (deployment_error ''The deployment request mode does not match the forced command''), s)
             else seq (on_machine (on_world (si_make_host si c))) (\<lambda>_. run_engine si mode b) s))"
  have body: "idle a a' \<and> (\<exists>e. q = Inl e) \<or> (\<exists>b t s1. archive_of si bytes t
      \<and> load_validated_bundle (si_library si) (si_policy si) (si_validator si) t c = Inr b
      \<and> rq_mode (vb_request b) = mode \<and> idle a s1 \<and> run_engine si mode b s1 = (q, a'))"
    if run: "?body a = (q, a')" and new: "pr_tree a = Some \<lparr>tree_nodes = [], tree_calls = 0\<rparr>" for a a' q
    using run
  proof (cases rule: seq_cases)
    case (first e)
    then show ?thesis
      using movesD [OF idle_simple(6) first(1)] by blast
  next
    case (both u a1)
    have a1: "idle a a1"
      using movesD [OF idle_simple(6) both(1)] .
    have tree: "archive_of si bytes (the (pr_tree a1))"
      using both(1) new by (auto simp: on_tree_def archive_of_def split: prod.splits)
    show ?thesis
    proof (cases "load_validated_bundle (si_library si) (si_policy si) (si_validator si) (the (pr_tree a1)) c")
      case (Inl e)
      then show ?thesis
        using both(2) a1 by auto
    next
      case (Inr b)
      show ?thesis
      proof (cases "rq_mode (vb_request b) = mode")
        case True
        then have "seq (on_machine (on_world (si_make_host si c))) (\<lambda>_. run_engine si mode b) a1 = (q, a')"
          using both(2) Inr by simp
        then show ?thesis
        proof (cases rule: seq_cases)
          case (first e)
          then show ?thesis
            using movesD [OF idle_simple(7) first(1)] a1 idle_trans by blast
        next
          case go: (both v a2)
          then show ?thesis
            using movesD [OF idle_simple(7) go(1)] a1 idle_trans Inr True tree by blast
        qed
      next
        case False
        then show ?thesis
          using both(2) a1 Inr by auto
      qed
    qed
  qed
  from assms [unfolded process_archive_def with_temporary_def] show ?thesis
  proof (cases rule: seq_cases)
    case (first e)
    then show ?thesis
      using movesD [OF idle_simple(3) first(1)] never by blast
  next
    case (both u s1)
    have s1: "idle s s1"
      using movesD [OF idle_simple(3) both(1)] .
    let ?s = "s1\<lparr>pr_tree := Some \<lparr>tree_nodes = [], tree_calls = 0\<rparr>\<rparr>"
    have fresh: "idle s1 ?s"
      by (simp add: idle_def)
    from both(2) have "finally_do ?body (remove_temporary si) ?s = (r, s')"
      by (simp add: seq_def [of "change f" for f])
    then obtain q a where a: "?body ?s = (q, a)" "idle a s'" "r = q \<or> (\<exists>e. r = Inl e)"
    proof (cases rule: finally_cases)
      case (last_raises q a e)
      then show ?thesis
        using that movesD [OF idle_remove last_raises(2)] by blast
    next
      case (kept a)
      then show ?thesis
        using that movesD [OF idle_remove kept(2)] by blast
    qed
    have before: "idle s ?s"
      using s1 fresh by (rule idle_trans)
    have "pr_tree ?s = Some \<lparr>tree_nodes = [], tree_calls = 0\<rparr>"
      by simp
    from body [OF a(1) this] show ?thesis
    proof
      assume "idle ?s a \<and> (\<exists>e. q = Inl e)"
      then show ?thesis
        using never a(3) idle_trans [OF before idle_trans [OF _ a(2)]] by auto
    next
      assume "\<exists>b t s1. archive_of si bytes t
        \<and> load_validated_bundle (si_library si) (si_policy si) (si_validator si) t c = Inr b
        \<and> rq_mode (vb_request b) = mode \<and> idle ?s s1 \<and> run_engine si mode b s1 = (q, a)"
      then obtain b t s2 where "archive_of si bytes t" "load_validated_bundle (si_library si) (si_policy si) (si_validator si) t c = Inr b"
          "rq_mode (vb_request b) = mode" "idle ?s s2" "run_engine si mode b s2 = (q, a)"
        by blast
      then show ?thesis
        using started [OF _ _ _ idle_trans [OF before]] a(2,3) by blast
    qed
  qed
qed

text \<open>
  Either the engine is never started, or the receiver rolls back an attempt that died and reads
  nothing, or the engine runs, under the lock, in the forced mode, on the bundle that the received
  archive extracts to, validated against the configuration; what it does is all that happens to
  the machine.
\<close>

lemma receive_locked_cases:
  assumes "receive_locked si c mode s = (r, s')"
  obtains (never) "idle s s'" "\<exists>e. r = Inl e"
  | (recovered) "interrupted_rolled_back si c s s'" "\<exists>e. r = Inl e"
  | (started) bytes t b s1 r2 s2 where "read_bounded_stream (si_stdin si) (rc_max_archive_bytes c) = Inr bytes"
      "archive_of si bytes t" "load_validated_bundle (si_library si) (si_policy si) (si_validator si) t c = Inr b"
      "rq_mode (vb_request b) = mode" "idle s s1" "run_engine si mode b s1 = (r2, s2)"
      "idle s2 s'" "r = r2 \<or> (\<exists>e. r = Inl e)"
  using assms [unfolded receive_locked_def]
proof (cases rule: seq_cases)
  case (first e)
  from first(1) show ?thesis
    by (cases rule: recover_cases) (use first(2) never recovered in auto)
next
  case plan: (both recovery s2)
  from plan(1) show ?thesis
  proof (cases rule: recover_cases)
    case rolled_back
    then obtain e where "refuse_after_recovery recovery = Inl e"
      by (cases recovery) (auto simp: refuse_after_recovery_def)
    then show ?thesis
      using plan(2) rolled_back(1) recovered by (auto simp: lift_result_def seq_def)
  next
    case left
    from plan(2) show ?thesis
    proof (cases rule: seq_cases)
      case (first e)
      then show ?thesis
        using never idle_trans [OF left(1) movesD [OF idle_simple(1) first(1)]] by auto
    next
      case free: (both v s3)
      have s3: "idle s s3"
        using idle_trans [OF left(1) movesD [OF idle_simple(1) free(1)]] .
      from free(2) show ?thesis
      proof (cases rule: seq_cases)
        case (first e)
        then show ?thesis
          using never idle_trans [OF s3 movesD [OF idle_simple(5) first(1)]] by auto
      next
        case archive: (both bytes s4)
        have s4: "idle s s4"
          using idle_trans [OF s3 movesD [OF idle_simple(5) archive(1)]] .
        have bytes: "read_bounded_stream (si_stdin si) (rc_max_archive_bytes c) = Inr bytes"
          using archive(1) by (simp add: read_stdin_def)
        from archive(2) show ?thesis
        proof (cases rule: process_archive_cases)
          case never
          then show ?thesis
            using that(1) idle_trans [OF s4] by blast
        next
          case (started b t s5 r2 s6)
          then show ?thesis
            using that(3) [OF bytes started(1-3) idle_trans [OF s4 started(4)] started(5-7)] by blast
        qed
      qed
    qed
  qed
qed

lemma rolled_back_frame:
  assumes "untouched s s1" and "interrupted_rolled_back si c s1 s2" and "locks f s2 = (v, s')"
  shows "interrupted_rolled_back si c s s'"
  using assms by (auto simp: interrupted_rolled_back_def untouched_def locks_def)

lemma receive_cases:
  assumes "receive si explicit inherited s = (r, s')"
  obtains (never) "idle s s'" "\<exists>e. r = Inl e"
  | (recovered) mode c where "forced_mode (si_command si) explicit = Inr mode"
      "load_config (si_library si) (si_config si) = Inr c" "verify_directories (si_lock si) c = Inr ()"
      "lk_flock (si_lock si) = Taken" "interrupted_rolled_back si c s s'" "\<exists>e. r = Inl e"
  | (started) mode c bytes t b s1 r2 s2 where "forced_mode (si_command si) explicit = Inr mode"
      "load_config (si_library si) (si_config si) = Inr c" "verify_directories (si_lock si) c = Inr ()"
      "lk_flock (si_lock si) = Taken"
      "read_bounded_stream (si_stdin si) (rc_max_archive_bytes c) = Inr bytes" "archive_of si bytes t"
      "load_validated_bundle (si_library si) (si_policy si) (si_validator si) t c = Inr b"
      "rq_mode (vb_request b) = mode" "idle s s1" "run_engine si mode b s1 = (r2, s2)"
      "idle s2 s'" "r = r2 \<or> (\<exists>e. r = Inl e)"
proof (cases "forced_mode (si_command si) explicit")
  case (Inl e)
  then show ?thesis
    using assms never by (simp add: receive_def) metis
next
  case mode: (Inr mode)
  show ?thesis
  proof (cases "load_config (si_library si) (si_config si)")
    case (Inl e)
    then show ?thesis
      using assms never mode by (simp add: receive_def) metis
  next
    case c: (Inr c)
    have "seq (open_lock (si_lock si) c inherited)
        (\<lambda>_. finally_do (receive_locked si c mode) (locks (\<lambda>n. n - 1))) s = (r, s')"
      using assms mode c by (simp add: receive_def)
    then show ?thesis
    proof (cases rule: seq_cases)
      case (first e)
      then show ?thesis
        using never movesD [OF idle_open_lock first(1)] by blast
    next
      case (both u s1)
      have lock: "verify_directories (si_lock si) c = Inr ()" "lk_flock (si_lock si) = Taken"
        using open_lock_count [OF both(1)] by auto
      have s1: "untouched s s1"
        using movesD [OF untouched_open_lock both(1)] .
      obtain q v a where a: "receive_locked si c mode s1 = (q, a)" "locks (\<lambda>n. n - 1) a = (v, s')"
          "r = q \<or> (\<exists>e. r = Inl e)"
        using both(2) by (cases rule: finally_cases) (use that in blast)+
      have a': "idle a s'"
        using movesD [OF idle_simple(2) a(2)] .
      note s1' = untouched_idle [OF s1]
      from a(1) show ?thesis
      proof (cases rule: receive_locked_cases)
        case never
        then show ?thesis
          using that(1) a(3) idle_trans [OF s1' idle_trans [OF _ a']] by blast
      next
        case recovered
        then show ?thesis
          using that(2) [OF mode c lock rolled_back_frame [OF s1 recovered(1) a(2)]] a(3) by blast
      next
        case (started bytes t b s2 r2 s3)
        then show ?thesis
          using that(3) [OF mode c lock started(1-4) idle_trans [OF s1' started(5)] started(6)
            idle_trans [OF started(7) a']] a(3) by blast
      qed
    qed
  qed
qed

section \<open>What the engine does to the machine\<close>

lemma attempt_path_quiet: "moves quiet (attempt_path h b)"
proof -
  have "moves quiet (\<lambda>m. if attempt_on (mc_disk m) (bu_attempt_id b) \<noteq> None then (Inl x, m) else (Inr (), m))" for x
    by (auto simp: moves_def)
  then show ?thesis
    unfolding attempt_path_def by (intro moves_seq host_step_quiet quiet_order)
qed

lemma open_journal_outcome:
  assumes "open_journal h b operation m = (r, m')"
  shows "\<exists>es. mc_trace m' = mc_trace m @ es \<and> called es = []"
    and "ds_current (mc_disk m') = ds_current (mc_disk m)"
    and "r = Inr () \<Longrightarrow> \<exists>now. mc_record m' = base_record now b operation"
proof -
  have "(\<exists>es. mc_trace m' = mc_trace m @ es \<and> called es = []) \<and> ds_current (mc_disk m') = ds_current (mc_disk m)
      \<and> (r = Inr () \<longrightarrow> (\<exists>now. mc_record m' = base_record now b operation))"
    using assms unfolding open_journal_def
  proof (cases rule: seq_cases)
    case (first e)
    then show ?thesis
      using quietD [OF movesD [OF attempt_path_quiet first(1)]] by auto
  next
    case (both u m1)
    note m1 = quietD [OF movesD [OF attempt_path_quiet both(1)]]
    obtain w where "timestamp h m1 = (Inr (fst (ho_clock h (mc_world m1))), m1\<lparr>mc_world := w\<rparr>)"
      using timestamp_eq [of h m1] by blast
    then have "atomic_write h (Attempt (base_record (fst (ho_clock h (mc_world m1))) b operation))
        (m1\<lparr>mc_world := w, mc_record := base_record (fst (ho_clock h (mc_world m1))) b operation\<rparr>) = (r, m')"
      using both(2) by (simp add: seq_def [of "timestamp h"] seq_on_record save_def)
    from atomic_write_outcome [OF this] show ?thesis
      using m1 by (auto simp: installed_def abandoned_def attempt_on_install)
  qed
  then show "\<exists>es. mc_trace m' = mc_trace m @ es \<and> called es = []"
    and "ds_current (mc_disk m') = ds_current (mc_disk m)"
    and "r = Inr () \<Longrightarrow> \<exists>now. mc_record m' = base_record now b operation"
    by blast+
qed

definition candidate_operations :: "operation set" where
  "candidate_operations = {Validate, Prepare_Candidate, Rollback (Some ''validated'')}"

lemma called_map [simp]: "called (map Called ops) = ops"
  by (induction ops) auto

lemma rehearsed_called: "rehearsed es \<Longrightarrow> set (called es) \<subseteq> candidate_operations"
  by (auto simp: rehearsed_def candidate_operations_def simp del: take_Suc_Cons dest!: in_set_takeD)

lemma preflight_run_trace:
  assumes "preflight_run h b m = (r, m')"
  shows "(\<exists>es. mc_trace m' = mc_trace m @ es \<and> set (called es) \<subseteq> candidate_operations)
    \<and> ds_current (mc_disk m') = ds_current (mc_disk m)"
  using assms unfolding preflight_run_def
proof (cases rule: with_guard_cases)
  case (refused e)
  then show ?thesis by (simp add: quiet_def)
next
  case (inside w m1)
  obtain es where es: "mc_trace m1 = mc_trace m @ es" "rehearsed es"
    using preflight_guarded_outcome [OF inside(2)] by auto
  then have "same_files (replay es (mc_disk m)) (mc_disk m')"
    using movesD [OF durable_preflight_guarded inside(2)] by (auto simp: durable_def inside(3))
  then have "ds_current (mc_disk m') = ds_current (mc_disk m)"
    using rehearsed_files [OF es(2)] by (simp add: same_files_def)
  then show ?thesis
    using es rehearsed_called by (auto simp: inside(3))
qed

lemma on_machine_run:
  "on_machine f s = (r, s') \<Longrightarrow> f (pr_machine s) = (r, pr_machine s')"
  by (auto simp: on_machine_def split: prod.splits)

lemma run_engine_preflight:
  assumes "run_engine si ''preflight'' b s = (r, s')"
  shows "(\<exists>es. mc_trace (pr_machine s') = mc_trace (pr_machine s) @ es \<and> set (called es) \<subseteq> candidate_operations)
    \<and> ds_current (mc_disk (pr_machine s')) = ds_current (mc_disk (pr_machine s))"
proof -
  let ?rb = "release_bundle_of (si_library si) b"
  have "seq (on_machine (open_journal (si_host si) ?rb ''preflight'')) (\<lambda>_.
      seq (on_machine (preflight_run (si_host si) ?rb)) (\<lambda>_.
      give (report_of (si_library si) ''preflight-passed'' b))) s = (r, s')"
    using assms by (simp add: run_engine_def Let_def)
  then show ?thesis
  proof (cases rule: seq_cases)
    case (first e)
    from open_journal_outcome(1,2) [OF on_machine_run [OF first(1)]] show ?thesis
      by auto
  next
    case (both u s1)
    note opened = open_journal_outcome(1,2) [OF on_machine_run [OF both(1)]]
    from both(2) obtain r1 where "on_machine (preflight_run (si_host si) ?rb) s1 = (r1, s')"
      by (cases rule: seq_cases) auto
    from preflight_run_trace [OF on_machine_run [OF this]] obtain fs
      where fs: "mc_trace (pr_machine s') = mc_trace (pr_machine s1) @ fs" "set (called fs) \<subseteq> candidate_operations"
        "ds_current (mc_disk (pr_machine s')) = ds_current (mc_disk (pr_machine s1))"
      by blast
    obtain es where es: "mc_trace (pr_machine s1) = mc_trace (pr_machine s) @ es" "called es = []"
      using opened(1) by blast
    have "mc_trace (pr_machine s') = mc_trace (pr_machine s) @ (es @ fs)" "set (called (es @ fs)) \<subseteq> candidate_operations"
      using es fs by simp_all
    then show ?thesis
      using fs(3) opened(2) by metis
  qed
qed

lemma run_engine_deploy:
  assumes "run_engine si ''deploy'' b s = (Inr rep, s')"
  shows "rep = report_of (si_library si) ''verified'' b
    \<and> (\<exists>j q. attempt_on (mc_disk (pr_machine s')) (attempt_id (vb_request b)) = Some j
        \<and> jr_result j = ''success'' \<and> map fst (jr_history j) = DEPLOYMENT_STATES
        \<and> ds_current (mc_disk (pr_machine s')) = Some q
        \<and> pt_release_commit q = rq_release_commit (vb_request b)
        \<and> pt_manifest_sha256 q = rq_manifest_sha256 (vb_request b))
    \<and> mc_trace (pr_machine s') \<noteq> mc_trace (pr_machine s)"
proof -
  let ?rb = "release_bundle_of (si_library si) b"
  have "seq (on_machine (open_journal (si_host si) ?rb ''deploy'')) (\<lambda>_.
      seq (on_machine (deploy_run (si_host si) ?rb)) (\<lambda>_.
      give (report_of (si_library si) ''verified'' b))) s = (Inr rep, s')"
    using assms by (simp add: run_engine_def Let_def)
  then obtain u s1 where s1: "on_machine (open_journal (si_host si) ?rb ''deploy'') s = (Inr u, s1)"
    and rest: "seq (on_machine (deploy_run (si_host si) ?rb)) (\<lambda>_.
      give (report_of (si_library si) ''verified'' b)) s1 = (Inr rep, s')"
    by (rule seq_InrE)
  from rest obtain v s2 where "on_machine (deploy_run (si_host si) ?rb) s1 = (Inr v, s2)"
      "give (report_of (si_library si) ''verified'' b) s2 = (Inr rep, s')"
    by (rule seq_InrE)
  then have run: "deploy_run (si_host si) ?rb (pr_machine s1) = (Inr v, pr_machine s')"
    and rep: "rep = report_of (si_library si) ''verified'' b"
    using on_machine_run by auto
  obtain now where rec: "mc_record (pr_machine s1) = base_record now ?rb ''deploy''"
    using open_journal_outcome(3) [OF on_machine_run [OF s1]] by auto
  have fields: "jr_attempt_id (base_record now ?rb ''deploy'') = attempt_id (vb_request b)"
      "jr_release_commit (base_record now ?rb ''deploy'') = rq_release_commit (vb_request b)"
      "jr_manifest_sha256 (base_record now ?rb ''deploy'') = rq_manifest_sha256 (vb_request b)"
    by (simp_all add: base_record_def release_bundle_of_def Let_def)
  from rec run show ?thesis
  proof (cases rule: deploy_run_outcome)
    case finished
    obtain es where "mc_trace (pr_machine s') = mc_trace (pr_machine s1) @ es" "es \<noteq> []"
      using finished(2) follows_ops by (fastforce simp: engaged_def)
    moreover obtain opened where "mc_trace (pr_machine s1) = mc_trace (pr_machine s) @ opened"
      using open_journal_outcome(1) [OF on_machine_run [OF s1]] by blast
    ultimately have "mc_trace (pr_machine s') \<noteq> mc_trace (pr_machine s)"
      by simp
    moreover from engaged_files [OF finished(2) movesD [OF durable_run run] refl]
    have "\<exists>j q. attempt_on (mc_disk (pr_machine s')) (attempt_id (vb_request b)) = Some j
        \<and> jr_result j = ''success'' \<and> map fst (jr_history j) = DEPLOYMENT_STATES
        \<and> ds_current (mc_disk (pr_machine s')) = Some q
        \<and> pt_release_commit q = rq_release_commit (vb_request b)
        \<and> pt_manifest_sha256 q = rq_manifest_sha256 (vb_request b)"
      by (auto simp: fields at_state_def)
    ultimately show ?thesis
      using rep by blast
  qed simp_all
qed

section \<open>What the receiver promises\<close>

lemma main_receive: "main si explicit inherited s = (out, s') \<Longrightarrow> \<exists>r. receive si explicit inherited s = (r, s') \<and> out = exit_of r"
  by (auto simp: main_def split: prod.splits)

lemma raised_exit: "r = Inl e \<Longrightarrow> fst (exit_of r) \<noteq> 0"
  by (simp add: exit_of_def)

text \<open>
  C18. The engine never starts on anything that was not checked: when an operation was called or a
  document of the engine was written, the command was one of the two, the configuration was
  accepted, the host's directories were private to root, the lock was taken, and what is on the
  standard input is an archive that extracts to a bundle validated against this configuration, for
  its repository, in the forced mode, with the digest of its manifest as requested. The one call that
  needs no archive is the rollback of an attempt that died, under the same lock; then the input is not
  read and the process fails.
\<close>

theorem receiver_runs_only_validated:
  assumes "main si explicit inherited s = (out, s')"
    and "mc_trace (pr_machine s') \<noteq> mc_trace (pr_machine s)"
  shows "\<exists>mode c. forced_mode (si_command si) explicit = Inr mode
    \<and> load_config (si_library si) (si_config si) = Inr c
    \<and> verify_directories (si_lock si) c = Inr () \<and> lk_flock (si_lock si) = Taken
    \<and> ((\<exists>bytes t b. read_bounded_stream (si_stdin si) (rc_max_archive_bytes c) = Inr bytes
          \<and> archive_of si bytes t
          \<and> load_validated_bundle (si_library si) (si_policy si) (si_validator si) t c = Inr b
          \<and> rq_mode (vb_request b) = mode \<and> mode \<in> {''preflight'', ''deploy''}
          \<and> rq_repository (vb_request b) = rc_repository c
          \<and> lb_sha256 (si_library si) (bytes_of (node_at t [''release'', ''RELEASE.json''])) = rq_manifest_sha256 (vb_request b))
        \<or> interrupted_rolled_back si c s s' \<and> fst out \<noteq> 0)"
proof -
  obtain r where run: "receive si explicit inherited s = (r, s')" and out: "out = exit_of r"
    using main_receive [OF assms(1)] by blast
  from run show ?thesis
  proof (cases rule: receive_cases)
    case never
    then show ?thesis
      using assms(2) by (simp add: idle_def)
  next
    case (recovered mode c)
    then have "fst out \<noteq> 0"
      using raised_exit out by auto
    with recovered(1-5) show ?thesis
      by blast
  next
    case (started mode c bytes t b s1 r2 s2)
    obtain "load_request (si_library si) (si_policy si) (node_at t [''REQUEST.json'']) = Inr (vb_request b)"
      and "rq_repository (vb_request b) = rc_repository c"
      and "lb_sha256 (si_library si) (bytes_of (node_at t [''release'', ''RELEASE.json''])) = rq_manifest_sha256 (vb_request b)"
      by (rule load_validated_bundle_Inr [OF started(7)])
    moreover from load_request_fields(1) [OF this(1)] have "mode \<in> {''preflight'', ''deploy''}"
      by (simp only: started(8))
    ultimately have "rq_mode (vb_request b) = mode \<and> mode \<in> {''preflight'', ''deploy''}
        \<and> rq_repository (vb_request b) = rc_repository c
        \<and> lb_sha256 (si_library si) (bytes_of (node_at t [''release'', ''RELEASE.json''])) = rq_manifest_sha256 (vb_request b)"
      using started(8) by blast
    with started(1-7) show ?thesis
      by blast
  qed
qed

text \<open>
  C19. A key whose forced command is the preflight cannot deploy, whatever is sent. Either the only
  operations are that the candidate is validated, prepared and rolled back, and the release in place
  stays the one it was; or an attempt that had died was on file, its rollback is all that happens,
  the archive is not read, the process fails, and the release in place is the one that the rollback
  leaves.
\<close>

theorem receiver_mode_confined:
  assumes "main si explicit inherited s = (out, s')"
    and "forced_mode (si_command si) explicit \<noteq> Inr ''deploy''"
    and "mc_trace (pr_machine s') = mc_trace (pr_machine s) @ es"
  shows "set (called es) \<subseteq> {Validate, Prepare_Candidate, Rollback (Some ''validated'')}
      \<and> ds_current (mc_disk (pr_machine s')) = ds_current (mc_disk (pr_machine s))
    \<or> (\<exists>c. load_config (si_library si) (si_config si) = Inr c
        \<and> interrupted_rolled_back si c s s' \<and> fst out \<noteq> 0)"
proof -
  obtain r where run: "receive si explicit inherited s = (r, s')" and out: "out = exit_of r"
    using main_receive [OF assms(1)] by blast
  from run show ?thesis
  proof (cases rule: receive_cases)
    case never
    then show ?thesis
      using assms(3) by (simp add: idle_def)
  next
    case (recovered mode c)
    then have "fst out \<noteq> 0"
      using raised_exit out by auto
    with recovered(2,5) show ?thesis
      by blast
  next
    case (started mode c bytes t b s1 r2 s2)
    obtain "load_request (si_library si) (si_policy si) (node_at t [''REQUEST.json'']) = Inr (vb_request b)"
      by (rule load_validated_bundle_Inr [OF started(7)])
    from load_request_fields(1) [OF this] have "mode = ''preflight''"
      using started(1,8) assms(2) by auto
    then have "run_engine si ''preflight'' b s1 = (r2, s2)"
      using started(10) by simp
    from run_engine_preflight [OF this] show ?thesis
      using started(9,11) assms(3) by (auto simp: idle_def candidate_operations_def)
  qed
qed

text \<open>
  C20. Exit code 0 of a deployment tells the truth about the archive that was received: it extracts to
  a validated bundle, the version and the manifest printed are those of the request in it, the attempt
  of that request is on disk as a success with all ten states, and the current pointer is at its commit
  and manifest.
\<close>

theorem receiver_success_is_deployed:
  assumes "main si explicit inherited s = ((0, said), s')"
    and "forced_mode (si_command si) explicit = Inr ''deploy''"
  shows "\<exists>c bytes t b q j p. load_config (si_library si) (si_config si) = Inr c
    \<and> read_bounded_stream (si_stdin si) (rc_max_archive_bytes c) = Inr bytes \<and> archive_of si bytes t
    \<and> load_validated_bundle (si_library si) (si_policy si) (si_validator si) t c = Inr b
    \<and> q = vb_request b \<and> rq_mode q = ''deploy''
    \<and> said = Printed \<lparr>or_result = ''verified'', or_platform_version = rq_platform_version q,
        or_manifest_sha256 = rq_manifest_sha256 q,
        or_recovery_sha256 = map_option (\<lambda>tr. lb_sha256 (si_library si)
            (canonical_json (lb_float (si_library si)) (transition_value tr))) (rq_recovery_transition q)\<rparr>
    \<and> attempt_on (mc_disk (pr_machine s'))
        (''gh-'' @ rq_workflow_run_id q @ ''-'' @ show_int (rq_workflow_run_attempt q)) = Some j
    \<and> jr_result j = ''success''
    \<and> map fst (jr_history j) = [''validated'', ''prepared'', ''backed_up'', ''migrated'', ''candidate_healthy'',
         ''traffic_switched'', ''workers_replaced'', ''stabilized'', ''web_promoted'', ''verified'']
    \<and> ds_current (mc_disk (pr_machine s')) = Some p
    \<and> pt_release_commit p = rq_release_commit q \<and> pt_manifest_sha256 p = rq_manifest_sha256 q"
proof -
  obtain r where run: "receive si explicit inherited s = (r, s')" and "(0, said) = exit_of r"
    using main_receive [OF assms(1)] by blast
  then obtain rep where rep: "r = Inr rep" "said = Printed rep"
    by (cases r) (auto simp: exit_of_def split: if_splits)
  from run show ?thesis
  proof (cases rule: receive_cases)
    case (started mode c bytes t b s1 r2 s2)
    then have mode: "mode = ''deploy''" and "run_engine si ''deploy'' b s1 = (Inr rep, s2)"
      using rep(1) assms(2) by auto
    from run_engine_deploy [OF this(2)] obtain j p where rep_b: "rep = report_of (si_library si) ''verified'' b"
      and on_disk: "attempt_on (mc_disk (pr_machine s')) (attempt_id (vb_request b)) = Some j"
      "jr_result j = ''success''" "map fst (jr_history j) = DEPLOYMENT_STATES"
      "ds_current (mc_disk (pr_machine s')) = Some p"
      "pt_release_commit p = rq_release_commit (vb_request b)"
      "pt_manifest_sha256 p = rq_manifest_sha256 (vb_request b)"
      using started(11) by (auto simp: idle_def)
    have said: "said = Printed \<lparr>or_result = ''verified'',
        or_platform_version = rq_platform_version (vb_request b),
        or_manifest_sha256 = rq_manifest_sha256 (vb_request b),
        or_recovery_sha256 = map_option (\<lambda>tr. lb_sha256 (si_library si)
            (canonical_json (lb_float (si_library si)) (transition_value tr))) (rq_recovery_transition (vb_request b))\<rparr>"
      by (simp add: rep(2) rep_b report_of_def recovery_sha256_def split: option.split)
    show ?thesis
      by (rule exI [of _ c], rule exI [of _ bytes], rule exI [of _ t], rule exI [of _ b],
          rule exI [of _ "vb_request b"], rule exI [of _ j], rule exI [of _ p])
        (intro conjI refl started(2,5-7) started(8) [unfolded mode] said
          on_disk [unfolded attempt_id_def DEPLOYMENT_STATES_def])
  qed (use rep in simp_all)
qed

text \<open>
  C28. The manifests of a validated recovery are a chain: one for each release before the target, each
  with the version and source commit of its release, the digest of its canonical text, a rollback-safe
  compatibility boundary, and, after the first, the release before it as its predecessor; the last of
  them is the predecessor of the target.
\<close>

theorem recovery_manifests_linked:
  assumes "load_validated_bundle lib policy_file va t config = Inr b"
    and "rq_recovery_transition (vb_request b) = Some tr"
  shows "linked lib PNone (butlast (tr_releases tr)) (vb_lineage b)
    \<and> length (vb_lineage b) + 1 = length (tr_releases tr)
    \<and> get_key (vb_manifest b) ''source_commit'' = PStr (ri_source_commit (last (tr_releases tr)))
    \<and> py_eq (get_key (vb_manifest b) ''previous_release'') (predecessor (last (butlast (tr_releases tr))))"
proof -
  obtain q: "load_request lib policy_file (node_at t [''REQUEST.json'']) = Inr (vb_request b)"
    and "case rq_recovery_transition (vb_request b) of
           Some tr \<Rightarrow> load_recovery_lineage lib policy_file va t tr (vb_manifest b) = Inr (vb_lineage b)
         | None \<Rightarrow> node_at t [''lineage''] = None \<and> vb_lineage b = []"
    by (rule load_validated_bundle_Inr [OF assms(1)])
  then have lineage: "load_recovery_lineage lib policy_file va t tr (vb_manifest b) = Inr (vb_lineage b)"
    by (simp add: assms(2))
  obtain d where "load_recovery lib policy_file (get_key d ''recovery_transition'') d = Inr tr"
    using load_request_recovery [OF q assms(2)] by blast
  then have long: "3 \<le> length (tr_releases tr)"
    by (rule load_recovery_Inr)
  then have "butlast (tr_releases tr) \<noteq> []"
    by (cases "tr_releases tr" rule: rev_cases) auto
  note chain = load_recovery_lineage_Inr [OF lineage this]
  have "length is = length vs" if "linked lib p is vs" for p "is" vs
    using that by (induction lib p "is" vs rule: linked.induct) auto
  then have "length (butlast (tr_releases tr)) = length (vb_lineage b)"
    using chain by blast
  then show ?thesis
    using chain long by simp
qed

end
