(* ===== verification/Receiver_Progress.thy ===== *)
theory Receiver_Progress
  imports Receiver_Results
begin

text \<open>
  The receiver delivers: with a calm and willing backend, a taken lock and an archive that holds a
  validated deployment of a new attempt, the process ends with code 0.
\<close>

section \<open>The engine's part\<close>

lemma open_journal_calm:
  assumes "calm h" and fresh: "attempt_on (mc_disk m) (bu_attempt_id b) = None"
  shows "\<exists>m'. open_journal h b operation m = (Inr (), m')"
proof -
  have steps: "\<exists>m'. host_step h s m = (Inr (), m') \<and> mc_disk m' = mc_disk m" for s and m :: "'a machine"
    using untroubledD [OF untroubled_host_step [OF assms(1)], of s m] movesD [OF host_step_quiet]
    by (fastforce simp: quiet_def)
  obtain m1 m2 where "host_step h Make_Parent m = (Inr (), m1)" "host_step h Make_Parent m1 = (Inr (), m2)"
      "mc_disk m2 = mc_disk m"
    using steps by metis
  then have "attempt_path h b m = (Inr (), m2)"
    using fresh by (simp add: attempt_path_def seq_def)
  moreover have "untroubled (seq (timestamp h) (\<lambda>now. seq (on_record (\<lambda>_. base_record now b operation)) (\<lambda>_. save h)))"
    by (intro untroubled_acts untroubled_save assms(1))
  ultimately show ?thesis
    using untroubledD [of "seq (timestamp h) (\<lambda>now. seq (on_record (\<lambda>_. base_record now b operation)) (\<lambda>_. save h))" m2]
    unfolding open_journal_def by (simp add: seq_def [of "attempt_path h b"])
qed

lemma run_engine_delivers:
  assumes "calm (si_host si)" and "willing (si_host si) (release_bundle_of (si_library si) b)"
    and "attempt_on (mc_disk (pr_machine s)) (attempt_id (vb_request b)) = None"
  shows "\<exists>s'. run_engine si ''deploy'' b s = (Inr (report_of (si_library si) ''verified'' b), s')"
proof -
  let ?h = "si_host si" and ?rb = "release_bundle_of (si_library si) b"
  have "bu_attempt_id ?rb = attempt_id (vb_request b)"
    by (simp add: release_bundle_of_def Let_def)
  then obtain m1 where m1: "open_journal ?h ?rb ''deploy'' (pr_machine s) = (Inr (), m1)"
    using open_journal_calm [OF assms(1)] assms(3) by metis
  obtain now where "mc_record m1 = base_record now ?rb ''deploy''"
    using open_journal_outcome(3) [OF m1 refl] by blast
  then obtain m2 where "deploy_run ?h ?rb m1 = (Inr (), m2)"
    using deploy_returns [OF assms(1,2)] by blast
  with m1 show ?thesis
    by (simp add: run_engine_def Let_def seq_def on_machine_def)
qed

section \<open>The whole process\<close>

text \<open>A validated archive in the temporary directory is deployed.\<close>

lemma process_archive_delivers:
  assumes "calm (si_host si)" and "willing (si_host si) (release_bundle_of (si_library si) b)"
    and "si_make_temporary si = None" and "si_remove_temporary si = None"
    and "extract_archive (si_library si) (si_reader si) (si_disk si) bytes \<lparr>tree_nodes = [], tree_calls = 0\<rparr> = (Inr (), t)"
    and "load_validated_bundle (si_library si) (si_policy si) (si_validator si) t c = Inr b"
    and "rq_mode (vb_request b) = ''deploy''"
    and "\<And>w. fst (si_make_host si c w) = Inr ()"
    and "attempt_on (mc_disk (pr_machine s)) (attempt_id (vb_request b)) = None"
  shows "\<exists>s'. process_archive si c ''deploy'' bytes s = (Inr (report_of (si_library si) ''verified'' b), s')"
proof -
  obtain w where w: "si_make_host si c (mc_world (pr_machine s)) = (Inr (), w)"
    using assms(8) by (metis prod.collapse)
  define s1 where "s1 = s\<lparr>pr_tree := Some t, pr_machine := (pr_machine s)\<lparr>mc_world := w\<rparr>\<rparr>"
  obtain s2 where "run_engine si ''deploy'' b s1 = (Inr (report_of (si_library si) ''verified'' b), s2)"
    using run_engine_delivers [OF assms(1,2), of s1] assms(9) by (auto simp: s1_def)
  then show ?thesis
    using assms(3-7) w
    by (simp add: process_archive_def with_temporary_def remove_temporary_def raise_some_def on_tree_def
        seq_def finally_do_def on_machine_def on_world_def s1_def)
qed

lemma open_lock_taken:
  assumes "verify_directories lk c = Inr ()" and "lk_open lk = Inr (Inr details)" and "lock_file_ok details"
    and "lk_flock lk = Taken"
  shows "open_lock lk c None s = (Inr (), s\<lparr>pr_locks := Suc (pr_locks s)\<rparr>)"
  using assms by (simp add: open_lock_def seq_def locks_def closing_on_error_def catch_def require_def take_flock_def)

lemma receive_delivers:
  assumes "calm (si_host si)" and "willing (si_host si) (release_bundle_of (si_library si) b)"
    and "forced_mode (si_command si) explicit = Inr ''deploy''"
    and "load_config (si_library si) (si_config si) = Inr c"
    and "verify_directories (si_lock si) c = Inr ()" and "lk_open (si_lock si) = Inr (Inr details)"
    and "lock_file_ok details" and "lk_flock (si_lock si) = Taken"
    and "\<And>w. fst (si_load_plan si c w) = Inr None" and "\<And>w. fst (si_make_host si c w) = Inr ()"
    and "read_bounded_stream (si_stdin si) (rc_max_archive_bytes c) = Inr bytes"
    and "si_make_temporary si = None" and "si_remove_temporary si = None"
    and "extract_archive (si_library si) (si_reader si) (si_disk si) bytes \<lparr>tree_nodes = [], tree_calls = 0\<rparr> = (Inr (), t)"
    and "load_validated_bundle (si_library si) (si_policy si) (si_validator si) t c = Inr b"
    and "rq_mode (vb_request b) = ''deploy''"
    and "attempt_on (mc_disk (pr_machine s)) (attempt_id (vb_request b)) = None"
  shows "\<exists>s'. receive si explicit None s = (Inr (report_of (si_library si) ''verified'' b), s')"
proof -
  obtain w where w: "si_load_plan si c (mc_world (pr_machine s)) = (Inr None, w)"
    using assms(9) by (metis prod.collapse)
  define s1 where "s1 = s\<lparr>pr_locks := Suc (pr_locks s), pr_machine := (pr_machine s)\<lparr>mc_world := w\<rparr>, pr_read := True\<rparr>"
  obtain s2 where "process_archive si c ''deploy'' bytes s1 = (Inr (report_of (si_library si) ''verified'' b), s2)"
    using process_archive_delivers [OF assms(1,2,12-16,10), of s1] assms(17) by (auto simp: s1_def)
  then have "receive_locked si c ''deploy'' (s\<lparr>pr_locks := Suc (pr_locks s)\<rparr>)
      = (Inr (report_of (si_library si) ''verified'' b), s2)"
    using w assms(11)
    by (simp add: receive_locked_def recover_incomplete_plan_def seq_def on_machine_def on_world_def refuse_after_recovery_def read_stdin_def s1_def)
  then show ?thesis
    using open_lock_taken [OF assms(5-8), of s] assms(3,4) by (simp add: receive_def seq_def finally_do_def locks_def)
qed

text \<open>A deployment that succeeds has left its events.\<close>

lemma receive_acts:
  assumes "receive si explicit inherited s = (Inr rep, s')" and "forced_mode (si_command si) explicit = Inr ''deploy''"
  shows "mc_trace (pr_machine s') \<noteq> mc_trace (pr_machine s)"
  using assms(1)
proof (cases rule: receive_cases)
  case (started mode c bytes t b s1 r2 s2)
  then have "run_engine si ''deploy'' b s1 = (Inr rep, s2)"
    using assms(2) by auto
  from run_engine_deploy [OF this] show ?thesis
    using started(9,11) by (simp add: idle_def)
qed simp_all

text \<open>
  C21. The receiver delivers. If the forced command is the deployment, the configuration and the
  lock are in order, no interrupted plan is found, and the archive on the standard input extracts to a
  bundle that validates in that mode for an attempt not received before, then with a backend
  that answers and without faults the process ends with code 0 and reports this release as verified.
\<close>

theorem receiver_delivers:
  assumes "calm (si_host si)" and "willing (si_host si) (release_bundle_of (si_library si) b)"
    and "forced_mode (si_command si) explicit = Inr ''deploy''"
    and "load_config (si_library si) (si_config si) = Inr c"
    and "verify_directories (si_lock si) c = Inr ()" and "lk_open (si_lock si) = Inr (Inr details)"
    and "lock_file_ok details" and "lk_flock (si_lock si) = Taken"
    and "\<And>w. fst (si_load_plan si c w) = Inr None" and "\<And>w. fst (si_make_host si c w) = Inr ()"
    and "read_bounded_stream (si_stdin si) (rc_max_archive_bytes c) = Inr bytes"
    and "si_make_temporary si = None" and "si_remove_temporary si = None"
    and "extract_archive (si_library si) (si_reader si) (si_disk si) bytes \<lparr>tree_nodes = [], tree_calls = 0\<rparr> = (Inr (), t)"
    and "load_validated_bundle (si_library si) (si_policy si) (si_validator si) t c = Inr b"
    and "rq_mode (vb_request b) = ''deploy''"
    and "attempt_on (mc_disk (pr_machine s)) (attempt_id (vb_request b)) = None"
  shows "\<exists>s'. main si explicit None s = ((0, Printed \<lparr>or_result = ''verified'',
      or_platform_version = rq_platform_version (vb_request b), or_manifest_sha256 = rq_manifest_sha256 (vb_request b),
      or_recovery_sha256 = recovery_sha256 (si_library si) (vb_request b)\<rparr>), s')"
  using receive_delivers [OF assms] by (auto simp: main_def exit_of_def report_of_def)

end
