(* ===== verification/Receiver_Samples.thy ===== *)
theory Receiver_Samples
  imports Receiver_Progress Deploy_Samples
begin

text \<open>
  The receiver on concrete documents: a configuration, a deployment request, a recovery across the
  successor gap, an archive, and the run of a deployment from the forced command to the exit code.
\<close>

section \<open>The library\<close>

text \<open>A decoder that knows the listed documents, and a digest that gives the listed values.\<close>

definition no_float :: "rat \<Rightarrow> string" where
  "no_float q = ''0.5''"

definition text_of :: "(string \<times> pyval) list \<Rightarrow> string" where
  "text_of d = canonical_json no_float (PDict d)"

definition sample_library ::
  "(string \<times> pyval) list list \<Rightarrow> (string \<times> string) list \<Rightarrow> library" where
  "sample_library documents digests =
     \<lparr>lb_loads = (\<lambda>s. map_option PDict (find (\<lambda>d. text_of d = s) documents)), lb_float = no_float,
      lb_sha256 = (\<lambda>s. case map_of digests s of None \<Rightarrow> replicate 64 (CHR ''a'') | Some h \<Rightarrow> h),
      lb_nfc = (\<lambda>s. s), lb_casefold = lower\<rparr>"

definition document_file :: "(string \<times> pyval) list \<Rightarrow> nat option \<Rightarrow> node option" where
  "document_file d mode = Some (Regular (text_of d) mode)"

section \<open>A configuration\<close>

definition check_value :: "string \<times> int list \<Rightarrow> pyval" where
  "check_value c = PDict [(''statuses'', PList (map PInt (snd c))), (''url'', PStr (ORIGIN @ fst c))]"

definition sample_settings :: "(string \<times> pyval) list" where
  "sample_settings =
     [(''schema_version'', PInt 2), (''repository'', PStr ''buh/platform''), (''app_dir'', PStr ''/srv/aa''),
      (''state_dir'', PStr ''/var/lib/buh''), (''backup_dir'', PStr ''/var/backups/buh''),
      (''compose_file'', PStr ''docker-compose.yml''), (''env_file'', PStr ''.env''),
      (''custom_dockerfile'', PStr ''custom.dockerfile''), (''local_settings'', PStr ''conf/local.py''),
      (''manage_py'', PStr ''/home/allianceauth/myauth/manage.py''),
      (''auth_services'', PList [PStr ''web'', PStr ''worker'', PStr ''beat'']),
      (''gunicorn_service'', PStr ''web''), (''worker_service'', PStr ''worker''),
      (''database_service'', PStr ''db''), (''redis_service'', PStr ''redis''), (''proxy_service'', PStr ''proxy''),
      (''setup_arguments'', PDict [(''migrate'', PList [PStr ''--noinput''])]),
      (''smoke_checks'', PList (map check_value REQUIRED_SMOKE_CHECK_STATUSES)),
      (''legacy_platform_version'', PStr ''0.4.0''), (''legacy_release_commit'', PStr (replicate 40 (CHR ''b''))),
      (''command_timeout_seconds'', PInt 600), (''health_attempts'', PInt 30),
      (''health_interval_seconds'', PInt 5), (''restore_tmpfs_mb'', PInt 1024),
      (''max_archive_bytes'', PInt 1048576), (''beat_service'', PStr ''beat''),
      (''nginx_upstream_file'', PStr ''conf/upstream.conf''),
      (''nginx_upstream_container_file'', PStr ''/etc/nginx/upstream.conf''), (''gunicorn_port'', PInt 8000),
      (''application_health_commands'', PList [PStr ''buh_moon_tax_status'']),
      (''required_celery_queues'', PList [PStr ''celery'']),
      (''required_celery_tasks'', PList [PStr ''buh_moon_tax.tasks.run_scheduled_audit'']),
      (''fatal_log_allowlist'', PList []), (''stabilization_seconds'', PInt 300),
      (''stabilization_interval_seconds'', PInt 15)]"

definition sample_roster :: service_roster where
  "sample_roster =
     \<lparr>sv_auth = [''web'', ''worker'', ''beat''], sv_gunicorn = ''web'', sv_worker = ''worker'',
      sv_database = ''db'', sv_redis = ''redis'', sv_proxy = ''proxy'', sv_beat = ''beat''\<rparr>"

definition sample_checks :: "smoke_check list" where
  "sample_checks = map (\<lambda>c. \<lparr>sk_url = ORIGIN @ fst c, sk_statuses = snd c\<rparr>) REQUIRED_SMOKE_CHECK_STATUSES"

definition sample_names :: contract_names where
  "sample_names =
     \<lparr>cn_health_commands = [''buh_moon_tax_status''], cn_queues = [''celery''],
      cn_tasks = [''buh_moon_tax.tasks.run_scheduled_audit''], cn_allowlist = []\<rparr>"

definition sample_directories :: directories where
  "sample_directories =
     \<lparr>dr_app = [''/'', ''srv'', ''aa''], dr_state = [''/'', ''var'', ''lib'', ''buh''],
      dr_backup = [''/'', ''var'', ''backups'', ''buh'']\<rparr>"

definition sample_plan :: traffic_plan where
  "sample_plan =
     \<lparr>tp_upstream_file = [''conf'', ''upstream.conf''], tp_upstream_container_file = ''/etc/nginx/upstream.conf'',
      tp_gunicorn_port = 8000, tp_stabilization_seconds = 300, tp_stabilization_interval_seconds = 15\<rparr>"

definition sample_limits :: host_limits where
  "sample_limits =
     \<lparr>hl_compose_file = [''docker-compose.yml''], hl_env_file = [''.env''],
      hl_custom_dockerfile = [''custom.dockerfile''], hl_local_settings = [''conf'', ''local.py''],
      hl_command_timeout_seconds = 600, hl_health_attempts = 30, hl_health_interval_seconds = 5,
      hl_restore_tmpfs_mb = 1024, hl_max_archive_bytes = 1048576\<rparr>"

definition sample_config :: receiver_config where
  "sample_config =
     make_config True sample_settings ''/home/allianceauth/myauth/manage.py'' sample_roster [(''migrate'', [''--noinput''])]
       sample_checks sample_names sample_directories sample_plan sample_limits"

lemma settings_schema: "config_schema sample_settings = Inr True"
  by code_simp

lemma settings_repository: "str_matching SAFE_REPOSITORY_RE (get_key sample_settings ''repository'')"
  by code_simp

lemma settings_manage:
  "container_path message (get_key sample_settings ''manage_py'') = Inr ''/home/allianceauth/myauth/manage.py''"
  by code_simp

lemma settings_services: "load_services True sample_settings = Inr sample_roster"
  by code_simp

lemma settings_arguments:
  "load_setup_arguments (get_key sample_settings ''setup_arguments'') = Inr [(''migrate'', [''--noinput''])]"
  by code_simp

lemma settings_checks: "load_smoke_checks True (get_key sample_settings ''smoke_checks'') = Inr sample_checks"
  by code_simp

lemma settings_names: "load_contract_names True sample_settings = Inr sample_names"
  by code_simp

lemma settings_legacy: "check_legacy_release sample_settings = Inr ()"
  by code_simp

lemma settings_directories: "load_directories sample_settings = Inr sample_directories"
  by code_simp

lemma settings_plan: "load_traffic_plan True sample_settings = Inr sample_plan"
  by code_simp

lemma settings_limits: "load_host_limits sample_settings = Inr sample_limits"
  by code_simp

lemma config_parsed: "parse_config sample_settings = Inr sample_config"
  by (simp add: parse_config_def require_def settings_schema settings_repository settings_manage settings_services
      settings_arguments settings_checks settings_names settings_legacy settings_directories settings_plan
      settings_limits sample_config_def)

text \<open>The size of a text and its first key, without writing the text out.\<close>

fun text_bound :: "pyval \<Rightarrow> int" where
  "text_bound PNone = 4"
| "text_bound (PBool b) = 5"
| "text_bound (PInt i) = int (length (show_int i))"
| "text_bound (PFloat q) = 3"
| "text_bound (PStr s) = 6 * int (length s) + 2"
| "text_bound (PList vs) = sum_list (map (\<lambda>v. text_bound v + 1) vs) + 2"
| "text_bound (PDict kvs) = sum_list (map (\<lambda>(k, v). 6 * int (length k) + text_bound v + 4) kvs) + 2"

lemma length_json_char: "length (json_char c) \<le> 6"
  by (simp add: json_char_def hex4_def)

lemma length_json_string: "int (length (json_string s)) \<le> 6 * int (length s) + 2"
proof -
  have "length (concat (map json_char s)) \<le> 6 * length s"
    by (induction s) (use length_json_char in \<open>auto simp: add_le_mono\<close>)
  then show ?thesis
    by (simp add: json_string_def)
qed

lemma length_join: "int (length (join '','' xs)) \<le> sum_list (map (\<lambda>x. int (length x) + 1) xs)"
  by (induction "'','' :: string" xs rule: join.induct) auto

text \<open>The items of a mapping, each with its key.\<close>

definition json_items :: "(string \<times> pyval) list \<Rightarrow> (string \<times> string) list" where
  "json_items kvs = map (\<lambda>(k, v). (k, json_string k @ '':'' @ json_text no_float v)) kvs"

lemma json_text_dict:
  "json_text no_float (PDict kvs) = ''{'' @ join '','' (map snd (sort_key fst (json_items kvs))) @ ''}''"
  by (simp add: json_items_def)

lemma length_json_text: "int (length (json_text no_float v)) \<le> text_bound v"
proof (induction v)
  case (PList vs)
  then have "sum_list (map (\<lambda>v. int (length (json_text no_float v)) + 1) vs) \<le> sum_list (map (\<lambda>v. text_bound v + 1) vs)"
    by (intro sum_list_mono) simp
  then show ?case
    using length_join [of "map (json_text no_float) vs"] by (simp add: comp_def)
next
  case (PDict kvs)
  have "int (length (json_string k @ '':'' @ json_text no_float v)) \<le> 6 * int (length k) + text_bound v + 3"
    if "(k, v) \<in> set kvs" for k v
    using that PDict [OF that, of v] length_json_string [of k] by (simp add: snds.simps)
  then have "sum_list (map (\<lambda>x. int (length (snd x)) + 1) (json_items kvs))
      \<le> sum_list (map (\<lambda>(k, v). 6 * int (length k) + text_bound v + 4) kvs)"
    by (fastforce simp: json_items_def comp_def intro!: sum_list_mono)
  moreover have "int (length (join '','' (map snd (sort_key fst (json_items kvs)))))
      \<le> sum_list (map (\<lambda>x. int (length (snd x)) + 1) (json_items kvs))"
    using length_join [of "map snd (sort_key fst (json_items kvs))"]
    by (simp add: comp_def sum_list_sort_key)
  ultimately show ?case
    by (simp add: json_text_dict del: json_text.simps)
qed (use length_json_string in \<open>auto simp: no_float_def\<close>)

lemma length_text_of: "int (length (text_of d)) \<le> text_bound (PDict d) + 1"
  using length_json_text [of "PDict d"] by (simp add: text_of_def canonical_json_def)

lemma text_of_nonempty: "text_of d \<noteq> []"
  by (simp add: text_of_def canonical_json_def)

text \<open>The text of a mapping starts with its least key.\<close>

lemma fst_json_items: "map fst (json_items d) = map fst d"
  by (auto simp: json_items_def)

lemma text_of_start:
  assumes "k \<in> set (map fst d)" and "list_all (\<lambda>k'. k \<le> k') (map fst d)"
  shows "starts_with (text_of d) (CHR ''{'' # json_string k)"
proof -
  have keys: "set (map fst (sort_key fst (json_items d))) = set (map fst d)"
    using fst_json_items [of d] by (metis set_map set_sort)
  then obtain h hs where h: "sort_key fst (json_items d) = h # hs"
    using assms(1) by (cases "sort_key fst (json_items d)") auto
  have "sorted (map fst (h # hs))"
    unfolding h [symmetric] by (rule sorted_sort_key)
  moreover have "k \<in> set (map fst (h # hs))"
    using keys assms(1) unfolding h by blast
  ultimately have "fst h \<le> k"
    by auto
  moreover have "fst h \<in> set (map fst d)"
    using keys unfolding h by auto
  then have "k \<le> fst h"
    using assms(2) by (auto simp: list_all_iff)
  moreover have "h \<in> set (json_items d)"
    by (metis h list.set_intros(1) set_sort)
  ultimately obtain v where "h = (k, json_string k @ '':'' @ json_text no_float v)"
    by (auto simp: json_items_def)
  with h show ?thesis
    by (cases hs) (simp_all add: text_of_def canonical_json_def json_text_dict starts_with_def del: json_text.simps)
qed

lemma settings_size: "text_bound (PDict sample_settings) < 64 * 1024"
  by (simp add: sample_settings_def check_value_def REQUIRED_SMOKE_CHECK_STATUSES_def ORIGIN_def
      show_int_def show_nat.simps)


text \<open>Reading a listed document: what is left to check is its size.\<close>

lemma sample_library_simps [simp]:
  "lb_float (sample_library ds hs) = no_float" "lb_nfc (sample_library ds hs) = (\<lambda>s. s)"
  "lb_casefold (sample_library ds hs) = lower"
  by (simp_all add: sample_library_def)

lemma known_document:
  assumes "list_all (\<lambda>d'. text_of d' \<noteq> text_of d) before"
  shows "lb_loads (sample_library (before @ d # after) hs) (text_of d) = Some (PDict d)"
  using assms by (induction before) (auto simp: sample_library_def)

lemma load_document:
  assumes "list_all (\<lambda>d'. text_of d' \<noteq> text_of d) before" and "text_bound (PDict d) < int limit"
  shows "load_json (sample_library (before @ d # after) hs) (document_file d mode) limit place = Inr d"
proof -
  have "length (text_of d) \<le> limit"
    using length_text_of [of d] assms(2) by linarith
  then show ?thesis
    using known_document [OF assms(1)]
    by (simp add: load_json_def document_file_def text_of_nonempty require_def) (simp add: text_of_def)
qed

lemma config_loaded:
  "load_config (sample_library (sample_settings # ds) hs) (document_file sample_settings None) = Inr sample_config"
  using load_document [of sample_settings "[]" "64 * 1024" ds hs] settings_size config_parsed
  by (simp add: load_config_def)

section \<open>A request\<close>

definition sample_order :: "string \<Rightarrow> (string \<times> pyval) list" where
  "sample_order mode =
     [(''schema_version'', PInt 1), (''mode'', PStr mode), (''repository'', PStr ''buh/platform''),
      (''release_commit'', PStr (replicate 40 (CHR ''c''))), (''release_ref'', PStr ''release/platform-v4.2.0''),
      (''platform_version'', PStr ''4.2.0''), (''manifest_sha256'', PStr (replicate 64 (CHR ''a''))),
      (''workflow_run_id'', PStr ''71''), (''workflow_run_attempt'', PInt 1)]"

definition sample_request :: "string \<Rightarrow> deployment_request" where
  "sample_request mode =
     \<lparr>rq_mode = mode, rq_repository = ''buh/platform'', rq_release_commit = replicate 40 (CHR ''c''),
      rq_release_ref = ''release/platform-v4.2.0'', rq_platform_version = ''4.2.0'',
      rq_manifest_sha256 = replicate 64 (CHR ''a''), rq_workflow_run_id = ''71'', rq_workflow_run_attempt = 1,
      rq_recovery_transition = None\<rparr>"

lemma settings_start: "starts_with (text_of sample_settings) (CHR ''{'' # json_string ''app_dir'')"
  by (rule text_of_start; code_simp)

lemma order_start: "starts_with (text_of (sample_order mode)) (CHR ''{'' # json_string ''manifest_sha256'')"
  by (rule text_of_start; code_simp)


lemma starts_with_nth: "starts_with s p \<Longrightarrow> n < length p \<Longrightarrow> s ! n = p ! n"
  by (metis nth_take starts_with_def)

lemma settings_not_order: "text_of sample_settings \<noteq> text_of (sample_order mode)"
proof -
  have "text_of sample_settings ! 2 = (CHR ''{'' # json_string ''app_dir'') ! 2"
    and "text_of (sample_order mode) ! 2 = (CHR ''{'' # json_string ''manifest_sha256'') ! 2"
    by (intro starts_with_nth settings_start order_start, simp add: json_string_def json_char_def)+
  moreover have "(CHR ''{'' # json_string ''app_dir'') ! 2 \<noteq> (CHR ''{'' # json_string ''manifest_sha256'') ! 2"
    by code_simp
  ultimately show ?thesis
    by metis
qed

lemma order_fields:
  "get_key (sample_order mode) ''schema_version'' = PInt 1" "get_key (sample_order mode) ''mode'' = PStr mode"
  "get_key (sample_order mode) ''repository'' = PStr ''buh/platform''"
  "get_key (sample_order mode) ''release_commit'' = PStr (replicate 40 (CHR ''c''))"
  "get_key (sample_order mode) ''release_ref'' = PStr ''release/platform-v4.2.0''"
  "get_key (sample_order mode) ''platform_version'' = PStr ''4.2.0''"
  "get_key (sample_order mode) ''manifest_sha256'' = PStr (replicate 64 (CHR ''a''))"
  "get_key (sample_order mode) ''workflow_run_id'' = PStr ''71''"
  "get_key (sample_order mode) ''workflow_run_attempt'' = PInt 1"
  by (simp_all add: sample_order_def get_key_def)

lemma order_keys: "strict_keys place request_fields request_fields (sample_order mode) = Inr ()"
  by (simp add: strict_keys_def sample_order_def request_fields_def require_def)

lemma order_texts:
  "SAFE_REPOSITORY_RE ''buh/platform''" "COMMIT_RE (replicate 40 (CHR ''c''))" "SEMVER_RE ''4.2.0''"
  "release_ref ''4.2.0'' = ''release/platform-v4.2.0''" "sha256_text (replicate 64 (CHR ''a''))" "run_id_re ''71''"
  by code_simp+

lemma request_loaded:
  assumes "mode \<in> {''preflight'', ''deploy''}"
  shows "load_request (sample_library (sample_settings # sample_order mode # ds) hs) policy
      (document_file (sample_order mode) file_mode) = Inr (sample_request mode)"
proof -
  have "text_bound (PDict (sample_order mode)) < int MAX_REQUEST_BYTES"
    using assms by (auto simp: sample_order_def MAX_REQUEST_BYTES_def show_int_def show_nat.simps)
  then have "load_json (sample_library (sample_settings # sample_order mode # ds) hs)
      (document_file (sample_order mode) file_mode) MAX_REQUEST_BYTES ''deployment request'' = Inr (sample_order mode)"
    using load_document [of "sample_order mode" "[sample_settings]" MAX_REQUEST_BYTES ds hs file_mode "''deployment request''"]
      settings_not_order by simp
  then show ?thesis
    using assms unfolding load_request_def
    by (auto simp: Let_def order_fields order_keys order_texts str_matching_def require_def sample_request_def hashable_def)
qed

section \<open>An archive\<close>

definition sample_member :: "string \<Rightarrow> member_kind \<Rightarrow> string \<Rightarrow> member" where
  "sample_member name kind content =
     \<lparr>mb_name = name, mb_pax = False, mb_kind = kind, mb_size = int (length content),
      mb_stream = Some content, mb_fault = None\<rparr>"

definition sample_members :: "string \<Rightarrow> member list" where
  "sample_members mode =
     [sample_member ''release/'' Directory_Member '''', sample_member ''REQUEST.json'' File_Member (text_of (sample_order mode)),
      sample_member ''release/RELEASE.json'' File_Member ''{}'', sample_member ''release/INSTALL_PLAN.json'' File_Member (text_of [])]"

definition sample_reader :: "string \<Rightarrow> tar_reader" where
  "sample_reader mode = \<lparr>tar_open = (\<lambda>_. Opened), tar_members = (\<lambda>_. Inr (sample_members mode))\<rparr>"

definition sound_disk :: "nat \<Rightarrow> exn option" where
  "sound_disk n = None"

definition sample_tree :: "string \<Rightarrow> tree" where
  "sample_tree mode =
     \<lparr>tree_nodes =
        [([''release'', ''INSTALL_PLAN.json''], Regular (text_of []) (Some 420)),
         ([''release'', ''RELEASE.json''], Regular ''{}'' (Some 420)), ([''release''], Directory),
         ([''REQUEST.json''], Regular (text_of (sample_order mode)) (Some 384)), ([], Directory)],
      tree_calls = 13\<rparr>"

lemma sound_call [simp]: "os_call sound_disk t = (Inr (), t\<lparr>tree_calls := Suc (tree_calls t)\<rparr>)"
  by (simp add: os_call_def sound_disk_def)

lemma copy_whole:
  assumes "content \<noteq> []" and "length content \<le> 1024 * 1024" and "mb_fault m = None"
  shows "copy_stream disk m p (length content) content = seq (write_bytes disk p content) (\<lambda>_. give [])"
  using assms by (subst copy_stream.simps) (simp add: copy_stream.simps [of disk m p 0] min_def)

lemma nodes_changed_absent: "map_of nodes p = None \<Longrightarrow> nodes_changed p f nodes = nodes"
  by (induction p f nodes rule: nodes_changed.induct) (auto split: if_splits)

lemma directory_made:
  "node_at t p = None \<Longrightarrow> make_directory sound_disk p ok t
     = (Inr (), t\<lparr>tree_calls := Suc (tree_calls t), tree_nodes := (p, Directory) # tree_nodes t\<rparr>)"
  "node_at t p = Some Directory \<Longrightarrow> make_directory sound_disk p True t = (Inr (), t\<lparr>tree_calls := Suc (tree_calls t)\<rparr>)"
  by (simp_all add: make_directory_def seq_def node_at_def add_node_def)

lemma file_opened:
  "node_at t p = None \<Longrightarrow> open_new sound_disk p t
     = (Inr (), t\<lparr>tree_calls := Suc (tree_calls t), tree_nodes := (p, Regular [] None) # tree_nodes t\<rparr>)"
  by (simp add: open_new_def seq_def node_at_def add_node_def)

lemma node_changed:
  assumes "tree_nodes t = (p, n) # nodes" and "map_of nodes p = None"
  shows "write_bytes sound_disk p chunk t
      = (Inr (), t\<lparr>tree_calls := Suc (tree_calls t), tree_nodes := (p, append_bytes chunk n) # nodes\<rparr>)"
    and "change_mode sound_disk p mode t
      = (Inr (), t\<lparr>tree_calls := Suc (tree_calls t), tree_nodes := (p, set_mode mode n) # nodes\<rparr>)"
  using assms by (simp_all add: write_bytes_def change_mode_def change_node_def seq_def nodes_changed_absent)

text \<open>A file that fits in one chunk; its directory is made when it is not there.\<close>

lemma write_sample_member:
  assumes "content \<noteq> []" and "length content \<le> 1024 * 1024" and "path_parts name = p"
    and "p \<noteq> []" and "node_at t p = None" and "node_at t (butlast p) \<in> {None, Some Directory}"
  shows "write_member sound_disk (sample_member name File_Member content) t = (Inr (),
    \<lparr>tree_nodes = (p, Regular content (Some (if name = ''REQUEST.json'' then 384 else 420)))
         # (if node_at t (butlast p) = None then [(butlast p, Directory)] else []) @ tree_nodes t,
      tree_calls = tree_calls t + 4\<rparr>)"
proof -
  let ?m = "sample_member name File_Member content"
  define nodes where
    "nodes = (if node_at t (butlast p) = None then [(butlast p, Directory)] else []) @ tree_nodes t"
  have "butlast p \<noteq> p"
    using assms(4) by (metis append_butlast_last_id list.distinct(1) self_append_conv)
  then have absent: "map_of nodes p = None"
    using assms(5) by (simp add: nodes_def node_at_def)
  have dir: "make_directory sound_disk (butlast p) True t
      = (Inr (), \<lparr>tree_nodes = nodes, tree_calls = Suc (tree_calls t)\<rparr>)"
    using assms(6) directory_made by (auto simp: nodes_def)
  have opened: "open_new sound_disk p \<lparr>tree_nodes = nodes, tree_calls = k\<rparr>
      = (Inr (), \<lparr>tree_nodes = (p, Regular [] None) # nodes, tree_calls = Suc k\<rparr>)" for k
    using absent by (simp add: file_opened node_at_def)
  have copied: "copy_stream sound_disk ?m p (nat (mb_size ?m)) content \<lparr>tree_nodes = (p, Regular [] None) # nodes, tree_calls = k\<rparr>
      = (Inr [], \<lparr>tree_nodes = (p, Regular content None) # nodes, tree_calls = Suc k\<rparr>)" for k
    using copy_whole [OF assms(1,2), of ?m sound_disk p] absent
    by (simp add: sample_member_def seq_def node_changed(1))
  show ?thesis
    using dir opened copied absent assms(3)
    by (simp add: write_member_def seq_def node_changed(2) sample_member_def flip: nodes_def)
qed

lemma member_paths:
  "path_parts ''release/'' = [''release'']" "path_parts ''REQUEST.json'' = [''REQUEST.json'']"
  "path_parts ''release/RELEASE.json'' = [''release'', ''RELEASE.json'']"
  "path_parts ''release/INSTALL_PLAN.json'' = [''release'', ''INSTALL_PLAN.json'']"
  by code_simp+

lemma member_keys:
  "lower ''release/'' = ''release/''" "lower ''REQUEST.json'' = ''request.json''"
  "lower ''release/RELEASE.json'' = ''release/release.json''"
  "lower ''release/INSTALL_PLAN.json'' = ''release/install_plan.json''"
  by code_simp+

text \<open>The three files fit: none is longer than the bound of its text.\<close>

lemma small_files:
  assumes "mode \<in> {''preflight'', ''deploy''}"
  shows "length (text_of (sample_order mode)) \<le> 10000" and "length (text_of []) \<le> 10"
proof -
  have "text_bound (PDict (sample_order mode)) < 10000"
    using assms by (auto simp: sample_order_def show_int_def show_nat.simps)
  then show "length (text_of (sample_order mode)) \<le> 10000"
    using length_text_of [of "sample_order mode"] by linarith
  show "length (text_of []) \<le> 10"
    using length_text_of [of "[]"] by simp
qed

lemma sample_members_extracted:
  assumes "mode \<in> {''preflight'', ''deploy''}"
  shows "extract_members (sample_library ds hs) sound_disk [] 0 (sample_members mode)
      \<lparr>tree_nodes = [([], Directory)], tree_calls = 1\<rparr> = (Inr (), sample_tree mode)"
proof -
  note checks = check_member_def member_name_ok_def check_member_path_def require_def check_file_def member_paths member_keys
  have member: "mb_name (sample_member name kind content) = name" "mb_pax (sample_member name kind content) = False"
    "mb_kind (sample_member name kind content) = kind" "mb_size (sample_member name kind content) = int (length content)"
    for name kind content
    by (simp_all add: sample_member_def)
  have sizes: "0 < length (text_of (sample_order mode))" "0 < length (text_of [])"
    by (simp_all add: text_of_nonempty)
  show ?thesis
    using small_files [OF assms] sizes
    by (simp add: Let_def sample_members_def member checks seq_def MAX_FILE_BYTES_def MAX_EXPANDED_BYTES_def
        write_sample_member member_paths node_at_def text_of_nonempty sample_tree_def starts_with_def)
qed

lemma sample_archive_extracted:
  assumes "mode \<in> {''preflight'', ''deploy''}"
  shows "extract_archive (sample_library ds hs) (sample_reader mode) sound_disk bytes \<lparr>tree_nodes = [], tree_calls = 0\<rparr>
      = (Inr (), sample_tree mode)"
  using sample_members_extracted [OF assms]
  by (simp add: extract_archive_def directory_made node_at_def seq_def sample_reader_def require_def lift_result_def
      MAX_ARCHIVE_MEMBERS_def sample_members_def) (simp add: sample_tree_def)

section \<open>A validated bundle\<close>

definition sample_manifest :: "(string \<times> pyval) list" where
  "sample_manifest =
     [(''platform_id'', PStr ''buh-allianceauth''), (''platform_version'', PStr ''4.2.0''),
      (''source_commit'', PStr (replicate 40 (CHR ''d'')))]"

definition sample_validator :: validator where
  "sample_validator = \<lparr>va_release = (\<lambda>t. Inr sample_manifest), va_manifest = (\<lambda>v. True)\<rparr>"

definition site_library :: "string \<Rightarrow> library" where
  "site_library mode = sample_library [sample_settings, sample_order mode, []] []"

definition sample_validated :: "string \<Rightarrow> validated_bundle" where
  "sample_validated mode =
     \<lparr>vb_request = sample_request mode, vb_manifest = sample_manifest, vb_install_plan = PDict [], vb_lineage = []\<rparr>"

lemma empty_text: "text_of [] = [CHR ''{'', CHR ''}'', LF]"
  by (simp add: text_of_def canonical_json_def)

lemma not_empty_text: "text_of sample_settings \<noteq> text_of []" "text_of (sample_order mode) \<noteq> text_of []"
  using starts_with_nth [OF settings_start, of 1] starts_with_nth [OF order_start, of 1 mode]
  by (auto simp: empty_text json_string_def)

lemma plan_loaded: "lb_loads (site_library mode) (text_of []) = Some (PDict [])"
  using known_document [of "[]" "[sample_settings, sample_order mode]" "[]" "[]"] not_empty_text
  by (simp add: site_library_def)

lemma repository_agrees: "rc_repository sample_config = ''buh/platform''"
  by (simp add: sample_config_def make_config_def sample_settings_def get_key_def)

lemma bundle_loaded:
  assumes "mode \<in> {''preflight'', ''deploy''}"
  shows "load_validated_bundle (site_library mode) policy sample_validator (sample_tree mode) sample_config
      = Inr (sample_validated mode)"
proof -
  have "load_request (site_library mode) policy (node_at (sample_tree mode) [''REQUEST.json'']) = Inr (sample_request mode)"
    using request_loaded [OF assms, of "[[]]" "[]" policy "Some 384"]
    by (simp add: site_library_def node_at_def sample_tree_def document_file_def)
  moreover have "sha256_file (site_library mode) (node_at (sample_tree mode) [''release'', ''RELEASE.json''])
      = Inr (replicate 64 (CHR ''a''))"
    by (simp add: sha256_file_def node_at_def sample_tree_def site_library_def sample_library_def)
  moreover have "list_all is_ascii (text_of [])"
    by (simp add: empty_text) code_simp
  ultimately show ?thesis
    using plan_loaded [of mode]
    by (simp add: load_validated_bundle_def Let_def require_def repository_agrees sample_request_def sample_validator_def
        sample_manifest_def get_key_def node_at_def sample_tree_def sample_validated_def)
qed

section \<open>A site\<close>

definition private_folder :: stat_result where
  "private_folder = \<lparr>st_kind = Folder, st_uid = 0, st_mode = 448, st_dev = 1, st_ino = 7\<rparr>"

definition lock_details :: stat_result where
  "lock_details = \<lparr>st_kind = Plain_File, st_uid = 0, st_mode = 384, st_dev = 1, st_ino = 8\<rparr>"

definition sample_lock :: lock_host where
  "sample_lock =
     \<lparr>lk_euid = 0, lk_lstat = (\<lambda>p. Some private_folder), lk_stat = (\<lambda>p. Some lock_details), lk_fstat = (\<lambda>fd. None),
      lk_dup = None, lk_prepare = None, lk_open = Inr (Inr lock_details), lk_flock = Taken\<rparr>"

definition sample_site :: "string \<Rightarrow> nat site" where
  "sample_site mode =
     \<lparr>si_command = mode @ '' platform-v2'', si_config = document_file sample_settings None, si_policy = None,
      si_lock = sample_lock, si_stdin = ''archive'', si_library = site_library mode, si_reader = sample_reader mode,
      si_validator = sample_validator, si_disk = sound_disk, si_make_temporary = None, si_remove_temporary = None,
      si_load_plan = (\<lambda>c w. (Inr None, w)),
      si_complete_plan = (\<lambda>p w. (Inr (), w)), si_rollback_plan = (\<lambda>p w ptr. (Inr '''', w, ptr)), si_make_host = (\<lambda>c w. (Inr (), w)), si_host = sample_host\<rparr>"

definition sample_process :: "nat process" where
  "sample_process = \<lparr>pr_locks = 0, pr_read = False, pr_tree = None, pr_machine = deploying\<rparr>"

lemma sample_willing_any: "willing sample_host b"
  using sample_evidence_checks sample_evidence_success
  by (auto simp: willing_def answers_def sample_host_def fine_def good_evidence_def)

lemma site_forced:
  "forced_mode (si_command (sample_site ''deploy'')) None = Inr ''deploy''"
  "forced_mode (si_command (sample_site ''preflight'')) None = Inr ''preflight''"
  by (simp_all add: sample_site_def forced_mode_def COMMANDS_def)

lemma config_directories:
  "rc_state_dir sample_config = [''/'', ''var'', ''lib'', ''buh'']"
  "rc_backup_dir sample_config = [''/'', ''var'', ''backups'', ''buh'']"
  "rc_max_archive_bytes sample_config = 1048576"
  by (simp_all add: sample_config_def make_config_def sample_directories_def sample_limits_def)

lemma site_directories: "verify_directories sample_lock sample_config = Inr ()"
proof -
  have "ancestor_safe private_folder" "\<not> shared_access (st_mode private_folder)"
    by code_simp+
  then show ?thesis
    by (simp add: verify_directories_def verify_ancestors_def config_directories sample_lock_def require_def
        ancestors_def upt_rec starts_with_def) (simp add: private_folder_def)
qed

end
