(* ===== verification/Receiver_Witnesses.thy ===== *)
theory Receiver_Witnesses
  imports Receiver_Samples
begin

text \<open>The properties of the receiver at the sample documents.\<close>

section \<open>Documents\<close>

lemma config_services_separate_witness:
  "\<exists>c. load_config (site_library ''deploy'') (document_file sample_settings None) = Inr c
    \<and> distinct (rc_auth_services c) \<and> rc_beat_service c \<noteq> rc_gunicorn_service c"
proof -
  have loaded: "load_config (site_library ''deploy'') (document_file sample_settings None) = Inr sample_config"
    unfolding site_library_def by (rule config_loaded)
  show ?thesis
    using config_services_separate [OF loaded] loaded by auto
qed

lemma config_checks_production_witness:
  "\<exists>c. load_config (site_library ''deploy'') (document_file sample_settings None) = Inr c
    \<and> distinct (map check_route (rc_smoke_checks c))"
proof -
  have loaded: "load_config (site_library ''deploy'') (document_file sample_settings None) = Inr sample_config"
    unfolding site_library_def by (rule config_loaded)
  show ?thesis
    using config_checks_production [OF loaded] loaded by auto
qed

lemma attempt_identity_unique_witness:
  "\<exists>q q'. load_request (site_library ''deploy'') None (document_file (sample_order ''deploy'') None) = Inr q
    \<and> load_request (site_library ''preflight'') None (document_file (sample_order ''preflight'') None) = Inr q'
    \<and> rq_mode q \<noteq> rq_mode q' \<and> rq_workflow_run_attempt q = rq_workflow_run_attempt q'"
proof -
  have loaded: "load_request (site_library ''deploy'') None (document_file (sample_order ''deploy'') None) = Inr (sample_request ''deploy'')"
    "load_request (site_library ''preflight'') None (document_file (sample_order ''preflight'') None) = Inr (sample_request ''preflight'')"
    by (simp_all add: site_library_def request_loaded)
  have "attempt_id (sample_request ''deploy'') = attempt_id (sample_request ''preflight'')"
    by (simp add: attempt_id_def sample_request_def)
  from attempt_identity_unique [OF loaded this] loaded show ?thesis
    by (simp add: sample_request_def)
qed

lemma extract_archive_exact_witness:
  "\<exists>t'. extract_archive (site_library ''deploy'') (sample_reader ''deploy'') sound_disk ''archive'' \<lparr>tree_nodes = [], tree_calls = 0\<rparr>
      = (Inr (), t')
    \<and> is_regular (node_at t' [''REQUEST.json'']) \<and> node_at t' [''release''] = Some Directory"
proof -
  have run: "extract_archive (site_library ''deploy'') (sample_reader ''deploy'') sound_disk ''archive'' \<lparr>tree_nodes = [], tree_calls = 0\<rparr>
      = (Inr (), sample_tree ''deploy'')"
    by (simp add: site_library_def sample_archive_extracted)
  have "tar_members (sample_reader ''deploy'') ''archive'' = Inr (sample_members ''deploy'')"
    "sample_member ''release/RELEASE.json'' File_Member ''{}'' \<in> set (sample_members ''deploy'')"
    "mb_kind (sample_member ''release/RELEASE.json'' File_Member ''{}'') \<noteq> Directory_Member"
    by (simp_all add: sample_reader_def sample_members_def) (simp add: sample_member_def)
  from extract_archive_exact [OF run this] run show ?thesis
    by blast
qed

section \<open>Runs\<close>

text \<open>The deployment of the sample request succeeds.\<close>

lemma site_facts:
  "calm (si_host (sample_site mode))" "willing (si_host (sample_site mode)) b"
  "load_config (si_library (sample_site mode)) (si_config (sample_site mode)) = Inr sample_config"
  "verify_directories (si_lock (sample_site mode)) sample_config = Inr ()"
  "lk_open (si_lock (sample_site mode)) = Inr (Inr lock_details)" "lock_file_ok lock_details"
  "lk_flock (si_lock (sample_site mode)) = Taken"
  "fst (si_load_plan (sample_site mode) c w) = Inr None" "fst (si_make_host (sample_site mode) c w) = Inr ()"
  "read_bounded_stream (si_stdin (sample_site mode)) (rc_max_archive_bytes sample_config) = Inr ''archive''"
  "si_make_temporary (sample_site mode) = None" "si_remove_temporary (sample_site mode) = None"
  using site_directories
  by (simp_all add: sample_site_def sample_calm sample_willing_any site_library_def config_loaded config_directories
      read_bounded_stream_def) (simp_all add: sample_lock_def lock_file_ok_def lock_details_def)

lemma site_bundle:
  assumes "mode \<in> {''preflight'', ''deploy''}"
  shows "extract_archive (si_library (sample_site mode)) (si_reader (sample_site mode)) (si_disk (sample_site mode)) bytes
      \<lparr>tree_nodes = [], tree_calls = 0\<rparr> = (Inr (), sample_tree mode)"
    and "load_validated_bundle (si_library (sample_site mode)) (si_policy (sample_site mode)) (si_validator (sample_site mode))
      (sample_tree mode) sample_config = Inr (sample_validated mode)"
  using bundle_loaded [OF assms] sample_archive_extracted [OF assms]
  by (simp_all add: sample_site_def site_library_def)

lemma receiver_fresh: "attempt_on (mc_disk (pr_machine sample_process)) any = None"
  by (simp add: sample_process_def sample_machine_def attempt_on_def)

lemma sample_received:
  "\<exists>s'. receive (sample_site ''deploy'') None None sample_process
    = (Inr (report_of (si_library (sample_site ''deploy'')) ''verified'' (sample_validated ''deploy'')), s')"
  by (rule receive_delivers [OF site_facts(1,2) site_forced(1) site_facts(3-12) site_bundle])
    (simp_all add: sample_validated_def sample_request_def receiver_fresh)

lemma sample_succeeds: "\<exists>said s'. main (sample_site ''deploy'') None None sample_process = ((0, said), s')"
  using sample_received by (auto simp: main_def exit_of_def)

lemma receiver_delivers_witness:
  "\<exists>report s'. main (sample_site ''deploy'') None None sample_process = ((0, Printed report), s')
    \<and> or_platform_version report = ''4.2.0''"
proof -
  have "rq_mode (vb_request (sample_validated ''deploy'')) = ''deploy''"
    by (simp add: sample_validated_def sample_request_def)
  from receiver_delivers [OF site_facts(1,2) site_forced(1) site_facts(3-12) site_bundle this receiver_fresh] show ?thesis
    by (auto simp: sample_validated_def sample_request_def)
qed

lemma receiver_success_is_deployed_witness:
  "\<exists>s' p. main (sample_site ''deploy'') None None sample_process
      = ((0, Printed (report_of (site_library ''deploy'') ''verified'' (sample_validated ''deploy''))), s')
    \<and> ds_current (mc_disk (pr_machine s')) = Some p \<and> pt_manifest_sha256 p = rq_manifest_sha256 (sample_request ''deploy'')"
proof -
  obtain said s' where run: "main (sample_site ''deploy'') None None sample_process = ((0, said), s')"
    using sample_succeeds by blast
  have one: "c = sample_config \<Longrightarrow> archive_of (sample_site ''deploy'') bytes t \<Longrightarrow>
      load_validated_bundle (si_library (sample_site ''deploy'')) (si_policy (sample_site ''deploy''))
        (si_validator (sample_site ''deploy'')) t c = Inr b \<Longrightarrow> b = sample_validated ''deploy''" for c bytes t b
    using site_bundle [of "''deploy''"] by (simp add: archive_of_def)
  from receiver_success_is_deployed [OF run site_forced(1)] site_facts(3) [of "''deploy''"] obtain b p where
    "b = sample_validated ''deploy''" "ds_current (mc_disk (pr_machine s')) = Some p"
    "pt_manifest_sha256 p = rq_manifest_sha256 (vb_request b)"
    "said = Printed \<lparr>or_result = ''verified'', or_platform_version = rq_platform_version (vb_request b),
        or_manifest_sha256 = rq_manifest_sha256 (vb_request b),
        or_recovery_sha256 = map_option (\<lambda>tr. lb_sha256 (si_library (sample_site ''deploy''))
            (canonical_json (lb_float (si_library (sample_site ''deploy''))) (transition_value tr)))
            (rq_recovery_transition (vb_request b))\<rparr>"
    using one by auto
  with run show ?thesis
    by (simp add: report_of_def recovery_sha256_def sample_validated_def sample_site_def split: option.split)
qed

lemma receiver_runs_only_validated_witness:
  "\<exists>out s' c. main (sample_site ''deploy'') None None sample_process = (out, s')
    \<and> mc_trace (pr_machine s') \<noteq> [] \<and> verify_directories sample_lock c = Inr ()"
proof -
  obtain rep s' where run: "receive (sample_site ''deploy'') None None sample_process = (Inr rep, s')"
    using sample_received by blast
  then have main: "main (sample_site ''deploy'') None None sample_process = (exit_of (Inr rep), s')"
    by (simp add: main_def)
  have "mc_trace (pr_machine s') \<noteq> mc_trace (pr_machine sample_process)"
    by (rule receive_acts [OF run site_forced(1)])
  from receiver_runs_only_validated [OF main this] main this show ?thesis
    by (auto simp: sample_process_def sample_site_def)
qed

text \<open>The same key where an attempt had died while the traffic was being switched.\<close>

definition dead_plan :: incomplete_plan where
  "dead_plan = \<lparr>ip_attempt_id = ''gh-7-1'', ip_phase = ''traffic-switched''\<rparr>"

definition interrupted_site :: "nat site" where
  "interrupted_site = (sample_site ''preflight'')\<lparr>si_load_plan := (\<lambda>c w. (Inr (Some dead_plan), w))\<rparr>"

lemma interrupted_facts:
  "si_command interrupted_site = si_command (sample_site ''preflight'')"
  "load_config (si_library interrupted_site) (si_config interrupted_site) = Inr sample_config"
  "si_lock interrupted_site = si_lock (sample_site ''preflight'')"
  "si_load_plan interrupted_site c w = (Inr (Some dead_plan), w)"
  "si_rollback_plan interrupted_site p w ptr = (Inr '''', w, ptr)"
  using site_facts(3) [of "''preflight''"] by (simp_all add: interrupted_site_def sample_site_def)

lemma interrupted_run:
  "\<exists>out s'. main interrupted_site None None sample_process = (out, s')
    \<and> mc_trace (pr_machine s') = mc_trace (pr_machine sample_process) @ [Called (Rollback (Some ''traffic-switched''))]"
proof -
  have lock: "open_lock (si_lock interrupted_site) sample_config None sample_process
      = (Inr (), sample_process\<lparr>pr_locks := Suc (pr_locks sample_process)\<rparr>)"
    using site_facts(4,5,7) [of "''preflight''"] site_facts(6) by (intro open_lock_taken) (simp_all add: interrupted_facts)
  have "\<not> attempt_verified dead_plan (mc_disk (pr_machine sample_process))" "ip_attempt_id dead_plan \<noteq> RETAINED_ATTEMPT"
    by (simp_all add: attempt_verified_def receiver_fresh) (simp add: dead_plan_def RETAINED_ATTEMPT_def)
  then show ?thesis
    using lock site_forced(2)
    by (simp add: main_def receive_def interrupted_facts seq_def finally_do_def receive_locked_def on_machine_def
        recover_incomplete_plan_def on_world_def rollback_plan_def log_event_def refuse_after_recovery_def locks_def
        dead_plan_def)
qed

lemma receiver_mode_confined_witness:
  "(\<exists>out s'. main (sample_site ''preflight'') None None sample_process = (out, s')
      \<and> set (called (mc_trace (pr_machine s'))) \<subseteq> {Validate, Prepare_Candidate, Rollback (Some ''validated'')}
      \<and> ds_current (mc_disk (pr_machine s')) = None)
   \<and> (\<exists>out s'. main interrupted_site None None sample_process = (out, s') \<and> fst out \<noteq> 0 \<and> \<not> pr_read s'
      \<and> called (mc_trace (pr_machine s')) = [Rollback (Some ''traffic-switched'')])"
  (is "?usual \<and> ?interrupted")
proof
  obtain out s' where run: "main (sample_site ''preflight'') None None sample_process = (out, s')"
    by fastforce
  have forced: "forced_mode (si_command (sample_site ''preflight'')) None \<noteq> Inr ''deploy''"
    "mc_trace (pr_machine s') = mc_trace (pr_machine sample_process) @ mc_trace (pr_machine s')"
    by (simp_all add: site_forced sample_process_def)
  have none: "\<not> interrupted_rolled_back (sample_site ''preflight'') c sample_process s'" for c
    by (simp add: interrupted_rolled_back_def sample_site_def)
  from receiver_mode_confined [OF run forced] none run show ?usual
    by (auto simp: sample_process_def sample_machine_def)
next
  obtain out s' where run: "main interrupted_site None None sample_process = (out, s')"
    and tr: "mc_trace (pr_machine s') = mc_trace (pr_machine sample_process) @ [Called (Rollback (Some ''traffic-switched''))]"
    using interrupted_run by blast
  have "forced_mode (si_command interrupted_site) None \<noteq> Inr ''deploy''"
    by (simp add: interrupted_facts site_forced)
  from receiver_mode_confined [OF run this tr] run tr show ?interrupted
    by (auto simp: interrupted_rolled_back_def sample_process_def)
qed

end
