(* ===== verification/Recovery_Samples.thy ===== *)
theory Recovery_Samples
  imports Receiver_Samples
begin

text \<open>
  A recovery across the successor gap: the request names the two published releases and the
  target, and the archive carries the manifests of both.
\<close>

section \<open>The documents\<close>

definition old_values :: "(string \<times> pyval) list" where
  "old_values =
     [(''applications'', PDict [(''moon-tax'', PStr ''0.8'')]),
      (''policy'', PDict [(''database_migrations_must_be_rollback_compatible'', PBool True)]),
      (''production_runtime'', PDict [(''base_image'', PStr (''python:3.11@sha256:'' @ replicate 64 (CHR ''e'')))])]"

definition next_values :: "(string \<times> pyval) list" where
  "next_values =
     (''applications'', PDict [(''moon-tax'', PStr ''0.8''), (''memberaudit-autoreg'', PStr ''0.1''), (''vps-health'', PStr ''0.1'')])
     # tl old_values"

definition old_manifest :: "(string \<times> pyval) list" where
  "old_manifest =
     [(''compatibility'', PDict [(''sha256'', PStr ''79ed7d91eea4d620d1c25fa5e6e21f8f81b885fe3c7ef397ec560f22c444ade3''),
         (''values'', PDict old_values)]),
      (''platform_version'', PStr ''0.8.0''), (''previous_release'', PNone),
      (''source_commit'', PStr ''ffe6e1b1834f0c550cff001a2b7c14cd6839256e'')]"

definition next_compatibility :: pyval where
  "next_compatibility =
     PDict [(''sha256'', PStr ''9c2bf892171a9abfa3cc0aff9a8df1e78e4e9cbc771ff282365d44fc36c8bbc4''),
       (''values'', PDict next_values)]"

definition next_manifest :: "(string \<times> pyval) list" where
  "next_manifest =
     [(''changes'', PList []), (''compatibility'', next_compatibility), (''platform_version'', PStr ''0.8.1''),
      (''previous_release'', predecessor (read_identity RELEASE_0_8_0)),
      (''source_commit'', PStr ''656f9d7bd677d14e92d20b2ca188a3cb5e316617'')]"

definition target_identity :: release_identity where
  "target_identity =
     \<lparr>ri_manifest_sha256 = replicate 64 (CHR ''a''), ri_platform_version = ''0.8.2'',
      ri_release_commit = replicate 40 (CHR ''c''), ri_release_ref = ''release/platform-v0.8.2'',
      ri_source_commit = replicate 40 (CHR ''d'')\<rparr>"

definition recovery_releases :: "release_identity list" where
  "recovery_releases = [read_identity RELEASE_0_8_0, read_identity RELEASE_0_8_1, target_identity]"

definition recovery_value :: pyval where
  "recovery_value = PDict
     [(''policy_id'', PStr V08_GAP_POLICY_ID), (''policy_sha256'', PStr (replicate 64 (CHR ''a''))),
      (''purpose'', PStr ''production-recovery''), (''releases'', PList (map identity_value recovery_releases))]"

definition recovery_order :: "(string \<times> pyval) list" where
  "recovery_order =
     [(''schema_version'', PInt 2), (''mode'', PStr ''deploy''), (''repository'', PStr ''buh/platform''),
      (''release_commit'', PStr (replicate 40 (CHR ''c''))), (''release_ref'', PStr ''release/platform-v0.8.2''),
      (''platform_version'', PStr ''0.8.2''), (''manifest_sha256'', PStr (replicate 64 (CHR ''a''))),
      (''workflow_run_id'', PStr ''72''), (''workflow_run_attempt'', PInt 1),
      (''recovery_transition'', recovery_value)]"

definition gap_transition :: transition where
  "gap_transition =
     \<lparr>tr_policy_id = V08_GAP_POLICY_ID, tr_policy_sha256 = replicate 64 (CHR ''a''), tr_purpose = ''production-recovery'',
      tr_releases = recovery_releases\<rparr>"

definition recovery_request :: deployment_request where
  "recovery_request =
     \<lparr>rq_mode = ''deploy'', rq_repository = ''buh/platform'', rq_release_commit = replicate 40 (CHR ''c''),
      rq_release_ref = ''release/platform-v0.8.2'', rq_platform_version = ''0.8.2'',
      rq_manifest_sha256 = replicate 64 (CHR ''a''), rq_workflow_run_id = ''72'', rq_workflow_run_attempt = 1,
      rq_recovery_transition = Some gap_transition\<rparr>"

definition recovery_library :: library where
  "recovery_library =
     sample_library [old_manifest, next_manifest, recovery_order, []]
       [(text_of old_manifest, ''025a59f242337bc47b9af313a319a57a992af93854bce9f5749381547dcfd450''),
        (text_of next_manifest, ''ac7e338da9232e53bae216aa86f32967e918928009d34b59f6a7e5c5fdbcf675'')]"

section \<open>The texts differ\<close>

lemma fourth_characters:
  "text_of old_manifest ! 3 = CHR ''o''" "text_of next_manifest ! 3 = CHR ''h''"
  "text_of recovery_order ! 3 = CHR ''a''" "text_of V08_GAP_POLICY ! 3 = CHR ''a''" "text_of [] ! 2 = LF"
  "text_of old_manifest ! 2 = CHR ''c''" "text_of next_manifest ! 2 = CHR ''c''" "text_of recovery_order ! 2 = CHR ''m''"
proof -
  have starts: "starts_with (text_of old_manifest) (CHR ''{'' # json_string ''compatibility'')"
    "starts_with (text_of next_manifest) (CHR ''{'' # json_string ''changes'')"
    "starts_with (text_of recovery_order) (CHR ''{'' # json_string ''manifest_sha256'')"
    "starts_with (text_of V08_GAP_POLICY) (CHR ''{'' # json_string ''baseline'')"
    by (rule text_of_start; simp add: old_manifest_def next_manifest_def recovery_order_def V08_GAP_POLICY_def; code_simp)+
  have texts: "json_string ''compatibility'' = CHR 0x22 # ''compatibility'' @ [CHR 0x22]"
    "json_string ''changes'' = CHR 0x22 # ''changes'' @ [CHR 0x22]"
    "json_string ''manifest_sha256'' = CHR 0x22 # ''manifest_sha256'' @ [CHR 0x22]"
    "json_string ''baseline'' = CHR 0x22 # ''baseline'' @ [CHR 0x22]"
    by code_simp+
  show "text_of old_manifest ! 3 = CHR ''o''" "text_of next_manifest ! 3 = CHR ''h''"
    "text_of recovery_order ! 3 = CHR ''a''" "text_of V08_GAP_POLICY ! 3 = CHR ''a''" "text_of [] ! 2 = LF"
    "text_of old_manifest ! 2 = CHR ''c''" "text_of next_manifest ! 2 = CHR ''c''" "text_of recovery_order ! 2 = CHR ''m''"
    using starts_with_nth [OF starts(1), of 3] starts_with_nth [OF starts(2), of 3] starts_with_nth [OF starts(3), of 3]
      starts_with_nth [OF starts(4), of 3] starts_with_nth [OF starts(1), of 2] starts_with_nth [OF starts(2), of 2]
      starts_with_nth [OF starts(3), of 2]
    by (simp_all add: texts empty_text)
qed

lemma line_feed: "LF \<noteq> CHR ''c''" "LF \<noteq> CHR ''m''" "LF \<noteq> CHR ''}''"
  by code_simp+

lemma texts_differ:
  "text_of old_manifest \<noteq> text_of next_manifest" "text_of old_manifest \<noteq> text_of recovery_order"
  "text_of next_manifest \<noteq> text_of recovery_order" "text_of V08_GAP_POLICY \<noteq> text_of old_manifest"
  "text_of V08_GAP_POLICY \<noteq> text_of next_manifest" "text_of old_manifest \<noteq> text_of []" "text_of next_manifest \<noteq> text_of []"
  "text_of recovery_order \<noteq> text_of []"
proof -
  have different: "s ! n \<noteq> t ! n \<Longrightarrow> s \<noteq> t" for s t :: string and n
    by auto
  show "text_of old_manifest \<noteq> text_of next_manifest" "text_of old_manifest \<noteq> text_of recovery_order"
    "text_of next_manifest \<noteq> text_of recovery_order" "text_of V08_GAP_POLICY \<noteq> text_of old_manifest"
    "text_of V08_GAP_POLICY \<noteq> text_of next_manifest"
    by (rule different [of _ 3], simp add: fourth_characters)+
  show "text_of old_manifest \<noteq> text_of []" "text_of next_manifest \<noteq> text_of []" "text_of recovery_order \<noteq> text_of []"
    by (rule different [of _ 2], simp add: fourth_characters line_feed [symmetric])+
qed

lemma not_a_text: "text_of d \<noteq> ''{}''"
proof
  assume "text_of d = ''{}''"
  then have "last (text_of d) = last ''{}''"
    by simp
  then show False
    by (simp add: text_of_def canonical_json_def line_feed)
qed

lemma sample_digests:
  "lb_sha256 recovery_library (text_of old_manifest) = ri_manifest_sha256 (read_identity RELEASE_0_8_0)"
  "lb_sha256 recovery_library (text_of next_manifest) = ri_manifest_sha256 (read_identity RELEASE_0_8_1)"
  "lb_sha256 recovery_library (text_of V08_GAP_POLICY) = replicate 64 (CHR ''a'')"
  "lb_sha256 recovery_library ''{}'' = replicate 64 (CHR ''a'')"
  using texts_differ(1,4,5) not_a_text [of old_manifest] not_a_text [of next_manifest]
  by (simp_all add: recovery_library_def sample_library_def read_identity_def RELEASE_0_8_0_def RELEASE_0_8_1_def get_key_def)

lemma recovery_documents:
  assumes "text_bound (PDict d) < int limit" and "d \<in> {old_manifest, next_manifest, recovery_order}"
  shows "load_json recovery_library (document_file d mode) limit place = Inr d"
proof -
  from assms(2) consider "d = old_manifest" | "d = next_manifest" | "d = recovery_order"
    by blast
  then show ?thesis
  proof cases
    case 1
    then show ?thesis
      using load_document [of d "[]" limit] assms(1) by (simp add: recovery_library_def)
  next
    case 2
    then show ?thesis
      using load_document [of d "[old_manifest]" limit] assms(1) texts_differ(1) by (simp add: recovery_library_def)
  next
    case 3
    then show ?thesis
      using load_document [of d "[old_manifest, next_manifest]" limit] assms(1) texts_differ(2,3)
      by (simp add: recovery_library_def)
  qed
qed

section \<open>The request\<close>

lemma policy_digest: "transition_policy_sha256 recovery_library V08_GAP_POLICY = replicate 64 (CHR ''a'')"
  using sample_digests(3) by (simp add: transition_policy_sha256_def text_of_def recovery_library_def)

lemma recovery_fields:
  "get_key recovery_order ''schema_version'' = PInt 2" "get_key recovery_order ''mode'' = PStr ''deploy''"
  "get_key recovery_order ''repository'' = PStr ''buh/platform''"
  "get_key recovery_order ''release_commit'' = PStr (replicate 40 (CHR ''c''))"
  "get_key recovery_order ''release_ref'' = PStr ''release/platform-v0.8.2''"
  "get_key recovery_order ''platform_version'' = PStr ''0.8.2''"
  "get_key recovery_order ''manifest_sha256'' = PStr (replicate 64 (CHR ''a''))"
  "get_key recovery_order ''workflow_run_id'' = PStr ''72''"
  "get_key recovery_order ''workflow_run_attempt'' = PInt 1"
  "get_key recovery_order ''recovery_transition'' = recovery_value"
  by (simp_all add: recovery_order_def get_key_def)

lemma recovery_keys:
  "strict_keys place (request_fields @ [''recovery_transition'']) (request_fields @ [''recovery_transition'']) recovery_order = Inr ()"
  by (simp add: strict_keys_def recovery_order_def request_fields_def require_def)

lemma recovery_texts:
  "SEMVER_RE ''0.8.2''" "release_ref ''0.8.2'' = ''release/platform-v0.8.2''" "run_id_re ''72''"
  by code_simp+

lemma recovery_identity:
  "validate_release_identity place (identity_value (read_identity RELEASE_0_8_0)) = Inr (read_identity RELEASE_0_8_0)"
  "validate_release_identity place (identity_value (read_identity RELEASE_0_8_1)) = Inr (read_identity RELEASE_0_8_1)"
  "validate_release_identity place (identity_value target_identity) = Inr target_identity"
  by code_simp+

lemma recovery_identities: "validate_identities place (map identity_value recovery_releases) = Inr recovery_releases"
  by (simp add: validate_identities_def recovery_releases_def recovery_identity)

lemma recovery_published: "published_releases V08_GAP_POLICY = butlast recovery_releases"
  by (simp add: published_releases_def V08_GAP_POLICY_def get_key_def recovery_releases_def)

lemma recovery_order_exact: "recovery_exact (PStr ''production-recovery'') (PStr V08_GAP_POLICY_ID) recovery_releases (butlast recovery_releases)"
  by code_simp

lemma transition_loaded: "load_recovery recovery_library policy recovery_value recovery_order = Inr gap_transition"
proof -
  have value_keys: "has_keys recovery_value [''policy_id'', ''policy_sha256'', ''purpose'', ''releases'']"
    by (simp add: has_keys_def recovery_value_def same_keys_def)
  have value_fields:
    "get_key (the_dict recovery_value) ''policy_id'' = PStr V08_GAP_POLICY_ID"
    "get_key (the_dict recovery_value) ''policy_sha256'' = PStr (replicate 64 (CHR ''a''))"
    "get_key (the_dict recovery_value) ''purpose'' = PStr ''production-recovery''"
    "get_key (the_dict recovery_value) ''releases'' = PList (map identity_value recovery_releases)"
    by (simp_all add: recovery_value_def get_key_def)
  have targets: "targets_request (last recovery_releases) recovery_order"
    by (simp add: targets_request_def recovery_fields recovery_releases_def target_identity_def)
  have ends: "length recovery_releases = 3" "last recovery_releases = target_identity"
    "last recovery_releases \<noteq> last (published_releases V08_GAP_POLICY)"
    by (simp_all add: recovery_releases_def recovery_published target_identity_def read_identity_def RELEASE_0_8_1_def get_key_def)
  have policy: "load_transition_policy recovery_library policy (PStr V08_GAP_POLICY_ID) = Inr V08_GAP_POLICY"
    "get_key V08_GAP_POLICY ''policy_id'' = PStr V08_GAP_POLICY_ID"
    by (simp_all add: load_transition_policy_def V08_GAP_POLICY_def get_key_def)
  show ?thesis
    using recovery_order_exact ends(3)
    by (simp add: load_recovery_def Let_def require_def value_keys value_fields policy as_deployment_error_def
        policy_digest recovery_identities targets ends(1) recovery_published gap_transition_def)
qed

lemma recovery_loaded:
  "load_request recovery_library policy (document_file recovery_order mode) = Inr recovery_request"
proof -
  have "text_bound (PDict recovery_order) < int MAX_REQUEST_BYTES"
    by (simp add: recovery_order_def recovery_value_def recovery_releases_def identity_value_def read_identity_def
        RELEASE_0_8_0_def RELEASE_0_8_1_def target_identity_def V08_GAP_POLICY_ID_def get_key_def MAX_REQUEST_BYTES_def
        show_int_def show_nat.simps)
  then have "load_json recovery_library (document_file recovery_order mode) MAX_REQUEST_BYTES ''deployment request'' = Inr recovery_order"
    by (rule recovery_documents) simp
  then show ?thesis
    using transition_loaded [of policy]
    unfolding load_request_def
    by (simp add: Let_def recovery_fields recovery_keys recovery_texts order_texts str_matching_def require_def
        recovery_request_def hashable_def)
qed

section \<open>The archive of the recovery\<close>

definition target_manifest :: "(string \<times> pyval) list" where
  "target_manifest =
     [(''compatibility'', next_compatibility), (''deployment_recovery'', manifest_recovery recovery_library V08_GAP_POLICY),
      (''platform_id'', PStr ''buh-allianceauth''), (''platform_version'', PStr ''0.8.2''),
      (''previous_release'', predecessor (read_identity RELEASE_0_8_1)),
      (''source_commit'', PStr (replicate 40 (CHR ''d'')))]"

definition recovery_validator :: validator where
  "recovery_validator = \<lparr>va_release = (\<lambda>t. Inr target_manifest), va_manifest = (\<lambda>v. True)\<rparr>"

definition recovery_tree :: tree where
  "recovery_tree =
     \<lparr>tree_nodes =
        [([''lineage'', ''v0.8.1.RELEASE.json''], Regular (text_of next_manifest) (Some 420)),
         ([''lineage'', ''v0.8.0.RELEASE.json''], Regular (text_of old_manifest) (Some 420)), ([''lineage''], Directory),
         ([''release'', ''INSTALL_PLAN.json''], Regular (text_of []) (Some 420)),
         ([''release'', ''RELEASE.json''], Regular ''{}'' (Some 420)), ([''release''], Directory),
         ([''REQUEST.json''], Regular (text_of recovery_order) (Some 384)), ([], Directory)],
      tree_calls = 21\<rparr>"

definition recovery_bundle :: validated_bundle where
  "recovery_bundle =
     \<lparr>vb_request = recovery_request, vb_manifest = target_manifest, vb_install_plan = PDict [],
      vb_lineage = [old_manifest, next_manifest]\<rparr>"

lemma lineage_names:
  "lineage_file (read_identity RELEASE_0_8_0) = ''v0.8.0.RELEASE.json''"
  "lineage_file (read_identity RELEASE_0_8_1) = ''v0.8.1.RELEASE.json''"
  by code_simp+

lemma lineage_nodes:
  "node_at recovery_tree [''lineage'', ''v0.8.0.RELEASE.json''] = document_file old_manifest (Some 420)"
  "node_at recovery_tree [''lineage'', ''v0.8.1.RELEASE.json''] = document_file next_manifest (Some 420)"
  "node_at recovery_tree [''REQUEST.json''] = document_file recovery_order (Some 384)"
  "node_at recovery_tree [''lineage''] = Some Directory"
  "node_at recovery_tree [''release'', ''RELEASE.json''] = Some (Regular ''{}'' (Some 420))"
  "node_at recovery_tree [''release'', ''INSTALL_PLAN.json''] = Some (Regular (text_of []) (Some 420))"
  by (simp_all add: node_at_def recovery_tree_def document_file_def)

lemma lineage_entries_tree:
  "lineage_entries recovery_tree = [(''v0.8.1.RELEASE.json'', Regular (text_of next_manifest) (Some 420)),
     (''v0.8.0.RELEASE.json'', Regular (text_of old_manifest) (Some 420))]"
  by (simp add: lineage_entries_def recovery_tree_def)

lemma manifests_safe: "compatibility_safe old_manifest" "compatibility_safe next_manifest"
  by code_simp+

lemma manifest_sizes:
  "text_bound (PDict old_manifest) < int (nat MAX_FILE_BYTES)" "text_bound (PDict next_manifest) < int (nat MAX_FILE_BYTES)"
  by (simp_all add: old_manifest_def next_manifest_def next_compatibility_def old_values_def next_values_def predecessor_def
      read_identity_def RELEASE_0_8_0_def get_key_def MAX_FILE_BYTES_def)

lemma manifest_documents:
  "load_json recovery_library (document_file old_manifest mode) (nat MAX_FILE_BYTES) place = Inr old_manifest"
  "load_json recovery_library (document_file next_manifest mode) (nat MAX_FILE_BYTES) place = Inr next_manifest"
  by (rule recovery_documents [OF manifest_sizes(1)], simp) (rule recovery_documents [OF manifest_sizes(2)], simp)

lemma manifest_identities:
  "identity_matches recovery_library (read_identity RELEASE_0_8_0) PNone (document_file old_manifest mode) old_manifest"
  "identity_matches recovery_library (read_identity RELEASE_0_8_1) (predecessor (read_identity RELEASE_0_8_0))
     (document_file next_manifest mode) next_manifest"
proof -
  have "py_eq (get_key next_manifest ''previous_release'') (predecessor (read_identity RELEASE_0_8_0))"
    by code_simp
  then show "identity_matches recovery_library (read_identity RELEASE_0_8_1) (predecessor (read_identity RELEASE_0_8_0))
     (document_file next_manifest mode) next_manifest"
    by (simp add: identity_matches_def sha256_file_def document_file_def sample_digests)
      (simp add: next_manifest_def read_identity_def RELEASE_0_8_1_def get_key_def)
  show "identity_matches recovery_library (read_identity RELEASE_0_8_0) PNone (document_file old_manifest mode) old_manifest"
    by (simp add: identity_matches_def sha256_file_def document_file_def sample_digests)
      (simp add: old_manifest_def read_identity_def RELEASE_0_8_0_def get_key_def)
qed

definition lineage_end :: lineage_state where
  "lineage_end =
     \<lparr>ls_previous = predecessor (read_identity RELEASE_0_8_1),
      ls_compatibility = PStr ''79ed7d91eea4d620d1c25fa5e6e21f8f81b885fe3c7ef397ec560f22c444ade3'',
      ls_image = PStr (''python:3.11@sha256:'' @ replicate 64 (CHR ''e'')), ls_manifests = [old_manifest, next_manifest]\<rparr>"

lemma lineage_followed:
  "lineage_rounds recovery_library recovery_validator V08_GAP_POLICY recovery_tree 0 (butlast recovery_releases) lineage_start
     = Inr lineage_end"
proof -
  have bytes: "canonical_json (lb_float recovery_library) (PDict d) = bytes_of (document_file d mode)" for d mode
    by (simp add: document_file_def text_of_def recovery_library_def)
  have policy: "get_key V08_GAP_POLICY ''policy_id'' = PStr V08_GAP_POLICY_ID"
    by (simp add: V08_GAP_POLICY_def get_key_def)
  have boundary: "part (get_key old_manifest ''compatibility'') ''sha256'' = ls_compatibility lineage_end"
    "base_image old_manifest = ls_image lineage_end"
    by code_simp+
  show ?thesis
    by (simp add: recovery_releases_def lineage_round_def Let_def require_def lineage_names lineage_nodes
        manifest_documents bytes manifests_safe manifest_identities lineage_start_def policy
        recovery_validator_def boundary) (simp add: lineage_end_def)
qed

lemma gap_accepted: "validate_v08_gap_compatibility (ls_manifests lineage_end) target_manifest = Inr ()"
  unfolding target_manifest_def manifest_recovery_def policy_digest by code_simp

lemma recovery_target_accepted: "target_accepted V08_GAP_POLICY target_manifest lineage_end"
  unfolding target_manifest_def manifest_recovery_def policy_digest by code_simp

lemma recovery_opt_in:
  "py_eq (get_key target_manifest ''deployment_recovery'') (manifest_recovery recovery_library V08_GAP_POLICY)"
  unfolding target_manifest_def manifest_recovery_def policy_digest by code_simp

lemma recovery_lineage_loaded:
  "load_recovery_lineage recovery_library policy recovery_validator recovery_tree gap_transition target_manifest
     = Inr [old_manifest, next_manifest]"
proof -
  have source: "get_key target_manifest ''source_commit'' = PStr (ri_source_commit (last recovery_releases))"
    by (simp add: target_manifest_def get_key_def recovery_releases_def target_identity_def)
  have policy: "load_transition_policy recovery_library policy (PStr V08_GAP_POLICY_ID) = Inr V08_GAP_POLICY"
    "get_key V08_GAP_POLICY ''policy_id'' = PStr V08_GAP_POLICY_ID"
    by (simp_all add: load_transition_policy_def V08_GAP_POLICY_def get_key_def)
  have "set (map fst (lineage_entries recovery_tree)) = set (map lineage_file (butlast recovery_releases))"
    by (auto simp: lineage_entries_tree recovery_releases_def lineage_names)
  moreover have "list_all (\<lambda>(x, n). is_regular (Some n)) (lineage_entries recovery_tree)"
    by (simp add: lineage_entries_tree)
  moreover have "ls_manifests lineage_end = [old_manifest, next_manifest]"
    by (simp add: lineage_end_def)
  ultimately show ?thesis
    using lineage_followed gap_accepted recovery_target_accepted recovery_opt_in
    by (simp add: load_recovery_lineage_def Let_def gap_transition_def source policy as_deployment_error_def
        require_def lineage_nodes)
qed

lemma recovery_bundle_loaded:
  "load_validated_bundle recovery_library policy recovery_validator recovery_tree sample_config = Inr recovery_bundle"
proof -
  have "lb_loads recovery_library (text_of []) = Some (PDict [])"
    using known_document [of "[]" "[old_manifest, next_manifest, recovery_order]" "[]"] texts_differ(6-8)
    by (simp add: recovery_library_def)
  moreover have "list_all is_ascii (text_of [])"
    by (simp add: empty_text) code_simp
  moreover have "get_key target_manifest ''platform_version'' = PStr ''0.8.2''"
    "get_key target_manifest ''platform_id'' = PStr ''buh-allianceauth''"
    by (simp_all add: target_manifest_def get_key_def)
  ultimately show ?thesis
    using recovery_lineage_loaded [of policy] sample_digests(4)
    by (simp add: load_validated_bundle_def Let_def require_def lineage_nodes recovery_loaded repository_agrees
        recovery_request_def recovery_validator_def sha256_file_def recovery_bundle_def)
qed

section \<open>Witnesses\<close>

lemma recovery_request_reviewed_witness:
  "\<exists>q t. load_request recovery_library None (document_file recovery_order None) = Inr q
    \<and> rq_recovery_transition q = Some t \<and> sorted_wrt (<) (map identity_version (tr_releases t))"
proof -
  have "rq_recovery_transition recovery_request = Some gap_transition"
    by (simp add: recovery_request_def)
  from recovery_request_reviewed [OF recovery_loaded [of None None] this] this show ?thesis
    using recovery_loaded by blast
qed

lemma recovery_manifests_linked_witness:
  "\<exists>b. load_validated_bundle recovery_library None recovery_validator recovery_tree sample_config = Inr b
    \<and> linked recovery_library PNone (butlast recovery_releases) (vb_lineage b) \<and> length (vb_lineage b) = 2"
proof -
  have "rq_recovery_transition (vb_request recovery_bundle) = Some gap_transition"
    by (simp add: recovery_bundle_def recovery_request_def)
  from recovery_manifests_linked [OF recovery_bundle_loaded [of None] this] recovery_bundle_loaded [of None] show ?thesis
    by (auto simp: gap_transition_def recovery_releases_def)
qed

end
