(* ===== verification/Spec2Isabelle.thy ===== *)
theory Spec2Isabelle
  imports MT_Tasks MT_Access Deploy_Samples Retry_Budget Health_Witnesses Receiver_Witnesses Recovery_Samples
begin

text \<open>
  B-UH Alliance Auth is a set of Django applications and host tools for an EVE Online
  corporation. This development models five of its programs, those that hold decisions of
  their own, and states what each of them guarantees.

  \<^bold>\<open>1. Moon Tax\<close> (\<open>apps/moon-tax/src/buh_moon_tax\<close>). An audit turns extractions and mining
  ledgers into priced lines, lines into bills, wallet entries and contracts into payment
  candidates; directors decide the candidates, adjust bills and exempt members.
  \<^item> \<open>Table\<close>: a database table as rows in insertion order with the next primary key. Every
    service is one transaction: on an exception the caller keeps the state before it.
  \<^item> \<open>MT_Model\<close>: models.py. One record per model, one datatype per \<open>TextChoices\<close>, the \<open>clean\<close>
    methods and properties. \<open>MT_Exemptions\<close>: exemptions.py.
  \<^item> \<open>MT_Payments\<close>: payments.py, function by function. \<open>MT_Books\<close> states \<open>sound\<close>: every bill and
    period agrees with its lines, adjustments and allocations, and every reference exists.
    \<open>MT_Decisions\<close> is the contract of a director's decision (\<open>settles\<close>: whole payment
    accounted for, oldest bill first, own bills only), \<open>MT_Adjustments\<close> the reversible
    adjustments and exactly what taking one back leaves, \<open>MT_Reconcile\<close> the exclusion of exempt
    payers.
  \<^item> \<open>MT_Pricing\<close>: pricing.py and app_settings.py; the valuation against buy orders, which
    is the exact maximum over all ways of selling to them, and the price snapshots.
  \<^item> \<open>MT_Periods\<close>, \<open>MT_Billing\<close>, \<open>MT_Auditor\<close>: auditor.py in its three parts: periods and lines,
    bills, imports, announcements and \<open>reconcile\<close>, which composes all of them.
  \<^item> \<open>MT_Tasks\<close>: tasks.py with the button of views.py and the command buh_moon_tax_audit.py;
    \<open>MT_Access\<close>: access.py and access_roles.py.
  \<^item> \<open>MT_Samples\<close>, \<open>MT_AuditSamples\<close>: a small database on which the properties are exercised.

  \<^bold>\<open>2. Deployment\<close> (\<open>ops/deploy\<close>). A request is received on the host, checked, and run by an
  engine that journals every stage on disk before the next operation starts.
  \<^item> \<open>PyValue\<close>: values of JSON documents, exceptions and text operations. \<open>Effects\<close>: statements
    that change a state and may raise; an exception does not undo what was done before it.
  \<^item> \<open>Deploy_Journal\<close>: the record of an attempt (\<open>DeploymentJournal\<close>, \<open>PreflightJournal\<close> and the
    journal functions of engine.py, \<open>redact_sensitive_text\<close> of contracts.py).
  \<^item> \<open>Deploy_Engine\<close>: \<open>DeploymentEngine\<close> and \<open>PreflightEngine\<close> with the guard that defers
    termination signals and the atomic writes of the journal and of the current pointer.
  \<^item> \<open>Deploy_Frames\<close>: what a statement leaves alone, whatever the host answers.
    \<open>Deploy_Protocol\<close>: the protocol as an inductive step relation on phases and the proof that
    every run of the engine is one of its paths. \<open>Deploy_Results\<close>: the promises drawn from it.
    \<open>Deploy_Samples\<close>: concrete hosts.
  \<^item> \<open>Contract_Text\<close>: what the documents are read with: equality of Python values, canonical
    JSON, paths, the full matches of the compiled patterns, version numbers (a \<open>linorder\<close>), checks
    in a row (\<open>require\<close>, \<open>each_result\<close>) and the record \<open>library\<close> of what is decoded and hashed
    with. \<open>Recovery_Policy\<close>: recovery_policy.py of \<open>ops/release\<close>.
  \<^item> \<open>Deploy_Request\<close>, \<open>Deploy_Config\<close>, \<open>Deploy_Archive\<close>, \<open>Deploy_Bundle\<close>: contracts.py in four
    parts: the field checks and \<open>DeploymentRequest\<close>; \<open>ReceiverConfig.load\<close>, one definition per
    group of fields in the order of the code; \<open>extract_archive\<close> over a tree of named nodes, where
    every call of the operating system may fail; \<open>load_validated_bundle\<close> with the lineage of a
    recovery, and what the engine's journal copies of the bundle.
  \<^item> \<open>Deploy_Receiver\<close>: receiver.py: the forced mode, the lock, the recovery of an attempt that
    died (recover_incomplete_plan of docker_host.py), one archive, one run of \<open>Deploy_Engine\<close>
    on the record \<open>process\<close>, the exit code.
  \<^item> \<open>Archive_Results\<close>: the invariant \<open>confined\<close> of the extraction and its exactness.
    \<open>Contract_Results\<close>: what an accepted request and an accepted configuration satisfy.
    \<open>Receiver_Results\<close>: frames (\<open>idle\<close>, \<open>same_locks\<close>) and the promises of the receiver, composed
    with those of the engine; \<open>Receiver_Progress\<close>: the receiver delivers. \<open>Receiver_Samples\<close>,
    \<open>Recovery_Samples\<close>, \<open>Receiver_Witnesses\<close>: a configuration, a deployment and a recovery.
  \<^bold>\<open>3. Retry budget\<close> (\<open>ops/recovery/retry_budget.py\<close>): \<open>Retry_Budget\<close>, which sections of a
  recovery are retried, how often, and what is remembered; \<open>accounted\<close> is the account every record
  of the returned state obeys.

  \<^bold>\<open>4. VPS Health, the host agent\<close> (\<open>apps/vps-health/src/host-agent/buh-vps-health-agent.py\<close>). A
  socket server on the host that performs guarded operations: restart the application, change
  the number of workers, check for updates.
  \<^item> \<open>Health_Env\<close>: the worker count in the environment file and the names of the services.
  \<^item> \<open>Health_Host\<close>: the state of the agent, and the host as a world of answers. \<open>Health_Scan\<close>: the
    update scan, command by command, with its regular expressions, the order of versions and
    what it reports; \<open>inspects\<close> lists its commands word for word.
  \<^item> \<open>Health_Agent\<close>: token check, admission of a request, the stages of an operation's thread, the
    documents it leaves, the start of the process.
  \<^item> \<open>Health_Steps\<close>: the agent as a system of threads. A request thread checks a request, then
    waits for the lock; each admitted operation has one performer; the process may die at any
    moment and start anew. \<open>live_step\<close> and \<open>agent_step\<close> are the interleavings, \<open>guarded\<close> and
    \<open>confined\<close> the invariants by rule induction on \<open>agent_reachable\<close>. \<open>Health_Results\<close>: exclusiveness,
    confinement of the commands, termination, restarts. \<open>Health_Samples\<close>: a concrete host.

  \<^bold>\<open>5. VPS Health, the application\<close> (\<open>apps/vps-health/src/buh_vps_health\<close>).
  \<^item> \<open>Health_Alerts\<close>: services.py, tasks.py, models.py: snapshots, normalised file systems, the
    alerts raised and resolved from them, their announcement, and the monitoring round.
  \<^item> \<open>Health_Monitor\<close>: the locale \<open>alert_board\<close>, an abstract board of switches which \<open>set_alert\<close>
    implements; \<open>Health_Rounds\<close>: normalisation, announcements and failing rounds.
  \<^item> \<open>Health_Console\<close>: views.py, agent_client.py and the synchronisation of services.py,
    composed with the agent's \<open>handle_request\<close> of \<open>Health_Agent\<close>; \<open>Health_Requests\<close>: what a
    director's request comes to at both ends. \<open>Health_Witnesses\<close>: concrete inputs.

  \<^bold>\<open>Interfaces.\<close> The locales name what one part promises another: \<open>row_store\<close> (the tables),
  \<open>guarded_machine\<close> (services whose every accepted step keeps an invariant),
  \<open>monotone_machine\<close>, which extends it (what a step settles, no later step changes), and
  \<open>alert_board\<close> (the alert table); each is interpreted on the model's own
  definitions in the theory of its provider.

  \<^bold>\<open>What the groups of properties show.\<close> Money: no service or audit breaks the books, no ISK of
  a payment or a tax is lost or counted twice, decided bills and closed periods are left
  alone. Deployment: the engine follows its protocol for every backend, records a stage before
  it operates, rolls back at most once, publishes only what succeeded, recovers undisturbed by
  signals, and completes on a healthy host. Receiver: the engine runs only on what was
  validated, apart from the rollback of an attempt that died, a preflight key cannot deploy, nothing is written outside the archive's places,
  code 0 tells the truth, the lock is always released, a recovery follows the reviewed chain.
  Agent: one guarded operation at a time in every
  interleaving, only the reviewed commands, every admitted operation ends and is recorded, a
  restart closes what was interrupted; the one way to keep the lock is a disk that refuses a write. Application: alerts follow the telemetry, missing
  telemetry raises no data alert, each alert is announced once, settled actions are final.
  The findings of the manifest are the places where the code does less than it says.

  \<^bold>\<open>Parameters.\<close> Code outside the repository is an argument of the model and nothing is assumed
  of it beyond the named hypotheses of a property: the deployment backend, the clock and the
  disk are worlds that answer by question number (so the same question may be answered
  differently every time); a termination signal is polled at backend calls and between the
  steps of a write; the backend's own writes belong to its world. Likewise the ESI session,
  hashing, the tar reader, the release validator, the permission backends, the notification
  framework, the workload inspection, the recovery plan of an attempt that died and the rollback it
  calls for. In the engine the pointer to the current release is written by the engine alone: a
  rollback of the backend that puts back the pointer of before, which DockerHost makes once
  publication has begun, is outside; the rollback that the receiver asks for an attempt that died
  may put back or remove it.

  \<^bold>\<open>Numbers, bounds and fuel.\<close> Python integers are unbounded and are \<open>int\<close>; decimals and floats
  are exact rationals with the code's own rounding written out (\<open>quantize\<close>). The only fuel is
  the code's own: the eight rounds of \<open>redact_sensitive_text\<close>. \<open>perform_action\<close> terminates by a
  measure on the stage, \<open>copy_stream\<close> by the bytes that remain; every other loop is structural. Characters are the code points below
  256, a code point above 127 standing for any non-ASCII one.

  \<^bold>\<open>Not modelled.\<close> Rendered pages, forms, administration and settings (no state of their own);
  the commands docker_host.py gives the host (the engine's backend); the telemetry readers and
  the socket server of the agent; the release tools (git, GitHub and registry automation
  around signed documents, except the recovery policy); one-off operator scripts; the applications that only read or copy
  tables of third-party packages (structure operations, mining analytics, history, member
  registration). The limits of the JSON decoder on depth and on the digits of a number, the
  parser of the receiver's arguments, upper bounds the database puts on columns and decimal digits, and times at
  which a transaction could deadlock, are outside. The manifest lists every part.

  \<^bold>\<open>Plan.\<close> What could follow: the release validator (verify_release_dir of buh_release.py) in the
  place of the parameter of \<open>Deploy_Bundle\<close>; the file system telemetry of the agent composed
  with its normalisation; the upgrade of the receiver.
\<close>

end
